(* ===== verification/Prelude.thy ===== *)
theory Prelude
  imports Main "HOL-Library.Word"
begin

text \<open>
  Shared vocabulary of the development: the machine integers of the source, the outcomes of a
  call (a value, an unwinding panic, a fail-fast stop, or undefined behaviour), the sequencing of
  fallible calls, and the generic lemmas on outcomes, words and lists that the component
  theories use.
\<close>

section \<open>Machine integers\<close>

type_synonym u8 = "8 word"
type_synonym u16 = "16 word"
type_synonym u32 = "32 word"
type_synonym u64 = "64 word"
type_synonym usize = "64 word"

text \<open>Addresses are \<open>usize\<close> values; the null pointer is address 0.\<close>

type_synonym addr = usize

abbreviation null :: addr where
  "null \<equiv> 0"

text \<open>\<open>core::alloc::Layout\<close>: the size and the alignment of an allocation.\<close>

record Layout =
  layout_size :: usize
  layout_align :: usize

named_theorems outcome_simps \<open>rewriting of sequenced outcomes\<close>
named_theorems word_facts \<open>counting facts on machine words\<close>

section \<open>Outcomes\<close>

text \<open>
  \<open>Halt\<close> is one of the functions of type \<open>!\<close> of the source: the bug check of a driver build, the
  abort of a test build, the endless spin of the others. \<open>Undefined\<close> is a memory access that the
  safety contracts of the source exclude: a dereference of a freed block, of a null pointer, of
  a pointer of the wrong kind, or a second drop of the same value.
\<close>

datatype halt =
    RefcountViolation
  | ResurrectionViolation
  | FailFast

datatype 'a outcome =
    Return 'a
  | Panic
  | Halt halt
  | Undefined

primrec and_then :: "'a outcome \<Rightarrow> ('a \<Rightarrow> 'b outcome) \<Rightarrow> 'b outcome" where
  "and_then (Return x) f = f x"
| "and_then Panic f = Panic"
| "and_then (Halt h) f = Halt h"
| "and_then Undefined f = Undefined"

primrec returns :: "'a outcome \<Rightarrow> bool" where
  "returns (Return x) = True"
| "returns Panic = False"
| "returns (Halt h) = False"
| "returns Undefined = False"

primrec ok_or_undefined :: "'a option \<Rightarrow> 'a outcome" where
  "ok_or_undefined None = Undefined"
| "ok_or_undefined (Some x) = Return x"

lemma and_then_eq_Return_iff [outcome_simps]:
  "and_then m f = Return y \<longleftrightarrow> (\<exists>x. m = Return x \<and> f x = Return y)"
  by (cases m) auto

lemma and_then_eq_Panic_iff [outcome_simps]:
  "and_then m f = Panic \<longleftrightarrow> m = Panic \<or> (\<exists>x. m = Return x \<and> f x = Panic)"
  by (cases m) auto

lemma and_then_assoc:
  "and_then (and_then m f) g = and_then m (\<lambda>x. and_then (f x) g)"
  by (cases m) auto

lemma and_then_Return_right [simp]: "and_then m Return = m"
  by (cases m) auto

lemma and_then_cong [fundef_cong]:
  assumes "m = m'" and "\<And>x. m' = Return x \<Longrightarrow> f x = f' x"
  shows "and_then m f = and_then m' f'"
  using assms by (cases m') auto

lemma returns_iff: "returns m \<longleftrightarrow> (\<exists>x. m = Return x)"
  by (cases m) auto

lemma ok_or_undefined_eq_Return_iff [outcome_simps]:
  "ok_or_undefined x = Return y \<longleftrightarrow> x = Some y"
  by (cases x) auto

lemma ok_or_undefined_neq_Panic [simp]: "ok_or_undefined x \<noteq> Panic"
  by (cases x) auto

section \<open>Words as counters\<close>

lemma unat_eq_zero_iff [simp]: "unat w = 0 \<longleftrightarrow> w = (0 :: 'a::len word)"
  by (simp add: unat_0_iff)

lemma unat_suc [word_facts]:
  fixes w :: "'a::len word"
  assumes "unat w + 1 < 2 ^ LENGTH('a)"
  shows "unat (w + 1) = unat w + 1"
  using assms unat_add_lem [of w 1] by simp

lemma unat_pred [word_facts]:
  fixes w :: "'a::len word"
  assumes "0 < unat w"
  shows "unat (w - 1) = unat w - 1"
  using assms by (intro unat_minus_one) auto

lemma unat_of_nat_small [word_facts]:
  "n < 2 ^ LENGTH('a) \<Longrightarrow> unat (of_nat n :: 'a::len word) = n"
  by (rule of_nat_inverse) auto

text \<open>Rust's checked addition: \<open>None\<close> where the sum does not fit.\<close>

definition checked_add :: "'a::len word \<Rightarrow> 'a word \<Rightarrow> 'a word option" where
  "checked_add a b = (if unat a + unat b < 2 ^ LENGTH('a) then Some (a + b) else None)"

lemma checked_add_eq_Some_iff:
  fixes a b c :: "'a::len word"
  shows "checked_add a b = Some c \<longleftrightarrow> unat c = unat a + unat b"
proof
  assume "checked_add a b = Some c"
  then show "unat c = unat a + unat b"
    by (auto simp: checked_add_def unat_add_lem split: if_splits)
next
  assume sum: "unat c = unat a + unat b"
  have "unat c < 2 ^ LENGTH('a)" by (rule unsigned_less)
  with sum have fits: "unat a + unat b < 2 ^ LENGTH('a)" by simp
  then have "unat (a + b) = unat c"
    using sum unat_add_lem [of a b] by simp
  then show "checked_add a b = Some c"
    using fits by (simp add: checked_add_def word_unat_eq_iff)
qed

lemma checked_add_fits:
  fixes a b :: "'a::len word"
  assumes "unat a + unat b < 2 ^ LENGTH('a)"
  obtains c where "checked_add a b = Some c" "unat c = unat a + unat b"
proof -
  have "checked_add a b = Some (a + b)" using assms by (simp add: checked_add_def)
  with that show ?thesis using checked_add_eq_Some_iff by blast
qed

end
