(* ===== verification/Iunknown.thy ===== *)
theory Iunknown
  imports Prelude
begin

text \<open>
  The status codes, the \<open>Status\<close> newtype, its conversions to results, the \<open>IntoNtStatus\<close>
  conversions of method results and the interface identifiers of \<open>src/iunknown.rs\<close>, together
  with the interface matching helper of \<open>src/vtable.rs\<close>.
\<close>

section \<open>Status codes\<close>

text \<open>An \<open>NTSTATUS\<close> is an \<open>i32\<close>; its sign is read with \<open>sint\<close>.\<close>

type_synonym NTSTATUS = "32 word"

definition STATUS_SUCCESS :: NTSTATUS where
  "STATUS_SUCCESS = 0"

definition STATUS_PENDING :: NTSTATUS where
  "STATUS_PENDING = 0x00000103"

definition STATUS_UNSUCCESSFUL :: NTSTATUS where
  "STATUS_UNSUCCESSFUL = 0xC0000001"

definition STATUS_INVALID_PARAMETER :: NTSTATUS where
  "STATUS_INVALID_PARAMETER = 0xC000000D"

definition STATUS_NOT_SUPPORTED :: NTSTATUS where
  "STATUS_NOT_SUPPORTED = 0xC00000BB"

definition STATUS_CANCELLED :: NTSTATUS where
  "STATUS_CANCELLED = 0xC0000120"

definition STATUS_NOINTERFACE :: NTSTATUS where
  "STATUS_NOINTERFACE = 0xC00002B9"

definition STATUS_INSUFFICIENT_RESOURCES :: NTSTATUS where
  "STATUS_INSUFFICIENT_RESOURCES = 0xC000009A"

lemmas status_defs =
  STATUS_SUCCESS_def STATUS_PENDING_def STATUS_UNSUCCESSFUL_def STATUS_INVALID_PARAMETER_def
  STATUS_NOT_SUPPORTED_def STATUS_CANCELLED_def STATUS_NOINTERFACE_def
  STATUS_INSUFFICIENT_RESOURCES_def

datatype Status = Status (status_raw: NTSTATUS)

definition from_raw :: "NTSTATUS \<Rightarrow> Status" where
  "from_raw raw = Status raw"

definition into_raw :: "Status \<Rightarrow> NTSTATUS" where
  "into_raw s = status_raw s"

definition is_success :: "Status \<Rightarrow> bool" where
  "is_success s \<longleftrightarrow> sint (status_raw s) \<ge> 0"

definition is_error :: "Status \<Rightarrow> bool" where
  "is_error s \<longleftrightarrow> sint (status_raw s) < 0"

text \<open>\<open>Result<T, E>\<close> is the sum type, \<open>Inl\<close> holding the error.\<close>

definition to_result :: "Status \<Rightarrow> Status + unit" where
  "to_result s = (if is_success s then Inr () else Inl s)"

datatype 'a PendingResult = Ready 'a | Pending

definition to_pending_result :: "Status \<Rightarrow> Status + unit PendingResult" where
  "to_pending_result s =
     (if status_raw s = STATUS_PENDING then Inr Pending
      else if is_success s then Inr (Ready ())
      else Inl s)"

section \<open>Method results as status codes\<close>

definition status_into_ntstatus :: "Status \<Rightarrow> NTSTATUS" where
  "status_into_ntstatus s = status_raw s"

text \<open>\<open>into\<close> is the \<open>Into<NTSTATUS>\<close> conversion of the error type.\<close>

definition result_into_ntstatus :: "('e \<Rightarrow> NTSTATUS) \<Rightarrow> 'e + 'a \<Rightarrow> NTSTATUS" where
  "result_into_ntstatus into r = (case r of Inr _ \<Rightarrow> STATUS_SUCCESS | Inl err \<Rightarrow> into err)"

section \<open>Interface identifiers\<close>

record GUID =
  data1 :: u32
  data2 :: u16
  data3 :: u16
  data4 :: "u8 list"

definition IID_IUNKNOWN :: GUID where
  "IID_IUNKNOWN = \<lparr>data1 = 0, data2 = 0, data3 = 0,
     data4 = [0xC0, 0, 0, 0, 0, 0, 0, 0x46]\<rparr>"

text \<open>\<open>iid\<close> is the constant \<open>T::IID\<close> of the interface the helper is instantiated with.\<close>

definition match_interface_ptr :: "GUID \<Rightarrow> GUID \<Rightarrow> addr \<Rightarrow> addr option" where
  "match_interface_ptr iid riid ptr =
     (if riid \<noteq> iid then None else if ptr = null then None else Some ptr)"

section \<open>Properties\<close>

lemma status_pending_is_success: "is_success (Status STATUS_PENDING)"
  by (simp add: is_success_def STATUS_PENDING_def)

lemma is_error_iff_not_success: "is_error s \<longleftrightarrow> \<not> is_success s"
  by (auto simp: is_error_def is_success_def)

lemma failure_codes_are_errors:
  "is_error (Status STATUS_UNSUCCESSFUL)" "is_error (Status STATUS_INVALID_PARAMETER)"
  "is_error (Status STATUS_NOT_SUPPORTED)" "is_error (Status STATUS_CANCELLED)"
  "is_error (Status STATUS_NOINTERFACE)" "is_error (Status STATUS_INSUFFICIENT_RESOURCES)"
  by (simp_all add: is_error_def status_defs)

lemma status_codes_distinct:
  "distinct [STATUS_SUCCESS, STATUS_PENDING, STATUS_UNSUCCESSFUL, STATUS_INVALID_PARAMETER,
     STATUS_NOT_SUPPORTED, STATUS_CANCELLED, STATUS_NOINTERFACE, STATUS_INSUFFICIENT_RESOURCES]"
  by (simp add: status_defs)

lemma to_pending_result_cases:
  "to_pending_result s = Inr Pending \<longleftrightarrow> s = Status STATUS_PENDING"
  "to_pending_result s = Inr (Ready ()) \<longleftrightarrow> is_success s \<and> s \<noteq> Status STATUS_PENDING"
  "to_pending_result s = Inl e \<longleftrightarrow> is_error s \<and> e = s"
  using status_pending_is_success
  by (cases s; auto simp: to_pending_result_def is_error_iff_not_success)+

end
