(* ===== verification/Memory.thy ===== *)
theory Memory
  imports Iunknown
begin

text \<open>
  Byte memory for the allocators: blocks of addresses, the raw writes of the source
  (\<open>ptr::write_bytes\<close>, a \<open>usize\<close> written or read through a pointer), and the arithmetic of
  aligned addresses.
\<close>

unbundle bit_operations_syntax

section \<open>Blocks, raw reads and writes\<close>

definition in_block :: "addr \<Rightarrow> addr \<Rightarrow> usize \<Rightarrow> bool" where
  "in_block x b n \<longleftrightarrow> x - b < n"

definition write_bytes_zero :: "addr \<Rightarrow> usize \<Rightarrow> (addr \<Rightarrow> u8) \<Rightarrow> addr \<Rightarrow> u8" where
  "write_bytes_zero p n m = (\<lambda>x. if in_block x p n then 0 else m x)"

text \<open>A \<open>usize\<close> in memory, least significant byte first.\<close>

definition write_usize :: "addr \<Rightarrow> usize \<Rightarrow> (addr \<Rightarrow> u8) \<Rightarrow> addr \<Rightarrow> u8" where
  "write_usize p v m =
     (\<lambda>x. if in_block x p 8 then ucast (drop_bit (8 * unat (x - p)) v) else m x)"

definition read_usize :: "addr \<Rightarrow> (addr \<Rightarrow> u8) \<Rightarrow> usize" where
  "read_usize p m =
     foldr (\<lambda>i v. push_bit 8 v OR ucast (m (p + of_nat i))) [0..<8] 0"

section \<open>Laws\<close>

lemma write_usize_byte:
  "i < 8 \<Longrightarrow> write_usize p v m (p + of_nat i) = ucast (drop_bit (8 * i) v)"
  by (simp add: write_usize_def in_block_def word_less_nat_alt unat_of_nat_small)

lemma usize_byte_step:
  fixes v :: usize
  shows "push_bit 8 (drop_bit 8 v) OR ucast (ucast v :: u8) = v"
  by (rule bit_word_eqI) (auto simp: bit_simps)

lemma read_write_usize [simp]: "read_usize p (write_usize p v m) = v"
proof -
  have "foldr (\<lambda>i x. push_bit 8 x OR ucast (write_usize p v m (p + of_nat i))) [k..<8] 0
      = drop_bit (8 * k) v" if "k \<le> 8" for k
    using that
  proof (induction k rule: inc_induct)
    case base
    have "drop_bit 64 v = 0" by (rule bit_word_eqI) (simp add: bit_simps)
    then show ?case by simp
  next
    case (step k)
    then show ?case
      using usize_byte_step [of "drop_bit (8 * k) v"]
      by (simp add: upt_conv_Cons write_usize_byte drop_bit_drop_bit)
  qed
  from this [of 0] show ?thesis by (simp add: read_usize_def)
qed

lemma read_usize_cong:
  assumes "\<And>x. in_block x p 8 \<Longrightarrow> m x = m' x"
  shows "read_usize p m = read_usize p m'"
  unfolding read_usize_def
  by (intro foldr_cong) (auto simp: assms in_block_def word_less_nat_alt unat_of_nat_small)

section \<open>Alignment\<close>

text \<open>
  A layout as \<open>Layout\<close> guarantees it: the alignment is a power of two and the size, rounded up
  to it, does not exceed \<open>isize::MAX\<close>.
\<close>

definition valid_layout :: "Layout \<Rightarrow> bool" where
  "valid_layout l \<longleftrightarrow>
     (\<exists>k\<in>{0..<63}. layout_align l = 2 ^ k)
     \<and> unat (layout_size l) + unat (layout_align l) \<le> 2 ^ 63"

lemma align_down:
  fixes x :: usize
  assumes "k < 64"
  shows "unat (x AND NOT (2 ^ k - 1)) = unat x - unat x mod 2 ^ k"
proof -
  have "x AND NOT (2 ^ k - 1) = push_bit k (drop_bit k x)"
    by (rule bit_word_eqI) (auto simp: bit_simps simp flip: mask_eq_exp_minus_1)
  also have "unat \<dots> = unat x - take_bit k (unat x)"
  proof -
    have "push_bit k (drop_bit k x) + take_bit k x = x" by (rule bits_ident)
    then have "push_bit k (drop_bit k x) = x - take_bit k x" by (simp add: eq_diff_eq)
    moreover have "take_bit k x \<le> x"
      by (simp add: word_le_nat_alt unsigned_take_bit_eq take_bit_nat_less_eq_self)
    ultimately show ?thesis by (simp add: unat_sub unsigned_take_bit_eq)
  qed
  finally show ?thesis by (simp add: take_bit_eq_mod)
qed

lemma unat_two_power:
  assumes "k < 64"
  shows "unat (2 ^ k :: usize) = 2 ^ k"
proof -
  have "(2::nat) ^ k < 2 ^ LENGTH(64)" using assms by (intro power_strict_increasing) simp_all
  from unat_of_nat_small [OF this] show ?thesis by simp
qed

lemma valid_layout_align:
  assumes "valid_layout l"
  obtains k where "k < 63" "layout_align l = 2 ^ k" "unat (layout_align l) = 2 ^ k"
    "unat (layout_align l - 1) = 2 ^ k - 1"
proof -
  obtain k where k: "k < 63" "layout_align l = 2 ^ k" using assms by (auto simp: valid_layout_def)
  then have u: "unat (layout_align l) = 2 ^ k" using unat_two_power [of k] by simp
  then have "unat (layout_align l - 1) = 2 ^ k - 1" using unat_pred [of "layout_align l"] by simp
  with k u that show ?thesis by blast
qed

text \<open>The address an over-aligned block gets: aligned, behind the header, less than one alignment
  further.\<close>

lemma aligned_address:
  assumes "valid_layout l" and "checked_add base hsz = Some start"
    and "checked_add start (layout_align l - 1) = Some v"
  defines "p \<equiv> v AND NOT (layout_align l - 1)"
  shows "unat base + unat hsz \<le> unat p"
    and "unat p < unat base + unat hsz + unat (layout_align l)"
    and "unat (layout_align l) dvd unat p"
proof -
  obtain k where k: "k < 63" "layout_align l = 2 ^ k" "unat (layout_align l) = 2 ^ k"
    "unat (layout_align l - 1) = 2 ^ k - 1" using assms(1) by (rule valid_layout_align)
  let ?v = "unat base + unat hsz + (2 ^ k - 1)"
  have "unat v = ?v" using assms(2,3) k(4) by (simp add: checked_add_eq_Some_iff)
  then have p: "unat p = ?v - ?v mod 2 ^ k"
    using align_down [of k v] k(1,2) by (simp add: p_def)
  have "?v mod 2 ^ k < 2 ^ k" by simp
  then have m: "?v mod 2 ^ k \<le> 2 ^ k - 1" by linarith
  then show "unat base + unat hsz \<le> unat p" unfolding p by linarith
  have "(0::nat) < 2 ^ k" by simp
  then show "unat p < unat base + unat hsz + unat (layout_align l)" unfolding p k(3) by linarith
  show "unat (layout_align l) dvd unat p" by (simp add: p k(3) minus_mod_eq_mult_div)
qed

text \<open>Membership in a block that does not wrap, over the naturals.\<close>

lemma in_block_unat:
  assumes "unat b + unat n \<le> 2 ^ 64"
  shows "in_block x b n \<longleftrightarrow> unat b \<le> unat x \<and> unat x < unat b + unat n"
proof (cases "b \<le> x")
  case True
  then have "unat (x - b) = unat x - unat b" by (rule unat_sub)
  then show ?thesis using True by (auto simp: in_block_def word_less_nat_alt word_le_nat_alt)
next
  case False
  then have "unat (x - b) = 2 ^ 64 + unat x - unat b"
    by (simp add: unat_sub_if' word_le_nat_alt)
  then show ?thesis using False assms by (auto simp: in_block_def word_less_nat_alt word_le_nat_alt)
qed

end
