(* ===== verification/Pool.thy ===== *)
theory Pool
  imports Memory "HOL-Library.AList"
begin

text \<open>
  The pool routines of \<open>src/allocator.rs\<close> in a driver build: the two pool allocation functions
  and the lazy lookup of \<open>ExAllocatePool2\<close>. The kernel's pool is the record \<open>kernel\<close> of
  functions; \<open>pool_contract\<close> states the documented behaviour the code relies on.
\<close>

section \<open>Memory and the kernel\<close>

text \<open>
  \<open>bytes\<close> is the contents of memory, \<open>blocks\<close> the allocations of the pool with their size and
  tag, and the other two fields are the statics \<open>EX_ALLOCATE_POOL2_PTR\<close> and
  \<open>EX_ALLOCATE_POOL2_STATE\<close>.
\<close>

record km =
  bytes :: "addr \<Rightarrow> u8"
  blocks :: "(addr \<times> (usize \<times> u32)) list"
  pool2_ptr :: usize
  pool2_state :: usize

record kernel =
  k_ExAllocatePoolWithTag :: "u32 \<Rightarrow> usize \<Rightarrow> u32 \<Rightarrow> km \<Rightarrow> addr \<times> km"
  k_ExAllocatePool2 :: "addr \<Rightarrow> u64 \<Rightarrow> usize \<Rightarrow> u32 \<Rightarrow> km \<Rightarrow> addr \<times> km"
  k_ExFreePoolWithTag :: "addr \<Rightarrow> u32 \<Rightarrow> km \<Rightarrow> km outcome"
  k_MmGetSystemRoutineAddress :: "u16 list \<Rightarrow> addr"
  k_KeGetCurrentIrql :: "km \<Rightarrow> u8"

text \<open>A write of one byte by the owner of a block.\<close>

definition poke :: "addr \<Rightarrow> u8 \<Rightarrow> km \<Rightarrow> km" where
  "poke x v m = m\<lparr>bytes := (bytes m)(x := v)\<rparr>"

lemma poke_simps [simp]:
  "bytes (poke x v m) = (bytes m)(x := v)" "blocks (poke x v m) = blocks m"
  "pool2_ptr (poke x v m) = pool2_ptr m" "pool2_state (poke x v m) = pool2_state m"
  by (simp_all add: poke_def)

section \<open>The pool\<close>

datatype PoolType = NonPagedNx | Paged

definition POOL_FLAG_PAGED :: u64 where "POOL_FLAG_PAGED = 0x1"
definition POOL_FLAG_UNINITIALIZED :: u64 where "POOL_FLAG_UNINITIALIZED = 0x2"
definition POOL_FLAG_NON_PAGED :: u64 where "POOL_FLAG_NON_PAGED = 0x40"
definition POOL_TYPE_PAGED :: u32 where "POOL_TYPE_PAGED = 1"
definition POOL_TYPE_NON_PAGED_NX :: u32 where "POOL_TYPE_NON_PAGED_NX = 512"
definition EX_ALLOCATE_POOL2_STATE_UNINIT :: usize where "EX_ALLOCATE_POOL2_STATE_UNINIT = 0"
definition EX_ALLOCATE_POOL2_STATE_INITING :: usize where "EX_ALLOCATE_POOL2_STATE_INITING = 1"
definition EX_ALLOCATE_POOL2_STATE_READY :: usize where "EX_ALLOCATE_POOL2_STATE_READY = 2"
definition PASSIVE_LEVEL :: u8 where "PASSIVE_LEVEL = 0"

text \<open>The name \<open>ExAllocatePool2\<close> in UTF-16, without the terminating NUL that \<open>Length\<close> excludes.\<close>

definition EX_ALLOCATE_POOL2_NAME :: "u16 list" where
  "EX_ALLOCATE_POOL2_NAME =
     [0x45, 0x78, 0x41, 0x6C, 0x6C, 0x6F, 0x63, 0x61, 0x74, 0x65, 0x50, 0x6F, 0x6F, 0x6C, 0x32, 0]"

definition try_init_ex_allocate_pool2 :: "kernel \<Rightarrow> km \<Rightarrow> km" where
  "try_init_ex_allocate_pool2 K m =
     (if k_KeGetCurrentIrql K m > PASSIVE_LEVEL then m
      else if pool2_state m \<noteq> EX_ALLOCATE_POOL2_STATE_UNINIT then m
      else
        let m1 = m\<lparr>pool2_state := EX_ALLOCATE_POOL2_STATE_INITING\<rparr>;
            ptr = k_MmGetSystemRoutineAddress K (take 15 EX_ALLOCATE_POOL2_NAME);
            m2 = m1\<lparr>pool2_ptr := ptr\<rparr>
        in m2\<lparr>pool2_state := EX_ALLOCATE_POOL2_STATE_READY\<rparr>)"

definition init_ex_allocate_pool2 :: "kernel \<Rightarrow> km \<Rightarrow> km" where
  "init_ex_allocate_pool2 K m = try_init_ex_allocate_pool2 K m"

definition get_ex_allocate_pool2 :: "kernel \<Rightarrow> km \<Rightarrow> addr option \<times> km" where
  "get_ex_allocate_pool2 K m =
     (let m1 = (if pool2_state m \<noteq> EX_ALLOCATE_POOL2_STATE_READY
                then try_init_ex_allocate_pool2 K m else m)
      in if pool2_state m1 \<noteq> EX_ALLOCATE_POOL2_STATE_READY then (None, m1)
         else if pool2_ptr m1 = 0 then (None, m1)
         else (Some (pool2_ptr m1), m1))"

definition ex_allocate_pool ::
  "kernel \<Rightarrow> PoolType \<Rightarrow> usize \<Rightarrow> u32 \<Rightarrow> km \<Rightarrow> addr \<times> km" where
  "ex_allocate_pool K pool sz tag m =
     (let flags = (case pool of NonPagedNx \<Rightarrow> POOL_FLAG_NON_PAGED | Paged \<Rightarrow> POOL_FLAG_PAGED)
      in case get_ex_allocate_pool2 K m of
        (Some func, m1) \<Rightarrow> k_ExAllocatePool2 K func flags sz tag m1
      | (None, m1) \<Rightarrow>
          let pool_type = (case pool of NonPagedNx \<Rightarrow> POOL_TYPE_NON_PAGED_NX
                | Paged \<Rightarrow> POOL_TYPE_PAGED);
              (ptr, m2) = k_ExAllocatePoolWithTag K pool_type sz tag m1
          in if ptr \<noteq> null then (ptr, m2\<lparr>bytes := write_bytes_zero ptr sz (bytes m2)\<rparr>)
             else (ptr, m2))"

definition ex_allocate_pool_uninitialized ::
  "kernel \<Rightarrow> PoolType \<Rightarrow> usize \<Rightarrow> u32 \<Rightarrow> km \<Rightarrow> addr \<times> km" where
  "ex_allocate_pool_uninitialized K pool sz tag m =
     (let flags = (case pool of NonPagedNx \<Rightarrow> POOL_FLAG_NON_PAGED | Paged \<Rightarrow> POOL_FLAG_PAGED)
            OR POOL_FLAG_UNINITIALIZED
      in case get_ex_allocate_pool2 K m of
        (Some func, m1) \<Rightarrow> k_ExAllocatePool2 K func flags sz tag m1
      | (None, m1) \<Rightarrow>
          let pool_type = (case pool of NonPagedNx \<Rightarrow> POOL_TYPE_NON_PAGED_NX
                | Paged \<Rightarrow> POOL_TYPE_PAGED)
          in k_ExAllocatePoolWithTag K pool_type sz tag m1)"

section \<open>What the pool promises\<close>

definition separate :: "addr \<Rightarrow> usize \<Rightarrow> addr \<Rightarrow> usize \<Rightarrow> bool" where
  "separate b n c k \<longleftrightarrow> unat b + unat n \<le> unat c \<or> unat c + unat k \<le> unat b"

text \<open>A fresh block of the pool: 16-byte aligned, apart from the live blocks, which keep their
  contents.\<close>

definition fresh_block :: "addr \<Rightarrow> usize \<Rightarrow> u32 \<Rightarrow> km \<Rightarrow> km \<Rightarrow> bool" where
  "fresh_block b n tg m m' \<longleftrightarrow>
     b \<noteq> null \<and> 16 dvd unat b \<and> unat b + unat n \<le> 2 ^ 64
     \<and> map_of (blocks m) b = None
     \<and> (\<forall>c k t. map_of (blocks m) c = Some (k, t) \<longrightarrow> separate b n c k
          \<and> (\<forall>x. in_block x c k \<longrightarrow> bytes m' x = bytes m x))
     \<and> blocks m' = (b, (n, tg)) # blocks m"

definition same_statics :: "km \<Rightarrow> km \<Rightarrow> bool" where
  "same_statics m m' \<longleftrightarrow> pool2_ptr m' = pool2_ptr m \<and> pool2_state m' = pool2_state m"

text \<open>
  The documented behaviour of the pool routines: an allocation fails without effect or gives a
  fresh block, zeroed by \<open>ExAllocatePool2\<close> unless asked otherwise; freeing a live block under its
  own tag succeeds and touches no other block.
\<close>

definition pool_allocates :: "addr \<times> km \<Rightarrow> usize \<Rightarrow> u32 \<Rightarrow> km \<Rightarrow> bool" where
  "pool_allocates r n tg m \<longleftrightarrow>
     (if fst r = null then snd r = m
      else fresh_block (fst r) n tg m (snd r) \<and> same_statics m (snd r))"

definition pool_zeroes :: "addr \<times> km \<Rightarrow> usize \<Rightarrow> bool" where
  "pool_zeroes r n \<longleftrightarrow> (fst r \<noteq> null \<longrightarrow> (\<forall>x. in_block x (fst r) n \<longrightarrow> bytes (snd r) x = 0))"

definition pool_frees :: "km outcome \<Rightarrow> addr \<Rightarrow> km \<Rightarrow> bool" where
  "pool_frees r b m \<longleftrightarrow>
     (\<exists>m'. r = Return m' \<and> blocks m' = AList.delete b (blocks m) \<and> same_statics m m'
       \<and> (\<forall>c k t x. c \<noteq> b \<longrightarrow> map_of (blocks m) c = Some (k, t) \<longrightarrow> in_block x c k \<longrightarrow>
            bytes m' x = bytes m x))"

definition resolved_pool2 :: "kernel \<Rightarrow> addr" where
  "resolved_pool2 K = k_MmGetSystemRoutineAddress K (take 15 EX_ALLOCATE_POOL2_NAME)"

definition pool_contract :: "kernel \<Rightarrow> bool" where
  "pool_contract K \<longleftrightarrow>
     (\<forall>ty n tg m. 0 < n \<longrightarrow> pool_allocates (k_ExAllocatePoolWithTag K ty n tg m) n tg m)
     \<and> (resolved_pool2 K \<noteq> null \<longrightarrow> (\<forall>flags n tg m. 0 < n \<longrightarrow>
          pool_allocates (k_ExAllocatePool2 K (resolved_pool2 K) flags n tg m) n tg m
          \<and> (flags AND POOL_FLAG_UNINITIALIZED = 0 \<longrightarrow>
              pool_zeroes (k_ExAllocatePool2 K (resolved_pool2 K) flags n tg m) n)))
     \<and> (\<forall>b n tg m. map_of (blocks m) b = Some (n, tg) \<longrightarrow>
          pool_frees (k_ExFreePoolWithTag K b tg m) b m)"

text \<open>
  The state of the pool and of the two statics: the live blocks do not overlap, and once the
  lookup is ready its pointer is what the lookup gives.
\<close>

definition blocks_ok :: "(addr \<rightharpoonup> usize \<times> u32) \<Rightarrow> bool" where
  "blocks_ok B \<longleftrightarrow>
     (\<forall>b n t. B b = Some (n, t) \<longrightarrow> b \<noteq> null \<and> unat b + unat n \<le> 2 ^ 64)
     \<and> (\<forall>b n t c k u. b \<noteq> c \<longrightarrow> B b = Some (n, t) \<longrightarrow> B c = Some (k, u) \<longrightarrow> separate b n c k)"

definition pool_ok :: "kernel \<Rightarrow> km \<Rightarrow> bool" where
  "pool_ok K m \<longleftrightarrow>
     pool_contract K
     \<and> (pool2_state m = EX_ALLOCATE_POOL2_STATE_READY \<longrightarrow> pool2_ptr m = resolved_pool2 K)
     \<and> blocks_ok (map_of (blocks m))"

lemma blocks_okD:
  assumes "blocks_ok B" and "B c = Some (k, t)"
  shows "c \<noteq> null" and "unat c + unat k \<le> 2 ^ 64"
    and "B d = Some (j, u) \<Longrightarrow> c \<noteq> d \<Longrightarrow> separate c k d j"
  using assms unfolding blocks_ok_def by blast+

lemma separate_sym: "separate b n c k \<longleftrightarrow> separate c k b n"
  by (auto simp: separate_def)

lemma blocks_ok_insert:
  assumes "blocks_ok B" and "b \<noteq> null" and "unat b + unat n \<le> 2 ^ 64"
    and "\<And>c k t. B c = Some (k, t) \<Longrightarrow> separate b n c k"
  shows "blocks_ok (B(b \<mapsto> (n, tg)))"
  unfolding blocks_ok_def
proof (intro conjI allI impI)
  fix c k t d j u
  assume "c \<noteq> d" "(B(b \<mapsto> (n, tg))) c = Some (k, t)" "(B(b \<mapsto> (n, tg))) d = Some (j, u)"
  then show "separate c k d j"
    using assms(4) [of c k t] assms(4) [of d j u] blocks_okD(3) [OF assms(1)] separate_sym
    by (auto split: if_splits)
qed (use assms(2,3) blocks_okD(1,2) [OF assms(1)] in \<open>auto split: if_splits\<close>)

lemma blocks_ok_delete: "blocks_ok B \<Longrightarrow> blocks_ok (B(b := None))"
  unfolding blocks_ok_def by (auto split: if_splits)

lemma get_ex_allocate_pool2_ok:
  assumes "pool_ok K m" and "get_ex_allocate_pool2 K m = (r, m1)"
  shows "pool_ok K m1" and "bytes m1 = bytes m" and "blocks m1 = blocks m"
    and "r = Some f \<Longrightarrow> f = resolved_pool2 K \<and> resolved_pool2 K \<noteq> null"
  using assms
  by (auto simp: get_ex_allocate_pool2_def try_init_ex_allocate_pool2_def pool_ok_def Let_def
      resolved_pool2_def split: if_splits)

text \<open>The result of a pool allocation through either routine.\<close>

definition pool_result :: "kernel \<Rightarrow> usize \<Rightarrow> u32 \<Rightarrow> km \<Rightarrow> addr \<times> km \<Rightarrow> bool" where
  "pool_result K n tg m r \<longleftrightarrow> pool_ok K (snd r)
     \<and> (if fst r = null then bytes (snd r) = bytes m \<and> blocks (snd r) = blocks m
        else fresh_block (fst r) n tg m (snd r))"

lemma pool_result_cong:
  assumes "bytes m1 = bytes m" and "blocks m1 = blocks m"
  shows "pool_result K n tg m1 r = pool_result K n tg m r"
  using assms by (simp add: pool_result_def fresh_block_def)

lemma pool_allocates_result:
  assumes "pool_ok K m" and "pool_allocates r n tg m"
  shows "pool_result K n tg m r"
proof (cases "fst r = null")
  case True
  then show ?thesis using assms by (simp add: pool_result_def pool_allocates_def)
next
  case False
  then have f: "fresh_block (fst r) n tg m (snd r)" "same_statics m (snd r)"
    using assms(2) by (simp_all add: pool_allocates_def)
  then have "blocks_ok ((map_of (blocks m))(fst r \<mapsto> (n, tg)))"
    using assms(1) by (intro blocks_ok_insert) (auto simp: pool_ok_def fresh_block_def)
  then show ?thesis
    using assms(1) f False by (simp add: pool_result_def pool_ok_def fresh_block_def same_statics_def)
qed

lemma pool_with_tag_result:
  assumes "pool_ok K m" and "0 < n"
  shows "pool_result K n tg m (k_ExAllocatePoolWithTag K ty n tg m)"
  using assms by (intro pool_allocates_result) (simp_all add: pool_ok_def pool_contract_def)

lemma pool2_result:
  assumes "pool_ok K m" and "0 < n" and "resolved_pool2 K \<noteq> null"
  shows "pool_result K n tg m (k_ExAllocatePool2 K (resolved_pool2 K) flags n tg m)"
    and "flags AND POOL_FLAG_UNINITIALIZED = 0 \<Longrightarrow>
      pool_zeroes (k_ExAllocatePool2 K (resolved_pool2 K) flags n tg m) n"
  using assms by (auto intro!: pool_allocates_result simp: pool_ok_def pool_contract_def)

lemma ex_allocate_pool_uninitialized_result:
  assumes "pool_ok K m" and "0 < n"
  shows "pool_result K n tg m (ex_allocate_pool_uninitialized K pl n tg m)"
proof -
  obtain r m1 where g: "get_ex_allocate_pool2 K m = (r, m1)" by fastforce
  note ok = get_ex_allocate_pool2_ok [OF assms(1) g]
  show ?thesis
  proof (cases r)
    case None
    then show ?thesis
      using g pool_with_tag_result [OF ok(1) assms(2)] pool_result_cong [OF ok(2,3)]
      by (simp add: ex_allocate_pool_uninitialized_def Let_def)
  next
    case (Some f)
    then show ?thesis
      using g ok(4) [OF Some] pool2_result(1) [OF ok(1) assms(2)] pool_result_cong [OF ok(2,3)]
      by (simp add: ex_allocate_pool_uninitialized_def Let_def)
  qed
qed

text \<open>Writes inside a fresh block leave it fresh.\<close>

lemma fresh_block_write:
  assumes "fresh_block b n tg m m1" and "blocks_ok (map_of (blocks m))"
    and "\<And>x. \<not> in_block x b n \<Longrightarrow> f x = bytes m1 x"
  shows "fresh_block b n tg m (m1\<lparr>bytes := f\<rparr>)"
proof -
  have "f x = bytes m x" if c: "map_of (blocks m) c = Some (k, t)" and x: "in_block x c k" for c k t x
  proof -
    have sep: "separate b n c k" and old: "bytes m1 x = bytes m x"
      and b: "unat b + unat n \<le> 2 ^ 64"
      using assms(1) c x unfolding fresh_block_def by blast+
    have "unat c + unat k \<le> 2 ^ 64" by (rule blocks_okD(2) [OF assms(2) c])
    then have "\<not> in_block x b n"
      using sep x b by (auto simp: in_block_unat separate_def)
    with assms(3) old show ?thesis by simp
  qed
  then show ?thesis using assms(1) unfolding fresh_block_def by simp
qed

lemma pool_result_write:
  assumes "pool_result K n tg m (b, m1)" and "b \<noteq> null" and "blocks_ok (map_of (blocks m))"
    and "\<And>x. \<not> in_block x b n \<Longrightarrow> f x = bytes m1 x"
  shows "pool_result K n tg m (b, m1\<lparr>bytes := f\<rparr>)"
  using assms fresh_block_write [of b n tg m m1 f] by (simp add: pool_result_def pool_ok_def)

lemma ex_allocate_pool_result:
  assumes "pool_ok K m" and "0 < n"
  shows "pool_result K n tg m (ex_allocate_pool K pl n tg m)"
    and "pool_zeroes (ex_allocate_pool K pl n tg m) n"
proof -
  obtain r m1 where g: "get_ex_allocate_pool2 K m = (r, m1)" by fastforce
  note ok = get_ex_allocate_pool2_ok [OF assms(1) g]
  have flags: "(case pl of NonPagedNx \<Rightarrow> POOL_FLAG_NON_PAGED | Paged \<Rightarrow> POOL_FLAG_PAGED)
      AND POOL_FLAG_UNINITIALIZED = 0"
    by (cases pl) (simp_all add: POOL_FLAG_NON_PAGED_def POOL_FLAG_PAGED_def
        POOL_FLAG_UNINITIALIZED_def)
  have "pool_result K n tg m (ex_allocate_pool K pl n tg m)
      \<and> pool_zeroes (ex_allocate_pool K pl n tg m) n"
  proof (cases r)
    case None
    define ty where "ty = (case pl of NonPagedNx \<Rightarrow> POOL_TYPE_NON_PAGED_NX | Paged \<Rightarrow> POOL_TYPE_PAGED)"
    obtain b m2 where p: "k_ExAllocatePoolWithTag K ty n tg m1 = (b, m2)" by fastforce
    then have res: "pool_result K n tg m1 (b, m2)"
      using pool_with_tag_result [OF ok(1) assms(2), of tg ty] by simp
    have call: "ex_allocate_pool K pl n tg m =
        (if b \<noteq> null then (b, m2\<lparr>bytes := write_bytes_zero b n (bytes m2)\<rparr>) else (b, m2))"
      using None g p by (simp add: ex_allocate_pool_def Let_def ty_def)
    have "b \<noteq> null \<Longrightarrow> pool_result K n tg m1 (b, m2\<lparr>bytes := write_bytes_zero b n (bytes m2)\<rparr>)"
      using res ok(1) by (intro pool_result_write) (auto simp: write_bytes_zero_def pool_ok_def)
    then show ?thesis
      using res pool_result_cong [OF ok(2,3)]
      by (auto simp: call pool_zeroes_def write_bytes_zero_def)
  next
    case (Some f)
    then show ?thesis
      using g ok(4) [OF Some] pool2_result [OF ok(1) assms(2)] pool_result_cong [OF ok(2,3)] flags
      by (simp add: ex_allocate_pool_def Let_def)
  qed
  then show "pool_result K n tg m (ex_allocate_pool K pl n tg m)"
    and "pool_zeroes (ex_allocate_pool K pl n tg m) n" by simp_all
qed

end
