(* ===== verification/Allocator.thy ===== *)
theory Allocator
  imports Pool
begin

text \<open>
  The allocators of \<open>src/allocator.rs\<close> in a driver build: \<open>WdkAllocator\<close> with its over-aligned
  blocks and the \<open>GlobalAllocator\<close> on top of it. The locale \<open>allocator\<close> states what an
  implementation of the trait \<open>Allocator\<close> promises; it is interpreted on \<open>WdkAllocator\<close>.
\<close>

text \<open>The features \<open>wdk-alloc-align\<close> and \<open>debug_assertions\<close> of the build.\<close>

record alloc_build =
  wdk_alloc_align :: bool
  debug_assertions :: bool

section \<open>WdkAllocator\<close>

record WdkAllocator =
  pool :: PoolType
  tag :: u32

definition WDK_ALLOC_ALIGNMENT :: usize where "WDK_ALLOC_ALIGNMENT = 16"
definition WDK_ALLOC_MAGIC :: usize where "WDK_ALLOC_MAGIC = 0x4B434F4D"

text \<open>The size of \<open>WdkAllocHeader\<close> (three words) in debug builds, of one word in the others.\<close>

definition WDK_ALLOC_HEADER_SIZE :: "alloc_build \<Rightarrow> usize" where
  "WDK_ALLOC_HEADER_SIZE b = (if debug_assertions b then 24 else 8)"

definition needs_overaligned :: "alloc_build \<Rightarrow> Layout \<Rightarrow> bool" where
  "needs_overaligned b layout =
     (if debug_assertions b then True else layout_align layout > WDK_ALLOC_ALIGNMENT)"

text \<open>The header before an over-aligned block: the fields of \<open>WdkAllocHeader\<close>, or the base.\<close>

definition write_header :: "alloc_build \<Rightarrow> addr \<Rightarrow> addr \<Rightarrow> usize \<Rightarrow> (addr \<Rightarrow> u8) \<Rightarrow> addr \<Rightarrow> u8" where
  "write_header b header_ptr base align m =
     (if debug_assertions b then
        write_usize (header_ptr + 16) align
          (write_usize (header_ptr + 8) base (write_usize header_ptr WDK_ALLOC_MAGIC m))
      else write_usize header_ptr base m)"

definition alloc_overaligned ::
  "alloc_build \<Rightarrow> kernel \<Rightarrow> PoolType \<Rightarrow> u32 \<Rightarrow> Layout \<Rightarrow> bool \<Rightarrow> km \<Rightarrow> (addr \<times> km) outcome" where
  "alloc_overaligned b K pl tg layout zeroed m =
     (let sz = layout_size layout; align = layout_align layout in
      case Option.bind (checked_add sz align) (\<lambda>v. checked_add v (WDK_ALLOC_HEADER_SIZE b)) of
        None \<Rightarrow> Return (null, m)
      | Some tot \<Rightarrow>
          let (base, m1) = ex_allocate_pool_uninitialized K pl tot tg m in
          if base = null then Return (null, m1)
          else case checked_add base (WDK_ALLOC_HEADER_SIZE b) of
            None \<Rightarrow> and_then (k_ExFreePoolWithTag K base tg m1) (\<lambda>m2. Return (null, m2))
          | Some start \<Rightarrow>
              (case checked_add start (align - 1) of
                 None \<Rightarrow> and_then (k_ExFreePoolWithTag K base tg m1) (\<lambda>m2. Return (null, m2))
               | Some value \<Rightarrow>
                   let aligned = value AND NOT (align - 1);
                       header_ptr = aligned - WDK_ALLOC_HEADER_SIZE b;
                       m2 = m1\<lparr>bytes := write_header b header_ptr base align (bytes m1)\<rparr>;
                       m3 = (if zeroed then m2\<lparr>bytes := write_bytes_zero aligned sz (bytes m2)\<rparr>
                             else m2)
                   in Return (aligned, m3)))"

definition dealloc_overaligned ::
  "alloc_build \<Rightarrow> kernel \<Rightarrow> addr \<Rightarrow> u32 \<Rightarrow> Layout \<Rightarrow> km \<Rightarrow> km outcome" where
  "dealloc_overaligned b K ptr tg layout m =
     (let header_ptr = ptr - WDK_ALLOC_HEADER_SIZE b in
      if debug_assertions b then
        if read_usize header_ptr (bytes m) \<noteq> WDK_ALLOC_MAGIC
          \<or> read_usize (header_ptr + 16) (bytes m) \<noteq> layout_align layout then Panic
        else k_ExFreePoolWithTag K (read_usize (header_ptr + 8) (bytes m)) tg m
      else k_ExFreePoolWithTag K (read_usize header_ptr (bytes m)) tg m)"

definition wdk_allocator_new :: "PoolType \<Rightarrow> u32 \<Rightarrow> WdkAllocator" where
  "wdk_allocator_new pl tg = \<lparr>pool = pl, tag = tg\<rparr>"

text \<open>The pointer \<open>NonNull::<u8>::dangling()\<close>.\<close>

definition dangling :: addr where
  "dangling = 1"

definition alloc_uninitialized ::
  "alloc_build \<Rightarrow> kernel \<Rightarrow> WdkAllocator \<Rightarrow> Layout \<Rightarrow> km \<Rightarrow> (addr \<times> km) outcome" where
  "alloc_uninitialized b K self layout m =
     (if layout_size layout = 0 then Return (dangling, m)
      else if wdk_alloc_align b \<and> needs_overaligned b layout then
        alloc_overaligned b K (pool self) (tag self) layout False m
      else if \<not> wdk_alloc_align b \<and> layout_align layout > WDK_ALLOC_ALIGNMENT then
        Return (null, m)
      else Return (ex_allocate_pool_uninitialized K (pool self) (layout_size layout) (tag self) m))"

definition wdk_alloc ::
  "alloc_build \<Rightarrow> kernel \<Rightarrow> WdkAllocator \<Rightarrow> Layout \<Rightarrow> km \<Rightarrow> (addr \<times> km) outcome" where
  "wdk_alloc b K self layout m =
     (if layout_size layout = 0 then Return (dangling, m)
      else if wdk_alloc_align b \<and> needs_overaligned b layout then
        alloc_overaligned b K (pool self) (tag self) layout False m
      else if \<not> wdk_alloc_align b \<and> layout_align layout > WDK_ALLOC_ALIGNMENT then
        Return (null, m)
      else Return (ex_allocate_pool_uninitialized K (pool self) (layout_size layout) (tag self) m))"

definition wdk_alloc_zeroed ::
  "alloc_build \<Rightarrow> kernel \<Rightarrow> WdkAllocator \<Rightarrow> Layout \<Rightarrow> km \<Rightarrow> (addr \<times> km) outcome" where
  "wdk_alloc_zeroed b K self layout m =
     (if layout_size layout = 0 then Return (dangling, m)
      else if wdk_alloc_align b \<and> needs_overaligned b layout then
        alloc_overaligned b K (pool self) (tag self) layout True m
      else if \<not> wdk_alloc_align b \<and> layout_align layout > WDK_ALLOC_ALIGNMENT then
        Return (null, m)
      else Return (ex_allocate_pool K (pool self) (layout_size layout) (tag self) m))"

definition wdk_dealloc ::
  "alloc_build \<Rightarrow> kernel \<Rightarrow> WdkAllocator \<Rightarrow> addr \<Rightarrow> Layout \<Rightarrow> km \<Rightarrow> km outcome" where
  "wdk_dealloc b K self ptr layout m =
     (if layout_size layout = 0 then Return m
      else if wdk_alloc_align b \<and> debug_assertions b then
        dealloc_overaligned b K ptr (tag self) layout m
      else if wdk_alloc_align b \<and> layout_align layout > WDK_ALLOC_ALIGNMENT then
        dealloc_overaligned b K ptr (tag self) layout m
      else k_ExFreePoolWithTag K ptr (tag self) m)"

text \<open>The driver build's \<open>GlobalAllocator\<close>; the tag is \<open>u32::from_ne_bytes(*b"KCOM")\<close>.\<close>

definition GLOBAL_POOL_TAG :: u32 where "GLOBAL_POOL_TAG = 0x4D4F434B"

definition global_alloc :: "alloc_build \<Rightarrow> kernel \<Rightarrow> Layout \<Rightarrow> km \<Rightarrow> (addr \<times> km) outcome" where
  "global_alloc b K layout m = wdk_alloc b K (wdk_allocator_new NonPagedNx GLOBAL_POOL_TAG) layout m"

definition global_alloc_zeroed ::
  "alloc_build \<Rightarrow> kernel \<Rightarrow> Layout \<Rightarrow> km \<Rightarrow> (addr \<times> km) outcome" where
  "global_alloc_zeroed b K layout m =
     wdk_alloc_zeroed b K (wdk_allocator_new NonPagedNx GLOBAL_POOL_TAG) layout m"

definition global_dealloc ::
  "alloc_build \<Rightarrow> kernel \<Rightarrow> addr \<Rightarrow> Layout \<Rightarrow> km \<Rightarrow> km outcome" where
  "global_dealloc b K ptr layout m =
     wdk_dealloc b K (wdk_allocator_new NonPagedNx GLOBAL_POOL_TAG) ptr layout m"

section \<open>Headers\<close>

text \<open>The header in front of an over-aligned block at \<open>p\<close> names its base (and its layout).\<close>

definition header_ok :: "alloc_build \<Rightarrow> addr \<Rightarrow> addr \<Rightarrow> usize \<Rightarrow> (addr \<Rightarrow> u8) \<Rightarrow> bool" where
  "header_ok b p base align m =
     (let h = p - WDK_ALLOC_HEADER_SIZE b
      in if debug_assertions b then
           read_usize h m = WDK_ALLOC_MAGIC \<and> read_usize (h + 8) m = base
           \<and> read_usize (h + 16) m = align
         else read_usize h m = base)"

lemma offset_blocks_disjoint:
  fixes x q :: addr
  assumes "x - q < 8"
  shows "\<not> x - (q + 8) < 8" and "\<not> x - (q + 16) < 8"
proof -
  have gap: "\<not> d - 8 < 8 \<and> \<not> d - 16 < 8" if "d < 8" for d :: addr
    using that by (simp add: word_less_nat_alt unat_sub_if')
  show "\<not> x - (q + 8) < 8" "\<not> x - (q + 16) < 8"
    using gap [OF assms] by (simp_all add: diff_diff_eq)
qed

lemma read_write_usize_above:
  "read_usize q (write_usize (q + 8) v m) = read_usize q m"
  "read_usize q (write_usize (q + 16) v m) = read_usize q m"
  by (rule read_usize_cong; simp add: write_usize_def in_block_def offset_blocks_disjoint)+

lemma header_ok_write_header:
  "header_ok b p base align (write_header b (p - WDK_ALLOC_HEADER_SIZE b) base align m)"
proof -
  have "read_usize (h + 8) (write_usize (h + 16) align m') = read_usize (h + 8) m'" for h m'
    using read_write_usize_above(1) [of "h + 8"] by (simp add: add.assoc)
  then show ?thesis
    by (simp add: header_ok_def write_header_def Let_def read_write_usize_above)
qed

lemma header_ok_cong:
  assumes "\<And>x. in_block x (p - WDK_ALLOC_HEADER_SIZE b) (WDK_ALLOC_HEADER_SIZE b) \<Longrightarrow> m x = m' x"
  shows "header_ok b p base align m = header_ok b p base align m'"
proof -
  have words: "in_block x (h + off) 8 \<Longrightarrow> in_block x h 24"
    if "off \<in> {0, 8, 16}" for x h off :: addr
  proof -
    assume "in_block x (h + off) 8"
    then have "unat (x - h - off) < 8" by (simp add: in_block_def word_less_nat_alt diff_diff_eq)
    then have "unat (x - h) < 24" using that by (auto simp: unat_sub_if' split: if_splits)
    then show "in_block x h 24" by (simp add: in_block_def word_less_nat_alt)
  qed
  show ?thesis
  proof (cases "debug_assertions b")
    case True
    then have eq: "in_block x (p - 24) 24 \<Longrightarrow> m x = m' x" for x
      using assms by (simp add: WDK_ALLOC_HEADER_SIZE_def)
    have "read_usize (p - 24 + off) m = read_usize (p - 24 + off) m'" if "off \<in> {0, 8, 16}" for off
      using eq words [OF that] by (intro read_usize_cong) blast
    from this [of 0] this [of 8] this [of 16] show ?thesis
      using True by (simp add: header_ok_def WDK_ALLOC_HEADER_SIZE_def Let_def)
  next
    case False
    then show ?thesis using assms read_usize_cong [of "p - 8" m m']
      by (simp add: header_ok_def WDK_ALLOC_HEADER_SIZE_def Let_def)
  qed
qed

lemma write_header_outside:
  assumes "\<not> in_block x h (WDK_ALLOC_HEADER_SIZE b)"
  shows "write_header b h base align m x = m x"
proof -
  have "\<not> unat (x - h) < (if debug_assertions b then 24 else 8)"
    using assms
    by (cases "debug_assertions b")
      (simp_all add: in_block_def WDK_ALLOC_HEADER_SIZE_def word_less_nat_alt)
  then have "\<not> unat (x - h) < 8" and "debug_assertions b \<Longrightarrow> \<not> unat (x - h - 8) < 8"
    and "debug_assertions b \<Longrightarrow> \<not> unat (x - h - 16) < 8"
    by (auto simp: unat_sub_if' split: if_splits)
  then show ?thesis
    by (simp add: write_header_def write_usize_def in_block_def word_less_nat_alt diff_diff_eq)
qed

section \<open>Over-aligned blocks\<close>

lemma header_size_cases: "unat (WDK_ALLOC_HEADER_SIZE b) \<in> {8, 24}"
  by (simp add: WDK_ALLOC_HEADER_SIZE_def)

lemma overaligned_total:
  assumes "valid_layout l"
  obtains tot where "Option.bind (checked_add (layout_size l) (layout_align l))
      (\<lambda>v. checked_add v (WDK_ALLOC_HEADER_SIZE b)) = Some tot"
    and "unat tot
      = unat (layout_size l) + unat (layout_align l) + unat (WDK_ALLOC_HEADER_SIZE b)"
proof -
  let ?n = "unat (layout_size l) + unat (layout_align l)"
  have n: "?n \<le> 2 ^ 63" using assms by (simp add: valid_layout_def)
  obtain v where v: "checked_add (layout_size l) (layout_align l) = Some v" "unat v = ?n"
    using n by (auto intro: checked_add_fits [of "layout_size l" "layout_align l"])
  obtain tot where "checked_add v (WDK_ALLOC_HEADER_SIZE b) = Some tot"
    "unat tot = ?n + unat (WDK_ALLOC_HEADER_SIZE b)"
    using n v(2) header_size_cases [of b]
    by (auto intro: checked_add_fits [of v "WDK_ALLOC_HEADER_SIZE b"])
  with v(1) that show ?thesis by simp
qed

text \<open>
  An over-aligned allocation fails without effect, or hands out an aligned block inside a fresh
  pool block, with an intact header in front; the branches that give the pool block back are
  never taken.
\<close>

definition overaligned_in ::
  "alloc_build \<Rightarrow> Layout \<Rightarrow> addr \<Rightarrow> addr \<Rightarrow> usize \<Rightarrow> (addr \<Rightarrow> u8) \<Rightarrow> bool" where
  "overaligned_in b l p base n m \<longleftrightarrow>
     unat base + unat (WDK_ALLOC_HEADER_SIZE b) \<le> unat p
     \<and> unat p + unat (layout_size l) \<le> unat base + unat n
     \<and> unat (layout_align l) dvd unat p
     \<and> header_ok b p base (layout_align l) m"

lemma header_before:
  assumes "unat base + unat (WDK_ALLOC_HEADER_SIZE b) \<le> unat p"
  shows "unat (p - WDK_ALLOC_HEADER_SIZE b) = unat p - unat (WDK_ALLOC_HEADER_SIZE b)"
    and "in_block x (p - WDK_ALLOC_HEADER_SIZE b) (WDK_ALLOC_HEADER_SIZE b) \<longleftrightarrow>
      unat p - unat (WDK_ALLOC_HEADER_SIZE b) \<le> unat x \<and> unat x < unat p"
proof -
  show h: "unat (p - WDK_ALLOC_HEADER_SIZE b) = unat p - unat (WDK_ALLOC_HEADER_SIZE b)"
    using assms by (intro unat_sub) (simp add: word_le_nat_alt)
  have "unat p < 2 ^ LENGTH(64)" by (rule unsigned_less)
  then show "in_block x (p - WDK_ALLOC_HEADER_SIZE b) (WDK_ALLOC_HEADER_SIZE b) \<longleftrightarrow>
      unat p - unat (WDK_ALLOC_HEADER_SIZE b) \<le> unat x \<and> unat x < unat p"
    using assms h by (subst in_block_unat) auto
qed

lemma alloc_overaligned_result:
  assumes ok: "pool_ok K m" and l: "valid_layout l"
  obtains (none) m' where "alloc_overaligned b K pl tg l zeroed m = Return (null, m')"
      "pool_ok K m'" "bytes m' = bytes m" "blocks m' = blocks m"
    | (some) p m' base tot where "alloc_overaligned b K pl tg l zeroed m = Return (p, m')"
      "pool_result K tot tg m (base, m')" "base \<noteq> null" "p \<noteq> null"
      "overaligned_in b l p base tot (bytes m')"
      "zeroed \<Longrightarrow> \<forall>x. in_block x p (layout_size l) \<longrightarrow> bytes m' x = 0"
proof -
  let ?H = "WDK_ALLOC_HEADER_SIZE b" and ?a = "layout_align l"
  obtain tot where sum: "Option.bind (checked_add (layout_size l) ?a)
      (\<lambda>v. checked_add v ?H) = Some tot"
    and tot: "unat tot = unat (layout_size l) + unat ?a + unat ?H"
    using l by (rule overaligned_total)
  have pos: "0 < tot" using tot header_size_cases [of b] by (auto simp: word_less_nat_alt)
  obtain base m1 where p: "ex_allocate_pool_uninitialized K pl tot tg m = (base, m1)" by fastforce
  have res: "pool_result K tot tg m (base, m1)"
    using ex_allocate_pool_uninitialized_result [OF ok pos, of tg pl] p by simp
  show ?thesis
  proof (cases "base = null")
    case True
    then have "alloc_overaligned b K pl tg l zeroed m = Return (null, m1)"
      using sum p by (simp add: alloc_overaligned_def Let_def)
    then show ?thesis using none res True by (simp add: pool_result_def)
  next
    case False
    then have fits: "unat base + unat tot \<le> 2 ^ 64"
      using res by (simp add: pool_result_def fresh_block_def)
    obtain k where k: "unat ?a = 2 ^ k" "unat (?a - 1) = 2 ^ k - 1"
      using l by (rule valid_layout_align)
    have a1: "1 \<le> unat ?a" by (simp add: k(1))
    obtain start where start: "checked_add base ?H = Some start" "unat start = unat base + unat ?H"
      using fits tot a1 by (auto intro: checked_add_fits [of base ?H])
    have "unat (?a - 1) < unat ?a" using k a1 by simp
    then have "unat start + unat (?a - 1) < 2 ^ 64" using fits tot start(2) by linarith
    then obtain v where v: "checked_add start (?a - 1) = Some v"
      by (auto intro: checked_add_fits [of start "?a - 1"])
    define q where "q = v AND NOT (?a - 1)"
    note addr = aligned_address [OF l start(1) v, folded q_def]
    define f where "f = write_header b (q - ?H) base ?a (bytes m1)"
    define g where "g = (if zeroed then write_bytes_zero q (layout_size l) f else f)"
    have call: "alloc_overaligned b K pl tg l zeroed m = Return (q, m1\<lparr>bytes := g\<rparr>)"
      using sum p False start(1) v
      by (simp add: alloc_overaligned_def Let_def q_def f_def g_def)
    have inside: "unat q + unat (layout_size l) \<le> unat base + unat tot" using addr(2) tot by simp
    note hdr = header_before [OF addr(1)]
    have g_header: "g x = f x" if "in_block x (q - ?H) ?H" for x
    proof -
      have "unat x < unat q" using that hdr(2) by simp
      moreover have "in_block x q (layout_size l) \<longleftrightarrow>
          unat q \<le> unat x \<and> unat x < unat q + unat (layout_size l)"
        using inside fits by (intro in_block_unat) simp
      ultimately show ?thesis by (simp add: g_def write_bytes_zero_def)
    qed
    have "header_ok b q base ?a g"
      using header_ok_cong [OF g_header] header_ok_write_header by (simp add: f_def)
    moreover have "g x = bytes m1 x" if "\<not> in_block x base tot" for x
    proof -
      have "\<not> (unat base \<le> unat x \<and> unat x < unat base + unat tot)"
        using that fits by (simp add: in_block_unat)
      moreover have "in_block x q (layout_size l) \<longleftrightarrow>
          unat q \<le> unat x \<and> unat x < unat q + unat (layout_size l)"
        using inside fits by (intro in_block_unat) simp
      ultimately have "\<not> in_block x (q - ?H) ?H" "\<not> in_block x q (layout_size l)"
        using addr(1) inside unfolding hdr(2) by linarith+
      then show ?thesis by (simp add: g_def f_def write_bytes_zero_def write_header_outside)
    qed
    then have "pool_result K tot tg m (base, m1\<lparr>bytes := g\<rparr>)"
      using res False ok by (intro pool_result_write) (auto simp: pool_ok_def)
    moreover have "q \<noteq> null" using addr(1) header_size_cases [of b] by auto
    ultimately show ?thesis
      using some [OF call] False addr(1,3) inside
      by (auto simp: overaligned_in_def g_def write_bytes_zero_def)
  qed
qed

section \<open>The contract of an allocator\<close>

text \<open>
  What the trait \<open>Allocator\<close> promises its clients. \<open>held bs s\<close> says that the blocks in \<open>bs\<close>, with
  the layouts they were requested with, are handed out in state \<open>s\<close>. A client may write inside
  the blocks it holds.
\<close>

locale allocator =
  fixes alloc :: "Layout \<Rightarrow> 's \<Rightarrow> (addr \<times> 's) outcome"
    and dealloc :: "addr \<Rightarrow> Layout \<Rightarrow> 's \<Rightarrow> 's outcome"
    and mem :: "'s \<Rightarrow> addr \<Rightarrow> u8"
    and put :: "addr \<Rightarrow> u8 \<Rightarrow> 's \<Rightarrow> 's"
    and held :: "(addr \<times> Layout) list \<Rightarrow> 's \<Rightarrow> bool"
  assumes alloc_law:
      "held bs s \<Longrightarrow> valid_layout l \<Longrightarrow> \<exists>p s'. alloc l s = Return (p, s')
        \<and> held (if p = null then bs else (p, l) # bs) s'
        \<and> (\<forall>q k x. (q, k) \<in> set bs \<longrightarrow> in_block x q (layout_size k) \<longrightarrow> mem s' x = mem s x)"
    and dealloc_law:
      "held (bs @ (p, l) # cs) s \<Longrightarrow> \<exists>s'. dealloc p l s = Return s' \<and> held (bs @ cs) s'
        \<and> (\<forall>q k x. (q, k) \<in> set (bs @ cs) \<longrightarrow> in_block x q (layout_size k) \<longrightarrow> mem s' x = mem s x)"
    and put_law:
      "held bs s \<Longrightarrow> (p, l) \<in> set bs \<Longrightarrow> in_block x p (layout_size l) \<Longrightarrow>
        held bs (put x v s) \<and> mem (put x v s) = (mem s)(x := v)"
    and block_law:
      "held bs s \<Longrightarrow> (p, l) \<in> set bs \<Longrightarrow> layout_size l \<noteq> 0 \<Longrightarrow>
        p \<noteq> null \<and> unat (layout_align l) dvd unat p \<and> unat p + unat (layout_size l) \<le> 2 ^ 64"
    and apart_law:
      "held (bs @ (p, l) # cs) s \<Longrightarrow> (q, k) \<in> set (bs @ cs) \<Longrightarrow>
        layout_size l \<noteq> 0 \<Longrightarrow> layout_size k \<noteq> 0 \<Longrightarrow> separate p (layout_size l) q (layout_size k)"
begin

lemma alloc_write_dealloc:
  assumes "held bs s" and "valid_layout l" and "alloc l s = Return (p, s1)" and "p \<noteq> null"
    and "\<forall>(x, v) \<in> set ws. in_block x p (layout_size l)"
  shows "\<exists>s2. dealloc p l (fold (\<lambda>(x, v). put x v) ws s1) = Return s2 \<and> held bs s2"
proof -
  have "held ((p, l) # bs) s1" using alloc_law [OF assms(1,2)] assms(3,4) by auto
  then have "held ((p, l) # bs) (fold (\<lambda>(x, v). put x v) ws s1)"
    using assms(5)
  proof (induction ws arbitrary: s1)
    case (Cons w ws)
    then show ?case using put_law [of "(p, l) # bs" s1 p l] by (cases w) auto
  qed simp
  then show ?thesis using dealloc_law [of "[]" p l bs] by fastforce
qed

end

section \<open>WdkAllocator as an allocator\<close>

definition overaligned :: "alloc_build \<Rightarrow> Layout \<Rightarrow> bool" where
  "overaligned b l \<longleftrightarrow> wdk_alloc_align b \<and> needs_overaligned b l"

text \<open>The pool block behind a block that was handed out.\<close>

definition backing :: "alloc_build \<Rightarrow> km \<Rightarrow> addr \<times> Layout \<Rightarrow> addr" where
  "backing b m pl =
     (if overaligned b (snd pl) then
        read_usize (fst pl - WDK_ALLOC_HEADER_SIZE b + (if debug_assertions b then 8 else 0)) (bytes m)
      else fst pl)"

definition owns :: "alloc_build \<Rightarrow> u32 \<Rightarrow> km \<Rightarrow> addr \<times> Layout \<Rightarrow> bool" where
  "owns b tg m pl \<longleftrightarrow>
     (\<exists>n. map_of (blocks m) (backing b m pl) = Some (n, tg)
       \<and> (if overaligned b (snd pl) then
            overaligned_in b (snd pl) (fst pl) (backing b m pl) n (bytes m)
          else n = layout_size (snd pl) \<and> unat (layout_align (snd pl)) dvd unat (fst pl)))"

definition wdk_held ::
  "alloc_build \<Rightarrow> kernel \<Rightarrow> WdkAllocator \<Rightarrow> (addr \<times> Layout) list \<Rightarrow> km \<Rightarrow> bool" where
  "wdk_held b K self bs m \<longleftrightarrow>
     pool_ok K m
     \<and> (let ns = filter (\<lambda>pl. layout_size (snd pl) \<noteq> 0) bs
        in list_all (owns b (tag self) m) ns \<and> distinct (map (backing b m) ns))"

lemma backing_overaligned:
  "overaligned b l \<Longrightarrow> header_ok b p base a (bytes m) \<Longrightarrow> backing b m (p, l) = base"
  by (auto simp: backing_def header_ok_def Let_def split: if_splits)

lemma owns_extent:
  assumes "owns b tg m (p, l)" and "pool_ok K m"
  obtains n where "map_of (blocks m) (backing b m (p, l)) = Some (n, tg)"
    "unat (backing b m (p, l)) \<le> unat p"
    "unat p + unat (layout_size l) \<le> unat (backing b m (p, l)) + unat n"
    "unat (backing b m (p, l)) + unat n \<le> 2 ^ 64" "backing b m (p, l) \<noteq> null"
proof -
  obtain n where n: "map_of (blocks m) (backing b m (p, l)) = Some (n, tg)"
    and i: "if overaligned b l then overaligned_in b l p (backing b m (p, l)) n (bytes m)
      else n = layout_size l \<and> unat (layout_align l) dvd unat p"
    using assms(1) by (cases "overaligned b l") (auto simp: owns_def)
  have "blocks_ok (map_of (blocks m))" using assms(2) by (simp add: pool_ok_def)
  note bd = blocks_okD(1,2) [OF this n]
  show ?thesis
    using that [OF n _ _ bd(2,1)] i by (auto simp: overaligned_in_def backing_def split: if_splits)
qed

text \<open>Ownership depends on the entry of the pool and on the bytes of the header only.\<close>

lemma owns_frame:
  assumes "owns b tg m (p, l)" and "layout_size l \<noteq> 0"
    and "map_of (blocks m') (backing b m (p, l)) = map_of (blocks m) (backing b m (p, l))"
    and "\<And>x. overaligned b l \<Longrightarrow>
      in_block x (p - WDK_ALLOC_HEADER_SIZE b) (WDK_ALLOC_HEADER_SIZE b) \<Longrightarrow> bytes m' x = bytes m x"
  shows "owns b tg m' (p, l) \<and> backing b m' (p, l) = backing b m (p, l)"
proof (cases "overaligned b l")
  case True
  then obtain n where n: "map_of (blocks m) (backing b m (p, l)) = Some (n, tg)"
    "overaligned_in b l p (backing b m (p, l)) n (bytes m)"
    using assms(1) by (auto simp: owns_def)
  then have "overaligned_in b l p (backing b m (p, l)) n (bytes m')"
    using header_ok_cong [of p b "bytes m'" "bytes m"] assms(4) True by (simp add: overaligned_in_def)
  then show ?thesis
    using True n(1) assms(3) backing_overaligned [OF True, of p _ _ m']
    by (auto simp: owns_def overaligned_in_def)
next
  case False
  then show ?thesis using assms(1,3) by (simp add: owns_def backing_def)
qed

lemma owns_cong:
  assumes "bytes m' = bytes m" and "blocks m' = blocks m"
  shows "owns b tg m' pl = owns b tg m pl" and "backing b m' pl = backing b m pl"
  using assms by (simp_all add: owns_def backing_def)

lemma owns_inside:
  assumes "owns b tg m (p, l)" and "pool_ok K m"
    and "in_block x p (layout_size l)
      \<or> overaligned b l \<and> in_block x (p - WDK_ALLOC_HEADER_SIZE b) (WDK_ALLOC_HEADER_SIZE b)"
  shows "\<exists>n. map_of (blocks m) (backing b m (p, l)) = Some (n, tg)
    \<and> in_block x (backing b m (p, l)) n"
proof -
  obtain n where n: "map_of (blocks m) (backing b m (p, l)) = Some (n, tg)"
    "unat (backing b m (p, l)) \<le> unat p"
    "unat p + unat (layout_size l) \<le> unat (backing b m (p, l)) + unat n"
    "unat (backing b m (p, l)) + unat n \<le> 2 ^ 64"
    using assms(1,2) by (rule owns_extent)
  from assms(3) have "in_block x (backing b m (p, l)) n"
  proof
    assume "in_block x p (layout_size l)"
    then have "unat p \<le> unat x" "unat x < unat p + unat (layout_size l)"
      using in_block_unat [of p "layout_size l" x] n(3,4) by auto
    then show ?thesis using n(2-4) by (simp add: in_block_unat)
  next
    assume h: "overaligned b l \<and> in_block x (p - WDK_ALLOC_HEADER_SIZE b) (WDK_ALLOC_HEADER_SIZE b)"
    then have below: "unat (backing b m (p, l)) + unat (WDK_ALLOC_HEADER_SIZE b) \<le> unat p"
      using assms(1) by (auto simp: owns_def overaligned_in_def)
    then have "unat p - unat (WDK_ALLOC_HEADER_SIZE b) \<le> unat x \<and> unat x < unat p"
      using header_before(2) [OF below] h by simp
    then have "unat (backing b m (p, l)) \<le> unat x"
      and "unat x < unat (backing b m (p, l)) + unat n"
      using below n(3) by linarith+
    then show ?thesis using n(4) by (simp add: in_block_unat)
  qed
  with n(1) show ?thesis by blast
qed

lemma owns_extents_apart:
  assumes "owns b tg m (p, l)" and "owns b tg m (q, k)" and "pool_ok K m"
    and "backing b m (p, l) \<noteq> backing b m (q, k)"
  shows "separate p (layout_size l) q (layout_size k)"
proof -
  obtain n where n: "map_of (blocks m) (backing b m (p, l)) = Some (n, tg)"
    "unat (backing b m (p, l)) \<le> unat p"
    "unat p + unat (layout_size l) \<le> unat (backing b m (p, l)) + unat n"
    using assms(1,3) by (rule owns_extent)
  obtain j where j: "map_of (blocks m) (backing b m (q, k)) = Some (j, tg)"
    "unat (backing b m (q, k)) \<le> unat q"
    "unat q + unat (layout_size k) \<le> unat (backing b m (q, k)) + unat j"
    using assms(2,3) by (rule owns_extent)
  have "blocks_ok (map_of (blocks m))" using assms(3) by (simp add: pool_ok_def)
  from blocks_okD(3) [OF this n(1) j(1) assms(4)] show ?thesis
    using n(2,3) j(2,3) by (auto simp: separate_def)
qed

lemma owns_after_fresh:
  assumes "owns b tg m (q, k)" and "layout_size k \<noteq> 0" and "pool_ok K m"
    and "fresh_block base n tg' m m'"
  shows "owns b tg m' (q, k)" and "backing b m' (q, k) = backing b m (q, k)"
    and "backing b m (q, k) \<noteq> base"
    and "in_block x q (layout_size k) \<Longrightarrow> bytes m' x = bytes m x"
proof -
  obtain j where j: "map_of (blocks m) (backing b m (q, k)) = Some (j, tg)"
    using assms(1,3) by (rule owns_extent)
  then show ne: "backing b m (q, k) \<noteq> base" using assms(4) by (auto simp: fresh_block_def)
  have same: "bytes m' x = bytes m x"
    if "in_block x q (layout_size k)
      \<or> overaligned b k \<and> in_block x (q - WDK_ALLOC_HEADER_SIZE b) (WDK_ALLOC_HEADER_SIZE b)" for x
    using owns_inside [OF assms(1,3) that] assms(4) unfolding fresh_block_def by blast
  then show "in_block x q (layout_size k) \<Longrightarrow> bytes m' x = bytes m x" by blast
  have "map_of (blocks m') (backing b m (q, k)) = map_of (blocks m) (backing b m (q, k))"
    using ne assms(4) by (simp add: fresh_block_def)
  from owns_frame [OF assms(1,2) this] same
  show "owns b tg m' (q, k)" "backing b m' (q, k) = backing b m (q, k)" by auto
qed

lemma wdk_heldD:
  assumes "wdk_held b K self bs m" and "(q, k) \<in> set bs" and "layout_size k \<noteq> 0"
  shows "pool_ok K m" and "owns b (tag self) m (q, k)"
  using assms by (auto simp: wdk_held_def Let_def list_all_iff)

lemma wdk_held_frame:
  assumes "wdk_held b K self bs m" and "pool_ok K m'"
    and "\<And>q k. (q, k) \<in> set bs \<Longrightarrow> layout_size k \<noteq> 0 \<Longrightarrow>
      owns b (tag self) m' (q, k) \<and> backing b m' (q, k) = backing b m (q, k)"
  shows "wdk_held b K self bs m'"
proof -
  let ?ns = "filter (\<lambda>pl. layout_size (snd pl) \<noteq> 0) bs"
  have "map (backing b m') ?ns = map (backing b m) ?ns" using assms(3) by auto
  moreover have "list_all (owns b (tag self) m') ?ns" using assms(3) by (auto simp: list_all_iff)
  ultimately show ?thesis using assms(1,2) unfolding wdk_held_def Let_def by metis
qed

lemma wdk_held_fresh:
  assumes "wdk_held b K self bs m" and "pool_ok K m'" and "fresh_block base n (tag self) m m'"
    and "owns b (tag self) m' (p, l)" and "backing b m' (p, l) = base"
  shows "wdk_held b K self ((p, l) # bs) m'"
proof -
  have old: "owns b (tag self) m' (q, k)" "backing b m' (q, k) = backing b m (q, k)"
    "backing b m (q, k) \<noteq> base"
    if "(q, k) \<in> set bs" "layout_size k \<noteq> 0" for q k
    using owns_after_fresh [OF wdk_heldD(2) [OF assms(1) that] that(2) wdk_heldD(1) [OF assms(1) that]
        assms(3)] by auto
  have "wdk_held b K self bs m'"
    using assms(1,2) by (rule wdk_held_frame) (use old in blast)
  then show ?thesis
    using assms(2,4,5) old by (fastforce simp: wdk_held_def Let_def)
qed

text \<open>
  What every allocation of the three entry points amounts to: the dangling pointer for an empty
  layout, a failure without effect, or a fresh pool block with the block in it.
\<close>

definition alloc_result ::
  "alloc_build \<Rightarrow> kernel \<Rightarrow> WdkAllocator \<Rightarrow> Layout \<Rightarrow> km \<Rightarrow> addr \<times> km \<Rightarrow> bool" where
  "alloc_result b K self l m r \<longleftrightarrow>
     pool_ok K (snd r)
     \<and> (if layout_size l = 0 then r = (dangling, m)
        else if fst r = null then bytes (snd r) = bytes m \<and> blocks (snd r) = blocks m
        else owns b (tag self) (snd r) (fst r, l)
          \<and> (\<exists>n. fresh_block (backing b (snd r) (fst r, l)) n (tag self) m (snd r)))"

lemma overaligned_alloc_result:
  assumes ok: "pool_ok K m" and l: "valid_layout l" "layout_size l \<noteq> 0" "overaligned b l"
  shows "\<exists>p m'. alloc_overaligned b K (pool self) (tag self) l zeroed m = Return (p, m')
    \<and> alloc_result b K self l m (p, m')
    \<and> (zeroed \<and> p \<noteq> null \<longrightarrow> (\<forall>x. in_block x p (layout_size l) \<longrightarrow> bytes m' x = 0))"
  using ok l(1)
proof (cases rule: alloc_overaligned_result
    [where b = b and pl = "pool self" and tg = "tag self" and zeroed = zeroed])
  case (none m')
  then show ?thesis using l(2) by (auto simp: alloc_result_def)
next
  case (some p m' base tot)
  then have "backing b m' (p, l) = base"
    using backing_overaligned [OF l(3)] by (auto simp: overaligned_in_def)
  moreover have "fresh_block base tot (tag self) m m'" "pool_ok K m'"
    using some(2,3) by (simp_all add: pool_result_def)
  moreover have "map_of (blocks m') base = Some (tot, tag self)"
    using some(2,3) by (simp add: pool_result_def fresh_block_def)
  ultimately show ?thesis using some l(2,3) by (auto simp: alloc_result_def owns_def)
qed

lemma align_divides_16:
  assumes "valid_layout l" and "layout_align l \<le> WDK_ALLOC_ALIGNMENT"
  shows "unat (layout_align l) dvd 16"
proof -
  obtain k where k: "k < 63" "unat (layout_align l) = 2 ^ k"
    using assms(1) by (rule valid_layout_align)
  have "2 ^ k \<le> (2::nat) ^ 4"
    using assms(2) k(2) by (simp add: word_le_nat_alt WDK_ALLOC_ALIGNMENT_def)
  then have "k \<le> 4" by (rule power_le_imp_le_exp [rotated]) simp
  then show ?thesis using k(2) le_imp_power_dvd [of k 4 "2::nat"] by simp
qed

lemma plain_alloc_result:
  assumes "pool_result K (layout_size l) (tag self) m r"
    and "valid_layout l" "layout_size l \<noteq> 0" "\<not> overaligned b l"
    and "layout_align l \<le> WDK_ALLOC_ALIGNMENT"
  shows "alloc_result b K self l m r"
proof (cases "fst r = null")
  case True
  then show ?thesis using assms(1,3) by (simp add: alloc_result_def pool_result_def)
next
  case False
  then have f: "fresh_block (fst r) (layout_size l) (tag self) m (snd r)"
    using assms(1) by (simp add: pool_result_def)
  then have "unat (layout_align l) dvd unat (fst r)"
    using align_divides_16 [OF assms(2,5)] by (auto simp: fresh_block_def intro: dvd_trans)
  then show ?thesis
    using assms f False by (auto simp: alloc_result_def pool_result_def owns_def backing_def
        fresh_block_def)
qed

lemma layout_cases:
  obtains (empty) "layout_size l = 0" | (over) "layout_size l \<noteq> 0" "overaligned b l"
    | (refused) "layout_size l \<noteq> 0" "\<not> wdk_alloc_align b" "layout_align l > WDK_ALLOC_ALIGNMENT"
    | (plain) "layout_size l \<noteq> 0" "\<not> overaligned b l" "layout_align l \<le> WDK_ALLOC_ALIGNMENT"
  by (fastforce simp: overaligned_def needs_overaligned_def split: if_splits)

lemma wdk_alloc_result:
  assumes ok: "pool_ok K m" and l: "valid_layout l"
  shows "\<exists>p m'. wdk_alloc b K self l m = Return (p, m') \<and> alloc_result b K self l m (p, m')"
proof (cases rule: layout_cases [where l = l and b = b])
  case over
  then show ?thesis
    using overaligned_alloc_result [OF ok l over, of self False]
    by (auto simp: wdk_alloc_def overaligned_def)
next
  case plain
  have "0 < layout_size l" using plain(1) by (simp add: word_gt_0)
  note plain_alloc_result [OF ex_allocate_pool_uninitialized_result [OF ok this] l plain,
      of self "pool self"]
  then show ?thesis using plain
    by (cases "ex_allocate_pool_uninitialized K (pool self) (layout_size l) (tag self) m")
      (auto simp: wdk_alloc_def overaligned_def)
qed (use ok in \<open>auto simp: wdk_alloc_def alloc_result_def\<close>)

lemma alloc_result_held:
  assumes held: "wdk_held b K self bs m" and res: "alloc_result b K self l m (p, m')"
  shows "wdk_held b K self (if p = null then bs else (p, l) # bs) m'"
    and "(q, k) \<in> set bs \<Longrightarrow> in_block x q (layout_size k) \<Longrightarrow> bytes m' x = bytes m x"
proof -
  have ok: "pool_ok K m" using held by (simp add: wdk_held_def)
  consider (empty) "layout_size l = 0" "p = dangling" "m' = m"
    | (none) "p = null" "bytes m' = bytes m" "blocks m' = blocks m" "pool_ok K m'"
    | (some) n where "p \<noteq> null" "owns b (tag self) m' (p, l)" "pool_ok K m'"
      "fresh_block (backing b m' (p, l)) n (tag self) m m'"
    using res by (auto simp: alloc_result_def split: if_splits)
  then have "wdk_held b K self (if p = null then bs else (p, l) # bs) m'
    \<and> ((q, k) \<in> set bs \<longrightarrow> in_block x q (layout_size k) \<longrightarrow> bytes m' x = bytes m x)"
  proof cases
    case empty
    then show ?thesis using held by (simp add: dangling_def wdk_held_def)
  next
    case none
    have "wdk_held b K self bs m'"
      by (rule wdk_held_frame [OF held none(4)])
        (use owns_cong [OF none(2,3)] wdk_heldD(2) [OF held] in auto)
    then show ?thesis using none by simp
  next
    case some
    have "layout_size k \<noteq> 0" if "in_block x q (layout_size k)" using that by (auto simp: in_block_def)
    then show ?thesis
      using wdk_held_fresh [OF held some(3,4,2)] some(1)
        owns_after_fresh(4) [OF wdk_heldD(2) [OF held] _ ok some(4)] by auto
  qed
  then show "wdk_held b K self (if p = null then bs else (p, l) # bs) m'"
    and "(q, k) \<in> set bs \<Longrightarrow> in_block x q (layout_size k) \<Longrightarrow> bytes m' x = bytes m x" by auto
qed

lemma held_split:
  assumes "wdk_held b K self (bs @ (p, l) # cs) m" and "layout_size l \<noteq> 0"
    and "(q, k) \<in> set (bs @ cs)" and "layout_size k \<noteq> 0"
  shows "backing b m (p, l) \<noteq> backing b m (q, k)"
  using assms unfolding wdk_held_def Let_def
  by (auto simp: image_iff)

lemma wdk_dealloc_frees:
  assumes "owns b (tag self) m (p, l)" and "layout_size l \<noteq> 0"
  shows "wdk_dealloc b K self p l m = k_ExFreePoolWithTag K (backing b m (p, l)) (tag self) m"
proof (cases "overaligned b l")
  case True
  then have "header_ok b p (backing b m (p, l)) (layout_align l) (bytes m)"
    using assms(1) by (auto simp: owns_def overaligned_in_def)
  then have "dealloc_overaligned b K p (tag self) l m
      = k_ExFreePoolWithTag K (backing b m (p, l)) (tag self) m"
    by (auto simp: dealloc_overaligned_def header_ok_def Let_def split: if_splits)
  then show ?thesis
    using True assms(2)
    by (auto simp: wdk_dealloc_def overaligned_def needs_overaligned_def split: if_splits)
next
  case False
  then show ?thesis
    using assms(2)
    by (auto simp: wdk_dealloc_def overaligned_def needs_overaligned_def backing_def split: if_splits)
qed

lemma wdk_dealloc_blocks:
  assumes "wdk_held b K self (bs @ (p, l) # cs) m" and "layout_size l \<noteq> 0"
    and "wdk_dealloc b K self p l m = Return m'"
  shows "blocks m' = AList.delete (backing b m (p, l)) (blocks m)"
proof -
  have o: "owns b (tag self) m (p, l)" "pool_ok K m" using wdk_heldD [OF assms(1) _ assms(2)] by auto
  then obtain n where "map_of (blocks m) (backing b m (p, l)) = Some (n, tag self)"
    by (rule owns_extent)
  then have "pool_frees (k_ExFreePoolWithTag K (backing b m (p, l)) (tag self) m)
      (backing b m (p, l)) m"
    using o(2) by (simp add: pool_ok_def pool_contract_def)
  then show ?thesis
    using assms(3) by (auto simp: wdk_dealloc_frees [OF o(1) assms(2)] pool_frees_def)
qed

lemma wdk_dealloc_law:
  assumes held: "wdk_held b K self (bs @ (p, l) # cs) m"
  shows "\<exists>m'. wdk_dealloc b K self p l m = Return m' \<and> wdk_held b K self (bs @ cs) m'
    \<and> (\<forall>q k x. (q, k) \<in> set (bs @ cs) \<longrightarrow> in_block x q (layout_size k) \<longrightarrow> bytes m' x = bytes m x)"
proof (cases "layout_size l = 0")
  case True
  then show ?thesis using held by (simp add: wdk_dealloc_def wdk_held_def)
next
  case False
  have o: "owns b (tag self) m (p, l)" "pool_ok K m" using wdk_heldD [OF held _ False] by auto
  let ?base = "backing b m (p, l)"
  obtain n where "map_of (blocks m) ?base = Some (n, tag self)" using o by (rule owns_extent)
  then have "pool_frees (k_ExFreePoolWithTag K ?base (tag self) m) ?base m"
    using o(2) by (simp add: pool_ok_def pool_contract_def)
  then obtain m' where m': "wdk_dealloc b K self p l m = Return m'"
    "blocks m' = AList.delete ?base (blocks m)" "same_statics m m'"
    and keep: "\<And>c k t x. c \<noteq> ?base \<Longrightarrow> map_of (blocks m) c = Some (k, t) \<Longrightarrow> in_block x c k \<Longrightarrow>
      bytes m' x = bytes m x"
    unfolding pool_frees_def wdk_dealloc_frees [OF o(1) False] by blast
  have map': "map_of (blocks m') = (map_of (blocks m))(?base := None)"
    by (simp add: m'(2) delete_conv')
  then have ok': "pool_ok K m'"
    using o(2) m'(3) blocks_ok_delete by (simp add: pool_ok_def same_statics_def)
  have rest: "wdk_held b K self (bs @ cs) m"
    using held False by (auto simp: wdk_held_def Let_def)
  have other: "owns b (tag self) m (q, k)" "backing b m (q, k) \<noteq> ?base"
    if "(q, k) \<in> set (bs @ cs)" "layout_size k \<noteq> 0" for q k
    using wdk_heldD(2) [OF rest that] held_split [OF held False that] by auto
  have same: "bytes m' x = bytes m x"
    if "(q, k) \<in> set (bs @ cs)" "layout_size k \<noteq> 0" "in_block x q (layout_size k)
      \<or> overaligned b k \<and> in_block x (q - WDK_ALLOC_HEADER_SIZE b) (WDK_ALLOC_HEADER_SIZE b)" for q k x
    using owns_inside [OF other(1) [OF that(1,2)] o(2) that(3)] keep other(2) [OF that(1,2)] by blast
  have "wdk_held b K self (bs @ cs) m'"
  proof (rule wdk_held_frame [OF rest ok'])
    fix q k assume qk: "(q, k) \<in> set (bs @ cs)" "layout_size k \<noteq> 0"
    show "owns b (tag self) m' (q, k) \<and> backing b m' (q, k) = backing b m (q, k)"
      by (rule owns_frame [OF other(1) [OF qk] qk(2)])
        (use map' other(2) [OF qk] same [OF qk] in auto)
  qed
  moreover have "layout_size k \<noteq> 0" if "in_block x q (layout_size k)" for x q k
    using that by (auto simp: in_block_def)
  ultimately show ?thesis using m'(1) same by blast
qed

lemma owns_disjoint_header:
  assumes ok: "pool_ok K m" and ow: "owns b tg m (p, l)" and oq: "owns b tg m (q, k)"
    and over: "overaligned b k" and x: "in_block x p (layout_size l)"
    and inj: "backing b m (p, l) = backing b m (q, k) \<Longrightarrow> (p, l) = (q, k)"
  shows "\<not> in_block x (q - WDK_ALLOC_HEADER_SIZE b) (WDK_ALLOC_HEADER_SIZE b)"
proof
  assume h: "in_block x (q - WDK_ALLOC_HEADER_SIZE b) (WDK_ALLOC_HEADER_SIZE b)"
  obtain n where n: "map_of (blocks m) (backing b m (p, l)) = Some (n, tg)"
    "in_block x (backing b m (p, l)) n" using owns_inside [OF ow ok] x by blast
  obtain j where j: "map_of (blocks m) (backing b m (q, k)) = Some (j, tg)"
    "in_block x (backing b m (q, k)) j" using owns_inside [OF oq ok] h over by blast
  have bo: "blocks_ok (map_of (blocks m))" using ok by (simp add: pool_ok_def)
  have "backing b m (p, l) = backing b m (q, k)"
    using blocks_okD(3) [OF bo n(1) j(1)] n(2) j(2) blocks_okD(2) [OF bo n(1)]
      blocks_okD(2) [OF bo j(1)] by (auto simp: separate_def in_block_unat)
  with inj have eq: "p = q" "l = k" by auto
  then have "unat (backing b m (q, k)) + unat (WDK_ALLOC_HEADER_SIZE b) \<le> unat q"
    "unat q + unat (layout_size k) \<le> 2 ^ 64"
    using ow over blocks_okD(2) [OF bo] by (fastforce simp: owns_def overaligned_in_def)+
  then show False
    using h x eq header_before(2) [of "backing b m (q, k)" b q x] by (simp add: in_block_unat)
qed

lemma wdk_put_law:
  assumes held: "wdk_held b K self bs m" and p: "(p, l) \<in> set bs"
    and x: "in_block x p (layout_size l)"
  shows "wdk_held b K self bs (poke x v m)"
    and "backing b (poke x v m) (p, l) = backing b m (p, l)"
proof -
  let ?m = "poke x v m"
  have l0: "layout_size l \<noteq> 0" using x by (auto simp: in_block_def)
  have ok: "pool_ok K m" and ow: "owns b (tag self) m (p, l)" using wdk_heldD [OF held p l0] by auto
  have keep: "owns b (tag self) ?m (q, k) \<and> backing b ?m (q, k) = backing b m (q, k)"
    if q: "(q, k) \<in> set bs" "layout_size k \<noteq> 0" for q k
  proof (rule owns_frame [OF wdk_heldD(2) [OF held q] q(2)])
    fix y assume over: "overaligned b k"
      and y: "in_block y (q - WDK_ALLOC_HEADER_SIZE b) (WDK_ALLOC_HEADER_SIZE b)"
    have "backing b m (p, l) = backing b m (q, k) \<Longrightarrow> (p, l) = (q, k)"
      using held p q l0 by (auto simp: wdk_held_def Let_def distinct_map inj_on_def)
    then have "\<not> in_block x (q - WDK_ALLOC_HEADER_SIZE b) (WDK_ALLOC_HEADER_SIZE b)"
      by (rule owns_disjoint_header [OF ok ow wdk_heldD(2) [OF held q] over x])
    with y have "y \<noteq> x" by blast
    then show "bytes ?m y = bytes m y" by simp
  qed simp
  have "pool_ok K ?m" using ok by (simp add: pool_ok_def)
  then show "wdk_held b K self bs ?m" using keep by (rule wdk_held_frame [OF held])
  show "backing b ?m (p, l) = backing b m (p, l)" using keep [OF p l0] by simp
qed

interpretation wdk: allocator "wdk_alloc b K self" "wdk_dealloc b K self" bytes
  poke "wdk_held b K self" for b K self
proof unfold_locales
  fix bs m l assume held: "wdk_held b K self bs m" and l: "valid_layout l"
  then have "pool_ok K m" by (simp add: wdk_held_def)
  from wdk_alloc_result [OF this l, of b self] show "\<exists>p m'. wdk_alloc b K self l m = Return (p, m')
      \<and> wdk_held b K self (if p = null then bs else (p, l) # bs) m'
      \<and> (\<forall>q k x. (q, k) \<in> set bs \<longrightarrow> in_block x q (layout_size k) \<longrightarrow> bytes m' x = bytes m x)"
    using alloc_result_held [OF held] by blast
next
  fix bs m p l assume a: "wdk_held b K self bs m" "(p, l) \<in> set bs" "layout_size l \<noteq> 0"
  have ok: "pool_ok K m" and ow: "owns b (tag self) m (p, l)" using wdk_heldD [OF a] by auto
  then have "unat p + unat (layout_size l) \<le> 2 ^ 64" "p \<noteq> null"
    by (auto elim!: owns_extent)
  moreover have "unat (layout_align l) dvd unat p"
    using ow by (cases "overaligned b l") (auto simp: owns_def overaligned_in_def)
  ultimately show "p \<noteq> null \<and> unat (layout_align l) dvd unat p
      \<and> unat p + unat (layout_size l) \<le> 2 ^ 64" by simp
next
  fix bs p l cs m q k
  assume a: "wdk_held b K self (bs @ (p, l) # cs) m" "(q, k) \<in> set (bs @ cs)"
    "layout_size l \<noteq> 0" "layout_size k \<noteq> 0"
  show "separate p (layout_size l) q (layout_size k)"
    using wdk_heldD [OF a(1), of p l] wdk_heldD(2) [OF a(1), of q k] held_split [OF a(1,3,2,4)] a
    by (intro owns_extents_apart) auto
qed (auto intro: wdk_dealloc_law [simplified] wdk_put_law)

section \<open>Properties\<close>

lemma wdk_alloc_zeroed_result:
  assumes ok: "pool_ok K m" and l: "valid_layout l"
  shows "\<exists>p m'. wdk_alloc_zeroed b K self l m = Return (p, m')
    \<and> alloc_result b K self l m (p, m')
    \<and> (p \<noteq> null \<longrightarrow> (\<forall>x. in_block x p (layout_size l) \<longrightarrow> bytes m' x = 0))"
proof (cases rule: layout_cases [where l = l and b = b])
  case over
  then show ?thesis
    using overaligned_alloc_result [OF ok l over, of self True]
    by (auto simp: wdk_alloc_zeroed_def overaligned_def)
next
  case plain
  have n: "0 < layout_size l" using plain(1) by (simp add: word_gt_0)
  have r: "pool_result K (layout_size l) (tag self) m
      (ex_allocate_pool K (pool self) (layout_size l) (tag self) m)"
    "pool_zeroes (ex_allocate_pool K (pool self) (layout_size l) (tag self) m) (layout_size l)"
    using ex_allocate_pool_result [OF ok n] by blast+
  note plain_alloc_result [OF r(1) l plain] r(2)
  then show ?thesis using plain
    by (cases "ex_allocate_pool K (pool self) (layout_size l) (tag self) m")
      (auto simp: wdk_alloc_zeroed_def overaligned_def pool_zeroes_def)
qed (use ok in \<open>auto simp: wdk_alloc_zeroed_def alloc_result_def in_block_def\<close>)

lemma blocks_of_writes [simp]:
  "blocks (fold (\<lambda>(x, v). poke x v) ws m) = blocks m"
  by (induction ws arbitrary: m) auto

lemma wdk_writes:
  assumes "wdk_held b K self bs m" and "(p, l) \<in> set bs"
    and "\<forall>(x, v) \<in> set ws. in_block x p (layout_size l)"
  shows "wdk_held b K self bs (fold (\<lambda>(x, v). poke x v) ws m)
    \<and> backing b (fold (\<lambda>(x, v). poke x v) ws m) (p, l) = backing b m (p, l)"
  using assms(1,3)
proof (induction ws arbitrary: m)
  case (Cons w ws)
  then show ?case using wdk_put_law [OF Cons.prems(1) assms(2)] by (cases w) auto
qed simp

text \<open>C5: \<open>WdkAllocator\<close> keeps the contract of \<open>Allocator\<close>, in every build. A block it hands out
  is aligned as its layout asks and apart from every other block it has handed out; whatever the
  owner writes inside the block, \<open>dealloc\<close> with the same layout finds the pool block again, frees
  exactly that one, and leaves the pool with the blocks it had before and the other owners with
  theirs. In particular the header of an over-aligned block is out of the owner's reach.\<close>

theorem wdk_allocator_round_trip:
  assumes "wdk_held b K self bs m" and "valid_layout l" and "layout_size l \<noteq> 0"
    and "wdk_alloc b K self l m = Return (p, m1)" and "p \<noteq> null"
    and "\<forall>(x, v) \<in> set ws. in_block x p (layout_size l)"
  shows "unat (layout_align l) dvd unat p \<and> unat p + unat (layout_size l) \<le> 2 ^ 64
    \<and> (\<forall>(q, k) \<in> set bs. layout_size k \<noteq> 0 \<longrightarrow> separate p (layout_size l) q (layout_size k))
    \<and> (\<exists>m2. wdk_dealloc b K self p l (fold (\<lambda>(x, v). poke x v) ws m1)
          = Return m2
        \<and> wdk_held b K self bs m2 \<and> map_of (blocks m2) = map_of (blocks m))"
proof -
  let ?w = "fold (\<lambda>(x, v). poke x v) ws m1"
  have ok: "pool_ok K m" using assms(1) by (simp add: wdk_held_def)
  have res: "alloc_result b K self l m (p, m1)"
    using wdk_alloc_result [OF ok assms(2), of b self] assms(4) by auto
  have held: "wdk_held b K self ((p, l) # bs) m1"
    using alloc_result_held(1) [OF assms(1) res] assms(5) by simp
  have w: "wdk_held b K self ((p, l) # bs) ?w" "backing b ?w (p, l) = backing b m1 (p, l)"
    using wdk_writes [OF held _ assms(6)] by simp_all
  obtain m2 where m2: "wdk_dealloc b K self p l ?w = Return m2" "wdk_held b K self bs m2"
    "blocks m2 = AList.delete (backing b ?w (p, l)) (blocks ?w)"
    using wdk_dealloc_law [of b K self "[]" p l bs ?w] w(1)
      wdk_dealloc_blocks [of b K self "[]" p l bs ?w] assms(3) by auto
  obtain n where n: "map_of (blocks m) (backing b m1 (p, l)) = None"
    "blocks m1 = (backing b m1 (p, l), (n, tag self)) # blocks m"
    using res assms(3,5) by (auto simp: alloc_result_def fresh_block_def)
  have "map_of (blocks m2) = map_of (blocks m)"
    using n by (auto simp: m2(3) w(2) delete_conv' fun_upd_idem_iff)
  moreover have "separate p (layout_size l) q (layout_size k)"
    if "(q, k) \<in> set bs" "layout_size k \<noteq> 0" for q k
    using wdk.apart_law [of b K self "[]" p l bs m1 q k] held that assms(3) by simp
  ultimately show ?thesis
    using wdk.block_law [OF held, of p l] assms(3) m2(1,2) by auto
qed

text \<open>A kernel with room for one small block at a time, for concrete runs.\<close>

definition small_alloc :: "usize \<Rightarrow> u32 \<Rightarrow> km \<Rightarrow> addr \<times> km" where
  "small_alloc n tg m =
     (if blocks m = [] \<and> n \<le> 4096 then
        (65536, m\<lparr>blocks := [(65536, (n, tg))], bytes := (\<lambda>x. 0)\<rparr>)
      else (null, m))"

definition small_kernel :: kernel where
  "small_kernel =
     \<lparr>k_ExAllocatePoolWithTag = (\<lambda>ty n tg m. small_alloc n tg m),
      k_ExAllocatePool2 = (\<lambda>f flags n tg m. small_alloc n tg m),
      k_ExFreePoolWithTag = (\<lambda>p tg m. Return (m\<lparr>blocks := AList.delete p (blocks m)\<rparr>)),
      k_MmGetSystemRoutineAddress = (\<lambda>name. 4096),
      k_KeGetCurrentIrql = (\<lambda>m. 0)\<rparr>"

definition small_memory :: km where
  "small_memory = \<lparr>bytes = (\<lambda>x. 1), blocks = [], pool2_ptr = 0,
     pool2_state = EX_ALLOCATE_POOL2_STATE_UNINIT\<rparr>"

lemma small_alloc_allocates: "pool_allocates (small_alloc n tg m) n tg m"
  by (auto simp: small_alloc_def pool_allocates_def fresh_block_def same_statics_def
      word_le_nat_alt)

lemma small_kernel_contract: "pool_contract small_kernel"
  unfolding pool_contract_def
  by (auto simp: small_kernel_def small_alloc_allocates pool_frees_def same_statics_def)
    (auto simp: pool_zeroes_def small_alloc_def)

lemma small_held: "wdk_held b small_kernel self [] small_memory"
  using small_kernel_contract
  by (simp add: wdk_held_def pool_ok_def small_memory_def blocks_ok_def
      EX_ALLOCATE_POOL2_STATE_UNINIT_def EX_ALLOCATE_POOL2_STATE_READY_def)

definition debug_build :: alloc_build where
  "debug_build = \<lparr>wdk_alloc_align = True, debug_assertions = True\<rparr>"

definition page_layout :: Layout where
  "page_layout = \<lparr>layout_size = 100, layout_align = 256\<rparr>"

lemma valid_page_layout: "valid_layout page_layout"
  unfolding valid_layout_def page_layout_def by (auto intro!: bexI [of _ 8])

theorem wdk_allocator_round_trip_witness:
  "\<exists>m1 m2. wdk_alloc debug_build small_kernel \<lparr>pool = NonPagedNx, tag = 7\<rparr> page_layout small_memory
      = Return (65792, m1)
    \<and> wdk_dealloc debug_build small_kernel \<lparr>pool = NonPagedNx, tag = 7\<rparr> 65792 page_layout
      (poke 65792 255 m1) = Return m2
    \<and> map_of (blocks m2) = map_of (blocks small_memory)"
proof -
  let ?al = "\<lparr>pool = NonPagedNx, tag = 7\<rparr>"
  obtain m1 where m1: "wdk_alloc debug_build small_kernel ?al page_layout small_memory
      = Return (65792, m1)"
    by (simp add: wdk_alloc_def debug_build_def needs_overaligned_def alloc_overaligned_def
        page_layout_def checked_add_def WDK_ALLOC_HEADER_SIZE_def ex_allocate_pool_uninitialized_def
        get_ex_allocate_pool2_def try_init_ex_allocate_pool2_def small_kernel_def small_memory_def
        small_alloc_def PASSIVE_LEVEL_def EX_ALLOCATE_POOL2_STATE_UNINIT_def
        EX_ALLOCATE_POOL2_STATE_READY_def Let_def)
  show ?thesis
    using wdk_allocator_round_trip [OF small_held valid_page_layout _ m1, of "[(65792, 255)]"] m1
    by (auto simp: page_layout_def in_block_def)
qed

text \<open>\<open>alloc_zeroed\<close> hands out zeroed memory on both of its paths, the over-aligned one and the
  one that leaves the zeroing to the pool (or does it itself when \<open>ExAllocatePool2\<close> is missing),
  under the same conditions as \<open>alloc\<close>.\<close>

theorem wdk_alloc_zeroed_zeroes:
  assumes "wdk_held b K self bs m" and "valid_layout l"
  shows "\<exists>p m'. wdk_alloc_zeroed b K self l m = Return (p, m')
    \<and> wdk_held b K self (if p = null then bs else (p, l) # bs) m'
    \<and> (p \<noteq> null \<longrightarrow> (\<forall>x. in_block x p (layout_size l) \<longrightarrow> bytes m' x = 0))"
proof -
  have "pool_ok K m" using assms(1) by (simp add: wdk_held_def)
  from wdk_alloc_zeroed_result [OF this assms(2), of b self]
  show ?thesis using alloc_result_held(1) [OF assms(1)] by blast
qed

theorem wdk_alloc_zeroed_zeroes_witness:
  "\<exists>p m'. wdk_alloc_zeroed debug_build small_kernel \<lparr>pool = Paged, tag = 7\<rparr> page_layout small_memory
      = Return (p, m') \<and> (p \<noteq> null \<longrightarrow> bytes m' p = 0)"
proof -
  obtain p m' where "wdk_alloc_zeroed debug_build small_kernel \<lparr>pool = Paged, tag = 7\<rparr> page_layout
      small_memory = Return (p, m')"
    "p \<noteq> null \<longrightarrow> (\<forall>x. in_block x p (layout_size page_layout) \<longrightarrow> bytes m' x = 0)"
    using wdk_alloc_zeroed_zeroes [OF small_held valid_page_layout,
        of debug_build "\<lparr>pool = Paged, tag = 7\<rparr>"] by blast
  then show ?thesis by (auto simp: page_layout_def in_block_def)
qed

text \<open>The limits of \<open>WdkAllocator\<close>: without \<open>wdk-alloc-align\<close> a layout aligned beyond 16 bytes is
  refused without a call of the pool; an empty layout gets the pointer 1 in every build, also
  when the layout asks for more alignment than that pointer has.\<close>

theorem wdk_alloc_limits:
  "(\<not> wdk_alloc_align b \<and> layout_align l > WDK_ALLOC_ALIGNMENT \<and> layout_size l \<noteq> 0 \<longrightarrow>
      wdk_alloc b K self l m = Return (null, m)
      \<and> wdk_alloc_zeroed b K self l m = Return (null, m)
      \<and> alloc_uninitialized b K self l m = Return (null, m))
   \<and> wdk_alloc b K self \<lparr>layout_size = 0, layout_align = 8\<rparr> m = Return (1, m)
   \<and> \<not> unat (8 :: usize) dvd unat (1 :: addr)"
  by (auto simp: wdk_alloc_def wdk_alloc_zeroed_def alloc_uninitialized_def dangling_def)

theorem wdk_alloc_limits_witness:
  "wdk_alloc \<lparr>wdk_alloc_align = False, debug_assertions = True\<rparr> small_kernel
     \<lparr>pool = Paged, tag = 7\<rparr> page_layout small_memory = Return (null, small_memory)"
  using wdk_alloc_limits [of "\<lparr>wdk_alloc_align = False, debug_assertions = True\<rparr>" page_layout
      small_kernel "\<lparr>pool = Paged, tag = 7\<rparr>" small_memory]
  by (simp add: page_layout_def WDK_ALLOC_ALIGNMENT_def)

end
