(* ===== verification/KBox.thy ===== *)
theory KBox
  imports Allocator
begin

text \<open>
  The clients of the trait \<open>Allocator\<close> in \<open>src/allocator.rs\<close>: the allocation helpers, in-place
  initialisation, \<open>KBox\<close> and \<open>InitBox\<close>. They are generic in the allocator, which they receive as
  the record \<open>alloc_ops\<close> of its operations on a state; their lemmas are proved in the locales
  \<open>allocator\<close> and, with an exact account of the blocks, \<open>box_allocator\<close>.
\<close>

record 's alloc_ops =
  op_alloc :: "Layout \<Rightarrow> 's \<Rightarrow> (addr \<times> 's) outcome"
  op_dealloc :: "addr \<Rightarrow> Layout \<Rightarrow> 's \<Rightarrow> 's outcome"

section \<open>Helpers\<close>

definition try_alloc_layout :: "'s alloc_ops \<Rightarrow> Layout \<Rightarrow> 's \<Rightarrow> ((NTSTATUS + addr) \<times> 's) outcome" where
  "try_alloc_layout al layout s =
     and_then (op_alloc al layout s) (\<lambda>(ptr, s1).
       Return (if ptr = null then Inl STATUS_INSUFFICIENT_RESOURCES else Inr ptr, s1))"

text \<open>\<open>layout\<close> is \<open>Layout::new::<T>()\<close>, \<open>write\<close> stores the value through the pointer.\<close>

definition try_alloc_value_in ::
  "'s alloc_ops \<Rightarrow> Layout \<Rightarrow> (addr \<Rightarrow> 's \<Rightarrow> 's) \<Rightarrow> 's \<Rightarrow> ((NTSTATUS + addr) \<times> 's) outcome" where
  "try_alloc_value_in al layout write s =
     and_then (op_alloc al layout s) (\<lambda>(ptr, s1).
       if ptr = null then Return (Inl STATUS_INSUFFICIENT_RESOURCES, s1)
       else Return (Inr ptr, write ptr s1))"

definition dealloc_value_in :: "'s alloc_ops \<Rightarrow> Layout \<Rightarrow> addr \<Rightarrow> 's \<Rightarrow> 's outcome" where
  "dealloc_value_in al layout ptr s = op_dealloc al ptr layout s"

text \<open>
  \<open>Layout::array::<T>(len)\<close> for an element layout: the product must not exceed \<open>isize::MAX\<close> after
  rounding up to the alignment. \<open>debug_assert!(false)\<close> panics in debug builds.
\<close>

definition layout_array :: "Layout \<Rightarrow> usize \<Rightarrow> Layout option" where
  "layout_array elem len =
     (let n = unat (layout_size elem) * unat len
      in if n \<le> 2 ^ 63 - unat (layout_align elem)
         then Some \<lparr>layout_size = layout_size elem * len, layout_align = layout_align elem\<rparr>
         else None)"

definition dealloc_slice_in ::
  "alloc_build \<Rightarrow> 's alloc_ops \<Rightarrow> Layout \<Rightarrow> addr \<Rightarrow> usize \<Rightarrow> 's \<Rightarrow> 's outcome" where
  "dealloc_slice_in b al elem ptr len s =
     (case layout_array elem len of
        Some layout \<Rightarrow> op_dealloc al ptr layout s
      | None \<Rightarrow> if debug_assertions b then Panic else Return s)"

section \<open>Errors and in-place initialisation\<close>

datatype 'e KBoxError = Alloc NTSTATUS | Init 'e

definition into_status :: "('e \<Rightarrow> NTSTATUS) \<Rightarrow> 'e KBoxError \<Rightarrow> NTSTATUS" where
  "into_status into err = (case err of Alloc status \<Rightarrow> status | Init e \<Rightarrow> into e)"

definition kbox_error_into_status :: "('e \<Rightarrow> NTSTATUS) \<Rightarrow> 'e KBoxError \<Rightarrow> Status" where
  "kbox_error_into_status into err = from_raw (into_status into err)"

type_synonym ('e, 's) init_fn = "addr \<Rightarrow> 's \<Rightarrow> (('e + unit) \<times> 's) outcome"

record ('e, 's) PinInitOnce =
  init_once :: "('e, 's) init_fn option"

definition pin_init_once_new :: "('e, 's) init_fn \<Rightarrow> ('e, 's) PinInitOnce" where
  "pin_init_once_new f = \<lparr>init_once = Some f\<rparr>"

text \<open>
  \<open>pin_init!\<close> of \<open>src/macros/helpers.rs\<close> with a value, which \<open>write\<close> moves to the pointer, and with a
  closure.
\<close>

definition pin_init_value :: "(addr \<Rightarrow> 's \<Rightarrow> 's) \<Rightarrow> ('e, 's) PinInitOnce" where
  "pin_init_value write = pin_init_once_new (\<lambda>ptr s. Return (Inr (), write ptr s))"

definition pin_init_closure :: "('e, 's) init_fn \<Rightarrow> ('e, 's) PinInitOnce" where
  "pin_init_closure body = pin_init_once_new body"

text \<open>\<open>from\<close> is the \<open>From<NTSTATUS>\<close> conversion of the error type.\<close>

definition pin_init_once ::
  "(NTSTATUS \<Rightarrow> 'e) \<Rightarrow> ('e, 's) PinInitOnce \<Rightarrow> addr \<Rightarrow> 's
    \<Rightarrow> (('e + unit) \<times> ('e, 's) PinInitOnce \<times> 's) outcome" where
  "pin_init_once from self ptr s =
     (case init_once self of
        None \<Rightarrow> Return (Inl (from STATUS_UNSUCCESSFUL), self, s)
      | Some f \<Rightarrow> and_then (f ptr s) (\<lambda>(r, s1). Return (r, self\<lparr>init_once := None\<rparr>, s1)))"

section \<open>KBox\<close>

record KBox =
  kb_ptr :: addr
  kb_layout :: Layout

definition kbox_from_raw_parts :: "addr \<Rightarrow> Layout \<Rightarrow> KBox" where
  "kbox_from_raw_parts ptr layout = \<lparr>kb_ptr = ptr, kb_layout = layout\<rparr>"

definition kbox_into_raw_parts :: "KBox \<Rightarrow> addr \<times> Layout" where
  "kbox_into_raw_parts kb = (kb_ptr kb, kb_layout kb)"

definition try_pin_init ::
  "'s alloc_ops \<Rightarrow> Layout \<Rightarrow> ('e, 's) init_fn \<Rightarrow> 's \<Rightarrow> (('e KBoxError + KBox) \<times> 's) outcome" where
  "try_pin_init al layout init s =
     and_then (op_alloc al layout s) (\<lambda>(ptr, s1).
       if ptr = null then Return (Inl (Alloc STATUS_INSUFFICIENT_RESOURCES), s1)
       else and_then (init ptr s1) (\<lambda>(r, s2).
         case r of
           Inl err \<Rightarrow>
             and_then (op_dealloc al ptr layout s2) (\<lambda>s3. Return (Inl (Init err), s3))
         | Inr u \<Rightarrow> Return (Inr (kbox_from_raw_parts ptr layout), s2)))"

text \<open>\<open>Drop\<close>: the value is dropped in place, then its memory is freed.\<close>

definition kbox_drop ::
  "'s alloc_ops \<Rightarrow> (addr \<Rightarrow> 's \<Rightarrow> 's outcome) \<Rightarrow> KBox \<Rightarrow> 's \<Rightarrow> 's outcome" where
  "kbox_drop al drop_in_place kb s =
     and_then (drop_in_place (kb_ptr kb) s) (\<lambda>s1. op_dealloc al (kb_ptr kb) (kb_layout kb) s1)"

record ('e, 's) InitBox =
  ib_alloc :: "'s alloc_ops"
  ib_init :: "('e, 's) init_fn"

definition init_box_new :: "'s alloc_ops \<Rightarrow> ('e, 's) init_fn \<Rightarrow> ('e, 's) InitBox" where
  "init_box_new al init = \<lparr>ib_alloc = al, ib_init = init\<rparr>"

definition try_pin ::
  "Layout \<Rightarrow> ('e, 's) InitBox \<Rightarrow> 's \<Rightarrow> (('e KBoxError + KBox) \<times> 's) outcome" where
  "try_pin layout self s = try_pin_init (ib_alloc self) layout (ib_init self) s"

definition wdk_ops :: "alloc_build \<Rightarrow> kernel \<Rightarrow> WdkAllocator \<Rightarrow> km alloc_ops" where
  "wdk_ops b K self = \<lparr>op_alloc = wdk_alloc b K self, op_dealloc = wdk_dealloc b K self\<rparr>"

definition init_box_with_tag ::
  "alloc_build \<Rightarrow> kernel \<Rightarrow> PoolType \<Rightarrow> u32 \<Rightarrow> ('e, km) init_fn \<Rightarrow> ('e, km) InitBox" where
  "init_box_with_tag b K pl tg init = init_box_new (wdk_ops b K (wdk_allocator_new pl tg)) init"

section \<open>What clients of an allocator get\<close>

context allocator
begin

lemma try_alloc_layout_cases:
  assumes "held bs s" and "valid_layout l" and "op_alloc al = alloc"
  shows "\<exists>r s'. try_alloc_layout al l s = Return (r, s')
    \<and> (case r of Inl st \<Rightarrow> st = STATUS_INSUFFICIENT_RESOURCES \<and> held bs s'
       | Inr p \<Rightarrow> p \<noteq> null \<and> held ((p, l) # bs) s')"
  using alloc_law [OF assms(1,2)] assms(3) by (auto simp: try_alloc_layout_def)

end

text \<open>
  The part of the contract a box relies on, for one layout: \<open>idle\<close> are the states without the block of
  the box, \<open>boxed p\<close> those with it. What else the two say is up to the provider.
\<close>

locale box_allocator =
  fixes alloc :: "Layout \<Rightarrow> 's \<Rightarrow> (addr \<times> 's) outcome"
    and dealloc :: "addr \<Rightarrow> Layout \<Rightarrow> 's \<Rightarrow> 's outcome"
    and l :: Layout
    and idle :: "'s \<Rightarrow> bool"
    and boxed :: "addr \<Rightarrow> 's \<Rightarrow> bool"
  assumes box_alloc: "idle s \<Longrightarrow> valid_layout l \<Longrightarrow> \<exists>p s'. alloc l s = Return (p, s')
      \<and> (if p = null then idle s' else boxed p s')"
    and box_dealloc: "boxed p s \<Longrightarrow> \<exists>s'. dealloc p l s = Return s' \<and> idle s'"
begin

lemma try_pin_init_cases:
  assumes "idle s" and "valid_layout l" and "al = \<lparr>op_alloc = alloc, op_dealloc = dealloc\<rparr>"
    and "\<And>p s. boxed p s \<Longrightarrow> \<exists>r s'. init p s = Return (r, s') \<and> boxed p s'"
  shows "\<exists>r s'. try_pin_init al l init s = Return (r, s')
    \<and> (case r of
         Inl (Alloc st) \<Rightarrow> st = STATUS_INSUFFICIENT_RESOURCES \<and> idle s'
       | Inl (Init e) \<Rightarrow> idle s' \<and> (\<exists>p s1 s2. boxed p s1 \<and> init p s1 = Return (Inl e, s2))
       | Inr kb \<Rightarrow> kb_layout kb = l \<and> kb_ptr kb \<noteq> null \<and> boxed (kb_ptr kb) s')"
proof -
  obtain p s1 where a: "alloc l s = Return (p, s1)" "if p = null then idle s1 else boxed p s1"
    using box_alloc [OF assms(1,2)] by blast
  show ?thesis
  proof (cases "p = null")
    case True
    then show ?thesis using a assms(3) by (simp add: try_pin_init_def)
  next
    case False
    then obtain r s2 where i: "init p s1 = Return (r, s2)" "boxed p s2"
      using a(2) assms(4) [of p s1] by auto
    show ?thesis
    proof (cases r)
      case (Inl e)
      obtain s3 where "dealloc p l s2 = Return s3" "idle s3" using box_dealloc [OF i(2)] by blast
      then show ?thesis using a i Inl False assms(3) by (auto simp: try_pin_init_def)
    next
      case (Inr u)
      then show ?thesis
        using a(1) i False assms(3) by (simp add: try_pin_init_def kbox_from_raw_parts_def)
    qed
  qed
qed

lemma kbox_drop_releases:
  assumes "boxed (kb_ptr kb) s" and "kb_layout kb = l"
    and "al = \<lparr>op_alloc = alloc, op_dealloc = dealloc\<rparr>"
    and "\<And>p s. boxed p s \<Longrightarrow> \<exists>s'. drop_in_place p s = Return s' \<and> boxed p s'"
  shows "\<exists>s'. kbox_drop al drop_in_place kb s = Return s' \<and> idle s'"
proof -
  obtain s1 where "drop_in_place (kb_ptr kb) s = Return s1" "boxed (kb_ptr kb) s1"
    using assms(1,4) by blast
  then show ?thesis using box_dealloc [of "kb_ptr kb" s1] assms(2,3) by (auto simp: kbox_drop_def)
qed

end

text \<open>Every allocator gives boxes their block and takes it back.\<close>

sublocale allocator \<subseteq> box: box_allocator alloc dealloc l "held bs" "\<lambda>p. held ((p, l) # bs)" for l bs
proof unfold_locales
  fix s assume "held bs s" "valid_layout l"
  then show "\<exists>p s'. alloc l s = Return (p, s') \<and> (if p = null then held bs s' else held ((p, l) # bs) s')"
    using alloc_law [of bs s l] by (auto split: if_splits)
next
  fix p s assume "held ((p, l) # bs) s"
  then show "\<exists>s'. dealloc p l s = Return s' \<and> held bs s'"
    using dealloc_law [of "[]" p l bs s] by auto
qed

section \<open>The exact account of a box on the pool\<close>

text \<open>
  \<open>B\<close> are the blocks of the pool besides the one of the box. Ownership alone does not exclude a leak,
  since it says nothing of blocks nobody owns; the account says which blocks there are.
\<close>

definition pool_without ::
  "alloc_build \<Rightarrow> kernel \<Rightarrow> WdkAllocator \<Rightarrow> (addr \<times> Layout) list \<Rightarrow> (addr \<rightharpoonup> usize \<times> u32) \<Rightarrow> km \<Rightarrow> bool" where
  "pool_without b K self bs B m \<longleftrightarrow> wdk_held b K self bs m \<and> map_of (blocks m) = B"

definition pool_with ::
  "alloc_build \<Rightarrow> kernel \<Rightarrow> WdkAllocator \<Rightarrow> (addr \<times> Layout) list \<Rightarrow> (addr \<rightharpoonup> usize \<times> u32) \<Rightarrow> Layout \<Rightarrow> addr \<Rightarrow> km
    \<Rightarrow> bool" where
  "pool_with b K self bs B l p m \<longleftrightarrow>
     wdk_held b K self ((p, l) # bs) m
     \<and> (if layout_size l = 0 then map_of (blocks m) = B
        else B (backing b m (p, l)) = None \<and> (map_of (blocks m))(backing b m (p, l) := None) = B)"

text \<open>Writing inside the block keeps the account.\<close>

lemma pool_with_writes:
  assumes "pool_with b K self bs B l p m" and "\<forall>(x, v) \<in> set ws. in_block x p (layout_size l)"
  shows "pool_with b K self bs B l p (fold (\<lambda>(x, v). poke x v) ws m)"
  using assms wdk_writes [of b K self "(p, l) # bs" m p l ws] by (simp add: pool_with_def)

lemma pool_with_alloc:
  assumes "pool_without b K self bs B m" and "valid_layout l"
  shows "\<exists>p m'. wdk_alloc b K self l m = Return (p, m')
    \<and> (if p = null then pool_without b K self bs B m' else pool_with b K self bs B l p m')"
proof -
  have h: "wdk_held b K self bs m" "map_of (blocks m) = B" using assms(1) by (simp_all add: pool_without_def)
  then have "pool_ok K m" by (simp add: wdk_held_def)
  then obtain p m' where r: "wdk_alloc b K self l m = Return (p, m')" "alloc_result b K self l m (p, m')"
    using wdk_alloc_result [OF _ assms(2)] by blast
  have "wdk_held b K self (if p = null then bs else (p, l) # bs) m'" using alloc_result_held(1) [OF h(1) r(2)] .
  then show ?thesis
    using r h(2)
    by (auto simp: alloc_result_def pool_without_def pool_with_def fresh_block_def dangling_def fun_upd_idem_iff
        split: if_splits)
qed

lemma pool_with_dealloc:
  assumes "pool_with b K self bs B l p m"
  shows "\<exists>m'. wdk_dealloc b K self p l m = Return m' \<and> pool_without b K self bs B m'"
proof -
  have h: "wdk_held b K self ([] @ (p, l) # bs) m" using assms by (simp add: pool_with_def)
  obtain m' where m': "wdk_dealloc b K self p l m = Return m'" "wdk_held b K self bs m'"
    using wdk_dealloc_law [OF h] by auto
  moreover have "map_of (blocks m') = B"
  proof (cases "layout_size l = 0")
    case True
    then show ?thesis using m'(1) assms by (simp add: wdk_dealloc_def pool_with_def)
  next
    case False
    then show ?thesis using wdk_dealloc_blocks [OF h False m'(1)] assms by (simp add: pool_with_def delete_conv')
  qed
  ultimately show ?thesis by (simp add: pool_without_def)
qed

interpretation pool_box: box_allocator "wdk_alloc b K self" "wdk_dealloc b K self" l
  "pool_without b K self bs B" "pool_with b K self bs B l" for b K self l bs B
  by unfold_locales (rule pool_with_alloc pool_with_dealloc, assumption+)+

section \<open>Properties\<close>

text \<open>C36: A \<open>KBox\<close> on the pool never leaks and never frees twice. \<open>try_pin_init\<close> reports exhaustion as
  \<open>Alloc\<close> with \<open>STATUS_INSUFFICIENT_RESOURCES\<close>; when the initialiser fails it returns its error as
  \<open>Init\<close>; in both cases the pool has exactly the blocks it had before. When it succeeds the pool has
  exactly one block more, the one behind the box, and \<open>Drop\<close> (the destructor, then \<open>dealloc\<close> with the
  layout of the allocation) leaves exactly the blocks there were at the start. The other holders keep
  theirs throughout. The initialiser and the destructor may do what leaves the account alone, like
  writing inside the block.\<close>

theorem kbox_lifecycle:
  assumes "wdk_held b K self bs m" and "valid_layout l" and "layout_size l \<noteq> 0"
    and "\<And>p m'. pool_with b K self bs (map_of (blocks m)) l p m' \<Longrightarrow>
      \<exists>r m''. init p m' = Return (r, m'') \<and> pool_with b K self bs (map_of (blocks m)) l p m''"
    and "\<And>p m'. pool_with b K self bs (map_of (blocks m)) l p m' \<Longrightarrow>
      \<exists>m''. drop_in_place p m' = Return m'' \<and> pool_with b K self bs (map_of (blocks m)) l p m''"
  shows "\<exists>r m'. try_pin_init (wdk_ops b K self) l init m = Return (r, m')
    \<and> (case r of
         Inl e \<Rightarrow> wdk_held b K self bs m' \<and> map_of (blocks m') = map_of (blocks m)
           \<and> (case e of Alloc st \<Rightarrow> st = STATUS_INSUFFICIENT_RESOURCES
              | Init err \<Rightarrow> \<exists>p m1 m2. init p m1 = Return (Inl err, m2))
       | Inr kb \<Rightarrow> wdk_held b K self ((kb_ptr kb, l) # bs) m' \<and> kb_layout kb = l
           \<and> (\<exists>base n. map_of (blocks m) base = None
               \<and> map_of (blocks m') = (map_of (blocks m))(base \<mapsto> (n, tag self)))
           \<and> (\<exists>m''. kbox_drop (wdk_ops b K self) drop_in_place kb m' = Return m''
               \<and> wdk_held b K self bs m'' \<and> map_of (blocks m'') = map_of (blocks m)))"
proof -
  let ?B = "map_of (blocks m)"
  have idle: "pool_without b K self bs ?B m" using assms(1) by (simp add: pool_without_def)
  obtain r m' where r: "try_pin_init (wdk_ops b K self) l init m = Return (r, m')"
    "case r of
         Inl (Alloc st) \<Rightarrow> st = STATUS_INSUFFICIENT_RESOURCES \<and> pool_without b K self bs ?B m'
       | Inl (Init e) \<Rightarrow> pool_without b K self bs ?B m'
           \<and> (\<exists>p m1 m2. pool_with b K self bs ?B l p m1 \<and> init p m1 = Return (Inl e, m2))
       | Inr kb \<Rightarrow> kb_layout kb = l \<and> kb_ptr kb \<noteq> null \<and> pool_with b K self bs ?B l (kb_ptr kb) m'"
    using pool_box.try_pin_init_cases [OF idle assms(2) wdk_ops_def, of init] assms(4) by blast
  show ?thesis
  proof (cases r)
    case (Inl e)
    then show ?thesis using r by (cases e) (auto simp: pool_without_def)
  next
    case (Inr kb)
    then have kb: "kb_layout kb = l" "pool_with b K self bs ?B l (kb_ptr kb) m'" using r(2) by auto
    obtain m'' where "kbox_drop (wdk_ops b K self) drop_in_place kb m' = Return m''" "pool_without b K self bs ?B m''"
      using pool_box.kbox_drop_releases [OF kb(2,1) wdk_ops_def] assms(5) by blast
    moreover have "\<exists>base n. map_of (blocks m) base = None
        \<and> map_of (blocks m') = (map_of (blocks m))(base \<mapsto> (n, tag self))"
    proof -
      obtain n where "map_of (blocks m') (backing b m' (kb_ptr kb, l)) = Some (n, tag self)"
        using kb(2) assms(3) wdk_heldD(2) [of b K self "(kb_ptr kb, l) # bs" m' "kb_ptr kb" l]
        by (auto simp: pool_with_def owns_def)
      then have "map_of (blocks m') = ((map_of (blocks m'))(backing b m' (kb_ptr kb, l) := None))
          (backing b m' (kb_ptr kb, l) \<mapsto> (n, tag self))"
        by (simp add: fun_upd_idem)
      moreover have "map_of (blocks m) (backing b m' (kb_ptr kb, l)) = None"
        "(map_of (blocks m'))(backing b m' (kb_ptr kb, l) := None) = map_of (blocks m)"
        using kb(2) assms(3) by (simp_all add: pool_with_def)
      ultimately show ?thesis by metis
    qed
    ultimately show ?thesis
      using r(1) Inr kb(1) kb(2) by (auto simp: pool_with_def pool_without_def)
  qed
qed

text \<open>A box whose initialiser and destructor write to the block, and one whose initialiser fails.\<close>

theorem kbox_lifecycle_witness:
  "\<exists>kb m' m''. try_pin_init (wdk_ops debug_build small_kernel \<lparr>pool = Paged, tag = 7\<rparr>) page_layout
      (\<lambda>p m. Return (Inr (), poke p 1 m) :: ((NTSTATUS + unit) \<times> km) outcome) small_memory = Return (Inr kb, m')
    \<and> blocks m' \<noteq> []
    \<and> kbox_drop (wdk_ops debug_build small_kernel \<lparr>pool = Paged, tag = 7\<rparr>) (\<lambda>p m. Return (poke p 0 m)) kb m' = Return m''
    \<and> map_of (blocks m'') = Map.empty"
proof -
  let ?al = "\<lparr>pool = Paged, tag = 7\<rparr>"
  let ?init = "\<lambda>p m. Return (Inr (), poke p 1 m) :: ((NTSTATUS + unit) \<times> km) outcome"
  have put: "pool_with debug_build small_kernel ?al [] B page_layout p (poke p v m)"
    if "pool_with debug_build small_kernel ?al [] B page_layout p m" for B p v m
    using pool_with_writes [OF that, of "[(p, v)]"] by (simp add: in_block_def page_layout_def)
  obtain kb m' where r: "try_pin_init (wdk_ops debug_build small_kernel ?al) page_layout ?init small_memory
      = Return (Inr kb, m')" "blocks m' \<noteq> []"
    by (simp add: try_pin_init_def wdk_ops_def wdk_alloc_def debug_build_def needs_overaligned_def alloc_overaligned_def
        page_layout_def checked_add_def WDK_ALLOC_HEADER_SIZE_def ex_allocate_pool_uninitialized_def
        get_ex_allocate_pool2_def try_init_ex_allocate_pool2_def small_kernel_def small_memory_def
        small_alloc_def PASSIVE_LEVEL_def EX_ALLOCATE_POOL2_STATE_UNINIT_def
        EX_ALLOCATE_POOL2_STATE_READY_def Let_def)
  have "blocks small_memory = []" by (simp add: small_memory_def)
  then show ?thesis
    using kbox_lifecycle [OF small_held valid_page_layout, of debug_build ?al ?init "\<lambda>p m. Return (poke p 0 m)"] r put
    by (auto simp: page_layout_def)
qed

text \<open>In-place initialisation runs at most once: a \<open>PinInitOnce\<close> hands its pointer to the
  closure the first time and afterwards fails with \<open>STATUS_UNSUCCESSFUL\<close> without running
  anything.\<close>

theorem pin_init_once_runs_once:
  "pin_init_once from (pin_init_once_new f) p s = Return (r, self, s1) \<Longrightarrow>
     f p s = Return (r, s1) \<and> pin_init_once from self q s1 = Return (Inl (from STATUS_UNSUCCESSFUL), self, s1)"
  by (auto simp: pin_init_once_def pin_init_once_new_def outcome_simps)

theorem pin_init_once_runs_once_witness:
  "pin_init_once (\<lambda>st. st) \<lparr>init_once = None\<rparr> 8 (1 :: nat)
     = Return (Inl STATUS_UNSUCCESSFUL, \<lparr>init_once = None\<rparr>, 1)"
  using pin_init_once_runs_once
    [of "\<lambda>st. st" "\<lambda>p s. Return (Inr (), s + 1)" 4 "0 :: nat" "Inr ()" "\<lparr>init_once = None\<rparr>" 1 8]
  by (simp add: pin_init_once_def pin_init_once_new_def)

end
