(* ===== verification/Refcount.thy ===== *)
theory Refcount
  imports Iunknown
begin

text \<open>
  The shared reference counters of \<open>src/refcount.rs\<close>. A counter is the value of an
  \<open>AtomicU32\<close>; an operation takes the value it finds and gives the result of the call together
  with the value it leaves, one atomic read-modify-write. The three bodies of \<open>add\<close> and of
  \<open>sub\<close>, selected by the features \<open>refcount-hardening\<close> and \<open>leaky-hardening\<close>, are separate
  definitions; \<open>refcount_add\<close> and \<open>refcount_sub\<close> select among them as the build does. The locale
  \<open>counter\<close> states what the clients rely on and is interpreted on all of them.
\<close>

section \<open>Operations\<close>

definition MAX_REFCOUNT :: u32 where
  "MAX_REFCOUNT = 0x7FFFFFFF"

text \<open>
  \<open>AtomicU32::fetch_update\<close>: the closure decides on the current value; \<open>None\<close> leaves the
  counter as it is and gives the value back as the error.
\<close>

definition fetch_update :: "(u32 \<Rightarrow> u32 option) \<Rightarrow> u32 \<Rightarrow> (u32 + u32) \<times> u32" where
  "fetch_update f current =
     (case f current of None \<Rightarrow> (Inl current, current) | Some new \<Rightarrow> (Inr current, new))"

definition refcount_violation :: "'a outcome" where
  "refcount_violation = Halt RefcountViolation"

text \<open>
  Without hardening the counter wraps and the addition after \<open>fetch_add\<close> is plain arithmetic: it
  panics on overflow in builds with overflow checks and wraps in the others.
\<close>

definition add_unhardened :: "bool \<Rightarrow> u32 \<Rightarrow> (u32 \<times> u32) outcome" where
  "add_unhardened overflow_checks prev =
     (if overflow_checks \<and> prev = 0xFFFFFFFF then Panic else Return (prev + 1, prev + 1))"

definition sub_unhardened :: "bool \<Rightarrow> u32 \<Rightarrow> (u32 \<times> u32) outcome" where
  "sub_unhardened overflow_checks prev =
     (if overflow_checks \<and> prev = 0 then Panic else Return (prev - 1, prev - 1))"

definition add_closure :: "u32 \<Rightarrow> u32 option" where
  "add_closure current = (if current \<ge> MAX_REFCOUNT then None else Some (current + 1))"

definition sub_closure :: "u32 \<Rightarrow> u32 option" where
  "sub_closure current = (if current = 0 then None else Some (current - 1))"

definition add_hardened :: "u32 \<Rightarrow> (u32 \<times> u32) outcome" where
  "add_hardened c =
     (case fetch_update add_closure c of
        (Inr prev, c') \<Rightarrow> Return (prev + 1, c')
      | (Inl _, c') \<Rightarrow> refcount_violation)"

definition sub_hardened :: "u32 \<Rightarrow> (u32 \<times> u32) outcome" where
  "sub_hardened c =
     (case fetch_update sub_closure c of
        (Inr prev, c') \<Rightarrow> Return (prev - 1, c')
      | (Inl _, c') \<Rightarrow> refcount_violation)"

definition add_leaky :: "u32 \<Rightarrow> (u32 \<times> u32) outcome" where
  "add_leaky c =
     (case fetch_update add_closure c of
        (Inr prev, c') \<Rightarrow> Return (prev + 1, c')
      | (Inl _, c') \<Rightarrow> Return (MAX_REFCOUNT, c'))"

definition sub_leaky :: "u32 \<Rightarrow> (u32 \<times> u32) outcome" where
  "sub_leaky c =
     (case fetch_update sub_closure c of
        (Inr prev, c') \<Rightarrow> Return (prev - 1, c')
      | (Inl _, c') \<Rightarrow> Return (MAX_REFCOUNT, c'))"

text \<open>The build: which features are on, and whether arithmetic is overflow checked.\<close>

datatype hardening = Unhardened | Hardened | LeakyHardened

record build =
  hardening :: hardening
  overflow_checks :: bool

definition refcount_add :: "build \<Rightarrow> u32 \<Rightarrow> (u32 \<times> u32) outcome" where
  "refcount_add b c =
     (case hardening b of
        Unhardened \<Rightarrow> add_unhardened (overflow_checks b) c
      | Hardened \<Rightarrow> add_hardened c
      | LeakyHardened \<Rightarrow> add_leaky c)"

definition refcount_sub :: "build \<Rightarrow> u32 \<Rightarrow> (u32 \<times> u32) outcome" where
  "refcount_sub b c =
     (case hardening b of
        Unhardened \<Rightarrow> sub_unhardened (overflow_checks b) c
      | Hardened \<Rightarrow> sub_hardened c
      | LeakyHardened \<Rightarrow> sub_leaky c)"

text \<open>The largest count a build can hand out without wrapping, stopping or saturating.\<close>

definition refcount_cap :: "build \<Rightarrow> nat" where
  "refcount_cap b = (if hardening b = Unhardened then 2 ^ 32 - 1 else 2 ^ 31 - 1)"

lemmas refcount_op_defs =
  refcount_add_def refcount_sub_def add_unhardened_def sub_unhardened_def add_hardened_def
  sub_hardened_def add_leaky_def sub_leaky_def fetch_update_def add_closure_def sub_closure_def
  refcount_violation_def

section \<open>The contract of a counter\<close>

text \<open>
  What the owners of a counter rely on: below the cap an increment returns and stores one more, a
  decrement of a positive count returns and stores one less.
\<close>

locale counter =
  fixes add :: "u32 \<Rightarrow> (u32 \<times> u32) outcome"
    and sub :: "u32 \<Rightarrow> (u32 \<times> u32) outcome"
    and cap :: nat
  assumes cap_bound: "cap < 2 ^ 32"
    and add_below: "unat c < cap \<Longrightarrow> add c = Return (c + 1, c + 1)"
    and sub_positive: "0 < unat c \<Longrightarrow> sub c = Return (c - 1, c - 1)"
begin

lemma add_counts:
  assumes "unat c < cap"
  shows "\<exists>c'. add c = Return (c', c') \<and> unat c' = unat c + 1"
  using assms cap_bound by (auto simp: add_below unat_suc)

lemma sub_counts:
  assumes "0 < unat c"
  shows "\<exists>c'. sub c = Return (c', c') \<and> unat c' = unat c - 1"
  using assms by (auto simp: sub_positive unat_pred)

lemma sub_of_nat:
  assumes "0 < n" and "n \<le> cap"
  shows "sub (of_nat n) = Return (of_nat (n - 1), of_nat (n - 1))"
proof -
  have "unat (of_nat n :: u32) = n"
    using assms cap_bound by (intro unat_of_nat_small) simp
  then show ?thesis
    using assms by (simp add: sub_positive of_nat_diff)
qed

lemma add_of_nat:
  assumes "n < cap"
  shows "add (of_nat n) = Return (of_nat (n + 1), of_nat (n + 1))"
proof -
  have "unat (of_nat n :: u32) = n"
    using assms cap_bound by (intro unat_of_nat_small) simp
  then show ?thesis
    using assms by (simp add: add_below add.commute)
qed

lemma sub_zero_iff:
  assumes "0 < unat c" and "sub c = Return (r, c')"
  shows "r = 0 \<longleftrightarrow> unat c = 1"
proof -
  have "r = c - 1" using assms by (simp add: sub_positive)
  moreover have "unat (c - 1) = unat c - 1" using assms(1) by (rule unat_pred)
  ultimately show ?thesis using assms(1)
    by (metis diff_is_0_eq le_antisym less_eq_Suc_le One_nat_def order_refl unsigned_eq_0_iff)
qed

lemma add_sub_round_trip:
  assumes "unat c < cap"
  shows "and_then (add c) (\<lambda>(r, c'). sub c') = Return (c, c)"
proof -
  have "unat (c + 1) = unat c + 1"
    using assms cap_bound by (intro unat_suc) simp
  then have "sub (c + 1) = Return (c, c)"
    using sub_positive [of "c + 1"] by simp
  then show ?thesis using assms by (simp add: add_below)
qed

end

section \<open>All builds meet the contract\<close>

lemma refcount_cap_bound: "refcount_cap b < 2 ^ 32"
  by (simp add: refcount_cap_def)

lemma max_refcount_le_iff [simp]: "MAX_REFCOUNT \<le> c \<longleftrightarrow> 2147483647 \<le> unat c"
  by (simp add: MAX_REFCOUNT_def word_le_nat_alt)

lemma u32_max_not_below: "unat (c :: u32) < 2 ^ 32 - 1 \<Longrightarrow> c \<noteq> 0xFFFFFFFF"
  by auto

interpretation unhardened: counter "add_unhardened ov" "sub_unhardened ov" "2 ^ 32 - 1" for ov
  by unfold_locales (auto simp: add_unhardened_def sub_unhardened_def dest: u32_max_not_below)

interpretation hardened: counter add_hardened sub_hardened "2 ^ 31 - 1"
  by unfold_locales
    (auto simp: add_hardened_def sub_hardened_def fetch_update_def add_closure_def sub_closure_def)

interpretation leaky: counter add_leaky sub_leaky "2 ^ 31 - 1"
  by unfold_locales
    (auto simp: add_leaky_def sub_leaky_def fetch_update_def add_closure_def sub_closure_def)

interpretation refcount: counter "refcount_add b" "refcount_sub b" "refcount_cap b" for b
proof unfold_locales
  show "refcount_cap b < 2 ^ 32" by (rule refcount_cap_bound)
next
  fix c :: u32 assume "unat c < refcount_cap b"
  then show "refcount_add b c = Return (c + 1, c + 1)"
    by (cases "hardening b")
      (simp_all add: refcount_add_def refcount_cap_def unhardened.add_below hardened.add_below
        leaky.add_below)
next
  fix c :: u32 assume "0 < unat c"
  then show "refcount_sub b c = Return (c - 1, c - 1)"
    by (cases "hardening b")
      (simp_all add: refcount_sub_def unhardened.sub_positive hardened.sub_positive
        leaky.sub_positive)
qed

section \<open>Sequences of operations\<close>

text \<open>
  The atomic operations of all owners of a counter form one sequence, the modification order of
  the atomic; \<open>refcount_run\<close> applies it.
\<close>

datatype rc_op = RcAdd | RcSub

fun rc_apply :: "build \<Rightarrow> rc_op \<Rightarrow> u32 \<Rightarrow> (u32 \<times> u32) outcome" where
  "rc_apply b RcAdd c = refcount_add b c"
| "rc_apply b RcSub c = refcount_sub b c"

fun refcount_run :: "build \<Rightarrow> rc_op list \<Rightarrow> u32 \<Rightarrow> u32 outcome" where
  "refcount_run b [] c = Return c"
| "refcount_run b (p # ps) c = and_then (rc_apply b p c) (\<lambda>(r, c'). refcount_run b ps c')"

text \<open>The specification: a counter on the naturals that refuses to leave the range \<open>0..cap\<close>.\<close>

fun spec_apply :: "nat \<Rightarrow> rc_op \<Rightarrow> nat \<Rightarrow> nat option" where
  "spec_apply cap RcAdd n = (if n < cap then Some (n + 1) else None)"
| "spec_apply cap RcSub n = (if 0 < n then Some (n - 1) else None)"

fun spec_run :: "nat \<Rightarrow> rc_op list \<Rightarrow> nat \<Rightarrow> nat option" where
  "spec_run cap [] n = Some n"
| "spec_run cap (p # ps) n = Option.bind (spec_apply cap p n) (spec_run cap ps)"

definition refcount_abs :: "u32 outcome \<Rightarrow> nat option" where
  "refcount_abs m = (case m of Return c \<Rightarrow> Some (unat c) | _ \<Rightarrow> None)"

lemma refcount_abs_simps [simp]:
  "refcount_abs (Return c) = Some (unat c)" "refcount_abs (Halt h) = None"
  by (simp_all add: refcount_abs_def)

lemma add_hardened_at_cap:
  "2147483647 \<le> unat c \<Longrightarrow> add_hardened c = Halt RefcountViolation"
  by (simp add: add_hardened_def fetch_update_def add_closure_def refcount_violation_def)

lemma sub_hardened_at_zero: "unat c = 0 \<Longrightarrow> sub_hardened c = Halt RefcountViolation"
  by (simp add: sub_hardened_def fetch_update_def sub_closure_def refcount_violation_def)

lemma hardened_apply_refines:
  assumes "hardening b = Hardened" and "unat c \<le> refcount_cap b"
  shows "case spec_apply (refcount_cap b) p (unat c) of
      None \<Rightarrow> rc_apply b p c = Halt RefcountViolation
    | Some n \<Rightarrow> \<exists>c'. rc_apply b p c = Return (c', c') \<and> unat c' = n \<and> n \<le> refcount_cap b"
proof (cases p)
  case RcAdd
  then show ?thesis
    using assms refcount.add_counts [of c b] add_hardened_at_cap [of c]
    by (auto simp: refcount_add_def refcount_cap_def)
next
  case RcSub
  then show ?thesis
    using assms refcount.sub_counts [of c b] sub_hardened_at_zero
    by (auto simp: refcount_sub_def refcount_cap_def)
qed

text \<open>C14: With \<open>refcount-hardening\<close> (and without \<open>leaky-hardening\<close>) every sequence of \<open>add\<close> and
  \<open>sub\<close> on a counter refines the bounded counter on the naturals: it gives exactly the number the
  specification gives, and where the specification would leave \<open>0..i32::MAX\<close> the code stops with a
  reference count violation; it never wraps, panics or continues with a wrong count.\<close>

theorem hardened_refines_bounded_counter:
  assumes "hardening b = Hardened" and "unat c \<le> refcount_cap b"
  shows "(case spec_run (refcount_cap b) ps (unat c) of
      None \<Rightarrow> refcount_run b ps c = Halt RefcountViolation
    | Some n \<Rightarrow> refcount_abs (refcount_run b ps c) = Some n)"
  using assms(2)
proof (induction ps arbitrary: c)
  case Nil
  then show ?case by simp
next
  case (Cons p ps)
  show ?case
  proof (cases "spec_apply (refcount_cap b) p (unat c)")
    case None
    then show ?thesis
      using hardened_apply_refines [OF assms(1) Cons.prems, of p] by simp
  next
    case (Some n)
    then obtain c' where "rc_apply b p c = Return (c', c')" "unat c' = n" "n \<le> refcount_cap b"
      using hardened_apply_refines [OF assms(1) Cons.prems, of p] by auto
    then have "refcount_run b (p # ps) c = refcount_run b ps c'"
      and "case spec_run (refcount_cap b) ps n of
          None \<Rightarrow> refcount_run b ps c' = Halt RefcountViolation
        | Some n \<Rightarrow> refcount_abs (refcount_run b ps c') = Some n"
      using Cons.IH [of c'] by simp_all
    then show ?thesis using Some by (simp only: spec_run.simps Option.bind.simps)
  qed
qed

theorem hardened_refines_bounded_counter_witness:
  "refcount_run \<lparr>hardening = Hardened, overflow_checks = False\<rparr> [RcAdd, RcSub, RcSub, RcSub] 1
     = Halt RefcountViolation"
  using hardened_refines_bounded_counter
    [of "\<lparr>hardening = Hardened, overflow_checks = False\<rparr>" 1 "[RcAdd, RcSub, RcSub, RcSub]"]
  by (simp add: refcount_cap_def)

text \<open>C38: The three builds of the counter agree on every sequence that stays within
  \<open>0..i32::MAX\<close>: hardening changes nothing for balanced clients, whatever the overflow checks.\<close>

theorem builds_agree_in_range:
  assumes "spec_run (2 ^ 31 - 1) ps (unat c) = Some n"
  shows "refcount_run b ps c = Return (of_nat n)"
  using assms
proof (induction ps arbitrary: c)
  case Nil
  then show ?case by auto
next
  case (Cons p ps)
  then obtain m where m: "spec_apply (2 ^ 31 - 1) p (unat c) = Some m"
    and rest: "spec_run (2 ^ 31 - 1) ps m = Some n"
    by (auto simp: bind_eq_Some_conv)
  have "\<exists>c'. rc_apply b p c = Return (c', c') \<and> unat c' = m"
  proof (cases p)
    case RcAdd
    then have "unat c < refcount_cap b" "m = unat c + 1"
      using m by (auto simp: refcount_cap_def split: if_splits)
    then show ?thesis using RcAdd refcount.add_counts [of c b] by simp
  next
    case RcSub
    then have "0 < unat c" "m = unat c - 1"
      using m by (auto split: if_splits)
    then show ?thesis using RcSub refcount.sub_counts [of c b] by simp
  qed
  then show ?case using Cons.IH rest by auto
qed

theorem builds_agree_in_range_witness:
  "refcount_run \<lparr>hardening = LeakyHardened, overflow_checks = True\<rparr> [RcAdd, RcAdd, RcSub] 1
     = Return (of_nat 2)"
  by (rule builds_agree_in_range) simp

section \<open>Saturation\<close>

text \<open>
  The references that exist in a history of owners: each decrement gives back one that was there.
  \<open>peak\<close> is the largest number of them along the history.
\<close>

fun references :: "rc_op list \<Rightarrow> nat \<Rightarrow> nat option" where
  "references [] n = Some n"
| "references (RcAdd # ps) n = references ps (n + 1)"
| "references (RcSub # ps) n = (if n = 0 then None else references ps (n - 1))"

fun peak :: "rc_op list \<Rightarrow> nat \<Rightarrow> nat" where
  "peak [] n = n"
| "peak (RcAdd # ps) n = max n (peak ps (n + 1))"
| "peak (RcSub # ps) n = max n (peak ps (n - 1))"

text \<open>The counter of \<open>leaky-hardening\<close> on the naturals: it stays where it would leave \<open>0..cap\<close>.\<close>

fun clamp :: "nat \<Rightarrow> rc_op \<Rightarrow> nat \<Rightarrow> nat" where
  "clamp cap RcAdd n = (if n < cap then n + 1 else n)"
| "clamp cap RcSub n = n - 1"

lemma peak_start: "n \<le> peak ps n"
  by (cases "(ps, n)" rule: peak.cases) auto

lemma clamp_le: "n \<le> cap \<Longrightarrow> clamp cap p n \<le> cap"
  by (cases p) auto

lemma references_append: "references (ps @ qs) n = Option.bind (references ps n) (references qs)"
  by (induction ps n rule: references.induct) auto

lemma references_replicate:
  "references (replicate k RcAdd) n = Some (n + k)"
  "k \<le> n \<Longrightarrow> references (replicate k RcSub) n = Some (n - k)"
  by (induction k arbitrary: n) auto

lemma leaky_apply:
  assumes "hardening b = LeakyHardened" and "unat c \<le> refcount_cap b"
  shows "\<exists>r c'. rc_apply b p c = Return (r, c') \<and> unat c' = clamp (refcount_cap b) p (unat c)"
proof (cases p)
  case RcAdd
  then show ?thesis
    using assms leaky.add_counts [of c]
    by (cases "unat c < refcount_cap b")
      (auto simp: refcount_add_def refcount_cap_def add_leaky_def fetch_update_def add_closure_def)
next
  case RcSub
  then show ?thesis
    using assms leaky.sub_counts [of c]
    by (cases "c = 0") (auto simp: refcount_sub_def sub_leaky_def fetch_update_def sub_closure_def unat_gt_0)
qed

lemma leaky_run:
  assumes "hardening b = LeakyHardened" and "unat c \<le> refcount_cap b"
  shows "\<exists>c'. refcount_run b ps c = Return c' \<and> unat c' = fold (clamp (refcount_cap b)) ps (unat c)"
  using assms(2)
proof (induction ps arbitrary: c)
  case (Cons p ps)
  obtain r c1 where c1: "rc_apply b p c = Return (r, c1)" "unat c1 = clamp (refcount_cap b) p (unat c)"
    using leaky_apply [OF assms(1) Cons.prems] by blast
  then show ?case using Cons.IH [of c1] clamp_le [OF Cons.prems] by simp
qed simp

text \<open>The clamped counter falls behind the references by what the history exceeded the cap, at most.\<close>

lemma clamp_between:
  assumes "references ps n = Some n'" and "y \<le> n" and "n \<le> y + d" and "peak ps n \<le> cap + d"
  shows "fold (clamp cap) ps y \<le> n' \<and> n' \<le> fold (clamp cap) ps y + d"
  using assms
proof (induction ps arbitrary: n y)
  case (Cons p ps)
  show ?case
  proof (cases p)
    case RcAdd
    then have "n + 1 \<le> cap + d" using Cons.prems(4) peak_start [of "n + 1" ps] by simp
    then show ?thesis
      using Cons.IH [of "n + 1" "clamp cap p y"] Cons.prems RcAdd by auto
  next
    case RcSub
    then show ?thesis
      using Cons.IH [of "n - 1" "y - 1"] Cons.prems by (auto split: if_splits)
  qed
qed simp

lemma clamp_replicate:
  "y \<le> cap \<Longrightarrow> cap \<le> y + k \<Longrightarrow> fold (clamp cap) (replicate k RcAdd) y = cap"
  "fold (clamp cap) (replicate k RcSub) y = y - k"
  by (induction k arbitrary: y) (auto split: if_splits)

text \<open>C39: What \<open>leaky-hardening\<close> does to the owners of a counter. Whatever they do, the counter
  never stops, never counts a reference that does not exist, and falls short of the references by no more
  than their number ever exceeded \<open>i32::MAX\<close>; in range it is exact. So saturation never leaks. It
  loses references instead: for every \<open>k\<close> there is a history of owners after which \<open>k\<close> references
  still exist when a \<open>sub\<close> returns zero, which destroys the object.\<close>

theorem leaky_saturation:
  assumes "hardening b = LeakyHardened" and "unat c \<le> refcount_cap b"
  shows "(\<forall>ps n. references ps (unat c) = Some n \<longrightarrow>
      (\<exists>c'. refcount_run b ps c = Return c' \<and> unat c' \<le> n
        \<and> n \<le> unat c' + (peak ps (unat c) - refcount_cap b)))
    \<and> (\<forall>k. \<exists>ps c'. references (ps @ [RcSub]) (unat c) = Some k
        \<and> refcount_run b ps c = Return c' \<and> refcount_sub b c' = Return (0, 0))"
proof -
  let ?cap = "refcount_cap b" and ?n = "unat c"
  have "\<exists>c'. refcount_run b ps c = Return c' \<and> unat c' \<le> n \<and> n \<le> unat c' + (peak ps ?n - ?cap)"
    if "references ps ?n = Some n" for ps n
    using leaky_run [OF assms, of ps] clamp_between [OF that, of ?n "peak ps ?n - ?cap" ?cap] by auto
  moreover have "\<exists>ps c'. references (ps @ [RcSub]) ?n = Some k
        \<and> refcount_run b ps c = Return c' \<and> refcount_sub b c' = Return (0, 0)" for k
  proof -
    let ?ps = "replicate (?cap - ?n + k) RcAdd @ replicate (?cap - 1) RcSub"
    have cap: "0 < ?cap" by (simp add: refcount_cap_def)
    obtain c' where c': "refcount_run b ?ps c = Return c'" "unat c' = fold (clamp ?cap) ?ps ?n"
      using leaky_run [OF assms] by blast
    then have "unat c' = 1" using assms(2) cap by (simp add: clamp_replicate del: fold_replicate)
    then have "c' = 1" by (metis unsigned_1 word_unat_eq_iff)
    then have "refcount_sub b c' = Return (0, 0)" using refcount.sub_positive [of c' b] by simp
    moreover have "references (?ps @ [RcSub]) ?n = Some k"
      using assms(2) cap by (auto simp: references_append references_replicate)
    ultimately show ?thesis using c'(1) by blast
  qed
  ultimately show ?thesis by blast
qed

theorem leaky_saturation_witness:
  "refcount_run \<lparr>hardening = LeakyHardened, overflow_checks = False\<rparr> [RcAdd, RcSub, RcSub] 2 = Return 1
   \<and> (\<exists>ps c'. references (ps @ [RcSub]) 2 = Some 5
        \<and> refcount_run \<lparr>hardening = LeakyHardened, overflow_checks = False\<rparr> ps 2 = Return c'
        \<and> refcount_sub \<lparr>hardening = LeakyHardened, overflow_checks = False\<rparr> c' = Return (0, 0))"
proof -
  let ?b = "\<lparr>hardening = LeakyHardened, overflow_checks = False\<rparr>"
  have l: "hardening ?b = LeakyHardened" "unat (2 :: u32) \<le> refcount_cap ?b" by (simp_all add: refcount_cap_def)
  have "references [RcAdd, RcSub, RcSub] (unat (2 :: u32)) = Some 1"
    "peak [RcAdd, RcSub, RcSub] (unat (2 :: u32)) - refcount_cap ?b = 0"
    by (simp_all add: refcount_cap_def)
  then obtain c' where "refcount_run ?b [RcAdd, RcSub, RcSub] 2 = Return c'" "unat c' \<le> 1" "1 \<le> unat c'"
    using leaky_saturation [OF l] by fastforce
  moreover from this have "c' = 1" by (metis le_antisym unsigned_1 word_unat_eq_iff)
  ultimately show ?thesis using leaky_saturation [OF l] by auto
qed

end
