(* ===== verification/Tracker.thy ===== *)
theory Tracker
  imports Refcount
begin

text \<open>
  The trackers of \<open>src/executor.rs\<close> that count outstanding tasks for a driver that unloads:
  \<open>TaskTracker\<close> for DPC tasks and \<open>WorkItemTracker\<close> for work items. The two have the same body; the
  kernel event they wait on is a parameter.
\<close>

section \<open>The kernel event\<close>

text \<open>
  \<open>KeInitializeEvent\<close> for a synchronization event with its initial state, \<open>KeSetEvent\<close>, and
  \<open>KeWaitForSingleObject\<close> without a timeout: \<open>None\<close> when it has to wait, and the event afterwards
  when it returns.
\<close>

record 'e event_ops =
  ke_initialize_event :: "bool \<Rightarrow> 'e"
  ke_set_event :: "'e \<Rightarrow> 'e"
  ke_wait :: "'e \<Rightarrow> 'e option"

text \<open>A synchronization event lets one wait through for each time it is signalled.\<close>

definition event_contract :: "'e event_ops \<Rightarrow> bool" where
  "event_contract E \<longleftrightarrow>
     ke_wait E (ke_initialize_event E True) \<noteq> None
     \<and> ke_wait E (ke_initialize_event E False) = None
     \<and> (\<forall>e. ke_wait E (ke_set_event E e) \<noteq> None)
     \<and> (\<forall>e e'. ke_wait E e = Some e' \<longrightarrow> ke_wait E e' = None)"

section \<open>Operations\<close>

record 'e TaskTracker =
  pending :: u32
  event :: 'e

definition tracker_new :: "'e event_ops \<Rightarrow> 'e TaskTracker" where
  "tracker_new E = \<lparr>pending = 0, event = ke_initialize_event E True\<rparr>"

definition tracker_begin :: "'e event_ops \<Rightarrow> 'e TaskTracker \<Rightarrow> 'e TaskTracker" where
  "tracker_begin E t =
     (let prev = pending t; t1 = t\<lparr>pending := prev + 1\<rparr>
      in if prev = 0 then t1\<lparr>event := ke_initialize_event E False\<rparr> else t1)"

definition tracker_complete :: "'e event_ops \<Rightarrow> 'e TaskTracker \<Rightarrow> 'e TaskTracker" where
  "tracker_complete E t =
     (let prev = pending t; t1 = t\<lparr>pending := prev - 1\<rparr>
      in if prev = 1 then t1\<lparr>event := ke_set_event E (event t1)\<rparr> else t1)"

text \<open>\<open>drain\<close> is \<open>None\<close> while it waits.\<close>

definition tracker_drain :: "'e event_ops \<Rightarrow> 'e TaskTracker \<Rightarrow> 'e TaskTracker option" where
  "tracker_drain E t =
     (if pending t = 0 then Some t
      else case ke_wait E (event t) of None \<Rightarrow> None | Some e \<Rightarrow> Some (t\<lparr>event := e\<rparr>))"

text \<open>The calls through a tracker pointer, which may be null.\<close>

definition task_tracker_begin :: "'e event_ops \<Rightarrow> 'e TaskTracker option \<Rightarrow> 'e TaskTracker option" where
  "task_tracker_begin E t = map_option (tracker_begin E) t"

definition task_tracker_complete ::
  "'e event_ops \<Rightarrow> 'e TaskTracker option \<Rightarrow> 'e TaskTracker option" where
  "task_tracker_complete E t = map_option (tracker_complete E) t"

section \<open>WorkItemTracker\<close>

record 'e WorkItemTracker =
  wi_pending :: u32
  wi_event :: 'e

definition work_item_tracker_new :: "'e event_ops \<Rightarrow> 'e WorkItemTracker" where
  "work_item_tracker_new E = \<lparr>wi_pending = 0, wi_event = ke_initialize_event E True\<rparr>"

definition work_item_tracker_begin :: "'e event_ops \<Rightarrow> 'e WorkItemTracker \<Rightarrow> 'e WorkItemTracker" where
  "work_item_tracker_begin E t =
     (let prev = wi_pending t; t1 = t\<lparr>wi_pending := prev + 1\<rparr>
      in if prev = 0 then t1\<lparr>wi_event := ke_initialize_event E False\<rparr> else t1)"

definition work_item_tracker_complete ::
  "'e event_ops \<Rightarrow> 'e WorkItemTracker \<Rightarrow> 'e WorkItemTracker" where
  "work_item_tracker_complete E t =
     (let prev = wi_pending t; t1 = t\<lparr>wi_pending := prev - 1\<rparr>
      in if prev = 1 then t1\<lparr>wi_event := ke_set_event E (wi_event t1)\<rparr> else t1)"

definition work_item_tracker_drain ::
  "'e event_ops \<Rightarrow> 'e WorkItemTracker \<Rightarrow> 'e WorkItemTracker option" where
  "work_item_tracker_drain E t =
     (if wi_pending t = 0 then Some t
      else case ke_wait E (wi_event t) of None \<Rightarrow> None | Some e \<Rightarrow> Some (t\<lparr>wi_event := e\<rparr>))"

section \<open>The contract of a tracker\<close>

text \<open>Histories of begins (\<open>True\<close>) and completes, and the number of tasks they leave outstanding.\<close>

definition history_run :: "('t \<Rightarrow> 't) \<Rightarrow> ('t \<Rightarrow> 't) \<Rightarrow> bool list \<Rightarrow> 't \<Rightarrow> 't" where
  "history_run b c bs t = fold (\<lambda>x t. if x then b t else c t) bs t"

fun outstanding :: "bool list \<Rightarrow> nat \<Rightarrow> nat option" where
  "outstanding [] n = Some n"
| "outstanding (True # bs) n = (if n + 1 < 2 ^ 32 then outstanding bs (n + 1) else None)"
| "outstanding (False # bs) n = (if 0 < n then outstanding bs (n - 1) else None)"

text \<open>
  What the executors and the driver rely on: \<open>counts t n\<close> says that \<open>n\<close> tasks are outstanding;
  \<open>begin\<close> and \<open>complete\<close> count, a drain returns exactly when nothing is outstanding, and so does the
  wait of a drain that began earlier.
\<close>

locale tracker =
  fixes t_begin :: "'t \<Rightarrow> 't" and t_complete :: "'t \<Rightarrow> 't" and t_drain :: "'t \<Rightarrow> 't option"
    and t_released :: "'t \<Rightarrow> bool" and t_counts :: "'t \<Rightarrow> nat \<Rightarrow> bool"
  assumes begin_counts: "t_counts t n \<Longrightarrow> n + 1 < 2 ^ 32 \<Longrightarrow> t_counts (t_begin t) (n + 1)"
    and complete_counts: "t_counts t (n + 1) \<Longrightarrow> t_counts (t_complete t) n"
    and drain_idle: "t_counts t 0 \<Longrightarrow> \<exists>t'. t_drain t = Some t' \<and> t_counts t' 0"
    and drain_busy: "t_counts t n \<Longrightarrow> 0 < n \<Longrightarrow> t_drain t = None"
    and wait_released: "t_counts t n \<Longrightarrow> t_released t \<longleftrightarrow> n = 0"
begin

lemma run_counts:
  "t_counts t n \<Longrightarrow> outstanding bs n = Some m \<Longrightarrow> t_counts (history_run t_begin t_complete bs t) m"
proof (induction bs arbitrary: t n)
  case Nil
  then show ?case by (simp add: history_run_def)
next
  case (Cons b bs)
  show ?case
  proof (cases b)
    case True
    then have "outstanding bs (n + 1) = Some m" "n + 1 < 2 ^ 32"
      using Cons.prems(2) by (auto split: if_splits)
    then show ?thesis
      using Cons.IH [of "t_begin t" "n + 1"] begin_counts [OF Cons.prems(1)] True
      by (simp add: history_run_def)
  next
    case False
    then have "0 < n" "outstanding bs (n - 1) = Some m" using Cons.prems(2) by (auto split: if_splits)
    moreover have "t_counts (t_complete t) (n - 1)"
      using complete_counts [of t "n - 1"] Cons.prems(1) \<open>0 < n\<close> by simp
    ultimately show ?thesis using Cons.IH False by (simp add: history_run_def)
  qed
qed

lemma run_drain:
  assumes "t_counts t 0" and "outstanding bs 0 = Some n"
  shows "(t_drain (history_run t_begin t_complete bs t) \<noteq> None \<longleftrightarrow> n = 0)
    \<and> (t_released (history_run t_begin t_complete bs t) \<longleftrightarrow> n = 0)"
  using run_counts [OF assms] drain_idle drain_busy wait_released by (cases "n = 0") fastforce+

end

text \<open>The event is signalled exactly while no task is outstanding.\<close>

definition tracker_counts :: "'e event_ops \<Rightarrow> 'e TaskTracker \<Rightarrow> nat \<Rightarrow> bool" where
  "tracker_counts E t n \<longleftrightarrow>
     event_contract E \<and> unat (pending t) = n \<and> (ke_wait E (event t) = None \<longleftrightarrow> 0 < n)"

definition work_item_counts :: "'e event_ops \<Rightarrow> 'e WorkItemTracker \<Rightarrow> nat \<Rightarrow> bool" where
  "work_item_counts E t n \<longleftrightarrow>
     event_contract E \<and> unat (wi_pending t) = n \<and> (ke_wait E (wi_event t) = None \<longleftrightarrow> 0 < n)"

lemma pending_steps:
  fixes p :: u32
  shows "unat p + 1 < 2 ^ 32 \<Longrightarrow> unat (p + 1) = unat p + 1"
    and "unat p = n + 1 \<Longrightarrow> unat (p - 1) = n" and "unat p = n + 1 \<Longrightarrow> p = 1 \<longleftrightarrow> n = 0"
  by (auto simp: unat_suc unat_pred word_unat_eq_iff)

interpretation dpc_tracker: tracker "tracker_begin E" "tracker_complete E" "tracker_drain E"
  "\<lambda>t. ke_wait E (event t) \<noteq> None" "tracker_counts E" for E
  by unfold_locales
    (auto simp: tracker_counts_def tracker_begin_def tracker_complete_def tracker_drain_def
      event_contract_def Let_def pending_steps)

interpretation work_item_tracker: tracker "work_item_tracker_begin E" "work_item_tracker_complete E"
  "work_item_tracker_drain E" "\<lambda>t. ke_wait E (wi_event t) \<noteq> None" "work_item_counts E" for E
  by unfold_locales
    (auto simp: work_item_counts_def work_item_tracker_begin_def work_item_tracker_complete_def
      work_item_tracker_drain_def event_contract_def Let_def pending_steps)

section \<open>Properties\<close>

text \<open>The event as a flag.\<close>

definition flag_event :: "bool event_ops" where
  "flag_event = \<lparr>ke_initialize_event = (\<lambda>b. b), ke_set_event = (\<lambda>e. True),
     ke_wait = (\<lambda>e. if e then Some False else None)\<rparr>"

lemma flag_event_contract: "event_contract flag_event"
  by (auto simp: event_contract_def flag_event_def)

lemma flag_event_signalled: "ke_wait flag_event (ke_initialize_event flag_event True) = Some False"
  by (simp add: flag_event_def)

text \<open>C13: When each \<open>begin\<close> and \<open>complete\<close> runs without interruption, a drain of either tracker returns
  exactly when no task is outstanding, after any balanced history; and the event on which a drain waits
  that found tasks outstanding is signalled exactly when the last of them has completed.\<close>

theorem drain_waits_for_all:
  assumes "event_contract E" and "outstanding bs 0 = Some n"
    and "t = history_run (tracker_begin E) (tracker_complete E) bs (tracker_new E)"
    and "u = history_run (work_item_tracker_begin E) (work_item_tracker_complete E) bs (work_item_tracker_new E)"
  shows "(tracker_drain E t \<noteq> None \<longleftrightarrow> n = 0) \<and> (ke_wait E (event t) \<noteq> None \<longleftrightarrow> n = 0)
    \<and> (work_item_tracker_drain E u \<noteq> None \<longleftrightarrow> n = 0) \<and> (ke_wait E (wi_event u) \<noteq> None \<longleftrightarrow> n = 0)"
proof -
  have "tracker_counts E (tracker_new E) 0" "work_item_counts E (work_item_tracker_new E) 0"
    using assms(1) by (simp_all add: tracker_counts_def tracker_new_def work_item_counts_def
        work_item_tracker_new_def event_contract_def)
  then show ?thesis
    using dpc_tracker.run_drain [OF _ assms(2)] work_item_tracker.run_drain [OF _ assms(2)] assms(3,4)
    by blast
qed

theorem drain_waits_for_all_witness:
  "tracker_drain flag_event (history_run (tracker_begin flag_event) (tracker_complete flag_event)
      [True, True, False] (tracker_new flag_event)) = None"
  using drain_waits_for_all [OF flag_event_contract _ refl refl, of "[True, True, False]" 1] by simp

section \<open>Interleaved operations\<close>

text \<open>
  \<open>begin\<close> and \<open>complete\<close> are two accesses each: the counter, then the event. \<open>tracker_step\<close>
  interleaves them for any number of threads.
\<close>

datatype tracker_pc = Outside | MustReset | MustSignal

record 'e tracker_threads =
  shared :: "'e TaskTracker"
  thread_pc :: "nat \<Rightarrow> tracker_pc"

inductive tracker_step :: "'e event_ops \<Rightarrow> 'e tracker_threads \<Rightarrow> 'e tracker_threads \<Rightarrow> bool" for E where
  begin_add: "thread_pc s i = Outside \<Longrightarrow> tracker_step E s
    (s\<lparr>shared := (shared s)\<lparr>pending := pending (shared s) + 1\<rparr>,
       thread_pc := (thread_pc s)(i := if pending (shared s) = 0 then MustReset else Outside)\<rparr>)"
| begin_reset: "thread_pc s i = MustReset \<Longrightarrow> tracker_step E s
    (s\<lparr>shared := (shared s)\<lparr>event := ke_initialize_event E False\<rparr>,
       thread_pc := (thread_pc s)(i := Outside)\<rparr>)"
| complete_sub: "thread_pc s i = Outside \<Longrightarrow> pending (shared s) \<noteq> 0 \<Longrightarrow> tracker_step E s
    (s\<lparr>shared := (shared s)\<lparr>pending := pending (shared s) - 1\<rparr>,
       thread_pc := (thread_pc s)(i := if pending (shared s) = 1 then MustSignal else Outside)\<rparr>)"
| complete_signal: "thread_pc s i = MustSignal \<Longrightarrow> tracker_step E s
    (s\<lparr>shared := (shared s)\<lparr>event := ke_set_event E (event (shared s))\<rparr>,
       thread_pc := (thread_pc s)(i := Outside)\<rparr>)"

definition tracker_start :: "'e event_ops \<Rightarrow> 'e tracker_threads" where
  "tracker_start E = \<lparr>shared = tracker_new E, thread_pc = (\<lambda>i. Outside)\<rparr>"

text \<open>C37: The two accesses of \<open>begin\<close> and \<open>complete\<close> are not atomic together. A task that is submitted
  while the last one completes can reset the event before the completion signals it; the stale
  signal then lets a later drain return while that task is still outstanding, although nothing is
  submitted any more and no operation is in progress.\<close>

theorem stale_signal_ends_drain_early:
  assumes "event_contract E"
  shows "\<exists>s. (tracker_step E)\<^sup>*\<^sup>* (tracker_start E) s
    \<and> (\<forall>i. thread_pc s i = Outside) \<and> pending (shared s) = 1 \<and> tracker_drain E (shared s) \<noteq> None"
proof -
  let ?no = "ke_initialize_event E False"
  let ?s = "\<lambda>p e pc. \<lparr>shared = \<lparr>pending = p, event = e\<rparr>, thread_pc = pc\<rparr>"
  let ?out = "\<lambda>i::nat. Outside"
  have 1: "tracker_step E (tracker_start E) (?s 1 (ke_initialize_event E True) (?out(0 := MustReset)))"
    using begin_add [of "tracker_start E" 0 E] by (simp add: tracker_start_def tracker_new_def)
  have 2: "tracker_step E (?s 1 (ke_initialize_event E True) (?out(0 := MustReset))) (?s 1 ?no ?out)"
    using begin_reset [of "?s 1 (ke_initialize_event E True) (?out(0 := MustReset))" 0 E]
    by (simp add: fun_upd_idem)
  have 3: "tracker_step E (?s 1 ?no ?out) (?s 0 ?no (?out(0 := MustSignal)))"
    using complete_sub [of "?s 1 ?no ?out" 0 E] by simp
  have 4: "tracker_step E (?s 0 ?no (?out(0 := MustSignal)))
      (?s 1 ?no (?out(0 := MustSignal, 1 := MustReset)))"
    using begin_add [of "?s 0 ?no (?out(0 := MustSignal))" 1 E] by simp
  have 5: "tracker_step E (?s 1 ?no (?out(0 := MustSignal, 1 := MustReset)))
      (?s 1 ?no (?out(0 := MustSignal)))"
    using begin_reset [of "?s 1 ?no (?out(0 := MustSignal, 1 := MustReset))" 1 E]
    by (simp add: fun_upd_twist fun_upd_idem)
  have 6: "tracker_step E (?s 1 ?no (?out(0 := MustSignal))) (?s 1 (ke_set_event E ?no) ?out)"
    using complete_signal [of "?s 1 ?no (?out(0 := MustSignal))" 0 E] by (simp add: fun_upd_idem)
  have "(tracker_step E)\<^sup>*\<^sup>* (tracker_start E) (?s 1 (ke_set_event E ?no) ?out)"
    using 1 2 3 4 5 6 by (meson converse_rtranclp_into_rtranclp rtranclp.rtrancl_refl)
  moreover have "tracker_drain E \<lparr>pending = 1, event = ke_set_event E ?no\<rparr> \<noteq> None"
  proof -
    obtain y where "ke_wait E (ke_set_event E ?no) = Some y"
      using assms unfolding event_contract_def by blast
    then show ?thesis by (simp add: tracker_drain_def)
  qed
  ultimately show ?thesis by (intro exI [of _ "?s 1 (ke_set_event E ?no) ?out"]) simp
qed

theorem stale_signal_ends_drain_early_witness:
  "\<exists>s. (tracker_step flag_event)\<^sup>*\<^sup>* (tracker_start flag_event) s
    \<and> pending (shared s) = 1 \<and> tracker_drain flag_event (shared s) \<noteq> None"
  using stale_signal_ends_drain_early [OF flag_event_contract] by blast

end
