(* ===== verification/Dpc_Task.thy ===== *)
theory Dpc_Task
  imports KBox Tracker
begin

text \<open>
  The DPC executor of \<open>src/executor.rs\<close>: the task header and its reference count, scheduling,
  cancellation, the wakers, the DPC routine with its poll budget, the cancellation handle and the
  spawn functions. The state is that of one task, the statics of the executor, the tracker and the
  pool; the wakers and handles that clients hold are part of it as numbers. The kernel's DPC queue,
  its performance counter and the future are parameters.
\<close>

section \<open>The kernel and the future\<close>

text \<open>
  A \<open>KDPC\<close> after \<open>KeInitializeDpc\<close>, \<open>KeInsertQueueDpc\<close> with its result, and the removal from the
  queue with which the kernel starts the routine.
\<close>

record 'q dpc_ops =
  ke_initialize_dpc :: 'q
  ke_insert_queue_dpc :: "'q \<Rightarrow> bool \<times> 'q"
  ke_retire_dpc :: "'q \<Rightarrow> 'q"
  dpc_queued :: "'q \<Rightarrow> bool"

text \<open>A DPC object is in the queue at most once; inserting it again is refused.\<close>

definition dpc_contract :: "'q dpc_ops \<Rightarrow> bool" where
  "dpc_contract D \<longleftrightarrow>
     \<not> dpc_queued D (ke_initialize_dpc D)
     \<and> (\<forall>q. fst (ke_insert_queue_dpc D q) = (\<not> dpc_queued D q)
          \<and> dpc_queued D (snd (ke_insert_queue_dpc D q)))
     \<and> (\<forall>q. \<not> dpc_queued D (ke_retire_dpc D q))"

record PROCESSOR_NUMBER =
  Group :: u16
  Number :: u8

text \<open>
  What the code of a future, or any other holder of wakers and handles, does with them. Each
  operation answers a boolean, on which the holder's next step may depend: \<open>Act\<close> performs an
  operation, \<open>Finish\<close> returns. A poll or drop of the future also takes and returns the state of the world
  outside the executor. Panics do not unwind in driver builds, which set \<open>panic = abort\<close>.
\<close>

datatype waker_op =
    CloneWaker
  | DropWaker
  | WakeWaker
  | WakeByRef
  | CancelTask
  | AskHandle
  | CloneHandle
  | DropHandle
  | AskCancelled
  | TakeCancelled

datatype 'r activity = Finish 'r | Act waker_op "bool \<Rightarrow> 'r activity"

primrec act_bind :: "'a activity \<Rightarrow> ('a \<Rightarrow> 'b activity) \<Rightarrow> 'b activity" where
  "act_bind (Finish r) g = g r"
| "act_bind (Act p k) g = Act p (\<lambda>b. act_bind (k b) g)"

datatype 'v Poll = Ready 'v | Pending

record ('f, 'w, 'e, 'q) dpc_env =
  x_build :: build
  x_alloc_build :: alloc_build
  x_kernel :: kernel
  x_layout :: Layout
  x_event :: "'e event_ops"
  x_dpc :: "'q dpc_ops"
  x_frequency :: "64 word"
  x_counter :: "nat \<Rightarrow> 64 word"
  x_poll :: "'f \<Rightarrow> 'w \<Rightarrow> (NTSTATUS Poll \<times> 'f \<times> 'w) activity"
  x_drop :: "'f \<Rightarrow> 'w \<Rightarrow> 'w activity"

section \<open>State\<close>

datatype 'f manually_drop = Holding 'f | Emptied

record 'q TaskHeader =
  th_ref_count :: u32
  th_scheduled :: u32
  th_completed :: u32
  th_cancel_requested :: u32
  th_dpc :: 'q
  th_alloc_tag :: u32
  th_tracker :: addr

record ('f, 'q) DpcTask = "'q TaskHeader" +
  task_future :: "'f manually_drop"

datatype DestroyMode = DropFuture | DeallocTask

datatype TaskBudget = Polls u32 | TimeUs u64

definition TASK_BUDGET_MODE_POLLS :: u32 where "TASK_BUDGET_MODE_POLLS = 0"
definition TASK_BUDGET_MODE_TIME_US :: u32 where "TASK_BUDGET_MODE_TIME_US = 1"
definition DEFAULT_TASK_BUDGET_POLLS :: u32 where "DEFAULT_TASK_BUDGET_POLLS = 64"
definition DEFAULT_TASK_BUDGET_TIME_US :: u64 where "DEFAULT_TASK_BUDGET_TIME_US = 200"
definition TASK_BUDGET_TIME_CHECK_INTERVAL :: u32 where "TASK_BUDGET_TIME_CHECK_INTERVAL = 8"
definition MAX_PROC_PER_GROUP :: nat where "MAX_PROC_PER_GROUP = 64"
definition MAX_GROUP_COUNT :: nat where "MAX_GROUP_COUNT = 64"
definition MAX_CPU_COUNT :: nat where "MAX_CPU_COUNT = MAX_PROC_PER_GROUP * MAX_GROUP_COUNT"
definition KCOM_TAG :: u32 where "KCOM_TAG = 0x6D6F636B"
definition DISPATCH_LEVEL :: u8 where "DISPATCH_LEVEL = 2"

text \<open>
  \<open>the_task\<close> is the task behind the pointer \<open>task_ptr\<close>, \<open>None\<close> once its block is freed. \<open>future_world\<close>
  is the state outside the executor on which polls and drops of the future act. \<open>wakers\<close>
  and \<open>handles\<close> are the \<open>Waker\<close> and \<open>CancelHandle\<close> values the clients hold, \<open>polls\<close>, \<open>drops\<close> and
  \<open>frees\<close> count the polls of the future, its drops and the deallocations of the block.
\<close>

record ('f, 'w, 'e, 'q) executor =
  task_ptr :: addr
  the_task :: "('f, 'q) DpcTask option"
  CURRENT_TASKS :: "nat \<Rightarrow> addr"
  TASK_BUDGET_MODE :: u32
  TASK_BUDGET_POLLS :: u32
  TASK_BUDGET_TIME_US :: u64
  DEFAULT_TASK_TAG :: u32
  trackers :: "addr \<Rightarrow> 'e TaskTracker"
  memory :: km
  future_world :: 'w
  queries :: nat
  wakers :: nat
  handles :: nat
  polls :: nat
  drops :: nat
  frees :: nat

text \<open>Access to the header through the pointer is undefined once the block is freed.\<close>

definition with_task ::
  "(('f, 'q) DpcTask \<Rightarrow> 'a outcome) \<Rightarrow> ('f, 'w, 'e, 'q) executor \<Rightarrow> 'a outcome" where
  "with_task k s = and_then (ok_or_undefined (the_task s)) k"

definition put_task ::
  "('f, 'q) DpcTask \<Rightarrow> ('f, 'w, 'e, 'q) executor \<Rightarrow> ('f, 'w, 'e, 'q) executor" where
  "put_task t s = s\<lparr>the_task := Some t\<rparr>"

section \<open>Statics\<close>

definition set_task_budget :: "TaskBudget \<Rightarrow> ('f, 'w, 'e, 'q) executor \<Rightarrow> ('f, 'w, 'e, 'q) executor" where
  "set_task_budget budget s =
     (case budget of
        Polls n \<Rightarrow> s\<lparr>TASK_BUDGET_POLLS := n, TASK_BUDGET_MODE := TASK_BUDGET_MODE_POLLS\<rparr>
      | TimeUs us \<Rightarrow> s\<lparr>TASK_BUDGET_TIME_US := us, TASK_BUDGET_MODE := TASK_BUDGET_MODE_TIME_US\<rparr>)"

definition set_task_alloc_tag :: "u32 \<Rightarrow> ('f, 'w, 'e, 'q) executor \<Rightarrow> ('f, 'w, 'e, 'q) executor" where
  "set_task_alloc_tag tg s = s\<lparr>DEFAULT_TASK_TAG := tg\<rparr>"

definition current_cpu_index :: "PROCESSOR_NUMBER \<Rightarrow> nat option" where
  "current_cpu_index processor =
     (let group = unat (Group processor); number = unat (Number processor)
      in if group \<ge> MAX_GROUP_COUNT \<or> number \<ge> MAX_PROC_PER_GROUP then None
         else Some (group * MAX_PROC_PER_GROUP + number))"

text \<open>An index beyond the array panics.\<close>

definition set_current_task :: "nat \<Rightarrow> ('f, 'w, 'e, 'q) executor \<Rightarrow> ('f, 'w, 'e, 'q) executor outcome" where
  "set_current_task i s =
     (if i < MAX_CPU_COUNT then Return (s\<lparr>CURRENT_TASKS := (CURRENT_TASKS s)(i := task_ptr s)\<rparr>)
      else Panic)"

definition clear_current_task :: "nat \<Rightarrow> ('f, 'w, 'e, 'q) executor \<Rightarrow> ('f, 'w, 'e, 'q) executor outcome" where
  "clear_current_task i s =
     (if i < MAX_CPU_COUNT then Return (s\<lparr>CURRENT_TASKS := (CURRENT_TASKS s)(i := null)\<rparr>)
      else Panic)"

text \<open>Where code runs: the IRQL, the processor, and whether the waker of a poll is at hand.\<close>

record run_context =
  rc_irql :: u8
  rc_processor :: PROCESSOR_NUMBER
  rc_polling :: bool

text \<open>The lookup shared by the two cancellation queries: \<open>None\<close> where they give up.\<close>

definition current_task_header ::
  "run_context \<Rightarrow> ('f, 'w, 'e, 'q) executor \<Rightarrow> ('f, 'q) DpcTask option outcome" where
  "current_task_header c s =
     (if rc_irql c < DISPATCH_LEVEL then Return None
      else case current_cpu_index (rc_processor c) of
        None \<Rightarrow> Return None
      | Some i \<Rightarrow>
          if \<not> i < MAX_CPU_COUNT then Panic
          else if CURRENT_TASKS s i = null then Return None
          else if CURRENT_TASKS s i = task_ptr s then with_task (\<lambda>t. Return (Some t)) s
          else Undefined)"

definition is_cancellation_requested ::
  "run_context \<Rightarrow> ('f, 'w, 'e, 'q) executor \<Rightarrow> bool outcome" where
  "is_cancellation_requested c s =
     and_then (current_task_header c s) (\<lambda>h.
       Return (case h of None \<Rightarrow> False | Some t \<Rightarrow> th_cancel_requested t \<noteq> 0))"

definition take_cancellation_request ::
  "run_context \<Rightarrow> ('f, 'w, 'e, 'q) executor \<Rightarrow> (bool \<times> ('f, 'w, 'e, 'q) executor) outcome" where
  "take_cancellation_request c s =
     and_then (current_task_header c s) (\<lambda>h.
       Return (case h of
           None \<Rightarrow> (False, s)
         | Some t \<Rightarrow>
             if th_cancel_requested t = 1 then (True, put_task (t\<lparr>th_cancel_requested := 2\<rparr>) s)
             else (False, s)))"

section \<open>Reference counting and destruction\<close>

definition th_add_ref ::
  "('f, 'w, 'e, 'q) dpc_env \<Rightarrow> ('f, 'w, 'e, 'q) executor \<Rightarrow> ('f, 'w, 'e, 'q) executor outcome" where
  "th_add_ref E s =
     with_task (\<lambda>t. and_then (refcount_add (x_build E) (th_ref_count t)) (\<lambda>(r, c).
       Return (put_task (t\<lparr>th_ref_count := c\<rparr>) s))) s"

text \<open>
  \<open>destroy_shim\<close>. \<open>run\<close> executes what the destructor of the future does; the block is freed with the
  tag in the header, and the box has nothing else to drop, the future being \<open>ManuallyDrop\<close>.
\<close>

definition destroy_shim ::
  "('w activity \<Rightarrow> ('f, 'w, 'e, 'q) executor \<Rightarrow> ('w \<times> ('f, 'w, 'e, 'q) executor) outcome)
    \<Rightarrow> ('f, 'w, 'e, 'q) dpc_env \<Rightarrow> DestroyMode \<Rightarrow> ('f, 'w, 'e, 'q) executor
    \<Rightarrow> ('f, 'w, 'e, 'q) executor outcome" where
  "destroy_shim run E mode s =
     with_task (\<lambda>t.
       case mode of
         DropFuture \<Rightarrow>
           (case task_future t of
              Emptied \<Rightarrow> Undefined
            | Holding f \<Rightarrow>
                and_then (run (x_drop E f (future_world s))
                    (put_task (t\<lparr>task_future := Emptied\<rparr>) s\<lparr>drops := drops s + 1\<rparr>))
                  (\<lambda>(w, s1). Return (s1\<lparr>future_world := w\<rparr>)))
       | DeallocTask \<Rightarrow>
           and_then (kbox_drop (wdk_ops (x_alloc_build E) (x_kernel E)
                 (wdk_allocator_new NonPagedNx (th_alloc_tag t)))
               (\<lambda>p m. Return m) (kbox_from_raw_parts (task_ptr s) (x_layout E)) (memory s))
             (\<lambda>m. Return (s\<lparr>the_task := None, memory := m, frees := frees s + 1\<rparr>))) s"

text \<open>
  Whether the holder can perform an operation: it needs a waker of its own or the one of the poll,
  or a handle, which is not \<open>Clone\<close>. A clone is refused once the clients hold \<open>2 ^ 31 - 8\<close> references, more than fit in
  memory.
\<close>

definition permitted :: "run_context \<Rightarrow> waker_op \<Rightarrow> ('f, 'w, 'e, 'q) executor \<Rightarrow> bool" where
  "permitted c p s =
     (case p of
        CloneWaker \<Rightarrow> (rc_polling c \<or> 0 < wakers s) \<and> wakers s + handles s < 2 ^ 31 - 8
      | DropWaker \<Rightarrow> 0 < wakers s
      | WakeWaker \<Rightarrow> 0 < wakers s
      | WakeByRef \<Rightarrow> rc_polling c \<or> 0 < wakers s
      | CancelTask \<Rightarrow> 0 < handles s
      | AskHandle \<Rightarrow> 0 < handles s
      | CloneHandle \<Rightarrow> False
      | DropHandle \<Rightarrow> 0 < handles s
      | AskCancelled \<Rightarrow> True
      | TakeCancelled \<Rightarrow> True)"

text \<open>
  What a destructor does that runs because the last reference is gone. No waker and no handle of
  the task can be left, so operations on the task are not possible; if one were, it would use a
  task that is being freed, which counts as undefined. The cancellation queries are.
\<close>

primrec run_orphaned ::
  "run_context \<Rightarrow> 'r activity \<Rightarrow> ('f, 'w, 'e, 'q) executor \<Rightarrow> ('r \<times> ('f, 'w, 'e, 'q) executor) outcome" where
  "run_orphaned c (Finish r) = (\<lambda>s. Return (r, s))"
| "run_orphaned c (Act p k) = (\<lambda>s.
     if p = AskCancelled then and_then (is_cancellation_requested c s) (\<lambda>b. run_orphaned c (k b) s)
     else if p = TakeCancelled then
       and_then (take_cancellation_request c s) (\<lambda>(b, s1). run_orphaned c (k b) s1)
     else if permitted (c\<lparr>rc_polling := False\<rparr>) p s then Undefined
     else run_orphaned c (k False) s)"

definition complete_tracker ::
  "('f, 'w, 'e, 'q) dpc_env \<Rightarrow> addr \<Rightarrow> ('f, 'w, 'e, 'q) executor \<Rightarrow> ('f, 'w, 'e, 'q) executor" where
  "complete_tracker E tr s =
     (case task_tracker_complete (x_event E) (if tr = null then None else Some (trackers s tr)) of
        None \<Rightarrow> s
      | Some t \<Rightarrow> s\<lparr>trackers := (trackers s)(tr := t)\<rparr>)"

definition begin_tracker ::
  "('f, 'w, 'e, 'q) dpc_env \<Rightarrow> addr \<Rightarrow> ('f, 'w, 'e, 'q) executor \<Rightarrow> ('f, 'w, 'e, 'q) executor" where
  "begin_tracker E tr s =
     (case task_tracker_begin (x_event E) (if tr = null then None else Some (trackers s tr)) of
        None \<Rightarrow> s
      | Some t \<Rightarrow> s\<lparr>trackers := (trackers s)(tr := t)\<rparr>)"

definition th_release ::
  "('f, 'w, 'e, 'q) dpc_env \<Rightarrow> run_context \<Rightarrow> ('f, 'w, 'e, 'q) executor
    \<Rightarrow> ('f, 'w, 'e, 'q) executor outcome" where
  "th_release E c s =
     with_task (\<lambda>t0. and_then (refcount_sub (x_build E) (th_ref_count t0)) (\<lambda>(count, rc).
       let t = t0\<lparr>th_ref_count := rc\<rparr>; s1 = put_task t s in
       if count \<noteq> 0 then Return s1
       else
         let tr = th_tracker t in
         if th_completed t = 0 then
           and_then (destroy_shim (run_orphaned c) E DropFuture
               (put_task (t\<lparr>th_completed := 1\<rparr>) s1)) (\<lambda>s2.
           and_then (destroy_shim (run_orphaned c) E DeallocTask s2) (\<lambda>s3.
             Return (complete_tracker E tr s3)))
         else
           and_then (destroy_shim (run_orphaned c) E DeallocTask s1) (\<lambda>s2.
             Return (complete_tracker E tr s2)))) s"

section \<open>Scheduling\<close>

text \<open>The tail shared by \<open>schedule\<close> and \<open>queue_dpc\<close>: a reference for the queue, given back if the DPC
  was in the queue already.\<close>

definition queue_dpc ::
  "('f, 'w, 'e, 'q) dpc_env \<Rightarrow> run_context \<Rightarrow> ('f, 'w, 'e, 'q) executor
    \<Rightarrow> ('f, 'w, 'e, 'q) executor outcome" where
  "queue_dpc E c s =
     and_then (th_add_ref E s) (\<lambda>s1.
     with_task (\<lambda>t.
       let (inserted, q) = ke_insert_queue_dpc (x_dpc E) (th_dpc t);
           s2 = put_task (t\<lparr>th_dpc := q\<rparr>) s1
       in if \<not> inserted then th_release E c s2 else Return s2) s1)"

definition th_schedule ::
  "('f, 'w, 'e, 'q) dpc_env \<Rightarrow> run_context \<Rightarrow> ('f, 'w, 'e, 'q) executor
    \<Rightarrow> ('f, 'w, 'e, 'q) executor outcome" where
  "th_schedule E c s =
     with_task (\<lambda>t.
       if th_completed t \<noteq> 0 then Return s
       else if th_scheduled t \<noteq> 0 then Return s
       else queue_dpc E c (put_task (t\<lparr>th_scheduled := 1\<rparr>) s)) s"

definition th_cancel ::
  "('f, 'w, 'e, 'q) dpc_env \<Rightarrow> run_context \<Rightarrow> ('f, 'w, 'e, 'q) executor
    \<Rightarrow> ('f, 'w, 'e, 'q) executor outcome" where
  "th_cancel E c s =
     with_task (\<lambda>t.
       if th_cancel_requested t = 0 then
         th_schedule E c (put_task (t\<lparr>th_cancel_requested := 1\<rparr>) s)
       else Return s) s"

section \<open>Wakers and handles\<close>

text \<open>A waker holds the pointer of the task; the null pointers the shims check for do not occur.\<close>

definition raw_waker ::
  "('f, 'w, 'e, 'q) dpc_env \<Rightarrow> ('f, 'w, 'e, 'q) executor \<Rightarrow> (addr \<times> ('f, 'w, 'e, 'q) executor) outcome" where
  "raw_waker E s = and_then (th_add_ref E s) (\<lambda>s1. Return (task_ptr s1, s1))"

definition clone_raw ::
  "('f, 'w, 'e, 'q) dpc_env \<Rightarrow> addr \<Rightarrow> ('f, 'w, 'e, 'q) executor
    \<Rightarrow> (addr \<times> ('f, 'w, 'e, 'q) executor) outcome" where
  "clone_raw E p s = (if p = null then Return (null, s) else raw_waker E s)"

definition wake_raw ::
  "('f, 'w, 'e, 'q) dpc_env \<Rightarrow> run_context \<Rightarrow> addr \<Rightarrow> ('f, 'w, 'e, 'q) executor
    \<Rightarrow> ('f, 'w, 'e, 'q) executor outcome" where
  "wake_raw E c p s =
     (if p = null then Return s
      else and_then (th_schedule E c s) (th_release E c))"

definition wake_by_ref_raw ::
  "('f, 'w, 'e, 'q) dpc_env \<Rightarrow> run_context \<Rightarrow> addr \<Rightarrow> ('f, 'w, 'e, 'q) executor
    \<Rightarrow> ('f, 'w, 'e, 'q) executor outcome" where
  "wake_by_ref_raw E c p s = (if p = null then Return s else th_schedule E c s)"

definition drop_raw ::
  "('f, 'w, 'e, 'q) dpc_env \<Rightarrow> run_context \<Rightarrow> addr \<Rightarrow> ('f, 'w, 'e, 'q) executor
    \<Rightarrow> ('f, 'w, 'e, 'q) executor outcome" where
  "drop_raw E c p s = (if p = null then Return s else th_release E c s)"

record CancelHandle =
  handle_task :: addr

definition cancel_handle_new ::
  "('f, 'w, 'e, 'q) dpc_env \<Rightarrow> ('f, 'w, 'e, 'q) executor
    \<Rightarrow> (CancelHandle \<times> ('f, 'w, 'e, 'q) executor) outcome" where
  "cancel_handle_new E s =
     and_then (th_add_ref E s) (\<lambda>s1. Return (\<lparr>handle_task = task_ptr s1\<rparr>, s1))"

definition handle_cancel ::
  "('f, 'w, 'e, 'q) dpc_env \<Rightarrow> run_context \<Rightarrow> CancelHandle \<Rightarrow> ('f, 'w, 'e, 'q) executor
    \<Rightarrow> ('f, 'w, 'e, 'q) executor outcome" where
  "handle_cancel E c h s = (if handle_task h = null then Return s else th_cancel E c s)"

definition handle_is_cancelled ::
  "CancelHandle \<Rightarrow> ('f, 'w, 'e, 'q) executor \<Rightarrow> bool outcome" where
  "handle_is_cancelled h s =
     (if handle_task h = null then Return False
      else with_task (\<lambda>t. Return (th_cancel_requested t \<noteq> 0)) s)"

definition cancel_handle_drop ::
  "('f, 'w, 'e, 'q) dpc_env \<Rightarrow> run_context \<Rightarrow> CancelHandle \<Rightarrow> ('f, 'w, 'e, 'q) executor
    \<Rightarrow> (CancelHandle \<times> ('f, 'w, 'e, 'q) executor) outcome" where
  "cancel_handle_drop E c h s =
     (let h' = h\<lparr>handle_task := null\<rparr>
      in if handle_task h = null then Return (h', s)
         else and_then (th_release E c s) (\<lambda>s1. Return (h', s1)))"

section \<open>What holders do\<close>

definition run_op ::
  "('f, 'w, 'e, 'q) dpc_env \<Rightarrow> run_context \<Rightarrow> waker_op \<Rightarrow> ('f, 'w, 'e, 'q) executor
    \<Rightarrow> (bool \<times> ('f, 'w, 'e, 'q) executor) outcome" where
  "run_op E c p s =
     (if \<not> permitted c p s then Return (False, s)
      else case p of
        CloneWaker \<Rightarrow>
          and_then (clone_raw E (task_ptr s) s) (\<lambda>(w, s1). Return (True, s1\<lparr>wakers := wakers s1 + 1\<rparr>))
      | DropWaker \<Rightarrow>
          and_then (drop_raw E c (task_ptr s) (s\<lparr>wakers := wakers s - 1\<rparr>)) (\<lambda>s1. Return (True, s1))
      | WakeWaker \<Rightarrow>
          and_then (wake_raw E c (task_ptr s) (s\<lparr>wakers := wakers s - 1\<rparr>)) (\<lambda>s1. Return (True, s1))
      | WakeByRef \<Rightarrow>
          and_then (wake_by_ref_raw E c (task_ptr s) s) (\<lambda>s1. Return (True, s1))
      | CancelTask \<Rightarrow>
          and_then (handle_cancel E c \<lparr>handle_task = task_ptr s\<rparr> s) (\<lambda>s1. Return (True, s1))
      | AskHandle \<Rightarrow>
          and_then (handle_is_cancelled \<lparr>handle_task = task_ptr s\<rparr> s) (\<lambda>b. Return (b, s))
      | CloneHandle \<Rightarrow> Return (False, s)
      | DropHandle \<Rightarrow>
          and_then (cancel_handle_drop E c \<lparr>handle_task = task_ptr s\<rparr> (s\<lparr>handles := handles s - 1\<rparr>))
            (\<lambda>(h, s1). Return (True, s1))
      | AskCancelled \<Rightarrow> and_then (is_cancellation_requested c s) (\<lambda>b. Return (b, s))
      | TakeCancelled \<Rightarrow> take_cancellation_request c s)"

primrec run_activity ::
  "('f, 'w, 'e, 'q) dpc_env \<Rightarrow> run_context \<Rightarrow> 'r activity \<Rightarrow> ('f, 'w, 'e, 'q) executor
    \<Rightarrow> ('r \<times> ('f, 'w, 'e, 'q) executor) outcome" where
  "run_activity E c (Finish r) = (\<lambda>s. Return (r, s))"
| "run_activity E c (Act p k) =
     (\<lambda>s. and_then (run_op E c p s) (\<lambda>(b, s1). run_activity E c (k b) s1))"

section \<open>The DPC routine\<close>

definition poll_shim ::
  "('f, 'w, 'e, 'q) dpc_env \<Rightarrow> run_context \<Rightarrow> ('f, 'w, 'e, 'q) executor
    \<Rightarrow> (NTSTATUS Poll \<times> ('f, 'w, 'e, 'q) executor) outcome" where
  "poll_shim E c s =
     with_task (\<lambda>t.
       case task_future t of
         Emptied \<Rightarrow> Undefined
       | Holding f \<Rightarrow>
           and_then (run_activity E (c\<lparr>rc_polling := True\<rparr>) (x_poll E f (future_world s))
               (s\<lparr>polls := polls s + 1\<rparr>))
             (\<lambda>((r, f', w), s1). with_task (\<lambda>t1. Return (r,
               put_task (t1\<lparr>task_future := Holding f'\<rparr>) (s1\<lparr>future_world := w\<rparr>))) s1))
       s"

definition saturating_mul :: "u64 \<Rightarrow> u64 \<Rightarrow> u64" where
  "saturating_mul a b = (if unat a * unat b < 2 ^ 64 then a * b else - 1)"

text \<open>\<open>KeQueryPerformanceCounter\<close>: the next value of the counter.\<close>

definition query_counter ::
  "('f, 'w, 'e, 'q) dpc_env \<Rightarrow> ('f, 'w, 'e, 'q) executor \<Rightarrow> u64 \<times> ('f, 'w, 'e, 'q) executor" where
  "query_counter E s = (x_counter E (queries s), s\<lparr>queries := queries s + 1\<rparr>)"

definition time_budget ::
  "('f, 'w, 'e, 'q) dpc_env \<Rightarrow> u32 \<Rightarrow> ('f, 'w, 'e, 'q) executor
    \<Rightarrow> (u64 \<times> u64) \<times> ('f, 'w, 'e, 'q) executor" where
  "time_budget E budget_mode s =
     (if budget_mode = TASK_BUDGET_MODE_TIME_US then
        let (start, s1) = query_counter E s;
            freq = if sint (x_frequency E) \<le> 0 then 1 else x_frequency E;
            budget_us = TASK_BUDGET_TIME_US s1;
            ticks = saturating_mul budget_us freq div 1000000
        in ((ticks, start), s1)
      else ((0, 0), s))"

definition clear_current ::
  "nat option \<Rightarrow> ('f, 'w, 'e, 'q) executor \<Rightarrow> ('f, 'w, 'e, 'q) executor outcome" where
  "clear_current cpu s = (case cpu of None \<Rightarrow> Return s | Some i \<Rightarrow> clear_current_task i s)"

text \<open>
  One turn of the loop: it returns from the routine, breaks, or continues with the poll budget and
  the time check counter.
\<close>

datatype turn = Returned | Broke | Again u32 u32

definition budget_check ::
  "('f, 'w, 'e, 'q) dpc_env \<Rightarrow> u32 \<Rightarrow> u64 \<times> u64 \<Rightarrow> u32 \<Rightarrow> u32 \<Rightarrow> ('f, 'w, 'e, 'q) executor
    \<Rightarrow> (bool \<times> u32 \<times> u32) \<times> ('f, 'w, 'e, 'q) executor" where
  "budget_check E budget_mode clock poll_budget checks s =
     (if budget_mode = TASK_BUDGET_MODE_POLLS then
        if poll_budget = 0 then ((True, poll_budget, checks), s)
        else ((False, poll_budget - 1, checks), s)
      else
        let checks' = checks + 1
        in if checks' mod TASK_BUDGET_TIME_CHECK_INTERVAL = 0 then
             let (now, s1) = query_counter E s; elapsed = now - snd clock
             in ((elapsed \<ge> fst clock, poll_budget, checks'), s1)
           else ((False, poll_budget, checks'), s))"

definition dpc_turn ::
  "('f, 'w, 'e, 'q) dpc_env \<Rightarrow> run_context \<Rightarrow> nat option \<Rightarrow> u32 \<Rightarrow> u64 \<times> u64 \<Rightarrow> u32 \<Rightarrow> u32
    \<Rightarrow> ('f, 'w, 'e, 'q) executor \<Rightarrow> (turn \<times> ('f, 'w, 'e, 'q) executor) outcome" where
  "dpc_turn E c cpu budget_mode clock poll_budget checks s =
     and_then (poll_shim E c s) (\<lambda>(poll, s1).
       case poll of
         Ready status \<Rightarrow>
           and_then (with_task (\<lambda>t. Return (put_task (t\<lparr>th_completed := 1\<rparr>) s1)) s1) (\<lambda>s2.
           and_then (destroy_shim (run_activity E c) E DropFuture s2) (\<lambda>s3.
           and_then (clear_current cpu s3) (\<lambda>s4.
           and_then (th_release E c s4) (\<lambda>s5.
             Return (Returned, s5)))))
       | Pending \<Rightarrow>
           with_task (\<lambda>t.
             if th_scheduled t = 0 then Return (Broke, s1)
             else
               let ((exhausted, poll_budget', checks'), s2) =
                 budget_check E budget_mode clock poll_budget checks s1
               in if exhausted then
                    and_then (queue_dpc E c s2) (\<lambda>s3. Return (Broke, s3))
                  else
                    with_task (\<lambda>t1. Return (Again poll_budget' checks',
                      put_task (t1\<lparr>th_scheduled := 0\<rparr>) s2)) s2) s1)"

text \<open>The loop, with fuel: \<open>None\<close> when it does not end within \<open>n\<close> turns.\<close>

fun dpc_loop ::
  "nat \<Rightarrow> ('f, 'w, 'e, 'q) dpc_env \<Rightarrow> run_context \<Rightarrow> nat option \<Rightarrow> u32 \<Rightarrow> u64 \<times> u64 \<Rightarrow> u32 \<Rightarrow> u32
    \<Rightarrow> ('f, 'w, 'e, 'q) executor \<Rightarrow> (turn \<times> ('f, 'w, 'e, 'q) executor) outcome option" where
  "dpc_loop 0 E c cpu budget_mode clock poll_budget checks s = None"
| "dpc_loop (Suc n) E c cpu budget_mode clock poll_budget checks s =
     (case dpc_turn E c cpu budget_mode clock poll_budget checks s of
        Return (Again poll_budget' checks', s1) \<Rightarrow>
          dpc_loop n E c cpu budget_mode clock poll_budget' checks' s1
      | r \<Rightarrow> Some r)"

abbreviation dpc_context :: "PROCESSOR_NUMBER \<Rightarrow> run_context" where
  "dpc_context processor \<equiv> \<lparr>rc_irql = DISPATCH_LEVEL, rc_processor = processor, rc_polling = False\<rparr>"

text \<open>
  After the loop. The waker of the routine is dropped when it returns, after its own reference.
\<close>

definition dpc_finish ::
  "('f, 'w, 'e, 'q) dpc_env \<Rightarrow> PROCESSOR_NUMBER \<Rightarrow> addr \<Rightarrow> (turn \<times> ('f, 'w, 'e, 'q) executor) outcome
    \<Rightarrow> ('f, 'w, 'e, 'q) executor outcome" where
  "dpc_finish E processor waker r =
     and_then r (\<lambda>(turn, s5).
     and_then (if turn = Returned then Return s5
       else and_then (clear_current (current_cpu_index processor) s5)
         (th_release E (dpc_context processor))) (\<lambda>s6.
       drop_raw E (dpc_context processor) waker s6))"

definition dpc_routine ::
  "nat \<Rightarrow> ('f, 'w, 'e, 'q) dpc_env \<Rightarrow> PROCESSOR_NUMBER \<Rightarrow> ('f, 'w, 'e, 'q) executor
    \<Rightarrow> ('f, 'w, 'e, 'q) executor outcome option" where
  "dpc_routine n E processor s =
     (let c = dpc_context processor;
          cpu_index = current_cpu_index processor
      in case the_task s of
        None \<Rightarrow> Some Undefined
      | Some t \<Rightarrow>
          let s1 = put_task (t\<lparr>th_scheduled := 0\<rparr>) s
          in if th_completed t \<noteq> 0 then Some (th_release E c s1)
             else
               (case and_then (raw_waker E s1) (\<lambda>(waker, s2).
                   and_then (case cpu_index of None \<Rightarrow> Return s2 | Some i \<Rightarrow> set_current_task i s2)
                     (\<lambda>s3. Return (waker, s3))) of
                  Return (waker, s3) \<Rightarrow>
                    let budget_mode = TASK_BUDGET_MODE s3;
                        poll_budget = TASK_BUDGET_POLLS s3;
                        (clock, s4) = time_budget E budget_mode s3
                    in map_option (dpc_finish E processor waker)
                      (dpc_loop n E c cpu_index budget_mode clock poll_budget 0 s4)
                | Panic \<Rightarrow> Some Panic
                | Halt h \<Rightarrow> Some (Halt h)
                | Undefined \<Rightarrow> Some Undefined))"

text \<open>The kernel takes the DPC out of the queue and calls the routine.\<close>

definition dpc_arrive ::
  "nat \<Rightarrow> ('f, 'w, 'e, 'q) dpc_env \<Rightarrow> PROCESSOR_NUMBER \<Rightarrow> ('f, 'w, 'e, 'q) executor
    \<Rightarrow> ('f, 'w, 'e, 'q) executor outcome option" where
  "dpc_arrive n E processor s =
     (case the_task s of
        None \<Rightarrow> Some Undefined
      | Some t \<Rightarrow>
          dpc_routine n E processor (put_task (t\<lparr>th_dpc := ke_retire_dpc (x_dpc E) (th_dpc t)\<rparr>) s))"

section \<open>Spawning\<close>

text \<open>\<open>allocate\<close> owns the future: without memory it is dropped on return.\<close>

definition allocate_task ::
  "('f, 'w, 'e, 'q) dpc_env \<Rightarrow> run_context \<Rightarrow> 'f \<Rightarrow> addr \<Rightarrow> ('f, 'w, 'e, 'q) executor
    \<Rightarrow> ((NTSTATUS + addr) \<times> ('f, 'w, 'e, 'q) executor) outcome" where
  "allocate_task E c f tr s =
     (let tg = DEFAULT_TASK_TAG s
      in and_then (wdk_alloc (x_alloc_build E) (x_kernel E) (wdk_allocator_new NonPagedNx tg)
            (x_layout E) (memory s)) (\<lambda>(ptr, m).
          if ptr = null then
            and_then (run_orphaned c (x_drop E f (future_world s)) (s\<lparr>memory := m, drops := drops s + 1\<rparr>))
              (\<lambda>(w, s1). Return (Inl STATUS_INSUFFICIENT_RESOURCES, s1\<lparr>future_world := w\<rparr>))
          else Return (Inr ptr, begin_tracker E tr
            (s\<lparr>memory := m, task_ptr := ptr, the_task := Some
               \<lparr>th_ref_count = 1, th_scheduled = 0, th_completed = 0, th_cancel_requested = 0,
                th_dpc = ke_initialize_dpc (x_dpc E), th_alloc_tag = tg, th_tracker = tr,
                task_future = Holding f\<rparr>\<rparr>))))"

definition spawn_cancellable ::
  "('f, 'w, 'e, 'q) dpc_env \<Rightarrow> run_context \<Rightarrow> addr \<Rightarrow> 'f \<Rightarrow> ('f, 'w, 'e, 'q) executor
    \<Rightarrow> ((NTSTATUS + CancelHandle) \<times> ('f, 'w, 'e, 'q) executor) outcome" where
  "spawn_cancellable E c tr f s =
     and_then (allocate_task E c f tr s) (\<lambda>(r, s1).
       case r of
         Inl st \<Rightarrow> Return (Inl st, s1)
       | Inr ptr \<Rightarrow>
           and_then (cancel_handle_new E s1) (\<lambda>(handle, s2).
           and_then (th_schedule E c s2) (\<lambda>s3.
           and_then (th_release E c s3) (\<lambda>s4.
             Return (Inr handle, s4\<lparr>handles := handles s4 + 1\<rparr>)))))"

definition spawn_dpc_task_cancellable ::
  "('f, 'w, 'e, 'q) dpc_env \<Rightarrow> run_context \<Rightarrow> 'f \<Rightarrow> ('f, 'w, 'e, 'q) executor
    \<Rightarrow> ((NTSTATUS + CancelHandle) \<times> ('f, 'w, 'e, 'q) executor) outcome" where
  "spawn_dpc_task_cancellable E c f s = spawn_cancellable E c null f s"

definition spawn_dpc_task_cancellable_tracked ::
  "('f, 'w, 'e, 'q) dpc_env \<Rightarrow> run_context \<Rightarrow> addr \<Rightarrow> 'f \<Rightarrow> ('f, 'w, 'e, 'q) executor
    \<Rightarrow> ((NTSTATUS + CancelHandle) \<times> ('f, 'w, 'e, 'q) executor) outcome" where
  "spawn_dpc_task_cancellable_tracked E c tr f s = spawn_cancellable E c tr f s"

definition spawn_dpc_task_tracked ::
  "('f, 'w, 'e, 'q) dpc_env \<Rightarrow> run_context \<Rightarrow> addr \<Rightarrow> 'f \<Rightarrow> ('f, 'w, 'e, 'q) executor
    \<Rightarrow> (NTSTATUS \<times> ('f, 'w, 'e, 'q) executor) outcome" where
  "spawn_dpc_task_tracked E c tr f s =
     and_then (allocate_task E c f tr s) (\<lambda>(r, s1).
       case r of
         Inl st \<Rightarrow> Return (st, s1)
       | Inr ptr \<Rightarrow>
           and_then (th_schedule E c s1) (\<lambda>s2.
           and_then (th_release E c s2) (\<lambda>s3.
             Return (STATUS_SUCCESS, s3))))"

definition spawn_dpc_task ::
  "('f, 'w, 'e, 'q) dpc_env \<Rightarrow> run_context \<Rightarrow> addr \<Rightarrow> 'f \<Rightarrow> ('f, 'w, 'e, 'q) executor
    \<Rightarrow> (NTSTATUS \<times> ('f, 'w, 'e, 'q) executor) outcome" where
  "spawn_dpc_task E c tr f s = spawn_dpc_task_tracked E c tr f s"

end
