(* ===== verification/Kernel_Timer.thy ===== *)
theory Kernel_Timer
  imports Dpc_Task
begin

text \<open>
  The timer future of \<open>src/executor.rs\<close>: \<open>SpinLock\<close>, \<open>KernelTimerInner\<close> with its reference count and
  \<open>KernelTimerFuture\<close> with \<open>poll\<close>, \<open>drop\<close> and the DPC routine of the timer. The owner of the future and
  the DPC run concurrently: their code is cut into the pieces between which the other side may act.
  The kernel's timers and spin locks are parameters.
\<close>

section \<open>Spin locks\<close>

text \<open>
  \<open>KeAcquireSpinLockRaiseToDpc\<close> at an IRQL, \<open>None\<close> while it spins, with the IRQL it returns and the one it
  leaves; \<open>KeReleaseSpinLock\<close> with the IRQL it restores.
\<close>

record 'l lock_ops =
  ke_initialize_spin_lock :: 'l
  ke_acquire_spin_lock :: "u8 \<Rightarrow> 'l \<Rightarrow> ((u8 \<times> u8) \<times> 'l) option"
  ke_release_spin_lock :: "u8 \<Rightarrow> 'l \<Rightarrow> u8 \<times> 'l"
  lock_held :: "'l \<Rightarrow> bool"

definition lock_contract :: "'l lock_ops \<Rightarrow> bool" where
  "lock_contract K \<longleftrightarrow>
     \<not> lock_held K (ke_initialize_spin_lock K)
     \<and> (\<forall>i l. lock_held K l \<longrightarrow> ke_acquire_spin_lock K i l = None)
     \<and> (\<forall>i l. \<not> lock_held K l \<longrightarrow>
          (\<exists>l'. ke_acquire_spin_lock K i l = Some ((i, DISPATCH_LEVEL), l') \<and> lock_held K l'))
     \<and> (\<forall>i l. fst (ke_release_spin_lock K i l) = i \<and> \<not> lock_held K (snd (ke_release_spin_lock K i l)))"

record ('l, 'a) SpinLock =
  sl_lock :: 'l
  sl_value :: 'a

record SpinLockGuard =
  old_irql :: u8

definition spin_lock_new :: "'l lock_ops \<Rightarrow> 'a \<Rightarrow> ('l, 'a) SpinLock" where
  "spin_lock_new K v = \<lparr>sl_lock = ke_initialize_spin_lock K, sl_value = v\<rparr>"

text \<open>The guard, the IRQL afterwards and the lock; \<open>None\<close> while the lock is taken.\<close>

definition spin_lock_lock ::
  "'l lock_ops \<Rightarrow> u8 \<Rightarrow> ('l, 'a) SpinLock \<Rightarrow> (SpinLockGuard \<times> u8 \<times> ('l, 'a) SpinLock) option" where
  "spin_lock_lock K irql self =
     map_option (\<lambda>((old, new), l). (\<lparr>old_irql = old\<rparr>, new, self\<lparr>sl_lock := l\<rparr>))
       (ke_acquire_spin_lock K irql (sl_lock self))"

definition spin_guard_deref :: "('l, 'a) SpinLock \<Rightarrow> 'a" where
  "spin_guard_deref self = sl_value self"

definition spin_guard_deref_mut :: "'a \<Rightarrow> ('l, 'a) SpinLock \<Rightarrow> ('l, 'a) SpinLock" where
  "spin_guard_deref_mut v self = self\<lparr>sl_value := v\<rparr>"

definition spin_guard_drop ::
  "'l lock_ops \<Rightarrow> SpinLockGuard \<Rightarrow> ('l, 'a) SpinLock \<Rightarrow> u8 \<times> ('l, 'a) SpinLock" where
  "spin_guard_drop K g self =
     (let (irql, l) = ke_release_spin_lock K (old_irql g) (sl_lock self) in (irql, self\<lparr>sl_lock := l\<rparr>))"

section \<open>The kernel's timers\<close>

text \<open>
  A \<open>KTIMER\<close> together with the \<open>KDPC\<close> that it queues when it expires: zeroed memory,
  \<open>KeInitializeTimer\<close>, \<open>KeInitializeDpc\<close>, \<open>KeSetTimer\<close>, \<open>KeCancelTimer\<close> and \<open>KeRemoveQueueDpc\<close>, which say
  whether they took something back, and the two events of the kernel: the timer expires and queues
  the DPC, and the DPC is taken out of the queue to run.
\<close>

datatype timer_phase = Zeroed | Unset | Ticking | DpcQueued

record 't timer_ops =
  timer_zeroed :: 't
  ke_initialize_timer :: "'t \<Rightarrow> 't"
  ke_initialize_timer_dpc :: "'t \<Rightarrow> 't"
  ke_set_timer :: "u64 \<Rightarrow> 't \<Rightarrow> bool \<times> 't"
  ke_cancel_timer :: "'t \<Rightarrow> (bool \<times> 't) outcome"
  ke_remove_queue_dpc :: "'t \<Rightarrow> (bool \<times> 't) outcome"
  timer_expire :: "'t \<Rightarrow> 't"
  timer_retire :: "'t \<Rightarrow> 't"
  timer_phase_of :: "'t \<Rightarrow> timer_phase"

definition timer_contract :: "'t timer_ops \<Rightarrow> bool" where
  "timer_contract T \<longleftrightarrow>
     timer_phase_of T (timer_zeroed T) = Zeroed
     \<and> (\<forall>t. timer_phase_of T (ke_initialize_timer_dpc T (ke_initialize_timer T t)) = Unset)
     \<and> (\<forall>t d. timer_phase_of T t = Unset \<longrightarrow> timer_phase_of T (snd (ke_set_timer T d t)) = Ticking)
     \<and> (\<forall>t. timer_phase_of T t = Ticking \<longrightarrow> timer_phase_of T (timer_expire T t) = DpcQueued)
     \<and> (\<forall>t. timer_phase_of T t = DpcQueued \<longrightarrow> timer_phase_of T (timer_retire T t) = Unset)
     \<and> (\<forall>t. timer_phase_of T t \<noteq> Zeroed \<longrightarrow>
          (\<exists>t'. ke_cancel_timer T t = Return (timer_phase_of T t = Ticking, t')
            \<and> timer_phase_of T t' = (if timer_phase_of T t = Ticking then Unset else timer_phase_of T t)))
     \<and> (\<forall>t. timer_phase_of T t \<noteq> Zeroed \<longrightarrow>
          (\<exists>t'. ke_remove_queue_dpc T t = Return (timer_phase_of T t = DpcQueued, t')
            \<and> timer_phase_of T t' = (if timer_phase_of T t = DpcQueued then Unset else timer_phase_of T t)))"

section \<open>State\<close>

text \<open>Wakers are numbers; what the timer does with them is logged.\<close>

datatype waker_event = Cloned nat | Woken nat | Dropped nat

record ('t, 'l) KernelTimerInner =
  kt_ref_count :: u32
  kt_fired :: u32
  kt_armed :: u32
  kt_cancelled :: u32
  kt_timer :: 't
  kt_waker :: "('l, nat option) SpinLock"

record KernelTimerFuture =
  kf_inner :: addr
  due_time_100ns :: u64

record ('t, 'l) timer_env =
  tm_build :: build
  tm_alloc_build :: alloc_build
  tm_pool :: kernel
  tm_layout :: Layout
  tm_lock :: "'l lock_ops"
  tm_ops :: "'t timer_ops"

text \<open>\<open>ts_irql\<close> is the IRQL of the processor of the owner.\<close>

record ('t, 'l) timer_state =
  ts_ptr :: addr
  ts_inner :: "('t, 'l) KernelTimerInner option"
  ts_memory :: km
  ts_irql :: u8
  ts_log :: "waker_event list"
  ts_frees :: nat

definition with_kt ::
  "(('t, 'l) KernelTimerInner \<Rightarrow> 'a outcome) \<Rightarrow> ('t, 'l) timer_state \<Rightarrow> 'a outcome" where
  "with_kt g s = and_then (ok_or_undefined (ts_inner s)) g"

definition put_kt ::
  "('t, 'l) KernelTimerInner \<Rightarrow> ('t, 'l) timer_state \<Rightarrow> ('t, 'l) timer_state" where
  "put_kt i s = s\<lparr>ts_inner := Some i\<rparr>"

section \<open>KernelTimerInner\<close>

definition IRNT_TAG :: u32 where "IRNT_TAG = 0x746E7269"

definition kt_allocate ::
  "('t, 'l) timer_env \<Rightarrow> ('t, 'l) timer_state \<Rightarrow> ((NTSTATUS + addr) \<times> ('t, 'l) timer_state) outcome" where
  "kt_allocate E s =
     and_then (wdk_alloc (tm_alloc_build E) (tm_pool E) (wdk_allocator_new NonPagedNx IRNT_TAG)
         (tm_layout E) (ts_memory s)) (\<lambda>(ptr, m).
       if ptr = null then Return (Inl STATUS_INSUFFICIENT_RESOURCES, s\<lparr>ts_memory := m\<rparr>)
       else Return (Inr ptr, s\<lparr>ts_memory := m, ts_ptr := ptr, ts_inner := Some
         \<lparr>kt_ref_count = 1, kt_fired = 0, kt_armed = 0, kt_cancelled = 0,
          kt_timer = timer_zeroed (tm_ops E), kt_waker = spin_lock_new (tm_lock E) None\<rparr>\<rparr>))"

definition kt_add_ref ::
  "('t, 'l) timer_env \<Rightarrow> ('t, 'l) timer_state \<Rightarrow> ('t, 'l) timer_state outcome" where
  "kt_add_ref E s =
     with_kt (\<lambda>i. and_then (refcount_add (tm_build E) (kt_ref_count i)) (\<lambda>(r, c).
       Return (put_kt (i\<lparr>kt_ref_count := c\<rparr>) s))) s"

text \<open>The box drops the value in place, and with it the waker, and frees the block.\<close>

definition log_drop :: "nat option \<Rightarrow> waker_event list" where
  "log_drop w = (case w of None \<Rightarrow> [] | Some w \<Rightarrow> [Dropped w])"

definition kt_free ::
  "('t, 'l) timer_env \<Rightarrow> ('t, 'l) timer_state \<Rightarrow> ('t, 'l) timer_state outcome" where
  "kt_free E s =
     with_kt (\<lambda>i.
       and_then (kbox_drop (wdk_ops (tm_alloc_build E) (tm_pool E)
            (wdk_allocator_new NonPagedNx IRNT_TAG)) (\<lambda>p m. Return m)
            (kbox_from_raw_parts (ts_ptr s) (tm_layout E)) (ts_memory s)) (\<lambda>m.
         Return (s\<lparr>ts_inner := None, ts_memory := m, ts_frees := ts_frees s + 1,
           ts_log := ts_log s @ log_drop (sl_value (kt_waker i))\<rparr>))) s"

definition kt_release ::
  "('t, 'l) timer_env \<Rightarrow> ('t, 'l) timer_state \<Rightarrow> ('t, 'l) timer_state outcome" where
  "kt_release E s =
     with_kt (\<lambda>i. and_then (refcount_sub (tm_build E) (kt_ref_count i)) (\<lambda>(count, rc).
       let s1 = put_kt (i\<lparr>kt_ref_count := rc\<rparr>) s
       in if count \<noteq> 0 then Return s1 else kt_free E s1)) s"

definition timer_future_new ::
  "('t, 'l) timer_env \<Rightarrow> u64 \<Rightarrow> ('t, 'l) timer_state
    \<Rightarrow> ((NTSTATUS + KernelTimerFuture) \<times> ('t, 'l) timer_state) outcome" where
  "timer_future_new E due s =
     and_then (kt_allocate E s) (\<lambda>(r, s1).
       case r of
         Inl st \<Rightarrow> Return (Inl st, s1)
       | Inr inner \<Rightarrow> Return (Inr \<lparr>kf_inner = inner, due_time_100ns = due\<rparr>, s1))"

section \<open>The pieces of poll, drop and the DPC routine\<close>

text \<open>The first load of \<open>poll\<close>.\<close>

definition poll_check :: "('t, 'l) timer_state \<Rightarrow> bool outcome" where
  "poll_check s = with_kt (\<lambda>i. Return (kt_fired i \<noteq> 0)) s"

text \<open>Taking the lock of the waker, at some IRQL; \<open>None\<close> while it spins.\<close>

definition waker_lock ::
  "('t, 'l) timer_env \<Rightarrow> u8 \<Rightarrow> ('t, 'l) timer_state
    \<Rightarrow> (SpinLockGuard \<times> u8 \<times> ('t, 'l) timer_state) outcome option" where
  "waker_lock E irql s =
     (case ts_inner s of
        None \<Rightarrow> Some Undefined
      | Some i \<Rightarrow>
          map_option (\<lambda>(g, irql', l). Return (g, irql', put_kt (i\<lparr>kt_waker := l\<rparr>) s))
            (spin_lock_lock (tm_lock E) irql (kt_waker i)))"

text \<open>\<open>*guard = Some(cx.waker().clone())\<close> drops the old waker; then the guard goes.\<close>

definition poll_store ::
  "('t, 'l) timer_env \<Rightarrow> nat \<Rightarrow> SpinLockGuard \<Rightarrow> ('t, 'l) timer_state \<Rightarrow> ('t, 'l) timer_state outcome" where
  "poll_store E w g s =
     with_kt (\<lambda>i.
       let old = spin_guard_deref (kt_waker i);
           (irql, l) = spin_guard_drop (tm_lock E) g (spin_guard_deref_mut (Some w) (kt_waker i))
       in Return (put_kt (i\<lparr>kt_waker := l\<rparr>) s\<lparr>ts_irql := irql,
            ts_log := ts_log s @ Cloned w # log_drop old\<rparr>)) s"

text \<open>
  \<open>armed.compare_exchange(0, 1)\<close> and, when it succeeds, the reference for the DPC, the initialisation
  and \<open>KeSetTimer\<close>. Nobody else uses the timer before that call.
\<close>

definition poll_arm ::
  "('t, 'l) timer_env \<Rightarrow> u64 \<Rightarrow> ('t, 'l) timer_state \<Rightarrow> ('t, 'l) timer_state outcome" where
  "poll_arm E due s =
     with_kt (\<lambda>i.
       if kt_armed i \<noteq> 0 then Return s
       else and_then (kt_add_ref E (put_kt (i\<lparr>kt_armed := 1\<rparr>) s)) (\<lambda>s1.
         with_kt (\<lambda>i1.
           let t1 = ke_initialize_timer (tm_ops E) (kt_timer i1);
               t2 = ke_initialize_timer_dpc (tm_ops E) t1;
               (was_set, t3) = ke_set_timer (tm_ops E) due t2
           in Return (put_kt (i1\<lparr>kt_timer := t3\<rparr>) s1)) s1)) s"

definition drop_mark :: "('t, 'l) timer_state \<Rightarrow> ('t, 'l) timer_state outcome" where
  "drop_mark s = with_kt (\<lambda>i. Return (put_kt (i\<lparr>kt_cancelled := 1\<rparr>) s)) s"

definition drop_cancel ::
  "('t, 'l) timer_env \<Rightarrow> ('t, 'l) timer_state \<Rightarrow> (bool \<times> ('t, 'l) timer_state) outcome" where
  "drop_cancel E s =
     with_kt (\<lambda>i. and_then (ke_cancel_timer (tm_ops E) (kt_timer i)) (\<lambda>(cancelled, t).
       Return (cancelled, put_kt (i\<lparr>kt_timer := t\<rparr>) s))) s"

definition drop_remove ::
  "('t, 'l) timer_env \<Rightarrow> ('t, 'l) timer_state \<Rightarrow> (bool \<times> ('t, 'l) timer_state) outcome" where
  "drop_remove E s =
     with_kt (\<lambda>i. and_then (ke_remove_queue_dpc (tm_ops E) (kt_timer i)) (\<lambda>(dpc_removed, t).
       Return (dpc_removed, put_kt (i\<lparr>kt_timer := t\<rparr>) s))) s"

text \<open>The kernel starts the routine; it stores \<open>fired\<close> and reads \<open>cancelled\<close>.\<close>

definition dpc_start ::
  "('t, 'l) timer_env \<Rightarrow> ('t, 'l) timer_state \<Rightarrow> ('t, 'l) timer_state outcome" where
  "dpc_start E s = with_kt (\<lambda>i. Return (put_kt (i\<lparr>kt_timer := timer_retire (tm_ops E) (kt_timer i)\<rparr>) s)) s"

definition dpc_fire :: "('t, 'l) timer_state \<Rightarrow> ('t, 'l) timer_state outcome" where
  "dpc_fire s = with_kt (\<lambda>i. Return (put_kt (i\<lparr>kt_fired := 1\<rparr>) s)) s"

definition dpc_cancelled :: "('t, 'l) timer_state \<Rightarrow> bool outcome" where
  "dpc_cancelled s = with_kt (\<lambda>i. Return (kt_cancelled i \<noteq> 0)) s"

definition dpc_wake ::
  "('t, 'l) timer_env \<Rightarrow> SpinLockGuard \<Rightarrow> ('t, 'l) timer_state \<Rightarrow> ('t, 'l) timer_state outcome" where
  "dpc_wake E g s =
     with_kt (\<lambda>i.
       let (irql, l) = spin_guard_drop (tm_lock E) g (kt_waker i)
       in Return (put_kt (i\<lparr>kt_waker := l\<rparr>) s\<lparr>ts_log := ts_log s @
            (case spin_guard_deref (kt_waker i) of None \<Rightarrow> [] | Some w \<Rightarrow> [Woken w])\<rparr>)) s"

section \<open>The owner and the DPC\<close>

text \<open>
  Where the owner of the future is: between calls, inside \<open>poll\<close>, inside \<open>drop\<close>, or done. \<open>DropRemoved\<close>
  says whether the timer or its DPC was taken back. Between calls the owner polls with a waker or
  drops the future.
\<close>

datatype owner_pc =
    OwnerIdle
  | PollChecked nat
  | PollLocked nat SpinLockGuard
  | PollStored
  | DropMarked
  | DropCancelled bool
  | DropRemoved bool
  | DropReleased
  | OwnerGone

datatype dpc_pc = NoDpc | DpcStarted | DpcFired | DpcCalling | DpcLocked SpinLockGuard | DpcLeaving

datatype owner_call = CallPoll nat | CallDrop

text \<open>One piece of the owner's code: the next position, what \<open>poll\<close> returns if it does, the state.\<close>

definition owner_next ::
  "('t, 'l) timer_env \<Rightarrow> KernelTimerFuture \<Rightarrow> owner_call \<Rightarrow> owner_pc \<Rightarrow> ('t, 'l) timer_state
    \<Rightarrow> (owner_pc \<times> NTSTATUS Poll option \<times> ('t, 'l) timer_state) outcome option" where
  "owner_next E fut call pc s =
     (case pc of
        OwnerIdle \<Rightarrow>
          (case call of
             CallPoll w \<Rightarrow>
               Some (and_then (poll_check s) (\<lambda>fired.
                 if fired then Return (OwnerIdle, Some (Ready STATUS_SUCCESS), s)
                 else Return (PollChecked w, None, s)))
           | CallDrop \<Rightarrow> Some (and_then (drop_mark s) (\<lambda>s1. Return (DropMarked, None, s1))))
      | PollChecked w \<Rightarrow>
          map_option (\<lambda>r. and_then r (\<lambda>(g, irql, s1). Return (PollLocked w g, None, s1\<lparr>ts_irql := irql\<rparr>)))
            (waker_lock E (ts_irql s) s)
      | PollLocked w g \<Rightarrow>
          Some (and_then (poll_store E w g s) (\<lambda>s1. Return (PollStored, None, s1)))
      | PollStored \<Rightarrow>
          Some (and_then (poll_arm E (due_time_100ns fut) s) (\<lambda>s1. Return (OwnerIdle, Some Pending, s1)))
      | DropMarked \<Rightarrow>
          Some (and_then (drop_cancel E s) (\<lambda>(c, s1). Return (DropCancelled c, None, s1)))
      | DropCancelled c \<Rightarrow>
          Some (and_then (drop_remove E s) (\<lambda>(d, s1). Return (DropRemoved (c \<or> d), None, s1)))
      | DropRemoved taken_back \<Rightarrow>
          Some (and_then (kt_release E s) (\<lambda>s1.
            Return (if taken_back then DropReleased else OwnerGone, None, s1)))
      | DropReleased \<Rightarrow> Some (and_then (kt_release E s) (\<lambda>s1. Return (OwnerGone, None, s1)))
      | OwnerGone \<Rightarrow> None)"

text \<open>One piece of the DPC routine, which the kernel starts when the DPC is in the queue.\<close>

definition dpc_next ::
  "('t, 'l) timer_env \<Rightarrow> dpc_pc \<Rightarrow> ('t, 'l) timer_state
    \<Rightarrow> (dpc_pc \<times> ('t, 'l) timer_state) outcome option" where
  "dpc_next E pc s =
     (case pc of
        NoDpc \<Rightarrow>
          (case ts_inner s of
             None \<Rightarrow> None
           | Some i \<Rightarrow>
               if timer_phase_of (tm_ops E) (kt_timer i) = DpcQueued
               then Some (and_then (dpc_start E s) (\<lambda>s1. Return (DpcStarted, s1))) else None)
      | DpcStarted \<Rightarrow> Some (and_then (dpc_fire s) (\<lambda>s1. Return (DpcFired, s1)))
      | DpcFired \<Rightarrow>
          Some (and_then (dpc_cancelled s) (\<lambda>c. Return (if c then DpcLeaving else DpcCalling, s)))
      | DpcCalling \<Rightarrow>
          map_option (\<lambda>r. and_then r (\<lambda>(g, irql, s1). Return (DpcLocked g, s1)))
            (waker_lock E DISPATCH_LEVEL s)
      | DpcLocked g \<Rightarrow> Some (and_then (dpc_wake E g s) (\<lambda>s1. Return (DpcLeaving, s1)))
      | DpcLeaving \<Rightarrow> Some (and_then (kt_release E s) (\<lambda>s1. Return (NoDpc, s1))))"

text \<open>
  The reachable states: the owner and the DPC take their steps in any order, and a ticking timer may
  expire at any time. A future that was never polled is not dropped here. \<open>rs\<close> is what the last poll
  returned with its waker.
\<close>

record ('t, 'l) timer_config =
  tc_owner :: owner_pc
  tc_dpc :: dpc_pc
  tc_polled :: "NTSTATUS Poll option"
  tc_state :: "('t, 'l) timer_state"

definition was_armed :: "('t, 'l) timer_state \<Rightarrow> bool" where
  "was_armed s \<longleftrightarrow> (case ts_inner s of None \<Rightarrow> False | Some i \<Rightarrow> kt_armed i \<noteq> 0)"

inductive timer_reach ::
  "('t, 'l) timer_env \<Rightarrow> KernelTimerFuture \<Rightarrow> ('t, 'l) timer_state \<Rightarrow> ('t, 'l) timer_config \<Rightarrow> bool"
  for E fut s0 where
  timer_created: "timer_future_new E (due_time_100ns fut) s0 = Return (Inr fut, s)
    \<Longrightarrow> timer_reach E fut s0 \<lparr>tc_owner = OwnerIdle, tc_dpc = NoDpc, tc_polled = None, tc_state = s\<rparr>"
| timer_owner: "timer_reach E fut s0 c \<Longrightarrow> tc_owner c = OwnerIdle \<and> call = CallDrop \<longrightarrow> was_armed (tc_state c)
    \<Longrightarrow> owner_next E fut call (tc_owner c) (tc_state c) = Some (Return (pc, r, s))
    \<Longrightarrow> timer_reach E fut s0 (c\<lparr>tc_owner := pc, tc_state := s,
          tc_polled := (if r = None then tc_polled c else r)\<rparr>)"
| timer_dpc: "timer_reach E fut s0 c \<Longrightarrow> dpc_next E (tc_dpc c) (tc_state c) = Some (Return (pc, s))
    \<Longrightarrow> timer_reach E fut s0 (c\<lparr>tc_dpc := pc, tc_state := s\<rparr>)"
| timer_expired: "timer_reach E fut s0 c \<Longrightarrow> ts_inner (tc_state c) = Some i
    \<Longrightarrow> timer_phase_of (tm_ops E) (kt_timer i) = Ticking
    \<Longrightarrow> timer_reach E fut s0 (c\<lparr>tc_state := put_kt (i\<lparr>kt_timer := timer_expire (tm_ops E) (kt_timer i)\<rparr>)
          (tc_state c)\<rparr>)"

end
