(* ===== verification/Dpc_Safety.thy ===== *)
theory Dpc_Safety
  imports Dpc_Task
begin

text \<open>
  The ownership discipline of the DPC executor: every reference to a task is accounted for by a
  waker, a handle, the DPC queue or the code that is running. The theory shows that all operations
  keep the account, whatever the future and the other holders do, and what follows from it.
\<close>

section \<open>The account\<close>

definition dpc_env_ok :: "('f, 'w, 'e, 'q) dpc_env \<Rightarrow> bool" where
  "dpc_env_ok E \<longleftrightarrow>
     dpc_contract (x_dpc E) \<and> valid_layout (x_layout E) \<and> layout_size (x_layout E) \<noteq> 0"

text \<open>
  What the rest of the driver has besides the task: the tracker the task reports to with the other
  tasks outstanding there, and the other pool blocks.
\<close>

record ledger =
  l_tracker :: addr
  l_pending :: nat
  l_blocks :: "addr \<rightharpoonup> usize \<times> u32"

abbreviation queue_refs :: "('f, 'w, 'e, 'q) dpc_env \<Rightarrow> ('f, 'q) DpcTask \<Rightarrow> nat" where
  "queue_refs E t \<equiv> (if dpc_queued (x_dpc E) (th_dpc t) then 1 else 0)"

abbreviation task_alloc :: "('f, 'q) DpcTask \<Rightarrow> WdkAllocator" where
  "task_alloc t \<equiv> wdk_allocator_new NonPagedNx (th_alloc_tag t)"

text \<open>The references of a live task, of which the running code owns \<open>own\<close>.\<close>

definition live_ok ::
  "('f, 'w, 'e, 'q) dpc_env \<Rightarrow> nat \<Rightarrow> ('f, 'w, 'e, 'q) executor \<Rightarrow> ('f, 'q) DpcTask \<Rightarrow> bool" where
  "live_ok E own s t \<longleftrightarrow>
     unat (th_ref_count t) = wakers s + handles s + own + queue_refs E t
     \<and> th_ref_count t \<noteq> 0 \<and> frees s = 0
     \<and> (if th_completed t = 0 then drops s = 0 \<and> task_future t \<noteq> Emptied
        else drops s = 1 \<and> task_future t = Emptied)"

definition resources_ok ::
  "('f, 'w, 'e, 'q) dpc_env \<Rightarrow> ledger \<Rightarrow> ('f, 'w, 'e, 'q) executor \<Rightarrow> bool" where
  "resources_ok E L s \<longleftrightarrow>
     (case the_task s of
        None \<Rightarrow>
          pool_ok (x_kernel E) (memory s) \<and> map_of (blocks (memory s)) = l_blocks L
          \<and> (l_tracker L \<noteq> null \<longrightarrow>
              tracker_counts (x_event E) (trackers s (l_tracker L)) (l_pending L))
      | Some t \<Rightarrow>
          wdk_held (x_alloc_build E) (x_kernel E) (task_alloc t) [(task_ptr s, x_layout E)] (memory s)
          \<and> (map_of (blocks (memory s)))
              (backing (x_alloc_build E) (memory s) (task_ptr s, x_layout E) := None) = l_blocks L
          \<and> th_tracker t = l_tracker L
          \<and> (l_tracker L \<noteq> null \<longrightarrow>
              tracker_counts (x_event E) (trackers s (l_tracker L)) (l_pending L + 1)))"

text \<open>\<open>cur\<close> is the processor whose entry of \<open>CURRENT_TASKS\<close> names the task.\<close>

definition account ::
  "('f, 'w, 'e, 'q) dpc_env \<Rightarrow> ledger \<Rightarrow> nat \<Rightarrow> nat option \<Rightarrow> ('f, 'w, 'e, 'q) executor \<Rightarrow> bool" where
  "account E L own cur s \<longleftrightarrow>
     (\<forall>i. CURRENT_TASKS s i = (if cur = Some i then task_ptr s else null))
     \<and> (cur \<noteq> None \<longrightarrow> 0 < own)
     \<and> task_ptr s \<noteq> null
     \<and> wakers s + handles s \<le> 2 ^ 31 - 8
     \<and> resources_ok E L s
     \<and> (case the_task s of
          None \<Rightarrow> own = 0 \<and> wakers s = 0 \<and> handles s = 0 \<and> drops s = 1 \<and> frees s = 1
        | Some t \<Rightarrow> live_ok E own s t)"

text \<open>A task that is marked as scheduled has its DPC in the queue.\<close>

definition sched_ok :: "('f, 'w, 'e, 'q) dpc_env \<Rightarrow> ('f, 'w, 'e, 'q) executor \<Rightarrow> bool" where
  "sched_ok E s \<longleftrightarrow>
     (\<forall>t. the_task s = Some t \<longrightarrow> th_scheduled t \<noteq> 0 \<longrightarrow> dpc_queued (x_dpc E) (th_dpc t))"

text \<open>
  A future in the hands of the executor: with its DPC in the queue, without, with its last poll
  ready, or dropped. A contract \<open>J\<close> of a future with the world relates these states to the world: every
  poll and every drop of the future keeps it, if the executor polls only what was queued and not
  yet ready, and drops only what is not queued.
\<close>

datatype 'f future_state = Queued 'f | Idle 'f | Finished 'f | Gone

definition future_contract ::
  "('f, 'w, 'e, 'q) dpc_env \<Rightarrow> ('f future_state \<Rightarrow> 'w \<Rightarrow> bool) \<Rightarrow> bool" where
  "future_contract E J \<longleftrightarrow>
     (\<forall>f w. J (Idle f) w \<longrightarrow> J (Queued f) w)
     \<and> (\<forall>f w r f' w'. J (Queued f) w \<longrightarrow> (r, f', w') \<in> set_activity (x_poll E f w) \<longrightarrow>
          J (if r = Pending then Idle f' else Finished f') w')
     \<and> (\<forall>f w w'. J (Idle f) w \<or> J (Finished f) w \<longrightarrow> w' \<in> set_activity (x_drop E f w) \<longrightarrow> J Gone w')"

definition held :: "('f, 'w, 'e, 'q) dpc_env \<Rightarrow> ('f, 'w, 'e, 'q) executor \<Rightarrow> 'f future_state" where
  "held E s =
     (case the_task s of
        None \<Rightarrow> Gone
      | Some t \<Rightarrow>
          (case task_future t of
             Emptied \<Rightarrow> Gone
           | Holding f \<Rightarrow> if dpc_queued (x_dpc E) (th_dpc t) then Queued f else Idle f))"

text \<open>The operations of holders keep every contract, and the world unless they free the task.\<close>

definition honours ::
  "('f, 'w, 'e, 'q) dpc_env \<Rightarrow> ('f, 'w, 'e, 'q) executor \<Rightarrow> ('f, 'w, 'e, 'q) executor \<Rightarrow> bool" where
  "honours E s s' \<longleftrightarrow>
     (\<forall>J. future_contract E J \<longrightarrow> J (held E s) (future_world s) \<longrightarrow> J (held E s') (future_world s'))
     \<and> (the_task s' \<noteq> None \<longrightarrow> future_world s' = future_world s)"

lemma honours_refl [simp]: "honours E s s"
  by (simp add: honours_def)

lemma honours_trans:
  "honours E s s1 \<Longrightarrow> honours E s1 s2 \<Longrightarrow> (the_task s2 \<noteq> None \<longrightarrow> the_task s1 \<noteq> None) \<Longrightarrow> honours E s s2"
  by (auto simp: honours_def)

lemma honours_step:
  assumes "the_task s = Some t" and "the_task s' = Some t'" and "task_future t' = task_future t"
    and "dpc_queued (x_dpc E) (th_dpc t) \<longrightarrow> dpc_queued (x_dpc E) (th_dpc t')"
    and "future_world s' = future_world s"
  shows "honours E s s'"
  using assms
  by (cases "task_future t") (auto simp: honours_def held_def future_contract_def)

lemma honoursD:
  "honours E s s' \<Longrightarrow> future_contract E J \<Longrightarrow> J (held E s) (future_world s)
    \<Longrightarrow> J (held E s') (future_world s')"
  unfolding honours_def by blast

lemma honours_gone:
  assumes "the_task s' = None"
    and "\<And>J. future_contract E J \<Longrightarrow> J (held E s) (future_world s) \<Longrightarrow> J Gone (future_world s')"
  shows "honours E s s'"
  unfolding honours_def using assms(1) by (auto simp: held_def [of E s'] intro: assms(2))

lemma honours_counts [simp]:
  "honours E (s\<lparr>wakers := n\<rparr>) s' \<longleftrightarrow> honours E s s'" "honours E s (s'\<lparr>wakers := n\<rparr>) \<longleftrightarrow> honours E s s'"
  "honours E (s\<lparr>handles := n\<rparr>) s' \<longleftrightarrow> honours E s s'" "honours E s (s'\<lparr>handles := n\<rparr>) \<longleftrightarrow> honours E s s'"
  "honours E (s\<lparr>polls := n\<rparr>) s' \<longleftrightarrow> honours E s s'" "honours E s (s'\<lparr>CURRENT_TASKS := g\<rparr>) \<longleftrightarrow> honours E s s'"
  "honours E s (s'\<lparr>queries := n\<rparr>) \<longleftrightarrow> honours E s s'"
  by (simp_all add: honours_def held_def)

lemma honours_same:
  "the_task s' = the_task s \<Longrightarrow> future_world s' = future_world s \<Longrightarrow> honours E s s'"
  by (simp add: honours_def held_def)

text \<open>
  What the operations of holders never do: poll, complete or replace the future, take the DPC out
  of the queue, free a task that is in the queue, or change the statics.
\<close>

definition keeps ::
  "('f, 'w, 'e, 'q) dpc_env \<Rightarrow> ('f, 'w, 'e, 'q) executor \<Rightarrow> ('f, 'w, 'e, 'q) executor \<Rightarrow> bool" where
  "keeps E s s' \<longleftrightarrow>
     polls s' = polls s \<and> task_ptr s' = task_ptr s \<and> queries s' = queries s
     \<and> TASK_BUDGET_MODE s' = TASK_BUDGET_MODE s \<and> TASK_BUDGET_POLLS s' = TASK_BUDGET_POLLS s
     \<and> TASK_BUDGET_TIME_US s' = TASK_BUDGET_TIME_US s \<and> DEFAULT_TASK_TAG s' = DEFAULT_TASK_TAG s
     \<and> honours E s s'
     \<and> (\<forall>t. the_task s = Some t \<longrightarrow> dpc_queued (x_dpc E) (th_dpc t) \<longrightarrow> the_task s' \<noteq> None)
     \<and> (\<forall>t'. the_task s' = Some t' \<longrightarrow> (\<exists>t. the_task s = Some t
          \<and> (dpc_queued (x_dpc E) (th_dpc t) \<longrightarrow> dpc_queued (x_dpc E) (th_dpc t'))
          \<and> th_completed t' = th_completed t \<and> task_future t' = task_future t
          \<and> th_cancel_requested t \<le> th_cancel_requested t'))"

lemma keeps_refl [simp]: "keeps E s s"
  by (simp add: keeps_def)

lemma keeps_trans [trans]:
  assumes "keeps E s s1" and "keeps E s1 s2"
  shows "keeps E s s2"
proof -
  have "\<exists>t. the_task s = Some t
      \<and> (dpc_queued (x_dpc E) (th_dpc t) \<longrightarrow> dpc_queued (x_dpc E) (th_dpc t''))
      \<and> th_completed t'' = th_completed t \<and> task_future t'' = task_future t
      \<and> th_cancel_requested t \<le> th_cancel_requested t''" if t'': "the_task s2 = Some t''" for t''
  proof -
    obtain t' where t': "the_task s1 = Some t'"
      "dpc_queued (x_dpc E) (th_dpc t') \<longrightarrow> dpc_queued (x_dpc E) (th_dpc t'')"
      "th_completed t'' = th_completed t'" "task_future t'' = task_future t'"
      "th_cancel_requested t' \<le> th_cancel_requested t''"
      using assms(2) t'' unfolding keeps_def by blast
    obtain t where "the_task s = Some t"
      "dpc_queued (x_dpc E) (th_dpc t) \<longrightarrow> dpc_queued (x_dpc E) (th_dpc t')"
      "th_completed t' = th_completed t" "task_future t' = task_future t"
      "th_cancel_requested t \<le> th_cancel_requested t'"
      using assms(1) t'(1) unfolding keeps_def by blast
    then show ?thesis using t'(2-) by auto
  qed
  moreover have "the_task s2 \<noteq> None" if q: "the_task s = Some t" "dpc_queued (x_dpc E) (th_dpc t)" for t
  proof -
    obtain t1 where "the_task s1 = Some t1" using assms(1) q unfolding keeps_def by blast
    then have "dpc_queued (x_dpc E) (th_dpc t1)" using assms(1) q unfolding keeps_def by auto
    then show ?thesis using assms(2) \<open>the_task s1 = Some t1\<close> unfolding keeps_def by blast
  qed
  moreover have "honours E s s2"
    using assms by (intro honours_trans [of E s s1 s2]) (auto simp: keeps_def)
  ultimately show ?thesis using assms unfolding keeps_def by simp
qed

lemma keeps_honours: "keeps E s s' \<Longrightarrow> honours E s s'"
  by (simp add: keeps_def)

lemma keeps_queued:
  assumes "keeps E s s'" and "the_task s = Some t" and "dpc_queued (x_dpc E) (th_dpc t)"
  shows "\<exists>t'. the_task s' = Some t' \<and> dpc_queued (x_dpc E) (th_dpc t')
    \<and> th_completed t' = th_completed t"
proof -
  obtain t' where "the_task s' = Some t'" using assms unfolding keeps_def by blast
  then show ?thesis using assms unfolding keeps_def by auto
qed

lemma put_task_simps [simp]:
  "the_task (put_task t s) = Some t" "wakers (put_task t s) = wakers s"
  "handles (put_task t s) = handles s" "drops (put_task t s) = drops s" "frees (put_task t s) = frees s"
  "polls (put_task t s) = polls s" "task_ptr (put_task t s) = task_ptr s"
  "CURRENT_TASKS (put_task t s) = CURRENT_TASKS s" "memory (put_task t s) = memory s"
  "trackers (put_task t s) = trackers s" "queries (put_task t s) = queries s"
  "TASK_BUDGET_MODE (put_task t s) = TASK_BUDGET_MODE s"
  "TASK_BUDGET_POLLS (put_task t s) = TASK_BUDGET_POLLS s"
  "TASK_BUDGET_TIME_US (put_task t s) = TASK_BUDGET_TIME_US s"
  "DEFAULT_TASK_TAG (put_task t s) = DEFAULT_TASK_TAG s"
  "future_world (put_task t s) = future_world s"
  by (simp_all add: put_task_def)

lemma honours_put [simp]:
  assumes "the_task s = Some t" and "task_future t' = task_future t"
    and "dpc_queued (x_dpc E) (th_dpc t) \<longrightarrow> dpc_queued (x_dpc E) (th_dpc t')"
  shows "honours E s (put_task t' s)"
  by (rule honours_step [OF assms(1) _ assms(2,3)]) simp_all

lemma with_task_Some: "the_task s = Some t \<Longrightarrow> with_task k s = k t"
  by (simp add: with_task_def)

lemma with_put_task [simp]: "with_task k (put_task t s) = k t"
  by (simp add: with_task_def)

text \<open>A change of the header that leaves what the account counts.\<close>

lemma account_put:
  assumes "account E L own cur s" and "the_task s = Some t"
    and "th_alloc_tag t' = th_alloc_tag t" and "th_tracker t' = th_tracker t"
    and "live_ok E own' s t'" and "cur \<noteq> None \<longrightarrow> 0 < own'"
  shows "account E L own' cur (put_task t' s)"
  using assms by (auto simp: account_def resources_ok_def live_ok_def)

lemma account_live:
  assumes "account E L own cur s" and "0 < own \<or> 0 < wakers s \<or> 0 < handles s"
  obtains t where "the_task s = Some t" "live_ok E own s t"
  using assms by (auto simp: account_def split: option.splits)

lemma account_the_task: "account E L own cur s \<Longrightarrow> the_task s = Some t \<Longrightarrow> live_ok E own s t"
  by (auto simp: account_def)

section \<open>References\<close>

lemma add_ref_ok:
  assumes "account E L own cur s" and "the_task s = Some t" and "own \<le> 4"
  obtains c where "th_add_ref E s = Return (put_task (t\<lparr>th_ref_count := c\<rparr>) s)"
    "account E L (Suc own) cur (put_task (t\<lparr>th_ref_count := c\<rparr>) s)"
    "unat c = unat (th_ref_count t) + 1"
proof -
  have l: "live_ok E own s t" using assms(1,2) by (rule account_the_task)
  then have "unat (th_ref_count t) < 2 ^ 31 - 1"
    using assms(1,3) by (auto simp: live_ok_def account_def)
  then have "unat (th_ref_count t) < refcount_cap (x_build E)" by (simp add: refcount_cap_def)
  from refcount.add_counts [OF this] obtain c where
    c: "refcount_add (x_build E) (th_ref_count t) = Return (c, c)" "unat c = unat (th_ref_count t) + 1"
    by blast
  have "live_ok E (Suc own) s (t\<lparr>th_ref_count := c\<rparr>)"
    using l c(2) by (auto simp: live_ok_def)
  then have "account E L (Suc own) cur (put_task (t\<lparr>th_ref_count := c\<rparr>) s)"
    using assms(1,2) by (intro account_put) auto
  then show thesis using that c assms(2) by (simp add: th_add_ref_def with_task_Some)
qed

lemma release_shared:
  assumes "account E L (Suc own) cur s" and "the_task s = Some t" and "1 < unat (th_ref_count t)"
    and "cur \<noteq> None \<longrightarrow> 0 < own"
  obtains c' where "th_release E c s = Return (put_task (t\<lparr>th_ref_count := c'\<rparr>) s)"
    "account E L own cur (put_task (t\<lparr>th_ref_count := c'\<rparr>) s)"
proof -
  have l: "live_ok E (Suc own) s t" using assms(1,2) by (rule account_the_task)
  obtain c' where c': "refcount_sub (x_build E) (th_ref_count t) = Return (c', c')"
    "unat c' = unat (th_ref_count t) - 1"
    using refcount.sub_counts [of "th_ref_count t" "x_build E"] assms(3) by auto
  then have "c' \<noteq> 0" using assms(3) by (metis unat_eq_zero_iff zero_less_diff less_numeral_extra(3))
  moreover have "live_ok E own s (t\<lparr>th_ref_count := c'\<rparr>)"
    using l c'(2) \<open>c' \<noteq> 0\<close> by (auto simp: live_ok_def)
  then have "account E L own cur (put_task (t\<lparr>th_ref_count := c'\<rparr>) s)"
    using assms(1,2,4) by (intro account_put) auto
  ultimately show thesis using that c' assms(2) by (simp add: th_release_def with_task_Some Let_def)
qed

lemma no_current_task:
  assumes "\<forall>i. CURRENT_TASKS s i = null"
  shows "current_task_header c s = Return None"
proof (cases "current_cpu_index (rc_processor c)")
  case (Some i)
  then have "i < MAX_CPU_COUNT"
    by (auto simp: current_cpu_index_def MAX_CPU_COUNT_def MAX_PROC_PER_GROUP_def
        MAX_GROUP_COUNT_def Let_def split: if_splits)
  then show ?thesis using Some assms by (simp add: current_task_header_def)
qed (simp add: current_task_header_def)

lemma run_orphaned_idle:
  assumes "\<forall>i. CURRENT_TASKS s i = null" and "wakers s = 0" and "handles s = 0"
  shows "\<exists>r \<in> set_activity a. run_orphaned c a s = Return (r, s)"
proof (induction a)
  case (Act p k)
  have "\<not> permitted (c\<lparr>rc_polling := False\<rparr>) p s" if "p \<noteq> AskCancelled" "p \<noteq> TakeCancelled"
    using that assms by (cases p) (auto simp: permitted_def)
  then show ?case
    using Act [of "k False"] no_current_task [OF assms(1), of c]
    by (fastforce simp: is_cancellation_requested_def take_cancellation_request_def)
qed simp

lemma complete_tracker_simps [simp]:
  "the_task (complete_tracker E tr s) = the_task s" "wakers (complete_tracker E tr s) = wakers s"
  "handles (complete_tracker E tr s) = handles s" "drops (complete_tracker E tr s) = drops s"
  "frees (complete_tracker E tr s) = frees s" "memory (complete_tracker E tr s) = memory s"
  "polls (complete_tracker E tr s) = polls s" "task_ptr (complete_tracker E tr s) = task_ptr s"
  "CURRENT_TASKS (complete_tracker E tr s) = CURRENT_TASKS s"
  "queries (complete_tracker E tr s) = queries s"
  "TASK_BUDGET_MODE (complete_tracker E tr s) = TASK_BUDGET_MODE s"
  "TASK_BUDGET_POLLS (complete_tracker E tr s) = TASK_BUDGET_POLLS s"
  "TASK_BUDGET_TIME_US (complete_tracker E tr s) = TASK_BUDGET_TIME_US s"
  "DEFAULT_TASK_TAG (complete_tracker E tr s) = DEFAULT_TASK_TAG s"
  "future_world (complete_tracker E tr s) = future_world s"
  by (auto simp: complete_tracker_def task_tracker_complete_def)

lemma trackers_complete:
  assumes "tr \<noteq> null"
  shows "trackers (complete_tracker E tr s) tr = tracker_complete (x_event E) (trackers s tr)"
  using assms by (simp add: complete_tracker_def task_tracker_complete_def)

text \<open>Freeing the block and completing the tracker, once nobody holds the task.\<close>

lemma dealloc_and_complete:
  assumes "dpc_env_ok E" and "resources_ok E L s" and "the_task s = Some t"
    and "\<forall>i. CURRENT_TASKS s i = null" and "task_ptr s \<noteq> null"
    and "wakers s = 0" and "handles s = 0" and "drops s = 1" and "frees s = 0"
    and "\<not> dpc_queued (x_dpc E) (th_dpc t)" and "task_future t = Emptied"
  shows "\<exists>s'. destroy_shim run E DeallocTask s = Return s'
    \<and> account E L 0 None (complete_tracker E (th_tracker t) s')
    \<and> keeps E s (complete_tracker E (th_tracker t) s')
    \<and> the_task (complete_tracker E (th_tracker t) s') = None"
proof -
  have h: "wdk_held (x_alloc_build E) (x_kernel E) (task_alloc t)
      ([] @ (task_ptr s, x_layout E) # []) (memory s)"
    and b: "(map_of (blocks (memory s)))
      (backing (x_alloc_build E) (memory s) (task_ptr s, x_layout E) := None) = l_blocks L"
    and tr: "th_tracker t = l_tracker L"
    and tc: "l_tracker L \<noteq> null \<longrightarrow>
      tracker_counts (x_event E) (trackers s (l_tracker L)) (l_pending L + 1)"
    using assms(2,3) by (auto simp: resources_ok_def)
  obtain m where m: "wdk_dealloc (x_alloc_build E) (x_kernel E) (task_alloc t) (task_ptr s)
      (x_layout E) (memory s) = Return m"
    "wdk_held (x_alloc_build E) (x_kernel E) (task_alloc t) [] m"
    using wdk_dealloc_law [OF h] by auto
  have bm: "map_of (blocks m) = l_blocks L"
    using wdk_dealloc_blocks [OF h _ m(1)] assms(1) b
    by (simp add: dpc_env_ok_def delete_conv')
  let ?s = "s\<lparr>the_task := None, memory := m, frees := frees s + 1\<rparr>"
  have d: "destroy_shim run E DeallocTask s = Return ?s"
    using m(1) assms(3) by (simp add: destroy_shim_def with_task_Some kbox_drop_def wdk_ops_def
        kbox_from_raw_parts_def)
  have "tracker_counts (x_event E) (trackers (complete_tracker E (l_tracker L) ?s) (l_tracker L))
      (l_pending L)" if "l_tracker L \<noteq> null"
    using tc that dpc_tracker.complete_counts by (simp add: trackers_complete)
  then have "account E L 0 None (complete_tracker E (th_tracker t) ?s)"
    using assms bm m(2) tr by (simp add: account_def resources_ok_def wdk_held_def)
  moreover have "honours E s (complete_tracker E (th_tracker t) ?s)"
    using assms(3,11) by (simp add: honours_def held_def)
  ultimately show ?thesis using d assms(3,10) by (simp add: keeps_def)
qed

lemma release_last:
  assumes "dpc_env_ok E" and "account E L (Suc own) cur s" and "the_task s = Some t"
    and "unat (th_ref_count t) = 1" and "cur \<noteq> None \<longrightarrow> 0 < own"
  shows "\<exists>s'. th_release E c s = Return s' \<and> account E L own cur s' \<and> keeps E s s'
    \<and> the_task s' = None"
proof -
  have l: "live_ok E (Suc own) s t" using assms(2,3) by (rule account_the_task)
  then have z: "own = 0" "wakers s = 0" "handles s = 0" "cur = None"
    "\<not> dpc_queued (x_dpc E) (th_dpc t)"
    using assms(4,5) by (auto simp: live_ok_def split: if_splits)
  have cur: "\<forall>i. CURRENT_TASKS s i = null" and p: "task_ptr s \<noteq> null" and r: "resources_ok E L s"
    using assms(2) z(4) by (auto simp: account_def)
  have sub: "refcount_sub (x_build E) (th_ref_count t) = Return (0, 0)"
    using refcount.sub_counts [of "th_ref_count t" "x_build E"] assms(4)
    by (metis diff_self_eq_0 unat_eq_zero_iff zero_less_one)
  let ?t = "t\<lparr>th_ref_count := 0\<rparr>"
  have res0: "resources_ok E L (put_task ?t s)" using r assms(3) by (simp add: resources_ok_def)
  show ?thesis
  proof (cases "th_completed t = 0")
    case True
    then obtain f where f: "task_future t = Holding f" "drops s = 0" "frees s = 0"
      using l by (cases "task_future t") (auto simp: live_ok_def)
    let ?s0 = "put_task (?t\<lparr>th_completed := 1, task_future := Emptied\<rparr>) s\<lparr>drops := drops s + 1\<rparr>"
    obtain w where w: "run_orphaned c (x_drop E f (future_world s)) ?s0 = Return (w, ?s0)"
      "w \<in> set_activity (x_drop E f (future_world s))"
      using run_orphaned_idle [of ?s0 "x_drop E f (future_world s)" c] cur z by auto
    let ?s = "?s0\<lparr>future_world := w\<rparr>"
    have d1: "destroy_shim (run_orphaned c) E DropFuture
        (put_task (?t\<lparr>th_completed := 1\<rparr>) (put_task ?t s)) = Return ?s"
      using w(1) f by (simp add: destroy_shim_def put_task_def with_task_def)
    have res1: "resources_ok E L ?s" using r assms(3) by (simp add: resources_ok_def)
    obtain s' where d2: "destroy_shim (run_orphaned c) E DeallocTask ?s = Return s'"
      "account E L 0 None (complete_tracker E (th_tracker t) s')"
      "keeps E ?s (complete_tracker E (th_tracker t) s')"
      "the_task (complete_tracker E (th_tracker t) s') = None"
      using dealloc_and_complete [OF assms(1) res1, of "?t\<lparr>th_completed := 1, task_future := Emptied\<rparr>"
          "run_orphaned c"] cur p z f by auto
    have h: "honours E s (complete_tracker E (th_tracker t) s')"
    proof (rule honours_gone [OF d2(4)])
      fix J assume J: "future_contract E J" "J (held E s) (future_world s)"
      have "J Gone w"
        using J w(2) f(1) z(5) assms(3) by (auto simp: future_contract_def held_def)
      moreover have "honours E ?s (complete_tracker E (th_tracker t) s')"
        using d2(3) by (simp add: keeps_def)
      ultimately show "J Gone (future_world (complete_tracker E (th_tracker t) s'))"
        using honoursD [OF _ J(1), of ?s "complete_tracker E (th_tracker t) s'"] d2(4)
        by (simp add: held_def put_task_def)
    qed
    show ?thesis
      using True d1 sub assms(3) z d2 h
      by (auto simp: th_release_def with_task_Some Let_def keeps_def)
  next
    case False
    then have "drops s = 1" "frees s = 0" "task_future t = Emptied" using l by (auto simp: live_ok_def)
    then obtain s' where d2: "destroy_shim (run_orphaned c) E DeallocTask (put_task ?t s) = Return s'"
      "account E L 0 None (complete_tracker E (th_tracker t) s')"
      "keeps E (put_task ?t s) (complete_tracker E (th_tracker t) s')"
      "the_task (complete_tracker E (th_tracker t) s') = None"
      using dealloc_and_complete [OF assms(1), of L "put_task ?t s" ?t "run_orphaned c"]
        res0 cur p z by auto
    moreover have "keeps E s (put_task ?t s)" using assms(3) by (simp add: keeps_def)
    ultimately show ?thesis
      using False sub assms(3) z keeps_trans
      by (auto simp: th_release_def with_task_Some Let_def)
  qed
qed

lemma keeps_put_ref:
  "the_task s = Some t \<Longrightarrow> keeps E s (put_task (t\<lparr>th_ref_count := c\<rparr>) s)"
  by (simp add: keeps_def)

lemma sched_put_ref:
  "the_task s = Some t \<Longrightarrow> sched_ok E s \<Longrightarrow> sched_ok E (put_task (t\<lparr>th_ref_count := c\<rparr>) s)"
  by (simp add: sched_ok_def)

lemma release_ok:
  assumes "dpc_env_ok E" and "account E L (Suc own) cur s" and "sched_ok E s"
    and "cur \<noteq> None \<longrightarrow> 0 < own"
  obtains s' where "th_release E c s = Return s'" "account E L own cur s'" "sched_ok E s'"
    "keeps E s s'"
proof -
  obtain t where t: "the_task s = Some t" "live_ok E (Suc own) s t"
    using account_live [OF assms(2)] by auto
  show thesis
  proof (cases "1 < unat (th_ref_count t)")
    case True
    obtain c' where "th_release E c s = Return (put_task (t\<lparr>th_ref_count := c'\<rparr>) s)"
      "account E L own cur (put_task (t\<lparr>th_ref_count := c'\<rparr>) s)"
      using release_shared [OF assms(2) t(1) True assms(4), of c] .
    then show ?thesis
      using that keeps_put_ref [OF t(1)] sched_put_ref [OF t(1) assms(3)] by blast
  next
    case False
    then have "unat (th_ref_count t) = 1"
      using t(2) by (auto simp: live_ok_def)
    then show ?thesis
      using release_last [OF assms(1,2) t(1) _ assms(4), of c] that by (auto simp: sched_ok_def)
  qed
qed

section \<open>Scheduling and cancellation\<close>

lemma put_put_task [simp]: "put_task t' (put_task t s) = put_task t' s"
  by (simp add: put_task_def)

lemma queue_dpc_ok:
  assumes "dpc_env_ok E" and "account E L own cur s" and "the_task s = Some t" and "own \<le> 4"
  shows "\<exists>c' q. queue_dpc E c s = Return (put_task (t\<lparr>th_ref_count := c', th_dpc := q\<rparr>) s)
    \<and> account E L own cur (put_task (t\<lparr>th_ref_count := c', th_dpc := q\<rparr>) s)
    \<and> dpc_queued (x_dpc E) q"
proof -
  obtain c1 where c1: "th_add_ref E s = Return (put_task (t\<lparr>th_ref_count := c1\<rparr>) s)"
    "account E L (Suc own) cur (put_task (t\<lparr>th_ref_count := c1\<rparr>) s)"
    "unat c1 = unat (th_ref_count t) + 1"
    using add_ref_ok [OF assms(2-4)] .
  let ?i = "ke_insert_queue_dpc (x_dpc E) (th_dpc t)"
  let ?t = "t\<lparr>th_ref_count := c1, th_dpc := snd ?i\<rparr>"
  have i: "fst ?i = (\<not> dpc_queued (x_dpc E) (th_dpc t))" "dpc_queued (x_dpc E) (snd ?i)"
    using assms(1) by (auto simp: dpc_env_ok_def dpc_contract_def)
  have l: "live_ok E own s t" using assms(2,3) by (rule account_the_task)
  have q: "queue_dpc E c s = (if fst ?i then Return (put_task ?t s) else th_release E c (put_task ?t s))"
    using c1(1) by (simp add: queue_dpc_def Let_def split_beta)
  have cur: "cur \<noteq> None \<longrightarrow> 0 < own" using assms(2) by (simp add: account_def)
  show ?thesis
  proof (cases "fst ?i")
    case True
    have "live_ok E own s ?t" using l c1(3) i True by (auto simp: live_ok_def)
    then have "account E L own cur (put_task ?t s)"
      using assms(2,3) cur by (intro account_put) auto
    then show ?thesis using q True i(2) by auto
  next
    case False
    have "live_ok E (Suc own) s ?t" using l c1(3) i False by (auto simp: live_ok_def)
    then have a: "account E L (Suc own) cur (put_task ?t s)"
      using assms(2,3) by (intro account_put) auto
    have "th_ref_count t \<noteq> 0" using l unfolding live_ok_def by blast
    then have "0 < unat (th_ref_count t)" by (simp add: unat_gt_0)
    then have "1 < unat (th_ref_count ?t)" using c1(3) by simp
    then obtain c' where "th_release E c (put_task ?t s)
        = Return (put_task (?t\<lparr>th_ref_count := c'\<rparr>) (put_task ?t s))"
      "account E L own cur (put_task (?t\<lparr>th_ref_count := c'\<rparr>) (put_task ?t s))"
      using release_shared [OF a _ _ cur, of ?t c] by auto
    moreover have "?t\<lparr>th_ref_count := c'\<rparr> = t\<lparr>th_ref_count := c', th_dpc := snd ?i\<rparr>" by simp
    ultimately show ?thesis using q False i(2) by (metis put_put_task)
  qed
qed

lemma schedule_ok:
  assumes "dpc_env_ok E" and "account E L own cur s" and "the_task s = Some t" and "own \<le> 4"
    and "sched_ok E s"
  obtains s' t' where "th_schedule E c s = Return s'" "account E L own cur s'" "sched_ok E s'"
    "keeps E s s'" "the_task s' = Some t'"
    "th_completed t = 0 \<longrightarrow> dpc_queued (x_dpc E) (th_dpc t') \<and> th_scheduled t' \<noteq> 0"
    "th_cancel_requested t' = th_cancel_requested t"
    "handles s' = handles s" "wakers s' = wakers s"
proof (cases "th_completed t = 0 \<and> th_scheduled t = 0")
  case True
  let ?t = "t\<lparr>th_scheduled := 1\<rparr>"
  have l: "live_ok E own s t" using assms(2,3) by (rule account_the_task)
  then have "account E L own cur (put_task ?t s)"
    using assms(2,3) by (intro account_put) (auto simp: live_ok_def account_def)
  from queue_dpc_ok [OF assms(1) this _ assms(4), of ?t c] obtain c' q where
    "queue_dpc E c (put_task ?t s) = Return (put_task (?t\<lparr>th_ref_count := c', th_dpc := q\<rparr>) s)"
    "account E L own cur (put_task (?t\<lparr>th_ref_count := c', th_dpc := q\<rparr>) s)"
    "dpc_queued (x_dpc E) q"
    by auto
  then show ?thesis
    using True assms(3)
    by (intro that [of "put_task (?t\<lparr>th_ref_count := c', th_dpc := q\<rparr>) s"
          "?t\<lparr>th_ref_count := c', th_dpc := q\<rparr>"]) (auto simp: th_schedule_def with_task_Some sched_ok_def keeps_def)
next
  case False
  then show ?thesis
    using assms(2,3,5)
    by (intro that [of s t]) (auto simp: th_schedule_def with_task_Some sched_ok_def)
qed

lemma schedule_queues:
  assumes "dpc_env_ok E" and "account E L own cur s" and "the_task s = Some t" and "own \<le> 4"
    and "sched_ok E s" and "th_completed t = 0"
  shows "\<exists>s' t'. th_schedule E c s = Return s' \<and> account E L own cur s' \<and> sched_ok E s'
    \<and> keeps E s s' \<and> the_task s' = Some t' \<and> dpc_queued (x_dpc E) (th_dpc t')
    \<and> th_scheduled t' \<noteq> 0 \<and> handles s' = handles s \<and> wakers s' = wakers s"
  by (rule schedule_ok [OF assms(1-5), of c]) (use assms(6) in blast)

lemma cancel_ok:
  assumes "dpc_env_ok E" and "account E L own cur s" and "the_task s = Some t" and "own \<le> 4"
    and "sched_ok E s"
  obtains s' t' where "th_cancel E c s = Return s'" "account E L own cur s'" "sched_ok E s'"
    "keeps E s s'" "the_task s' = Some t'" "th_cancel_requested t' \<noteq> 0"
    "th_cancel_requested t = 0 \<and> th_completed t = 0 \<longrightarrow> dpc_queued (x_dpc E) (th_dpc t')"
    "handles s' = handles s" "wakers s' = wakers s"
proof (cases "th_cancel_requested t = 0")
  case True
  let ?t = "t\<lparr>th_cancel_requested := 1\<rparr>"
  have l: "live_ok E own s t" using assms(2,3) by (rule account_the_task)
  then have a: "account E L own cur (put_task ?t s)"
    using assms(2,3) by (intro account_put) (auto simp: live_ok_def account_def)
  have so: "sched_ok E (put_task ?t s)" using assms(3,5) by (simp add: sched_ok_def)
  have k: "keeps E s (put_task ?t s)" using True assms(3) by (simp add: keeps_def)
  obtain s' t' where s': "th_schedule E c (put_task ?t s) = Return s'" "account E L own cur s'"
    "sched_ok E s'" "keeps E (put_task ?t s) s'" "the_task s' = Some t'"
    "th_completed ?t = 0 \<longrightarrow> dpc_queued (x_dpc E) (th_dpc t') \<and> th_scheduled t' \<noteq> 0"
    "th_cancel_requested t' = th_cancel_requested ?t" "handles s' = handles s" "wakers s' = wakers s"
    using schedule_ok [OF assms(1) a _ assms(4) so, of ?t c] by auto
  then show ?thesis
    using True assms(3) keeps_trans [OF k s'(4)]
    by (intro that [of s' t']) (auto simp: th_cancel_def with_task_Some)
next
  case False
  then show ?thesis
    using assms(2,3,5) by (intro that [of s t]) (auto simp: th_cancel_def with_task_Some)
qed

section \<open>Holders\<close>

lemma account_lend:
  assumes "account E L own cur s"
  shows "0 < wakers s \<Longrightarrow> account E L (Suc own) cur (s\<lparr>wakers := wakers s - 1\<rparr>)"
    and "0 < handles s \<Longrightarrow> account E L (Suc own) cur (s\<lparr>handles := handles s - 1\<rparr>)"
  using assms by (auto simp: account_def resources_ok_def live_ok_def split: option.splits)

lemma current_header_ok:
  assumes "account E L own cur s"
  shows "current_task_header c s = Return None
    \<or> (\<exists>t. the_task s = Some t \<and> current_task_header c s = Return (Some t))"
proof (cases "current_cpu_index (rc_processor c)")
  case (Some i)
  then have "i < MAX_CPU_COUNT"
    by (auto simp: current_cpu_index_def MAX_CPU_COUNT_def MAX_PROC_PER_GROUP_def
        MAX_GROUP_COUNT_def Let_def split: if_splits)
  then show ?thesis
    using Some assms by (auto simp: current_task_header_def account_def with_task_def split: option.splits)
qed (simp add: current_task_header_def)

definition op_ok ::
  "('f, 'w, 'e, 'q) dpc_env \<Rightarrow> ledger \<Rightarrow> nat \<Rightarrow> nat option \<Rightarrow> ('f, 'w, 'e, 'q) executor
    \<Rightarrow> ('r \<times> ('f, 'w, 'e, 'q) executor) outcome \<Rightarrow> bool" where
  "op_ok E L own cur s r \<longleftrightarrow>
     (\<exists>b s'. r = Return (b, s') \<and> account E L own cur s' \<and> sched_ok E s' \<and> keeps E s s')"

lemma keeps_lent:
  "keeps E (s\<lparr>wakers := n\<rparr>) s' \<longleftrightarrow> keeps E s s'" "keeps E (s\<lparr>handles := n\<rparr>) s' \<longleftrightarrow> keeps E s s'"
  "keeps E s (s'\<lparr>wakers := n\<rparr>) \<longleftrightarrow> keeps E s s'"
  by (simp_all add: keeps_def)

lemma sched_lent [simp]:
  "sched_ok E (s\<lparr>wakers := n\<rparr>) \<longleftrightarrow> sched_ok E s" "sched_ok E (s\<lparr>handles := n\<rparr>) \<longleftrightarrow> sched_ok E s"
  by (simp_all add: sched_ok_def)

lemma take_cancellation_ok:
  assumes "account E L own cur s" and "sched_ok E s"
  shows "op_ok E L own cur s (take_cancellation_request c s)"
  using current_header_ok [OF assms(1), of c]
proof (elim disjE exE conjE)
  fix t assume t: "the_task s = Some t" "current_task_header c s = Return (Some t)"
  have "account E L own cur (put_task (t\<lparr>th_cancel_requested := 2\<rparr>) s)"
    using assms(1) t(1) account_the_task [OF assms(1) t(1)]
    by (intro account_put) (auto simp: live_ok_def account_def)
  then show ?thesis
    using t assms by (auto simp: op_ok_def take_cancellation_request_def keeps_def sched_ok_def)
qed (use assms in \<open>auto simp: op_ok_def take_cancellation_request_def\<close>)

text \<open>Giving back a waker or a handle, after an optional wake-up.\<close>

lemma lent_release_ok:
  assumes "dpc_env_ok E" and "account E L (Suc own) cur s" and "sched_ok E s" and "keeps E s0 s"
    and "cur \<noteq> None \<longrightarrow> 0 < own"
  shows "\<exists>s'. th_release E c s = Return s' \<and> account E L own cur s' \<and> sched_ok E s' \<and> keeps E s0 s'"
proof -
  obtain s' where "th_release E c s = Return s'" "account E L own cur s'" "sched_ok E s'"
    "keeps E s s'"
    using release_ok [OF assms(1-3,5)] .
  then show ?thesis using keeps_trans [OF assms(4)] by blast
qed

lemma wake_raw_ok:
  assumes "dpc_env_ok E" and "account E L own cur s" and "sched_ok E s" and "own \<le> 3"
    and "0 < wakers s"
  shows "\<exists>s'. wake_raw E c (task_ptr s) (s\<lparr>wakers := wakers s - 1\<rparr>) = Return s'
    \<and> account E L own cur s' \<and> sched_ok E s' \<and> keeps E s s'
    \<and> (\<forall>t. the_task s = Some t \<longrightarrow> th_completed t = 0 \<longrightarrow>
        (\<exists>t'. the_task s' = Some t' \<and> dpc_queued (x_dpc E) (th_dpc t')))"
proof -
  let ?s = "s\<lparr>wakers := wakers s - 1\<rparr>"
  have a: "account E L (Suc own) cur ?s" using account_lend(1) [OF assms(2,5)] .
  then obtain t where t: "the_task ?s = Some t" using account_live by blast
  obtain s1 t1 where s1: "th_schedule E c ?s = Return s1" "account E L (Suc own) cur s1"
    "sched_ok E s1" "keeps E ?s s1" "the_task s1 = Some t1"
    "th_completed t = 0 \<longrightarrow> dpc_queued (x_dpc E) (th_dpc t1) \<and> th_scheduled t1 \<noteq> 0"
    by (rule schedule_ok [OF assms(1) a t, of c]) (use assms(3,4) in auto)
  have k: "keeps E s s1" using s1(4) by (simp add: keeps_lent)
  have n: "cur \<noteq> None \<longrightarrow> 0 < own" "task_ptr s \<noteq> null" using assms(2) by (simp_all add: account_def)
  obtain s' where s': "th_release E c s1 = Return s'" "account E L own cur s'" "sched_ok E s'"
    "keeps E s1 s'"
    using release_ok [OF assms(1) s1(2,3) n(1), of c] .
  have "\<exists>t'. the_task s' = Some t' \<and> dpc_queued (x_dpc E) (th_dpc t')" if "th_completed t = 0"
    using keeps_queued [OF s'(4) s1(5)] s1(6) that by blast
  then show ?thesis
    using s1(1) s' n(2) t keeps_trans [OF k s'(4)] by (simp add: wake_raw_def)
qed

lemma clone_raw_ok:
  assumes "account E L own cur s" and "sched_ok E s" and "own \<le> 3"
    and "the_task s = Some t" and "wakers s + handles s < 2 ^ 31 - 8"
  shows "op_ok E L own cur s (and_then (clone_raw E (task_ptr s) s)
    (\<lambda>(w, s1). Return (True, s1\<lparr>wakers := wakers s1 + 1\<rparr>)))"
proof -
  obtain c' where c': "th_add_ref E s = Return (put_task (t\<lparr>th_ref_count := c'\<rparr>) s)"
    "account E L (Suc own) cur (put_task (t\<lparr>th_ref_count := c'\<rparr>) s)"
    using add_ref_ok [OF assms(1,4)] assms(3) by auto
  have "account E L own cur (put_task (t\<lparr>th_ref_count := c'\<rparr>) s\<lparr>wakers := wakers s + 1\<rparr>)"
    using c'(2) assms(1,5) by (auto simp: account_def resources_ok_def live_ok_def)
  then show ?thesis
    using c'(1) assms(1,2,4)
    by (auto simp: op_ok_def clone_raw_def raw_waker_def account_def keeps_lent sched_put_ref
        keeps_put_ref)
qed

lemma run_op_ok:
  assumes "dpc_env_ok E" and "account E L own cur s" and "sched_ok E s" and "own \<le> 3"
    and "rc_polling c \<longrightarrow> 0 < own"
  shows "op_ok E L own cur s (run_op E c p s)"
proof (cases "permitted c p s")
  case False
  then show ?thesis using assms(2,3) by (auto simp: op_ok_def run_op_def)
next
  case True
  have p0: "task_ptr s \<noteq> null" and cur: "cur \<noteq> None \<longrightarrow> 0 < own"
    using assms(2) by (simp_all add: account_def)
  have live: "\<exists>t. the_task s = Some t" if "p \<noteq> AskCancelled" "p \<noteq> TakeCancelled"
  proof -
    have "0 < own \<or> 0 < wakers s \<or> 0 < handles s"
      using True assms(5) that by (cases p) (auto simp: permitted_def)
    then show ?thesis using account_live [OF assms(2)] by blast
  qed
  show ?thesis
  proof (cases p)
    case CloneWaker
    then show ?thesis
      using True live clone_raw_ok [OF assms(2-4)] by (auto simp: run_op_def permitted_def)
  next
    case DropWaker
    then have w: "0 < wakers s" using True by (simp add: permitted_def)
    have "keeps E s (s\<lparr>wakers := wakers s - 1\<rparr>)" by (simp add: keeps_lent)
    then show ?thesis
      using lent_release_ok [OF assms(1) account_lend(1) [OF assms(2) w] _ _ cur, of s c]
        assms(3) True DropWaker p0
      by (auto simp: run_op_def drop_raw_def op_ok_def)
  next
    case WakeWaker
    then show ?thesis
      using wake_raw_ok [OF assms(1-4), of c] True by (auto simp: run_op_def permitted_def op_ok_def)
  next
    case WakeByRef
    then obtain t where t: "the_task s = Some t" using live by auto
    obtain s' where "th_schedule E c s = Return s'" "account E L own cur s'" "sched_ok E s'"
      "keeps E s s'"
      using schedule_ok [OF assms(1,2) t _ assms(3), of c] assms(4) by auto
    then show ?thesis
      using True WakeByRef p0 by (auto simp: run_op_def wake_by_ref_raw_def op_ok_def)
  next
    case CancelTask
    then obtain t where t: "the_task s = Some t" using live by auto
    obtain s' where "th_cancel E c s = Return s'" "account E L own cur s'" "sched_ok E s'"
      "keeps E s s'"
      using cancel_ok [OF assms(1,2) t _ assms(3), of c] assms(4) by auto
    then show ?thesis
      using True CancelTask p0 by (auto simp: run_op_def handle_cancel_def op_ok_def)
  next
    case AskHandle
    then obtain t where "the_task s = Some t" using live by auto
    then show ?thesis
      using AskHandle True assms(2,3) p0
      by (auto simp: run_op_def handle_is_cancelled_def op_ok_def with_task_Some)
  next
    case CloneHandle
    then show ?thesis using True by (simp add: permitted_def)
  next
    case DropHandle
    then have w: "0 < handles s" using True by (simp add: permitted_def)
    have "keeps E s (s\<lparr>handles := handles s - 1\<rparr>)" by (simp add: keeps_def)
    then show ?thesis
      using lent_release_ok [OF assms(1) account_lend(2) [OF assms(2) w] _ _ cur, of s c]
        assms(3) True DropHandle p0
      by (auto simp: run_op_def cancel_handle_drop_def op_ok_def Let_def)
  next
    case AskCancelled
    then show ?thesis
      using current_header_ok [OF assms(2), of c] assms(2,3) True
      by (auto simp: run_op_def is_cancellation_requested_def op_ok_def)
  next
    case TakeCancelled
    then show ?thesis
      using take_cancellation_ok [OF assms(2,3), of c] True by (simp add: run_op_def)
  qed
qed

lemma run_activity_ok:
  assumes "dpc_env_ok E" and "account E L own cur s" and "sched_ok E s" and "own \<le> 3"
    and "rc_polling c \<longrightarrow> 0 < own"
  shows "\<exists>r s'. run_activity E c a s = Return (r, s') \<and> r \<in> set_activity a
    \<and> account E L own cur s' \<and> sched_ok E s' \<and> keeps E s s'"
  using assms(2,3)
proof (induction a arbitrary: s)
  case (Act p k)
  obtain b s1 where s1: "run_op E c p s = Return (b, s1)" "account E L own cur s1" "sched_ok E s1"
    "keeps E s s1"
    using run_op_ok [OF assms(1) Act.prems assms(4,5), of p] by (auto simp: op_ok_def)
  obtain r s2 where "run_activity E c (k b) s1 = Return (r, s2)" "r \<in> set_activity (k b)"
    "account E L own cur s2" "sched_ok E s2" "keeps E s1 s2"
    using Act.IH [OF _ s1(2,3), of "k b"] by auto
  then show ?case using s1(1) keeps_trans [OF s1(4)] by auto
qed simp

end
