(* ===== verification/Dpc_Runs.thy ===== *)
theory Dpc_Runs
  imports Dpc_Safety
begin

text \<open>
  The runs of the DPC routine: each turn of its loop keeps the account of \<open>Dpc_Safety\<close>, the loop
  ends under both kinds of budget, and a run gives back the references it took.
\<close>

section \<open>Progress of a run\<close>

definition advances ::
  "('f, 'w, 'e, 'q) dpc_env \<Rightarrow> ('f, 'w, 'e, 'q) executor \<Rightarrow> ('f, 'w, 'e, 'q) executor \<Rightarrow> bool" where
  "advances E s s' \<longleftrightarrow>
     polls s \<le> polls s' \<and> task_ptr s' = task_ptr s
     \<and> TASK_BUDGET_MODE s' = TASK_BUDGET_MODE s \<and> TASK_BUDGET_POLLS s' = TASK_BUDGET_POLLS s
     \<and> (\<forall>t'. the_task s' = Some t' \<longrightarrow> (\<exists>t. the_task s = Some t
          \<and> (dpc_queued (x_dpc E) (th_dpc t) \<longrightarrow> dpc_queued (x_dpc E) (th_dpc t'))
          \<and> th_cancel_requested t \<le> th_cancel_requested t'))"

lemma keeps_advances: "keeps E s s' \<Longrightarrow> advances E s s'"
  unfolding keeps_def advances_def by fastforce

lemma advances_refl [simp]: "advances E s s"
  by (simp add: advances_def)

lemma advances_trans [trans]:
  assumes "advances E s s1" and "advances E s1 s2"
  shows "advances E s s2"
proof -
  have "\<exists>t. the_task s = Some t
      \<and> (dpc_queued (x_dpc E) (th_dpc t) \<longrightarrow> dpc_queued (x_dpc E) (th_dpc t''))
      \<and> th_cancel_requested t \<le> th_cancel_requested t''" if t'': "the_task s2 = Some t''" for t''
  proof -
    obtain t' where t': "the_task s1 = Some t'"
      "dpc_queued (x_dpc E) (th_dpc t') \<longrightarrow> dpc_queued (x_dpc E) (th_dpc t'')"
      "th_cancel_requested t' \<le> th_cancel_requested t''"
      using assms(2) t'' unfolding advances_def by blast
    obtain t where "the_task s = Some t"
      "dpc_queued (x_dpc E) (th_dpc t) \<longrightarrow> dpc_queued (x_dpc E) (th_dpc t')"
      "th_cancel_requested t \<le> th_cancel_requested t'"
      using assms(1) t'(1) unfolding advances_def by blast
    then show ?thesis using t'(2-) by auto
  qed
  then show ?thesis using assms unfolding advances_def by simp
qed

text \<open>
  A run polls the future first, so for a contract of the future it may start as if the future were
  still in the queue.
\<close>

primrec to_poll :: "'f future_state \<Rightarrow> 'f future_state" where
  "to_poll (Queued f) = Queued f"
| "to_poll (Idle f) = Queued f"
| "to_poll (Finished f) = Finished f"
| "to_poll Gone = Gone"

definition serves ::
  "('f, 'w, 'e, 'q) dpc_env \<Rightarrow> ('f, 'w, 'e, 'q) executor \<Rightarrow> ('f, 'w, 'e, 'q) executor \<Rightarrow> bool" where
  "serves E s s' \<longleftrightarrow> (\<forall>J. future_contract E J \<longrightarrow> J (to_poll (held E s)) (future_world s)
     \<longrightarrow> J (held E s') (future_world s'))"

lemma servesD:
  "serves E s s' \<Longrightarrow> future_contract E J \<Longrightarrow> J (to_poll (held E s)) (future_world s)
    \<Longrightarrow> J (held E s') (future_world s')"
  unfolding serves_def by blast

lemma contract_due: "future_contract E J \<Longrightarrow> J x w \<Longrightarrow> J (to_poll x) w"
  by (cases x) (auto simp: future_contract_def)

lemma servesI:
  "(\<And>J. future_contract E J \<Longrightarrow> J (to_poll (held E s)) (future_world s) \<Longrightarrow> J (held E s') (future_world s'))
    \<Longrightarrow> serves E s s'"
  unfolding serves_def by blast

lemma serves_trans: "serves E s s1 \<Longrightarrow> serves E s1 s2 \<Longrightarrow> serves E s s2"
  by (rule servesI) (rule servesD [where s = s1 and s' = s2], assumption+, rule contract_due, assumption,
      rule servesD [where s = s and s' = s1], assumption+)

lemma serves_honours: "serves E s s1 \<Longrightarrow> honours E s1 s2 \<Longrightarrow> serves E s s2"
  by (rule servesI) (rule honoursD [where s = s1 and s' = s2], assumption+,
      rule servesD [where s = s and s' = s1], assumption+)

lemma serves_due:
  "to_poll (held E s1) = to_poll (held E s) \<Longrightarrow> future_world s1 = future_world s \<Longrightarrow> serves E s1 s2
    \<Longrightarrow> serves E s s2"
  unfolding serves_def by simp

lemma due_put [simp]:
  "the_task s = Some t \<Longrightarrow> task_future t' = task_future t
    \<Longrightarrow> to_poll (held E (put_task t' s)) = to_poll (held E s)"
  by (cases "task_future t") (auto simp: held_def)

lemma keeps_due:
  assumes "keeps E s s'" and "the_task s' \<noteq> None"
  shows "to_poll (held E s') = to_poll (held E s)" and "future_world s' = future_world s"
proof -
  obtain t t' where "the_task s = Some t" "the_task s' = Some t'" "task_future t' = task_future t"
    using assms unfolding keeps_def by blast
  then show "to_poll (held E s') = to_poll (held E s)" by (cases "task_future t") (auto simp: held_def)
  show "future_world s' = future_world s" using assms by (simp add: keeps_def honours_def)
qed

text \<open>Changes that the account does not see.\<close>

lemma account_counts [simp]:
  "account E L own cur (s\<lparr>polls := n\<rparr>) \<longleftrightarrow> account E L own cur s"
  "account E L own cur (s\<lparr>queries := n\<rparr>) \<longleftrightarrow> account E L own cur s"
  "sched_ok E (s\<lparr>polls := n\<rparr>) \<longleftrightarrow> sched_ok E s" "sched_ok E (s\<lparr>queries := n\<rparr>) \<longleftrightarrow> sched_ok E s"
  "sched_ok E (s\<lparr>CURRENT_TASKS := g\<rparr>) \<longleftrightarrow> sched_ok E s"
  "account E L own cur (s\<lparr>future_world := w\<rparr>) \<longleftrightarrow> account E L own cur s"
  "sched_ok E (s\<lparr>future_world := w\<rparr>) \<longleftrightarrow> sched_ok E s"
  by (cases "the_task s"; simp add: account_def resources_ok_def live_ok_def sched_ok_def)+

lemma account_set_current:
  assumes "account E L own cur s" and "cur' \<noteq> None \<longrightarrow> 0 < own"
    and "\<forall>i. g i = (if cur' = Some i then task_ptr s else null)"
  shows "account E L own cur' (s\<lparr>CURRENT_TASKS := g\<rparr>)"
  using assms by (cases "the_task s") (simp_all add: account_def resources_ok_def live_ok_def)

lemma account_own_pos: "account E L (Suc own) cur s \<Longrightarrow> \<exists>t. the_task s = Some t"
  using account_live by blast

lemma current_cpu_bound: "current_cpu_index processor = Some i \<Longrightarrow> i < MAX_CPU_COUNT"
  by (auto simp: current_cpu_index_def MAX_CPU_COUNT_def MAX_PROC_PER_GROUP_def
      MAX_GROUP_COUNT_def Let_def split: if_splits)

lemma clear_current_ok:
  assumes "account E L own cpu s" and "sched_ok E s" and "\<forall>i. cpu = Some i \<longrightarrow> i < MAX_CPU_COUNT"
  shows "\<exists>s'. clear_current cpu s = Return s' \<and> account E L own None s' \<and> sched_ok E s'
    \<and> keeps E s s'"
proof (cases cpu)
  case None
  then show ?thesis using assms by (simp add: clear_current_def)
next
  case (Some i)
  have "account E L own None (s\<lparr>CURRENT_TASKS := (CURRENT_TASKS s)(i := null)\<rparr>)"
    using assms(1) Some by (intro account_set_current [OF assms(1)]) (auto simp: account_def)
  then show ?thesis
    using assms(2,3) Some by (simp add: clear_current_def clear_current_task_def keeps_def)
qed

lemma release_advances:
  assumes "dpc_env_ok E" and "account E L (Suc own) None s" and "sched_ok E s"
  shows "\<exists>s'. th_release E c s = Return s' \<and> account E L own None s' \<and> sched_ok E s' \<and> keeps E s s'"
  using release_ok [OF assms, of c] by blast

section \<open>One turn\<close>

lemma poll_shim_ok:
  assumes "dpc_env_ok E" and "account E L 2 cpu s" and "sched_ok E s"
    and "the_task s = Some t" and "th_completed t = 0"
  shows "\<exists>r s' t'. poll_shim E c s = Return (r, s') \<and> account E L 2 cpu s' \<and> sched_ok E s'
    \<and> advances E s s' \<and> polls s' = Suc (polls s) \<and> queries s' = queries s
    \<and> the_task s' = Some t' \<and> th_completed t' = 0
    \<and> (\<exists>f'. task_future t' = Holding f' \<and> (\<forall>J. future_contract E J \<longrightarrow>
        J (to_poll (held E s)) (future_world s) \<longrightarrow>
        J (if r = Pending then Idle f' else Finished f') (future_world s')))"
proof -
  obtain f where f: "task_future t = Holding f"
    using account_the_task [OF assms(2,4)] assms(5)
    by (cases "task_future t") (auto simp: live_ok_def)
  let ?s = "s\<lparr>polls := polls s + 1\<rparr>" and ?c = "c\<lparr>rc_polling := True\<rparr>"
  let ?a = "x_poll E f (future_world s)"
  obtain r f' w s1 where s1: "run_activity E ?c ?a ?s = Return ((r, f', w), s1)"
    "account E L 2 cpu s1" "sched_ok E s1" "keeps E ?s s1" "(r, f', w) \<in> set_activity ?a"
    using run_activity_ok [OF assms(1), of L 2 cpu ?s ?c ?a] assms by auto
  obtain t1 where t1: "the_task s1 = Some t1"
    using account_own_pos [of E L 1 cpu s1] s1(2) by (auto simp: numeral_2_eq_2)
  have c1: "th_completed t1 = 0" using s1(4) t1 assms(4,5) by (auto simp: keeps_def)
  let ?s2 = "put_task (t1\<lparr>task_future := Holding f'\<rparr>) (s1\<lparr>future_world := w\<rparr>)"
  have "account E L 2 cpu ?s2"
    using s1(2) t1 c1 account_the_task [OF s1(2) t1]
    by (intro account_put) (auto simp: live_ok_def)
  moreover have "advances E s ?s2" "polls ?s2 = Suc (polls s)" "queries ?s2 = queries s"
    using s1(4) t1 assms(4) by (auto simp: keeps_def advances_def)
  moreover have "sched_ok E ?s2" using s1(3) t1 by (simp add: sched_ok_def)
  moreover have "to_poll (held E s) = Queued f" using f assms(4) by (simp add: held_def)
  ultimately show ?thesis
    using f s1(1,5) t1 c1 assms(4) by (auto simp: poll_shim_def with_task_Some future_contract_def)
qed

text \<open>What a turn leaves: the references of the running routine, and the budget that remains.\<close>

definition turn_ok ::
  "('f, 'w, 'e, 'q) dpc_env \<Rightarrow> ledger \<Rightarrow> nat option \<Rightarrow> u32 \<Rightarrow> u32 \<Rightarrow> u32 \<Rightarrow> turn
    \<Rightarrow> ('f, 'w, 'e, 'q) executor \<Rightarrow> bool" where
  "turn_ok E L cpu budget_mode poll_budget checks tn s' \<longleftrightarrow>
     sched_ok E s'
     \<and> (case tn of
          Returned \<Rightarrow> account E L 1 None s'
        | Broke \<Rightarrow> account E L 2 cpu s'
        | Again pb ck \<Rightarrow> account E L 2 cpu s'
            \<and> (\<exists>t. the_task s' = Some t \<and> th_completed t = 0)
            \<and> (budget_mode = TASK_BUDGET_MODE_POLLS \<longrightarrow> poll_budget \<noteq> 0 \<and> pb = poll_budget - 1)
            \<and> (budget_mode \<noteq> TASK_BUDGET_MODE_POLLS \<longrightarrow> ck = checks + 1))"

lemma turn_ready_ok:
  assumes "dpc_env_ok E" and "account E L 2 cpu s" and "sched_ok E s"
    and "the_task s = Some t" and "th_completed t = 0"
    and "\<forall>i. cpu = Some i \<longrightarrow> i < MAX_CPU_COUNT" and "\<not> rc_polling c"
  shows "\<exists>s'. and_then (destroy_shim (run_activity E c) E DropFuture
        (put_task (t\<lparr>th_completed := 1\<rparr>) s)) (\<lambda>s3.
      and_then (clear_current cpu s3) (\<lambda>s4. th_release E c s4)) = Return s'
    \<and> account E L 1 None s' \<and> sched_ok E s' \<and> advances E s s' \<and> polls s' = polls s
    \<and> (\<forall>J f. future_contract E J \<longrightarrow> task_future t = Holding f \<longrightarrow> J (Finished f) (future_world s)
        \<longrightarrow> J (held E s') (future_world s'))"
proof -
  obtain f where f: "task_future t = Holding f" "drops s = 0"
    using account_the_task [OF assms(2,4)] assms(5)
    by (cases "task_future t") (auto simp: live_ok_def)
  let ?t = "t\<lparr>th_completed := 1, task_future := Emptied\<rparr>"
  let ?s = "put_task ?t s\<lparr>drops := drops s + 1\<rparr>"
  have "account E L 2 cpu ?s"
    using assms(2,4,5) f by (auto simp: account_def resources_ok_def live_ok_def)
  moreover have "sched_ok E ?s" using assms(3,4) by (simp add: sched_ok_def)
  ultimately obtain w s2 where s2: "run_activity E c (x_drop E f (future_world s)) ?s = Return (w, s2)"
    "w \<in> set_activity (x_drop E f (future_world s))"
    "account E L 2 cpu s2" "sched_ok E s2" "keeps E ?s s2"
    using run_activity_ok [OF assms(1), of L 2 cpu ?s c "x_drop E f (future_world s)"] assms(7) by auto
  let ?s3 = "s2\<lparr>future_world := w\<rparr>"
  have s3: "account E L 2 cpu ?s3" "sched_ok E ?s3" using s2(3,4) by simp_all
  obtain s4 where s4: "clear_current cpu ?s3 = Return s4" "account E L 2 None s4" "sched_ok E s4"
    "keeps E ?s3 s4"
    using clear_current_ok [OF s3 assms(6)] by blast
  obtain s5 where s5: "th_release E c s4 = Return s5" "account E L 1 None s5" "sched_ok E s5"
    "keeps E s4 s5"
    using release_advances [OF assms(1) _ s4(3), of L 1 c] s4(2) by (auto simp: numeral_2_eq_2)
  have k: "keeps E ?s3 s5" using keeps_trans [OF s4(4) s5(4)] .
  have "advances E s ?s" "advances E s2 ?s3" using assms(4) by (simp_all add: advances_def)
  then have "advances E s s5"
    using keeps_advances [OF k] keeps_advances [OF s2(5)] advances_trans by blast
  moreover have "polls s5 = polls s" using k s2(5) by (simp add: keeps_def)
  moreover have "destroy_shim (run_activity E c) E DropFuture (put_task (t\<lparr>th_completed := 1\<rparr>) s)
      = Return ?s3"
    using s2(1) f by (simp add: destroy_shim_def put_task_def with_task_def)
  moreover have "held E ?s3 = Gone"
    using s2(5) by (auto simp: keeps_def held_def split: option.splits)
  then have "J (held E s5) (future_world s5)" if "future_contract E J" "J (Finished f) (future_world s)" for J
    using honoursD [of E ?s3 s5 J] k s2(2) that by (auto simp: keeps_def future_contract_def)
  ultimately show ?thesis using s4(1) s5 f(1) by auto
qed

lemma budget_check_ok:
  assumes "budget_check E budget_mode clk poll_budget checks s = ((ex, pb, ck), s')"
  shows "s' = s\<lparr>queries := queries s'\<rparr>"
    and "budget_mode = TASK_BUDGET_MODE_POLLS \<Longrightarrow> \<not> ex \<Longrightarrow> poll_budget \<noteq> 0 \<and> pb = poll_budget - 1"
    and "budget_mode \<noteq> TASK_BUDGET_MODE_POLLS \<Longrightarrow> ck = checks + 1"
  using assms by (auto simp: budget_check_def query_counter_def Let_def split: if_splits)

text \<open>The rest of a turn whose poll left the future pending.\<close>

lemma turn_pending_ok:
  assumes "dpc_env_ok E" and "account E L 2 cpu s1" and "sched_ok E s1" and t1: "the_task s1 = Some t1"
    and "th_completed t1 = 0" and p: "poll_shim E c s = Return (Pending, s1)"
  shows "\<exists>tn s'. dpc_turn E c cpu budget_mode clk poll_budget checks s = Return (tn, s')
    \<and> turn_ok E L cpu budget_mode poll_budget checks tn s' \<and> advances E s1 s'
    \<and> polls s' = polls s1 \<and> honours E s1 s'"
proof -
  obtain ex pb ck s2 where b: "budget_check E budget_mode clk poll_budget checks s1
      = ((ex, pb, ck), s2)" by (metis surj_pair)
  have q: "s2 = s1\<lparr>queries := queries s2\<rparr>" using budget_check_ok(1) [OF b] .
  have a2: "account E L 2 cpu s2" "sched_ok E s2" "the_task s2 = Some t1" "polls s2 = polls s1"
    "future_world s2 = future_world s1" "advances E s1 s2"
    using assms(2,3) t1 by (subst q; simp add: advances_def)+
  consider "th_scheduled t1 = 0" | "th_scheduled t1 \<noteq> 0" "ex" | "th_scheduled t1 \<noteq> 0" "\<not> ex" by blast
  then show ?thesis
  proof cases
    case 1
    then show ?thesis using p assms(2,3) t1 by (simp add: dpc_turn_def with_task_Some turn_ok_def)
  next
    case 2
    obtain c' q where q: "queue_dpc E c s2 = Return (put_task (t1\<lparr>th_ref_count := c', th_dpc := q\<rparr>) s2)"
      "account E L 2 cpu (put_task (t1\<lparr>th_ref_count := c', th_dpc := q\<rparr>) s2)" "dpc_queued (x_dpc E) q"
      using queue_dpc_ok [OF assms(1) a2(1,3), of c] by auto
    let ?t = "t1\<lparr>th_ref_count := c', th_dpc := q\<rparr>"
    have "honours E s1 (put_task ?t s2)" using t1 q(3) a2(5) by (intro honours_step [of s1 t1 _ ?t]) simp_all
    moreover have "advances E s1 (put_task ?t s2)"
      by (rule advances_trans [OF a2(6)]) (use q(3) a2(3) in \<open>simp add: advances_def\<close>)
    ultimately show ?thesis
      using p t1 b 2 a2 q by (simp add: dpc_turn_def with_task_Some turn_ok_def sched_ok_def)
  next
    case 3
    let ?t = "t1\<lparr>th_scheduled := 0\<rparr>"
    have "account E L 2 cpu (put_task ?t s2)"
      using a2(1,3) account_the_task [OF a2(1,3)] by (intro account_put) (auto simp: live_ok_def)
    moreover have "honours E s1 (put_task ?t s2)" using t1 a2(5) by (intro honours_step [of s1 t1 _ ?t]) simp_all
    moreover have "advances E s1 (put_task ?t s2)"
      by (rule advances_trans [OF a2(6)]) (use a2(3) in \<open>simp add: advances_def\<close>)
    ultimately show ?thesis
      using p t1 b 3 a2 assms(5) budget_check_ok(2,3) [OF b]
      by (simp add: dpc_turn_def with_task_Some turn_ok_def sched_ok_def)
  qed
qed

lemma dpc_turn_ok:
  assumes "dpc_env_ok E" and "account E L 2 cpu s" and "sched_ok E s"
    and "the_task s = Some t" and "th_completed t = 0"
    and "\<forall>i. cpu = Some i \<longrightarrow> i < MAX_CPU_COUNT" and "\<not> rc_polling c"
  shows "\<exists>tn s'. dpc_turn E c cpu budget_mode clk poll_budget checks s = Return (tn, s')
    \<and> turn_ok E L cpu budget_mode poll_budget checks tn s' \<and> advances E s s'
    \<and> polls s' = Suc (polls s) \<and> serves E s s'"
proof -
  obtain r s1 t1 f1 where s1: "poll_shim E c s = Return (r, s1)" "account E L 2 cpu s1" "sched_ok E s1"
    "advances E s s1" "polls s1 = Suc (polls s)" "the_task s1 = Some t1" "th_completed t1 = 0"
    and f1: "task_future t1 = Holding f1"
    and J1: "\<And>J. future_contract E J \<Longrightarrow> J (to_poll (held E s)) (future_world s) \<Longrightarrow>
      J (if r = Pending then Idle f1 else Finished f1) (future_world s1)"
    using poll_shim_ok [OF assms(1-5), of c] by blast
  show ?thesis
  proof (cases r)
    case (Ready status)
    obtain s' where s': "and_then (destroy_shim (run_activity E c) E DropFuture
        (put_task (t1\<lparr>th_completed := 1\<rparr>) s1)) (\<lambda>s3.
      and_then (clear_current cpu s3) (\<lambda>s4. th_release E c s4)) = Return s'"
      "account E L 1 None s'" "sched_ok E s'" "advances E s1 s'" "polls s' = polls s1"
      and J': "\<And>J. future_contract E J \<Longrightarrow> J (Finished f1) (future_world s1) \<Longrightarrow> J (held E s') (future_world s')"
      using turn_ready_ok [OF assms(1) s1(2,3,6,7) assms(6,7)] f1 by blast
    have sv: "serves E s s'" unfolding serves_def using J1 J' Ready by auto
    from s' have "dpc_turn E c cpu budget_mode clk poll_budget checks s = Return (Returned, s')"
      using s1(1,6) Ready by (auto simp: dpc_turn_def with_task_Some outcome_simps)
    then show ?thesis
      using s' s1(4,5) advances_trans sv by (auto simp: turn_ok_def)
  next
    case Pending
    have sv: "serves E s s1"
    proof (rule servesI)
      fix J assume J: "future_contract E J" "J (to_poll (held E s)) (future_world s)"
      have "J (Idle f1) (future_world s1)" using J1 [OF J] Pending by simp
      moreover from this have "J (Queued f1) (future_world s1)" using J(1) by (auto simp: future_contract_def)
      ultimately show "J (held E s1) (future_world s1)" using s1(6) f1 by (simp add: held_def)
    qed
    have p: "poll_shim E c s = Return (Pending, s1)" using s1(1) Pending by simp
    from turn_pending_ok [OF assms(1) s1(2,3,6,7) p] obtain tn s' where
      "dpc_turn E c cpu budget_mode clk poll_budget checks s = Return (tn, s')"
      "turn_ok E L cpu budget_mode poll_budget checks tn s'" "advances E s1 s'" "polls s' = polls s1" "honours E s1 s'"
      by blast
    then show ?thesis using s1(5) advances_trans [OF s1(4)] serves_honours [OF sv] by auto
  qed
qed

text \<open>The performance counter is read every eighth turn of a run with a time budget.\<close>

lemma dpc_turn_again_time:
  assumes "dpc_env_ok E" and "account E L 2 cpu s" and "sched_ok E s"
    and "the_task s = Some t" and "th_completed t = 0"
    and "budget_mode \<noteq> TASK_BUDGET_MODE_POLLS"
    and "dpc_turn E c cpu budget_mode clk poll_budget checks s = Return (Again pb ck, s')"
  shows "if (checks + 1) mod 8 = 0
    then queries s' = queries s + 1 \<and> \<not> fst clk \<le> x_counter E (queries s) - snd clk
    else queries s' = queries s"
proof -
  obtain r s1 t1 where s1: "poll_shim E c s = Return (r, s1)" "queries s1 = queries s"
    "the_task s1 = Some t1"
    using poll_shim_ok [OF assms(1-5), of c] by blast
  have r: "r = Pending"
  proof (cases r)
    case (Ready st)
    then show ?thesis
      using assms(7) s1 by (auto simp: dpc_turn_def with_task_Some outcome_simps)
  qed simp
  show ?thesis
  proof (cases "(checks + 1) mod 8 = 0")
    case True
    then show ?thesis
      using assms(6,7) s1 r
      by (auto simp: dpc_turn_def with_task_Some budget_check_def query_counter_def Let_def
          TASK_BUDGET_TIME_CHECK_INTERVAL_def outcome_simps split: if_splits)
  next
    case False
    then show ?thesis
      using assms(6,7) s1 r
      by (auto simp: dpc_turn_def with_task_Some budget_check_def query_counter_def Let_def
          TASK_BUDGET_TIME_CHECK_INTERVAL_def split: if_splits)
  qed
qed

section \<open>The loop\<close>

lemma dpc_loop_ok:
  assumes "dpc_env_ok E" and "\<forall>i. cpu = Some i \<longrightarrow> i < MAX_CPU_COUNT" and "\<not> rc_polling c"
    and "account E L 2 cpu s" and "sched_ok E s" and "the_task s = Some t" and "th_completed t = 0"
    and "dpc_loop n E c cpu budget_mode clk poll_budget checks s = Some r"
  shows "\<exists>tn s'. r = Return (tn, s')
    \<and> (tn = Returned \<and> account E L 1 None s' \<or> tn = Broke \<and> account E L 2 cpu s')
    \<and> sched_ok E s' \<and> advances E s s' \<and> polls s < polls s' \<and> serves E s s'
    \<and> (budget_mode = TASK_BUDGET_MODE_POLLS \<longrightarrow> polls s' \<le> polls s + unat poll_budget + 1)"
  using assms(4-)
proof (induction n arbitrary: s t poll_budget checks)
  case (Suc n)
  obtain tn s1 where s1: "dpc_turn E c cpu budget_mode clk poll_budget checks s = Return (tn, s1)"
    "turn_ok E L cpu budget_mode poll_budget checks tn s1" "advances E s s1" "polls s1 = Suc (polls s)"
    "serves E s s1"
    using dpc_turn_ok [OF assms(1) Suc.prems(1-4) assms(2,3)] by blast
  show ?case
  proof (cases tn)
    case (Again pb ck)
    then obtain t1 where t1: "account E L 2 cpu s1" "sched_ok E s1" "the_task s1 = Some t1"
      "th_completed t1 = 0"
      "budget_mode = TASK_BUDGET_MODE_POLLS \<longrightarrow> poll_budget \<noteq> 0 \<and> pb = poll_budget - 1"
      using s1(2) by (auto simp: turn_ok_def)
    have "dpc_loop n E c cpu budget_mode clk pb ck s1 = Some r"
      using Suc.prems(5) s1(1) Again by simp
    from Suc.IH [OF t1(1-4) this] obtain tn' s' where s': "r = Return (tn', s')"
      "tn' = Returned \<and> account E L 1 None s' \<or> tn' = Broke \<and> account E L 2 cpu s'"
      "sched_ok E s'" "advances E s1 s'" "polls s1 < polls s'" "serves E s1 s'"
      "budget_mode = TASK_BUDGET_MODE_POLLS \<longrightarrow> polls s' \<le> polls s1 + unat pb + 1"
      by blast
    have "budget_mode = TASK_BUDGET_MODE_POLLS \<longrightarrow> Suc (unat pb) = unat poll_budget"
      using t1(5) by (auto simp: unat_pred unat_gt_0)
    then show ?thesis
      using s' s1(4) advances_trans [OF s1(3) s'(4)] serves_trans [OF s1(5) s'(6)] by (intro exI [of _ tn'] exI [of _ s']) auto
  qed (use Suc.prems s1 in \<open>auto simp: turn_ok_def\<close>)
qed simp

lemma dpc_loop_polls_ends:
  assumes "dpc_env_ok E" and "\<forall>i. cpu = Some i \<longrightarrow> i < MAX_CPU_COUNT" and "\<not> rc_polling c"
    and "account E L 2 cpu s" and "sched_ok E s" and "the_task s = Some t" and "th_completed t = 0"
    and "unat poll_budget < n"
  shows "dpc_loop n E c cpu TASK_BUDGET_MODE_POLLS clk poll_budget checks s \<noteq> None"
  using assms(4-)
proof (induction n arbitrary: s t poll_budget checks)
  case (Suc n)
  obtain tn s1 where s1: "dpc_turn E c cpu TASK_BUDGET_MODE_POLLS clk poll_budget checks s = Return (tn, s1)"
    "turn_ok E L cpu TASK_BUDGET_MODE_POLLS poll_budget checks tn s1"
    using dpc_turn_ok [OF assms(1) Suc.prems(1-4) assms(2,3)] by blast
  show ?case
  proof (cases tn)
    case (Again pb ck)
    then obtain t1 where t1: "account E L 2 cpu s1" "sched_ok E s1" "the_task s1 = Some t1"
      "th_completed t1 = 0" "poll_budget \<noteq> 0" "pb = poll_budget - 1"
      using s1(2) by (auto simp: turn_ok_def)
    then have "0 < unat poll_budget" "unat pb = unat poll_budget - 1"
      by (simp_all add: unat_pred unat_gt_0)
    then have "unat pb < n" using Suc.prems(5) by linarith
    from Suc.IH [OF t1(1-4) this] show ?thesis using s1(1) Again by simp
  qed (use s1 in simp_all)
qed simp

text \<open>With a time budget the loop ends once the counter has advanced by the budget.\<close>

lemma mod_eight_suc:
  "unat (ck + 1 :: u32) mod 8 = (unat ck + 1) mod 8"
  by (simp add: unat_word_ariths mod_mod_cancel)

lemma dpc_loop_time_ends:
  assumes "dpc_env_ok E" and "\<forall>i. cpu = Some i \<longrightarrow> i < MAX_CPU_COUNT" and "\<not> rc_polling c"
    and "budget_mode \<noteq> TASK_BUDGET_MODE_POLLS"
    and "account E L 2 cpu s" and "sched_ok E s" and "the_task s = Some t" and "th_completed t = 0"
    and "fst clk \<le> x_counter E (queries s + m) - snd clk"
    and "8 * (m + 1) \<le> n + unat checks mod 8"
  shows "dpc_loop n E c cpu budget_mode clk poll_budget checks s \<noteq> None"
  using assms(5-)
proof (induction n arbitrary: s t m poll_budget checks)
  case 0
  have "unat checks mod 8 < 8" by simp
  moreover have "8 \<le> unat checks mod 8" using 0(6) by simp
  ultimately show ?case by simp
next
  case (Suc n)
  obtain tn s1 where s1: "dpc_turn E c cpu budget_mode clk poll_budget checks s = Return (tn, s1)"
    "turn_ok E L cpu budget_mode poll_budget checks tn s1"
    using dpc_turn_ok [OF assms(1) Suc.prems(1-4) assms(2,3)] by blast
  show ?case
  proof (cases tn)
    case (Again pb ck)
    then obtain t1 where t1: "account E L 2 cpu s1" "sched_ok E s1" "the_task s1 = Some t1"
      "th_completed t1 = 0" "ck = checks + 1"
      using s1(2) assms(4) by (auto simp: turn_ok_def)
    have q: "if (checks + 1) mod 8 = 0
      then queries s1 = queries s + 1 \<and> \<not> fst clk \<le> x_counter E (queries s) - snd clk
      else queries s1 = queries s"
      using dpc_turn_again_time [OF assms(1) Suc.prems(1-4) assms(4)] s1(1) Again by blast
    have ck: "unat ck mod 8 = (unat checks + 1) mod 8" using t1(5) mod_eight_suc by simp
    have z: "(checks + 1) mod 8 = 0 \<longleftrightarrow> unat ck mod 8 = 0"
      using t1(5) by (simp add: word_unat_eq_iff unat_mod)
    have "dpc_loop n E c cpu budget_mode clk pb ck s1 \<noteq> None"
    proof (cases "unat ck mod 8 = 0")
      case True
      then have q': "queries s1 = queries s + 1" "\<not> fst clk \<le> x_counter E (queries s) - snd clk"
        using q z by auto
      then have "m \<noteq> 0" using Suc.prems(5) by (metis add.right_neutral)
      then obtain m' where m': "m = Suc m'" by (cases m) auto
      have "8 * (m' + 1) \<le> n + unat ck mod 8"
        using Suc.prems(6) m' True ck mod_Suc [of "unat checks" 8] by (auto split: if_splits)
      then show ?thesis
        using Suc.IH [OF t1(1-4), of m'] Suc.prems(5) q' m' by simp
    next
      case False
      then have "unat ck mod 8 = Suc (unat checks mod 8)"
        using ck mod_Suc [of "unat checks" 8] by (auto split: if_splits)
      then show ?thesis
        using Suc.IH [OF t1(1-4), of m] Suc.prems(5,6) q z False by simp
    qed
    then show ?thesis using s1(1) Again by simp
  qed (use s1 in simp_all)
qed

section \<open>The routine\<close>

definition budget_ticks :: "('f, 'w, 'e, 'q) dpc_env \<Rightarrow> u64 \<Rightarrow> u64" where
  "budget_ticks E us =
     saturating_mul us (if sint (x_frequency E) \<le> 0 then 1 else x_frequency E) div 1000000"

lemma time_budget_ok:
  "\<exists>n. snd (time_budget E mode s) = s\<lparr>queries := n\<rparr>"
  "mode = TASK_BUDGET_MODE_TIME_US \<Longrightarrow>
    time_budget E mode s = ((budget_ticks E (TASK_BUDGET_TIME_US s), x_counter E (queries s)),
      s\<lparr>queries := Suc (queries s)\<rparr>)"
proof -
  have "s = s\<lparr>queries := queries s\<rparr>" by simp
  then show "\<exists>n. snd (time_budget E mode s) = s\<lparr>queries := n\<rparr>"
    by (cases "mode = TASK_BUDGET_MODE_TIME_US")
      (auto simp: time_budget_def query_counter_def Let_def intro: exI [of _ "queries s"])
qed (simp add: time_budget_def query_counter_def budget_ticks_def Let_def)

lemma set_current_ok:
  assumes "account E L 2 None s" and "sched_ok E s"
  shows "\<exists>s'. (case current_cpu_index processor of None \<Rightarrow> Return s | Some i \<Rightarrow> set_current_task i s)
      = Return s'
    \<and> account E L 2 (current_cpu_index processor) s' \<and> sched_ok E s' \<and> keeps E s s'
    \<and> the_task s' = the_task s \<and> wakers s' = wakers s \<and> handles s' = handles s"
proof (cases "current_cpu_index processor")
  case None
  then show ?thesis using assms by simp
next
  case (Some i)
  have "account E L 2 (Some i) (s\<lparr>CURRENT_TASKS := (CURRENT_TASKS s)(i := task_ptr s)\<rparr>)"
    using assms(1) by (intro account_set_current [OF assms(1)]) (auto simp: account_def)
  then show ?thesis
    using Some assms(2) current_cpu_bound [OF Some] by (simp add: set_current_task_def keeps_def)
qed

text \<open>The routine enters its loop with its two references and the budget of the statics.\<close>

lemma dpc_routine_start:
  assumes "dpc_env_ok E" and "account E L 1 None s" and "the_task s = Some t"
    and "th_completed t = 0"
  obtains s4 t4 clk where "account E L 2 (current_cpu_index processor) s4" "sched_ok E s4"
    "the_task s4 = Some t4" "th_completed t4 = 0" "advances E s s4" "polls s4 = polls s"
    "to_poll (held E s4) = to_poll (held E s)" "future_world s4 = future_world s"
    "th_cancel_requested t4 = th_cancel_requested t" "task_future t4 = task_future t"
    "th_scheduled t4 = 0" "th_dpc t4 = th_dpc t" "wakers s4 = wakers s" "handles s4 = handles s"
    "TASK_BUDGET_MODE s = TASK_BUDGET_MODE_TIME_US \<longrightarrow>
        clk = (budget_ticks E (TASK_BUDGET_TIME_US s), x_counter E (queries s))
        \<and> queries s4 = Suc (queries s)"
    "\<forall>n. dpc_routine n E processor s = map_option (dpc_finish E processor (task_ptr s))
        (dpc_loop n E (dpc_context processor) (current_cpu_index processor) (TASK_BUDGET_MODE s) clk
          (TASK_BUDGET_POLLS s) 0 s4)"
proof -
  let ?t1 = "t\<lparr>th_scheduled := 0\<rparr>"
  have a1: "account E L 1 None (put_task ?t1 s)"
    using assms(2,3) account_the_task [OF assms(2,3)] by (intro account_put) (auto simp: live_ok_def)
  obtain c' where c': "th_add_ref E (put_task ?t1 s) = Return (put_task (?t1\<lparr>th_ref_count := c'\<rparr>) s)"
    "account E L (Suc 1) None (put_task (?t1\<lparr>th_ref_count := c'\<rparr>) s)"
    using add_ref_ok [OF a1, of ?t1] by auto
  let ?s2 = "put_task (?t1\<lparr>th_ref_count := c'\<rparr>) s"
  have "account E L 2 None ?s2" "sched_ok E ?s2" using c'(2) by (simp_all add: numeral_2_eq_2 sched_ok_def)
  then obtain s3 where s3: "(case current_cpu_index processor of None \<Rightarrow> Return ?s2
      | Some i \<Rightarrow> set_current_task i ?s2) = Return s3"
    "account E L 2 (current_cpu_index processor) s3" "sched_ok E s3" "keeps E ?s2 s3"
    "the_task s3 = the_task ?s2" "wakers s3 = wakers s" "handles s3 = handles s"
    using set_current_ok by fastforce
  obtain clk s4 where tb: "time_budget E (TASK_BUDGET_MODE s3) s3 = (clk, s4)" by (metis surj_pair)
  obtain n where n: "s4 = s3\<lparr>queries := n\<rparr>"
    using time_budget_ok(1) [of E "TASK_BUDGET_MODE s3" s3] tb by auto
  obtain t3 where t3: "the_task s3 = Some t3"
    using account_own_pos [of E L 1 _ s3] s3(2) by (auto simp: numeral_2_eq_2)
  have k: "th_completed t3 = 0" "TASK_BUDGET_MODE s3 = TASK_BUDGET_MODE s"
    "TASK_BUDGET_POLLS s3 = TASK_BUDGET_POLLS s" "TASK_BUDGET_TIME_US s3 = TASK_BUDGET_TIME_US s"
    "queries s3 = queries s" "polls s3 = polls s"
    using s3(4) t3 assms(4) by (auto simp: keeps_def)
  have k3: "keeps E s s3" by (rule keeps_trans [OF _ s3(4)]) (use assms(3) in \<open>simp add: keeps_def\<close>)
  then have adv: "advances E s s4"
    using keeps_advances [OF k3] n by (auto simp: advances_def)
  have h3: "held E s4 = held E s3" "future_world s4 = future_world s3" using n by (simp_all add: held_def)
  have t3': "th_cancel_requested t3 = th_cancel_requested t" "task_future t3 = task_future t"
    "th_scheduled t3 = 0" "th_dpc t3 = th_dpc t"
    using s3(5) t3 by auto
  have "dpc_routine n' E processor s = map_option (dpc_finish E processor (task_ptr s))
        (dpc_loop n' E (dpc_context processor) (current_cpu_index processor) (TASK_BUDGET_MODE s) clk
          (TASK_BUDGET_POLLS s) 0 s4)" for n'
    using assms(3,4) c'(1) s3(1) tb k
    by (simp add: dpc_routine_def raw_waker_def Let_def)
  moreover have "clk = (budget_ticks E (TASK_BUDGET_TIME_US s), x_counter E (queries s))
      \<and> queries s4 = Suc (queries s)" if "TASK_BUDGET_MODE s = TASK_BUDGET_MODE_TIME_US"
    using tb time_budget_ok(2) [of "TASK_BUDGET_MODE s3" E s3] k that by auto
  ultimately show ?thesis
    using s3(2,3,6,7) t3 k adv n h3 t3' keeps_due [OF k3]
    by (intro that [of s4 t3 clk]) simp_all
qed

lemma dpc_finish_ok:
  assumes "dpc_env_ok E" and "sched_ok E s" and "task_ptr s = p" and "p \<noteq> null"
    and "tn = Returned \<and> account E L 1 None s
      \<or> tn = Broke \<and> account E L 2 (current_cpu_index processor) s"
  shows "\<exists>s'. dpc_finish E processor p (Return (tn, s)) = Return s' \<and> account E L 0 None s'
    \<and> sched_ok E s' \<and> keeps E s s'"
proof -
  let ?c = "dpc_context processor"
  have "\<exists>s6. (if tn = Returned then Return s
      else and_then (clear_current (current_cpu_index processor) s) (th_release E ?c)) = Return s6
    \<and> account E L 1 None s6 \<and> sched_ok E s6 \<and> keeps E s s6"
  proof (cases "tn = Returned")
    case False
    then obtain s5 where s5: "clear_current (current_cpu_index processor) s = Return s5"
      "account E L 2 None s5" "sched_ok E s5" "keeps E s s5"
      using assms(2,5) clear_current_ok current_cpu_bound by blast
    then show ?thesis
      using False release_advances [OF assms(1) _ s5(3), of L 1 ?c] keeps_trans [OF s5(4)]
      by (auto simp: numeral_2_eq_2)
  qed (use assms in auto)
  then obtain s6 where s6: "(if tn = Returned then Return s
      else and_then (clear_current (current_cpu_index processor) s) (th_release E ?c)) = Return s6"
    "account E L (Suc 0) None s6" "sched_ok E s6" "keeps E s s6"
    by auto
  then show ?thesis
    using release_advances [OF assms(1) s6(2,3), of ?c] keeps_trans [OF s6(4)] assms(4)
    by (auto simp: dpc_finish_def drop_raw_def)
qed

lemma dpc_routine_ok:
  assumes "dpc_env_ok E" and "account E L 1 None s" and "the_task s = Some t"
    and "dpc_routine n E processor s = Some r"
  shows "\<exists>s'. r = Return s' \<and> account E L 0 None s' \<and> sched_ok E s' \<and> serves E s s'
    \<and> (th_completed t = 0 \<longrightarrow> polls s < polls s')
    \<and> (TASK_BUDGET_MODE s = TASK_BUDGET_MODE_POLLS \<longrightarrow>
        polls s' \<le> polls s + unat (TASK_BUDGET_POLLS s) + 1)"
proof (cases "th_completed t = 0")
  case False
  let ?s = "put_task (t\<lparr>th_scheduled := 0\<rparr>) s"
  have "account E L (Suc 0) None ?s" "sched_ok E ?s"
    using assms(2,3) account_the_task [OF assms(2,3)]
    by (auto simp: sched_ok_def live_ok_def intro!: account_put)
  then obtain s' where s': "th_release E (dpc_context processor) ?s = Return s'" "account E L 0 None s'"
    "sched_ok E s'" "keeps E ?s s'"
    using release_advances [OF assms(1), of L 0 ?s "dpc_context processor"] by blast
  have "serves E s s'"
  proof (rule servesI)
    fix J assume J: "future_contract E J" "J (to_poll (held E s)) (future_world s)"
    have "task_future t = Emptied" using account_the_task [OF assms(2,3)] False by (simp add: live_ok_def)
    then have "J (held E ?s) (future_world ?s)" using J(2) assms(3) by (simp add: held_def)
    then show "J (held E s') (future_world s')" by (rule honoursD [OF keeps_honours [OF s'(4)] J(1)])
  qed
  then show ?thesis
    using s' False assms(3,4) by (intro exI [of _ s']) (simp add: dpc_routine_def Let_def keeps_def)
next
  case True
  obtain s4 t4 clk where s4: "account E L 2 (current_cpu_index processor) s4" "sched_ok E s4"
    "the_task s4 = Some t4" "th_completed t4 = 0" "advances E s s4" "polls s4 = polls s"
    "to_poll (held E s4) = to_poll (held E s)" "future_world s4 = future_world s"
    and eq: "\<forall>n. dpc_routine n E processor s = map_option (dpc_finish E processor (task_ptr s))
        (dpc_loop n E (dpc_context processor) (current_cpu_index processor) (TASK_BUDGET_MODE s) clk
          (TASK_BUDGET_POLLS s) 0 s4)"
    by (rule dpc_routine_start [OF assms(1-3) True, of processor])
  obtain q where q: "dpc_loop n E (dpc_context processor) (current_cpu_index processor)
      (TASK_BUDGET_MODE s) clk (TASK_BUDGET_POLLS s) 0 s4 = Some q"
    "r = dpc_finish E processor (task_ptr s) q"
    using assms(4) eq by (auto simp: map_option_eq_Some)
  have "\<forall>i. current_cpu_index processor = Some i \<longrightarrow> i < MAX_CPU_COUNT"
    using current_cpu_bound by blast
  then obtain tn s5 where s5: "q = Return (tn, s5)"
    "tn = Returned \<and> account E L 1 None s5
      \<or> tn = Broke \<and> account E L 2 (current_cpu_index processor) s5"
    "sched_ok E s5" "advances E s4 s5" "polls s4 < polls s5" "serves E s4 s5"
    "TASK_BUDGET_MODE s = TASK_BUDGET_MODE_POLLS \<longrightarrow>
      polls s5 \<le> polls s4 + unat (TASK_BUDGET_POLLS s) + 1"
    using dpc_loop_ok [OF assms(1) _ _ s4(1-4) q(1)] by auto
  have "task_ptr s5 = task_ptr s" "task_ptr s \<noteq> null"
    using s5(4) s4(5) assms(2) by (simp_all add: advances_def account_def)
  then obtain s' where "r = Return s'" "account E L 0 None s'" "sched_ok E s'" "keeps E s5 s'"
    using dpc_finish_ok [OF assms(1) s5(3) _ _ s5(2)] q(2) s5(1) by auto
  then show ?thesis
    using s5(5,7) s4(6) serves_honours [OF serves_due [OF s4(7,8) s5(6)], of s'] by (auto simp: keeps_def)
qed

end
