(* ===== verification/Dpc_Properties.thy ===== *)
theory Dpc_Properties
  imports Dpc_Runs
begin

text \<open>
  The reachable states of a task of the DPC executor and its main properties: memory safety and
  the exact release of all resources, the delivery of wake-ups, and the budgets.
\<close>

section \<open>Spawning\<close>

definition fresh_executor :: "('f, 'w, 'e, 'q) dpc_env \<Rightarrow> ledger \<Rightarrow> ('f, 'w, 'e, 'q) executor \<Rightarrow> bool" where
  "fresh_executor E L s \<longleftrightarrow>
     the_task s = None \<and> wakers s = 0 \<and> handles s = 0 \<and> drops s = 0 \<and> frees s = 0
     \<and> (\<forall>i. CURRENT_TASKS s i = null) \<and> pool_ok (x_kernel E) (memory s)
     \<and> map_of (blocks (memory s)) = l_blocks L \<and> l_pending L + 1 < 2 ^ 32
     \<and> (l_tracker L \<noteq> null \<longrightarrow>
         tracker_counts (x_event E) (trackers s (l_tracker L)) (l_pending L))"

lemma begin_tracker_simps [simp]:
  "the_task (begin_tracker E tr s) = the_task s" "wakers (begin_tracker E tr s) = wakers s"
  "handles (begin_tracker E tr s) = handles s" "drops (begin_tracker E tr s) = drops s"
  "frees (begin_tracker E tr s) = frees s" "memory (begin_tracker E tr s) = memory s"
  "polls (begin_tracker E tr s) = polls s" "task_ptr (begin_tracker E tr s) = task_ptr s"
  "CURRENT_TASKS (begin_tracker E tr s) = CURRENT_TASKS s"
  "future_world (begin_tracker E tr s) = future_world s"
  by (auto simp: begin_tracker_def task_tracker_begin_def)

lemma trackers_begin:
  "tr \<noteq> null \<Longrightarrow> trackers (begin_tracker E tr s) tr = tracker_begin (x_event E) (trackers s tr)"
  by (simp add: begin_tracker_def task_tracker_begin_def)

text \<open>Without memory the future is dropped and everything else is as it was.\<close>

definition refused_ok ::
  "('f, 'w, 'e, 'q) dpc_env \<Rightarrow> ledger \<Rightarrow> 'f \<Rightarrow> ('f, 'w, 'e, 'q) executor \<Rightarrow> ('f, 'w, 'e, 'q) executor
    \<Rightarrow> bool" where
  "refused_ok E L f s s' \<longleftrightarrow>
     drops s' = 1 \<and> the_task s' = None \<and> map_of (blocks (memory s')) = l_blocks L \<and> trackers s' = trackers s
     \<and> future_world s' \<in> set_activity (x_drop E f (future_world s))"

definition allocated_ok ::
  "('f, 'w, 'e, 'q) dpc_env \<Rightarrow> ledger \<Rightarrow> 'f \<Rightarrow> ('f, 'w, 'e, 'q) executor \<Rightarrow> ('f, 'w, 'e, 'q) executor
    \<Rightarrow> bool" where
  "allocated_ok E L f s s' \<longleftrightarrow>
     account E L 1 None s' \<and> sched_ok E s' \<and> wakers s' = 0 \<and> handles s' = 0
     \<and> future_world s' = future_world s
     \<and> (\<exists>t. the_task s' = Some t \<and> th_completed t = 0 \<and> th_cancel_requested t = 0
           \<and> task_future t = Holding f)"

lemma allocate_task_ok:
  assumes "dpc_env_ok E" and "fresh_executor E L s"
  shows "\<exists>r s'. allocate_task E c f (l_tracker L) s = Return (r, s')
    \<and> (case r of Inl st \<Rightarrow> st = STATUS_INSUFFICIENT_RESOURCES \<and> refused_ok E L f s s'
       | Inr p \<Rightarrow> allocated_ok E L f s s')"
proof -
  let ?al = "wdk_allocator_new NonPagedNx (DEFAULT_TASK_TAG s)"
  have ok: "pool_ok (x_kernel E) (memory s)" and l: "valid_layout (x_layout E)"
    and nz: "layout_size (x_layout E) \<noteq> 0"
    using assms by (auto simp: fresh_executor_def dpc_env_ok_def)
  obtain p m where m: "wdk_alloc (x_alloc_build E) (x_kernel E) ?al (x_layout E) (memory s)
      = Return (p, m)" "alloc_result (x_alloc_build E) (x_kernel E) ?al (x_layout E) (memory s) (p, m)"
    using wdk_alloc_result [OF ok l] by blast
  show ?thesis
  proof (cases "p = null")
    case True
    let ?s = "s\<lparr>memory := m, drops := drops s + 1\<rparr>"
    obtain w where "w \<in> set_activity (x_drop E f (future_world s))"
      "run_orphaned c (x_drop E f (future_world s)) ?s = Return (w, ?s)"
      using run_orphaned_idle [of ?s "x_drop E f (future_world s)" c] assms(2) by (auto simp: fresh_executor_def)
    then show ?thesis
      using True m nz assms(2)
      by (auto simp: allocate_task_def alloc_result_def fresh_executor_def refused_ok_def Let_def)
  next
    case False
    let ?b = "backing (x_alloc_build E) m (p, x_layout E)"
    have held: "wdk_held (x_alloc_build E) (x_kernel E) ?al [(p, x_layout E)] m"
      using alloc_result_held(1) [of _ _ _ "[]", OF _ m(2)] ok False by (simp add: wdk_held_def)
    obtain n where "map_of (blocks (memory s)) ?b = None"
      "blocks m = (?b, (n, tag ?al)) # blocks (memory s)"
      using m(2) nz False by (auto simp: alloc_result_def fresh_block_def)
    then have b: "(map_of (blocks m))(?b := None) = l_blocks L"
      using assms(2) by (auto simp: fresh_executor_def fun_upd_idem_iff)
    have "tracker_counts (x_event E) (tracker_begin (x_event E) (trackers s (l_tracker L)))
        (l_pending L + 1)" if "l_tracker L \<noteq> null"
      using assms(2) that by (intro dpc_tracker.begin_counts) (auto simp: fresh_executor_def)
    then show ?thesis
      using m(1) False held b assms
      by (auto simp: allocate_task_def Let_def allocated_ok_def account_def resources_ok_def live_ok_def
          sched_ok_def fresh_executor_def trackers_begin dpc_env_ok_def dpc_contract_def)
  qed
qed

text \<open>What a successful spawn leaves: a task in the queue, its handle with the client.\<close>

definition spawned_ok ::
  "('f, 'w, 'e, 'q) dpc_env \<Rightarrow> ledger \<Rightarrow> nat \<Rightarrow> 'f \<Rightarrow> 'w \<Rightarrow> ('f, 'w, 'e, 'q) executor \<Rightarrow> bool" where
  "spawned_ok E L h f w s \<longleftrightarrow>
     account E L 0 None s \<and> sched_ok E s \<and> handles s = h \<and> wakers s = 0 \<and> future_world s = w
     \<and> held E s = Queued f \<and> (\<exists>t. the_task s = Some t \<and> dpc_queued (x_dpc E) (th_dpc t))"

lemma release_queued_ok:
  assumes "account E L (Suc own) None s" and "sched_ok E s" and "the_task s = Some t"
    and "dpc_queued (x_dpc E) (th_dpc t)"
  shows "\<exists>c'. th_release E c s = Return (put_task (t\<lparr>th_ref_count := c'\<rparr>) s)
    \<and> account E L own None (put_task (t\<lparr>th_ref_count := c'\<rparr>) s)"
proof -
  have "1 < unat (th_ref_count t)"
    using account_the_task [OF assms(1,3)] assms(4) by (auto simp: live_ok_def)
  then show ?thesis using release_shared [OF assms(1,3), of c] by auto
qed

lemma spawn_cancellable_ok:
  assumes "dpc_env_ok E" and "fresh_executor E L s"
  shows "\<exists>r s'. spawn_cancellable E c (l_tracker L) f s = Return (r, s')
    \<and> (case r of
         Inl st \<Rightarrow> st = STATUS_INSUFFICIENT_RESOURCES \<and> refused_ok E L f s s'
       | Inr h \<Rightarrow> spawned_ok E L 1 f (future_world s) s' \<and> handle_task h = task_ptr s')"
proof -
  obtain r s1 where s1: "allocate_task E c f (l_tracker L) s = Return (r, s1)"
    "case r of Inl st \<Rightarrow> st = STATUS_INSUFFICIENT_RESOURCES \<and> refused_ok E L f s s1
       | Inr p \<Rightarrow> allocated_ok E L f s s1"
    using allocate_task_ok [OF assms] by blast
  show ?thesis
  proof (cases r)
    case (Inl st)
    then show ?thesis using s1 by (simp add: spawn_cancellable_def)
  next
    case (Inr p)
    then obtain t where t: "account E L 1 None s1" "sched_ok E s1" "the_task s1 = Some t"
      "th_completed t = 0" "wakers s1 = 0" "handles s1 = 0"
      and w: "task_future t = Holding f" "future_world s1 = future_world s"
      using s1(2) by (auto simp: allocated_ok_def)
    obtain c' where c': "th_add_ref E s1 = Return (put_task (t\<lparr>th_ref_count := c'\<rparr>) s1)"
      "account E L 2 None (put_task (t\<lparr>th_ref_count := c'\<rparr>) s1)"
      using add_ref_ok [OF t(1,3)] by (auto simp: numeral_2_eq_2)
    let ?s2 = "put_task (t\<lparr>th_ref_count := c'\<rparr>) s1"
    obtain s3 t3 where s3: "th_schedule E c ?s2 = Return s3" "account E L 2 None s3" "sched_ok E s3"
      "the_task s3 = Some t3" "dpc_queued (x_dpc E) (th_dpc t3)" "handles s3 = 0" "wakers s3 = 0"
      "keeps E ?s2 s3"
      using schedule_queues [OF assms(1) c'(2) _ _ sched_put_ref [OF t(3,2)],
          of "t\<lparr>th_ref_count := c'\<rparr>" c] t(4-6) by auto
    have s3': "account E L (Suc 1) None s3" using s3(2) by (simp add: numeral_2_eq_2)
    obtain c2 where c2: "th_release E c s3 = Return (put_task (t3\<lparr>th_ref_count := c2\<rparr>) s3)"
      "account E L 1 None (put_task (t3\<lparr>th_ref_count := c2\<rparr>) s3)"
      using release_queued_ok [OF s3' s3(3-5), of c] by auto
    have "task_future t3 = Holding f" "future_world s3 = future_world s"
      using keeps_due(2) [OF s3(8)] s3(4,8) w by (auto simp: keeps_def)
    then have "spawned_ok E L 1 f (future_world s)
        (put_task (t3\<lparr>th_ref_count := c2\<rparr>) s3\<lparr>handles := handles s3 + 1\<rparr>)"
      using c2(2) s3
      by (auto simp: spawned_ok_def account_def resources_ok_def live_ok_def sched_ok_def held_def)
    moreover have "task_ptr s3 = task_ptr s1" using s3(8) by (simp add: keeps_def)
    ultimately show ?thesis
      using s1(1) Inr c'(1) s3(1) c2(1) by (simp add: spawn_cancellable_def cancel_handle_new_def)
  qed
qed

lemma spawn_tracked_ok:
  assumes "dpc_env_ok E" and "fresh_executor E L s"
  shows "\<exists>r s'. spawn_dpc_task_tracked E c (l_tracker L) f s = Return (r, s')
    \<and> (r = STATUS_INSUFFICIENT_RESOURCES \<and> refused_ok E L f s s'
       \<or> r = STATUS_SUCCESS \<and> spawned_ok E L 0 f (future_world s) s')"
proof -
  obtain r s1 where s1: "allocate_task E c f (l_tracker L) s = Return (r, s1)"
    "case r of Inl st \<Rightarrow> st = STATUS_INSUFFICIENT_RESOURCES \<and> refused_ok E L f s s1
       | Inr p \<Rightarrow> allocated_ok E L f s s1"
    using allocate_task_ok [OF assms] by blast
  show ?thesis
  proof (cases r)
    case (Inl st)
    then show ?thesis using s1 by (simp add: spawn_dpc_task_tracked_def)
  next
    case (Inr p)
    then obtain t where t: "account E L 1 None s1" "sched_ok E s1" "the_task s1 = Some t"
      "th_completed t = 0" "wakers s1 = 0" "handles s1 = 0"
      and w: "task_future t = Holding f" "future_world s1 = future_world s"
      using s1(2) by (auto simp: allocated_ok_def)
    obtain s3 t3 where s3: "th_schedule E c s1 = Return s3" "account E L (Suc 0) None s3" "sched_ok E s3"
      "the_task s3 = Some t3" "dpc_queued (x_dpc E) (th_dpc t3)" "handles s3 = 0" "wakers s3 = 0"
      "keeps E s1 s3"
      using schedule_queues [OF assms(1) t(1,3) _ t(2,4), of c] t(5,6) by auto
    obtain c2 where c2: "th_release E c s3 = Return (put_task (t3\<lparr>th_ref_count := c2\<rparr>) s3)"
      "account E L 0 None (put_task (t3\<lparr>th_ref_count := c2\<rparr>) s3)"
      using release_queued_ok [OF s3(2-5), of c] by auto
    moreover have "task_future t3 = Holding f" "future_world s3 = future_world s"
      using keeps_due(2) [OF s3(8)] s3(4,8) t(3) w by (auto simp: keeps_def)
    ultimately have "spawned_ok E L 0 f (future_world s) (put_task (t3\<lparr>th_ref_count := c2\<rparr>) s3)"
      using s3 by (simp add: spawned_ok_def sched_ok_def held_def)
    then show ?thesis
      using s1(1) Inr s3(1) c2(1) by (simp add: spawn_dpc_task_tracked_def)
  qed
qed

section \<open>Reachable states\<close>

text \<open>
  A task is spawned by one of the public functions; then its holders act, the kernel runs the
  queued DPC on some processor, and the driver changes the statics, in any order. What holders do
  while a poll runs is part of that poll.
\<close>

inductive dpc_reach ::
  "('f, 'w, 'e, 'q) dpc_env \<Rightarrow> addr \<Rightarrow> ('f, 'w, 'e, 'q) executor \<Rightarrow> ('f, 'w, 'e, 'q) executor \<Rightarrow> bool"
  for E tr s0 where
  spawned_untracked: "tr = null \<Longrightarrow> spawn_dpc_task_cancellable E c f s0 = Return (Inr h, s)
    \<Longrightarrow> dpc_reach E tr s0 s"
| spawned_cancellable: "spawn_dpc_task_cancellable_tracked E c tr f s0 = Return (Inr h, s)
    \<Longrightarrow> dpc_reach E tr s0 s"
| spawned: "spawn_dpc_task E c tr f s0 = Return (STATUS_SUCCESS, s) \<Longrightarrow> dpc_reach E tr s0 s"
| acted: "dpc_reach E tr s0 s \<Longrightarrow> \<not> rc_polling c \<Longrightarrow> run_op E c p s = Return (b, s')
    \<Longrightarrow> dpc_reach E tr s0 s'"
| ran: "dpc_reach E tr s0 s \<Longrightarrow> the_task s = Some t \<Longrightarrow> dpc_queued (x_dpc E) (th_dpc t)
    \<Longrightarrow> dpc_arrive n E processor s = Some (Return s') \<Longrightarrow> dpc_reach E tr s0 s'"
| budgeted: "dpc_reach E tr s0 s \<Longrightarrow> dpc_reach E tr s0 (set_task_budget budget s)"
| tagged: "dpc_reach E tr s0 s \<Longrightarrow> dpc_reach E tr s0 (set_task_alloc_tag tg s)"

lemma arrive_account:
  assumes "dpc_env_ok E" and "account E L 0 None s" and "the_task s = Some t"
    and "dpc_queued (x_dpc E) (th_dpc t)"
  shows "account E L 1 None (put_task (t\<lparr>th_dpc := ke_retire_dpc (x_dpc E) (th_dpc t)\<rparr>) s)"
  using assms account_the_task [OF assms(2,3)]
  by (intro account_put) (auto simp: live_ok_def dpc_env_ok_def dpc_contract_def)

lemma dpc_arrive_ok:
  assumes "dpc_env_ok E" and "account E L 0 None s" and "the_task s = Some t"
    and "dpc_queued (x_dpc E) (th_dpc t)" and "dpc_arrive n E processor s = Some r"
  shows "\<exists>s'. r = Return s' \<and> account E L 0 None s' \<and> sched_ok E s' \<and> serves E s s'
    \<and> (th_completed t = 0 \<longrightarrow> polls s < polls s')
    \<and> (TASK_BUDGET_MODE s = TASK_BUDGET_MODE_POLLS \<longrightarrow>
        polls s' \<le> polls s + unat (TASK_BUDGET_POLLS s) + 1)"
proof -
  let ?t = "t\<lparr>th_dpc := ke_retire_dpc (x_dpc E) (th_dpc t)\<rparr>"
  have "dpc_routine n E processor (put_task ?t s) = Some r" using assms(3,5) by (simp add: dpc_arrive_def)
  then obtain s' where "r = Return s'" "account E L 0 None s'" "sched_ok E s'" "serves E (put_task ?t s) s'"
    "th_completed t = 0 \<longrightarrow> polls s < polls s'"
    "TASK_BUDGET_MODE s = TASK_BUDGET_MODE_POLLS \<longrightarrow> polls s' \<le> polls s + unat (TASK_BUDGET_POLLS s) + 1"
    using dpc_routine_ok [OF assms(1) arrive_account [OF assms(1-4)], of ?t n processor r] by auto
  moreover have "to_poll (held E (put_task ?t s)) = to_poll (held E s)" using assms(3) by simp
  ultimately show ?thesis using serves_due [of E "put_task ?t s" s s'] by auto
qed

lemma account_statics [simp]:
  "account E L own cur (set_task_budget budget s) \<longleftrightarrow> account E L own cur s"
  "account E L own cur (set_task_alloc_tag tg s) \<longleftrightarrow> account E L own cur s"
  "sched_ok E (set_task_budget budget s) \<longleftrightarrow> sched_ok E s"
  "sched_ok E (set_task_alloc_tag tg s) \<longleftrightarrow> sched_ok E s"
  by (cases "the_task s"; cases budget; simp add: set_task_budget_def set_task_alloc_tag_def
      account_def resources_ok_def live_ok_def sched_ok_def)+

lemma dpc_reach_account:
  assumes "dpc_env_ok E" and "fresh_executor E L s0" and "dpc_reach E (l_tracker L) s0 s"
  shows "account E L 0 None s \<and> sched_ok E s"
  using assms(3)
proof (induction rule: dpc_reach.induct)
  case (spawned_untracked c f h s)
  then show ?case
    using spawn_cancellable_ok [OF assms(1,2), of c f]
    by (auto simp: spawn_dpc_task_cancellable_def spawned_ok_def)
next
  case (spawned_cancellable c f h s)
  then show ?case
    using spawn_cancellable_ok [OF assms(1,2), of c f]
    by (auto simp: spawn_dpc_task_cancellable_tracked_def spawned_ok_def)
next
  case (spawned c f s)
  then show ?case
    using spawn_tracked_ok [OF assms(1,2), of c f]
    by (auto simp: spawn_dpc_task_def spawned_ok_def status_defs)
next
  case (acted s c p b s')
  then show ?case using run_op_ok [OF assms(1), of L 0 None s c p] by (auto simp: op_ok_def)
next
  case (ran s t n processor s')
  then show ?case using dpc_arrive_ok [OF assms(1), of L s t n processor] by auto
qed simp_all

lemma completed_run_ends:
  assumes "the_task s = Some t" and "th_completed t \<noteq> 0"
  shows "dpc_arrive n E processor s \<noteq> None"
  using assms by (simp add: dpc_arrive_def dpc_routine_def Let_def)

lemma dpc_arrive_start:
  assumes "dpc_env_ok E" and "account E L 0 None s" and "the_task s = Some t"
    and "dpc_queued (x_dpc E) (th_dpc t)" and "th_completed t = 0"
  obtains s4 t4 clk where "account E L 2 (current_cpu_index processor) s4" "sched_ok E s4"
    "the_task s4 = Some t4" "th_completed t4 = 0" "task_ptr s4 = task_ptr s" "polls s4 = polls s"
    "future_world s4 = future_world s" "th_cancel_requested t4 = th_cancel_requested t"
    "task_future t4 = task_future t"
    "th_scheduled t4 = 0" "\<not> dpc_queued (x_dpc E) (th_dpc t4)" "wakers s4 = wakers s" "handles s4 = handles s"
    "TASK_BUDGET_MODE s = TASK_BUDGET_MODE_TIME_US \<longrightarrow>
        clk = (budget_ticks E (TASK_BUDGET_TIME_US s), x_counter E (queries s))
        \<and> queries s4 = Suc (queries s)"
    "\<forall>n. dpc_arrive n E processor s = map_option (dpc_finish E processor (task_ptr s))
        (dpc_loop n E (dpc_context processor) (current_cpu_index processor) (TASK_BUDGET_MODE s) clk
          (TASK_BUDGET_POLLS s) 0 s4)"
proof -
  let ?t = "t\<lparr>th_dpc := ke_retire_dpc (x_dpc E) (th_dpc t)\<rparr>"
  let ?s = "put_task ?t s"
  have t: "the_task ?s = Some ?t" "th_completed ?t = 0" using assms(5) by simp_all
  obtain s4 t4 clk where "account E L 2 (current_cpu_index processor) s4" "sched_ok E s4"
    "the_task s4 = Some t4" "th_completed t4 = 0" "advances E ?s s4" "polls s4 = polls ?s"
    "future_world s4 = future_world ?s" "th_cancel_requested t4 = th_cancel_requested ?t"
    "task_future t4 = task_future ?t"
    "th_scheduled t4 = 0" "th_dpc t4 = th_dpc ?t" "wakers s4 = wakers ?s" "handles s4 = handles ?s"
    "TASK_BUDGET_MODE ?s = TASK_BUDGET_MODE_TIME_US \<longrightarrow>
        clk = (budget_ticks E (TASK_BUDGET_TIME_US ?s), x_counter E (queries ?s))
        \<and> queries s4 = Suc (queries ?s)"
    "\<forall>n. dpc_routine n E processor ?s = map_option (dpc_finish E processor (task_ptr ?s))
        (dpc_loop n E (dpc_context processor) (current_cpu_index processor) (TASK_BUDGET_MODE ?s) clk
          (TASK_BUDGET_POLLS ?s) 0 s4)"
    by (rule dpc_routine_start [OF assms(1) arrive_account [OF assms(1-4)] t, of processor])
  then show thesis
    by (intro that [of s4 t4 clk])
      (use assms(1) in \<open>simp_all add: dpc_arrive_def assms(3) advances_def dpc_env_ok_def dpc_contract_def\<close>)
qed

text \<open>A run whose first poll is ready drops the future and ends.\<close>

lemma dpc_arrive_first_ready:
  assumes "dpc_env_ok E" and "account E L 0 None s" and "the_task s = Some t"
    and "dpc_queued (x_dpc E) (th_dpc t)" and "th_completed t = 0" and "task_future t = Holding f"
    and "dpc_arrive m E processor s = Some r" and "future_contract E J"
    and "\<And>s4 t4 x s5. account E L 2 (current_cpu_index processor) s4 \<Longrightarrow> sched_ok E s4 \<Longrightarrow> the_task s4 = Some t4
      \<Longrightarrow> th_cancel_requested t4 = th_cancel_requested t
      \<Longrightarrow> run_activity E (dpc_context processor\<lparr>rc_polling := True\<rparr>) (x_poll E f (future_world s)) s4 = Return (x, s5)
      \<Longrightarrow> \<exists>st f' w'. x = (Ready st, f', w') \<and> J (Finished f') w'"
  shows "\<exists>s'. r = Return s' \<and> J (held E s') (future_world s')"
proof -
  let ?c = "dpc_context processor" and ?cpu = "current_cpu_index processor"
  obtain s4 t4 clk where s4: "account E L 2 ?cpu s4" "sched_ok E s4" "the_task s4 = Some t4" "th_completed t4 = 0"
    "task_ptr s4 = task_ptr s" "future_world s4 = future_world s"
    "th_cancel_requested t4 = th_cancel_requested t" "task_future t4 = task_future t"
    and eq: "\<forall>n. dpc_arrive n E processor s = map_option (dpc_finish E processor (task_ptr s))
        (dpc_loop n E ?c ?cpu (TASK_BUDGET_MODE s) clk (TASK_BUDGET_POLLS s) 0 s4)"
    by (rule dpc_arrive_start [OF assms(1-5), of processor])
  obtain q where q: "dpc_loop m E ?c ?cpu (TASK_BUDGET_MODE s) clk (TASK_BUDGET_POLLS s) 0 s4 = Some q"
    "r = dpc_finish E processor (task_ptr s) q"
    using assms(7) eq by (auto simp: map_option_eq_Some)
  let ?a = "x_poll E f (future_world s)" and ?s = "s4\<lparr>polls := polls s4 + 1\<rparr>"
  obtain x s5 where x: "run_activity E (?c\<lparr>rc_polling := True\<rparr>) ?a ?s = Return (x, s5)" "account E L 2 ?cpu s5"
    using run_activity_ok [OF assms(1), of L 2 ?cpu ?s "?c\<lparr>rc_polling := True\<rparr>" ?a] s4(1,2) by auto
  obtain st f' w' where f': "x = (Ready st, f', w')" "J (Finished f') w'"
    using assms(9) [of ?s t4 x s5] x(1) s4 by auto
  obtain t5 where t5: "the_task s5 = Some t5"
    using account_own_pos [of E L 1 ?cpu s5] x(2) by (auto simp: numeral_2_eq_2)
  let ?t6 = "t5\<lparr>task_future := Holding f'\<rparr>"
  let ?s6 = "put_task ?t6 (s5\<lparr>future_world := w'\<rparr>)"
  have p: "poll_shim E ?c s4 = Return (Ready st, ?s6)"
    using x(1) f'(1) t5 s4(3,6,8) assms(6) by (simp add: poll_shim_def with_task_Some)
  have s6: "account E L 2 ?cpu ?s6" "sched_ok E ?s6" "advances E s4 ?s6" "th_completed ?t6 = 0"
    using poll_shim_ok [OF assms(1) s4(1-4), of ?c] p by auto
  have cpu: "\<forall>i. ?cpu = Some i \<longrightarrow> i < MAX_CPU_COUNT" using current_cpu_bound by blast
  obtain s7 where s7: "and_then (destroy_shim (run_activity E ?c) E DropFuture
        (put_task (?t6\<lparr>th_completed := 1\<rparr>) ?s6)) (\<lambda>s3.
      and_then (clear_current ?cpu s3) (\<lambda>s4. th_release E ?c s4)) = Return s7"
    "account E L 1 None s7" "sched_ok E s7" "advances E ?s6 s7" "J (held E s7) (future_world s7)"
    using turn_ready_ok [OF assms(1) s6(1,2) _ s6(4) cpu, of ?c] assms(8) f'(2) by fastforce
  have "dpc_turn E ?c ?cpu (TASK_BUDGET_MODE s) clk (TASK_BUDGET_POLLS s) 0 s4 = Return (Returned, s7)"
    using p s7(1) by (auto simp: dpc_turn_def outcome_simps)
  then have q': "q = Return (Returned, s7)" using q(1) by (cases m) auto
  have "task_ptr s7 = task_ptr s" "task_ptr s \<noteq> null"
    using s7(4) s6(3) s4(5) assms(2) by (simp_all add: advances_def account_def)
  then obtain s' where "r = Return s'" "keeps E s7 s'"
    using dpc_finish_ok [OF assms(1) s7(3), of "task_ptr s" Returned L processor] q(2) q' s7(2) by auto
  then show ?thesis using honoursD [OF keeps_honours assms(8) s7(5)] by blast
qed

lemma dpc_arrive_polls_ends:
  assumes "dpc_env_ok E" and "account E L 0 None s" and "the_task s = Some t"
    and "dpc_queued (x_dpc E) (th_dpc t)" and "TASK_BUDGET_MODE s = TASK_BUDGET_MODE_POLLS"
    and "unat (TASK_BUDGET_POLLS s) < n"
  shows "dpc_arrive n E processor s \<noteq> None"
proof (cases "th_completed t = 0")
  case True
  obtain s4 t4 clk where s4: "account E L 2 (current_cpu_index processor) s4" "sched_ok E s4"
    "the_task s4 = Some t4" "th_completed t4 = 0"
    and eq: "\<forall>n. dpc_arrive n E processor s = map_option (dpc_finish E processor (task_ptr s))
        (dpc_loop n E (dpc_context processor) (current_cpu_index processor) (TASK_BUDGET_MODE s) clk
          (TASK_BUDGET_POLLS s) 0 s4)"
    by (rule dpc_arrive_start [OF assms(1-4) True, of processor])
  have "dpc_loop n E (dpc_context processor) (current_cpu_index processor) TASK_BUDGET_MODE_POLLS clk
      (TASK_BUDGET_POLLS s) 0 s4 \<noteq> None"
    using assms(6) current_cpu_bound by (intro dpc_loop_polls_ends [OF assms(1) _ _ s4]) auto
  then show ?thesis using eq assms(5) by simp
qed (rule completed_run_ends [OF assms(3)])

lemma dpc_arrive_time_ends:
  assumes "dpc_env_ok E" and "account E L 0 None s" and "the_task s = Some t"
    and "dpc_queued (x_dpc E) (th_dpc t)" and "TASK_BUDGET_MODE s = TASK_BUDGET_MODE_TIME_US"
    and "budget_ticks E (TASK_BUDGET_TIME_US s) \<le> x_counter E (Suc (queries s) + m) - x_counter E (queries s)"
  shows "dpc_arrive (8 * (m + 1)) E processor s \<noteq> None"
proof (cases "th_completed t = 0")
  case True
  obtain s4 t4 clk where s4: "account E L 2 (current_cpu_index processor) s4" "sched_ok E s4"
    "the_task s4 = Some t4" "th_completed t4 = 0"
    and clk: "TASK_BUDGET_MODE s = TASK_BUDGET_MODE_TIME_US \<longrightarrow>
        clk = (budget_ticks E (TASK_BUDGET_TIME_US s), x_counter E (queries s))
        \<and> queries s4 = Suc (queries s)"
    and eq: "\<forall>n. dpc_arrive n E processor s = map_option (dpc_finish E processor (task_ptr s))
        (dpc_loop n E (dpc_context processor) (current_cpu_index processor) (TASK_BUDGET_MODE s) clk
          (TASK_BUDGET_POLLS s) 0 s4)"
    by (rule dpc_arrive_start [OF assms(1-4) True, of processor])
  have "dpc_loop (8 * (m + 1)) E (dpc_context processor) (current_cpu_index processor) TASK_BUDGET_MODE_TIME_US clk
      (TASK_BUDGET_POLLS s) 0 s4 \<noteq> None"
    using assms(5,6) clk current_cpu_bound
    by (intro dpc_loop_time_ends [OF assms(1) _ _ _ s4, of _ _ _ m])
      (auto simp: TASK_BUDGET_MODE_POLLS_def TASK_BUDGET_MODE_TIME_US_def)
  then show ?thesis using eq assms(5) by simp
qed (rule completed_run_ends [OF assms(3)])

section \<open>An executor for concrete runs\<close>

definition bool_dpc :: "bool dpc_ops" where
  "bool_dpc = \<lparr>ke_initialize_dpc = False, ke_insert_queue_dpc = (\<lambda>q. (\<not> q, True)),
     ke_retire_dpc = (\<lambda>q. False), dpc_queued = (\<lambda>q. q)\<rparr>"

definition release_build :: alloc_build where
  "release_build = \<lparr>wdk_alloc_align = False, debug_assertions = False\<rparr>"

text \<open>A future that wakes itself a number of times before it is ready.\<close>

definition nat_poll :: "nat \<Rightarrow> unit \<Rightarrow> (NTSTATUS Poll \<times> nat \<times> unit) activity" where
  "nat_poll f w =
     (if f = 0 then Finish (Ready STATUS_SUCCESS, 0, w)
      else Act WakeByRef (\<lambda>b. Finish (Pending, f - 1, w)))"

definition nat_env :: "(nat, unit, bool, bool) dpc_env" where
  "nat_env = \<lparr>x_build = \<lparr>hardening = Hardened, overflow_checks = True\<rparr>,
     x_alloc_build = release_build, x_kernel = small_kernel,
     x_layout = \<lparr>layout_size = 128, layout_align = 8\<rparr>, x_event = flag_event, x_dpc = bool_dpc,
     x_frequency = 1000000, x_counter = (\<lambda>i. of_nat (100 * i)), x_poll = nat_poll,
     x_drop = (\<lambda>f. Finish)\<rparr>"

definition nat_start :: "(nat, unit, bool, bool) executor" where
  "nat_start = \<lparr>task_ptr = null, the_task = None, CURRENT_TASKS = (\<lambda>i. null),
     TASK_BUDGET_MODE = TASK_BUDGET_MODE_POLLS, TASK_BUDGET_POLLS = DEFAULT_TASK_BUDGET_POLLS,
     TASK_BUDGET_TIME_US = DEFAULT_TASK_BUDGET_TIME_US, DEFAULT_TASK_TAG = KCOM_TAG,
     trackers = (\<lambda>a. tracker_new flag_event), memory = small_memory, future_world = (), queries = 0, wakers = 0,
     handles = 0, polls = 0, drops = 0, frees = 0\<rparr>"

definition nat_ledger :: ledger where
  "nat_ledger = \<lparr>l_tracker = 4096, l_pending = 0, l_blocks = Map.empty\<rparr>"

definition cpu0 :: PROCESSOR_NUMBER where
  "cpu0 = \<lparr>Group = 0, Number = 0\<rparr>"

lemma nat_env_ok: "dpc_env_ok nat_env"
  unfolding dpc_env_ok_def nat_env_def dpc_contract_def bool_dpc_def valid_layout_def
  by (auto intro!: bexI [of _ 3])

lemma nat_fresh: "fresh_executor nat_env nat_ledger nat_start"
  using small_held [of debug_build "\<lparr>pool = NonPagedNx, tag = 0\<rparr>"]
  by (simp add: fresh_executor_def nat_env_def nat_start_def nat_ledger_def wdk_held_def
      small_memory_def tracker_counts_def tracker_new_def flag_event_contract flag_event_signalled)


lemmas alloc_eval =
  wdk_alloc_def wdk_dealloc_def release_build_def needs_overaligned_def wdk_allocator_new_def
  alloc_uninitialized_def ex_allocate_pool_uninitialized_def get_ex_allocate_pool2_def
  try_init_ex_allocate_pool2_def small_kernel_def small_memory_def small_alloc_def PASSIVE_LEVEL_def
  EX_ALLOCATE_POOL2_STATE_UNINIT_def EX_ALLOCATE_POOL2_STATE_READY_def


lemmas executor_eval =
  nat_env_def nat_start_def bool_dpc_def flag_event_def tracker_new_def tracker_begin_def
  tracker_complete_def task_tracker_begin_def task_tracker_complete_def begin_tracker_def
  complete_tracker_def spawn_dpc_task_def spawn_dpc_task_tracked_def spawn_cancellable_def
  allocate_task_def th_schedule_def queue_dpc_def th_add_ref_def th_release_def with_task_def
  put_task_def refcount_add_def refcount_sub_def add_hardened_def sub_hardened_def fetch_update_def
  add_closure_def sub_closure_def WDK_ALLOC_ALIGNMENT_def Let_def

definition nat_task :: "nat \<Rightarrow> (nat, bool) DpcTask" where
  "nat_task n = \<lparr>th_ref_count = 1, th_scheduled = 1, th_completed = 0, th_cancel_requested = 0,
     th_dpc = True, th_alloc_tag = KCOM_TAG, th_tracker = 4096, task_future = Holding n\<rparr>"

definition nat_spawned :: "nat \<Rightarrow> (nat, unit, bool, bool) executor" where
  "nat_spawned n = nat_start\<lparr>task_ptr := 65536, the_task := Some (nat_task n),
     trackers := (trackers nat_start)(4096 := \<lparr>pending = 1, event = False\<rparr>),
     memory := \<lparr>bytes = (\<lambda>x. 0), blocks = [(65536, (128, KCOM_TAG))], pool2_ptr = 4096,
       pool2_state = 2\<rparr>\<rparr>"

lemma nat_spawn:
  "spawn_dpc_task nat_env (dpc_context cpu0) 4096 n nat_start
    = Return (STATUS_SUCCESS, nat_spawned n)"
  by (simp add: alloc_eval executor_eval nat_spawned_def nat_task_def)

lemmas run_eval =
  dpc_arrive_def dpc_routine_def nat_task_def nat_spawned_def current_cpu_index_def cpu0_def
  MAX_GROUP_COUNT_def MAX_PROC_PER_GROUP_def MAX_CPU_COUNT_def raw_waker_def set_current_task_def
  time_budget_def budget_check_def
  dpc_turn_def poll_shim_def nat_poll_def run_op_def permitted_def wake_by_ref_raw_def
  clear_current_def clear_current_task_def destroy_shim_def dpc_finish_def drop_raw_def kbox_drop_def
  wdk_ops_def kbox_from_raw_parts_def TASK_BUDGET_MODE_POLLS_def TASK_BUDGET_MODE_TIME_US_def
  DEFAULT_TASK_BUDGET_POLLS_def

lemma nat_run:
  "\<exists>s. dpc_arrive 3 nat_env cpu0 (nat_spawned 0) = Some (Return s) \<and> the_task s = None"
  by (simp add: alloc_eval executor_eval run_eval numeral_3_eq_3)

section \<open>Properties\<close>

text \<open>C1: In every reachable state of a task of the DPC executor its reference count is exactly the
  number of wakers, handles and queue entries that refer to it, and it is allocated; once there are
  none, the future has been dropped exactly once, the block freed exactly once with the tag it was
  allocated with (the pool holds the blocks it held before the spawn) and the tracker told exactly
  once. Whatever the future and the holders do, no operation of theirs and no run of the DPC touches
  freed memory, uses a dropped future, panics or stops.\<close>

theorem dpc_task_lifecycle:
  assumes "dpc_env_ok E" and "fresh_executor E L s0" and "dpc_reach E (l_tracker L) s0 s"
  shows "(case the_task s of
        Some t \<Rightarrow>
          unat (th_ref_count t) = wakers s + handles s + (if dpc_queued (x_dpc E) (th_dpc t) then 1 else 0)
          \<and> th_ref_count t \<noteq> 0 \<and> drops s = (if th_completed t = 0 then 0 else 1) \<and> frees s = 0
      | None \<Rightarrow>
          wakers s = 0 \<and> handles s = 0 \<and> drops s = 1 \<and> frees s = 1
          \<and> map_of (blocks (memory s)) = map_of (blocks (memory s0))
          \<and> (l_tracker L \<noteq> null \<longrightarrow> unat (pending (trackers s (l_tracker L))) = l_pending L))
    \<and> (\<forall>c p. \<not> rc_polling c \<longrightarrow> returns (run_op E c p s))
    \<and> (\<forall>t n processor r. the_task s = Some t \<longrightarrow> dpc_queued (x_dpc E) (th_dpc t) \<longrightarrow>
         dpc_arrive n E processor s = Some r \<longrightarrow> returns r)"
proof -
  have a: "account E L 0 None s" "sched_ok E s" using dpc_reach_account [OF assms] by auto
  have "returns (run_op E c p s)" if "\<not> rc_polling c" for c p
    using run_op_ok [OF assms(1) a, of c p] that by (auto simp: op_ok_def)
  moreover have "returns r" if "the_task s = Some t" "dpc_queued (x_dpc E) (th_dpc t)"
      "dpc_arrive n E processor s = Some r" for t n processor r
    using dpc_arrive_ok [OF assms(1) a(1) that] by auto
  ultimately show ?thesis
    using a(1) assms(2)
    by (auto simp: account_def live_ok_def resources_ok_def fresh_executor_def tracker_counts_def
        split: option.splits)
qed

theorem dpc_task_lifecycle_witness:
  "\<exists>s. dpc_reach nat_env 4096 nat_start s \<and> the_task s = None \<and> drops s = 1 \<and> frees s = 1
    \<and> unat (pending (trackers s 4096)) = 0"
proof -
  obtain s where s: "dpc_arrive 3 nat_env cpu0 (nat_spawned 0) = Some (Return s)" "the_task s = None"
    using nat_run by blast
  have "dpc_reach nat_env 4096 nat_start (nat_spawned 0)"
    using nat_spawn [of 0] by (rule dpc_reach.spawned)
  then have r: "dpc_reach nat_env 4096 nat_start s"
    by (rule dpc_reach.ran [where t = "nat_task 0", OF _ _ _ s(1)])
      (simp_all add: nat_spawned_def nat_task_def nat_env_def bool_dpc_def)
  have "dpc_reach nat_env (l_tracker nat_ledger) nat_start s" using r by (simp add: nat_ledger_def)
  from dpc_task_lifecycle [OF nat_env_ok nat_fresh this] show ?thesis
    using r s(2) by (auto simp: nat_ledger_def)
qed

lemma run_op_queues:
  assumes "dpc_env_ok E" and "account E L own cur s" and "sched_ok E s" and "own \<le> 3"
    and "rc_polling c \<longrightarrow> 0 < own" and "the_task s = Some t" and "th_completed t = 0"
    and "p \<in> {WakeWaker, WakeByRef} \<or> p = CancelTask \<and> th_cancel_requested t = 0"
    and "permitted c p s"
  shows "\<exists>b s' t'. run_op E c p s = Return (b, s') \<and> the_task s' = Some t'
    \<and> dpc_queued (x_dpc E) (th_dpc t')"
proof -
  have n: "task_ptr s \<noteq> null" using assms(2) by (simp add: account_def)
  consider "p = WakeWaker" | "p = WakeByRef" | "p = CancelTask" "th_cancel_requested t = 0"
    using assms(8) by auto
  then show ?thesis
  proof cases
    case 1
    then show ?thesis
      using wake_raw_ok [OF assms(1-4), of c] assms(6,7,9) by (auto simp: run_op_def permitted_def)
  next
    case 2
    then show ?thesis
      using schedule_queues [OF assms(1,2,6) _ assms(3,7), of c] assms(4,9) n
      by (auto simp: run_op_def wake_by_ref_raw_def)
  next
    case 3
    obtain s' t' where "th_cancel E c s = Return s'" "the_task s' = Some t'"
      "dpc_queued (x_dpc E) (th_dpc t')"
      by (rule cancel_ok [OF assms(1,2,6) _ assms(3), of c]) (use 3 assms(4,7) in auto)
    then show ?thesis using 3 assms(9) n by (auto simp: run_op_def handle_cancel_def)
  qed
qed

text \<open>C7: No wake-up is lost. Waking a task that is not completed, by value or by reference and also
  from inside its own poll, leaves its DPC in the queue, as does the first cancellation; no
  operation of a holder takes it out again; and the run that takes it out polls the future.\<close>

theorem dpc_wakeups_not_lost:
  assumes "dpc_env_ok E" and "account E L own cur s" and "sched_ok E s" and "own \<le> 3"
    and "rc_polling c \<longrightarrow> 0 < own" and "the_task s = Some t" and "th_completed t = 0"
  shows "((p \<in> {WakeWaker, WakeByRef} \<or> p = CancelTask \<and> th_cancel_requested t = 0) \<and> permitted c p s
        \<or> dpc_queued (x_dpc E) (th_dpc t) \<longrightarrow>
      (\<exists>b s' t'. run_op E c p s = Return (b, s') \<and> the_task s' = Some t'
        \<and> th_completed t' = 0 \<and> dpc_queued (x_dpc E) (th_dpc t')))
    \<and> (own = 0 \<and> cur = None \<and> dpc_queued (x_dpc E) (th_dpc t)
        \<and> dpc_arrive n E processor s = Some r \<longrightarrow>
      (\<exists>s'. r = Return s' \<and> polls s < polls s'))"
proof -
  obtain b s' where s': "run_op E c p s = Return (b, s')" "keeps E s s'"
    using run_op_ok [OF assms(1-5), of p] by (auto simp: op_ok_def)
  have c: "th_completed t' = 0" if "the_task s' = Some t'" for t'
    using s'(2) that assms(6,7) by (auto simp: keeps_def)
  have "\<exists>t'. the_task s' = Some t' \<and> th_completed t' = 0 \<and> dpc_queued (x_dpc E) (th_dpc t')"
    if "(p \<in> {WakeWaker, WakeByRef} \<or> p = CancelTask \<and> th_cancel_requested t = 0) \<and> permitted c p s
      \<or> dpc_queued (x_dpc E) (th_dpc t)"
    using that
  proof
    assume "dpc_queued (x_dpc E) (th_dpc t)"
    then show ?thesis using keeps_queued [OF s'(2) assms(6)] assms(7) by auto
  next
    assume "(p \<in> {WakeWaker, WakeByRef} \<or> p = CancelTask \<and> th_cancel_requested t = 0) \<and> permitted c p s"
    then show ?thesis using run_op_queues [OF assms, of p] s'(1) c by auto
  qed
  moreover have "\<exists>s'. r = Return s' \<and> polls s < polls s'"
    if "own = 0" "cur = None" "dpc_queued (x_dpc E) (th_dpc t)" "dpc_arrive n E processor s = Some r"
    using dpc_arrive_ok [OF assms(1) _ assms(6) that(3,4), of L] assms(2,7) that(1,2) by auto
  ultimately show ?thesis using s'(1) by blast
qed

lemma nat_spawned_account: "account nat_env nat_ledger 0 None (nat_spawned n)
    \<and> sched_ok nat_env (nat_spawned n)"
  using dpc_reach_account [OF nat_env_ok nat_fresh] dpc_reach.spawned [OF nat_spawn, of n]
  by (simp add: nat_ledger_def)

theorem dpc_wakeups_not_lost_witness:
  "\<exists>s'. dpc_arrive 65 nat_env cpu0 (nat_spawned 2) = Some (Return s') \<and> 0 < polls s'"
proof -
  have "dpc_arrive 65 nat_env cpu0 (nat_spawned 2) \<noteq> None"
    using nat_spawned_account [of 2]
    by (intro dpc_arrive_polls_ends [OF nat_env_ok, of nat_ledger _ "nat_task 2"])
      (auto simp: nat_spawned_def nat_start_def nat_task_def nat_env_def bool_dpc_def
        DEFAULT_TASK_BUDGET_POLLS_def)
  then obtain r where r: "dpc_arrive 65 nat_env cpu0 (nat_spawned 2) = Some r" by blast
  have t: "the_task (nat_spawned 2) = Some (nat_task 2)" "th_completed (nat_task 2) = 0"
    "dpc_queued (x_dpc nat_env) (th_dpc (nat_task 2))"
    by (simp_all add: nat_spawned_def nat_task_def nat_env_def bool_dpc_def)
  have "\<exists>s'. r = Return s' \<and> polls (nat_spawned 2) < polls s'"
    using dpc_wakeups_not_lost [of nat_env nat_ledger 0 None "nat_spawned 2" "dpc_context cpu0"
        "nat_task 2" WakeByRef 65 cpu0 r] r t nat_env_ok nat_spawned_account
    by simp
  then show ?thesis using r by (auto simp: nat_spawned_def nat_start_def)
qed

text \<open>C8: A run of the DPC always ends. With the budget \<open>Polls(n)\<close> it takes at most \<open>n + 1\<close> turns; with
  a time budget it ends as soon as the performance counter has advanced by the budget at one of
  the readings, which are eight turns apart. Either way the run returns.\<close>

theorem dpc_run_terminates:
  assumes "dpc_env_ok E" and "fresh_executor E L s0" and "dpc_reach E (l_tracker L) s0 s"
    and "the_task s = Some t" and "dpc_queued (x_dpc E) (th_dpc t)"
  shows "(TASK_BUDGET_MODE s = TASK_BUDGET_MODE_POLLS \<longrightarrow>
      (\<exists>s'. dpc_arrive (unat (TASK_BUDGET_POLLS s) + 1) E processor s = Some (Return s')
        \<and> polls s' \<le> polls s + unat (TASK_BUDGET_POLLS s) + 1))
    \<and> (TASK_BUDGET_MODE s = TASK_BUDGET_MODE_TIME_US
        \<and> budget_ticks E (TASK_BUDGET_TIME_US s)
            \<le> x_counter E (Suc (queries s) + m) - x_counter E (queries s) \<longrightarrow>
      (\<exists>s'. dpc_arrive (8 * (m + 1)) E processor s = Some (Return s')))"
proof -
  have a: "account E L 0 None s" using dpc_reach_account [OF assms(1-3)] by simp
  have "\<exists>s'. dpc_arrive (unat (TASK_BUDGET_POLLS s) + 1) E processor s = Some (Return s')
        \<and> polls s' \<le> polls s + unat (TASK_BUDGET_POLLS s) + 1"
    if "TASK_BUDGET_MODE s = TASK_BUDGET_MODE_POLLS"
    using dpc_arrive_polls_ends [OF assms(1) a assms(4,5) that] dpc_arrive_ok [OF assms(1) a assms(4,5)]
      that by fastforce
  moreover have "\<exists>s'. dpc_arrive (8 * (m + 1)) E processor s = Some (Return s')"
    if "TASK_BUDGET_MODE s = TASK_BUDGET_MODE_TIME_US"
      "budget_ticks E (TASK_BUDGET_TIME_US s)
        \<le> x_counter E (Suc (queries s) + m) - x_counter E (queries s)"
    using dpc_arrive_time_ends [OF assms(1) a assms(4,5) that] dpc_arrive_ok [OF assms(1) a assms(4,5)]
    by fastforce
  ultimately show ?thesis by blast
qed

theorem dpc_run_terminates_witness:
  "\<exists>s'. dpc_arrive 65 nat_env cpu0 (nat_spawned 1000) = Some (Return s') \<and> polls s' \<le> 65"
proof -
  have r: "dpc_reach nat_env (l_tracker nat_ledger) nat_start (nat_spawned 1000)"
    using dpc_reach.spawned [OF nat_spawn] by (simp add: nat_ledger_def)
  have t: "the_task (nat_spawned 1000) = Some (nat_task 1000)"
    "dpc_queued (x_dpc nat_env) (th_dpc (nat_task 1000))"
    by (simp_all add: nat_spawned_def nat_task_def nat_env_def bool_dpc_def)
  have b: "TASK_BUDGET_MODE (nat_spawned 1000) = TASK_BUDGET_MODE_POLLS"
    "unat (TASK_BUDGET_POLLS (nat_spawned 1000)) = 64" "polls (nat_spawned 1000) = 0"
    by (simp_all add: nat_spawned_def nat_start_def DEFAULT_TASK_BUDGET_POLLS_def)
  show ?thesis
    using dpc_run_terminates [OF nat_env_ok nat_fresh r t, of cpu0 0] b by simp
qed

lemma self_waking_turn:
  assumes "dpc_env_ok E" and "account E L 2 cpu s" and "sched_ok E s"
    and "the_task s = Some t" and "th_completed t = 0"
    and "\<forall>f w. x_poll E f w = Act WakeByRef (\<lambda>b. Finish (Pending, f, w))"
  shows "\<exists>s'. dpc_turn E c cpu TASK_BUDGET_MODE_POLLS clk pb ck s
      = Return (if pb = 0 then Broke else Again (pb - 1) ck, s')"
proof -
  obtain f where f: "task_future t = Holding f"
    using account_the_task [OF assms(2,4)] assms(5)
    by (cases "task_future t") (auto simp: live_ok_def)
  let ?s = "s\<lparr>polls := polls s + 1\<rparr>"
  have a: "account E L 2 cpu ?s" "sched_ok E ?s" "the_task ?s = Some t" using assms by simp_all
  obtain s1 t1 where s1: "th_schedule E (c\<lparr>rc_polling := True\<rparr>) ?s = Return s1"
    "account E L 2 cpu s1" "the_task s1 = Some t1" "th_scheduled t1 \<noteq> 0"
    using schedule_queues [OF assms(1) a(1,3) _ a(2) assms(5), of "c\<lparr>rc_polling := True\<rparr>"] by auto
  let ?s2 = "put_task (t1\<lparr>task_future := Holding f\<rparr>) (s1\<lparr>future_world := future_world s\<rparr>)"
  have n: "task_ptr s \<noteq> null" using assms(2) by (simp add: account_def)
  have p: "poll_shim E c s = Return (Pending, ?s2)"
    using f assms(4,6) s1(1,3) n
    by (simp add: poll_shim_def with_task_Some run_op_def permitted_def wake_by_ref_raw_def)
  show ?thesis
  proof (cases "pb = 0")
    case True
    have "account E L 2 cpu ?s2"
      using poll_shim_ok [OF assms(1-5), of c] p by auto
    then obtain s3 where "queue_dpc E c ?s2 = Return s3"
      using queue_dpc_ok [OF assms(1), of L 2 cpu ?s2 "t1\<lparr>task_future := Holding f\<rparr>" c] by auto
    then show ?thesis
      using p True s1(4) by (simp add: dpc_turn_def budget_check_def)
  next
    case False
    then show ?thesis using p s1(4) by (simp add: dpc_turn_def budget_check_def)
  qed
qed

lemma self_waking_loop:
  assumes "dpc_env_ok E" and "\<forall>i. cpu = Some i \<longrightarrow> i < MAX_CPU_COUNT" and "\<not> rc_polling c"
    and "\<forall>f w. x_poll E f w = Act WakeByRef (\<lambda>b. Finish (Pending, f, w))"
    and "account E L 2 cpu s" and "sched_ok E s" and "the_task s = Some t" and "th_completed t = 0"
  shows "\<exists>s'. dpc_loop (unat pb + 1) E c cpu TASK_BUDGET_MODE_POLLS clk pb ck s = Some (Return (Broke, s'))
    \<and> polls s' = polls s + unat pb + 1"
  using assms(5-)
proof (induction "unat pb" arbitrary: pb ck s t)
  case 0
  obtain s' where "dpc_turn E c cpu TASK_BUDGET_MODE_POLLS clk pb ck s = Return (Broke, s')"
    using self_waking_turn [OF assms(1) "0.prems" assms(4), of c clk pb ck] "0.hyps" by auto
  moreover from this have "polls s' = Suc (polls s)"
    using dpc_turn_ok [OF assms(1) "0.prems" assms(2,3), of TASK_BUDGET_MODE_POLLS clk pb ck] by auto
  ultimately show ?case using "0.hyps" by simp
next
  case (Suc k)
  have pb: "pb \<noteq> 0" "unat (pb - 1) = k" using Suc.hyps(2) by (auto simp: unat_pred)
  obtain s1 where s1: "dpc_turn E c cpu TASK_BUDGET_MODE_POLLS clk pb ck s = Return (Again (pb - 1) ck, s1)"
    using self_waking_turn [OF assms(1) Suc.prems assms(4), of c clk pb ck] pb(1) by auto
  then obtain t1 where t1: "account E L 2 cpu s1" "sched_ok E s1" "the_task s1 = Some t1"
    "th_completed t1 = 0" "polls s1 = Suc (polls s)"
    using dpc_turn_ok [OF assms(1) Suc.prems assms(2,3), of TASK_BUDGET_MODE_POLLS clk pb ck]
    by (auto simp: turn_ok_def)
  show ?case
    using Suc.hyps(1) [of "pb - 1" s1 t1 ck] pb(2) t1 s1 Suc.hyps(2) [symmetric] by simp
qed

text \<open>The budget \<open>Polls(n)\<close> allows one poll more than its documentation says: a future that wakes
  itself in every poll is polled exactly \<open>n + 1\<close> times in one run.\<close>

theorem polls_budget_polls_once_more:
  assumes "dpc_env_ok E" and "fresh_executor E L s0" and "dpc_reach E (l_tracker L) s0 s"
    and "the_task s = Some t" and "dpc_queued (x_dpc E) (th_dpc t)" and "th_completed t = 0"
    and "\<forall>f w. x_poll E f w = Act WakeByRef (\<lambda>b. Finish (Pending, f, w))"
  shows "\<exists>s'. dpc_arrive (unat n + 1) E processor (set_task_budget (Polls n) s) = Some (Return s')
    \<and> polls s' = polls s + unat n + 1"
proof -
  let ?s = "set_task_budget (Polls n) s"
  have a: "account E L 0 None ?s" using dpc_reach_account [OF assms(1-3)] by simp
  have t: "the_task ?s = Some t" "TASK_BUDGET_MODE ?s = TASK_BUDGET_MODE_POLLS"
    "TASK_BUDGET_POLLS ?s = n" "polls ?s = polls s" "task_ptr ?s = task_ptr s"
    using assms(4) by (simp_all add: set_task_budget_def)
  obtain s4 t4 clk where s4: "account E L 2 (current_cpu_index processor) s4" "sched_ok E s4"
    "the_task s4 = Some t4" "th_completed t4 = 0" "task_ptr s4 = task_ptr ?s" "polls s4 = polls ?s"
    and eq: "\<forall>n. dpc_arrive n E processor ?s = map_option (dpc_finish E processor (task_ptr ?s))
        (dpc_loop n E (dpc_context processor) (current_cpu_index processor) (TASK_BUDGET_MODE ?s) clk
          (TASK_BUDGET_POLLS ?s) 0 s4)"
    by (rule dpc_arrive_start [OF assms(1) a t(1) assms(5,6), of processor])
  have cpu: "\<forall>i. current_cpu_index processor = Some i \<longrightarrow> i < MAX_CPU_COUNT"
    using current_cpu_bound by blast
  obtain s5 where s5: "dpc_loop (unat n + 1) E (dpc_context processor) (current_cpu_index processor)
      TASK_BUDGET_MODE_POLLS clk n 0 s4 = Some (Return (Broke, s5))" "polls s5 = polls s4 + unat n + 1"
    using self_waking_loop [OF assms(1) cpu _ assms(7) s4(1-4), of "dpc_context processor" n clk 0]
    by auto
  then have l: "account E L 2 (current_cpu_index processor) s5" "sched_ok E s5" "advances E s4 s5"
    using dpc_loop_ok [OF assms(1) cpu _ s4(1-4) s5(1)] by auto
  have "task_ptr s5 = task_ptr ?s" "task_ptr ?s \<noteq> null"
    using l(3) s4(5) a by (simp_all add: advances_def account_def)
  then obtain s' where s': "dpc_finish E processor (task_ptr ?s) (Return (Broke, s5)) = Return s'"
    "keeps E s5 s'"
    using dpc_finish_ok [OF assms(1) l(2), of "task_ptr ?s" Broke L processor] l(1) by auto
  then show ?thesis using eq s5 s4(6) t by (simp add: keeps_def)
qed

definition spin_env :: "(nat, unit, bool, bool) dpc_env" where
  "spin_env = nat_env\<lparr>x_poll := (\<lambda>f w. Act WakeByRef (\<lambda>b. Finish (Pending, f, w)))\<rparr>"

lemma spin_env_ok: "dpc_env_ok spin_env"
  using nat_env_ok by (simp add: spin_env_def dpc_env_ok_def)

lemma spin_fresh: "fresh_executor spin_env nat_ledger nat_start"
  using nat_fresh by (simp add: spin_env_def fresh_executor_def)

lemma spin_spawn:
  "spawn_dpc_task spin_env (dpc_context cpu0) 4096 n nat_start
    = Return (STATUS_SUCCESS, nat_spawned n)"
  by (simp add: spin_env_def alloc_eval executor_eval nat_spawned_def nat_task_def)

theorem polls_budget_polls_once_more_witness:
  "\<exists>s'. dpc_arrive 3 spin_env cpu0 (set_task_budget (Polls 2) (nat_spawned 0)) = Some (Return s')
    \<and> polls s' = 3"
proof -
  have r: "dpc_reach spin_env (l_tracker nat_ledger) nat_start (nat_spawned 0)"
    using dpc_reach.spawned [OF spin_spawn] by (simp add: nat_ledger_def)
  have t: "the_task (nat_spawned 0) = Some (nat_task 0)" "th_completed (nat_task 0) = 0"
    "dpc_queued (x_dpc spin_env) (th_dpc (nat_task 0))" "polls (nat_spawned 0) = 0"
    by (simp_all add: nat_spawned_def nat_start_def nat_task_def spin_env_def nat_env_def bool_dpc_def)
  show ?thesis
    using polls_budget_polls_once_more [OF spin_env_ok spin_fresh r t(1,3,2), of 2 cpu0] t(4)
    by (simp add: spin_env_def numeral_3_eq_3)
qed

text \<open>A spawn either succeeds and leaves the task allocated, with its DPC in the queue and with
  exactly the references of the queue and of the handle it returns, or reports
  \<open>STATUS_INSUFFICIENT_RESOURCES\<close>, drops the future and leaves the pool as it was.\<close>

theorem dpc_spawn_cases:
  assumes "dpc_env_ok E" and "fresh_executor E L s"
  shows "(\<exists>r s'. spawn_dpc_task_cancellable_tracked E c (l_tracker L) f s = Return (r, s')
      \<and> (case r of
           Inl st \<Rightarrow> st = STATUS_INSUFFICIENT_RESOURCES \<and> drops s' = 1
             \<and> map_of (blocks (memory s')) = map_of (blocks (memory s))
         | Inr h \<Rightarrow> handles s' = 1 \<and> (\<exists>t. the_task s' = Some t
             \<and> dpc_queued (x_dpc E) (th_dpc t) \<and> unat (th_ref_count t) = 2)))
    \<and> (\<exists>st s'. spawn_dpc_task E c (l_tracker L) f s = Return (st, s')
      \<and> (st = STATUS_INSUFFICIENT_RESOURCES \<and> drops s' = 1
           \<and> map_of (blocks (memory s')) = map_of (blocks (memory s))
         \<or> st = STATUS_SUCCESS \<and> handles s' = 0 \<and> (\<exists>t. the_task s' = Some t
             \<and> dpc_queued (x_dpc E) (th_dpc t) \<and> unat (th_ref_count t) = 1)))"
proof -
  have b: "map_of (blocks (memory s)) = l_blocks L" using assms(2) by (simp add: fresh_executor_def)
  have "\<exists>t. the_task s' = Some t \<and> dpc_queued (x_dpc E) (th_dpc t) \<and> unat (th_ref_count t) = h + 1
      \<and> handles s' = h"
    if "spawned_ok E L h f (future_world s) s'" for s' h
    using that by (auto simp: spawned_ok_def account_def live_ok_def)
  then show ?thesis
    using spawn_cancellable_ok [OF assms, of c f] spawn_tracked_ok [OF assms, of c f] b
    by (fastforce simp: spawn_dpc_task_cancellable_tracked_def spawn_dpc_task_def refused_ok_def
        split: sum.splits)
qed

theorem dpc_spawn_cases_witness:
  "\<exists>t. the_task (nat_spawned 5) = Some t \<and> unat (th_ref_count t) = 1"
proof -
  have l: "l_tracker nat_ledger = 4096" by (simp add: nat_ledger_def)
  show ?thesis
    using dpc_spawn_cases [OF nat_env_ok nat_fresh, of "dpc_context cpu0" 5] nat_spawn [of 5]
    by (auto simp: l status_defs)
qed

end
