(* ===== verification/Timer_Properties.thy ===== *)
theory Timer_Properties
  imports Kernel_Timer Dpc_Properties
begin

text \<open>
  The timer future under every interleaving of its owner, the timer and its DPC: the reference count,
  the lock and the waker stay consistent and the block is freed exactly once; and the two ways in which
  the future fails.
\<close>

section \<open>The invariant\<close>

definition timer_env_ok :: "('t, 'l) timer_env \<Rightarrow> bool" where
  "timer_env_ok E \<longleftrightarrow>
     valid_layout (tm_layout E) \<and> layout_size (tm_layout E) \<noteq> 0 \<and> lock_contract (tm_lock E)
     \<and> timer_contract (tm_ops E)"

abbreviation irnt_alloc :: WdkAllocator where
  "irnt_alloc \<equiv> wdk_allocator_new NonPagedNx IRNT_TAG"

abbreviation kt_phase :: "('t, 'l) timer_env \<Rightarrow> ('t, 'l) KernelTimerInner \<Rightarrow> timer_phase" where
  "kt_phase E i \<equiv> timer_phase_of (tm_ops E) (kt_timer i)"

text \<open>The references of the owner: its own, and the one of a timer that it took back.\<close>

fun owner_refs :: "owner_pc \<Rightarrow> nat" where
  "owner_refs (DropCancelled c) = (if c then 2 else 1)"
| "owner_refs (DropRemoved b) = (if b then 2 else 1)"
| "owner_refs OwnerGone = 0"
| "owner_refs _ = 1"

definition pending_refs :: "timer_phase \<Rightarrow> nat" where
  "pending_refs ph = (if ph = Ticking \<or> ph = DpcQueued then 1 else 0)"

fun owner_locked :: "owner_pc \<Rightarrow> bool" where
  "owner_locked (PollLocked w g) = True"
| "owner_locked _ = False"

fun dpc_locked :: "dpc_pc \<Rightarrow> bool" where
  "dpc_locked (DpcLocked g) = True"
| "dpc_locked _ = False"

fun owner_dropping :: "owner_pc \<Rightarrow> bool" where
  "owner_dropping OwnerIdle = False"
| "owner_dropping (PollChecked w) = False"
| "owner_dropping (PollLocked w g) = False"
| "owner_dropping PollStored = False"
| "owner_dropping _ = True"

text \<open>What the owner knows about the timer while it drops the future.\<close>

fun owner_knows :: "owner_pc \<Rightarrow> timer_phase \<Rightarrow> dpc_pc \<Rightarrow> bool" where
  "owner_knows (DropCancelled c) ph d = (if c then ph = Unset \<and> d = NoDpc else ph \<noteq> Ticking)"
| "owner_knows (DropRemoved b) ph d = (ph = Unset \<and> (b \<longrightarrow> d = NoDpc))"
| "owner_knows DropReleased ph d = (ph = Unset \<and> d = NoDpc)"
| "owner_knows OwnerGone ph d = (ph = Unset)"
| "owner_knows _ ph d = True"

definition log_balance :: "waker_event list \<Rightarrow> nat option \<Rightarrow> bool" where
  "log_balance evs stored \<longleftrightarrow>
     (\<forall>w. count_list evs (Cloned w) = count_list evs (Dropped w) + (if stored = Some w then 1 else 0))"

definition kt_inv ::
  "('t, 'l) timer_env \<Rightarrow> owner_pc \<Rightarrow> dpc_pc \<Rightarrow> ('t, 'l) KernelTimerInner \<Rightarrow> bool" where
  "kt_inv E ow d i \<longleftrightarrow>
     unat (kt_ref_count i) = owner_refs ow + pending_refs (kt_phase E i) + (if d = NoDpc then 0 else 1)
     \<and> kt_ref_count i \<noteq> 0
     \<and> (kt_phase E i = Zeroed \<longleftrightarrow> kt_armed i = 0) \<and> (kt_armed i = 0 \<longrightarrow> \<not> owner_dropping ow)
     \<and> (d \<noteq> NoDpc \<longrightarrow> kt_phase E i = Unset) \<and> owner_knows ow (kt_phase E i) d
     \<and> lock_held (tm_lock E) (sl_lock (kt_waker i)) = (owner_locked ow \<or> dpc_locked d)
     \<and> \<not> (owner_locked ow \<and> dpc_locked d)
     \<and> (kt_armed i \<noteq> 0 \<and> \<not> owner_dropping ow \<longrightarrow>
          kt_phase E i \<in> {Ticking, DpcQueued} \<or> d = DpcStarted \<or> kt_fired i \<noteq> 0)"

definition kt_mem ::
  "('t, 'l) timer_env \<Rightarrow> (addr \<rightharpoonup> usize \<times> u32) \<Rightarrow> addr \<Rightarrow> km \<Rightarrow> bool" where
  "kt_mem E B p m \<longleftrightarrow>
     wdk_held (tm_alloc_build E) (tm_pool E) irnt_alloc [(p, tm_layout E)] m
     \<and> (map_of (blocks m))(backing (tm_alloc_build E) m (p, tm_layout E) := None) = B"

definition timer_inv ::
  "('t, 'l) timer_env \<Rightarrow> (addr \<rightharpoonup> usize \<times> u32) \<Rightarrow> owner_pc \<Rightarrow> dpc_pc \<Rightarrow> ('t, 'l) timer_state \<Rightarrow> bool" where
  "timer_inv E B ow d s \<longleftrightarrow>
     (case ts_inner s of
        None \<Rightarrow> ow = OwnerGone \<and> d = NoDpc \<and> ts_frees s = 1 \<and> pool_ok (tm_pool E) (ts_memory s)
          \<and> map_of (blocks (ts_memory s)) = B \<and> log_balance (ts_log s) None
      | Some i \<Rightarrow> kt_inv E ow d i \<and> ts_frees s = 0 \<and> kt_mem E B (ts_ptr s) (ts_memory s)
          \<and> log_balance (ts_log s) (sl_value (kt_waker i)))"

section \<open>References\<close>

lemma put_kt_simps [simp]:
  "ts_inner (put_kt i s) = Some i" "ts_ptr (put_kt i s) = ts_ptr s" "ts_memory (put_kt i s) = ts_memory s"
  "ts_irql (put_kt i s) = ts_irql s" "ts_log (put_kt i s) = ts_log s" "ts_frees (put_kt i s) = ts_frees s"
  "put_kt j (put_kt i s) = put_kt j s"
  by (simp_all add: put_kt_def)

lemma with_kt_Some: "ts_inner s = Some i \<Longrightarrow> with_kt g s = g i"
  by (simp add: with_kt_def)

lemma with_put_kt [simp]: "with_kt g (put_kt i s) = g i"
  by (simp add: with_kt_def)

lemma kt_release_shared:
  assumes "ts_inner s = Some i" and "1 < unat (kt_ref_count i)"
  shows "\<exists>c. kt_release E s = Return (put_kt (i\<lparr>kt_ref_count := c\<rparr>) s)
    \<and> unat c = unat (kt_ref_count i) - 1 \<and> c \<noteq> 0"
proof -
  obtain c where c: "refcount_sub (tm_build E) (kt_ref_count i) = Return (c, c)"
    "unat c = unat (kt_ref_count i) - 1"
    using refcount.sub_counts [of "kt_ref_count i" "tm_build E"] assms(2) by auto
  then have "c \<noteq> 0" using assms(2) by (metis unat_eq_zero_iff zero_less_diff less_numeral_extra(3))
  then show ?thesis using c assms(1) by (auto simp: kt_release_def with_kt_Some Let_def)
qed

lemma kt_release_last:
  assumes "timer_env_ok E" and "ts_inner s = Some i" and "unat (kt_ref_count i) = 1"
    and "kt_mem E B (ts_ptr s) (ts_memory s)"
  shows "\<exists>m. kt_release E s = Return (s\<lparr>ts_inner := None, ts_memory := m, ts_frees := ts_frees s + 1,
      ts_log := ts_log s @ log_drop (sl_value (kt_waker i))\<rparr>)
    \<and> pool_ok (tm_pool E) m \<and> map_of (blocks m) = B"
proof -
  have sub: "refcount_sub (tm_build E) (kt_ref_count i) = Return (0, 0)"
    using refcount.sub_counts [of "kt_ref_count i" "tm_build E"] assms(3)
    by (metis diff_self_eq_0 unat_eq_zero_iff zero_less_one)
  have h: "wdk_held (tm_alloc_build E) (tm_pool E) irnt_alloc ([] @ (ts_ptr s, tm_layout E) # []) (ts_memory s)"
    using assms(4) by (simp add: kt_mem_def)
  obtain m where m: "wdk_dealloc (tm_alloc_build E) (tm_pool E) irnt_alloc (ts_ptr s) (tm_layout E)
      (ts_memory s) = Return m" "wdk_held (tm_alloc_build E) (tm_pool E) irnt_alloc [] m"
    using wdk_dealloc_law [OF h] by auto
  have "map_of (blocks m) = B"
    using wdk_dealloc_blocks [OF h _ m(1)] assms(1,4)
    by (simp add: timer_env_ok_def kt_mem_def delete_conv')
  then show ?thesis
    using m assms(2) sub
    by (intro exI [of _ m]) (simp add: kt_release_def kt_free_def with_kt_Some Let_def kbox_drop_def wdk_ops_def
        kbox_from_raw_parts_def wdk_held_def put_kt_def)
qed

lemma log_balance_drop: "log_balance evs w \<Longrightarrow> log_balance (evs @ log_drop w) None"
  by (cases w) (auto simp: log_balance_def log_drop_def)

lemma log_balance_store: "log_balance evs w \<Longrightarrow> log_balance (evs @ Cloned v # log_drop w) (Some v)"
  by (cases w) (auto simp: log_balance_def log_drop_def)

lemma log_balance_wake: "log_balance (evs @ [Woken w]) v \<longleftrightarrow> log_balance evs v"
  by (simp add: log_balance_def)

text \<open>A reference given back: the rest of the invariant need only hold while the block lives.\<close>

lemma timer_release_ok:
  assumes "timer_env_ok E" and "timer_inv E B ow d s" and "ts_inner s = Some i"
    and "\<And>c. unat c + 1 = unat (kt_ref_count i) \<Longrightarrow> c \<noteq> 0 \<Longrightarrow> kt_inv E ow' d' (i\<lparr>kt_ref_count := c\<rparr>)"
    and "unat (kt_ref_count i) = 1 \<Longrightarrow> ow' = OwnerGone \<and> d' = NoDpc"
  shows "\<exists>s'. kt_release E s = Return s' \<and> timer_inv E B ow' d' s'"
proof -
  have a: "kt_mem E B (ts_ptr s) (ts_memory s)" "ts_frees s = 0" "kt_ref_count i \<noteq> 0"
    "log_balance (ts_log s) (sl_value (kt_waker i))"
    using assms(2,3) by (auto simp: timer_inv_def kt_inv_def)
  show ?thesis
  proof (cases "1 < unat (kt_ref_count i)")
    case True
    then obtain c where "kt_release E s = Return (put_kt (i\<lparr>kt_ref_count := c\<rparr>) s)"
      "unat c + 1 = unat (kt_ref_count i)" "c \<noteq> 0"
      using kt_release_shared [OF assms(3)] by fastforce
    then show ?thesis using assms(4) a by (auto simp: timer_inv_def)
  next
    case False
    moreover have "0 < unat (kt_ref_count i)" using a(3) by (simp add: unat_gt_0)
    ultimately have 1: "unat (kt_ref_count i) = 1" by linarith
    then show ?thesis
      using kt_release_last [OF assms(1,3) 1 a(1)] assms(5) a(2) log_balance_drop [OF a(4)]
      by (auto simp: timer_inv_def)
  qed
qed

section \<open>The steps keep the invariant\<close>

lemma timer_inv_live:
  assumes "timer_inv E B ow d s" and "ow \<noteq> OwnerGone \<or> d \<noteq> NoDpc"
  shows "\<exists>i. ts_inner s = Some i \<and> kt_inv E ow d i"
  using assms by (cases "ts_inner s") (auto simp: timer_inv_def)

lemma timer_inv_put:
  assumes "timer_inv E B ow d s" and "ts_inner s = Some i" and "kt_inv E ow' d' i'"
    and "log_balance (ts_log s @ evs) (sl_value (kt_waker i'))"
  shows "timer_inv E B ow' d' (put_kt i' s\<lparr>ts_irql := q, ts_log := ts_log s @ evs\<rparr>)"
  using assms by (simp add: timer_inv_def)

text \<open>The same for pieces that leave the waker, the IRQL and the log alone.\<close>

lemma timer_inv_put_plain:
  assumes "timer_inv E B ow d s" and "ts_inner s = Some i" and "kt_inv E ow' d' i'"
    and "sl_value (kt_waker i') = sl_value (kt_waker i)"
  shows "timer_inv E B ow' d' (put_kt i' s)"
  using assms by (simp add: timer_inv_def)

lemma timer_inv_same:
  assumes "timer_inv E B ow d s" and "ts_inner s = Some i" and "kt_inv E ow' d' i"
  shows "timer_inv E B ow' d' s"
  using assms by (simp add: timer_inv_def)

definition owner_ok ::
  "('t, 'l) timer_env \<Rightarrow> (addr \<rightharpoonup> usize \<times> u32) \<Rightarrow> dpc_pc
    \<Rightarrow> (owner_pc \<times> NTSTATUS Poll option \<times> ('t, 'l) timer_state) outcome option \<Rightarrow> bool" where
  "owner_ok E B d x \<longleftrightarrow>
     (case x of None \<Rightarrow> True
      | Some r \<Rightarrow> \<exists>ow' p s'. r = Return (ow', p, s') \<and> timer_inv E B ow' d s')"

lemma waker_lock_cases:
  assumes "timer_env_ok E" and "ts_inner s = Some i"
  shows "if lock_held (tm_lock E) (sl_lock (kt_waker i)) then waker_lock E q s = None
    else \<exists>l. waker_lock E q s = Some (Return (\<lparr>old_irql = q\<rparr>, DISPATCH_LEVEL,
        put_kt (i\<lparr>kt_waker := kt_waker i\<lparr>sl_lock := l\<rparr>\<rparr>) s)) \<and> lock_held (tm_lock E) l"
  using assms by (fastforce simp: timer_env_ok_def lock_contract_def waker_lock_def spin_lock_lock_def)

lemma lock_released:
  "timer_env_ok E \<Longrightarrow> ke_release_spin_lock (tm_lock E) q l = (q', l') \<Longrightarrow> q' = q \<and> \<not> lock_held (tm_lock E) l'"
  by (metis timer_env_ok_def lock_contract_def fst_conv snd_conv)

lemma poll_arm_ok:
  assumes "timer_env_ok E" and "timer_inv E B PollStored d s"
  shows "\<exists>s'. poll_arm E due s = Return s' \<and> timer_inv E B OwnerIdle d s'"
proof -
  obtain i where i: "ts_inner s = Some i" "kt_inv E PollStored d i" using timer_inv_live [OF assms(2)] by auto
  show ?thesis
  proof (cases "kt_armed i = 0")
    case False
    have "kt_inv E OwnerIdle d i" using i(2) by (simp add: kt_inv_def)
    then show ?thesis
      using False i(1) timer_inv_same [OF assms(2) i(1)] by (simp add: poll_arm_def with_kt_Some)
  next
    case True
    then have z: "kt_phase E i = Zeroed" "d = NoDpc" "unat (kt_ref_count i) = 1"
      using i(2) by (auto simp: kt_inv_def pending_refs_def)
    then have "unat (kt_ref_count i) < refcount_cap (tm_build E)" by (simp add: refcount_cap_def)
    from refcount.add_counts [OF this] obtain c where
      c: "refcount_add (tm_build E) (kt_ref_count i) = Return (c, c)" "unat c = 2"
      using z(3) by auto
    define t where "t = ke_initialize_timer_dpc (tm_ops E) (ke_initialize_timer (tm_ops E) (kt_timer i))"
    let ?t = "snd (ke_set_timer (tm_ops E) due t)"
    have "timer_phase_of (tm_ops E) ?t = Ticking"
      using assms(1) by (simp add: timer_env_ok_def timer_contract_def t_def)
    moreover have "c \<noteq> 0" using c(2) by auto
    ultimately have "kt_inv E OwnerIdle d (i\<lparr>kt_armed := 1, kt_ref_count := c, kt_timer := ?t\<rparr>)"
      using i(2) z c(2) by (auto simp: kt_inv_def pending_refs_def)
    then show ?thesis
      using True i(1) c(1) timer_inv_put_plain [OF assms(2) i(1)]
      by (simp add: poll_arm_def with_kt_Some kt_add_ref_def t_def Let_def split_beta)
  qed
qed

lemma drop_cancel_ok:
  assumes "timer_env_ok E" and "timer_inv E B DropMarked d s"
  shows "\<exists>c s'. drop_cancel E s = Return (c, s') \<and> timer_inv E B (DropCancelled c) d s'"
proof -
  obtain i where i: "ts_inner s = Some i" "kt_inv E DropMarked d i" using timer_inv_live [OF assms(2)] by auto
  then have "kt_phase E i \<noteq> Zeroed" by (auto simp: kt_inv_def)
  then obtain t' where t': "ke_cancel_timer (tm_ops E) (kt_timer i) = Return (kt_phase E i = Ticking, t')"
    "timer_phase_of (tm_ops E) t' = (if kt_phase E i = Ticking then Unset else kt_phase E i)"
    using assms(1) unfolding timer_env_ok_def timer_contract_def by blast
  have "kt_inv E (DropCancelled (kt_phase E i = Ticking)) d (i\<lparr>kt_timer := t'\<rparr>)"
    using i(2) t'(2) by (auto simp: kt_inv_def pending_refs_def)
  then show ?thesis
    using t'(1) i(1) timer_inv_put_plain [OF assms(2) i(1)] by (simp add: drop_cancel_def with_kt_Some)
qed

lemma drop_remove_ok:
  assumes "timer_env_ok E" and "timer_inv E B (DropCancelled c) d s"
  shows "\<exists>r s'. drop_remove E s = Return (r, s') \<and> timer_inv E B (DropRemoved (c \<or> r)) d s'"
proof -
  obtain i where i: "ts_inner s = Some i" "kt_inv E (DropCancelled c) d i"
    using timer_inv_live [OF assms(2)] by auto
  then have "kt_phase E i \<noteq> Zeroed" by (auto simp: kt_inv_def)
  then obtain t' where t': "ke_remove_queue_dpc (tm_ops E) (kt_timer i) = Return (kt_phase E i = DpcQueued, t')"
    "timer_phase_of (tm_ops E) t' = (if kt_phase E i = DpcQueued then Unset else kt_phase E i)"
    using assms(1) unfolding timer_env_ok_def timer_contract_def by blast
  have "kt_inv E (DropRemoved (c \<or> kt_phase E i = DpcQueued)) d (i\<lparr>kt_timer := t'\<rparr>)"
    using i(2) t'(2) by (cases "kt_phase E i") (auto simp: kt_inv_def pending_refs_def split: if_splits)
  then show ?thesis
    using t'(1) i(1) timer_inv_put_plain [OF assms(2) i(1)] by (auto simp: drop_remove_def with_kt_Some)
qed

lemma owner_next_ok:
  assumes "timer_env_ok E" and "timer_inv E B ow d s"
    and "ow = OwnerIdle \<and> call = CallDrop \<longrightarrow> was_armed s"
  shows "owner_ok E B d (owner_next E fut call ow s)"
proof (cases "ow = OwnerGone")
  case False
  then obtain i where i: "ts_inner s = Some i" "kt_inv E ow d i" using timer_inv_live [OF assms(2)] by auto
  show ?thesis
  proof (cases ow)
    case OwnerIdle
    show ?thesis
    proof (cases call)
      case (CallPoll w)
      have "kt_inv E (PollChecked w) d i" using i(2) OwnerIdle by (simp add: kt_inv_def)
      then show ?thesis
        using CallPoll OwnerIdle i(1) assms(2) timer_inv_same [OF assms(2) i(1)]
        by (simp add: owner_ok_def owner_next_def poll_check_def with_kt_Some)
    next
      case CallDrop
      then have "kt_armed i \<noteq> 0" using assms(3) OwnerIdle i(1) by (simp add: was_armed_def)
      then have "kt_inv E DropMarked d (i\<lparr>kt_cancelled := 1\<rparr>)"
        using i(2) OwnerIdle by (simp add: kt_inv_def)
      then show ?thesis
        using CallDrop OwnerIdle i(1) timer_inv_put_plain [OF assms(2) i(1)]
        by (simp add: owner_ok_def owner_next_def drop_mark_def with_kt_Some)
    qed
  next
    case (PollChecked w)
    show ?thesis
    proof (cases "lock_held (tm_lock E) (sl_lock (kt_waker i))")
      case True
      then show ?thesis
        using waker_lock_cases [OF assms(1) i(1), of "ts_irql s"] PollChecked
        by (simp add: owner_ok_def owner_next_def)
    next
      case False
      then obtain l where l: "waker_lock E (ts_irql s) s = Some (Return (\<lparr>old_irql = ts_irql s\<rparr>, DISPATCH_LEVEL,
          put_kt (i\<lparr>kt_waker := kt_waker i\<lparr>sl_lock := l\<rparr>\<rparr>) s))" "lock_held (tm_lock E) l"
        using waker_lock_cases [OF assms(1) i(1), of "ts_irql s"] by auto
      have "kt_inv E (PollLocked w \<lparr>old_irql = ts_irql s\<rparr>) d (i\<lparr>kt_waker := kt_waker i\<lparr>sl_lock := l\<rparr>\<rparr>)"
        using i(2) PollChecked False l(2) by (simp add: kt_inv_def)
      then show ?thesis
        using l(1) PollChecked timer_inv_put [OF assms(2) i(1), of _ _ _ "[]"] assms(2) i(1)
        by (simp add: owner_ok_def owner_next_def timer_inv_def)
    qed
  next
    case (PollLocked w g)
    obtain q l where l: "ke_release_spin_lock (tm_lock E) (old_irql g) (sl_lock (kt_waker i)) = (q, l)"
      by (cases "ke_release_spin_lock (tm_lock E) (old_irql g) (sl_lock (kt_waker i))")
    let ?i = "i\<lparr>kt_waker := kt_waker i\<lparr>sl_value := Some w, sl_lock := l\<rparr>\<rparr>"
    have "kt_inv E PollStored d ?i"
      using i(2) PollLocked lock_released [OF assms(1) l] by (simp add: kt_inv_def)
    moreover have "log_balance (ts_log s @ Cloned w # log_drop (sl_value (kt_waker i))) (sl_value (kt_waker ?i))"
      using assms(2) i(1) log_balance_store by (simp add: timer_inv_def)
    ultimately show ?thesis
      using l PollLocked i(1) timer_inv_put [OF assms(2) i(1), of PollStored d ?i]
      by (simp add: owner_ok_def owner_next_def poll_store_def with_kt_Some spin_guard_drop_def
          spin_guard_deref_def spin_guard_deref_mut_def)
  next
    case PollStored
    then show ?thesis
      using poll_arm_ok [OF assms(1), of B d s "due_time_100ns fut"] assms(2)
      by (auto simp: owner_ok_def owner_next_def)
  next
    case DropMarked
    then show ?thesis
      using drop_cancel_ok [OF assms(1), of B d s] assms(2) by (auto simp: owner_ok_def owner_next_def)
  next
    case (DropCancelled c)
    then show ?thesis
      using drop_remove_ok [OF assms(1), of B c d s] assms(2) by (auto simp: owner_ok_def owner_next_def)
  next
    case (DropRemoved b)
    have "\<exists>s'. kt_release E s = Return s' \<and> timer_inv E B (if b then DropReleased else OwnerGone) d s'"
    proof (rule timer_release_ok [OF assms(1,2) i(1)])
      show "kt_inv E (if b then DropReleased else OwnerGone) d (i\<lparr>kt_ref_count := c\<rparr>)"
        if "unat c + 1 = unat (kt_ref_count i)" "c \<noteq> 0" for c
        using that i(2) DropRemoved by (cases b) (auto simp: kt_inv_def pending_refs_def)
      show "(if b then DropReleased else OwnerGone) = OwnerGone \<and> d = NoDpc" if "unat (kt_ref_count i) = 1"
        using that i(2) DropRemoved by (cases b; cases d) (auto simp: kt_inv_def pending_refs_def)
    qed
    then show ?thesis using DropRemoved by (auto simp: owner_ok_def owner_next_def)
  next
    case DropReleased
    have "\<exists>s'. kt_release E s = Return s' \<and> timer_inv E B OwnerGone d s'"
      by (rule timer_release_ok [OF assms(1,2) i(1)])
        (use i(2) DropReleased in \<open>auto simp: kt_inv_def pending_refs_def split: if_splits\<close>)
    then show ?thesis using DropReleased by (auto simp: owner_ok_def owner_next_def)
  qed (use False in simp)
qed (simp add: owner_ok_def owner_next_def)

definition dpc_ok ::
  "('t, 'l) timer_env \<Rightarrow> (addr \<rightharpoonup> usize \<times> u32) \<Rightarrow> owner_pc
    \<Rightarrow> (dpc_pc \<times> ('t, 'l) timer_state) outcome option \<Rightarrow> bool" where
  "dpc_ok E B ow x \<longleftrightarrow>
     (case x of None \<Rightarrow> True | Some r \<Rightarrow> \<exists>d' s'. r = Return (d', s') \<and> timer_inv E B ow d' s')"

lemma dpc_next_ok:
  assumes "timer_env_ok E" and "timer_inv E B ow d s"
  shows "dpc_ok E B ow (dpc_next E d s)"
proof (cases "ts_inner s")
  case None
  then show ?thesis using assms(2) by (simp add: timer_inv_def dpc_ok_def dpc_next_def)
next
  case i: (Some i)
  then have k: "kt_inv E ow d i" using assms(2) by (simp add: timer_inv_def)
  show ?thesis
  proof (cases d)
    case NoDpc
    have "kt_inv E ow DpcStarted (i\<lparr>kt_timer := timer_retire (tm_ops E) (kt_timer i)\<rparr>)"
      if q: "kt_phase E i = DpcQueued"
    proof -
      have "timer_phase_of (tm_ops E) (timer_retire (tm_ops E) (kt_timer i)) = Unset"
        using assms(1) q by (simp add: timer_env_ok_def timer_contract_def)
      then show ?thesis
        using k NoDpc q by (cases ow) (auto simp: kt_inv_def pending_refs_def split: if_splits)
    qed
    then show ?thesis
      using NoDpc i timer_inv_put_plain [OF assms(2) i]
      by (simp add: dpc_ok_def dpc_next_def dpc_start_def with_kt_Some)
  next
    case DpcStarted
    have "kt_inv E ow DpcFired (i\<lparr>kt_fired := 1\<rparr>)"
      using k DpcStarted by (cases ow) (auto simp: kt_inv_def)
    then show ?thesis
      using DpcStarted i timer_inv_put_plain [OF assms(2) i]
      by (simp add: dpc_ok_def dpc_next_def dpc_fire_def with_kt_Some)
  next
    case DpcFired
    have "kt_inv E ow DpcLeaving i" "kt_inv E ow DpcCalling i"
      using k DpcFired by (cases ow; auto simp: kt_inv_def)+
    then show ?thesis
      using DpcFired i timer_inv_same [OF assms(2) i]
      by (simp add: dpc_ok_def dpc_next_def dpc_cancelled_def with_kt_Some)
  next
    case DpcCalling
    show ?thesis
    proof (cases "lock_held (tm_lock E) (sl_lock (kt_waker i))")
      case True
      then show ?thesis
        using waker_lock_cases [OF assms(1) i, of DISPATCH_LEVEL] DpcCalling
        by (simp add: dpc_ok_def dpc_next_def)
    next
      case False
      then obtain l where l: "waker_lock E DISPATCH_LEVEL s = Some (Return (\<lparr>old_irql = DISPATCH_LEVEL\<rparr>,
          DISPATCH_LEVEL, put_kt (i\<lparr>kt_waker := kt_waker i\<lparr>sl_lock := l\<rparr>\<rparr>) s))" "lock_held (tm_lock E) l"
        using waker_lock_cases [OF assms(1) i, of DISPATCH_LEVEL] by auto
      have "kt_inv E ow (DpcLocked \<lparr>old_irql = DISPATCH_LEVEL\<rparr>) (i\<lparr>kt_waker := kt_waker i\<lparr>sl_lock := l\<rparr>\<rparr>)"
        using k DpcCalling False l(2) by (cases ow) (auto simp: kt_inv_def)
      then show ?thesis
        using l(1) DpcCalling timer_inv_put_plain [OF assms(2) i] by (simp add: dpc_ok_def dpc_next_def)
    qed
  next
    case (DpcLocked g)
    obtain q l where l: "ke_release_spin_lock (tm_lock E) (old_irql g) (sl_lock (kt_waker i)) = (q, l)"
      by (cases "ke_release_spin_lock (tm_lock E) (old_irql g) (sl_lock (kt_waker i))")
    let ?i = "i\<lparr>kt_waker := kt_waker i\<lparr>sl_lock := l\<rparr>\<rparr>"
    have "kt_inv E ow DpcLeaving ?i"
      using k DpcLocked lock_released [OF assms(1) l] by (cases ow) (auto simp: kt_inv_def)
    then show ?thesis
      using l DpcLocked i assms(2)
      by (cases "sl_value (kt_waker i)") (simp_all add: dpc_ok_def dpc_next_def dpc_wake_def with_kt_Some spin_guard_drop_def
          spin_guard_deref_def timer_inv_def log_balance_wake)
  next
    case DpcLeaving
    have "\<exists>s'. kt_release E s = Return s' \<and> timer_inv E B ow NoDpc s'"
    proof (rule timer_release_ok [OF assms(1,2) i])
      show "kt_inv E ow NoDpc (i\<lparr>kt_ref_count := c\<rparr>)"
        if "unat c + 1 = unat (kt_ref_count i)" "c \<noteq> 0" for c
        using that k DpcLeaving by (cases ow) (auto simp: kt_inv_def pending_refs_def split: if_splits)
      show "ow = OwnerGone \<and> NoDpc = NoDpc" if "unat (kt_ref_count i) = 1"
        using that k DpcLeaving by (cases ow) (auto simp: kt_inv_def pending_refs_def split: if_splits)
    qed
    then show ?thesis using DpcLeaving by (auto simp: dpc_ok_def dpc_next_def)
  qed
qed

lemma timer_expire_ok:
  assumes "timer_env_ok E" and "timer_inv E B ow d s" and "ts_inner s = Some i" and "kt_phase E i = Ticking"
  shows "timer_inv E B ow d (put_kt (i\<lparr>kt_timer := timer_expire (tm_ops E) (kt_timer i)\<rparr>) s)"
proof -
  have "timer_phase_of (tm_ops E) (timer_expire (tm_ops E) (kt_timer i)) = DpcQueued"
    using assms(1,4) by (simp add: timer_env_ok_def timer_contract_def)
  moreover have "kt_inv E ow d i" using assms(2,3) by (simp add: timer_inv_def)
  ultimately have "kt_inv E ow d (i\<lparr>kt_timer := timer_expire (tm_ops E) (kt_timer i)\<rparr>)"
    using assms(4) by (cases ow) (auto simp: kt_inv_def pending_refs_def split: if_splits)
  then show ?thesis using timer_inv_put_plain [OF assms(2,3)] by simp
qed

section \<open>Reachable states\<close>

definition timer_fresh :: "('t, 'l) timer_env \<Rightarrow> ('t, 'l) timer_state \<Rightarrow> bool" where
  "timer_fresh E s \<longleftrightarrow>
     ts_inner s = None \<and> ts_frees s = 0 \<and> ts_log s = [] \<and> pool_ok (tm_pool E) (ts_memory s)"

lemma timer_created_ok:
  assumes "timer_env_ok E" and "timer_fresh E s0" and "timer_future_new E due s0 = Return (Inr fut, s)"
  shows "timer_inv E (map_of (blocks (ts_memory s0))) OwnerIdle NoDpc s"
proof -
  have ok: "pool_ok (tm_pool E) (ts_memory s0)" and l: "valid_layout (tm_layout E)"
    and nz: "layout_size (tm_layout E) \<noteq> 0"
    using assms(1,2) by (auto simp: timer_fresh_def timer_env_ok_def)
  obtain p m where m: "wdk_alloc (tm_alloc_build E) (tm_pool E) irnt_alloc (tm_layout E) (ts_memory s0)
      = Return (p, m)"
    "alloc_result (tm_alloc_build E) (tm_pool E) irnt_alloc (tm_layout E) (ts_memory s0) (p, m)"
    using wdk_alloc_result [OF ok l] by blast
  have p: "p \<noteq> null" using m(1) assms(3) by (auto simp: timer_future_new_def kt_allocate_def)
  let ?b = "backing (tm_alloc_build E) m (p, tm_layout E)"
  have "wdk_held (tm_alloc_build E) (tm_pool E) irnt_alloc [(p, tm_layout E)] m"
    using alloc_result_held(1) [of _ _ _ "[]", OF _ m(2)] ok p by (simp add: wdk_held_def)
  moreover obtain n where "map_of (blocks (ts_memory s0)) ?b = None"
    "blocks m = (?b, (n, tag irnt_alloc)) # blocks (ts_memory s0)"
    using m(2) nz p by (auto simp: alloc_result_def fresh_block_def)
  ultimately have "kt_mem E (map_of (blocks (ts_memory s0))) p m"
    by (auto simp: kt_mem_def fun_upd_idem_iff)
  then show ?thesis
    using m(1) p assms
    by (auto simp: timer_future_new_def kt_allocate_def timer_inv_def kt_inv_def timer_fresh_def
        timer_env_ok_def timer_contract_def lock_contract_def pending_refs_def spin_lock_new_def
        log_balance_def)
qed

lemma timer_reach_inv:
  assumes "timer_env_ok E" and "timer_fresh E s0" and "timer_reach E fut s0 c"
  shows "timer_inv E (map_of (blocks (ts_memory s0))) (tc_owner c) (tc_dpc c) (tc_state c)"
  using assms(3)
proof (induction rule: timer_reach.induct)
  case (timer_created s)
  then show ?case using timer_created_ok [OF assms(1,2)] by simp
next
  case (timer_owner c call pc r s)
  then show ?case using owner_next_ok [OF assms(1) timer_owner.IH, of call fut] by (auto simp: owner_ok_def)
next
  case (timer_dpc c pc s)
  then show ?case using dpc_next_ok [OF assms(1) timer_dpc.IH] by (auto simp: dpc_ok_def)
next
  case (timer_expired c i)
  then show ?case using timer_expire_ok [OF assms(1) timer_expired.IH] by simp
qed

section \<open>Properties\<close>

text \<open>C29: Whatever the interleaving of the owner of a timer future (which polls it any number of times
  and, once it was polled, drops it), the timer and its DPC routine: no step touches freed memory or
  stops, the waker is never accessed by both sides at once, the block lives exactly as long as the
  owner or a pending or running DPC needs it and is freed exactly once, every waker the future cloned
  has then been dropped exactly once, and a poll after the DPC has run is ready.\<close>

theorem timer_interleavings_safe:
  assumes "timer_env_ok E" and "timer_fresh E s0" and "timer_reach E fut s0 c"
  shows "(\<forall>call r. (tc_owner c = OwnerIdle \<and> call = CallDrop \<longrightarrow> was_armed (tc_state c)) \<longrightarrow>
        owner_next E fut call (tc_owner c) (tc_state c) = Some r \<longrightarrow> returns r)
    \<and> (\<forall>r. dpc_next E (tc_dpc c) (tc_state c) = Some r \<longrightarrow> returns r)
    \<and> \<not> (owner_locked (tc_owner c) \<and> dpc_locked (tc_dpc c))
    \<and> (case ts_inner (tc_state c) of
         None \<Rightarrow> tc_owner c = OwnerGone \<and> tc_dpc c = NoDpc \<and> ts_frees (tc_state c) = 1
           \<and> map_of (blocks (ts_memory (tc_state c))) = map_of (blocks (ts_memory s0))
           \<and> (\<forall>w. count_list (ts_log (tc_state c)) (Cloned w) = count_list (ts_log (tc_state c)) (Dropped w))
       | Some i \<Rightarrow> (tc_owner c \<noteq> OwnerGone \<or> tc_dpc c \<noteq> NoDpc) \<and> ts_frees (tc_state c) = 0
           \<and> (kt_armed i \<noteq> 0 \<and> tc_owner c = OwnerIdle \<and> tc_dpc c = NoDpc
                \<and> timer_phase_of (tm_ops E) (kt_timer i) = Unset \<longrightarrow>
              (\<forall>w. owner_next E fut (CallPoll w) OwnerIdle (tc_state c)
                = Some (Return (OwnerIdle, Some (Ready STATUS_SUCCESS), tc_state c)))))"
proof -
  let ?B = "map_of (blocks (ts_memory s0))"
  have inv: "timer_inv E ?B (tc_owner c) (tc_dpc c) (tc_state c)" using timer_reach_inv [OF assms] .
  have "returns r" if "tc_owner c = OwnerIdle \<and> call = CallDrop \<longrightarrow> was_armed (tc_state c)"
      "owner_next E fut call (tc_owner c) (tc_state c) = Some r" for call r
    using owner_next_ok [OF assms(1) inv that(1), of fut] that(2) by (auto simp: owner_ok_def)
  moreover have "returns r" if "dpc_next E (tc_dpc c) (tc_state c) = Some r" for r
    using dpc_next_ok [OF assms(1) inv] that by (auto simp: dpc_ok_def)
  moreover have "\<not> (owner_locked (tc_owner c) \<and> dpc_locked (tc_dpc c))"
    using inv by (cases "ts_inner (tc_state c)") (auto simp: timer_inv_def kt_inv_def)
  moreover have "case ts_inner (tc_state c) of
         None \<Rightarrow> tc_owner c = OwnerGone \<and> tc_dpc c = NoDpc \<and> ts_frees (tc_state c) = 1
           \<and> map_of (blocks (ts_memory (tc_state c))) = ?B
           \<and> (\<forall>w. count_list (ts_log (tc_state c)) (Cloned w) = count_list (ts_log (tc_state c)) (Dropped w))
       | Some i \<Rightarrow> (tc_owner c \<noteq> OwnerGone \<or> tc_dpc c \<noteq> NoDpc) \<and> ts_frees (tc_state c) = 0
           \<and> (kt_armed i \<noteq> 0 \<and> tc_owner c = OwnerIdle \<and> tc_dpc c = NoDpc
                \<and> timer_phase_of (tm_ops E) (kt_timer i) = Unset \<longrightarrow>
              (\<forall>w. owner_next E fut (CallPoll w) OwnerIdle (tc_state c)
                = Some (Return (OwnerIdle, Some (Ready STATUS_SUCCESS), tc_state c))))"
    using inv
    by (cases "ts_inner (tc_state c)")
      (auto simp: timer_inv_def kt_inv_def pending_refs_def log_balance_def owner_next_def poll_check_def
        with_kt_Some)
  ultimately show ?thesis by blast
qed

section \<open>Concrete runs\<close>

definition flag_lock :: "bool lock_ops" where
  "flag_lock = \<lparr>ke_initialize_spin_lock = False,
     ke_acquire_spin_lock = (\<lambda>q l. if l then None else Some ((q, DISPATCH_LEVEL), True)),
     ke_release_spin_lock = (\<lambda>q l. (q, False)), lock_held = (\<lambda>l. l)\<rparr>"

definition phase_timer :: "timer_phase timer_ops" where
  "phase_timer = \<lparr>timer_zeroed = Zeroed, ke_initialize_timer = (\<lambda>t. t),
     ke_initialize_timer_dpc = (\<lambda>t. Unset), ke_set_timer = (\<lambda>d t. (False, Ticking)),
     ke_cancel_timer = (\<lambda>t. if t = Zeroed then Undefined
       else Return (t = Ticking, if t = Ticking then Unset else t)),
     ke_remove_queue_dpc = (\<lambda>t. if t = Zeroed then Undefined
       else Return (t = DpcQueued, if t = DpcQueued then Unset else t)),
     timer_expire = (\<lambda>t. DpcQueued), timer_retire = (\<lambda>t. Unset), timer_phase_of = (\<lambda>t. t)\<rparr>"

definition tick_env :: "(timer_phase, bool) timer_env" where
  "tick_env = \<lparr>tm_build = \<lparr>hardening = Hardened, overflow_checks = True\<rparr>,
     tm_alloc_build = release_build, tm_pool = small_kernel,
     tm_layout = \<lparr>layout_size = 256, layout_align = 8\<rparr>, tm_lock = flag_lock, tm_ops = phase_timer\<rparr>"

definition tick_start :: "(timer_phase, bool) timer_state" where
  "tick_start = \<lparr>ts_ptr = null, ts_inner = None, ts_memory = small_memory, ts_irql = 0, ts_log = [],
     ts_frees = 0\<rparr>"

definition tick_future :: KernelTimerFuture where
  "tick_future = \<lparr>kf_inner = 65536, due_time_100ns = 100\<rparr>"

lemma tick_env_ok: "timer_env_ok tick_env"
  unfolding timer_env_ok_def tick_env_def lock_contract_def timer_contract_def valid_layout_def
  by (auto simp: flag_lock_def phase_timer_def intro!: bexI [of _ 3])

lemma tick_fresh: "timer_fresh tick_env tick_start"
  using small_held [of debug_build "\<lparr>pool = NonPagedNx, tag = 0\<rparr>"]
  by (simp add: timer_fresh_def tick_env_def tick_start_def wdk_held_def)

text \<open>Schedules: what moves next.\<close>

datatype timer_move = OwnerMoves owner_call | DpcMoves | Expires

definition timer_move ::
  "('t, 'l) timer_env \<Rightarrow> KernelTimerFuture \<Rightarrow> timer_move \<Rightarrow> ('t, 'l) timer_config
    \<Rightarrow> ('t, 'l) timer_config option" where
  "timer_move E fut m c =
     (case m of
        OwnerMoves call \<Rightarrow>
          if tc_owner c = OwnerIdle \<and> call = CallDrop \<and> \<not> was_armed (tc_state c) then None
          else (case owner_next E fut call (tc_owner c) (tc_state c) of
              Some (Return (pc, r, s)) \<Rightarrow> Some (c\<lparr>tc_owner := pc, tc_state := s,
                tc_polled := (if r = None then tc_polled c else r)\<rparr>)
            | _ \<Rightarrow> None)
      | DpcMoves \<Rightarrow>
          (case dpc_next E (tc_dpc c) (tc_state c) of
             Some (Return (pc, s)) \<Rightarrow> Some (c\<lparr>tc_dpc := pc, tc_state := s\<rparr>)
           | _ \<Rightarrow> None)
      | Expires \<Rightarrow>
          (case ts_inner (tc_state c) of
             None \<Rightarrow> None
           | Some i \<Rightarrow>
               if timer_phase_of (tm_ops E) (kt_timer i) = Ticking
               then Some (c\<lparr>tc_state := put_kt (i\<lparr>kt_timer := timer_expire (tm_ops E) (kt_timer i)\<rparr>)
                 (tc_state c)\<rparr>)
               else None))"

primrec timer_run ::
  "('t, 'l) timer_env \<Rightarrow> KernelTimerFuture \<Rightarrow> timer_move list \<Rightarrow> ('t, 'l) timer_config
    \<Rightarrow> ('t, 'l) timer_config option" where
  "timer_run E fut [] c = Some c"
| "timer_run E fut (m # ms) c =
     (case timer_move E fut m c of None \<Rightarrow> None | Some c' \<Rightarrow> timer_run E fut ms c')"

lemma timer_move_reach:
  assumes "timer_reach E fut s0 c" and "timer_move E fut m c = Some c'"
  shows "timer_reach E fut s0 c'"
proof (cases m)
  case (OwnerMoves call)
  then have g: "tc_owner c = OwnerIdle \<and> call = CallDrop \<longrightarrow> was_armed (tc_state c)"
    using assms(2) by (auto simp: timer_move_def split: if_splits)
  obtain pc r s where "owner_next E fut call (tc_owner c) (tc_state c) = Some (Return (pc, r, s))"
    "c' = c\<lparr>tc_owner := pc, tc_state := s, tc_polled := (if r = None then tc_polled c else r)\<rparr>"
    using assms(2) OwnerMoves
    by (auto simp: timer_move_def split: if_splits option.splits outcome.splits prod.splits)
  then show ?thesis using timer_owner [OF assms(1) g] by simp
qed (use assms in \<open>auto simp: timer_move_def intro: timer_reach.intros
      split: if_splits option.splits outcome.splits prod.splits\<close>)

lemma timer_run_reach:
  "timer_reach E fut s0 c \<Longrightarrow> timer_run E fut ms c = Some c' \<Longrightarrow> timer_reach E fut s0 c'"
  by (induction ms arbitrary: c) (auto intro: timer_move_reach split: option.splits)

definition tick_created :: "(timer_phase, bool) timer_config" where
  "tick_created = \<lparr>tc_owner = OwnerIdle, tc_dpc = NoDpc, tc_polled = None,
     tc_state = \<lparr>ts_ptr = 65536,
       ts_inner = Some \<lparr>kt_ref_count = 1, kt_fired = 0, kt_armed = 0, kt_cancelled = 0,
         kt_timer = Zeroed, kt_waker = \<lparr>sl_lock = False, sl_value = None\<rparr>\<rparr>,
       ts_memory = \<lparr>bytes = (\<lambda>x. 0), blocks = [(65536, (256, IRNT_TAG))], pool2_ptr = 4096, pool2_state = 2\<rparr>,
       ts_irql = 0, ts_log = [], ts_frees = 0\<rparr>\<rparr>"

lemmas timer_eval =
  tick_env_def tick_start_def tick_future_def tick_created_def flag_lock_def phase_timer_def
  spin_lock_new_def spin_lock_lock_def spin_guard_drop_def spin_guard_deref_def spin_guard_deref_mut_def
  kt_allocate_def kt_add_ref_def kt_release_def kt_free_def with_kt_def put_kt_def timer_future_new_def
  owner_next_def dpc_next_def poll_check_def waker_lock_def poll_store_def poll_arm_def drop_mark_def
  drop_cancel_def drop_remove_def dpc_start_def dpc_fire_def dpc_cancelled_def dpc_wake_def log_drop_def
  timer_move_def was_armed_def kbox_drop_def wdk_ops_def kbox_from_raw_parts_def

lemma tick_reach: "timer_reach tick_env tick_future tick_start tick_created"
proof -
  have "timer_future_new tick_env (due_time_100ns tick_future) tick_start
      = Return (Inr tick_future, tc_state tick_created)"
    by (simp add: timer_eval alloc_eval executor_eval)
  from timer_created [of tick_env tick_future, OF this] show ?thesis by (simp add: tick_created_def)
qed

theorem timer_interleavings_safe_witness:
  "\<exists>c. timer_reach tick_env tick_future tick_start c \<and> ts_inner (tc_state c) = None
    \<and> ts_frees (tc_state c) = 1"
proof -
  let ?ms = "[OwnerMoves (CallPoll 1), OwnerMoves CallDrop, OwnerMoves CallDrop, OwnerMoves CallDrop,
    Expires, OwnerMoves CallDrop, DpcMoves, OwnerMoves CallDrop, OwnerMoves CallDrop, OwnerMoves CallDrop,
    DpcMoves, DpcMoves, DpcMoves]"
  obtain c where c: "timer_run tick_env tick_future ?ms tick_created = Some c"
    "ts_inner (tc_state c) = None"
    by (simp add: timer_eval alloc_eval executor_eval)
  have r: "timer_reach tick_env tick_future tick_start c" using timer_run_reach [OF tick_reach c(1)] .
  show ?thesis using timer_interleavings_safe [OF tick_env_ok tick_fresh r] r c(2) by auto
qed

text \<open>C30: A wake-up can be lost: \<open>poll\<close> reads \<open>fired\<close> before it stores the waker and does not look
  again. When the DPC runs in between, it wakes the waker of an earlier poll, and the future stays
  pending with the new waker although the timer has fired and nothing will wake that one any more.\<close>

theorem timer_wakeup_lost:
  "timer_env_ok tick_env \<and> timer_fresh tick_env tick_start
    \<and> (\<exists>c i. timer_reach tick_env tick_future tick_start c
        \<and> tc_owner c = OwnerIdle \<and> tc_polled c = Some Pending \<and> ts_inner (tc_state c) = Some i
        \<and> sl_value (kt_waker i) = Some 2 \<and> Woken 2 \<notin> set (ts_log (tc_state c))
        \<and> kt_fired i \<noteq> 0 \<and> tc_dpc c = NoDpc \<and> timer_phase_of (tm_ops tick_env) (kt_timer i) = Unset)"
proof -
  let ?poll = "OwnerMoves (CallPoll 1)"
  let ?ms = "[?poll, ?poll, ?poll, ?poll, Expires, DpcMoves, OwnerMoves (CallPoll 2), DpcMoves, DpcMoves,
    DpcMoves, DpcMoves, DpcMoves, ?poll, ?poll, ?poll]"
  obtain c i where c: "timer_run tick_env tick_future ?ms tick_created = Some c"
    "tc_owner c = OwnerIdle" "tc_polled c = Some Pending" "ts_inner (tc_state c) = Some i"
    "sl_value (kt_waker i) = Some 2" "Woken 2 \<notin> set (ts_log (tc_state c))" "kt_fired i \<noteq> 0"
    "tc_dpc c = NoDpc" "timer_phase_of (tm_ops tick_env) (kt_timer i) = Unset"
    by (simp add: timer_eval alloc_eval executor_eval)
  then show ?thesis using timer_run_reach [OF tick_reach c(1)] tick_env_ok tick_fresh by blast
qed

text \<open>Dropping a future that was never polled cancels a timer that was never initialised.\<close>

lemma unpolled_drop_uses_zeroed_timer:
  assumes "timer_future_new E due s0 = Return (Inr fut, s)"
    and "ke_cancel_timer (tm_ops E) (timer_zeroed (tm_ops E)) = Undefined"
  shows "\<exists>s1. owner_next E fut CallDrop OwnerIdle s = Some (Return (DropMarked, None, s1))
    \<and> owner_next E fut CallDrop DropMarked s1 = Some Undefined"
proof -
  obtain p m where "wdk_alloc (tm_alloc_build E) (tm_pool E) irnt_alloc (tm_layout E) (ts_memory s0)
      = Return (p, m)"
    using assms(1)
    by (cases "wdk_alloc (tm_alloc_build E) (tm_pool E) irnt_alloc (tm_layout E) (ts_memory s0)")
      (auto simp: timer_future_new_def kt_allocate_def)
  then show ?thesis
    using assms
    by (auto simp: timer_future_new_def kt_allocate_def owner_next_def drop_mark_def drop_cancel_def
        with_kt_def put_kt_def split: if_splits)
qed

end
