(* ===== verification/Timer_Task.thy ===== *)
theory Timer_Task
  imports Timer_Properties
begin

text \<open>
  A timer future awaited by a task of the DPC executor, as in
  \<open>examples/kernel_timer_future_driver.rs\<close>: the pieces of \<open>Kernel_Timer\<close> become the poll and the drop of a
  future of \<open>Dpc_Task\<close>, whose waker they clone and drop, and the DPC routine of the timer wakes the task.
  The two DPCs and the client do not overlap. The pool is kept in two states, one for the blocks of the
  executor and one for the block of the timer.
\<close>

section \<open>The timer as a future of the executor\<close>

type_synonym ('t, 'l) timer_world = "('t, 'l) timer_state outcome"

text \<open>
  The waker of the task is number 0. A piece that does not return ends the system; a lock that is taken
  would be spun on for ever, since nobody else is running who could give it back.
\<close>

definition stored_waker :: "('t, 'l) timer_state \<Rightarrow> nat option" where
  "stored_waker s = (case ts_inner s of None \<Rightarrow> None | Some i \<Rightarrow> sl_value (kt_waker i))"

definition drop_stored :: "nat option \<Rightarrow> 'r \<Rightarrow> 'r activity" where
  "drop_stored w r = (case w of None \<Rightarrow> Finish r | Some n \<Rightarrow> Act DropWaker (\<lambda>b. Finish r))"

definition timer_poll ::
  "('t, 'l) timer_env \<Rightarrow> KernelTimerFuture \<Rightarrow> ('t, 'l) timer_state
    \<Rightarrow> (NTSTATUS Poll \<times> ('t, 'l) timer_world) activity" where
  "timer_poll T fut s =
     (case poll_check s of
        Return fired \<Rightarrow>
          if fired then Finish (Ready STATUS_SUCCESS, Return s)
          else
            (case waker_lock T (ts_irql s) s of
               Some (Return (g, irql, s1)) \<Rightarrow>
                 Act CloneWaker (\<lambda>b.
                   act_bind (drop_stored (stored_waker s1) ()) (\<lambda>u.
                     Finish (Pending, and_then (poll_store T 0 g (s1\<lparr>ts_irql := irql\<rparr>))
                       (poll_arm T (due_time_100ns fut)))))
             | _ \<Rightarrow> Finish (Pending, Undefined))
      | _ \<Rightarrow> Finish (Pending, Undefined))"

text \<open>\<open>KernelTimerInner::release\<close>, which drops the stored waker with the block.\<close>

definition timer_release ::
  "('t, 'l) timer_env \<Rightarrow> ('t, 'l) timer_state \<Rightarrow> ('t, 'l) timer_world activity" where
  "timer_release T s =
     (case kt_release T s of
        Return s1 \<Rightarrow> drop_stored (if ts_inner s1 = None then stored_waker s else None) (Return s1)
      | r \<Rightarrow> Finish r)"

definition timer_drop ::
  "('t, 'l) timer_env \<Rightarrow> ('t, 'l) timer_state \<Rightarrow> ('t, 'l) timer_world activity" where
  "timer_drop T s =
     (case and_then (drop_mark s) (\<lambda>s1.
           and_then (drop_cancel T s1) (\<lambda>(cancelled, s2).
           and_then (drop_remove T s2) (\<lambda>(dpc_removed, s3). Return (cancelled \<or> dpc_removed, s3)))) of
        Return (taken_back, s3) \<Rightarrow>
          act_bind (timer_release T s3) (\<lambda>x.
            case x of
              Return s4 \<Rightarrow> if taken_back then timer_release T s4 else Finish (Return s4)
            | r \<Rightarrow> Finish r)
      | r \<Rightarrow> Finish (and_then r (\<lambda>(b, s3). Return s3)))"

text \<open>
  The \<open>async\<close> block of the example. The timer is moved into the \<open>await\<close> and dropped when that is ready;
  its status is ignored.
\<close>

datatype timer_block = TimerUnresumed | TimerAwaiting KernelTimerFuture | TimerReturned

definition timer_await ::
  "('t, 'l) timer_env \<Rightarrow> KernelTimerFuture \<Rightarrow> ('t, 'l) timer_state
    \<Rightarrow> (NTSTATUS Poll \<times> timer_block \<times> ('t, 'l) timer_world) activity" where
  "timer_await T fut s =
     act_bind (timer_poll T fut s) (\<lambda>(r, x).
       case r of
         Pending \<Rightarrow> Finish (Pending, TimerAwaiting fut, x)
       | Ready status \<Rightarrow>
           (case x of
              Return s1 \<Rightarrow> act_bind (timer_drop T s1) (\<lambda>y. Finish (Ready STATUS_SUCCESS, TimerReturned, y))
            | _ \<Rightarrow> Finish (Pending, TimerAwaiting fut, x)))"

definition timer_block_poll ::
  "('t, 'l) timer_env \<Rightarrow> u64 \<Rightarrow> timer_block \<Rightarrow> ('t, 'l) timer_world
    \<Rightarrow> (NTSTATUS Poll \<times> timer_block \<times> ('t, 'l) timer_world) activity" where
  "timer_block_poll T due f W =
     (case W of
        Return s \<Rightarrow>
          (case f of
             TimerUnresumed \<Rightarrow>
               (case timer_future_new T due s of
                  Return (Inl status, s1) \<Rightarrow> Finish (Ready status, TimerReturned, Return s1)
                | Return (Inr fut, s1) \<Rightarrow> timer_await T fut s1
                | r \<Rightarrow> Finish (Pending, f, and_then r (\<lambda>(x, s1). Return s1)))
           | TimerAwaiting fut \<Rightarrow> timer_await T fut s
           | TimerReturned \<Rightarrow> Finish (Pending, f, Panic))
      | _ \<Rightarrow> Finish (Pending, f, W))"

definition timer_block_drop ::
  "('t, 'l) timer_env \<Rightarrow> timer_block \<Rightarrow> ('t, 'l) timer_world \<Rightarrow> ('t, 'l) timer_world activity" where
  "timer_block_drop T f W =
     (case W of
        Return s \<Rightarrow> (case f of TimerAwaiting fut \<Rightarrow> timer_drop T s | _ \<Rightarrow> Finish W)
      | _ \<Rightarrow> Finish W)"

type_synonym ('t, 'l, 'e, 'q) timer_executor = "(timer_block, ('t, 'l) timer_world, 'e, 'q) executor"
type_synonym ('t, 'l, 'e, 'q) timer_dpc_env = "(timer_block, ('t, 'l) timer_world, 'e, 'q) dpc_env"

definition timer_block_env ::
  "('t, 'l) timer_env \<Rightarrow> u64 \<Rightarrow> ('t, 'l, 'e, 'q) timer_dpc_env \<Rightarrow> ('t, 'l, 'e, 'q) timer_dpc_env" where
  "timer_block_env T due E = E\<lparr>x_poll := timer_block_poll T due, x_drop := timer_block_drop T\<rparr>"

section \<open>The DPC of the timer\<close>

text \<open>
  \<open>timer_dpc_routine\<close>, from the kernel taking the DPC out of its queue to the release. It wakes the task
  by reference while it holds the lock of the waker.
\<close>

definition timer_dpc_routine ::
  "('t, 'l) timer_env \<Rightarrow> ('t, 'l, 'e, 'q) timer_dpc_env \<Rightarrow> PROCESSOR_NUMBER \<Rightarrow> ('t, 'l, 'e, 'q) timer_executor
    \<Rightarrow> ('t, 'l, 'e, 'q) timer_executor outcome" where
  "timer_dpc_routine T E processor s =
     and_then (future_world s) (\<lambda>w.
     and_then (dpc_start T w) (\<lambda>w1.
     and_then (dpc_fire w1) (\<lambda>w2.
     and_then (dpc_cancelled w2) (\<lambda>cancelled.
     and_then
       (if cancelled then Return (w2, s)
        else case waker_lock T DISPATCH_LEVEL w2 of
          None \<Rightarrow> Undefined
        | Some x \<Rightarrow>
            and_then x (\<lambda>(g, irql, w3).
            and_then (case stored_waker w3 of
                None \<Rightarrow> Return s
              | Some n \<Rightarrow> and_then (run_op E (dpc_context processor) WakeByRef s) (\<lambda>(b, s1). Return s1)) (\<lambda>s1.
            and_then (dpc_wake T g w3) (\<lambda>w4. Return (w4, s1))))) (\<lambda>(w5, s2).
     and_then (run_activity E (dpc_context processor) (timer_release T w5) s2) (\<lambda>(W, s3).
       Return (s3\<lparr>future_world := W\<rparr>)))))))"

text \<open>The kernel's clock and its DPC queue: a ticking timer expires, a queued DPC of the timer runs.\<close>

definition timer_expires ::
  "('t, 'l) timer_env \<Rightarrow> ('t, 'l, 'e, 'q) timer_executor \<Rightarrow> ('t, 'l, 'e, 'q) timer_executor option" where
  "timer_expires T s =
     (case future_world s of
        Return w \<Rightarrow>
          (case ts_inner w of
             None \<Rightarrow> None
           | Some i \<Rightarrow>
               if timer_phase_of (tm_ops T) (kt_timer i) = Ticking
               then Some (s\<lparr>future_world := Return
                 (put_kt (i\<lparr>kt_timer := timer_expire (tm_ops T) (kt_timer i)\<rparr>) w)\<rparr>)
               else None)
      | _ \<Rightarrow> None)"

definition timer_arrives ::
  "('t, 'l) timer_env \<Rightarrow> ('t, 'l, 'e, 'q) timer_dpc_env \<Rightarrow> PROCESSOR_NUMBER \<Rightarrow> ('t, 'l, 'e, 'q) timer_executor
    \<Rightarrow> ('t, 'l, 'e, 'q) timer_executor outcome option" where
  "timer_arrives T E processor s =
     (case future_world s of
        Return w \<Rightarrow>
          (case ts_inner w of
             None \<Rightarrow> None
           | Some i \<Rightarrow>
               if timer_phase_of (tm_ops T) (kt_timer i) = DpcQueued
               then Some (timer_dpc_routine T E processor s) else None)
      | _ \<Rightarrow> None)"

inductive timer_kernel_step ::
  "('t, 'l) timer_env \<Rightarrow> ('t, 'l, 'e, 'q) timer_dpc_env \<Rightarrow> ('t, 'l, 'e, 'q) timer_executor
    \<Rightarrow> ('t, 'l, 'e, 'q) timer_executor \<Rightarrow> bool"
  for T E s where
  kernel_runs_task: "the_task s = Some t \<Longrightarrow> dpc_queued (x_dpc E) (th_dpc t)
    \<Longrightarrow> dpc_arrive (Suc n) E processor s = Some (Return s') \<Longrightarrow> timer_kernel_step T E s s'"
| kernel_ticks: "timer_expires T s = Some s' \<Longrightarrow> timer_kernel_step T E s s'"
| kernel_runs_timer: "timer_arrives T E processor s = Some (Return s') \<Longrightarrow> timer_kernel_step T E s s'"

text \<open>
  The states of the example and of its variant with a handle: the client asks, cancels and drops its
  handle, the timer expires, and the two DPCs run, in any order.
\<close>

inductive timer_task_reach ::
  "('t, 'l) timer_env \<Rightarrow> ('t, 'l, 'e, 'q) timer_dpc_env \<Rightarrow> addr \<Rightarrow> ('t, 'l, 'e, 'q) timer_executor
    \<Rightarrow> ('t, 'l, 'e, 'q) timer_executor \<Rightarrow> bool"
  for T E tr s0 where
  timer_spawned: "spawn_dpc_task E c tr TimerUnresumed s0 = Return (STATUS_SUCCESS, s)
    \<Longrightarrow> timer_task_reach T E tr s0 s"
| timer_spawned_handle: "spawn_dpc_task_cancellable_tracked E c tr TimerUnresumed s0 = Return (Inr h, s)
    \<Longrightarrow> timer_task_reach T E tr s0 s"
| timer_client: "timer_task_reach T E tr s0 s \<Longrightarrow> \<not> rc_polling c
    \<Longrightarrow> p \<in> {AskHandle, CancelTask, DropHandle} \<Longrightarrow> run_op E c p s = Return (b, s')
    \<Longrightarrow> timer_task_reach T E tr s0 s'"
| timer_kernel: "timer_task_reach T E tr s0 s \<Longrightarrow> timer_kernel_step T E s s' \<Longrightarrow> timer_task_reach T E tr s0 s'"

section \<open>The example\<close>

text \<open>
  The kernel runs whatever is due, on one processor, until nothing is; \<open>None\<close> after \<open>m\<close> steps.
\<close>

fun kernel_runs ::
  "nat \<Rightarrow> nat \<Rightarrow> ('t, 'l) timer_env \<Rightarrow> ('t, 'l, 'e, 'q) timer_dpc_env \<Rightarrow> PROCESSOR_NUMBER
    \<Rightarrow> ('t, 'l, 'e, 'q) timer_executor \<Rightarrow> ('t, 'l, 'e, 'q) timer_executor outcome option" where
  "kernel_runs 0 n T E processor s = None"
| "kernel_runs (Suc m) n T E processor s =
     (if (case the_task s of None \<Rightarrow> False | Some t \<Rightarrow> dpc_queued (x_dpc E) (th_dpc t)) then
        (case dpc_arrive n E processor s of
           Some (Return s1) \<Rightarrow> kernel_runs m n T E processor s1
         | r \<Rightarrow> r)
      else
        (case timer_expires T s of
           Some s1 \<Rightarrow> kernel_runs m n T E processor s1
         | None \<Rightarrow>
             (case timer_arrives T E processor s of
                Some (Return s1) \<Rightarrow> kernel_runs m n T E processor s1
              | Some r \<Rightarrow> Some r
              | None \<Rightarrow> Some (Return s))))"

text \<open>\<open>run\<close> of the example: the kernel works while \<open>drain\<close> waits.\<close>

definition timer_driver_run ::
  "nat \<Rightarrow> nat \<Rightarrow> ('t, 'l) timer_env \<Rightarrow> ('t, 'l, 'e, 'q) timer_dpc_env \<Rightarrow> PROCESSOR_NUMBER \<Rightarrow> addr
    \<Rightarrow> ('t, 'l, 'e, 'q) timer_executor \<Rightarrow> (NTSTATUS \<times> ('t, 'l, 'e, 'q) timer_executor) outcome option" where
  "timer_driver_run m n T E processor tr s0 =
     (let E' = timer_block_env T (- 10000) E;
          s = s0\<lparr>trackers := (trackers s0)(tr := tracker_new (x_event E))\<rparr>
      in case spawn_dpc_task E' \<lparr>rc_irql = 0, rc_processor = processor, rc_polling = False\<rparr> tr TimerUnresumed s of
           Return (status, s1) \<Rightarrow>
             (case kernel_runs m n T E' processor s1 of
                Some (Return s2) \<Rightarrow>
                  map_option (\<lambda>t. Return (status, s2\<lparr>trackers := (trackers s2)(tr := t)\<rparr>))
                    (tracker_drain (x_event E) (trackers s2 tr))
              | r \<Rightarrow> map_option (\<lambda>x. and_then x (\<lambda>s2. Return (status, s2))) r)
         | r \<Rightarrow> Some r)"

end
