(* ===== verification/Timer_Task_Properties.thy ===== *)
theory Timer_Task_Properties
  imports Timer_Task
begin

text \<open>
  What a task that awaits a timer does on the DPC executor: in every reachable state the stored waker
  is the one reference that keeps the task, the wake-up of the timer reaches the task, and both blocks
  are given back.
\<close>

section \<open>Runs of one poll\<close>

lemma clone_waker_run:
  assumes "account E L own cur s" and "the_task s = Some t" and "own \<le> 3" and "rc_polling c"
    and "wakers s + handles s < 2 ^ 31 - 8"
  shows "\<exists>r. run_op E c CloneWaker s = Return (True, put_task (t\<lparr>th_ref_count := r\<rparr>) s\<lparr>wakers := wakers s + 1\<rparr>)
    \<and> account E L own cur (put_task (t\<lparr>th_ref_count := r\<rparr>) s\<lparr>wakers := wakers s + 1\<rparr>)"
proof -
  obtain r where r: "th_add_ref E s = Return (put_task (t\<lparr>th_ref_count := r\<rparr>) s)"
    "account E L (Suc own) cur (put_task (t\<lparr>th_ref_count := r\<rparr>) s)"
    using add_ref_ok [OF assms(1,2)] assms(3) by auto
  have "account E L own cur (put_task (t\<lparr>th_ref_count := r\<rparr>) s\<lparr>wakers := wakers s + 1\<rparr>)"
    using r(2) assms(1,5) by (auto simp: account_def resources_ok_def live_ok_def)
  then show ?thesis
    using r(1) assms by (intro exI [of _ r]) (auto simp: run_op_def permitted_def clone_raw_def raw_waker_def account_def)
qed

lemma drop_waker_run:
  assumes "account E L own cur s" and "the_task s = Some t" and "0 < wakers s" and "0 < own"
  shows "\<exists>r. run_op E c DropWaker s = Return (True, put_task (t\<lparr>th_ref_count := r\<rparr>) (s\<lparr>wakers := wakers s - 1\<rparr>))
    \<and> account E L own cur (put_task (t\<lparr>th_ref_count := r\<rparr>) (s\<lparr>wakers := wakers s - 1\<rparr>))"
proof -
  let ?s = "s\<lparr>wakers := wakers s - 1\<rparr>"
  have a: "account E L (Suc own) cur ?s" using account_lend(1) [OF assms(1,3)] .
  have "1 < unat (th_ref_count t)"
    using account_the_task [OF assms(1,2)] assms(3,4) by (auto simp: live_ok_def)
  then obtain r where "th_release E c ?s = Return (put_task (t\<lparr>th_ref_count := r\<rparr>) ?s)"
    "account E L own cur (put_task (t\<lparr>th_ref_count := r\<rparr>) ?s)"
    using release_shared [OF a, of t c] assms(2,4) by auto
  moreover have "task_ptr s \<noteq> null" using assms(1) by (simp add: account_def)
  ultimately show ?thesis using assms(3) by (intro exI [of _ r]) (simp add: run_op_def permitted_def drop_raw_def)
qed

text \<open>A release that is not the last, or of a task whose future is gone, touches no other reference.\<close>

lemma release_counts:
  assumes "account E L (Suc own) cur s" and "the_task s = Some t" and "th_release E c s = Return s'"
    and "0 < wakers s \<or> th_completed t \<noteq> 0"
  shows "wakers s' = wakers s" and "handles s' = handles s" and "future_world s' = future_world s"
    and "0 < wakers s \<Longrightarrow> cur \<noteq> None \<longrightarrow> 0 < own \<Longrightarrow> \<exists>r. s' = put_task (t\<lparr>th_ref_count := r\<rparr>) s"
proof -
  have l: "live_ok E (Suc own) s t" using assms(1,2) by (rule account_the_task)
  obtain r where r: "refcount_sub (x_build E) (th_ref_count t) = Return (r, r)"
    "unat r = unat (th_ref_count t) - 1"
    using refcount.sub_counts [of "th_ref_count t" "x_build E"] l by (auto simp: live_ok_def)
  have nz: "r \<noteq> 0" if "0 < wakers s" using r(2) l that by (auto simp: live_ok_def)
  show "\<exists>r. s' = put_task (t\<lparr>th_ref_count := r\<rparr>) s" if "0 < wakers s"
    using nz [OF that] r(1) assms(2,3) by (auto simp: th_release_def with_task_Some Let_def)
  show "wakers s' = wakers s" "handles s' = handles s" "future_world s' = future_world s"
    using nz r(1) assms(2-4)
    by (auto simp: th_release_def with_task_Some Let_def destroy_shim_def outcome_simps split: if_splits)
qed

lemma clear_current_counts:
  "clear_current cpu s = Return s' \<Longrightarrow> the_task s' = the_task s \<and> wakers s' = wakers s \<and> handles s' = handles s
    \<and> future_world s' = future_world s"
  by (auto simp: clear_current_def clear_current_task_def split: option.splits if_splits)

text \<open>The state in which a run polls the future, and the result of its first turn.\<close>

definition poll_entry ::
  "('f, 'w, 'e, 'q) dpc_env \<Rightarrow> ledger \<Rightarrow> PROCESSOR_NUMBER \<Rightarrow> ('f, 'w, 'e, 'q) executor \<Rightarrow> ('f, 'w, 'e, 'q) executor
    \<Rightarrow> bool" where
  "poll_entry E L processor s s4 \<longleftrightarrow>
     account E L 2 (current_cpu_index processor) s4 \<and> sched_ok E s4
     \<and> wakers s4 = wakers s \<and> handles s4 = handles s
     \<and> (\<exists>t4. the_task s4 = Some t4 \<and> th_scheduled t4 = 0 \<and> \<not> dpc_queued (x_dpc E) (th_dpc t4))"

lemma dpc_arrive_polls:
  assumes "dpc_env_ok E" and "account E L 0 None s" and "the_task s = Some t"
    and "dpc_queued (x_dpc E) (th_dpc t)" and "th_completed t = 0" and "task_future t = Holding f"
  obtains s4 t4 clk where "poll_entry E L processor s s4" "the_task s4 = Some t4" "th_completed t4 = 0"
    "task_future t4 = Holding f" "future_world s4 = future_world s" "task_ptr s4 = task_ptr s"
    "\<forall>n. dpc_arrive n E processor s = map_option (dpc_finish E processor (task_ptr s))
        (dpc_loop n E (dpc_context processor) (current_cpu_index processor) (TASK_BUDGET_MODE s) clk
          (TASK_BUDGET_POLLS s) 0 s4)"
  by (rule dpc_arrive_start [OF assms(1-5), of processor])
    (use that assms(6) in \<open>auto simp: poll_entry_def\<close>)

lemma poll_shim_first:
  assumes "dpc_env_ok E" and "account E L 2 cpu s" and "sched_ok E s" and "the_task s = Some t"
    and "th_completed t = 0" and "task_future t = Holding f"
    and "run_activity E (c\<lparr>rc_polling := True\<rparr>) (x_poll E f (future_world s)) (s\<lparr>polls := polls s + 1\<rparr>)
      = Return ((r, f', w'), s5)" and "the_task s5 = Some t5"
  defines "s6 \<equiv> put_task (t5\<lparr>task_future := Holding f'\<rparr>) (s5\<lparr>future_world := w'\<rparr>)"
  shows "poll_shim E c s = Return (r, s6)" and "account E L 2 cpu s6" and "sched_ok E s6"
    and "th_completed t5 = 0" and "task_ptr s6 = task_ptr s"
proof -
  show p: "poll_shim E c s = Return (r, s6)"
    using assms(4,6-8) by (simp add: poll_shim_def with_task_Some s6_def)
  obtain t' where "account E L 2 cpu s6" "sched_ok E s6" "advances E s s6" "the_task s6 = Some t'" "th_completed t' = 0"
    using poll_shim_ok [OF assms(1-5), of c] p by auto
  moreover from this have "th_completed t5 = 0" by (auto simp: s6_def)
  ultimately show "account E L 2 cpu s6" "sched_ok E s6" "th_completed t5 = 0" "task_ptr s6 = task_ptr s"
    by (simp_all add: advances_def)
qed

text \<open>A first poll that is pending and wakes nobody ends the run, with the future out of the queue.\<close>

lemma arrive_pending:
  assumes "dpc_env_ok E" and "account E L 0 None s" and "the_task s = Some t"
    and "dpc_queued (x_dpc E) (th_dpc t)" and "th_completed t = 0" and "task_future t = Holding f"
    and "0 < n" and "0 < k"
    and poll: "\<And>s4. poll_entry E L processor s s4 \<Longrightarrow>
      \<exists>s5 t5. run_activity E (dpc_context processor\<lparr>rc_polling := True\<rparr>) (x_poll E f (future_world s)) s4
          = Return ((Pending, f', w'), s5)
        \<and> the_task s5 = Some t5 \<and> th_scheduled t5 = 0 \<and> \<not> dpc_queued (x_dpc E) (th_dpc t5)
        \<and> wakers s5 = k \<and> handles s5 = handles s"
  shows "\<exists>s'. dpc_arrive n E processor s = Some (Return s') \<and> account E L 0 None s' \<and> sched_ok E s'
    \<and> held E s' = Idle f' \<and> future_world s' = w' \<and> wakers s' = k \<and> handles s' = handles s"
proof -
  let ?c = "dpc_context processor" and ?cpu = "current_cpu_index processor"
  obtain s4 t4 clk where s4: "poll_entry E L processor s s4" "the_task s4 = Some t4" "th_completed t4 = 0"
    "task_future t4 = Holding f" "future_world s4 = future_world s" "task_ptr s4 = task_ptr s"
    and eq: "\<forall>n. dpc_arrive n E processor s = map_option (dpc_finish E processor (task_ptr s))
        (dpc_loop n E ?c ?cpu (TASK_BUDGET_MODE s) clk (TASK_BUDGET_POLLS s) 0 s4)"
    by (rule dpc_arrive_polls [OF assms(1-6), of processor])
  have a4: "account E L 2 ?cpu s4" "sched_ok E s4" using s4(1) by (simp_all add: poll_entry_def)
  have "poll_entry E L processor s (s4\<lparr>polls := polls s4 + 1\<rparr>)" using s4(1) by (simp add: poll_entry_def)
  from poll [OF this] obtain s5 t5 where s5: "run_activity E (?c\<lparr>rc_polling := True\<rparr>) (x_poll E f (future_world s4))
      (s4\<lparr>polls := polls s4 + 1\<rparr>) = Return ((Pending, f', w'), s5)" "the_task s5 = Some t5"
    "th_scheduled t5 = 0" "\<not> dpc_queued (x_dpc E) (th_dpc t5)" "wakers s5 = k" "handles s5 = handles s"
    using s4(5) by auto
  let ?t6 = "t5\<lparr>task_future := Holding f'\<rparr>" and ?s6 = "put_task (t5\<lparr>task_future := Holding f'\<rparr>) (s5\<lparr>future_world := w'\<rparr>)"
  note p = poll_shim_first [OF assms(1) a4 s4(2-4) s5(1,2)]
  have "dpc_loop n E ?c ?cpu (TASK_BUDGET_MODE s) clk (TASK_BUDGET_POLLS s) 0 s4 = Some (Return (Broke, ?s6))"
    using p(1) s5(3) assms(7) by (cases n) (simp_all add: dpc_turn_def)
  then have arr: "dpc_arrive n E processor s = Some (dpc_finish E processor (task_ptr s) (Return (Broke, ?s6)))"
    using eq by simp
  obtain s7 where s7: "clear_current ?cpu ?s6 = Return s7" "account E L 2 None s7" "sched_ok E s7"
    using clear_current_ok [OF p(2,3)] current_cpu_bound by blast
  note c7 = clear_current_counts [OF s7(1)]
  have a7: "account E L (Suc 1) None s7" using s7(2) by (simp add: numeral_2_eq_2)
  obtain s8 where s8: "th_release E ?c s7 = Return s8" "account E L 1 None s8" "sched_ok E s8"
    using release_advances [OF assms(1) a7 s7(3), of ?c] by blast
  obtain r where r: "s8 = put_task (?t6\<lparr>th_ref_count := r\<rparr>) s7"
    using release_counts(4) [OF a7 _ s8(1)] c7 s5(5) assms(8) by auto
  have a8: "account E L (Suc 0) None s8" using s8(2) by simp
  obtain s9 where s9: "th_release E ?c s8 = Return s9" "account E L 0 None s9" "sched_ok E s9"
    using release_advances [OF assms(1) a8 s8(3), of ?c] by blast
  obtain r' where "s9 = put_task (?t6\<lparr>th_ref_count := r'\<rparr>) s7"
    using release_counts(4) [OF a8 _ s9(1)] c7 s5(5) assms(8) by (auto simp: r)
  moreover have "task_ptr s \<noteq> null" using assms(2) by (simp add: account_def)
  ultimately show ?thesis
    using arr s7(1) s8(1) s9 c7 s5(4-6)
    by (intro exI [of _ s9]) (simp add: dpc_finish_def drop_raw_def held_def)
qed

text \<open>A first poll that is ready ends the run, with the task completed.\<close>

lemma arrive_ready:
  assumes "dpc_env_ok E" and "account E L 0 None s" and "the_task s = Some t"
    and "dpc_queued (x_dpc E) (th_dpc t)" and "th_completed t = 0" and "task_future t = Holding f"
    and "0 < n" and drop: "x_drop E f' w' = Finish w''"
    and poll: "\<And>s4. poll_entry E L processor s s4 \<Longrightarrow>
      \<exists>s5 t5. run_activity E (dpc_context processor\<lparr>rc_polling := True\<rparr>) (x_poll E f (future_world s)) s4
          = Return ((Ready st, f', w'), s5)
        \<and> the_task s5 = Some t5 \<and> wakers s5 = k \<and> handles s5 = handles s"
  shows "\<exists>s'. dpc_arrive n E processor s = Some (Return s') \<and> account E L 0 None s' \<and> sched_ok E s'
    \<and> held E s' = Gone \<and> future_world s' = w'' \<and> wakers s' = k \<and> handles s' = handles s"
proof -
  let ?c = "dpc_context processor" and ?cpu = "current_cpu_index processor"
  obtain s4 t4 clk where s4: "poll_entry E L processor s s4" "the_task s4 = Some t4" "th_completed t4 = 0"
    "task_future t4 = Holding f" "future_world s4 = future_world s" "task_ptr s4 = task_ptr s"
    and eq: "\<forall>n. dpc_arrive n E processor s = map_option (dpc_finish E processor (task_ptr s))
        (dpc_loop n E ?c ?cpu (TASK_BUDGET_MODE s) clk (TASK_BUDGET_POLLS s) 0 s4)"
    by (rule dpc_arrive_polls [OF assms(1-6), of processor])
  have a4: "account E L 2 ?cpu s4" "sched_ok E s4" using s4(1) by (simp_all add: poll_entry_def)
  have "poll_entry E L processor s (s4\<lparr>polls := polls s4 + 1\<rparr>)" using s4(1) by (simp add: poll_entry_def)
  from poll [OF this] obtain s5 t5 where s5: "run_activity E (?c\<lparr>rc_polling := True\<rparr>) (x_poll E f (future_world s4))
      (s4\<lparr>polls := polls s4 + 1\<rparr>) = Return ((Ready st, f', w'), s5)" "the_task s5 = Some t5"
    "wakers s5 = k" "handles s5 = handles s"
    using s4(5) by auto
  let ?s6 = "put_task (t5\<lparr>task_future := Holding f'\<rparr>) (s5\<lparr>future_world := w'\<rparr>)"
  note p = poll_shim_first [OF assms(1) a4 s4(2-4) s5(1,2)]
  let ?t7 = "t5\<lparr>th_completed := 1, task_future := Emptied\<rparr>"
  let ?s7 = "put_task ?t7 ?s6\<lparr>drops := drops s5 + 1, future_world := w''\<rparr>"
  have "live_ok E 2 ?s6 (t5\<lparr>task_future := Holding f'\<rparr>)" by (rule account_the_task [OF p(2)]) simp
  then have "account E L 2 ?cpu ?s7" "sched_ok E ?s7"
    using p(2,3) p(4) by (auto simp: account_def resources_ok_def live_ok_def sched_ok_def)
  then obtain s8 where s8: "clear_current ?cpu ?s7 = Return s8" "account E L 2 None s8" "sched_ok E s8"
    using clear_current_ok current_cpu_bound by blast
  note c8 = clear_current_counts [OF s8(1)]
  have a8: "account E L (Suc 1) None s8" using s8(2) by (simp add: numeral_2_eq_2)
  obtain s9 where s9: "th_release E ?c s8 = Return s9" "account E L 1 None s9" "sched_ok E s9" "keeps E s8 s9"
    using release_advances [OF assms(1) a8 s8(3), of ?c] by blast
  have w9: "wakers s9 = k" "handles s9 = handles s" "future_world s9 = w''"
    using release_counts(1-3) [OF a8 _ s9(1), of ?t7] c8 s5(3,4) by auto
  obtain t9 where t9: "the_task s9 = Some t9" "th_completed t9 = 1" "task_future t9 = Emptied"
    using account_own_pos [of E L 0 None s9] s9(2,4) c8 by (auto simp: keeps_def)
  have a9: "account E L (Suc 0) None s9" using s9(2) by simp
  obtain s' where s': "th_release E ?c s9 = Return s'" "account E L 0 None s'" "sched_ok E s'" "keeps E s9 s'"
    using release_advances [OF assms(1) a9 s9(3), of ?c] by blast
  have w': "wakers s' = k" "handles s' = handles s" "future_world s' = w''"
    using release_counts(1-3) [OF a9 t9(1) s'(1)] t9(2) w9 by auto
  have "held E s' = Gone"
    using s'(4) t9 by (cases "the_task s'") (auto simp: held_def keeps_def)
  moreover have "dpc_turn E ?c ?cpu (TASK_BUDGET_MODE s) clk (TASK_BUDGET_POLLS s) 0 s4 = Return (Returned, s9)"
    using p(1) s8(1) s9(1) drop by (simp add: dpc_turn_def destroy_shim_def)
  then have "dpc_arrive n E processor s = Some (dpc_finish E processor (task_ptr s) (Return (Returned, s9)))"
    using eq assms(7) by (cases n) simp_all
  moreover have "task_ptr s \<noteq> null" using assms(2) by (simp add: account_def)
  ultimately show ?thesis using s' w' by (intro exI [of _ s']) (simp add: dpc_finish_def drop_raw_def)
qed

section \<open>The timer\<close>

definition timer_waiting :: "('t, 'l) timer_env \<Rightarrow> (addr \<rightharpoonup> usize \<times> u32) \<Rightarrow> ('t, 'l) timer_state \<Rightarrow> bool" where
  "timer_waiting T B w \<longleftrightarrow>
     timer_inv T B OwnerIdle NoDpc w
     \<and> (\<exists>i. ts_inner w = Some i \<and> sl_value (kt_waker i) = Some 0 \<and> kt_armed i \<noteq> 0 \<and> kt_cancelled i = 0
          \<and> (kt_fired i \<noteq> 0 \<longrightarrow> kt_phase T i = Unset))"

definition timer_fired :: "('t, 'l) timer_state \<Rightarrow> bool" where
  "timer_fired w \<longleftrightarrow> (\<exists>i. ts_inner w = Some i \<and> kt_fired i \<noteq> 0)"

definition timer_over :: "('t, 'l) timer_env \<Rightarrow> (addr \<rightharpoonup> usize \<times> u32) \<Rightarrow> ('t, 'l) timer_state \<Rightarrow> bool" where
  "timer_over T B w \<longleftrightarrow>
     ts_inner w = None \<and> pool_ok (tm_pool T) (ts_memory w) \<and> map_of (blocks (ts_memory w)) = B
     \<and> log_balance (ts_log w) None"

lemma timer_poll_pending:
  assumes "timer_env_ok T" and "timer_inv T B OwnerIdle NoDpc w" and "ts_inner w = Some i"
    and "kt_fired i = 0" and "kt_cancelled i = 0"
  obtains w' where "timer_poll T fut w = Act CloneWaker (\<lambda>b. act_bind (drop_stored (sl_value (kt_waker i)) ())
      (\<lambda>u. Finish (Pending, Return w')))"
    "timer_waiting T B w'" "\<not> timer_fired w'" "kt_armed i \<noteq> 0 \<longrightarrow> (\<forall>i'. ts_inner w' = Some i' \<longrightarrow> kt_timer i' = kt_timer i)"
proof -
  have k: "kt_inv T OwnerIdle NoDpc i" using assms(2,3) by (simp add: timer_inv_def)
  then have "\<not> lock_held (tm_lock T) (sl_lock (kt_waker i))" by (simp add: kt_inv_def)
  then obtain l where l: "waker_lock T (ts_irql w) w = Some (Return (\<lparr>old_irql = ts_irql w\<rparr>, DISPATCH_LEVEL,
      put_kt (i\<lparr>kt_waker := kt_waker i\<lparr>sl_lock := l\<rparr>\<rparr>) w))" "lock_held (tm_lock T) l"
    using waker_lock_cases [OF assms(1,3), of "ts_irql w"] by auto
  let ?g = "\<lparr>old_irql = ts_irql w\<rparr>"
  let ?w1 = "put_kt (i\<lparr>kt_waker := kt_waker i\<lparr>sl_lock := l\<rparr>\<rparr>) w\<lparr>ts_irql := DISPATCH_LEVEL\<rparr>"
  have "timer_inv T B (PollChecked 0) NoDpc w"
    using timer_inv_same [OF assms(2,3)] k by (simp add: kt_inv_def)
  then have "timer_inv T B (PollLocked 0 ?g) NoDpc ?w1"
    using owner_next_ok [OF assms(1), of B "PollChecked 0" NoDpc w] l(1) by (simp add: owner_ok_def owner_next_def)
  then obtain w2 where w2: "poll_store T 0 ?g ?w1 = Return w2" "timer_inv T B PollStored NoDpc w2"
    using owner_next_ok [OF assms(1), of B "PollLocked 0 ?g" NoDpc ?w1]
    by (auto simp: owner_ok_def owner_next_def outcome_simps)
  obtain w3 where w3: "poll_arm T (due_time_100ns fut) w2 = Return w3" "timer_inv T B OwnerIdle NoDpc w3"
    using poll_arm_ok [OF assms(1) w2(2)] by blast
  obtain i2 where i2: "ts_inner w2 = Some i2" "sl_value (kt_waker i2) = Some 0" "kt_fired i2 = 0" "kt_cancelled i2 = 0"
    "kt_armed i2 = kt_armed i" "kt_timer i2 = kt_timer i"
    using w2(1) assms(4,5)
    by (auto simp: poll_store_def put_kt_def with_kt_def spin_guard_drop_def spin_guard_deref_mut_def split: prod.splits)
  obtain i3 where "ts_inner w3 = Some i3" "sl_value (kt_waker i3) = Some 0" "kt_fired i3 = 0" "kt_cancelled i3 = 0"
    "kt_armed i3 \<noteq> 0" "kt_armed i \<noteq> 0 \<longrightarrow> kt_timer i3 = kt_timer i"
    using w3(1) i2
    by (auto simp: poll_arm_def put_kt_def with_kt_def kt_add_ref_def outcome_simps Let_def split_beta split: if_splits)
  then have "timer_waiting T B w3" "\<not> timer_fired w3"
    "kt_armed i \<noteq> 0 \<longrightarrow> (\<forall>i'. ts_inner w3 = Some i' \<longrightarrow> kt_timer i' = kt_timer i)"
    using w3(2) by (auto simp: timer_waiting_def timer_fired_def)
  moreover have "timer_poll T fut w = Act CloneWaker (\<lambda>b. act_bind (drop_stored (sl_value (kt_waker i)) ())
      (\<lambda>u. Finish (Pending, Return w3)))"
    using l(1) w2(1) w3(1) assms(3,4) by (simp add: timer_poll_def poll_check_def with_kt_Some stored_waker_def)
  ultimately show thesis by (intro that)
qed

lemma timer_release_last:
  assumes "timer_env_ok T" and "timer_inv T B ow NoDpc w" and "ts_inner w = Some i"
    and "unat (kt_ref_count i) = 1" and "sl_value (kt_waker i) = Some 0"
  shows "\<exists>w'. timer_release T w = Act DropWaker (\<lambda>b. Finish (Return w')) \<and> timer_over T B w'"
proof -
  have a: "kt_mem T B (ts_ptr w) (ts_memory w)" "log_balance (ts_log w) (sl_value (kt_waker i))"
    using assms(2,3) by (auto simp: timer_inv_def)
  show ?thesis
    using kt_release_last [OF assms(1,3,4) a(1)] log_balance_drop [OF a(2)] assms(3,5)
    by (auto simp: timer_release_def stored_waker_def drop_stored_def timer_over_def)
qed

lemma timer_drop_run:
  assumes "timer_env_ok T" and "timer_waiting T B w"
  obtains w' where "timer_drop T w = Act DropWaker (\<lambda>b. Finish (Return w'))" "timer_over T B w'"
proof -
  obtain i where i: "timer_inv T B OwnerIdle NoDpc w" "ts_inner w = Some i" "sl_value (kt_waker i) = Some 0"
    "kt_armed i \<noteq> 0"
    using assms(2) by (auto simp: timer_waiting_def)
  have "was_armed w" using i(2,4) by (simp add: was_armed_def)
  then obtain w1 where w1: "drop_mark w = Return w1" "timer_inv T B DropMarked NoDpc w1"
    using owner_next_ok [OF assms(1) i(1), of CallDrop] by (auto simp: owner_ok_def owner_next_def outcome_simps)
  obtain c w2 where w2: "drop_cancel T w1 = Return (c, w2)" "timer_inv T B (DropCancelled c) NoDpc w2"
    using drop_cancel_ok [OF assms(1) w1(2)] by blast
  obtain d w3 where w3: "drop_remove T w2 = Return (d, w3)" "timer_inv T B (DropRemoved (c \<or> d)) NoDpc w3"
    using drop_remove_ok [OF assms(1) w2(2)] by blast
  obtain i3 where i3: "ts_inner w3 = Some i3" "kt_inv T (DropRemoved (c \<or> d)) NoDpc i3"
    using timer_inv_live [OF w3(2)] by auto
  have v: "sl_value (kt_waker i3) = Some 0"
    using w1(1) w2(1) w3(1) i(2,3) i3(1)
    by (auto simp: drop_mark_def drop_cancel_def drop_remove_def with_kt_def put_kt_def outcome_simps)
  have n: "unat (kt_ref_count i3) = (if c \<or> d then 2 else 1)"
    using i3(2) by (auto simp: kt_inv_def pending_refs_def)
  have eq: "timer_drop T w = act_bind (timer_release T w3) (\<lambda>x. case x of
      Return s4 \<Rightarrow> if c \<or> d then timer_release T s4 else Finish (Return s4) | r \<Rightarrow> Finish r)"
    using w1(1) w2(1) w3(1) by (simp add: timer_drop_def)
  show thesis
  proof (cases "c \<or> d")
    case True
    then obtain r where r: "kt_release T w3 = Return (put_kt (i3\<lparr>kt_ref_count := r\<rparr>) w3)" "unat r = 1" "r \<noteq> 0"
      using kt_release_shared [OF i3(1)] n by auto
    have "timer_inv T B DropReleased NoDpc (put_kt (i3\<lparr>kt_ref_count := r\<rparr>) w3)"
      using owner_next_ok [OF assms(1) w3(2)] True r(1) by (simp add: owner_ok_def owner_next_def)
    from timer_release_last [OF assms(1) this] that show ?thesis
      using eq True r v by (auto simp: timer_release_def [of T w3] drop_stored_def [of None])
  next
    case False
    then show ?thesis using timer_release_last [OF assms(1) w3(2) i3(1) _ v] n eq that by auto
  qed
qed

text \<open>A run of the DPC of the timer is one wake-up of the task, after which the timer has fired.\<close>

lemma timer_dpc_run:
  assumes "timer_env_ok T" and "timer_waiting T B w" and "ts_inner w = Some i" and "kt_phase T i = DpcQueued"
    and "future_world s = Return w"
  obtains w' where "timer_dpc_routine T E processor s = and_then (run_op E (dpc_context processor) WakeByRef s)
      (\<lambda>(b, s1). Return (s1\<lparr>future_world := Return w'\<rparr>))"
    "timer_waiting T B w'" "timer_fired w'"
proof -
  have i: "timer_inv T B OwnerIdle NoDpc w" "sl_value (kt_waker i) = Some 0" "kt_armed i \<noteq> 0" "kt_cancelled i = 0"
    using assms(2,3) by (auto simp: timer_waiting_def)
  let ?i1 = "i\<lparr>kt_timer := timer_retire (tm_ops T) (kt_timer i)\<rparr>"
  let ?i2 = "?i1\<lparr>kt_fired := 1\<rparr>"
  have w1: "dpc_start T w = Return (put_kt ?i1 w)" "timer_inv T B OwnerIdle DpcStarted (put_kt ?i1 w)"
    using dpc_next_ok [OF assms(1) i(1)] assms(3,4) by (simp_all add: dpc_ok_def dpc_next_def dpc_start_def with_kt_Some)
  have w2: "dpc_fire (put_kt ?i1 w) = Return (put_kt ?i2 w)" "timer_inv T B OwnerIdle DpcFired (put_kt ?i2 w)"
    using dpc_next_ok [OF assms(1) w1(2)] by (simp_all add: dpc_ok_def dpc_next_def dpc_fire_def)
  have w3: "dpc_cancelled (put_kt ?i2 w) = Return False" "timer_inv T B OwnerIdle DpcCalling (put_kt ?i2 w)"
    using dpc_next_ok [OF assms(1) w2(2)] i(4) by (simp_all add: dpc_ok_def dpc_next_def dpc_cancelled_def)
  then have "\<not> lock_held (tm_lock T) (sl_lock (kt_waker ?i2))" by (simp add: timer_inv_def kt_inv_def)
  then obtain l where l: "waker_lock T DISPATCH_LEVEL (put_kt ?i2 w) = Some (Return (\<lparr>old_irql = DISPATCH_LEVEL\<rparr>,
      DISPATCH_LEVEL, put_kt (?i2\<lparr>kt_waker := kt_waker i\<lparr>sl_lock := l\<rparr>\<rparr>) w))"
    using waker_lock_cases [OF assms(1), of "put_kt ?i2 w" ?i2 DISPATCH_LEVEL] by auto
  let ?g = "\<lparr>old_irql = DISPATCH_LEVEL\<rparr>" and ?w4 = "put_kt (?i2\<lparr>kt_waker := kt_waker i\<lparr>sl_lock := l\<rparr>\<rparr>) w"
  have "timer_inv T B OwnerIdle (DpcLocked ?g) ?w4"
    using dpc_next_ok [OF assms(1) w3(2)] l by (simp add: dpc_ok_def dpc_next_def)
  then obtain w5 where w5: "dpc_wake T ?g ?w4 = Return w5" "timer_inv T B OwnerIdle DpcLeaving w5"
    using dpc_next_ok [OF assms(1), of B OwnerIdle "DpcLocked ?g" ?w4]
    by (auto simp: dpc_ok_def dpc_next_def outcome_simps)
  obtain i5 where i5: "ts_inner w5 = Some i5" "sl_value (kt_waker i5) = Some 0" "kt_armed i5 \<noteq> 0" "kt_fired i5 = 1"
    "kt_cancelled i5 = 0"
    using w5(1) i(2-4) by (auto simp: dpc_wake_def spin_guard_drop_def put_kt_def with_kt_def split_beta)
  then have "1 < unat (kt_ref_count i5)" "kt_phase T i5 = Unset" using w5(2) by (simp_all add: timer_inv_def kt_inv_def)
  then obtain r where r: "kt_release T w5 = Return (put_kt (i5\<lparr>kt_ref_count := r\<rparr>) w5)"
    using kt_release_shared [OF i5(1)] by blast
  let ?w' = "put_kt (i5\<lparr>kt_ref_count := r\<rparr>) w5"
  have "timer_inv T B OwnerIdle NoDpc ?w'"
    using dpc_next_ok [OF assms(1) w5(2)] r by (simp add: dpc_ok_def dpc_next_def)
  then have "timer_waiting T B ?w'" "timer_fired ?w'" using i5 \<open>kt_phase T i5 = Unset\<close> by (simp_all add: timer_waiting_def timer_fired_def)
  moreover have "timer_release T w5 = Finish (Return ?w')"
    using r by (simp add: timer_release_def drop_stored_def)
  then have "timer_dpc_routine T E processor s = and_then (run_op E (dpc_context processor) WakeByRef s)
      (\<lambda>(b, s1). Return (s1\<lparr>future_world := Return ?w'\<rparr>))"
    using assms(5) w1(1) w2(1) w3(1) l w5(1) i(2)
    by (cases "run_op E (dpc_context processor) WakeByRef s") (simp_all add: timer_dpc_routine_def stored_waker_def split_beta)
  ultimately show thesis by (intro that)
qed

section \<open>The task\<close>

text \<open>
  The invariant. Before its first poll the task is in the queue; while it awaits the timer, the timer
  stores its only waker, and a timer that has fired has the task in the queue; afterwards nothing of
  the timer is left.
\<close>

fun timer_link ::
  "('t, 'l) timer_env \<Rightarrow> (addr \<rightharpoonup> usize \<times> u32) \<Rightarrow> timer_block future_state \<Rightarrow> nat \<Rightarrow> ('t, 'l) timer_state \<Rightarrow> bool" where
  "timer_link T B (Queued TimerUnresumed) k w = (k = 0 \<and> timer_fresh T w \<and> map_of (blocks (ts_memory w)) = B)"
| "timer_link T B (Queued (TimerAwaiting fut)) k w = (k = 1 \<and> timer_waiting T B w)"
| "timer_link T B (Idle (TimerAwaiting fut)) k w = (k = 1 \<and> timer_waiting T B w \<and> \<not> timer_fired w)"
| "timer_link T B Gone k w = (k = 0 \<and> timer_over T B w)"
| "timer_link T B _ k w = False"

definition timer_task_inv ::
  "('t, 'l) timer_env \<Rightarrow> ('t, 'l, 'e, 'q) timer_dpc_env \<Rightarrow> ledger \<Rightarrow> (addr \<rightharpoonup> usize \<times> u32)
    \<Rightarrow> ('t, 'l, 'e, 'q) timer_executor \<Rightarrow> bool" where
  "timer_task_inv T E L B s \<longleftrightarrow>
     account E L 0 None s \<and> sched_ok E s \<and> handles s \<le> 1
     \<and> (\<exists>w. future_world s = Return w \<and> timer_link T B (held E s) (wakers s) w)"

text \<open>How many steps of the kernel are left at most: each of them brings the task closer to its end.\<close>

definition timer_stage :: "('t, 'l) timer_env \<Rightarrow> ('t, 'l) timer_state \<Rightarrow> nat" where
  "timer_stage T w =
     (case ts_inner w of
        None \<Rightarrow> 6
      | Some i \<Rightarrow> if kt_fired i \<noteq> 0 then 0 else if timer_phase_of (tm_ops T) (kt_timer i) = Ticking then 4 else 2)"

definition timer_rank ::
  "('t, 'l) timer_env \<Rightarrow> ('t, 'l, 'e, 'q) timer_dpc_env \<Rightarrow> ('t, 'l, 'e, 'q) timer_executor \<Rightarrow> nat" where
  "timer_rank T E s =
     (case future_world s of
        Return w \<Rightarrow>
          (case held E s of
             Queued f \<Rightarrow> timer_stage T w + 1
           | Idle f \<Rightarrow> timer_stage T w
           | _ \<Rightarrow> 0)
      | _ \<Rightarrow> 0)"

lemma timer_block_env_simps [simp]:
  "x_poll (timer_block_env T due E) = timer_block_poll T due" "x_drop (timer_block_env T due E) = timer_block_drop T"
  "x_dpc (timer_block_env T due E) = x_dpc E" "x_build (timer_block_env T due E) = x_build E"
  "dpc_env_ok (timer_block_env T due E) = dpc_env_ok E"
  by (simp_all add: timer_block_env_def dpc_env_ok_def)

text \<open>Polls of the timer in a run: the waker is cloned and the one of the poll before is dropped.\<close>

lemma run_clone_drop:
  assumes "poll_entry E L processor s s4" and "wakers s = (if v = None then 0 else 1)" and "handles s \<le> 1"
  shows "\<exists>s5 t5. run_activity E (dpc_context processor\<lparr>rc_polling := True\<rparr>)
      (Act CloneWaker (\<lambda>b. act_bind (drop_stored v ()) (\<lambda>u. Finish x))) s4 = Return (x, s5)
    \<and> the_task s5 = Some t5 \<and> th_scheduled t5 = 0 \<and> \<not> dpc_queued (x_dpc E) (th_dpc t5)
    \<and> wakers s5 = 1 \<and> handles s5 = handles s"
proof -
  let ?c = "dpc_context processor\<lparr>rc_polling := True\<rparr>" and ?cpu = "current_cpu_index processor"
  obtain t4 where t4: "account E L 2 ?cpu s4" "wakers s4 = wakers s" "handles s4 = handles s"
    "the_task s4 = Some t4" "th_scheduled t4 = 0" "\<not> dpc_queued (x_dpc E) (th_dpc t4)"
    using assms(1) by (auto simp: poll_entry_def)
  have "wakers s4 + handles s4 < 2 ^ 31 - 8" using assms(2,3) t4(2,3) by (simp split: if_splits)
  then obtain r where r: "run_op E ?c CloneWaker s4
      = Return (True, put_task (t4\<lparr>th_ref_count := r\<rparr>) s4\<lparr>wakers := wakers s4 + 1\<rparr>)"
    "account E L 2 ?cpu (put_task (t4\<lparr>th_ref_count := r\<rparr>) s4\<lparr>wakers := wakers s4 + 1\<rparr>)"
    using clone_waker_run [OF t4(1,4), of ?c] by auto
  show ?thesis
  proof (cases v)
    case None
    then show ?thesis using r(1) t4 assms(2) by (simp add: drop_stored_def)
  next
    case (Some n)
    let ?s = "put_task (t4\<lparr>th_ref_count := r\<rparr>) s4\<lparr>wakers := wakers s4 + 1\<rparr>"
    obtain r' where "run_op E ?c DropWaker ?s = Return (True, put_task (t4\<lparr>th_ref_count := r'\<rparr>)
        (?s\<lparr>wakers := wakers ?s - 1\<rparr>))"
      using drop_waker_run [OF r(2), of "t4\<lparr>th_ref_count := r\<rparr>" ?c] by auto
    then show ?thesis using Some r(1) t4 assms(2) by (simp add: drop_stored_def)
  qed
qed

lemma run_last_drop:
  assumes "poll_entry E L processor s s4" and "wakers s = 1"
  shows "\<exists>s5 t5. run_activity E (dpc_context processor\<lparr>rc_polling := True\<rparr>) (Act DropWaker (\<lambda>b. Finish x)) s4 = Return (x, s5)
    \<and> the_task s5 = Some t5 \<and> wakers s5 = 0 \<and> handles s5 = handles s"
proof -
  obtain t4 where t4: "account E L 2 (current_cpu_index processor) s4" "wakers s4 = wakers s" "handles s4 = handles s"
    "the_task s4 = Some t4"
    using assms(1) by (auto simp: poll_entry_def)
  then show ?thesis
    using drop_waker_run [OF t4(1,4), of "dpc_context processor\<lparr>rc_polling := True\<rparr>"] assms(2) by auto
qed

lemma timer_new_cases:
  assumes "timer_env_ok T" and "timer_fresh T w"
  shows "(\<exists>w'. timer_future_new T due w = Return (Inl STATUS_INSUFFICIENT_RESOURCES, w')
      \<and> timer_over T (map_of (blocks (ts_memory w))) w')
    \<or> (\<exists>fut w' i. timer_future_new T due w = Return (Inr fut, w')
      \<and> timer_inv T (map_of (blocks (ts_memory w))) OwnerIdle NoDpc w' \<and> ts_inner w' = Some i
      \<and> kt_fired i = 0 \<and> kt_cancelled i = 0 \<and> sl_value (kt_waker i) = None)"
proof -
  have ok: "pool_ok (tm_pool T) (ts_memory w)" and l: "valid_layout (tm_layout T)"
    and nz: "layout_size (tm_layout T) \<noteq> 0"
    using assms by (auto simp: timer_fresh_def timer_env_ok_def)
  obtain p m where m: "wdk_alloc (tm_alloc_build T) (tm_pool T) irnt_alloc (tm_layout T) (ts_memory w) = Return (p, m)"
    "alloc_result (tm_alloc_build T) (tm_pool T) irnt_alloc (tm_layout T) (ts_memory w) (p, m)"
    using wdk_alloc_result [OF ok l] by blast
  show ?thesis
  proof (cases "p = null")
    case True
    then show ?thesis
      using m nz assms(2)
      by (auto simp: timer_future_new_def kt_allocate_def alloc_result_def timer_over_def timer_fresh_def log_balance_def)
  next
    case False
    let ?w = "w\<lparr>ts_memory := m, ts_ptr := p, ts_inner := Some \<lparr>kt_ref_count = 1, kt_fired = 0, kt_armed = 0, kt_cancelled = 0,
      kt_timer = timer_zeroed (tm_ops T), kt_waker = spin_lock_new (tm_lock T) None\<rparr>\<rparr>"
    have n: "timer_future_new T due w = Return (Inr \<lparr>kf_inner = p, due_time_100ns = due\<rparr>, ?w)"
      using m(1) False by (simp add: timer_future_new_def kt_allocate_def)
    show ?thesis using n timer_created_ok [OF assms n] by (simp add: spin_lock_new_def)
  qed
qed

lemma held_queued:
  assumes "account E L own cur s" and "held E s = Queued f"
  obtains t where "the_task s = Some t" "dpc_queued (x_dpc E) (th_dpc t)" "th_completed t = 0" "task_future t = Holding f"
  using assms account_the_task [OF assms(1)]
  by (auto simp: held_def live_ok_def split: option.splits manually_drop.splits if_splits)

text \<open>A run of the DPC of the task.\<close>

lemma await_run:
  assumes "dpc_env_ok E" and "timer_env_ok T" and "0 < n" and "handles s \<le> 1"
    and "account (timer_block_env T due E) L 0 None s" and q: "held (timer_block_env T due E) s = Queued f"
    and act: "timer_block_poll T due f (future_world s) = timer_await T fut w"
    and w: "timer_inv T B OwnerIdle NoDpc w" "ts_inner w = Some i" "kt_cancelled i = 0"
    and v: "wakers s = (if sl_value (kt_waker i) = None then 0 else 1)"
    and "kt_fired i \<noteq> 0 \<longrightarrow> timer_waiting T B w"
  shows "\<exists>s'. dpc_arrive n (timer_block_env T due E) processor s = Some (Return s')
    \<and> timer_task_inv T (timer_block_env T due E) L B s' \<and> handles s' = handles s
    \<and> timer_rank T (timer_block_env T due E) s' \<le> (if kt_armed i \<noteq> 0 then timer_stage T w else 4)
    \<and> (kt_fired i \<noteq> 0 \<longrightarrow> held (timer_block_env T due E) s' = Gone)"
proof -
  let ?E = "timer_block_env T due E"
  have E: "dpc_env_ok ?E" using assms(1) by simp
  obtain t where t: "the_task s = Some t" "dpc_queued (x_dpc ?E) (th_dpc t)" "th_completed t = 0" "task_future t = Holding f"
    by (rule held_queued [OF assms(5) q])
  show ?thesis
  proof (cases "kt_fired i = 0")
    case True
    obtain w' where w': "timer_poll T fut w = Act CloneWaker (\<lambda>b. act_bind (drop_stored (sl_value (kt_waker i)) ())
        (\<lambda>u. Finish (Pending, Return w')))" "timer_waiting T B w'" "\<not> timer_fired w'"
      "kt_armed i \<noteq> 0 \<longrightarrow> (\<forall>i'. ts_inner w' = Some i' \<longrightarrow> kt_timer i' = kt_timer i)"
      by (rule timer_poll_pending [OF assms(2) w(1,2) True w(3)])
    have p: "x_poll ?E f (future_world s) = Act CloneWaker (\<lambda>b. act_bind (drop_stored (sl_value (kt_waker i)) ())
        (\<lambda>u. Finish (Pending, TimerAwaiting fut, Return w')))"
      using act w'(1) by (cases "sl_value (kt_waker i)") (simp_all add: timer_await_def drop_stored_def)
    obtain s' where s': "dpc_arrive n ?E processor s = Some (Return s')" "account ?E L 0 None s'" "sched_ok ?E s'"
      "held ?E s' = Idle (TimerAwaiting fut)" "future_world s' = Return w'" "wakers s' = 1" "handles s' = handles s"
      using arrive_pending [OF E assms(5) t assms(3) zero_less_one, of processor "TimerAwaiting fut" "Return w'"]
        run_clone_drop [OF _ v assms(4), of ?E L processor] p by fastforce
    obtain i' where i': "ts_inner w' = Some i'" "kt_fired i' = 0"
      using w'(2,3) by (auto simp: timer_waiting_def timer_fired_def)
    then have "timer_stage T w' \<le> (if kt_armed i \<noteq> 0 then timer_stage T w else 4)"
      using w'(4) True w(2) by (simp add: timer_stage_def)
    then show ?thesis using s' True w'(2,3) assms(4) by (auto simp: timer_task_inv_def timer_rank_def)
  next
    case False
    then have tw: "timer_waiting T B w" using assms by blast
    obtain w' where w': "timer_drop T w = Act DropWaker (\<lambda>b. Finish (Return w'))" "timer_over T B w'"
      by (rule timer_drop_run [OF assms(2) tw])
    have p: "x_poll ?E f (future_world s) = Act DropWaker (\<lambda>b. Finish (Ready STATUS_SUCCESS, TimerReturned, Return w'))"
      using act w'(1) False w(2) by (simp add: timer_await_def timer_poll_def poll_check_def with_kt_Some)
    have "wakers s = 1" using v tw w(2) by (auto simp: timer_waiting_def)
    then obtain s' where "dpc_arrive n ?E processor s = Some (Return s')" "account ?E L 0 None s'" "sched_ok ?E s'"
      "held ?E s' = Gone" "future_world s' = Return w'" "wakers s' = 0" "handles s' = handles s"
      using arrive_ready [OF E assms(5) t assms(3), of TimerReturned "Return w'" "Return w'" processor STATUS_SUCCESS 0]
        run_last_drop [of ?E L processor s] p by (fastforce simp: timer_block_drop_def)
    then show ?thesis using w'(2) assms(4) by (auto simp: timer_task_inv_def timer_rank_def)
  qed
qed

text \<open>A queued DPC of a completed task only gives back its reference.\<close>

lemma arrive_gone:
  assumes "dpc_env_ok E" and "account E L 0 None s" and "the_task s = Some t"
    and "dpc_queued (x_dpc E) (th_dpc t)" and "th_completed t \<noteq> 0"
  shows "\<exists>s'. dpc_arrive n E processor s = Some (Return s') \<and> account E L 0 None s' \<and> sched_ok E s'
    \<and> held E s' = Gone \<and> future_world s' = future_world s \<and> wakers s' = wakers s \<and> handles s' = handles s
    \<and> (wakers s = 0 \<and> handles s = 0 \<longrightarrow> the_task s' = None)"
proof -
  let ?c = "dpc_context processor"
  let ?t = "t\<lparr>th_dpc := ke_retire_dpc (x_dpc E) (th_dpc t), th_scheduled := 0\<rparr>"
  let ?s = "put_task ?t s"
  have l: "live_ok E 0 s t" by (rule account_the_task [OF assms(2,3)])
  have "account E L (Suc 0) None ?s"
    using assms l by (intro account_put) (auto simp: live_ok_def dpc_env_ok_def dpc_contract_def)
  moreover have "sched_ok E ?s" by (simp add: sched_ok_def)
  ultimately obtain s' where s': "account E L (Suc 0) None ?s" "th_release E ?c ?s = Return s'" "account E L 0 None s'"
    "sched_ok E s'" "keeps E ?s s'"
    using release_advances [OF assms(1), of L 0 ?s ?c] by blast
  have "task_future t = Emptied" using l assms(5) by (simp add: live_ok_def)
  then have "held E s' = Gone" using s'(5) by (auto simp: held_def keeps_def split: option.splits)
  moreover have "the_task s' = None" if "wakers s = 0" "handles s = 0"
    using release_last [OF assms(1) s'(1), of ?t ?c] l that assms(4) s'(2) by (simp add: live_ok_def)
  ultimately show ?thesis
    using release_counts(1-3) [OF s'(1) _ s'(2), of ?t] s' assms(3,5)
    by (intro exI [of _ s']) (simp add: dpc_arrive_def dpc_routine_def Let_def)
qed

text \<open>The first run creates the timer and waits for it, or returns because there is no memory.\<close>

lemma first_run_ok:
  assumes "dpc_env_ok E" and "timer_env_ok T" and "0 < n" and "handles s \<le> 1"
    and "account (timer_block_env T due E) L 0 None s" and q: "held (timer_block_env T due E) s = Queued TimerUnresumed"
    and w: "future_world s = Return w" and u: "wakers s = 0" "timer_fresh T w"
  shows "\<exists>s'. dpc_arrive n (timer_block_env T due E) processor s = Some (Return s')
    \<and> timer_task_inv T (timer_block_env T due E) L (map_of (blocks (ts_memory w))) s' \<and> handles s' = handles s
    \<and> timer_rank T (timer_block_env T due E) s' < timer_rank T (timer_block_env T due E) s"
proof -
  let ?E = "timer_block_env T due E" and ?B = "map_of (blocks (ts_memory w))"
  have E: "dpc_env_ok ?E" using assms(1) by simp
  have r: "timer_rank T ?E s = 7" using u(2) q w by (simp add: timer_rank_def timer_stage_def timer_fresh_def)
  from timer_new_cases [OF assms(2) u(2), of due] show ?thesis
  proof (elim disjE exE conjE)
    fix w' assume w': "timer_future_new T due w = Return (Inl STATUS_INSUFFICIENT_RESOURCES, w')" "timer_over T ?B w'"
    have p: "x_poll ?E TimerUnresumed (future_world s)
        = Finish (Ready STATUS_INSUFFICIENT_RESOURCES, TimerReturned, Return w')"
      using w'(1) w by (simp add: timer_block_poll_def)
    obtain t where t: "the_task s = Some t" "dpc_queued (x_dpc ?E) (th_dpc t)" "th_completed t = 0"
      "task_future t = Holding TimerUnresumed"
      by (rule held_queued [OF assms(5) q])
    obtain s' where "dpc_arrive n ?E processor s = Some (Return s')" "account ?E L 0 None s'" "sched_ok ?E s'"
      "held ?E s' = Gone" "future_world s' = Return w'" "wakers s' = 0" "handles s' = handles s"
      using arrive_ready [OF E assms(5) t assms(3), of TimerReturned "Return w'" "Return w'" processor
          STATUS_INSUFFICIENT_RESOURCES 0] p u(1)
      by (fastforce simp: timer_block_drop_def poll_entry_def)
    then show ?thesis using w'(2) assms(4) r by (auto simp: timer_task_inv_def timer_rank_def)
  next
    fix fut w' i assume w': "timer_future_new T due w = Return (Inr fut, w')"
      "timer_inv T ?B OwnerIdle NoDpc w'" "ts_inner w' = Some i"
      "kt_fired i = 0" "kt_cancelled i = 0" "sl_value (kt_waker i) = None"
    have p: "timer_block_poll T due TimerUnresumed (future_world s) = timer_await T fut w'"
      using w'(1) w by (simp add: timer_block_poll_def)
    obtain s' where "dpc_arrive n ?E processor s = Some (Return s')" "timer_task_inv T ?E L ?B s'"
      "handles s' = handles s" "timer_rank T ?E s' \<le> (if kt_armed i \<noteq> 0 then timer_stage T w' else 4)"
      using await_run [OF assms(1-5) q p w'(2,3,5), of processor] w'(4,6) u(1) by auto
    moreover have "timer_stage T w' \<le> 4" using w'(3,4) by (simp add: timer_stage_def)
    ultimately show ?thesis using r by (auto split: if_splits)
  qed
qed

lemma task_run_ok:
  assumes "dpc_env_ok E" and "timer_env_ok T" and "0 < n" and "timer_task_inv T (timer_block_env T due E) L B s"
    and "the_task s = Some t" and "dpc_queued (x_dpc E) (th_dpc t)" and "future_world s = Return w"
  shows "\<exists>s'. dpc_arrive n (timer_block_env T due E) processor s = Some (Return s')
    \<and> timer_task_inv T (timer_block_env T due E) L B s' \<and> handles s' = handles s
    \<and> (held (timer_block_env T due E) s \<noteq> Gone \<longrightarrow>
        timer_rank T (timer_block_env T due E) s' < timer_rank T (timer_block_env T due E) s)
    \<and> (timer_fired w \<or> held (timer_block_env T due E) s = Gone \<longrightarrow> held (timer_block_env T due E) s' = Gone)"
proof -
  let ?E = "timer_block_env T due E"
  have E: "dpc_env_ok ?E" using assms(1) by simp
  have a: "account ?E L 0 None s" "handles s \<le> 1" using assms(4) by (simp_all add: timer_task_inv_def)
  have l: "live_ok ?E 0 s t" by (rule account_the_task [OF a(1) assms(5)])
  show ?thesis
  proof (cases "task_future t")
    case Emptied
    then have "th_completed t \<noteq> 0" "held ?E s = Gone" using l assms(5) by (auto simp: live_ok_def held_def)
    then show ?thesis
      using arrive_gone [OF E a(1) assms(5), of n processor] assms(4,6,7) by (fastforce simp: timer_task_inv_def)
  next
    case (Holding f)
    then have q: "held ?E s = Queued f" using assms(5,6) by (simp add: held_def)
    note run = await_run [OF assms(1-3) a(2,1) q]
    show ?thesis
    proof (cases f)
      case TimerUnresumed
      then have u: "wakers s = 0" "timer_fresh T w" "map_of (blocks (ts_memory w)) = B"
        using assms(4,7) q by (simp_all add: timer_task_inv_def)
      have "\<not> timer_fired w" using u(2) by (simp add: timer_fired_def timer_fresh_def)
      then show ?thesis
        using first_run_ok [OF assms(1-3) a(2,1) _ assms(7) u(1,2), of processor] q TimerUnresumed u(3) by auto
    next
      case (TimerAwaiting fut)
      then have u: "wakers s = 1" "timer_waiting T B w"
        using assms(4,7) q by (simp_all add: timer_task_inv_def)
      then obtain i where i: "timer_inv T B OwnerIdle NoDpc w" "ts_inner w = Some i" "kt_cancelled i = 0"
        "sl_value (kt_waker i) = Some 0"
        by (auto simp: timer_waiting_def)
      have p: "timer_block_poll T due f (future_world s) = timer_await T fut w"
        using TimerAwaiting assms(7) by (simp add: timer_block_poll_def)
      have "kt_armed i \<noteq> 0" "timer_rank T ?E s = timer_stage T w + 1"
        using u(2) i(2) q assms(7) by (auto simp: timer_rank_def timer_waiting_def)
      then show ?thesis using run [OF p i(1-3), of processor] i(2,4) u q by (auto simp: timer_fired_def)
    qed (use assms(4) q in \<open>auto simp: timer_task_inv_def\<close>)
  qed
qed

text \<open>The other steps keep the references of the task that count here, and at most put it into the queue.\<close>

lemma keeps_held:
  assumes "keeps E s s'" and "the_task s' \<noteq> None"
  shows "held E s' = held E s \<or> (\<exists>f. held E s = Idle f \<and> held E s' = Queued f)"
proof -
  obtain t t' where "the_task s = Some t" "the_task s' = Some t'" "task_future t' = task_future t"
    "dpc_queued (x_dpc E) (th_dpc t) \<longrightarrow> dpc_queued (x_dpc E) (th_dpc t')"
    using assms unfolding keeps_def by blast
  then show ?thesis by (cases "task_future t") (auto simp: held_def)
qed

lemma inv_step:
  assumes "timer_task_inv T E L B s" and "account E L 0 None s'" and "sched_ok E s'" and "handles s' \<le> handles s"
    and "wakers s' = wakers s" and "future_world s' = future_world s"
    and "held E s' = held E s \<or> (\<exists>f. held E s = Idle f \<and> held E s' = Queued f)"
  shows "timer_task_inv T E L B s'"
  using assms(7)
proof (elim disjE exE conjE)
  fix f assume "held E s = Idle f" "held E s' = Queued f"
  then show ?thesis using assms(1-6) by (cases f) (auto simp: timer_task_inv_def)
qed (use assms(1-6) in \<open>auto simp: timer_task_inv_def\<close>)

lemma inv_idle_holds:
  assumes "timer_task_inv T E L B s" and "the_task s = Some t"
  shows "0 < wakers s \<or> th_completed t \<noteq> 0 \<or> dpc_queued (x_dpc E) (th_dpc t)"
  using assms account_the_task [of E L 0 None s t]
  by (auto simp: timer_task_inv_def held_def live_ok_def split: manually_drop.splits if_splits elim: timer_link.elims)

lemma drop_handle_ok:
  assumes "dpc_env_ok E" and "timer_task_inv T E L B s" and "0 < handles s"
    and "th_release E c (s\<lparr>handles := handles s - 1\<rparr>) = Return s'"
  shows "timer_task_inv T E L B s'"
proof -
  let ?s = "s\<lparr>handles := handles s - 1\<rparr>"
  have a: "account E L 0 None s" "sched_ok E s" using assms(2) by (simp_all add: timer_task_inv_def)
  have a1: "account E L (Suc 0) None ?s" using account_lend(2) [OF a(1) assms(3)] .
  obtain t where t: "the_task s = Some t" using account_live [OF a(1)] assms(3) by blast
  obtain s2 where s2: "th_release E c ?s = Return s2" "account E L 0 None s2" "sched_ok E s2" "keeps E ?s s2"
    using release_advances [OF assms(1) a1, of c] a(2) by auto
  then have s': "account E L 0 None s'" "sched_ok E s'" "keeps E s s'" using assms(4) by (auto simp: keeps_lent)
  show ?thesis
  proof (cases "0 < wakers s \<or> th_completed t \<noteq> 0")
    case True
    then have c: "wakers s' = wakers s" "handles s' = handles s - 1" "future_world s' = future_world s"
      using release_counts(1-3) [OF a1 _ assms(4)] t by auto
    have "held E s' = held E s \<or> (\<exists>f. held E s = Idle f \<and> held E s' = Queued f)"
    proof (cases "the_task s'")
      case None
      then have "wakers s' = 0" using s'(1) by (simp add: account_def)
      then have "th_completed t \<noteq> 0" using True c(1) by simp
      then have "task_future t = Emptied" using account_the_task [OF a(1) t] by (simp add: live_ok_def)
      then show ?thesis using None t by (simp add: held_def)
    qed (use keeps_held [OF s'(3)] in simp)
    then show ?thesis using inv_step [OF assms(2) s'(1,2)] c by simp
  next
    case False
    then have "dpc_queued (x_dpc E) (th_dpc t)" using inv_idle_holds [OF assms(2) t] by blast
    then obtain r where r: "s' = put_task (t\<lparr>th_ref_count := r\<rparr>) ?s"
      using release_queued_ok [OF a1, of t c] a(2) t assms(4) by auto
    then have "held E s' = held E s" using t by (auto simp: held_def split: manually_drop.splits)
    then show ?thesis using inv_step [OF assms(2) s'(1,2)] r by simp
  qed
qed

lemma client_ok:
  assumes "dpc_env_ok E" and "timer_task_inv T E L B s" and "\<not> rc_polling c"
    and "p \<in> {AskHandle, CancelTask, DropHandle}" and "run_op E c p s = Return (b, s')"
  shows "timer_task_inv T E L B s'"
proof (cases "permitted c p s")
  case False
  then show ?thesis using assms(2,5) by (simp add: run_op_def)
next
  case True
  have h: "0 < handles s" using True assms(4) by (auto simp: permitted_def)
  have a: "account E L 0 None s" "sched_ok E s" using assms(2) by (simp_all add: timer_task_inv_def)
  have n: "task_ptr s \<noteq> null" using a(1) by (simp add: account_def)
  obtain t where t: "the_task s = Some t" using account_live [OF a(1)] h by blast
  from assms(4) consider "p = AskHandle" | "p = CancelTask" | "p = DropHandle" by blast
  then show ?thesis
  proof cases
    case 1
    then show ?thesis
      using True assms(2,5) t n by (simp add: run_op_def handle_is_cancelled_def with_task_Some)
  next
    case 2
    obtain s1 t1 where s1: "th_cancel E c s = Return s1" "account E L 0 None s1" "sched_ok E s1" "keeps E s s1"
      "the_task s1 = Some t1" "handles s1 = handles s" "wakers s1 = wakers s"
      by (rule cancel_ok [OF assms(1) a(1) t _ a(2), of c]) auto
    then show ?thesis
      using True assms(5) n 2 inv_step [OF assms(2) s1(2,3)] keeps_held [OF s1(4)] keeps_due(2) [OF s1(4)]
      by (auto simp: run_op_def handle_cancel_def)
  next
    case 3
    then have "th_release E c (s\<lparr>handles := handles s - 1\<rparr>) = Return s'"
      using True assms(5) n by (auto simp: run_op_def cancel_handle_drop_def Let_def outcome_simps)
    then show ?thesis by (rule drop_handle_ok [OF assms(1,2) h])
  qed
qed

lemma link_live:
  assumes "timer_link T B h k w" and "ts_inner w = Some i"
  obtains fut where "h = Queued (TimerAwaiting fut) \<or> h = Idle (TimerAwaiting fut)" "k = 1" "timer_waiting T B w"
  using assms by (auto simp: timer_fresh_def timer_over_def elim!: timer_link.elims)

text \<open>A tick of the clock and a run of the DPC of the timer.\<close>

lemma tick_ok:
  assumes "timer_env_ok T" and "timer_task_inv T E L B s" and "timer_expires T s = Some s'"
  shows "timer_task_inv T E L B s' \<and> timer_rank T E s' < timer_rank T E s"
proof -
  obtain w i where w: "future_world s = Return w" "ts_inner w = Some i" "kt_phase T i = Ticking"
    "s' = s\<lparr>future_world := Return (put_kt (i\<lparr>kt_timer := timer_expire (tm_ops T) (kt_timer i)\<rparr>) w)\<rparr>"
    using assms(3) by (auto simp: timer_expires_def split: outcome.splits option.splits if_splits)
  let ?w = "put_kt (i\<lparr>kt_timer := timer_expire (tm_ops T) (kt_timer i)\<rparr>) w"
  obtain fut where h: "held E s = Queued (TimerAwaiting fut) \<or> held E s = Idle (TimerAwaiting fut)" "wakers s = 1"
    "timer_waiting T B w"
    using assms(2) w(1,2) by (auto simp: timer_task_inv_def elim: link_live)
  have f: "kt_fired i = 0" using h(3) w(2,3) by (auto simp: timer_waiting_def)
  have "timer_phase_of (tm_ops T) (timer_expire (tm_ops T) (kt_timer i)) = DpcQueued"
    using assms(1) w(3) by (simp add: timer_env_ok_def timer_contract_def)
  then have "timer_waiting T B ?w" "\<not> timer_fired ?w" "timer_stage T ?w = 2" "timer_stage T w = 4"
    using h(3) w(2,3) f timer_expire_ok [OF assms(1) _ w(2,3)] by (auto simp: timer_waiting_def timer_fired_def timer_stage_def)
  moreover have "held E s' = held E s" using w(4) by (simp add: held_def)
  ultimately show ?thesis using assms(2) w(1,4) h by (auto simp: timer_task_inv_def timer_rank_def)
qed

lemma timer_run_ok:
  assumes "dpc_env_ok E" and "timer_env_ok T" and "timer_task_inv T E L B s" and "timer_arrives T E processor s = Some r"
  shows "\<exists>s'. r = Return s' \<and> timer_task_inv T E L B s' \<and> timer_rank T E s' < timer_rank T E s
    \<and> handles s' = handles s"
proof -
  obtain w i where w: "future_world s = Return w" "ts_inner w = Some i" "kt_phase T i = DpcQueued"
    "r = timer_dpc_routine T E processor s"
    using assms(4) by (auto simp: timer_arrives_def split: outcome.splits option.splits if_splits)
  obtain fut where h: "held E s = Queued (TimerAwaiting fut) \<or> held E s = Idle (TimerAwaiting fut)" "wakers s = 1"
    "timer_waiting T B w"
    using assms(3) w(1,2) by (auto simp: timer_task_inv_def elim: link_live)
  have a: "account E L 0 None s" "sched_ok E s" "handles s \<le> 1" using assms(3) by (simp_all add: timer_task_inv_def)
  obtain t where t: "the_task s = Some t" "live_ok E 0 s t" using account_live [OF a(1)] h(2) by auto
  then have c: "th_completed t = 0" "task_future t = Holding (TimerAwaiting fut)"
    using h(1) by (auto simp: held_def live_ok_def split: manually_drop.splits if_splits)
  obtain s1 t1 where s1: "th_schedule E (dpc_context processor) s = Return s1" "account E L 0 None s1" "sched_ok E s1"
    "keeps E s s1" "the_task s1 = Some t1" "dpc_queued (x_dpc E) (th_dpc t1)" "handles s1 = handles s" "wakers s1 = wakers s"
    using schedule_queues [OF assms(1) a(1) t(1) _ a(2) c(1), of "dpc_context processor"] by auto
  have "task_future t1 = Holding (TimerAwaiting fut)" using s1(4,5) t(1) c(2) by (auto simp: keeps_def)
  then have q: "held E s1 = Queued (TimerAwaiting fut)" using s1(5,6) by (simp add: held_def)
  obtain w' where w': "timer_dpc_routine T E processor s = and_then (run_op E (dpc_context processor) WakeByRef s)
      (\<lambda>(b, s1). Return (s1\<lparr>future_world := Return w'\<rparr>))" "timer_waiting T B w'" "timer_fired w'"
    by (rule timer_dpc_run [OF assms(2) h(3) w(2,3,1)])
  have "run_op E (dpc_context processor) WakeByRef s = Return (True, s1)"
    using s1(1) h(2) a(1) by (simp add: run_op_def permitted_def wake_by_ref_raw_def account_def)
  then have r: "r = Return (s1\<lparr>future_world := Return w'\<rparr>)" using w(4) w'(1) by simp
  have "held E (s1\<lparr>future_world := Return w'\<rparr>) = Queued (TimerAwaiting fut)" using q by (simp add: held_def)
  moreover have "timer_stage T w' = 0" using w'(3) by (auto simp: timer_fired_def timer_stage_def)
  moreover have "timer_stage T w = 2" using h(3) w(2,3) by (auto simp: timer_stage_def timer_waiting_def)
  ultimately show ?thesis
    using r s1 w(1) w'(2) h(1,2) a(3) by (auto simp: timer_task_inv_def timer_rank_def)
qed

section \<open>Reachable states\<close>

lemma spawned_inv:
  assumes "spawned_ok E L h TimerUnresumed (Return w) s" and "h \<le> 1" and "timer_fresh T w"
  shows "timer_task_inv T E L (map_of (blocks (ts_memory w))) s"
  using assms by (auto simp: spawned_ok_def timer_task_inv_def)

lemma kernel_step_ok:
  assumes "dpc_env_ok E" and "timer_env_ok T" and "timer_task_inv T (timer_block_env T due E) L B s"
    and "timer_kernel_step T (timer_block_env T due E) s s'"
  shows "timer_task_inv T (timer_block_env T due E) L B s'"
    and "held (timer_block_env T due E) s \<noteq> Gone \<Longrightarrow>
      timer_rank T (timer_block_env T due E) s' < timer_rank T (timer_block_env T due E) s"
proof -
  let ?E = "timer_block_env T due E"
  have E: "dpc_env_ok ?E" using assms(1) by simp
  obtain w where w: "future_world s = Return w" using assms(3) by (auto simp: timer_task_inv_def)
  have "timer_task_inv T ?E L B s' \<and> (held ?E s \<noteq> Gone \<longrightarrow> timer_rank T ?E s' < timer_rank T ?E s)"
    using assms(4)
  proof cases
    case (kernel_runs_task t n processor)
    then show ?thesis using task_run_ok [OF assms(1,2) _ assms(3) _ _ w, of "Suc n" t processor] by auto
  next
    case kernel_ticks
    then show ?thesis using tick_ok [OF assms(2,3)] by simp
  next
    case (kernel_runs_timer processor)
    then show ?thesis using timer_run_ok [OF E assms(2,3)] by fastforce
  qed
  then show "timer_task_inv T ?E L B s'" "held ?E s \<noteq> Gone \<Longrightarrow> timer_rank T ?E s' < timer_rank T ?E s"
    by auto
qed

lemma timer_task_reach_inv:
  assumes "dpc_env_ok E" and "timer_env_ok T" and "fresh_executor (timer_block_env T due E) L s0"
    and "future_world s0 = Return w0" and "timer_fresh T w0"
    and "timer_task_reach T (timer_block_env T due E) (l_tracker L) s0 s"
  shows "timer_task_inv T (timer_block_env T due E) L (map_of (blocks (ts_memory w0))) s"
  using assms(6)
proof (induction rule: timer_task_reach.induct)
  case (timer_spawned c s)
  then show ?case
    using spawn_tracked_ok [OF _ assms(3), of c TimerUnresumed] assms(1,4,5)
    by (auto simp: spawn_dpc_task_def status_defs intro: spawned_inv)
next
  case (timer_spawned_handle c h s)
  then show ?case
    using spawn_cancellable_ok [OF _ assms(3), of c TimerUnresumed] assms(1,4,5)
    by (auto simp: spawn_dpc_task_cancellable_tracked_def intro: spawned_inv)
next
  case (timer_client s c p b s')
  then show ?case using client_ok [of "timer_block_env T due E"] assms(1) by simp
next
  case (timer_kernel s s')
  then show ?case using kernel_step_ok(1) [OF assms(1,2)] by blast
qed

text \<open>A task that is not in the queue has a timer that is, or that will be.\<close>

lemma timer_due:
  assumes "timer_task_inv T E L B s" and "held E s \<noteq> Gone" and "\<nexists>f. held E s = Queued f"
  shows "(\<exists>s'. timer_expires T s = Some s') \<or> (\<forall>processor. \<exists>r. timer_arrives T E processor s = Some r)"
proof -
  obtain w where w: "future_world s = Return w" "timer_link T B (held E s) (wakers s) w"
    using assms(1) by (auto simp: timer_task_inv_def)
  then obtain i where "ts_inner w = Some i" "kt_phase T i \<in> {Ticking, DpcQueued}"
    using assms(2,3)
    by (auto simp: timer_waiting_def timer_fired_def timer_inv_def kt_inv_def elim!: timer_link.elims)
  then show ?thesis using w(1) by (auto simp: timer_expires_def timer_arrives_def)
qed

lemma gone_unheld:
  assumes "timer_task_inv T E L B s" and "held E s = Gone" and "handles s = 0"
  shows "the_task s = None \<or> (\<exists>t. the_task s = Some t \<and> dpc_queued (x_dpc E) (th_dpc t) \<and> th_completed t \<noteq> 0)"
proof (cases "the_task s")
  case (Some t)
  then have "live_ok E 0 s t" "wakers s = 0"
    using assms(1,2) account_the_task [of E L 0 None s t] by (auto simp: timer_task_inv_def)
  then show ?thesis
    using Some assms(2,3) by (auto simp: live_ok_def held_def split: if_splits manually_drop.splits)
qed simp

lemma kernel_progress:
  assumes "dpc_env_ok E" and "timer_env_ok T" and "timer_task_inv T (timer_block_env T due E) L B s"
    and "held (timer_block_env T due E) s \<noteq> Gone"
  shows "\<exists>s'. timer_kernel_step T (timer_block_env T due E) s s'"
proof -
  let ?E = "timer_block_env T due E"
  have E: "dpc_env_ok ?E" using assms(1) by simp
  have a: "account ?E L 0 None s" using assms(3) by (simp add: timer_task_inv_def)
  obtain w where w: "future_world s = Return w" "timer_link T B (held ?E s) (wakers s) w"
    using assms(3) by (auto simp: timer_task_inv_def)
  show ?thesis
  proof (cases "\<exists>f. held ?E s = Queued f")
    case True
    then obtain f where f: "held ?E s = Queued f" by blast
    obtain t where "the_task s = Some t" "dpc_queued (x_dpc E) (th_dpc t)"
      by (rule held_queued [OF a f]) simp
    then show ?thesis
      using task_run_ok [OF assms(1,2) _ assms(3) _ _ w(1), of "Suc 0" t cpu0] kernel_runs_task [of s t ?E 0 cpu0] by auto
  next
    case False
    from timer_due [OF assms(3,4) this] show ?thesis
    proof
      assume "\<forall>processor. \<exists>r. timer_arrives T ?E processor s = Some r"
      then show ?thesis using timer_run_ok [OF E assms(2,3)] kernel_runs_timer by blast
    qed (auto intro: kernel_ticks)
  qed
qed

text \<open>C28: A task that awaits a timer completes. In every reachable state, whatever the client does with
  its handle, a step of the kernel is possible until the block has returned, every such step returns and
  at most seven of them are left; a timer that has fired has its task in the queue, so the wake-up is not
  lost. Afterwards the block of the timer is freed, every waker the timer cloned was dropped, and once
  the handle and the queue are done with the task its block is freed too, with the pool and the tracker
  as before the spawn.\<close>

theorem timer_task_completes:
  assumes "dpc_env_ok E" and "timer_env_ok T" and "fresh_executor (timer_block_env T due E) L s0"
    and "future_world s0 = Return w0" and "timer_fresh T w0"
    and "timer_task_reach T (timer_block_env T due E) (l_tracker L) s0 s"
  shows "(held (timer_block_env T due E) s \<noteq> Gone \<longrightarrow>
        (\<exists>s'. timer_kernel_step T (timer_block_env T due E) s s')
        \<and> (\<forall>s'. timer_kernel_step T (timer_block_env T due E) s s' \<longrightarrow>
            timer_rank T (timer_block_env T due E) s' < timer_rank T (timer_block_env T due E) s)
        \<and> timer_rank T (timer_block_env T due E) s \<le> 7)
    \<and> (\<forall>t n processor. the_task s = Some t \<longrightarrow> dpc_queued (x_dpc E) (th_dpc t) \<longrightarrow>
        (\<exists>s'. dpc_arrive (Suc n) (timer_block_env T due E) processor s = Some (Return s')))
    \<and> (\<forall>processor r. timer_arrives T (timer_block_env T due E) processor s = Some r \<longrightarrow> returns r)
    \<and> (\<exists>w. future_world s = Return w
        \<and> (timer_fired w \<longrightarrow> (\<exists>t. the_task s = Some t \<and> dpc_queued (x_dpc E) (th_dpc t)))
        \<and> (held (timer_block_env T due E) s = Gone \<longrightarrow>
            ts_inner w = None \<and> map_of (blocks (ts_memory w)) = map_of (blocks (ts_memory w0)) \<and> wakers s = 0
            \<and> (\<forall>k. count_list (ts_log w) (Cloned k) = count_list (ts_log w) (Dropped k))
            \<and> (handles s = 0 \<longrightarrow> the_task s = None \<or> (\<exists>t. the_task s = Some t \<and> dpc_queued (x_dpc E) (th_dpc t)))))
    \<and> (the_task s = None \<longrightarrow> map_of (blocks (memory s)) = map_of (blocks (memory s0))
        \<and> (l_tracker L \<noteq> null \<longrightarrow> unat (pending (trackers s (l_tracker L))) = l_pending L))"
proof -
  let ?E = "timer_block_env T due E" and ?B = "map_of (blocks (ts_memory w0))"
  have E: "dpc_env_ok ?E" using assms(1) by simp
  have inv: "timer_task_inv T ?E L ?B s" by (rule timer_task_reach_inv [OF assms])
  then obtain w where w: "account ?E L 0 None s" "future_world s = Return w"
    "timer_link T ?B (held ?E s) (wakers s) w"
    by (auto simp: timer_task_inv_def)
  have "timer_rank T ?E s \<le> 7"
    using w(2) by (auto simp: timer_rank_def timer_stage_def split: future_state.splits option.splits)
  moreover have "\<exists>s'. dpc_arrive (Suc n) ?E processor s = Some (Return s')"
    if "the_task s = Some t" "dpc_queued (x_dpc E) (th_dpc t)" for t n processor
    using task_run_ok [OF assms(1,2) _ inv that w(2), of "Suc n" processor] by auto
  moreover have "returns r" if "timer_arrives T ?E processor s = Some r" for processor r
    using timer_run_ok [OF E assms(2) inv that] by auto
  moreover have "\<exists>t. the_task s = Some t \<and> dpc_queued (x_dpc E) (th_dpc t)" if "timer_fired w"
    using w(3) that
    by (auto simp: held_def timer_fired_def timer_over_def timer_fresh_def elim!: timer_link.elims
        split: option.splits manually_drop.splits if_splits)
  moreover have "the_task s = None \<or> (\<exists>t. the_task s = Some t \<and> dpc_queued (x_dpc E) (th_dpc t))"
    if "held ?E s = Gone" "handles s = 0"
    using gone_unheld [OF inv that] by auto
  moreover have "ts_inner w = None \<and> map_of (blocks (ts_memory w)) = ?B \<and> wakers s = 0
      \<and> (\<forall>k. count_list (ts_log w) (Cloned k) = count_list (ts_log w) (Dropped k))"
    if "held ?E s = Gone"
    using w(3) that by (simp add: timer_over_def log_balance_def)
  moreover have "map_of (blocks (memory s)) = map_of (blocks (memory s0))
      \<and> (l_tracker L \<noteq> null \<longrightarrow> unat (pending (trackers s (l_tracker L))) = l_pending L)" if "the_task s = None"
    using w(1) that assms(3) by (auto simp: account_def resources_ok_def fresh_executor_def tracker_counts_def)
  ultimately show ?thesis
    using kernel_progress [OF assms(1,2) inv] kernel_step_ok(2) [OF assms(1,2) inv] w(2)
    by (intro conjI allI impI exI [of _ w]) blast+
qed

text \<open>The example, with a timer of 1 ms: the two DPCs and the clock run the task to its end.\<close>

definition await_env :: "(timer_phase, bool, bool, bool) timer_dpc_env" where
  "await_env = \<lparr>x_build = \<lparr>hardening = Hardened, overflow_checks = True\<rparr>,
     x_alloc_build = release_build, x_kernel = small_kernel,
     x_layout = \<lparr>layout_size = 128, layout_align = 8\<rparr>, x_event = flag_event, x_dpc = bool_dpc,
     x_frequency = 1000000, x_counter = (\<lambda>i. of_nat (100 * i)), x_poll = timer_block_poll tick_env (- 10000),
     x_drop = timer_block_drop tick_env\<rparr>"

definition await_start :: "(timer_phase, bool, bool, bool) timer_executor" where
  "await_start = \<lparr>task_ptr = null, the_task = None, CURRENT_TASKS = (\<lambda>i. null),
     TASK_BUDGET_MODE = TASK_BUDGET_MODE_POLLS, TASK_BUDGET_POLLS = DEFAULT_TASK_BUDGET_POLLS,
     TASK_BUDGET_TIME_US = DEFAULT_TASK_BUDGET_TIME_US, DEFAULT_TASK_TAG = KCOM_TAG,
     trackers = (\<lambda>a. tracker_new flag_event), memory = small_memory, future_world = Return tick_start,
     queries = 0, wakers = 0, handles = 0, polls = 0, drops = 0, frees = 0\<rparr>"

lemma await_block_env [simp]: "timer_block_env tick_env (- 10000) await_env = await_env"
  by (simp add: timer_block_env_def await_env_def)

lemma await_env_ok: "dpc_env_ok await_env"
  using nat_env_ok by (simp add: dpc_env_ok_def await_env_def nat_env_def)

lemma await_fresh: "fresh_executor await_env nat_ledger await_start"
  using nat_fresh by (simp add: fresh_executor_def await_env_def nat_env_def nat_start_def await_start_def)

lemma await_spawn:
  "\<exists>s. spawn_dpc_task await_env (dpc_context cpu0) (l_tracker nat_ledger) TimerUnresumed await_start
    = Return (STATUS_SUCCESS, s) \<and> handles s = 0 \<and> wakers s = 0"
  by (simp add: alloc_eval executor_eval await_env_def await_start_def nat_ledger_def)

theorem timer_task_completes_witness:
  "\<exists>s s'. timer_task_reach tick_env await_env 4096 await_start s \<and> timer_kernel_step tick_env await_env s s'
    \<and> timer_rank tick_env await_env s' < timer_rank tick_env await_env s"
proof -
  obtain s where s: "spawn_dpc_task await_env (dpc_context cpu0) (l_tracker nat_ledger) TimerUnresumed await_start
      = Return (STATUS_SUCCESS, s)"
    using await_spawn by blast
  have r: "timer_task_reach tick_env await_env (l_tracker nat_ledger) await_start s" using timer_spawned [OF s] .
  have "held await_env s = Queued TimerUnresumed"
    using spawn_tracked_ok [OF await_env_ok await_fresh, of "dpc_context cpu0" TimerUnresumed] s
    by (auto simp: spawn_dpc_task_def spawned_ok_def status_defs)
  moreover have "future_world await_start = Return tick_start" by (simp add: await_start_def)
  ultimately show ?thesis
    using timer_task_completes [OF await_env_ok tick_env_ok, of "- 10000" nat_ledger await_start tick_start s]
      await_fresh tick_fresh r by (auto simp: nat_ledger_def)
qed

section \<open>The example\<close>

lemma timer_steps_handles:
  "timer_expires T s = Some s' \<Longrightarrow> handles s' = handles s"
  by (auto simp: timer_expires_def split: outcome.splits option.splits if_splits)

text \<open>What is left to do for a task without a handle.\<close>

definition runs_left ::
  "('t, 'l) timer_env \<Rightarrow> ('t, 'l, 'e, 'q) timer_dpc_env \<Rightarrow> ('t, 'l, 'e, 'q) timer_executor \<Rightarrow> nat" where
  "runs_left T E s =
     (if held E s \<noteq> Gone then timer_rank T E s + 2 else if the_task s = None then 0 else 1)"

lemma kernel_runs_ends:
  assumes "dpc_env_ok E" and "timer_env_ok T" and "0 < n"
    and "timer_task_inv T (timer_block_env T due E) L B s" and "handles s = 0"
    and "runs_left T (timer_block_env T due E) s < m"
  shows "\<exists>s'. kernel_runs m n T (timer_block_env T due E) processor s = Some (Return s')
    \<and> timer_task_inv T (timer_block_env T due E) L B s' \<and> the_task s' = None"
  using assms(4-)
proof (induction m arbitrary: s)
  case (Suc m)
  let ?E = "timer_block_env T due E"
  have E: "dpc_env_ok ?E" using assms(1) by simp
  note inv = Suc.prems(1) and IH = Suc.IH
  obtain w where w: "account ?E L 0 None s" "future_world s = Return w" "timer_link T B (held ?E s) (wakers s) w"
    using inv by (auto simp: timer_task_inv_def)
  show ?case
  proof (cases "\<exists>t. the_task s = Some t \<and> dpc_queued (x_dpc E) (th_dpc t)")
    case True
    then obtain t where t: "the_task s = Some t" "dpc_queued (x_dpc E) (th_dpc t)" by blast
    obtain s1 where s1: "dpc_arrive n ?E processor s = Some (Return s1)" "timer_task_inv T ?E L B s1" "handles s1 = 0"
      "held ?E s \<noteq> Gone \<longrightarrow> timer_rank T ?E s1 < timer_rank T ?E s" "held ?E s = Gone \<longrightarrow> held ?E s1 = Gone"
      using task_run_ok [OF assms(1-3) inv t w(2), of processor] Suc.prems(2) by auto
    have "the_task s1 = None" if "held ?E s = Gone"
    proof -
      have "th_completed t \<noteq> 0" "wakers s = 0"
        using gone_unheld [OF inv that Suc.prems(2)] t w(3) that by auto
      then show ?thesis using arrive_gone [OF E w(1) t(1), of n processor] t(2) s1(1) Suc.prems(2) by auto
    qed
    then have "runs_left T ?E s1 < m" using s1(4,5) Suc.prems(3) t(1) by (auto simp: runs_left_def split: if_splits)
    then show ?thesis using IH [OF s1(2,3)] s1(1) t by simp
  next
    case False
    then have q: "\<nexists>f. held ?E s = Queued f" by (auto elim!: held_queued [OF w(1)])
    show ?thesis
    proof (cases "held ?E s = Gone")
      case True
      then have "the_task s = None" using gone_unheld [OF inv True Suc.prems(2)] False by auto
      moreover have "ts_inner w = None" using w(3) True by (simp add: timer_over_def)
      ultimately show ?thesis using inv w(2) by (simp add: timer_expires_def timer_arrives_def)
    next
      case nG: False
      have less: "runs_left T ?E s1 < m" if "timer_rank T ?E s1 < timer_rank T ?E s" for s1
        using that nG Suc.prems(3) by (auto simp: runs_left_def split: if_splits)
      have nq: "\<not> (case the_task s of None \<Rightarrow> False | Some t \<Rightarrow> dpc_queued (x_dpc ?E) (th_dpc t))"
        using False by (auto split: option.splits)
      show ?thesis
      proof (cases "timer_expires T s")
        case None
        then obtain r where r: "timer_arrives T ?E processor s = Some r" using timer_due [OF inv nG q] by auto
        then obtain s1 where "r = Return s1" "timer_task_inv T ?E L B s1" "timer_rank T ?E s1 < timer_rank T ?E s"
          "handles s1 = 0"
          using timer_run_ok [OF E assms(2) inv r] Suc.prems(2) by auto
        then show ?thesis using None r nq IH [of s1] less by simp
      next
        case (Some s1)
        then show ?thesis
          using nq IH [of s1] less tick_ok [OF assms(2) inv Some] timer_steps_handles [OF Some] Suc.prems(2) by simp
      qed
    qed
  qed
qed simp

text \<open>
  The example returns from every state in which it can be started, with both pools as they were, also
  when the pool is exhausted.
\<close>

lemma timer_driver_run_ends:
  assumes "dpc_env_ok E" and "timer_env_ok T" and "event_contract (x_event E)" and "fresh_executor E L s0"
    and "l_tracker L = tr" and "tr \<noteq> null" and "l_pending L = 0" and "future_world s0 = Return w0"
    and "timer_fresh T w0" and "9 < m" and "0 < n"
  shows "\<exists>status s' w'. timer_driver_run m n T E processor tr s0 = Some (Return (status, s'))
    \<and> status \<in> {STATUS_SUCCESS, STATUS_INSUFFICIENT_RESOURCES}
    \<and> the_task s' = None \<and> map_of (blocks (memory s')) = map_of (blocks (memory s0))
    \<and> future_world s' = Return w' \<and> ts_inner w' = None
    \<and> map_of (blocks (ts_memory w')) = map_of (blocks (ts_memory w0))"
proof -
  let ?E = "timer_block_env T (- 10000) E" and ?c = "\<lparr>rc_irql = 0, rc_processor = processor, rc_polling = False\<rparr>"
  let ?s = "s0\<lparr>trackers := (trackers s0)(tr := tracker_new (x_event E))\<rparr>"
  have E: "dpc_env_ok ?E" using assms(1) by simp
  have x: "x_event ?E = x_event E" "x_kernel ?E = x_kernel E" by (simp_all add: timer_block_env_def)
  have new: "tracker_counts (x_event E) (tracker_new (x_event E)) 0"
    using assms(3) by (simp add: tracker_counts_def tracker_new_def event_contract_def)
  then have fr: "fresh_executor ?E L ?s" using assms(4-7) x by (simp add: fresh_executor_def)
  obtain r s1 where s1: "spawn_dpc_task_tracked ?E ?c (l_tracker L) TimerUnresumed ?s = Return (r, s1)"
    "r = STATUS_INSUFFICIENT_RESOURCES \<and> refused_ok ?E L TimerUnresumed ?s s1
       \<or> r = STATUS_SUCCESS \<and> spawned_ok ?E L 0 TimerUnresumed (future_world ?s) s1"
    using spawn_tracked_ok [OF E fr] by blast
  have "\<exists>s2 w'. kernel_runs m n T ?E processor s1 = Some (Return s2) \<and> the_task s2 = None
      \<and> map_of (blocks (memory s2)) = l_blocks L \<and> future_world s2 = Return w' \<and> ts_inner w' = None
      \<and> map_of (blocks (ts_memory w')) = map_of (blocks (ts_memory w0))
      \<and> tracker_counts (x_event E) (trackers s2 tr) 0"
    using s1(2)
  proof (elim disjE conjE)
    assume "refused_ok ?E L TimerUnresumed ?s s1"
    then have "the_task s1 = None" "map_of (blocks (memory s1)) = l_blocks L" "future_world s1 = Return w0"
      "trackers s1 tr = tracker_new (x_event E)"
      using assms(8) by (simp_all add: refused_ok_def timer_block_drop_def)
    moreover obtain m' where "m = Suc m'" using assms(10) by (cases m) auto
    moreover have "ts_inner w0 = None" using assms(9) by (simp add: timer_fresh_def)
    ultimately show ?thesis using new by (simp add: timer_expires_def timer_arrives_def)
  next
    assume a: "spawned_ok ?E L 0 TimerUnresumed (future_world ?s) s1"
    then have inv: "timer_task_inv T ?E L (map_of (blocks (ts_memory w0))) s1"
      using spawned_inv [of ?E L 0 w0 s1 T] assms(8,9) by simp
    have "handles s1 = 0" using a by (simp add: spawned_ok_def)
    moreover have "runs_left T ?E s1 < m"
      using a assms(8-10) by (simp add: runs_left_def timer_rank_def timer_stage_def spawned_ok_def timer_fresh_def)
    ultimately obtain s2 where s2: "kernel_runs m n T ?E processor s1 = Some (Return s2)"
      "timer_task_inv T ?E L (map_of (blocks (ts_memory w0))) s2" "the_task s2 = None"
      using kernel_runs_ends [OF assms(1,2,11) inv] by blast
    moreover have "held ?E s2 = Gone" using s2(3) by (simp add: held_def)
    ultimately show ?thesis
      using assms(5-7) x by (auto simp: timer_task_inv_def timer_over_def account_def resources_ok_def)
  qed
  then obtain s2 w' where s2: "kernel_runs m n T ?E processor s1 = Some (Return s2)" "the_task s2 = None"
    "map_of (blocks (memory s2)) = l_blocks L" "future_world s2 = Return w'" "ts_inner w' = None"
    "map_of (blocks (ts_memory w')) = map_of (blocks (ts_memory w0))"
    "tracker_counts (x_event E) (trackers s2 tr) 0"
    by blast
  obtain d where "tracker_drain (x_event E) (trackers s2 tr) = Some d" using dpc_tracker.drain_idle [OF s2(7)] by blast
  then show ?thesis
    using s1 s2 assms(4,5) by (auto simp: timer_driver_run_def spawn_dpc_task_def fresh_executor_def Let_def)
qed

end
