(* ===== verification/Com_Contract.thy ===== *)
theory Com_Contract
  imports Refcount
begin

text \<open>
  The contract between a COM object and its clients. A client holds interface pointers and makes
  \<open>AddRef\<close> and \<open>Release\<close> calls through them; the locale \<open>com_contract\<close> states what the object
  promises for these calls and proves what a client may conclude for a whole sequence of calls
  through any mixture of its pointers.
\<close>

datatype 'p ref_call = CallAddRef 'p | CallRelease 'p

primrec call_ptr :: "'p ref_call \<Rightarrow> 'p" where
  "call_ptr (CallAddRef p) = p"
| "call_ptr (CallRelease p) = p"

fun run_calls ::
  "('p \<Rightarrow> 'w \<Rightarrow> (u32 \<times> 'w) outcome) \<Rightarrow> ('p \<Rightarrow> 'w \<Rightarrow> (u32 \<times> 'w) outcome) \<Rightarrow> 'p ref_call list
    \<Rightarrow> 'w \<Rightarrow> 'w outcome" where
  "run_calls add_ref release [] w = Return w"
| "run_calls add_ref release (CallAddRef p # cs) w =
     and_then (add_ref p w) (\<lambda>(r, w'). run_calls add_ref release cs w')"
| "run_calls add_ref release (CallRelease p # cs) w =
     and_then (release p w) (\<lambda>(r, w'). run_calls add_ref release cs w')"

text \<open>
  The number of references after a history of calls that obeys the rules of COM: no call after
  the last reference is gone, and no more references than the build can count.
\<close>

fun live_count :: "nat \<Rightarrow> 'p ref_call list \<Rightarrow> nat \<Rightarrow> nat option" where
  "live_count cap [] n = Some n"
| "live_count cap (CallAddRef p # cs) n =
     (if 0 < n \<and> n < cap then live_count cap cs (n + 1) else None)"
| "live_count cap (CallRelease p # cs) n =
     (if 0 < n then live_count cap cs (n - 1) else None)"

lemma live_count_zero: "live_count cap cs 0 = Some m \<Longrightarrow> cs = [] \<and> m = 0"
proof (cases cs)
  case (Cons c cs')
  then show "live_count cap cs 0 = Some m \<Longrightarrow> ?thesis" by (cases c) auto
qed simp

locale com_contract =
  fixes add_ref :: "'p \<Rightarrow> 'w \<Rightarrow> (u32 \<times> 'w) outcome"
    and release :: "'p \<Rightarrow> 'w \<Rightarrow> (u32 \<times> 'w) outcome"
    and ptrs :: "'w \<Rightarrow> 'p set"
    and alive :: "nat \<Rightarrow> 'w \<Rightarrow> bool"
    and dead :: "'w \<Rightarrow> bool"
    and cap :: nat
  assumes alive_range: "alive n w \<Longrightarrow> 0 < n \<and> n \<le> cap"
    and add_ref_alive:
      "alive n w \<Longrightarrow> n < cap \<Longrightarrow> p \<in> ptrs w \<Longrightarrow>
        \<exists>w'. add_ref p w = Return (of_nat (n + 1), w') \<and> alive (n + 1) w' \<and> ptrs w' = ptrs w"
    and release_shared:
      "alive (Suc n) w \<Longrightarrow> 0 < n \<Longrightarrow> p \<in> ptrs w \<Longrightarrow>
        \<exists>w'. release p w = Return (of_nat n, w') \<and> alive n w' \<and> ptrs w' = ptrs w"
    and release_last:
      "alive 1 w \<Longrightarrow> p \<in> ptrs w \<Longrightarrow> \<exists>w'. release p w = Return (0, w') \<and> dead w'"
begin

lemma run_calls_live:
  assumes "alive n w" and "call_ptr ` set cs \<subseteq> ptrs w" and "live_count cap cs n = Some m"
  shows "\<exists>w'. run_calls add_ref release cs w = Return w'
    \<and> (m = 0 \<longrightarrow> dead w') \<and> (0 < m \<longrightarrow> alive m w' \<and> ptrs w' = ptrs w)"
  using assms
proof (induction cs arbitrary: n w)
  case Nil
  then show ?case using alive_range [of n w] by simp
next
  case (Cons c cs)
  show ?case
  proof (cases c)
    case (CallAddRef p)
    with Cons.prems obtain w' where w': "add_ref p w = Return (of_nat (n + 1), w')"
      "alive (n + 1) w'" "ptrs w' = ptrs w" and rest: "live_count cap cs (n + 1) = Some m"
      using add_ref_alive [of n w p] by (auto split: if_splits)
    with Cons.prems(2) Cons.IH [of "n + 1" w'] CallAddRef show ?thesis by auto
  next
    case (CallRelease p)
    show ?thesis
    proof (cases "n = 1")
      case True
      with Cons.prems CallRelease obtain w' where "release p w = Return (0, w')" "dead w'"
        and "live_count cap cs 0 = Some m"
        using release_last [of w p] by auto
      then show ?thesis using CallRelease live_count_zero [of cap cs m] by simp
    next
      case False
      with Cons.prems CallRelease obtain k where k: "n = Suc k" "0 < k"
        by (cases n) (auto split: if_splits)
      with Cons.prems CallRelease obtain w' where "release p w = Return (of_nat k, w')"
        "alive k w'" "ptrs w' = ptrs w" and "live_count cap cs k = Some m"
        using release_shared [of k w p] by auto
      with Cons.prems(2) Cons.IH [of k w'] CallRelease show ?thesis by auto
    qed
  qed
qed

end

text \<open>
  The contract with queries: \<open>provides p iid w\<close> is the pointer the object has for an interface.
  A query through a pointer hands it out with a reference of its own; any other query reports
  that there is no such interface and changes nothing.
\<close>

locale com_queries = com_contract +
  fixes query :: "'p \<Rightarrow> GUID option \<Rightarrow> bool \<Rightarrow> 'w \<Rightarrow> ((NTSTATUS \<times> 'p option) \<times> 'w) outcome"
    and provides :: "'p \<Rightarrow> GUID \<Rightarrow> 'w \<Rightarrow> 'p option"
  assumes provides_ptr:
      "alive n w \<Longrightarrow> p \<in> ptrs w \<Longrightarrow> provides p iid w = Some q \<Longrightarrow> q \<in> ptrs w"
    and query_provided:
      "alive n w \<Longrightarrow> n < cap \<Longrightarrow> p \<in> ptrs w \<Longrightarrow> provides p iid w = Some q \<Longrightarrow>
        \<exists>w'. query p (Some iid) True w = Return ((STATUS_SUCCESS, Some q), w')
          \<and> alive (n + 1) w' \<and> ptrs w' = ptrs w"
begin

lemma query_then_release:
  assumes "alive n w" and "n < cap" and "p \<in> ptrs w" and "provides p iid w = Some q"
  shows "\<exists>w1 w2. query p (Some iid) True w = Return ((STATUS_SUCCESS, Some q), w1)
    \<and> alive (n + 1) w1 \<and> release q w1 = Return (of_nat n, w2) \<and> alive n w2 \<and> ptrs w2 = ptrs w"
proof -
  obtain w1 where w1: "query p (Some iid) True w = Return ((STATUS_SUCCESS, Some q), w1)"
    "alive (n + 1) w1" "ptrs w1 = ptrs w"
    using query_provided assms by blast
  moreover have "0 < n" "q \<in> ptrs w1"
    using alive_range [OF assms(1)] provides_ptr [OF assms(1,3,4)] w1(3) by auto
  ultimately show ?thesis using release_shared [of n w1 q] by auto
qed

end

end
