(* ===== verification/Wrapper.thy ===== *)
theory Wrapper
  imports Com_Contract
begin

text \<open>
  The COM objects of \<open>src/wrapper.rs\<close>: \<open>ComObject\<close>, \<open>ComObjectN\<close>, their \<open>IUnknown\<close> shims,
  aggregation through the non-delegating unknown, construction and destruction. A world maps the
  addresses of the allocations of one instantiation of the generic types to the objects they
  hold. The code the shims call but the crate does not contain (the inner type's \<open>Drop\<close> and
  \<open>ComImpl::query_interface\<close>, the allocator, the outer unknown of an aggregate) is the record
  \<open>env\<close> of functions every operation takes.
\<close>

section \<open>Pointers, vtables and objects\<close>

text \<open>
  An interface pointer points at a field that holds a vtable: the first field of an object, an
  entry of its secondaries, its non-delegating unknown, or an object of other code.
\<close>

datatype com_ptr =
    NullPtr
  | PrimaryPtr addr
  | SecondaryPtr addr nat
  | NonDelegatingPtr addr
  | ForeignPtr addr

text \<open>
  The vtables of the crate, by the \<open>IUnknown\<close> shims they hold: \<open>IUnknownVtbl::new\<close>,
  \<open>IUnknownVtbl::new_primary\<close>, the vtable \<open>__kcom_parent_vtbl_secondary\<close> builds for an index, and
  the two \<open>NON_DELEGATING_VTABLE\<close> constants. The shims of the first are those of the type with the
  global allocator; this theory has the shims of the object's own type, which is the same for
  objects of that allocator, and the theory \<open>Interfaces\<close> the others.
\<close>

datatype vtbl =
    ComObjectVtbl
  | ComObjectNVtbl
  | SecondaryVtbl nat
  | NonDelegatingVtbl
  | NonDelegatingNVtbl
  | ForeignVtbl

record InterfaceEntryN =
  entry_vtable :: vtbl
  entry_parent :: com_ptr

record NonDelegatingIUnknown =
  nd_vtable :: vtbl
  nd_parent :: com_ptr

text \<open>A \<open>ComObject\<close> is laid out as a \<open>ComObjectN\<close> with the empty tuple of secondaries.\<close>

record ('t, 'a) ComObject =
  vtable :: vtbl
  secondaries :: "InterfaceEntryN list"
  non_delegating_unknown :: NonDelegatingIUnknown
  ref_count :: u32
  outer_unknown :: "com_ptr option"
  inner :: 't
  alloc :: 'a

text \<open>
  The events are the calls that end lifetimes: the drop of an inner value in place, the
  deallocation of a block, the drop of the allocator moved out of it, and the drop of the
  arguments of a constructor that found no memory.
\<close>

datatype 'a com_event =
    DropInner addr
  | Dealloc 'a addr Layout
  | DropAlloc 'a addr
  | DropArguments 'a

record ('t, 'a, 'x) world =
  objects :: "addr \<rightharpoonup> ('t, 'a) ComObject"
  events :: "'a com_event list"
  foreign :: 'x

record ('t, 'a, 'x) env =
  env_build :: build
  env_layout :: Layout
  env_alloc :: "'a \<Rightarrow> Layout \<Rightarrow> ('t, 'a, 'x) world \<Rightarrow> addr \<times> ('t, 'a, 'x) world"
  env_dealloc :: "'a \<Rightarrow> addr \<Rightarrow> Layout \<Rightarrow> ('t, 'a, 'x) world \<Rightarrow> ('t, 'a, 'x) world"
  env_drop_inner :: "addr \<Rightarrow> 't \<Rightarrow> ('t, 'a, 'x) world \<Rightarrow> ('t, 'a, 'x) world outcome"
  env_query_interface ::
    "'t \<Rightarrow> com_ptr \<Rightarrow> GUID \<Rightarrow> ('t, 'a, 'x) world \<Rightarrow> (com_ptr option \<times> ('t, 'a, 'x) world) outcome"
  env_foreign_add_ref :: "com_ptr \<Rightarrow> ('t, 'a, 'x) world \<Rightarrow> (u32 \<times> ('t, 'a, 'x) world) outcome"
  env_foreign_release :: "com_ptr \<Rightarrow> ('t, 'a, 'x) world \<Rightarrow> (u32 \<times> ('t, 'a, 'x) world) outcome"
  env_foreign_query_interface ::
    "com_ptr \<Rightarrow> GUID option \<Rightarrow> bool \<Rightarrow> ('t, 'a, 'x) world
      \<Rightarrow> ((NTSTATUS \<times> com_ptr option) \<times> ('t, 'a, 'x) world) outcome"

definition log_event :: "'a com_event \<Rightarrow> ('t, 'a, 'x) world \<Rightarrow> ('t, 'a, 'x) world" where
  "log_event e w = w\<lparr>events := events w @ [e]\<rparr>"

definition put_object ::
  "addr \<Rightarrow> ('t, 'a) ComObject \<Rightarrow> ('t, 'a, 'x) world \<Rightarrow> ('t, 'a, 'x) world" where
  "put_object a ob w = w\<lparr>objects := (objects w)(a \<mapsto> ob)\<rparr>"

section \<open>Fail-fast and the panic guard\<close>

definition resurrection_violation :: "'b outcome" where
  "resurrection_violation = Halt ResurrectionViolation"

definition fail_fast :: "'b outcome" where
  "fail_fast = Halt FailFast"

text \<open>
  A shim creates a \<open>PanicGuard\<close> and forgets it on every return: the guard's \<open>Drop\<close> runs only
  while a panic unwinds through the shim.
\<close>

definition panic_guard :: "'b outcome \<Rightarrow> 'b outcome" where
  "panic_guard m = (case m of Panic \<Rightarrow> fail_fast | _ \<Rightarrow> m)"

section \<open>Reference counting shims\<close>

definition add_ref_count ::
  "('t, 'a, 'x) env \<Rightarrow> addr \<Rightarrow> ('t, 'a, 'x) world \<Rightarrow> (u32 \<times> ('t, 'a, 'x) world) outcome" where
  "add_ref_count env a w =
     and_then (ok_or_undefined (objects w a)) (\<lambda>ob.
     and_then (refcount_add (env_build env) (ref_count ob)) (\<lambda>(r, c).
       Return (r, put_object a (ob\<lparr>ref_count := c\<rparr>) w)))"

definition sub_ref_count ::
  "('t, 'a, 'x) env \<Rightarrow> addr \<Rightarrow> ('t, 'a, 'x) world \<Rightarrow> (u32 \<times> ('t, 'a, 'x) world) outcome" where
  "sub_ref_count env a w =
     and_then (ok_or_undefined (objects w a)) (\<lambda>ob.
     and_then (refcount_sub (env_build env) (ref_count ob)) (\<lambda>(r, c).
       Return (r, put_object a (ob\<lparr>ref_count := c\<rparr>) w)))"

definition delegating_add_ref ::
  "('t, 'a, 'x) env \<Rightarrow> com_ptr option \<Rightarrow> addr \<Rightarrow> ('t, 'a, 'x) world
    \<Rightarrow> (u32 \<times> ('t, 'a, 'x) world) outcome" where
  "delegating_add_ref env outer a w =
     (case outer of
        Some p \<Rightarrow> if p \<noteq> NullPtr then env_foreign_add_ref env p w else add_ref_count env a w
      | None \<Rightarrow> add_ref_count env a w)"

definition delegating_release ::
  "('t, 'a, 'x) env \<Rightarrow> com_ptr option \<Rightarrow> addr
    \<Rightarrow> (('t, 'a, 'x) world \<Rightarrow> ('t, 'a, 'x) world outcome)
    \<Rightarrow> ('t, 'a, 'x) world \<Rightarrow> (u32 \<times> ('t, 'a, 'x) world) outcome" where
  "delegating_release env outer a release_inner w =
     (let own = and_then (sub_ref_count env a w) (\<lambda>(count, w1).
            if count = 0 then and_then (release_inner w1) (\<lambda>w2. Return (count, w2))
            else Return (count, w1))
      in case outer of
        Some p \<Rightarrow> if p \<noteq> NullPtr then env_foreign_release env p w else own
      | None \<Rightarrow> own)"

text \<open>
  The destruction of an object whose count reached zero: the allocator is moved out, the inner
  value is dropped in place, the count is loaded again and a resurrected object stops the
  system, then the block is freed and the allocator dropped.
\<close>

definition release_inner ::
  "('t, 'a, 'x) env \<Rightarrow> addr \<Rightarrow> ('t, 'a, 'x) world \<Rightarrow> ('t, 'a, 'x) world outcome" where
  "release_inner env a w =
     and_then (ok_or_undefined (objects w a)) (\<lambda>ob.
     and_then (env_drop_inner env a (inner ob) (log_event (DropInner a) w)) (\<lambda>w1.
     and_then (ok_or_undefined (objects w1 a)) (\<lambda>ob1.
       if ref_count ob1 \<noteq> 0 then resurrection_violation
       else
         let w2 = env_dealloc env (alloc ob) a (env_layout env) w1;
             w3 = log_event (Dealloc (alloc ob) a (env_layout env))
               (w2\<lparr>objects := (objects w2)(a := None)\<rparr>)
         in Return (log_event (DropAlloc (alloc ob) a) w3))))"

definition from_ptr ::
  "com_ptr \<Rightarrow> ('t, 'a, 'x) world \<Rightarrow> (addr \<times> ('t, 'a) ComObject) outcome" where
  "from_ptr p w =
     (case p of
        PrimaryPtr a \<Rightarrow> and_then (ok_or_undefined (objects w a)) (\<lambda>ob. Return (a, ob))
      | _ \<Rightarrow> Undefined)"

definition parent_from_ptr :: "com_ptr \<Rightarrow> ('t, 'a, 'x) world \<Rightarrow> com_ptr outcome" where
  "parent_from_ptr p w =
     (case p of
        SecondaryPtr a i \<Rightarrow>
          and_then (ok_or_undefined (objects w a)) (\<lambda>ob.
            if i < length (secondaries ob) then Return (entry_parent (secondaries ob ! i))
            else Undefined)
      | _ \<Rightarrow> Undefined)"

definition non_delegating_parent_ptr :: "com_ptr \<Rightarrow> ('t, 'a, 'x) world \<Rightarrow> com_ptr outcome" where
  "non_delegating_parent_ptr p w =
     (case p of
        NonDelegatingPtr a \<Rightarrow>
          and_then (ok_or_undefined (objects w a)) (\<lambda>ob.
            Return (nd_parent (non_delegating_unknown ob)))
      | _ \<Rightarrow> Undefined)"

definition from_secondary_ptr ::
  "com_ptr \<Rightarrow> ('t, 'a, 'x) world \<Rightarrow> (addr \<times> ('t, 'a) ComObject) outcome" where
  "from_secondary_ptr p w = and_then (parent_from_ptr p w) (\<lambda>parent. from_ptr parent w)"

definition from_non_delegating ::
  "com_ptr \<Rightarrow> ('t, 'a, 'x) world \<Rightarrow> (addr \<times> ('t, 'a) ComObject) outcome" where
  "from_non_delegating p w =
     and_then (non_delegating_parent_ptr p w) (\<lambda>parent. from_ptr parent w)"

subsection \<open>ComObject\<close>

definition shim_add_ref ::
  "('t, 'a, 'x) env \<Rightarrow> com_ptr \<Rightarrow> ('t, 'a, 'x) world \<Rightarrow> (u32 \<times> ('t, 'a, 'x) world) outcome" where
  "shim_add_ref env this w =
     panic_guard (and_then (from_ptr this w) (\<lambda>(a, ob).
       delegating_add_ref env (outer_unknown ob) a w))"

definition shim_release ::
  "('t, 'a, 'x) env \<Rightarrow> com_ptr \<Rightarrow> ('t, 'a, 'x) world \<Rightarrow> (u32 \<times> ('t, 'a, 'x) world) outcome" where
  "shim_release env this w =
     panic_guard (and_then (from_ptr this w) (\<lambda>(a, ob).
       delegating_release env (outer_unknown ob) a (release_inner env a) w))"

definition shim_non_delegating_add_ref ::
  "('t, 'a, 'x) env \<Rightarrow> com_ptr \<Rightarrow> ('t, 'a, 'x) world \<Rightarrow> (u32 \<times> ('t, 'a, 'x) world) outcome" where
  "shim_non_delegating_add_ref env this w =
     panic_guard (and_then (from_non_delegating this w) (\<lambda>(a, ob). add_ref_count env a w))"

definition shim_non_delegating_release ::
  "('t, 'a, 'x) env \<Rightarrow> com_ptr \<Rightarrow> ('t, 'a, 'x) world \<Rightarrow> (u32 \<times> ('t, 'a, 'x) world) outcome" where
  "shim_non_delegating_release env this w =
     panic_guard (and_then (from_non_delegating this w) (\<lambda>(a, ob).
     and_then (sub_ref_count env a w) (\<lambda>(count, w1).
       if count = 0 then and_then (release_inner env a w1) (\<lambda>w2. Return (count, w2))
       else Return (count, w1))))"

subsection \<open>ComObjectN\<close>

definition shim_add_ref_n ::
  "('t, 'a, 'x) env \<Rightarrow> com_ptr \<Rightarrow> ('t, 'a, 'x) world \<Rightarrow> (u32 \<times> ('t, 'a, 'x) world) outcome" where
  "shim_add_ref_n env this w =
     panic_guard (and_then (from_ptr this w) (\<lambda>(a, ob).
       delegating_add_ref env (outer_unknown ob) a w))"

definition shim_release_n ::
  "('t, 'a, 'x) env \<Rightarrow> com_ptr \<Rightarrow> ('t, 'a, 'x) world \<Rightarrow> (u32 \<times> ('t, 'a, 'x) world) outcome" where
  "shim_release_n env this w =
     panic_guard (and_then (from_ptr this w) (\<lambda>(a, ob).
       delegating_release env (outer_unknown ob) a (release_inner env a) w))"

definition shim_add_ref_secondary ::
  "('t, 'a, 'x) env \<Rightarrow> com_ptr \<Rightarrow> ('t, 'a, 'x) world \<Rightarrow> (u32 \<times> ('t, 'a, 'x) world) outcome" where
  "shim_add_ref_secondary env this w =
     panic_guard (and_then (from_secondary_ptr this w) (\<lambda>(a, ob).
       delegating_add_ref env (outer_unknown ob) a w))"

definition shim_release_secondary ::
  "('t, 'a, 'x) env \<Rightarrow> com_ptr \<Rightarrow> ('t, 'a, 'x) world \<Rightarrow> (u32 \<times> ('t, 'a, 'x) world) outcome" where
  "shim_release_secondary env this w =
     panic_guard (and_then (parent_from_ptr this w) (\<lambda>primary. shim_release_n env primary w))"

definition shim_non_delegating_add_ref_n ::
  "('t, 'a, 'x) env \<Rightarrow> com_ptr \<Rightarrow> ('t, 'a, 'x) world \<Rightarrow> (u32 \<times> ('t, 'a, 'x) world) outcome" where
  "shim_non_delegating_add_ref_n env this w =
     panic_guard (and_then (from_non_delegating this w) (\<lambda>(a, ob). add_ref_count env a w))"

definition shim_non_delegating_release_n ::
  "('t, 'a, 'x) env \<Rightarrow> com_ptr \<Rightarrow> ('t, 'a, 'x) world \<Rightarrow> (u32 \<times> ('t, 'a, 'x) world) outcome" where
  "shim_non_delegating_release_n env this w =
     panic_guard (and_then (from_non_delegating this w) (\<lambda>(a, ob).
     and_then (sub_ref_count env a w) (\<lambda>(count, w1).
       if count = 0 then and_then (release_inner env a w1) (\<lambda>w2. Return (count, w2))
       else Return (count, w1))))"

section \<open>Calls through a vtable\<close>

definition read_vtbl :: "com_ptr \<Rightarrow> ('t, 'a, 'x) world \<Rightarrow> vtbl outcome" where
  "read_vtbl p w =
     (case p of
        NullPtr \<Rightarrow> Undefined
      | PrimaryPtr a \<Rightarrow> and_then (ok_or_undefined (objects w a)) (\<lambda>ob. Return (vtable ob))
      | SecondaryPtr a i \<Rightarrow>
          and_then (ok_or_undefined (objects w a)) (\<lambda>ob.
            if i < length (secondaries ob) then Return (entry_vtable (secondaries ob ! i))
            else Undefined)
      | NonDelegatingPtr a \<Rightarrow>
          and_then (ok_or_undefined (objects w a)) (\<lambda>ob.
            Return (nd_vtable (non_delegating_unknown ob)))
      | ForeignPtr a \<Rightarrow> Return ForeignVtbl)"

definition call_AddRef ::
  "('t, 'a, 'x) env \<Rightarrow> com_ptr \<Rightarrow> ('t, 'a, 'x) world \<Rightarrow> (u32 \<times> ('t, 'a, 'x) world) outcome" where
  "call_AddRef env p w =
     and_then (read_vtbl p w) (\<lambda>vt.
       case vt of
         ComObjectVtbl \<Rightarrow> shim_add_ref env p w
       | ComObjectNVtbl \<Rightarrow> shim_add_ref_n env p w
       | SecondaryVtbl i \<Rightarrow> shim_add_ref_secondary env p w
       | NonDelegatingVtbl \<Rightarrow> shim_non_delegating_add_ref env p w
       | NonDelegatingNVtbl \<Rightarrow> shim_non_delegating_add_ref_n env p w
       | ForeignVtbl \<Rightarrow> env_foreign_add_ref env p w)"

definition call_Release ::
  "('t, 'a, 'x) env \<Rightarrow> com_ptr \<Rightarrow> ('t, 'a, 'x) world \<Rightarrow> (u32 \<times> ('t, 'a, 'x) world) outcome" where
  "call_Release env p w =
     and_then (read_vtbl p w) (\<lambda>vt.
       case vt of
         ComObjectVtbl \<Rightarrow> shim_release env p w
       | ComObjectNVtbl \<Rightarrow> shim_release_n env p w
       | SecondaryVtbl i \<Rightarrow> shim_release_secondary env p w
       | NonDelegatingVtbl \<Rightarrow> shim_non_delegating_release env p w
       | NonDelegatingNVtbl \<Rightarrow> shim_non_delegating_release_n env p w
       | ForeignVtbl \<Rightarrow> env_foreign_release env p w)"

section \<open>QueryInterface\<close>

text \<open>
  \<open>riid\<close> is \<open>None\<close> for a null pointer, \<open>ppv\<close> tells whether the out pointer is non-null, and the
  second component of the result is what was written through it, if anything. The part of the
  five shims after the delegation to an outer object is the same: \<open>answer_query\<close>, with the
  pointer that answers \<open>IID_IUNKNOWN\<close> and the primary pointer given to the inner type.
\<close>

definition answer_query ::
  "('t, 'a, 'x) env \<Rightarrow> (('t, 'a, 'x) world \<Rightarrow> (u32 \<times> ('t, 'a, 'x) world) outcome) \<Rightarrow> com_ptr
    \<Rightarrow> com_ptr \<Rightarrow> 't \<Rightarrow> GUID option \<Rightarrow> bool \<Rightarrow> ('t, 'a, 'x) world
    \<Rightarrow> ((NTSTATUS \<times> com_ptr option) \<times> ('t, 'a, 'x) world) outcome" where
  "answer_query env self_add_ref unknown primary inner_value riid ppv w =
     (if \<not> ppv then Return ((STATUS_NOINTERFACE, None), w)
      else case riid of
        None \<Rightarrow> Return ((STATUS_NOINTERFACE, None), w)
      | Some iid \<Rightarrow>
          if iid = IID_IUNKNOWN then
            and_then (self_add_ref w) (\<lambda>(r, w1). Return ((STATUS_SUCCESS, Some unknown), w1))
          else
            and_then (env_query_interface env inner_value primary iid w) (\<lambda>(found, w1).
              case found of
                Some ptr \<Rightarrow>
                  and_then (call_AddRef env ptr w1) (\<lambda>(r, w2).
                    Return ((STATUS_SUCCESS, Some ptr), w2))
              | None \<Rightarrow> Return ((STATUS_NOINTERFACE, Some NullPtr), w1)))"

definition shim_query_interface ::
  "('t, 'a, 'x) env \<Rightarrow> com_ptr \<Rightarrow> GUID option \<Rightarrow> bool \<Rightarrow> ('t, 'a, 'x) world
    \<Rightarrow> ((NTSTATUS \<times> com_ptr option) \<times> ('t, 'a, 'x) world) outcome" where
  "shim_query_interface env this riid ppv w =
     panic_guard (and_then (from_ptr this w) (\<lambda>(a, ob).
       let own = answer_query env (shim_add_ref env this) this this (inner ob) riid ppv w
       in case outer_unknown ob of
            Some outer \<Rightarrow>
              if outer \<noteq> NullPtr then env_foreign_query_interface env outer riid ppv w else own
          | None \<Rightarrow> own))"

definition shim_non_delegating_query_interface ::
  "('t, 'a, 'x) env \<Rightarrow> com_ptr \<Rightarrow> GUID option \<Rightarrow> bool \<Rightarrow> ('t, 'a, 'x) world
    \<Rightarrow> ((NTSTATUS \<times> com_ptr option) \<times> ('t, 'a, 'x) world) outcome" where
  "shim_non_delegating_query_interface env this riid ppv w =
     panic_guard (and_then (from_non_delegating this w) (\<lambda>(a, ob).
       answer_query env (shim_non_delegating_add_ref env this) this (PrimaryPtr a) (inner ob)
         riid ppv w))"

definition shim_query_interface_n ::
  "('t, 'a, 'x) env \<Rightarrow> com_ptr \<Rightarrow> GUID option \<Rightarrow> bool \<Rightarrow> ('t, 'a, 'x) world
    \<Rightarrow> ((NTSTATUS \<times> com_ptr option) \<times> ('t, 'a, 'x) world) outcome" where
  "shim_query_interface_n env this riid ppv w =
     panic_guard (and_then (from_ptr this w) (\<lambda>(a, ob).
       let own = answer_query env (shim_add_ref_n env this) this this (inner ob) riid ppv w
       in case outer_unknown ob of
            Some outer \<Rightarrow>
              if outer \<noteq> NullPtr then env_foreign_query_interface env outer riid ppv w else own
          | None \<Rightarrow> own))"

definition shim_query_interface_secondary ::
  "('t, 'a, 'x) env \<Rightarrow> com_ptr \<Rightarrow> GUID option \<Rightarrow> bool \<Rightarrow> ('t, 'a, 'x) world
    \<Rightarrow> ((NTSTATUS \<times> com_ptr option) \<times> ('t, 'a, 'x) world) outcome" where
  "shim_query_interface_secondary env this riid ppv w =
     panic_guard (and_then (parent_from_ptr this w) (\<lambda>primary.
     and_then (from_ptr primary w) (\<lambda>(a, ob).
       let own = answer_query env (shim_add_ref_n env primary) primary primary (inner ob) riid ppv w
       in case outer_unknown ob of
            Some outer \<Rightarrow>
              if outer \<noteq> NullPtr then env_foreign_query_interface env outer riid ppv w else own
          | None \<Rightarrow> own)))"

definition shim_non_delegating_query_interface_n ::
  "('t, 'a, 'x) env \<Rightarrow> com_ptr \<Rightarrow> GUID option \<Rightarrow> bool \<Rightarrow> ('t, 'a, 'x) world
    \<Rightarrow> ((NTSTATUS \<times> com_ptr option) \<times> ('t, 'a, 'x) world) outcome" where
  "shim_non_delegating_query_interface_n env this riid ppv w =
     panic_guard (and_then (from_non_delegating this w) (\<lambda>(a, ob).
     and_then (non_delegating_parent_ptr this w) (\<lambda>primary.
       answer_query env (shim_non_delegating_add_ref_n env this) this primary (inner ob)
         riid ppv w)))"

definition call_QueryInterface ::
  "('t, 'a, 'x) env \<Rightarrow> com_ptr \<Rightarrow> GUID option \<Rightarrow> bool \<Rightarrow> ('t, 'a, 'x) world
    \<Rightarrow> ((NTSTATUS \<times> com_ptr option) \<times> ('t, 'a, 'x) world) outcome" where
  "call_QueryInterface env p riid ppv w =
     and_then (read_vtbl p w) (\<lambda>vt.
       case vt of
         ComObjectVtbl \<Rightarrow> shim_query_interface env p riid ppv w
       | ComObjectNVtbl \<Rightarrow> shim_query_interface_n env p riid ppv w
       | SecondaryVtbl i \<Rightarrow> shim_query_interface_secondary env p riid ppv w
       | NonDelegatingVtbl \<Rightarrow> shim_non_delegating_query_interface env p riid ppv w
       | NonDelegatingNVtbl \<Rightarrow> shim_non_delegating_query_interface_n env p riid ppv w
       | ForeignVtbl \<Rightarrow> env_foreign_query_interface env p riid ppv w)"

section \<open>Construction\<close>

definition init_non_delegating_ptr :: "addr \<Rightarrow> ('t, 'a) ComObject \<Rightarrow> ('t, 'a) ComObject" where
  "init_non_delegating_ptr ptr ob =
     ob\<lparr>non_delegating_unknown := (non_delegating_unknown ob)\<lparr>nd_parent := PrimaryPtr ptr\<rparr>\<rparr>"

text \<open>\<open>SecondaryList::init\<close>: every entry of the tuple gets the parent.\<close>

definition secondary_list_init :: "com_ptr \<Rightarrow> InterfaceEntryN list \<Rightarrow> InterfaceEntryN list" where
  "secondary_list_init parent es = map (\<lambda>e. e\<lparr>entry_parent := parent\<rparr>) es"

definition init_secondary_ptr :: "addr \<Rightarrow> ('t, 'a) ComObject \<Rightarrow> ('t, 'a) ComObject" where
  "init_secondary_ptr ptr ob =
     ob\<lparr>secondaries := secondary_list_init (PrimaryPtr ptr) (secondaries ob)\<rparr>"

text \<open>\<open>SecondaryComImpl::secondary_entries\<close>; \<open>vts\<close> are the \<open>VTABLE\<close> constants of the tuple.\<close>

definition secondary_entries :: "vtbl list \<Rightarrow> InterfaceEntryN list" where
  "secondary_entries vts = map (\<lambda>vt. \<lparr>entry_vtable = vt, entry_parent = NullPtr\<rparr>) vts"

definition secondary_ptr :: "com_ptr \<Rightarrow> nat \<Rightarrow> ('t, 'a, 'x) world \<Rightarrow> com_ptr outcome" where
  "secondary_ptr p index w =
     and_then (from_ptr p w) (\<lambda>(a, ob).
       if index < length (secondaries ob) then Return (SecondaryPtr a index) else Undefined)"

definition try_new_in ::
  "('t, 'a, 'x) env \<Rightarrow> 't \<Rightarrow> 'a \<Rightarrow> ('t, 'a, 'x) world \<Rightarrow> com_ptr option \<times> ('t, 'a, 'x) world" where
  "try_new_in env inner_value al w =
     (let (ptr, w1) = env_alloc env al (env_layout env) w
      in if ptr = null then (None, log_event (DropArguments al) w1)
         else
           let ob = \<lparr>vtable = ComObjectVtbl, secondaries = [],
                 non_delegating_unknown = \<lparr>nd_vtable = NonDelegatingVtbl, nd_parent = NullPtr\<rparr>,
                 ref_count = 1, outer_unknown = None, inner = inner_value, alloc = al\<rparr>
           in (Some (PrimaryPtr ptr), put_object ptr (init_non_delegating_ptr ptr ob) w1))"

definition new_in ::
  "('t, 'a, 'x) env \<Rightarrow> 't \<Rightarrow> 'a \<Rightarrow> ('t, 'a, 'x) world
    \<Rightarrow> (NTSTATUS + com_ptr) \<times> ('t, 'a, 'x) world" where
  "new_in env inner_value al w =
     (case try_new_in env inner_value al w of
        (Some p, w1) \<Rightarrow> (Inr p, w1)
      | (None, w1) \<Rightarrow> (Inl STATUS_INSUFFICIENT_RESOURCES, w1))"

definition try_new_in_with_layout ::
  "('t, 'a, 'x) env \<Rightarrow> 't \<Rightarrow> 'a \<Rightarrow> Layout \<Rightarrow> ('t, 'a, 'x) world
    \<Rightarrow> com_ptr option \<times> ('t, 'a, 'x) world" where
  "try_new_in_with_layout env inner_value al layout w =
     (if layout \<noteq> env_layout env then (None, log_event (DropArguments al) w)
      else try_new_in env inner_value al w)"

definition non_delegating_ptr :: "addr \<Rightarrow> com_ptr" where
  "non_delegating_ptr ptr = NonDelegatingPtr ptr"

definition try_new_aggregated_in ::
  "('t, 'a, 'x) env \<Rightarrow> 't \<Rightarrow> com_ptr \<Rightarrow> 'a \<Rightarrow> ('t, 'a, 'x) world
    \<Rightarrow> com_ptr option \<times> ('t, 'a, 'x) world" where
  "try_new_aggregated_in env inner_value outer al w =
     (let (ptr, w1) = env_alloc env al (env_layout env) w
      in if ptr = null then (None, log_event (DropArguments al) w1)
         else
           let ob = \<lparr>vtable = ComObjectVtbl, secondaries = [],
                 non_delegating_unknown = \<lparr>nd_vtable = NonDelegatingVtbl, nd_parent = NullPtr\<rparr>,
                 ref_count = 1, outer_unknown = Some outer, inner = inner_value, alloc = al\<rparr>
           in (Some (non_delegating_ptr ptr), put_object ptr (init_non_delegating_ptr ptr ob) w1))"

definition new_aggregated_in ::
  "('t, 'a, 'x) env \<Rightarrow> 't \<Rightarrow> com_ptr \<Rightarrow> 'a \<Rightarrow> ('t, 'a, 'x) world
    \<Rightarrow> (NTSTATUS + com_ptr) \<times> ('t, 'a, 'x) world" where
  "new_aggregated_in env inner_value outer al w =
     (case try_new_aggregated_in env inner_value outer al w of
        (Some p, w1) \<Rightarrow> (Inr p, w1)
      | (None, w1) \<Rightarrow> (Inl STATUS_INSUFFICIENT_RESOURCES, w1))"

definition is_aggregated :: "('t, 'a) ComObject \<Rightarrow> bool" where
  "is_aggregated ob \<longleftrightarrow> outer_unknown ob \<noteq> None"

definition try_new_in_n ::
  "('t, 'a, 'x) env \<Rightarrow> vtbl list \<Rightarrow> 't \<Rightarrow> 'a \<Rightarrow> ('t, 'a, 'x) world
    \<Rightarrow> com_ptr option \<times> ('t, 'a, 'x) world" where
  "try_new_in_n env vts inner_value al w =
     (let (ptr, w1) = env_alloc env al (env_layout env) w
      in if ptr = null then (None, log_event (DropArguments al) w1)
         else
           let ob = \<lparr>vtable = ComObjectNVtbl, secondaries = secondary_entries vts,
                 non_delegating_unknown = \<lparr>nd_vtable = NonDelegatingNVtbl, nd_parent = NullPtr\<rparr>,
                 ref_count = 1, outer_unknown = None, inner = inner_value, alloc = al\<rparr>
           in (Some (PrimaryPtr ptr),
               put_object ptr (init_secondary_ptr ptr (init_non_delegating_ptr ptr ob)) w1))"

definition new_in_n ::
  "('t, 'a, 'x) env \<Rightarrow> vtbl list \<Rightarrow> 't \<Rightarrow> 'a \<Rightarrow> ('t, 'a, 'x) world
    \<Rightarrow> (NTSTATUS + com_ptr) \<times> ('t, 'a, 'x) world" where
  "new_in_n env vts inner_value al w =
     (case try_new_in_n env vts inner_value al w of
        (Some p, w1) \<Rightarrow> (Inr p, w1)
      | (None, w1) \<Rightarrow> (Inl STATUS_INSUFFICIENT_RESOURCES, w1))"

section \<open>Well-formed objects and their interface pointers\<close>

definition delegates :: "('t, 'a) ComObject \<Rightarrow> bool" where
  "delegates ob = (case outer_unknown ob of Some p \<Rightarrow> p \<noteq> NullPtr | None \<Rightarrow> False)"

fun is_secondary_vtbl :: "vtbl \<Rightarrow> bool" where
  "is_secondary_vtbl (SecondaryVtbl i) = True"
| "is_secondary_vtbl _ = False"

text \<open>Every interface field of an object holds a vtable of its kind and leads to the primary.\<close>

definition wf_object :: "addr \<Rightarrow> ('t, 'a) ComObject \<Rightarrow> bool" where
  "wf_object a ob \<longleftrightarrow>
     vtable ob \<in> {ComObjectVtbl, ComObjectNVtbl}
     \<and> nd_vtable (non_delegating_unknown ob) \<in> {NonDelegatingVtbl, NonDelegatingNVtbl}
     \<and> nd_parent (non_delegating_unknown ob) = PrimaryPtr a
     \<and> list_all (\<lambda>e. is_secondary_vtbl (entry_vtable e) \<and> entry_parent e = PrimaryPtr a)
         (secondaries ob)"

text \<open>
  The pointers whose \<open>IUnknown\<close> calls count on the object itself: all of its interface pointers,
  or for an aggregated object the non-delegating one only.
\<close>

definition counting_ptrs :: "addr \<Rightarrow> ('t, 'a, 'x) world \<Rightarrow> com_ptr set" where
  "counting_ptrs a w =
     (case objects w a of
        None \<Rightarrow> {}
      | Some ob \<Rightarrow>
          insert (NonDelegatingPtr a)
            (if delegates ob then {}
             else insert (PrimaryPtr a) (SecondaryPtr a ` {..<length (secondaries ob)})))"

lemma panic_guard_Return [simp]: "panic_guard (Return x) = Return x"
  by (simp add: panic_guard_def)

lemma panic_guard_Halt [simp]: "panic_guard (Halt h) = Halt h"
  by (simp add: panic_guard_def)

lemma panic_guard_Undefined [simp]: "panic_guard Undefined = Undefined"
  by (simp add: panic_guard_def)

lemma panic_guard_idem [simp]: "panic_guard (panic_guard m) = panic_guard m"
  by (cases m) (simp_all add: panic_guard_def fail_fast_def)

lemma panic_guard_neq_Panic [simp]: "panic_guard m \<noteq> Panic"
  by (cases m) (simp_all add: panic_guard_def fail_fast_def)

lemma put_object_simps [simp]:
  "objects (put_object a ob w) = (objects w)(a \<mapsto> ob)"
  "events (put_object a ob w) = events w"
  "foreign (put_object a ob w) = foreign w"
  by (simp_all add: put_object_def)

lemma log_event_simps [simp]:
  "objects (log_event e w) = objects w"
  "events (log_event e w) = events w @ [e]"
  "foreign (log_event e w) = foreign w"
  by (simp_all add: log_event_def)

lemma wf_object_ref_count [simp]: "wf_object a (ob\<lparr>ref_count := c\<rparr>) = wf_object a ob"
  by (simp add: wf_object_def)

lemma delegates_ref_count [simp]: "delegates (ob\<lparr>ref_count := c\<rparr>) = delegates ob"
  by (simp add: delegates_def)

lemma wf_object_entry:
  assumes "wf_object a ob" and "i < length (secondaries ob)"
  shows "entry_parent (secondaries ob ! i) = PrimaryPtr a"
    and "\<exists>k. entry_vtable (secondaries ob ! i) = SecondaryVtbl k"
proof -
  have e: "is_secondary_vtbl (entry_vtable (secondaries ob ! i))
      \<and> entry_parent (secondaries ob ! i) = PrimaryPtr a"
    using assms by (auto simp: wf_object_def list_all_length)
  then show "entry_parent (secondaries ob ! i) = PrimaryPtr a" by simp
  from e show "\<exists>k. entry_vtable (secondaries ob ! i) = SecondaryVtbl k"
    by (cases "entry_vtable (secondaries ob ! i)") auto
qed

lemma counting_ptrs_cases:
  assumes "p \<in> counting_ptrs a w" and "objects w a = Some ob"
  obtains (nd) "p = NonDelegatingPtr a"
    | (primary) "p = PrimaryPtr a" "\<not> delegates ob"
    | (secondary) i where "p = SecondaryPtr a i" "i < length (secondaries ob)" "\<not> delegates ob"
  using assms by (auto simp: counting_ptrs_def split: if_splits)

lemma counting_ptrs_put_ref_count:
  assumes "objects w a = Some ob"
  shows "counting_ptrs a (put_object a (ob\<lparr>ref_count := c\<rparr>) w) = counting_ptrs a w"
  using assms by (simp add: counting_ptrs_def)

definition release_own ::
  "('t, 'a, 'x) env \<Rightarrow> addr \<Rightarrow> ('t, 'a, 'x) world \<Rightarrow> (u32 \<times> ('t, 'a, 'x) world) outcome" where
  "release_own env a w =
     and_then (sub_ref_count env a w) (\<lambda>(count, w1).
       if count = 0 then and_then (release_inner env a w1) (\<lambda>w2. Return (count, w2))
       else Return (count, w1))"

lemma delegating_add_ref_own:
  "\<not> delegates ob \<Longrightarrow> delegating_add_ref env (outer_unknown ob) a w = add_ref_count env a w"
  by (auto simp: delegating_add_ref_def delegates_def split: option.splits)

lemma delegating_release_own:
  "\<not> delegates ob \<Longrightarrow>
    delegating_release env (outer_unknown ob) a (release_inner env a) w = release_own env a w"
  by (auto simp: delegating_release_def delegates_def release_own_def Let_def split: option.splits)

lemmas ptr_resolution_defs =
  from_ptr_def parent_from_ptr_def non_delegating_parent_ptr_def from_secondary_ptr_def
  from_non_delegating_def read_vtbl_def

text \<open>Whatever counting pointer is used, the calls reach the count of the object itself.\<close>

lemma call_AddRef_own:
  assumes "p \<in> counting_ptrs a w" and ob: "objects w a = Some ob" and wf: "wf_object a ob"
  shows "call_AddRef env p w = panic_guard (add_ref_count env a w)"
  using assms(1) ob
proof (cases rule: counting_ptrs_cases)
  case nd
  then show ?thesis using ob wf
    by (auto simp: call_AddRef_def ptr_resolution_defs wf_object_def
        shim_non_delegating_add_ref_def shim_non_delegating_add_ref_n_def)
next
  case primary
  then show ?thesis using ob wf
    by (auto simp: call_AddRef_def ptr_resolution_defs wf_object_def shim_add_ref_def
        shim_add_ref_n_def delegating_add_ref_own)
next
  case (secondary i)
  then show ?thesis using ob wf_object_entry [OF wf, of i]
    by (auto simp: call_AddRef_def ptr_resolution_defs shim_add_ref_secondary_def
        delegating_add_ref_own)
qed

lemma call_Release_own:
  assumes "p \<in> counting_ptrs a w" and ob: "objects w a = Some ob" and wf: "wf_object a ob"
  shows "call_Release env p w = panic_guard (release_own env a w)"
  using assms(1) ob
proof (cases rule: counting_ptrs_cases)
  case nd
  then show ?thesis using ob wf
    by (auto simp: call_Release_def ptr_resolution_defs wf_object_def release_own_def
        shim_non_delegating_release_def shim_non_delegating_release_n_def)
next
  case primary
  then show ?thesis using ob wf
    by (auto simp: call_Release_def ptr_resolution_defs wf_object_def shim_release_def
        shim_release_n_def delegating_release_own)
next
  case (secondary i)
  then show ?thesis using ob wf_object_entry [OF wf, of i]
    by (auto simp: call_Release_def ptr_resolution_defs shim_release_secondary_def
        shim_release_n_def delegating_release_own)
qed

section \<open>The contract of a COM object\<close>

fun is_dealloc :: "addr \<Rightarrow> 'a com_event \<Rightarrow> bool" where
  "is_dealloc a (Dealloc al b l) = (a = b)"
| "is_dealloc a _ = False"

definition drops :: "addr \<Rightarrow> ('t, 'a, 'x) world \<Rightarrow> nat" where
  "drops a w = length (filter (\<lambda>e. e = DropInner a) (events w))"

definition deallocs :: "addr \<Rightarrow> ('t, 'a, 'x) world \<Rightarrow> nat" where
  "deallocs a w = length (filter (is_dealloc a) (events w))"

text \<open>
  What the code around an object must do for the object to keep its promises: the drop of the
  inner value returns and leaves the object's count alone (the rule that \<open>Drop\<close> must not
  resurrect), and neither it nor the allocator ends the lifetime of this object.
\<close>

definition well_behaved :: "('t, 'a, 'x) env \<Rightarrow> addr \<Rightarrow> bool" where
  "well_behaved env a \<longleftrightarrow>
     (\<forall>v w. \<exists>w'. env_drop_inner env a v w = Return w' \<and> objects w' a = objects w a
        \<and> drops a w' = drops a w \<and> deallocs a w' = deallocs a w)
     \<and> (\<forall>al l w. drops a (env_dealloc env al a l w) = drops a w
        \<and> deallocs a (env_dealloc env al a l w) = deallocs a w)"

definition alive_with ::
  "('t, 'a, 'x) env \<Rightarrow> addr \<Rightarrow> nat \<Rightarrow> nat \<Rightarrow> ('t, 'a, 'x) world \<Rightarrow> bool" where
  "alive_with env a k n w \<longleftrightarrow>
     well_behaved env a \<and> 0 < n \<and> n \<le> refcount_cap (env_build env)
     \<and> drops a w = k \<and> deallocs a w = k
     \<and> (\<exists>ob. objects w a = Some ob \<and> wf_object a ob \<and> ref_count ob = of_nat n)"

definition dead_after :: "addr \<Rightarrow> nat \<Rightarrow> ('t, 'a, 'x) world \<Rightarrow> bool" where
  "dead_after a k w \<longleftrightarrow> objects w a = None \<and> drops a w = k + 1 \<and> deallocs a w = k + 1"

lemma lifetime_counts_simps [simp]:
  "drops a (put_object b ob w) = drops a w"
  "deallocs a (put_object b ob w) = deallocs a w"
  "drops a (w\<lparr>objects := m\<rparr>) = drops a w"
  "deallocs a (w\<lparr>objects := m\<rparr>) = deallocs a w"
  "drops a (log_event (DropInner b) w) = drops a w + (if a = b then 1 else 0)"
  "drops a (log_event (Dealloc al b l) w) = drops a w"
  "drops a (log_event (DropAlloc al b) w) = drops a w"
  "deallocs a (log_event (DropInner b) w) = deallocs a w"
  "deallocs a (log_event (Dealloc al b l) w) = deallocs a w + (if a = b then 1 else 0)"
  "deallocs a (log_event (DropAlloc al b) w) = deallocs a w"
  by (simp_all add: drops_def deallocs_def)

lemma add_ref_count_alive:
  assumes "alive_with env a k n w" and "n < refcount_cap (env_build env)"
  shows "\<exists>w'. add_ref_count env a w = Return (of_nat (n + 1), w') \<and> alive_with env a k (n + 1) w'
    \<and> counting_ptrs a w' = counting_ptrs a w"
proof -
  obtain ob where ob: "objects w a = Some ob" "wf_object a ob" "ref_count ob = of_nat n"
    using assms(1) by (auto simp: alive_with_def)
  then have "add_ref_count env a w
      = Return (of_nat (n + 1), put_object a (ob\<lparr>ref_count := of_nat (n + 1)\<rparr>) w)"
    using refcount.add_of_nat [OF assms(2)] by (simp add: add_ref_count_def)
  then show ?thesis
    using ob assms counting_ptrs_put_ref_count [OF ob(1)] by (auto simp: alive_with_def)
qed

lemma sub_ref_count_alive:
  assumes "alive_with env a k (Suc n) w"
  obtains ob where "objects w a = Some ob" "wf_object a ob"
    "sub_ref_count env a w = Return (of_nat n, put_object a (ob\<lparr>ref_count := of_nat n\<rparr>) w)"
proof -
  obtain ob where ob: "objects w a = Some ob" "wf_object a ob" "ref_count ob = of_nat (Suc n)"
    using assms by (auto simp: alive_with_def)
  moreover have "Suc n \<le> refcount_cap (env_build env)" using assms by (simp add: alive_with_def)
  ultimately have "sub_ref_count env a w
      = Return (of_nat n, put_object a (ob\<lparr>ref_count := of_nat n\<rparr>) w)"
    using refcount.sub_of_nat [of "Suc n" "env_build env"]
    by (simp add: sub_ref_count_def del: of_nat_Suc)
  with ob that show ?thesis by blast
qed

lemma of_nat_positive_count:
  assumes "0 < n" and "n \<le> refcount_cap b"
  shows "(of_nat n :: u32) \<noteq> 0"
proof -
  have "unat (of_nat n :: u32) = n"
    using assms refcount_cap_bound [of b] by (intro unat_of_nat_small) simp
  with assms(1) show ?thesis by auto
qed

lemma release_own_shared:
  assumes "alive_with env a k (Suc n) w" and "0 < n"
  shows "\<exists>w'. release_own env a w = Return (of_nat n, w') \<and> alive_with env a k n w'
    \<and> counting_ptrs a w' = counting_ptrs a w"
proof -
  obtain ob where ob: "objects w a = Some ob" "wf_object a ob"
    and sub: "sub_ref_count env a w
      = Return (of_nat n, put_object a (ob\<lparr>ref_count := of_nat n\<rparr>) w)"
    using assms(1) by (rule sub_ref_count_alive)
  have range: "n \<le> refcount_cap (env_build env)" using assms(1) by (simp add: alive_with_def)
  then have "release_own env a w = Return (of_nat n, put_object a (ob\<lparr>ref_count := of_nat n\<rparr>) w)"
    using sub of_nat_positive_count [OF assms(2)] by (simp add: release_own_def)
  then show ?thesis
    using ob assms range counting_ptrs_put_ref_count [OF ob(1)] by (auto simp: alive_with_def)
qed

lemma release_inner_dead:
  assumes "well_behaved env a" and "objects w a = Some ob" and "ref_count ob = 0"
    and "drops a w = k" and "deallocs a w = k"
  shows "\<exists>w'. release_inner env a w = Return w' \<and> dead_after a k w'"
proof -
  let ?w1 = "log_event (DropInner a) w"
  obtain w2 where w2: "env_drop_inner env a (inner ob) ?w1 = Return w2"
    "objects w2 a = objects ?w1 a" "drops a w2 = drops a ?w1" "deallocs a w2 = deallocs a ?w1"
    using assms(1) unfolding well_behaved_def by blast
  have "drops a (env_dealloc env (alloc ob) a (env_layout env) w2) = drops a w2"
    "deallocs a (env_dealloc env (alloc ob) a (env_layout env) w2) = deallocs a w2"
    using assms(1) by (auto simp: well_behaved_def)
  then show ?thesis
    using w2 assms(2-5) by (simp add: release_inner_def Let_def dead_after_def)
qed

lemma release_own_last:
  assumes "alive_with env a k 1 w"
  shows "\<exists>w'. release_own env a w = Return (0, w') \<and> dead_after a k w'"
proof -
  obtain ob where ob: "objects w a = Some ob" "wf_object a ob"
    and sub: "sub_ref_count env a w = Return (0, put_object a (ob\<lparr>ref_count := 0\<rparr>) w)"
    using assms sub_ref_count_alive [of env a k 0 w] by auto
  obtain w' where "release_inner env a (put_object a (ob\<lparr>ref_count := 0\<rparr>) w) = Return w'"
    "dead_after a k w'"
    using release_inner_dead
      [of env a "put_object a (ob\<lparr>ref_count := 0\<rparr>) w" "ob\<lparr>ref_count := 0\<rparr>" k] assms
    by (auto simp: alive_with_def)
  then show ?thesis using sub by (simp add: release_own_def)
qed

lemma alive_with_object:
  assumes "alive_with env a k n w"
  obtains ob where "objects w a = Some ob" "wf_object a ob"
  using assms by (auto simp: alive_with_def)

interpretation com: com_contract "call_AddRef env" "call_Release env" "counting_ptrs a"
  "alive_with env a k" "dead_after a k" "refcount_cap (env_build env)" for env a k
proof unfold_locales
  fix n w assume "alive_with env a k n w"
  then show "0 < n \<and> n \<le> refcount_cap (env_build env)" by (simp add: alive_with_def)
next
  fix n w p
  assume a: "alive_with env a k n w" "n < refcount_cap (env_build env)" "p \<in> counting_ptrs a w"
  then obtain ob where "objects w a = Some ob" "wf_object a ob" by (auto elim: alive_with_object)
  then show "\<exists>w'. call_AddRef env p w = Return (of_nat (n + 1), w')
      \<and> alive_with env a k (n + 1) w' \<and> counting_ptrs a w' = counting_ptrs a w"
    using add_ref_count_alive [OF a(1,2)] by (auto simp: call_AddRef_own [OF a(3)])
next
  fix n w p
  assume a: "alive_with env a k (Suc n) w" "0 < n" "p \<in> counting_ptrs a w"
  then obtain ob where "objects w a = Some ob" "wf_object a ob" by (auto elim: alive_with_object)
  then show "\<exists>w'. call_Release env p w = Return (of_nat n, w')
      \<and> alive_with env a k n w' \<and> counting_ptrs a w' = counting_ptrs a w"
    using release_own_shared [OF a(1,2)] by (auto simp: call_Release_own [OF a(3)])
next
  fix w p
  assume a: "alive_with env a k 1 w" "p \<in> counting_ptrs a w"
  then obtain ob where "objects w a = Some ob" "wf_object a ob" by (auto elim: alive_with_object)
  then show "\<exists>w'. call_Release env p w = Return (0, w') \<and> dead_after a k w'"
    using release_own_last [OF a(1)] by (auto simp: call_Release_own [OF a(2)])
qed

section \<open>Properties\<close>

text \<open>
  An environment for concrete runs: an inner type without destructor or further interfaces, an
  allocator that owns one block, and no foreign objects.
\<close>

definition unit_env :: "build \<Rightarrow> (unit, unit, unit) env" where
  "unit_env b =
     \<lparr>env_build = b, env_layout = \<lparr>layout_size = 72, layout_align = 8\<rparr>,
      env_alloc = (\<lambda>al l w. (if objects w 4096 = None then 4096 else null, w)),
      env_dealloc = (\<lambda>al a l w. w),
      env_drop_inner = (\<lambda>a v w. Return w),
      env_query_interface = (\<lambda>v this iid w. Return (None, w)),
      env_foreign_add_ref = (\<lambda>p w. Undefined),
      env_foreign_release = (\<lambda>p w. Undefined),
      env_foreign_query_interface = (\<lambda>p riid ppv w. Undefined)\<rparr>"

definition empty_world :: "(unit, unit, unit) world" where
  "empty_world = \<lparr>objects = Map.empty, events = [], foreign = ()\<rparr>"

definition hardened_build :: build where
  "hardened_build = \<lparr>hardening = Hardened, overflow_checks = False\<rparr>"

lemma well_behaved_unit_env: "well_behaved (unit_env b) a"
  by (simp add: well_behaved_def unit_env_def)

lemma refcount_cap_positive: "1 \<le> refcount_cap b"
  by (simp add: refcount_cap_def)

lemma wf_new_object_n:
  assumes "list_all is_secondary_vtbl vts"
  shows "wf_object a (init_secondary_ptr a (init_non_delegating_ptr a
     \<lparr>vtable = ComObjectNVtbl, secondaries = secondary_entries vts,
      non_delegating_unknown = \<lparr>nd_vtable = NonDelegatingNVtbl, nd_parent = NullPtr\<rparr>,
      ref_count = c, outer_unknown = ou, inner = v, alloc = al\<rparr>))"
  using assms
  by (simp add: wf_object_def init_secondary_ptr_def init_non_delegating_ptr_def
      secondary_list_init_def secondary_entries_def list.pred_map comp_def)

lemma wf_new_object:
  "wf_object a (init_non_delegating_ptr a
     \<lparr>vtable = ComObjectVtbl, secondaries = [],
      non_delegating_unknown = \<lparr>nd_vtable = NonDelegatingVtbl, nd_parent = NullPtr\<rparr>,
      ref_count = c, outer_unknown = ou, inner = v, alloc = al\<rparr>)"
  by (simp add: wf_object_def init_non_delegating_ptr_def)

lemma init_ptr_fields [simp]:
  "ref_count (init_non_delegating_ptr a ob) = ref_count ob"
  "ref_count (init_secondary_ptr a ob) = ref_count ob"
  "outer_unknown (init_non_delegating_ptr a ob) = outer_unknown ob"
  "outer_unknown (init_secondary_ptr a ob) = outer_unknown ob"
  "secondaries (init_non_delegating_ptr a ob) = secondaries ob"
  "inner (init_non_delegating_ptr a ob) = inner ob" "inner (init_secondary_ptr a ob) = inner ob"
  "alloc (init_non_delegating_ptr a ob) = alloc ob" "alloc (init_secondary_ptr a ob) = alloc ob"
  "length (secondaries (init_secondary_ptr a ob)) = length (secondaries ob)"
  by (simp_all add: init_non_delegating_ptr_def init_secondary_ptr_def secondary_list_init_def)

lemma try_new_in_n_alive:
  assumes "try_new_in_n env vts v al w0 = (Some p, w)" and "list_all is_secondary_vtbl vts"
    and "\<forall>a. p = PrimaryPtr a \<longrightarrow> well_behaved env a \<and> drops a w = deallocs a w"
  obtains a where "p = PrimaryPtr a" "a \<noteq> null" "alive_with env a (drops a w) 1 w"
    "counting_ptrs a w
      = {NonDelegatingPtr a, PrimaryPtr a} \<union> SecondaryPtr a ` {..<length vts}"
proof -
  obtain a w1 where al: "env_alloc env al (env_layout env) w0 = (a, w1)" by fastforce
  with assms(1) have a: "a \<noteq> null" "p = PrimaryPtr a"
    and w: "w = put_object a (init_secondary_ptr a (init_non_delegating_ptr a
     \<lparr>vtable = ComObjectNVtbl, secondaries = secondary_entries vts,
      non_delegating_unknown = \<lparr>nd_vtable = NonDelegatingNVtbl, nd_parent = NullPtr\<rparr>,
      ref_count = 1, outer_unknown = None, inner = v, alloc = al\<rparr>)) w1"
    by (auto simp: try_new_in_n_def Let_def split: if_splits)
  have "alive_with env a (drops a w) 1 w"
    using assms(2,3) a w refcount_cap_positive wf_new_object_n
    by (auto simp: alive_with_def)
  moreover have "counting_ptrs a w
      = {NonDelegatingPtr a, PrimaryPtr a} \<union> SecondaryPtr a ` {..<length vts}"
    using w by (auto simp: counting_ptrs_def delegates_def secondary_entries_def)
  ultimately show ?thesis using a that by blast
qed

text \<open>C4: The life of a \<open>ComObjectN\<close>. However the clients mix \<open>AddRef\<close> and \<open>Release\<close> calls
  through the primary, the secondary and the non-delegating pointers of a freshly created object,
  as long as they follow the COM rules (no call after the last reference is gone), every call
  returns; while references remain the object is in place with exactly that count and nothing of
  it was dropped or freed; and the release of the last one drops the inner value exactly once and
  frees the block exactly once.\<close>

theorem com_object_n_lifecycle:
  assumes "well_behaved env a" and "list_all is_secondary_vtbl vts"
    and "try_new_in_n env vts v al w0 = (Some (PrimaryPtr a), w)" and "drops a w = deallocs a w"
    and "call_ptr ` set cs
      \<subseteq> {NonDelegatingPtr a, PrimaryPtr a} \<union> SecondaryPtr a ` {..<length vts}"
    and "live_count (refcount_cap (env_build env)) cs 1 = Some m"
  shows "\<exists>w'. run_calls (call_AddRef env) (call_Release env) cs w = Return w'
    \<and> (0 < m \<longrightarrow> (\<exists>ob. objects w' a = Some ob \<and> ref_count ob = of_nat m)
        \<and> drops a w' = drops a w \<and> deallocs a w' = deallocs a w)
    \<and> (m = 0 \<longrightarrow> objects w' a = None
        \<and> drops a w' = drops a w + 1 \<and> deallocs a w' = deallocs a w + 1)"
proof -
  obtain alive: "alive_with env a (drops a w) 1 w"
    and ptrs: "counting_ptrs a w
      = {NonDelegatingPtr a, PrimaryPtr a} \<union> SecondaryPtr a ` {..<length vts}"
    using try_new_in_n_alive [OF assms(3,2)] assms(1,4) by auto
  then obtain w' where "run_calls (call_AddRef env) (call_Release env) cs w = Return w'"
    and "m = 0 \<longrightarrow> dead_after a (drops a w) w'" "0 < m \<longrightarrow> alive_with env a (drops a w) m w'"
    using com.run_calls_live [OF alive] assms(5,6) by (metis ptrs)
  then show ?thesis using assms(4) by (auto simp: dead_after_def alive_with_def)
qed

theorem com_object_n_lifecycle_witness:
  "\<exists>w'. run_calls (call_AddRef (unit_env hardened_build)) (call_Release (unit_env hardened_build))
      [CallAddRef (SecondaryPtr 4096 0), CallRelease (PrimaryPtr 4096),
       CallRelease (NonDelegatingPtr 4096)]
      (snd (try_new_in_n (unit_env hardened_build) [SecondaryVtbl 0] () () empty_world)) = Return w'
    \<and> objects w' 4096 = None \<and> drops 4096 w' = 1 \<and> deallocs 4096 w' = 1"
proof -
  let ?e = "unit_env hardened_build"
  let ?w = "snd (try_new_in_n ?e [SecondaryVtbl 0] () () empty_world)"
  have new: "try_new_in_n ?e [SecondaryVtbl 0] () () empty_world = (Some (PrimaryPtr 4096), ?w)"
    by (simp add: try_new_in_n_def unit_env_def empty_world_def)
  have none: "drops 4096 ?w = 0" "deallocs 4096 ?w = 0"
    by (simp_all add: try_new_in_n_def unit_env_def empty_world_def drops_def deallocs_def)
  show ?thesis
    using com_object_n_lifecycle [OF well_behaved_unit_env _ new, of
        "[CallAddRef (SecondaryPtr 4096 0), CallRelease (PrimaryPtr 4096),
          CallRelease (NonDelegatingPtr 4096)]" 0] none
    by (simp add: unit_env_def refcount_cap_def hardened_build_def)
qed

end
