(* ===== verification/Com_Objects.thy ===== *)
theory Com_Objects
  imports Wrapper
begin

text \<open>
  What clients of the objects of \<open>src/wrapper.rs\<close> may rely on beyond the counting contract:
  no panic leaves a shim, \<open>QueryInterface\<close> keeps the identity of an object and counts what it
  hands out, aggregated objects forward to their outer unknown, a resurrected object stops the
  system and construction reports exhaustion.
\<close>

section \<open>Panics\<close>

text \<open>No panic of the inner type, of the counters or of an outer object leaves an \<open>IUnknown\<close>
  shim of the crate: a call through any pointer to one of its vtables returns, stops the system,
  or breaks a safety contract, but never unwinds into the foreign caller.\<close>

theorem shims_never_unwind:
  assumes "read_vtbl p w \<noteq> Return ForeignVtbl"
  shows "call_AddRef env p w \<noteq> Panic \<and> call_Release env p w \<noteq> Panic
    \<and> call_QueryInterface env p riid ppv w \<noteq> Panic"
proof (cases "read_vtbl p w")
  case (Return vt)
  with assms show ?thesis
    by (cases vt)
      (simp_all add: call_AddRef_def call_Release_def call_QueryInterface_def shim_add_ref_def
        shim_release_def shim_query_interface_def shim_add_ref_n_def shim_release_n_def
        shim_query_interface_n_def shim_add_ref_secondary_def shim_release_secondary_def
        shim_query_interface_secondary_def shim_non_delegating_add_ref_def
        shim_non_delegating_release_def shim_non_delegating_query_interface_def
        shim_non_delegating_add_ref_n_def shim_non_delegating_release_n_def
        shim_non_delegating_query_interface_n_def)
next
  case Panic
  then show ?thesis
    by (cases p) (auto simp: read_vtbl_def outcome_simps split: if_splits)
qed (simp_all add: call_AddRef_def call_Release_def call_QueryInterface_def)

definition panicking_env :: "(unit, unit, unit) env" where
  "panicking_env = (unit_env hardened_build)\<lparr>env_drop_inner := (\<lambda>a v w. Panic)\<rparr>"

theorem shims_never_unwind_witness:
  "let w = snd (try_new_in panicking_env () () empty_world)
   in call_Release panicking_env (PrimaryPtr 4096) w = Halt FailFast
     \<and> call_Release panicking_env (PrimaryPtr 4096) w \<noteq> Panic"
proof -
  let ?w = "snd (try_new_in panicking_env () () empty_world)"
  have obj: "objects ?w 4096 = Some (init_non_delegating_ptr 4096
     \<lparr>vtable = ComObjectVtbl, secondaries = [],
      non_delegating_unknown = \<lparr>nd_vtable = NonDelegatingVtbl, nd_parent = NullPtr\<rparr>,
      ref_count = 1, outer_unknown = None, inner = (), alloc = ()\<rparr>)"
    by (simp add: try_new_in_def panicking_env_def unit_env_def empty_world_def)
  then have vt: "read_vtbl (PrimaryPtr 4096) ?w = Return ComObjectVtbl"
    by (simp add: read_vtbl_def init_non_delegating_ptr_def)
  have "call_Release panicking_env (PrimaryPtr 4096) ?w = Halt FailFast"
    using obj vt
    by (simp add: call_Release_def shim_release_def from_ptr_def delegating_release_def
        sub_ref_count_def release_inner_def panicking_env_def unit_env_def hardened_build_def
        refcount_op_defs panic_guard_def fail_fast_def)
  then show ?thesis
    using shims_never_unwind [of "PrimaryPtr 4096" ?w] vt by (simp add: Let_def)
qed

section \<open>QueryInterface\<close>

definition unknown_of :: "addr \<Rightarrow> com_ptr \<Rightarrow> com_ptr" where
  "unknown_of a p = (if p = NonDelegatingPtr a then p else PrimaryPtr a)"

text \<open>
  Through a counting pointer every shim gives the answer of the object itself, with the pointer
  of \<open>unknown_of\<close> for \<open>IID_IUNKNOWN\<close> and the primary pointer for the inner type.
\<close>

lemma panic_guard_and_then:
  "panic_guard (and_then (panic_guard m) (\<lambda>x. Return (f x))) = panic_guard (and_then m (\<lambda>x. Return (f x)))"
  by (cases m) (simp_all add: panic_guard_def fail_fast_def)

lemma answer_query_own:
  assumes "g w = panic_guard (add_ref_count env a w)"
  shows "panic_guard (answer_query env g u q v riid ppv w)
    = panic_guard (answer_query env (add_ref_count env a) u q v riid ppv w)"
  using panic_guard_and_then [of "add_ref_count env a w" "\<lambda>(r, w1). ((STATUS_SUCCESS, Some u), w1)"]
  by (simp add: answer_query_def assms case_prod_beta' split: option.splits)

lemma delegates_outer_cases:
  "\<not> delegates ob \<Longrightarrow> (case outer_unknown ob of
     Some outer \<Rightarrow> if outer \<noteq> NullPtr then x outer else y | None \<Rightarrow> y) = y"
  by (auto simp: delegates_def split: option.splits)

lemma call_QueryInterface_own:
  assumes p: "p \<in> counting_ptrs a w" and ob: "objects w a = Some ob" and wf: "wf_object a ob"
  shows "call_QueryInterface env p riid ppv w
    = panic_guard (answer_query env (add_ref_count env a) (unknown_of a p) (PrimaryPtr a)
        (inner ob) riid ppv w)"
  using p ob
proof (cases rule: counting_ptrs_cases)
  case nd
  have "shim_non_delegating_add_ref env p w = panic_guard (add_ref_count env a w)"
    "shim_non_delegating_add_ref_n env p w = panic_guard (add_ref_count env a w)"
    using nd ob wf by (simp_all add: shim_non_delegating_add_ref_def
        shim_non_delegating_add_ref_n_def ptr_resolution_defs wf_object_def)
  then show ?thesis using nd ob wf
    by (auto simp: call_QueryInterface_def ptr_resolution_defs wf_object_def unknown_of_def
        shim_non_delegating_query_interface_def shim_non_delegating_query_interface_n_def
        answer_query_own)
next
  case primary
  have "shim_add_ref env p w = panic_guard (add_ref_count env a w)"
    "shim_add_ref_n env p w = panic_guard (add_ref_count env a w)"
    using primary ob by (simp_all add: shim_add_ref_def shim_add_ref_n_def from_ptr_def
        delegating_add_ref_own)
  then show ?thesis using primary ob wf
    by (auto simp: call_QueryInterface_def ptr_resolution_defs wf_object_def unknown_of_def
        shim_query_interface_def shim_query_interface_n_def Let_def delegates_outer_cases
        answer_query_own)
next
  case (secondary i)
  have "shim_add_ref_n env (PrimaryPtr a) w = panic_guard (add_ref_count env a w)"
    using secondary ob by (simp add: shim_add_ref_n_def from_ptr_def delegating_add_ref_own)
  then show ?thesis using secondary ob wf_object_entry [OF wf, of i]
    by (auto simp: call_QueryInterface_def ptr_resolution_defs unknown_of_def
        shim_query_interface_secondary_def Let_def delegates_outer_cases answer_query_own)
qed

text \<open>
  The pointer an object provides: the identity of the object for \<open>IID_IUNKNOWN\<close>, and otherwise
  what \<open>ComImpl::query_interface\<close> finds, when it is one of the counting pointers of the same
  object and the search has no side effect.
\<close>

definition provides ::
  "('t, 'a, 'x) env \<Rightarrow> addr \<Rightarrow> com_ptr \<Rightarrow> GUID \<Rightarrow> ('t, 'a, 'x) world \<Rightarrow> com_ptr option" where
  "provides env a p iid w =
     (if iid = IID_IUNKNOWN then Some (unknown_of a p)
      else case objects w a of
        None \<Rightarrow> None
      | Some ob \<Rightarrow>
          (case env_query_interface env (inner ob) (PrimaryPtr a) iid w of
             Return (Some q, w1) \<Rightarrow> if q \<in> counting_ptrs a w \<and> w1 = w then Some q else None
           | _ \<Rightarrow> None))"

lemma unknown_of_counting:
  "p \<in> counting_ptrs a w \<Longrightarrow> unknown_of a p \<in> counting_ptrs a w"
  by (auto simp: unknown_of_def counting_ptrs_def split: option.splits if_splits)

lemma provides_inner:
  assumes "provides env a p iid w = Some q" and "iid \<noteq> IID_IUNKNOWN" and "objects w a = Some ob"
  shows "env_query_interface env (inner ob) (PrimaryPtr a) iid w = Return (Some q, w)"
    and "q \<in> counting_ptrs a w"
  using assms by (auto simp: provides_def split: outcome.splits option.splits if_splits)

lemma call_QueryInterface_provided:
  assumes alive: "alive_with env a k n w" and below: "n < refcount_cap (env_build env)"
    and p: "p \<in> counting_ptrs a w" and q: "provides env a p iid w = Some q"
  shows "\<exists>w'. call_QueryInterface env p (Some iid) True w = Return ((STATUS_SUCCESS, Some q), w')
    \<and> alive_with env a k (n + 1) w' \<and> counting_ptrs a w' = counting_ptrs a w"
proof -
  obtain ob where ob: "objects w a = Some ob" "wf_object a ob"
    using alive by (rule alive_with_object)
  note query = call_QueryInterface_own [OF p ob, of env "Some iid" True]
  obtain w' where w': "add_ref_count env a w = Return (of_nat (n + 1), w')"
    "alive_with env a k (n + 1) w'" "counting_ptrs a w' = counting_ptrs a w"
    using add_ref_count_alive [OF alive below] by blast
  show ?thesis
  proof (cases "iid = IID_IUNKNOWN")
    case True
    then show ?thesis using query q w' by (simp add: answer_query_def provides_def)
  next
    case False
    note found = provides_inner [OF q False ob(1)]
    have "call_AddRef env q w = Return (of_nat (n + 1), w')"
      using call_AddRef_own [OF found(2) ob] w'(1) by simp
    then show ?thesis using query found False w' by (simp add: answer_query_def)
  qed
qed

interpretation com: com_queries "call_AddRef env" "call_Release env" "counting_ptrs a"
  "alive_with env a k" "dead_after a k" "refcount_cap (env_build env)"
  "call_QueryInterface env" "provides env a" for env a k
proof unfold_locales
  fix n w p iid q
  assume a: "alive_with env a k n w" "p \<in> counting_ptrs a w" "provides env a p iid w = Some q"
  then obtain ob where ob: "objects w a = Some ob" by (auto elim: alive_with_object)
  show "q \<in> counting_ptrs a w"
  proof (cases "iid = IID_IUNKNOWN")
    case True
    then show ?thesis using a unknown_of_counting by (auto simp: provides_def)
  next
    case False
    then show ?thesis using provides_inner(2) [OF a(3) False ob] by simp
  qed
qed (rule call_QueryInterface_provided)

text \<open>C6: Identity and counting of \<open>QueryInterface\<close>. Asked for \<open>IID_IUNKNOWN\<close> through any
  delegating pointer of an object, primary or secondary, \<open>QueryInterface\<close> succeeds with the one
  primary pointer and a reference more; asked for an interface the inner type answers with a
  pointer of the object, it succeeds with that pointer and a reference more; in both cases a
  \<open>Release\<close> through what it returned gives the reference back.\<close>

theorem query_interface_identity_and_count:
  assumes "alive_with env a k n w" and "n < refcount_cap (env_build env)"
    and "p \<in> counting_ptrs a w"
  shows "(p \<noteq> NonDelegatingPtr a \<longrightarrow> provides env a p IID_IUNKNOWN w = Some (PrimaryPtr a))
    \<and> (\<forall>iid q. provides env a p iid w = Some q \<longrightarrow>
        (\<exists>w1 w2. call_QueryInterface env p (Some iid) True w
            = Return ((STATUS_SUCCESS, Some q), w1)
          \<and> alive_with env a k (n + 1) w1
          \<and> call_Release env q w1 = Return (of_nat n, w2) \<and> alive_with env a k n w2))"
  using com.query_then_release [OF assms]
  by (fastforce simp: provides_def unknown_of_def)

definition one_object :: "build \<Rightarrow> (unit, unit, unit) world" where
  "one_object b = snd (try_new_in_n (unit_env b) [SecondaryVtbl 0] () () empty_world)"

lemma one_object_alive: "alive_with (unit_env b) 4096 0 1 (one_object b)"
proof -
  have new: "try_new_in_n (unit_env b) [SecondaryVtbl 0] () () empty_world
      = (Some (PrimaryPtr 4096), one_object b)"
    by (simp add: one_object_def try_new_in_n_def unit_env_def empty_world_def)
  have "drops 4096 (one_object b) = 0" "deallocs 4096 (one_object b) = 0"
    by (simp_all add: one_object_def try_new_in_n_def unit_env_def empty_world_def drops_def
        deallocs_def)
  then show ?thesis
    using try_new_in_n_alive [OF new] well_behaved_unit_env by fastforce
qed

lemma one_object_ptrs:
  "counting_ptrs 4096 (one_object b)
    = {NonDelegatingPtr 4096, PrimaryPtr 4096, SecondaryPtr 4096 0}"
  by (auto simp: one_object_def try_new_in_n_def unit_env_def empty_world_def counting_ptrs_def
      delegates_def secondary_entries_def)

lemma unit_env_cap: "1 < refcount_cap (env_build (unit_env b))"
  by (simp add: unit_env_def refcount_cap_def)

theorem query_interface_identity_and_count_witness:
  "\<exists>w1. call_QueryInterface (unit_env hardened_build) (SecondaryPtr 4096 0) (Some IID_IUNKNOWN) True
      (one_object hardened_build) = Return ((STATUS_SUCCESS, Some (PrimaryPtr 4096)), w1)
    \<and> alive_with (unit_env hardened_build) 4096 0 2 w1"
  using query_interface_identity_and_count
    [OF one_object_alive unit_env_cap, of "SecondaryPtr 4096 0"]
  by (fastforce simp: one_object_ptrs numeral_2_eq_2)

text \<open>The failing branches of \<open>QueryInterface\<close>: without an out pointer or an interface
  identifier nothing is written and the world is untouched; for an interface the inner type does
  not have, a null pointer is written. Both report \<open>STATUS_NOINTERFACE\<close> and take no
  reference.\<close>

theorem query_interface_refused:
  assumes "alive_with env a k n w" and "p \<in> counting_ptrs a w"
  shows "call_QueryInterface env p riid False w = Return ((STATUS_NOINTERFACE, None), w)
    \<and> call_QueryInterface env p None ppv w = Return ((STATUS_NOINTERFACE, None), w)
    \<and> (\<forall>iid ob w1. iid \<noteq> IID_IUNKNOWN \<longrightarrow> objects w a = Some ob \<longrightarrow>
        env_query_interface env (inner ob) (PrimaryPtr a) iid w = Return (None, w1) \<longrightarrow>
        call_QueryInterface env p (Some iid) True w
          = Return ((STATUS_NOINTERFACE, Some NullPtr), w1))"
proof -
  obtain ob where ob: "objects w a = Some ob" "wf_object a ob"
    using assms(1) by (rule alive_with_object)
  show ?thesis
    using ob(1) by (auto simp: call_QueryInterface_own [OF assms(2) ob] answer_query_def)
qed

theorem query_interface_refused_witness:
  "call_QueryInterface (unit_env hardened_build) (PrimaryPtr 4096)
      (Some \<lparr>data1 = 7, data2 = 0, data3 = 0, data4 = []\<rparr>) True (one_object hardened_build)
    = Return ((STATUS_NOINTERFACE, Some NullPtr), one_object hardened_build)"
proof -
  obtain ob where "objects (one_object hardened_build) 4096 = Some ob"
    using one_object_alive alive_with_object by blast
  then show ?thesis
    using query_interface_refused [OF one_object_alive, of "PrimaryPtr 4096" hardened_build]
    by (simp add: one_object_ptrs IID_IUNKNOWN_def unit_env_def)
qed

section \<open>Aggregation\<close>

lemma aggregated_object_cases:
  assumes "try_new_aggregated_in env v outer al w0 = (Some p, w)"
  obtains a w1 where "env_alloc env al (env_layout env) w0 = (a, w1)" "a \<noteq> null"
    "p = NonDelegatingPtr a" "w = put_object a (init_non_delegating_ptr a
     \<lparr>vtable = ComObjectVtbl, secondaries = [],
      non_delegating_unknown = \<lparr>nd_vtable = NonDelegatingVtbl, nd_parent = NullPtr\<rparr>,
      ref_count = 1, outer_unknown = Some outer, inner = v, alloc = al\<rparr>) w1"
  using assms
  by (cases "env_alloc env al (env_layout env) w0")
    (auto simp: try_new_aggregated_in_def non_delegating_ptr_def Let_def split: if_splits)

text \<open>C31: Aggregation. The object is created with one reference, held through the non-delegating
  pointer that is returned; its primary interface pointer forwards all three \<open>IUnknown\<close> calls to
  the outer unknown and never touches the count; and any legal history of \<open>AddRef\<close> and \<open>Release\<close>
  through the non-delegating pointer keeps the object while references remain and destroys it
  exactly once at the end.\<close>

theorem aggregation_delegates:
  assumes "well_behaved env a" and "outer \<noteq> NullPtr"
    and "try_new_aggregated_in env v outer al w0 = (Some (NonDelegatingPtr a), w)"
    and "drops a w = deallocs a w"
    and "call_ptr ` set cs \<subseteq> {NonDelegatingPtr a}"
    and "live_count (refcount_cap (env_build env)) cs 1 = Some m"
  shows "call_AddRef env (PrimaryPtr a) w = panic_guard (env_foreign_add_ref env outer w)
    \<and> call_Release env (PrimaryPtr a) w = panic_guard (env_foreign_release env outer w)
    \<and> call_QueryInterface env (PrimaryPtr a) riid ppv w
        = panic_guard (env_foreign_query_interface env outer riid ppv w)
    \<and> (\<exists>w'. run_calls (call_AddRef env) (call_Release env) cs w = Return w'
          \<and> (0 < m \<longrightarrow> alive_with env a (drops a w) m w')
          \<and> (m = 0 \<longrightarrow> dead_after a (drops a w) w'))"
proof -
  let ?ob = "init_non_delegating_ptr a
     \<lparr>vtable = ComObjectVtbl, secondaries = [],
      non_delegating_unknown = \<lparr>nd_vtable = NonDelegatingVtbl, nd_parent = NullPtr\<rparr>,
      ref_count = 1, outer_unknown = Some outer, inner = v, alloc = al\<rparr>"
  have obj: "objects w a = Some ?ob"
    using assms(3) by (auto elim: aggregated_object_cases)
  have fields: "vtable ?ob = ComObjectVtbl" "outer_unknown ?ob = Some outer" "ref_count ?ob = 1"
    by (simp_all add: init_non_delegating_ptr_def)
  have "alive_with env a (drops a w) 1 w"
    using obj fields(3) assms(1,4) wf_new_object refcount_cap_positive
    by (simp add: alive_with_def)
  moreover have "counting_ptrs a w = {NonDelegatingPtr a}"
    using obj assms(2) by (simp add: counting_ptrs_def delegates_def)
  ultimately have runs: "\<exists>w'. run_calls (call_AddRef env) (call_Release env) cs w = Return w'
          \<and> (0 < m \<longrightarrow> alive_with env a (drops a w) m w')
          \<and> (m = 0 \<longrightarrow> dead_after a (drops a w) w')"
    using com.run_calls_live [of env a "drops a w" 1 w cs m] assms(5,6) by auto
  show ?thesis
    using obj fields assms(2) runs
    by (simp add: call_AddRef_def call_Release_def call_QueryInterface_def read_vtbl_def
        shim_add_ref_def shim_release_def shim_query_interface_def from_ptr_def
        delegating_add_ref_def delegating_release_def)
qed

theorem aggregation_delegates_witness:
  "\<exists>w'. run_calls (call_AddRef (unit_env hardened_build)) (call_Release (unit_env hardened_build))
      [CallAddRef (NonDelegatingPtr 4096), CallRelease (NonDelegatingPtr 4096),
       CallRelease (NonDelegatingPtr 4096)]
      (snd (try_new_aggregated_in (unit_env hardened_build) () (ForeignPtr 16) () empty_world))
      = Return w' \<and> dead_after 4096 0 w'"
proof -
  let ?e = "unit_env hardened_build"
  let ?w = "snd (try_new_aggregated_in ?e () (ForeignPtr 16) () empty_world)"
  have new: "try_new_aggregated_in ?e () (ForeignPtr 16) () empty_world
      = (Some (NonDelegatingPtr 4096), ?w)"
    by (simp add: try_new_aggregated_in_def unit_env_def empty_world_def non_delegating_ptr_def)
  have none: "drops 4096 ?w = 0" "deallocs 4096 ?w = 0"
    by (simp_all add: try_new_aggregated_in_def unit_env_def empty_world_def drops_def deallocs_def)
  show ?thesis
    using aggregation_delegates [OF well_behaved_unit_env _ new, of
        "[CallAddRef (NonDelegatingPtr 4096), CallRelease (NonDelegatingPtr 4096),
          CallRelease (NonDelegatingPtr 4096)]" 0] none unit_env_cap
    by simp
qed

section \<open>Resurrection\<close>

text \<open>
  The world in which the inner value of the object at \<open>a\<close> is dropped, when the last reference is
  released in \<open>w\<close>.
\<close>

definition dropping :: "addr \<Rightarrow> ('t, 'a) ComObject \<Rightarrow> ('t, 'a, 'x) world \<Rightarrow> ('t, 'a, 'x) world" where
  "dropping a ob w = log_event (DropInner a) (put_object a (ob\<lparr>ref_count := 0\<rparr>) w)"

lemma call_Release_last:
  assumes "p \<in> counting_ptrs a w" and "objects w a = Some ob" and "wf_object a ob"
    and "ref_count ob = 1"
  shows "call_Release env p w = panic_guard (and_then
    (release_inner env a (put_object a (ob\<lparr>ref_count := 0\<rparr>) w)) (\<lambda>w2. Return (0, w2)))"
proof -
  have "refcount_sub (env_build env) 1 = Return (0, 0)"
    using refcount.sub_positive [of 1 "env_build env"] by simp
  then show ?thesis
    using assms by (simp add: call_Release_own release_own_def sub_ref_count_def)
qed

text \<open>Resurrection. When the destructor of the inner value leaves the object with references
  (it handed out an \<open>AddRef\<close>ed pointer to itself), the final \<open>Release\<close> stops the system: in every
  build and through every counting pointer it neither frees the block nor returns.\<close>

theorem resurrection_stops:
  assumes "p \<in> counting_ptrs a w" and "objects w a = Some ob" and "wf_object a ob"
    and "ref_count ob = 1"
    and "env_drop_inner env a (inner ob) (dropping a ob w) = Return w1"
    and "objects w1 a = Some ob1" and "ref_count ob1 \<noteq> 0"
  shows "call_Release env p w = Halt ResurrectionViolation"
  using assms(5-7)
  by (simp add: call_Release_last [OF assms(1-4)] release_inner_def resurrection_violation_def
      dropping_def)

text \<open>A destructor that takes a reference to its own object and keeps it.\<close>

definition keeping_env :: "(unit, unit, unit) env" where
  "keeping_env = (unit_env hardened_build)\<lparr>env_drop_inner := (\<lambda>a v w.
     and_then (call_AddRef (unit_env hardened_build) (PrimaryPtr a) w) (\<lambda>(r, w1). Return w1))\<rparr>"

lemma one_object_at:
  obtains ob where "objects (one_object b) 4096 = Some ob" "wf_object 4096 ob" "ref_count ob = 1"
    "\<not> delegates ob"
proof -
  obtain ob where "objects (one_object b) 4096 = Some ob" "wf_object 4096 ob" "ref_count ob = 1"
    using one_object_alive [of b] by (auto simp: alive_with_def)
  moreover have "\<not> delegates ob"
    using one_object_ptrs [of b] calculation(1) by (auto simp: counting_ptrs_def split: if_splits)
  ultimately show ?thesis using that by blast
qed

lemma call_AddRef_primary:
  assumes "objects w a = Some ob" and "wf_object a ob" and "\<not> delegates ob"
    and "unat (ref_count ob) < refcount_cap (env_build env)"
  shows "call_AddRef env (PrimaryPtr a) w
    = Return (ref_count ob + 1, put_object a (ob\<lparr>ref_count := ref_count ob + 1\<rparr>) w)"
proof -
  have "PrimaryPtr a \<in> counting_ptrs a w" using assms by (simp add: counting_ptrs_def)
  then show ?thesis
    using assms refcount.add_below [OF assms(4)]
    by (simp add: call_AddRef_own add_ref_count_def)
qed

theorem resurrection_stops_witness:
  "call_Release keeping_env (SecondaryPtr 4096 0) (one_object hardened_build)
    = Halt ResurrectionViolation"
proof -
  let ?w = "one_object hardened_build"
  obtain ob where ob: "objects ?w 4096 = Some ob" "wf_object 4096 ob" "ref_count ob = 1"
    "\<not> delegates ob" by (rule one_object_at)
  let ?ob0 = "ob\<lparr>ref_count := 0\<rparr>" and ?w0 = "dropping 4096 ob ?w"
  have "call_AddRef (unit_env hardened_build) (PrimaryPtr 4096) ?w0
      = Return (1, put_object 4096 (?ob0\<lparr>ref_count := 1\<rparr>) ?w0)"
    using call_AddRef_primary [of ?w0 4096 ?ob0] ob unit_env_cap [of hardened_build]
    by (simp add: dropping_def)
  then have "env_drop_inner keeping_env 4096 (inner ob) ?w0
      = Return (put_object 4096 (?ob0\<lparr>ref_count := 1\<rparr>) ?w0)"
    by (simp add: keeping_env_def)
  then show ?thesis
    using resurrection_stops [OF _ ob(1-3), of "SecondaryPtr 4096 0"] by (simp add: one_object_ptrs)
qed

text \<open>
  A destructor that uses its own object through a reference it takes and gives back, as a helper
  called from \<open>Drop\<close> does that is handed a counted pointer to the object.
\<close>

definition borrowing_env :: "build \<Rightarrow> (unit, unit, unit) env" where
  "borrowing_env b = (unit_env b)\<lparr>env_drop_inner := (\<lambda>a v w.
     and_then (call_AddRef (unit_env b) (PrimaryPtr a) w) (\<lambda>(r, w1).
     and_then (call_Release (unit_env b) (PrimaryPtr a) w1) (\<lambda>(r, w2). Return w2)))\<rparr>"

text \<open>The check for resurrection looks only at the count the destructor leaves. A balanced
  pair of \<open>AddRef\<close> and \<open>Release\<close> inside the destructor brings the count back to zero, so the
  inner \<open>Release\<close> destroys the object a second time (the inner value is dropped twice and the
  block freed) and the check that follows reads the freed block: undefined behaviour, in every
  build.\<close>

theorem borrow_in_destructor_undefined:
  "call_Release (borrowing_env b) (PrimaryPtr 4096) (one_object b) = Undefined"
proof -
  let ?w = "one_object b"
  obtain ob where ob: "objects ?w 4096 = Some ob" "wf_object 4096 ob" "ref_count ob = 1"
    "\<not> delegates ob" by (rule one_object_at)
  let ?w0 = "dropping 4096 ob ?w" and ?ob1 = "ob\<lparr>ref_count := 1\<rparr>"
  let ?w1 = "put_object 4096 ?ob1 ?w0"
  have add: "call_AddRef (unit_env b) (PrimaryPtr 4096) ?w0 = Return (1, ?w1)"
    using call_AddRef_primary [of ?w0 4096 "ob\<lparr>ref_count := 0\<rparr>"] ob unit_env_cap [of b]
    by (simp add: dropping_def)
  have "PrimaryPtr 4096 \<in> counting_ptrs 4096 ?w1"
    using ob by (simp add: counting_ptrs_def)
  from call_Release_last [OF this, of ?ob1 "unit_env b"]
  obtain w2 where rel: "call_Release (unit_env b) (PrimaryPtr 4096) ?w1 = Return (0, w2)"
    and "objects w2 4096 = None"
    using ob(2) by (simp add: release_inner_def unit_env_def Let_def)
  then have "env_drop_inner (borrowing_env b) 4096 (inner ob) ?w0 = Return w2"
    by (simp add: borrowing_env_def add)
  with \<open>objects w2 4096 = None\<close> show ?thesis
    using call_Release_last [OF _ ob(1-3), of "PrimaryPtr 4096" "borrowing_env b"]
    by (simp add: one_object_ptrs release_inner_def dropping_def)
qed

text \<open>Construction. \<open>new_in\<close>, \<open>new_in_n\<close> and \<open>new_aggregated_in\<close> answer
  \<open>STATUS_INSUFFICIENT_RESOURCES\<close> exactly when the allocator has no memory, and then leave every
  object as it was and drop the arguments; otherwise they return the pointer to a well-formed
  object with one reference that holds the given value, and change no other object.\<close>

theorem construction_cases:
  assumes "env_alloc env al (env_layout env) w = (ptr, w1)"
    and "list_all is_secondary_vtbl vts"
  shows "(if ptr = null then
      new_in env v al w = (Inl STATUS_INSUFFICIENT_RESOURCES, log_event (DropArguments al) w1)
      \<and> new_in_n env vts v al w
          = (Inl STATUS_INSUFFICIENT_RESOURCES, log_event (DropArguments al) w1)
      \<and> new_aggregated_in env v outer al w
          = (Inl STATUS_INSUFFICIENT_RESOURCES, log_event (DropArguments al) w1)
    else
      \<exists>ob obn oba. new_in env v al w = (Inr (PrimaryPtr ptr), put_object ptr ob w1)
      \<and> new_in_n env vts v al w = (Inr (PrimaryPtr ptr), put_object ptr obn w1)
      \<and> new_aggregated_in env v outer al w = (Inr (NonDelegatingPtr ptr), put_object ptr oba w1)
      \<and> list_all (\<lambda>c. wf_object ptr c \<and> ref_count c = 1 \<and> inner c = v \<and> alloc c = al)
          [ob, obn, oba]
      \<and> \<not> is_aggregated ob \<and> \<not> is_aggregated obn \<and> outer_unknown oba = Some outer
      \<and> length (secondaries obn) = length vts)"
proof (cases "ptr = null")
  case True
  then show ?thesis
    using assms(1) by (simp add: new_in_def new_in_n_def new_aggregated_in_def try_new_in_def
        try_new_in_n_def try_new_aggregated_in_def)
next
  case False
  let ?nd = "\<lambda>vt. \<lparr>nd_vtable = vt, nd_parent = NullPtr\<rparr>"
  let ?ob = "\<lambda>ou. init_non_delegating_ptr ptr \<lparr>vtable = ComObjectVtbl, secondaries = [],
      non_delegating_unknown = ?nd NonDelegatingVtbl, ref_count = 1, outer_unknown = ou,
      inner = v, alloc = al\<rparr>"
  let ?obn = "init_secondary_ptr ptr (init_non_delegating_ptr ptr \<lparr>vtable = ComObjectNVtbl,
      secondaries = secondary_entries vts, non_delegating_unknown = ?nd NonDelegatingNVtbl,
      ref_count = 1, outer_unknown = None, inner = v, alloc = al\<rparr>)"
  have "new_in env v al w = (Inr (PrimaryPtr ptr), put_object ptr (?ob None) w1)"
    "new_in_n env vts v al w = (Inr (PrimaryPtr ptr), put_object ptr ?obn w1)"
    "new_aggregated_in env v outer al w
      = (Inr (NonDelegatingPtr ptr), put_object ptr (?ob (Some outer)) w1)"
    using assms(1) False by (simp_all add: new_in_def new_in_n_def new_aggregated_in_def
        try_new_in_def try_new_in_n_def try_new_aggregated_in_def non_delegating_ptr_def Let_def)
  moreover have "list_all (\<lambda>c. wf_object ptr c \<and> ref_count c = 1 \<and> inner c = v \<and> alloc c = al)
      [?ob None, ?obn, ?ob (Some outer)]"
    by (simp add: wf_new_object wf_new_object_n [OF assms(2)])
  moreover have "\<not> is_aggregated (?ob None)" "\<not> is_aggregated ?obn"
    "outer_unknown (?ob (Some outer)) = Some outer" "length (secondaries ?obn) = length vts"
    by (simp_all add: is_aggregated_def secondary_entries_def)
  ultimately show ?thesis using False by (simp only: if_False) blast
qed

theorem construction_cases_witness:
  "fst (new_in_n (unit_env hardened_build) [SecondaryVtbl 0] () () empty_world)
      = Inr (PrimaryPtr 4096)
   \<and> fst (new_in (unit_env hardened_build) () () (one_object hardened_build))
      = Inl STATUS_INSUFFICIENT_RESOURCES"
proof -
  have "env_alloc (unit_env hardened_build) () (env_layout (unit_env hardened_build)) empty_world
      = (4096, empty_world)"
    by (simp add: unit_env_def empty_world_def)
  moreover have "env_alloc (unit_env hardened_build) () (env_layout (unit_env hardened_build))
      (one_object hardened_build) = (null, one_object hardened_build)"
    using one_object_at [of hardened_build] by (auto simp: unit_env_def)
  ultimately show ?thesis
    using construction_cases [of "unit_env hardened_build" "()" empty_world 4096 empty_world
        "[SecondaryVtbl 0]" "()" NullPtr]
      construction_cases [of "unit_env hardened_build" "()" "one_object hardened_build" null
        "one_object hardened_build" "[]" "()" NullPtr]
    by auto
qed

end
