(* ===== verification/Smart_Ptr.thy ===== *)
theory Smart_Ptr
  imports Com_Objects
begin

text \<open>
  The smart pointer \<open>ComRc\<close> of \<open>src/smart_ptr.rs\<close> and the constructors of \<open>src/wrapper.rs\<close> that
  return one. A client program holds smart pointers and raw pointers it took out of smart
  pointers; each of them owns one reference. The operations a safe client can perform on what it
  holds are the steps of \<open>client_step\<close>.
\<close>

section \<open>ComRc\<close>

text \<open>\<open>ComRc\<close> wraps a \<open>NonNull\<close>: its pointer is never \<open>NullPtr\<close>.\<close>

record ComRc =
  rc_ptr :: com_ptr

definition rc_from_raw :: "com_ptr \<Rightarrow> ComRc option" where
  "rc_from_raw ptr = (if ptr = NullPtr then None else Some \<lparr>rc_ptr = ptr\<rparr>)"

definition rc_try_from_raw :: "com_ptr \<Rightarrow> ComRc option" where
  "rc_try_from_raw ptr = rc_from_raw ptr"

definition rc_from_raw_unchecked :: "com_ptr \<Rightarrow> ComRc outcome" where
  "rc_from_raw_unchecked ptr = (if ptr = NullPtr then Undefined else Return \<lparr>rc_ptr = ptr\<rparr>)"

definition rc_from_raw_or_status :: "com_ptr \<Rightarrow> Status + ComRc" where
  "rc_from_raw_or_status ptr =
     (if ptr = NullPtr then Inl (Status STATUS_NOINTERFACE) else Inr \<lparr>rc_ptr = ptr\<rparr>)"

definition rc_from_raw_addref ::
  "('t, 'a, 'x) env \<Rightarrow> com_ptr \<Rightarrow> ('t, 'a, 'x) world
    \<Rightarrow> (ComRc option \<times> ('t, 'a, 'x) world) outcome" where
  "rc_from_raw_addref env ptr w =
     (if ptr = NullPtr then Return (None, w)
      else and_then (call_AddRef env ptr w) (\<lambda>(r, w1). Return (rc_from_raw ptr, w1)))"

definition rc_as_ptr :: "ComRc \<Rightarrow> com_ptr" where
  "rc_as_ptr rc = rc_ptr rc"

text \<open>\<open>into_raw\<close> forgets the smart pointer, so that its \<open>Drop\<close> does not run.\<close>

definition rc_into_raw :: "ComRc \<Rightarrow> com_ptr" where
  "rc_into_raw rc = rc_ptr rc"

definition rc_clone ::
  "('t, 'a, 'x) env \<Rightarrow> ComRc \<Rightarrow> ('t, 'a, 'x) world \<Rightarrow> (ComRc \<times> ('t, 'a, 'x) world) outcome" where
  "rc_clone env rc w =
     and_then (call_AddRef env (rc_ptr rc) w) (\<lambda>(r, w1). Return (\<lparr>rc_ptr = rc_ptr rc\<rparr>, w1))"

definition rc_drop ::
  "('t, 'a, 'x) env \<Rightarrow> ComRc \<Rightarrow> ('t, 'a, 'x) world \<Rightarrow> ('t, 'a, 'x) world outcome" where
  "rc_drop env rc w = and_then (call_Release env (rc_ptr rc) w) (\<lambda>(r, w1). Return w1)"

text \<open>\<open>iid\<close> is the constant \<open>U::IID\<close>; the local \<open>out\<close> starts as a null pointer.\<close>

definition rc_query_interface ::
  "('t, 'a, 'x) env \<Rightarrow> GUID \<Rightarrow> ComRc \<Rightarrow> ('t, 'a, 'x) world
    \<Rightarrow> ((Status + ComRc) \<times> ('t, 'a, 'x) world) outcome" where
  "rc_query_interface env iid rc w =
     and_then (call_QueryInterface env (rc_ptr rc) (Some iid) True w) (\<lambda>((st, written), w1).
       let out = (case written of Some p \<Rightarrow> p | None \<Rightarrow> NullPtr);
           status = from_raw st
       in if is_error status then Return (Inl status, w1)
          else Return (rc_from_raw_or_status out, w1))"

definition try_new_rc_in ::
  "('t, 'a, 'x) env \<Rightarrow> 't \<Rightarrow> 'a \<Rightarrow> ('t, 'a, 'x) world
    \<Rightarrow> (ComRc option \<times> ('t, 'a, 'x) world) outcome" where
  "try_new_rc_in env v al w =
     (case try_new_in env v al w of
        (None, w1) \<Rightarrow> Return (None, w1)
      | (Some ptr, w1) \<Rightarrow> and_then (rc_from_raw_unchecked ptr) (\<lambda>rc. Return (Some rc, w1)))"

definition new_rc_in ::
  "('t, 'a, 'x) env \<Rightarrow> 't \<Rightarrow> 'a \<Rightarrow> ('t, 'a, 'x) world
    \<Rightarrow> ((NTSTATUS + ComRc) \<times> ('t, 'a, 'x) world) outcome" where
  "new_rc_in env v al w =
     and_then (try_new_rc_in env v al w) (\<lambda>(rc, w1).
       Return (case rc of Some r \<Rightarrow> Inr r | None \<Rightarrow> Inl STATUS_INSUFFICIENT_RESOURCES, w1))"

definition try_new_rc_in_n ::
  "('t, 'a, 'x) env \<Rightarrow> vtbl list \<Rightarrow> 't \<Rightarrow> 'a \<Rightarrow> ('t, 'a, 'x) world
    \<Rightarrow> (ComRc option \<times> ('t, 'a, 'x) world) outcome" where
  "try_new_rc_in_n env vts v al w =
     (case try_new_in_n env vts v al w of
        (None, w1) \<Rightarrow> Return (None, w1)
      | (Some ptr, w1) \<Rightarrow> and_then (rc_from_raw_unchecked ptr) (\<lambda>rc. Return (Some rc, w1)))"

definition new_rc_in_n ::
  "('t, 'a, 'x) env \<Rightarrow> vtbl list \<Rightarrow> 't \<Rightarrow> 'a \<Rightarrow> ('t, 'a, 'x) world
    \<Rightarrow> ((NTSTATUS + ComRc) \<times> ('t, 'a, 'x) world) outcome" where
  "new_rc_in_n env vts v al w =
     and_then (try_new_rc_in_n env vts v al w) (\<lambda>(rc, w1).
       Return (case rc of Some r \<Rightarrow> Inr r | None \<Rightarrow> Inl STATUS_INSUFFICIENT_RESOURCES, w1))"

section \<open>Client programs\<close>

text \<open>
  What a client owns: smart pointers, and raw pointers that carry a reference after \<open>into_raw\<close>.
  An operation names what it uses by position.
\<close>

record client =
  handles :: "ComRc list"
  raws :: "com_ptr list"

datatype client_op =
    CloneRc nat
  | DropRc nat
  | IntoRaw nat
  | FromRaw nat
  | FromRawAddref nat
  | QueryRc nat GUID

definition remove_nth :: "nat \<Rightarrow> 'b list \<Rightarrow> 'b list" where
  "remove_nth i xs = take i xs @ drop (Suc i) xs"

fun client_step ::
  "('t, 'a, 'x) env \<Rightarrow> client_op \<Rightarrow> client \<times> ('t, 'a, 'x) world
    \<Rightarrow> (client \<times> ('t, 'a, 'x) world) outcome" where
  "client_step env (CloneRc i) (c, w) =
     and_then (rc_clone env (handles c ! i) w) (\<lambda>(rc, w1).
       Return (c\<lparr>handles := rc # handles c\<rparr>, w1))"
| "client_step env (DropRc i) (c, w) =
     and_then (rc_drop env (handles c ! i) w) (\<lambda>w1.
       Return (c\<lparr>handles := remove_nth i (handles c)\<rparr>, w1))"
| "client_step env (IntoRaw i) (c, w) =
     Return (c\<lparr>handles := remove_nth i (handles c),
               raws := rc_into_raw (handles c ! i) # raws c\<rparr>, w)"
| "client_step env (FromRaw i) (c, w) =
     (case rc_from_raw (raws c ! i) of
        Some rc \<Rightarrow> Return (c\<lparr>handles := rc # handles c, raws := remove_nth i (raws c)\<rparr>, w)
      | None \<Rightarrow> Return (c\<lparr>raws := remove_nth i (raws c)\<rparr>, w))"
| "client_step env (FromRawAddref i) (c, w) =
     and_then (rc_from_raw_addref env (rc_as_ptr (handles c ! i)) w) (\<lambda>(r, w1).
       case r of
         Some rc \<Rightarrow> Return (c\<lparr>handles := rc # handles c\<rparr>, w1)
       | None \<Rightarrow> Return (c, w1))"
| "client_step env (QueryRc i iid) (c, w) =
     and_then (rc_query_interface env iid (handles c ! i) w) (\<lambda>(r, w1).
       case r of
         Inr rc \<Rightarrow> Return (c\<lparr>handles := rc # handles c\<rparr>, w1)
       | Inl st \<Rightarrow> Return (c, w1))"

text \<open>
  The operations the ownership rules of the language allow: they use what the client holds, and
  those that take a reference stay below the cap of the counter.
\<close>

definition owners :: "client \<Rightarrow> nat" where
  "owners c = length (handles c) + length (raws c)"

fun client_may :: "nat \<Rightarrow> client_op \<Rightarrow> client \<Rightarrow> bool" where
  "client_may cap (CloneRc i) c = (i < length (handles c) \<and> owners c < cap)"
| "client_may cap (DropRc i) c = (i < length (handles c))"
| "client_may cap (IntoRaw i) c = (i < length (handles c))"
| "client_may cap (FromRaw i) c = (i < length (raws c))"
| "client_may cap (FromRawAddref i) c = (i < length (handles c) \<and> owners c < cap)"
| "client_may cap (QueryRc i iid) c = (i < length (handles c) \<and> owners c < cap)"

inductive client_reach ::
  "('t, 'a, 'x) env \<Rightarrow> client \<times> ('t, 'a, 'x) world \<Rightarrow> client \<times> ('t, 'a, 'x) world \<Rightarrow> bool"
  for env s where
  start: "client_reach env s s"
| step: "client_reach env s t \<Longrightarrow> client_may (refcount_cap (env_build env)) x (fst t)
    \<Longrightarrow> client_step env x t = Return t' \<Longrightarrow> client_reach env s t'"

section \<open>Ownership\<close>

text \<open>
  Either the client owns as many references as the object at \<open>a\<close> counts, all through counting
  pointers, or it owns none and the object was dropped and freed once.
\<close>

definition owned :: "client \<Rightarrow> com_ptr set" where
  "owned c = rc_ptr ` set (handles c) \<union> set (raws c)"

definition client_inv ::
  "('t, 'a, 'x) env \<Rightarrow> addr \<Rightarrow> nat \<Rightarrow> client \<times> ('t, 'a, 'x) world \<Rightarrow> bool" where
  "client_inv env a k s \<longleftrightarrow>
     (if owners (fst s) = 0 then dead_after a k (snd s)
      else alive_with env a k (owners (fst s)) (snd s)
        \<and> owned (fst s) \<subseteq> counting_ptrs a (snd s))"

text \<open>
  The inner type finds only counting pointers of its own object, without side effects: the
  contract of \<open>ComImpl::query_interface\<close>.
\<close>

definition finds_own_ptrs :: "('t, 'a, 'x) env \<Rightarrow> addr \<Rightarrow> bool" where
  "finds_own_ptrs env a \<longleftrightarrow>
     (\<forall>w ob iid. objects w a = Some ob \<longrightarrow>
        (\<exists>r. env_query_interface env (inner ob) (PrimaryPtr a) iid w = Return (r, w)
          \<and> (\<forall>q. r = Some q \<longrightarrow> q \<in> counting_ptrs a w)))"

lemma counting_ptrs_not_null: "p \<in> counting_ptrs a w \<Longrightarrow> p \<noteq> NullPtr"
  by (auto simp: counting_ptrs_def split: option.splits if_splits)

lemma owners_simps [simp]:
  "owners (c\<lparr>handles := rc # handles c\<rparr>) = Suc (owners c)"
  "i < length (handles c) \<Longrightarrow> owners (c\<lparr>handles := remove_nth i (handles c)\<rparr>) = owners c - 1"
  "i < length (handles c) \<Longrightarrow>
    owners (c\<lparr>handles := remove_nth i (handles c), raws := p # raws c\<rparr>) = owners c"
  "i < length (raws c) \<Longrightarrow>
    owners (c\<lparr>handles := rc # handles c, raws := remove_nth i (raws c)\<rparr>) = owners c"
  by (auto simp: owners_def remove_nth_def)

lemma owned_simps:
  "owned (c\<lparr>handles := rc # handles c\<rparr>) = insert (rc_ptr rc) (owned c)"
  "owned (c\<lparr>handles := remove_nth i (handles c)\<rparr>) \<subseteq> owned c"
  "i < length (handles c) \<Longrightarrow>
    owned (c\<lparr>handles := remove_nth i (handles c), raws := rc_ptr (handles c ! i) # raws c\<rparr>)
      \<subseteq> owned c"
  "i < length (raws c) \<Longrightarrow>
    owned (c\<lparr>handles := \<lparr>rc_ptr = raws c ! i\<rparr> # handles c, raws := remove_nth i (raws c)\<rparr>)
      \<subseteq> owned c"
  by (auto simp: owned_def remove_nth_def dest: in_set_takeD in_set_dropD)

lemma client_inv_handle:
  assumes "client_inv env a k (c, w)" and "i < length (handles c)"
  shows "0 < owners c" and "alive_with env a k (owners c) w" and "owned c \<subseteq> counting_ptrs a w"
    and "rc_ptr (handles c ! i) \<in> counting_ptrs a w"
proof -
  show "0 < owners c" using assms(2) by (cases "handles c") (simp_all add: owners_def)
  with assms(1) show "alive_with env a k (owners c) w" "owned c \<subseteq> counting_ptrs a w"
    by (auto simp: client_inv_def)
  with assms(2) show "rc_ptr (handles c ! i) \<in> counting_ptrs a w" by (auto simp: owned_def)
qed

text \<open>The three operations that take a reference add one owner through a counting pointer.\<close>

lemma client_inv_grow:
  assumes "alive_with env a k (Suc (owners c)) w'" and "counting_ptrs a w' = counting_ptrs a w"
    and "owned c \<subseteq> counting_ptrs a w" and "rc_ptr rc \<in> counting_ptrs a w"
  shows "client_inv env a k (c\<lparr>handles := rc # handles c\<rparr>, w')"
  using assms by (simp add: client_inv_def owned_simps)

lemma client_step_AddRef:
  assumes inv: "client_inv env a k (c, w)" and i: "i < length (handles c)"
    and below: "owners c < refcount_cap (env_build env)"
  shows "\<exists>w'. call_AddRef env (rc_ptr (handles c ! i)) w = Return (of_nat (owners c + 1), w')
    \<and> client_inv env a k (c\<lparr>handles := \<lparr>rc_ptr = rc_ptr (handles c ! i)\<rparr> # handles c\<rparr>, w')"
proof -
  note h = client_inv_handle [OF inv i]
  obtain w' where "call_AddRef env (rc_ptr (handles c ! i)) w = Return (of_nat (owners c + 1), w')"
    "alive_with env a k (owners c + 1) w'" "counting_ptrs a w' = counting_ptrs a w"
    using com.add_ref_alive [OF h(2) below h(4)] by blast
  then show ?thesis using h(3,4) client_inv_grow [of env a k c w' w] by auto
qed

lemma client_step_drop:
  assumes inv: "client_inv env a k (c, w)" and i: "i < length (handles c)"
  shows "\<exists>s'. client_step env (DropRc i) (c, w) = Return s' \<and> client_inv env a k s'"
proof (cases "owners c = 1")
  case True
  note h = client_inv_handle [OF inv i]
  obtain w' where "call_Release env (rc_ptr (handles c ! i)) w = Return (0, w')" "dead_after a k w'"
    using com.release_last h(2,4) True by metis
  then show ?thesis using True i by (simp add: rc_drop_def client_inv_def)
next
  case False
  note h = client_inv_handle [OF inv i]
  define n where "n = owners c - 1"
  with False h(1) have n: "owners c = Suc n" "0 < n" by auto
  obtain w' where "call_Release env (rc_ptr (handles c ! i)) w = Return (of_nat n, w')"
    "alive_with env a k n w'" "counting_ptrs a w' = counting_ptrs a w"
    using com.release_shared h(2,4) n by metis
  then show ?thesis
    using n i h(3) owned_simps(2) [where c = c and i = i]
    by (auto simp: rc_drop_def client_inv_def)
qed

lemma client_step_query:
  assumes inv: "client_inv env a k (c, w)" and i: "i < length (handles c)"
    and below: "owners c < refcount_cap (env_build env)" and finds: "finds_own_ptrs env a"
  shows "\<exists>s'. client_step env (QueryRc i iid) (c, w) = Return s' \<and> client_inv env a k s'"
proof -
  note h = client_inv_handle [OF inv i]
  let ?p = "rc_ptr (handles c ! i)"
  obtain ob where ob: "objects w a = Some ob" "wf_object a ob" using h(2) by (rule alive_with_object)
  show ?thesis
  proof (cases "provides env a ?p iid w")
    case (Some q)
    have q: "q \<in> counting_ptrs a w" using com.provides_ptr [OF h(2,4) Some] .
    obtain w' where w': "call_QueryInterface env ?p (Some iid) True w
        = Return ((STATUS_SUCCESS, Some q), w')"
      "alive_with env a k (owners c + 1) w'" "counting_ptrs a w' = counting_ptrs a w"
      using com.query_provided [OF h(2) below h(4) Some] by blast
    then have "rc_query_interface env iid (handles c ! i) w = Return (Inr \<lparr>rc_ptr = q\<rparr>, w')"
      using counting_ptrs_not_null [OF q]
      by (simp add: rc_query_interface_def rc_from_raw_or_status_def is_error_def from_raw_def
          STATUS_SUCCESS_def)
    then show ?thesis using client_inv_grow [of env a k c w' w] w'(2,3) h(3) q by auto
  next
    case None
    obtain r where r: "env_query_interface env (inner ob) (PrimaryPtr a) iid w = Return (r, w)"
      "\<forall>q. r = Some q \<longrightarrow> q \<in> counting_ptrs a w"
      using finds ob(1) unfolding finds_own_ptrs_def by blast
    with None ob(1) have "iid \<noteq> IID_IUNKNOWN" "r = None"
      by (auto simp: provides_def split: option.splits if_splits)
    then have "call_QueryInterface env ?p (Some iid) True w
        = Return ((STATUS_NOINTERFACE, Some NullPtr), w)"
      using r call_QueryInterface_own [OF h(4) ob, of env "Some iid" True]
      by (simp add: answer_query_def)
    then show ?thesis using inv failure_codes_are_errors(5)
      by (simp add: rc_query_interface_def from_raw_def)
  qed
qed

lemma client_step_ok:
  assumes "client_inv env a k s" and "finds_own_ptrs env a"
    and "client_may (refcount_cap (env_build env)) x (fst s)"
  shows "\<exists>s'. client_step env x s = Return s' \<and> client_inv env a k s'"
proof -
  obtain c w where s: "s = (c, w)" by fastforce
  note inv = assms(1) [unfolded s]
  show ?thesis
  proof (cases x)
    case (CloneRc i)
    then show ?thesis
      using client_step_AddRef [OF inv, of i] assms(3) s by (auto simp: rc_clone_def)
  next
    case (DropRc i)
    then show ?thesis using client_step_drop [OF inv, of i] assms(3) s by simp
  next
    case (IntoRaw i)
    then show ?thesis
      using inv assms(3) s client_inv_handle [OF inv, of i] owned_simps(3) [of i c]
      by (auto simp: rc_into_raw_def client_inv_def)
  next
    case (FromRaw i)
    then have i: "i < length (raws c)" and "0 < owners c"
      using assms(3) s by (cases "raws c"; simp add: owners_def)+
    then have o: "alive_with env a k (owners c) w" "owned c \<subseteq> counting_ptrs a w"
      using inv by (auto simp: client_inv_def)
    then have "raws c ! i \<noteq> NullPtr"
      using nth_mem [OF i] by (auto simp: owned_def dest: counting_ptrs_not_null)
    then show ?thesis
      using FromRaw i o \<open>0 < owners c\<close> s owned_simps(4) [OF i]
      by (auto simp: rc_from_raw_def client_inv_def)
  next
    case (FromRawAddref i)
    then have i: "i < length (handles c)" "owners c < refcount_cap (env_build env)"
      using assms(3) s by simp_all
    then show ?thesis
      using FromRawAddref client_step_AddRef [OF inv i] s
        counting_ptrs_not_null [OF client_inv_handle(4) [OF inv i(1)]]
      by (auto simp: rc_from_raw_addref_def rc_as_ptr_def rc_from_raw_def)
  next
    case (QueryRc i iid)
    then show ?thesis using client_step_query [OF inv _ _ assms(2), of i] assms(3) s by simp
  qed
qed

lemma client_reach_inv:
  assumes "client_reach env s t" and "client_inv env a k s" and "finds_own_ptrs env a"
  shows "client_inv env a k t"
  using assms(1)
proof (induction rule: client_reach.induct)
  case (step t x t')
  then show ?case using client_step_ok [OF _ assms(3) step.hyps(2)] by fastforce
qed (rule assms(2))

lemma new_rc_in_n_owns:
  assumes "new_rc_in_n env vts v al w0 = Return (Inr rc, w)" and "list_all is_secondary_vtbl vts"
    and "\<forall>a. rc_ptr rc = PrimaryPtr a \<longrightarrow> well_behaved env a \<and> drops a w = deallocs a w"
  obtains a where "rc_ptr rc = PrimaryPtr a"
    "client_inv env a (drops a w) (\<lparr>handles = [rc], raws = []\<rparr>, w)"
proof -
  have new: "try_new_in_n env vts v al w0 = (Some (rc_ptr rc), w)"
    using assms(1)
    by (auto simp: new_rc_in_n_def try_new_rc_in_n_def rc_from_raw_unchecked_def outcome_simps
        split: prod.splits option.splits if_splits)
  obtain a where "rc_ptr rc = PrimaryPtr a" "alive_with env a (drops a w) 1 w"
    "counting_ptrs a w = {NonDelegatingPtr a, PrimaryPtr a} \<union> SecondaryPtr a ` {..<length vts}"
    using try_new_in_n_alive [OF new assms(2,3)] .
  then show ?thesis using that by (simp add: client_inv_def owned_def owners_def)
qed

text \<open>C3: Smart pointers own references. Start from the \<open>ComRc\<close> of \<open>new_rc_in\<close> and let a
  client clone, drop, query, dismantle and rebuild smart pointers in any order the ownership
  rules allow. In every state it reaches, the number of smart and raw pointers it holds is the
  reference count of the object, which has not been dropped or freed, or it holds none and the
  object was dropped and freed exactly once; and no operation it may perform next panics, stops
  or touches freed memory.\<close>

theorem smart_pointers_own_references:
  assumes "new_rc_in_n env vts v al w0 = Return (Inr rc, w)" and "list_all is_secondary_vtbl vts"
    and "rc_ptr rc = PrimaryPtr a" and "well_behaved env a" and "finds_own_ptrs env a"
    and "drops a w = deallocs a w"
    and "client_reach env (\<lparr>handles = [rc], raws = []\<rparr>, w) (c, w')"
  shows "(0 < owners c \<longrightarrow>
        (\<exists>ob. objects w' a = Some ob \<and> ref_count ob = of_nat (owners c))
        \<and> drops a w' = drops a w \<and> deallocs a w' = deallocs a w)
    \<and> (owners c = 0 \<longrightarrow> objects w' a = None
        \<and> drops a w' = drops a w + 1 \<and> deallocs a w' = deallocs a w + 1)
    \<and> (\<forall>x. client_may (refcount_cap (env_build env)) x c \<longrightarrow> returns (client_step env x (c, w')))"
proof -
  have "client_inv env a (drops a w) (\<lparr>handles = [rc], raws = []\<rparr>, w)"
    using new_rc_in_n_owns [OF assms(1,2)] assms(3,4,6) by auto
  from client_reach_inv [OF assms(7) this assms(5)]
  have inv: "client_inv env a (drops a w) (c, w')" .
  then have "returns (client_step env x (c, w'))"
    if "client_may (refcount_cap (env_build env)) x c" for x
    using client_step_ok [OF inv assms(5), of x] that by (auto simp: returns_iff)
  then show ?thesis
    using inv assms(6) by (auto simp: client_inv_def alive_with_def dead_after_def)
qed

lemma finds_own_ptrs_unit_env: "finds_own_ptrs (unit_env b) a"
  by (simp add: finds_own_ptrs_def unit_env_def)

theorem smart_pointers_own_references_witness:
  "\<exists>c w'. client_reach (unit_env hardened_build)
      (\<lparr>handles = [\<lparr>rc_ptr = PrimaryPtr 4096\<rparr>], raws = []\<rparr>, one_object hardened_build) (c, w')
    \<and> owners c = 0 \<and> objects w' 4096 = None \<and> drops 4096 w' = 1 \<and> deallocs 4096 w' = 1"
proof -
  let ?e = "unit_env hardened_build" and ?rc = "\<lparr>rc_ptr = PrimaryPtr 4096\<rparr>"
  let ?w = "one_object hardened_build"
  let ?s = "(\<lparr>handles = [?rc], raws = []\<rparr>, ?w)"
  have new: "new_rc_in_n ?e [SecondaryVtbl 0] () () empty_world = Return (Inr ?rc, ?w)"
    by (simp add: new_rc_in_n_def try_new_rc_in_n_def rc_from_raw_unchecked_def one_object_def
        try_new_in_n_def unit_env_def empty_world_def)
  have none: "drops 4096 ?w = 0" "deallocs 4096 ?w = 0"
    using one_object_alive [of hardened_build] by (simp_all add: alive_with_def)
  obtain w' where "call_Release ?e (PrimaryPtr 4096) ?w = Return (0, w')"
    using com.release_last [OF one_object_alive, of "PrimaryPtr 4096" hardened_build]
    by (auto simp: one_object_ptrs)
  then have "client_step ?e (DropRc 0) ?s = Return (\<lparr>handles = [], raws = []\<rparr>, w')"
    by (simp add: rc_drop_def remove_nth_def)
  then have reach: "client_reach ?e ?s (\<lparr>handles = [], raws = []\<rparr>, w')"
    using client_reach.step [OF client_reach.start, of ?e "DropRc 0" ?s] by simp
  show ?thesis
    using smart_pointers_own_references [OF new _ _ well_behaved_unit_env finds_own_ptrs_unit_env
        _ reach] reach none
    by (intro exI [of _ "\<lparr>handles = [], raws = []\<rparr>"] exI [of _ w']) (simp add: owners_def)
qed

end
