(* ===== verification/Task.thy ===== *)
theory Task
  imports Prelude
begin

text \<open>
  Cancellable futures with asynchronous cleanup: \<open>src/task.rs\<close>. The two futures are generic: a
  poll gives a result, the future afterwards and the state of the world; a panic is a result, so
  that the state an unwinding poll leaves behind can be dropped. The two \<open>ManuallyDrop\<close> fields are
  slots: polling or dropping an emptied slot is undefined behaviour.
\<close>

datatype 'v poll_result = PollReady 'v | PollPending | PollPanic

record ('f, 'v, 'w) future_ops =
  fut_poll :: "'f \<Rightarrow> 'w \<Rightarrow> 'v poll_result \<times> 'f \<times> 'w"
  fut_drop :: "'f \<Rightarrow> 'w \<Rightarrow> bool \<times> 'w"

datatype 'f slot = Live 'f | Dropped

datatype CancellableState = RunningMain | RunningCleanup | Done

record ('m, 'c) Cancellable =
  state :: CancellableState
  main :: "'m slot"
  cleanup :: "'c slot"

section \<open>Operations\<close>

definition cancellable_new :: "'m \<Rightarrow> 'c \<Rightarrow> ('m, 'c) Cancellable" where
  "cancellable_new m c = \<lparr>state = RunningMain, main = Live m, cleanup = Live c\<rparr>"

definition try_finally :: "'m \<Rightarrow> 'c \<Rightarrow> ('m, 'c) Cancellable" where
  "try_finally m c = cancellable_new m c"

text \<open>
  \<open>ManuallyDrop::drop\<close> of a slot: the destructor of the future runs, and says whether it panicked;
  the slot is empty in either case.
\<close>

definition drop_slot ::
  "('f, 'v, 'w) future_ops \<Rightarrow> 'f slot \<Rightarrow> 'w \<Rightarrow> (bool \<times> 'w) outcome" where
  "drop_slot F sl w = (case sl of Live f \<Rightarrow> Return (fut_drop F f w) | Dropped \<Rightarrow> Undefined)"

definition poll_slot ::
  "('f, 'v, 'w) future_ops \<Rightarrow> 'f slot \<Rightarrow> 'w \<Rightarrow> ('v poll_result \<times> 'f \<times> 'w) outcome" where
  "poll_slot F sl w = (case sl of Live f \<Rightarrow> Return (fut_poll F f w) | Dropped \<Rightarrow> Undefined)"

text \<open>
  \<open>poll\<close>: \<open>takec\<close> is \<open>executor::take_cancellation_request\<close> on the state of the world. The loop
  comes round again only after the state went from \<open>RunningMain\<close> to \<open>RunningCleanup\<close>.
\<close>

definition state_rank :: "CancellableState \<Rightarrow> nat" where
  "state_rank st = (case st of RunningMain \<Rightarrow> 1 | RunningCleanup \<Rightarrow> 0 | Done \<Rightarrow> 0)"

function cancellable_poll ::
  "('m, 'v, 'w) future_ops \<Rightarrow> ('c, unit, 'w) future_ops \<Rightarrow> ('w \<Rightarrow> bool \<times> 'w)
    \<Rightarrow> ('m, 'c) Cancellable \<Rightarrow> 'w
    \<Rightarrow> ('v option poll_result \<times> ('m, 'c) Cancellable \<times> 'w) outcome" where
  "cancellable_poll M C takec this w =
     (case state this of
        RunningMain \<Rightarrow>
          (case takec w of
             (True, w1) \<Rightarrow>
               and_then (drop_slot M (main this) w1) (\<lambda>(panicked, w2).
                 if panicked then Return (PollPanic, this\<lparr>main := Dropped\<rparr>, w2)
                 else cancellable_poll M C takec
                   (this\<lparr>main := Dropped, state := RunningCleanup\<rparr>) w2)
           | (False, w1) \<Rightarrow>
               and_then (poll_slot M (main this) w1) (\<lambda>(r, m, w2).
                 case r of
                   PollReady value \<Rightarrow>
                     and_then (drop_slot M (Live m) w2) (\<lambda>(p1, w3).
                       if p1 then Return (PollPanic, this\<lparr>main := Dropped\<rparr>, w3)
                       else and_then (drop_slot C (cleanup this) w3) (\<lambda>(p2, w4).
                         if p2 then
                           Return (PollPanic, this\<lparr>main := Dropped, cleanup := Dropped\<rparr>, w4)
                         else Return (PollReady (Some value),
                           this\<lparr>main := Dropped, cleanup := Dropped, state := Done\<rparr>, w4)))
                 | PollPending \<Rightarrow> Return (PollPending, this\<lparr>main := Live m\<rparr>, w2)
                 | PollPanic \<Rightarrow> Return (PollPanic, this\<lparr>main := Live m\<rparr>, w2)))
      | RunningCleanup \<Rightarrow>
          and_then (poll_slot C (cleanup this) w) (\<lambda>(r, c, w1).
            case r of
              PollReady u \<Rightarrow>
                and_then (drop_slot C (Live c) w1) (\<lambda>(p, w2).
                  if p then Return (PollPanic, this\<lparr>cleanup := Dropped\<rparr>, w2)
                  else Return (PollReady None, this\<lparr>cleanup := Dropped, state := Done\<rparr>, w2))
            | PollPending \<Rightarrow> Return (PollPending, this\<lparr>cleanup := Live c\<rparr>, w1)
            | PollPanic \<Rightarrow> Return (PollPanic, this\<lparr>cleanup := Live c\<rparr>, w1))
      | Done \<Rightarrow> Return (PollPanic, this, w))"
  by pat_completeness auto

termination
  by (relation "measure (\<lambda>(M, C, takec, this, w). state_rank (state this))")
    (auto simp: state_rank_def)

declare cancellable_poll.simps [simp del]

text \<open>\<open>Drop\<close>: a destructor that panics ends the sequence, the rest is not dropped.\<close>

definition cancellable_drop ::
  "('m, 'v, 'w) future_ops \<Rightarrow> ('c, unit, 'w) future_ops \<Rightarrow> ('m, 'c) Cancellable \<Rightarrow> 'w
    \<Rightarrow> (bool \<times> ('m, 'c) Cancellable \<times> 'w) outcome" where
  "cancellable_drop M C this w =
     (case state this of
        RunningMain \<Rightarrow>
          and_then (drop_slot M (main this) w) (\<lambda>(p1, w1).
            if p1 then Return (True, this\<lparr>main := Dropped\<rparr>, w1)
            else and_then (drop_slot C (cleanup this) w1) (\<lambda>(p2, w2).
              Return (p2, this\<lparr>main := Dropped, cleanup := Dropped\<rparr>, w2)))
      | RunningCleanup \<Rightarrow>
          and_then (drop_slot C (cleanup this) w) (\<lambda>(p, w1).
            Return (p, this\<lparr>cleanup := Dropped\<rparr>, w1))
      | Done \<Rightarrow> Return (False, this, w))"

section \<open>Runs\<close>

text \<open>A task polls its future until it is ready or panics; it may drop it after any poll.\<close>

inductive cancellable_reach ::
  "('m, 'v, 'w) future_ops \<Rightarrow> ('c, unit, 'w) future_ops \<Rightarrow> ('w \<Rightarrow> bool \<times> 'w)
    \<Rightarrow> ('m, 'c) Cancellable \<Rightarrow> bool"
  for M C takec where
  created: "cancellable_reach M C takec (try_finally m c)"
| polled: "cancellable_reach M C takec this \<Longrightarrow>
    cancellable_poll M C takec this w = Return (r, this', w') \<Longrightarrow> cancellable_reach M C takec this'"

definition wf_cancellable :: "('m, 'c) Cancellable \<Rightarrow> bool" where
  "wf_cancellable this \<longleftrightarrow>
     (case state this of
        RunningMain \<Rightarrow> main this \<noteq> Dropped \<and> cleanup this \<noteq> Dropped
      | RunningCleanup \<Rightarrow> main this = Dropped \<and> cleanup this \<noteq> Dropped
      | Done \<Rightarrow> main this = Dropped \<and> cleanup this = Dropped)"

definition calm_drops :: "('f, 'v, 'w) future_ops \<Rightarrow> bool" where
  "calm_drops F \<longleftrightarrow> (\<forall>f w. \<not> fst (fut_drop F f w))"

lemma drop_slot_Live [simp]: "drop_slot F (Live f) w = Return (fut_drop F f w)"
  by (simp add: drop_slot_def)

lemma poll_slot_Live [simp]: "poll_slot F (Live f) w = Return (fut_poll F f w)"
  by (simp add: poll_slot_def)

lemma cancellable_poll_cleanup:
  assumes "state this = RunningCleanup" and "cleanup this = Live c" and "main this = Dropped"
    and "calm_drops C"
  shows "\<exists>r this' w'. cancellable_poll M C takec this w = Return (r, this', w')
    \<and> wf_cancellable this' \<and> main this' = Dropped \<and> (\<forall>v. r \<noteq> PollReady (Some v))
    \<and> (r = PollReady None \<longleftrightarrow> state this' = Done)"
proof -
  obtain r c' w1 where p: "fut_poll C c w = (r, c', w1)" by (metis prod_cases3)
  obtain w2 where d: "fut_drop C c' w1 = (False, w2)"
    using assms(4) by (metis calm_drops_def prod.collapse)
  show ?thesis
    using assms p d
    by (subst cancellable_poll.simps) (cases r; simp add: wf_cancellable_def)
qed

lemma cancellable_poll_main:
  assumes "state this = RunningMain" and "main this = Live m" and "cleanup this = Live c"
    and "calm_drops M" and "calm_drops C"
  shows "\<exists>r this' w'. cancellable_poll M C takec this w = Return (r, this', w')
    \<and> wf_cancellable this' \<and> (\<exists>v. r = PollReady v) = (state this' = Done)"
proof (cases "takec w")
  case (Pair cancelled w1)
  show ?thesis
  proof (cases cancelled)
    case True
    obtain w2 where d: "fut_drop M m w1 = (False, w2)"
      using assms(4) by (metis calm_drops_def prod.collapse)
    let ?next = "this\<lparr>main := Dropped, state := RunningCleanup\<rparr>"
    have "cancellable_poll M C takec this w = cancellable_poll M C takec ?next w2"
      using assms(1,2) Pair True d by (subst cancellable_poll.simps) simp
    moreover obtain r this' w' where "cancellable_poll M C takec ?next w2 = Return (r, this', w')"
      "wf_cancellable this'" "\<forall>v. r \<noteq> PollReady (Some v)"
      "r = PollReady None \<longleftrightarrow> state this' = Done"
      using cancellable_poll_cleanup [of ?next c C M takec w2] assms(3,5) by auto
    moreover have "(\<exists>v. r = PollReady v) = (r = PollReady None)"
      using \<open>\<forall>v. r \<noteq> PollReady (Some v)\<close> by (metis option.exhaust)
    ultimately show ?thesis by auto
  next
    case False
    obtain r m' w2 where p: "fut_poll M m w1 = (r, m', w2)" by (metis prod_cases3)
    obtain w3 where d: "fut_drop M m' w2 = (False, w3)"
      using assms(4) by (metis calm_drops_def prod.collapse)
    obtain w4 where e: "fut_drop C c w3 = (False, w4)"
      using assms(5) by (metis calm_drops_def prod.collapse)
    show ?thesis
      using assms(1-3) Pair False p d e
      by (subst cancellable_poll.simps) (cases r; simp add: wf_cancellable_def)
  qed
qed

lemma cancellable_poll_wf:
  assumes "wf_cancellable this" and "calm_drops M" and "calm_drops C"
  shows "\<exists>r this' w'. cancellable_poll M C takec this w = Return (r, this', w')
    \<and> wf_cancellable this' \<and> (state this \<noteq> Done \<longrightarrow> (\<exists>v. r = PollReady v) = (state this' = Done))
    \<and> (state this = Done \<longrightarrow> r = PollPanic)"
proof (cases "state this")
  case RunningMain
  then obtain m c where "main this = Live m" "cleanup this = Live c"
    using assms(1) by (cases "main this"; cases "cleanup this") (auto simp: wf_cancellable_def)
  with RunningMain show ?thesis
    using cancellable_poll_main [of this m c M C takec w] assms(2,3) by auto
next
  case RunningCleanup
  then obtain c where "main this = Dropped" "cleanup this = Live c"
    using assms(1) by (cases "cleanup this") (auto simp: wf_cancellable_def)
  with RunningCleanup obtain r this' w'
    where "cancellable_poll M C takec this w = Return (r, this', w')" "wf_cancellable this'"
      "\<forall>v. r \<noteq> PollReady (Some v)" "r = PollReady None \<longleftrightarrow> state this' = Done"
    using cancellable_poll_cleanup [of this c C M takec w] assms(3) by auto
  then show ?thesis using RunningCleanup by (metis CancellableState.distinct(5) option.exhaust)
next
  case Done
  then show ?thesis using assms(1) by (subst cancellable_poll.simps) simp
qed

section \<open>Properties\<close>

lemma cancellable_reach_wf:
  assumes "cancellable_reach M C takec this" and "calm_drops M" and "calm_drops C"
  shows "wf_cancellable this"
  using assms(1)
proof (induction rule: cancellable_reach.induct)
  case (created m c)
  then show ?case by (simp add: try_finally_def cancellable_new_def wf_cancellable_def)
next
  case (polled this w r this' w')
  then show ?case using cancellable_poll_wf [OF polled.IH assms(2,3), of takec w] by auto
qed

text \<open>C32: A cancellable future is memory safe whatever its two futures do in their polls, panics
  included, as long as their destructors do not panic: in every state the task can bring it to,
  a poll and a drop touch only live futures, and dropping it drops each of the two futures that
  is still live exactly once, so that afterwards neither is left.\<close>

theorem cancellable_drops_once:
  assumes "cancellable_reach M C takec this" and "calm_drops M" and "calm_drops C"
  shows "returns (cancellable_poll M C takec this w)
    \<and> (\<exists>this' w'. cancellable_drop M C this w = Return (False, this', w')
        \<and> main this' = Dropped \<and> cleanup this' = Dropped)"
proof -
  have wf: "wf_cancellable this" by (rule cancellable_reach_wf [OF assms])
  have calm: "\<not> fst (fut_drop M m w)" "\<not> fst (fut_drop C c w)" for m c w
    using assms(2,3) by (auto simp: calm_drops_def)
  have "\<exists>this' w'. cancellable_drop M C this w = Return (False, this', w')
        \<and> main this' = Dropped \<and> cleanup this' = Dropped"
  proof (cases "state this")
    case RunningMain
    then obtain m c where "main this = Live m" "cleanup this = Live c"
      using wf by (cases "main this"; cases "cleanup this") (auto simp: wf_cancellable_def)
    then show ?thesis
      using RunningMain calm by (simp add: cancellable_drop_def case_prod_beta)
  next
    case RunningCleanup
    then obtain c where "main this = Dropped" "cleanup this = Live c"
      using wf by (cases "cleanup this") (auto simp: wf_cancellable_def)
    then show ?thesis
      using RunningCleanup calm by (simp add: cancellable_drop_def case_prod_beta)
  next
    case Done
    then show ?thesis using wf by (simp add: cancellable_drop_def wf_cancellable_def)
  qed
  then show ?thesis
    using cancellable_poll_wf [OF wf assms(2,3), of takec w] by (auto simp: returns_iff)
qed

text \<open>Two futures that count down, and a cancellation flag, for concrete runs.\<close>

definition countdown_ops :: "'v \<Rightarrow> (nat, 'v, bool) future_ops" where
  "countdown_ops v = \<lparr>fut_poll = (\<lambda>n w. if n = 0 then (PollReady v, n, w) else (PollPending, n - 1, w)),
     fut_drop = (\<lambda>n w. (False, w))\<rparr>"

definition take_flag :: "bool \<Rightarrow> bool \<times> bool" where
  "take_flag w = (w, False)"

lemma calm_countdown: "calm_drops (countdown_ops v)"
  by (simp add: calm_drops_def countdown_ops_def)

theorem cancellable_drops_once_witness:
  "\<exists>this' w'. cancellable_drop (countdown_ops (5::int)) (countdown_ops ())
      (try_finally 2 (1::nat)) False = Return (False, this', w')
    \<and> main this' = Dropped \<and> cleanup this' = Dropped"
proof (rule conjunct2)
  show "returns (cancellable_poll (countdown_ops (5::int)) (countdown_ops ()) take_flag
      (try_finally 2 (1::nat)) False)
    \<and> (\<exists>this' w'. cancellable_drop (countdown_ops (5::int)) (countdown_ops ())
        (try_finally 2 (1::nat)) False = Return (False, this', w')
      \<and> main this' = Dropped \<and> cleanup this' = Dropped)"
    by (rule cancellable_drops_once [OF cancellable_reach.created calm_countdown calm_countdown])
qed

text \<open>What a cancellable future answers. It is ready with \<open>Some v\<close> only when its main future
  answered \<open>v\<close> and no cancellation was pending in that poll; a pending cancellation drops the main
  future unpolled and goes on with the cleanup in the same poll; it is ready with \<open>None\<close> only when
  the cleanup has finished; and a poll after that panics.\<close>

theorem cancellable_results:
  assumes "wf_cancellable this" and "calm_drops M" and "calm_drops C"
    and "cancellable_poll M C takec this w = Return (r, this', w')"
  shows "(r = PollReady (Some v) \<longrightarrow> state this = RunningMain \<and> \<not> fst (takec w)
      \<and> (\<exists>m m' w2. main this = Live m \<and> fut_poll M m (snd (takec w)) = (PollReady v, m', w2)))
    \<and> (r = PollReady None \<longrightarrow> state this = RunningCleanup \<or> fst (takec w))
    \<and> (state this = RunningMain \<and> fst (takec w) \<longrightarrow> main this' = Dropped \<and> state this' \<noteq> RunningMain)
    \<and> (state this = Done \<longrightarrow> r = PollPanic)"
proof (cases "state this")
  case RunningMain
  then obtain m c where l: "main this = Live m" "cleanup this = Live c"
    using assms(1) by (cases "main this"; cases "cleanup this") (auto simp: wf_cancellable_def)
  show ?thesis
  proof (cases "fst (takec w)")
    case True
    then obtain w1 where t: "takec w = (True, w1)" by (metis prod.collapse)
    obtain w2 where d: "fut_drop M m w1 = (False, w2)"
      using assms(2) by (metis calm_drops_def prod.collapse)
    let ?next = "this\<lparr>main := Dropped, state := RunningCleanup\<rparr>"
    have "cancellable_poll M C takec ?next w2 = Return (r, this', w')"
      using assms(4) RunningMain l t d by (subst (asm) cancellable_poll.simps) simp
    moreover have "state this' \<noteq> RunningMain" if "wf_cancellable this'" "main this' = Dropped"
      using that by (auto simp: wf_cancellable_def)
    ultimately show ?thesis
      using cancellable_poll_cleanup [of ?next c C M takec w2] l assms(3) RunningMain True by auto
  next
    case False
    then obtain w1 where t: "takec w = (False, w1)" by (metis prod.collapse)
    obtain r' m' w2 where p: "fut_poll M m w1 = (r', m', w2)" by (metis prod_cases3)
    show ?thesis
      using assms(4) RunningMain l t p False
      by (subst (asm) cancellable_poll.simps)
        (cases r'; auto simp: outcome_simps case_prod_beta split: if_splits)
  qed
next
  case RunningCleanup
  then obtain c where "main this = Dropped" "cleanup this = Live c"
    using assms(1) by (cases "cleanup this") (auto simp: wf_cancellable_def)
  then show ?thesis
    using cancellable_poll_cleanup [of this c C M takec w] assms(3,4) RunningCleanup by auto
next
  case Done
  then show ?thesis using assms(4) by (subst (asm) cancellable_poll.simps) simp
qed

theorem cancellable_results_witness:
  "cancellable_poll (countdown_ops (5::int)) (countdown_ops ()) take_flag (try_finally 2 (1::nat)) True
     = Return (PollPending, \<lparr>state = RunningCleanup, main = Dropped, cleanup = Live 0\<rparr>, False)
   \<and> \<lparr>state = RunningCleanup, main = Dropped, cleanup = Live (0::nat)\<rparr>
      \<noteq> (try_finally 2 0 :: (nat, nat) Cancellable)"
proof -
  have run: "cancellable_poll (countdown_ops (5::int)) (countdown_ops ()) take_flag
      (try_finally 2 (1::nat)) True
    = Return (PollPending, \<lparr>state = RunningCleanup, main = Dropped, cleanup = Live 0\<rparr>, False)"
    by (simp add: cancellable_poll.simps try_finally_def cancellable_new_def take_flag_def
        countdown_ops_def)
  show ?thesis
    using cancellable_results [OF _ calm_countdown calm_countdown run] run
    by (auto simp: wf_cancellable_def try_finally_def cancellable_new_def take_flag_def)
qed

text \<open>The order of drop and state change in \<open>poll\<close> is not unwind safe: when the destructor of the
  main future panics during a cancellation, the state still says \<open>RunningMain\<close>, and the \<open>Drop\<close> that
  the unwinding runs drops the main future a second time.\<close>

theorem panicking_destructor_dropped_twice:
  assumes "state this = RunningMain" and "main this = Live m" and "takec w = (True, w1)"
    and "fut_drop M m w1 = (True, w2)"
  shows "\<exists>this'. cancellable_poll M C takec this w = Return (PollPanic, this', w2)
    \<and> cancellable_drop M C this' w2 = Undefined"
  using assms
  by (subst cancellable_poll.simps) (simp add: cancellable_drop_def drop_slot_def)

theorem panicking_destructor_dropped_twice_witness:
  "\<exists>this'. cancellable_poll \<lparr>fut_poll = (\<lambda>n w. (PollReady n, n, w)), fut_drop = (\<lambda>n w. (True, w))\<rparr>
      (countdown_ops ()) take_flag (try_finally (0::nat) 0) True = Return (PollPanic, this', False)
    \<and> cancellable_drop \<lparr>fut_poll = (\<lambda>n w. (PollReady n, n, w)), fut_drop = (\<lambda>n w. (True, w))\<rparr>
        (countdown_ops ()) this' False = Undefined"
  by (rule panicking_destructor_dropped_twice [where m = 0 and ?w1.0 = False])
    (simp_all add: try_finally_def cancellable_new_def take_flag_def)

end
