(* ===== verification/Async_Com.thy ===== *)
theory Async_Com
  imports Smart_Ptr Task
begin

text \<open>
  Asynchronous COM operations, \<open>src/async_com.rs\<close>: the state an \<open>AsyncOperationTask\<close> keeps in its COM
  object, the two methods of its interface, the callers' side, the task that runs the future and
  stores its result, and the spawn functions; the pointer guard of \<open>src/guard_ptr.rs\<close>; and the
  executor and cancellation handle of builds without a kernel in \<open>src/executor.rs\<close>. The future is a
  parameter; the executor of the spawn functions is one, too, and has two instances here.
\<close>

section \<open>Global constructors\<close>

text \<open>The constructors of \<open>src/wrapper.rs\<close> that use the global allocator.\<close>

datatype GlobalAllocator = GlobalAllocator

definition com_object_new ::
  "('t, GlobalAllocator, 'x) env \<Rightarrow> 't \<Rightarrow> ('t, GlobalAllocator, 'x) world
    \<Rightarrow> (NTSTATUS + com_ptr) \<times> ('t, GlobalAllocator, 'x) world" where
  "com_object_new env v w = new_in env v GlobalAllocator w"

definition com_object_try_new ::
  "('t, GlobalAllocator, 'x) env \<Rightarrow> 't \<Rightarrow> ('t, GlobalAllocator, 'x) world
    \<Rightarrow> com_ptr option \<times> ('t, GlobalAllocator, 'x) world" where
  "com_object_try_new env v w = try_new_in env v GlobalAllocator w"

definition com_object_new_rc ::
  "('t, GlobalAllocator, 'x) env \<Rightarrow> 't \<Rightarrow> ('t, GlobalAllocator, 'x) world
    \<Rightarrow> ((NTSTATUS + ComRc) \<times> ('t, GlobalAllocator, 'x) world) outcome" where
  "com_object_new_rc env v w = new_rc_in env v GlobalAllocator w"

definition com_object_try_new_rc ::
  "('t, GlobalAllocator, 'x) env \<Rightarrow> 't \<Rightarrow> ('t, GlobalAllocator, 'x) world
    \<Rightarrow> (ComRc option \<times> ('t, GlobalAllocator, 'x) world) outcome" where
  "com_object_try_new_rc env v w = try_new_rc_in env v GlobalAllocator w"

definition com_object_new_aggregated ::
  "('t, GlobalAllocator, 'x) env \<Rightarrow> 't \<Rightarrow> com_ptr \<Rightarrow> ('t, GlobalAllocator, 'x) world
    \<Rightarrow> (NTSTATUS + com_ptr) \<times> ('t, GlobalAllocator, 'x) world" where
  "com_object_new_aggregated env v outer w = new_aggregated_in env v outer GlobalAllocator w"

definition com_object_try_new_aggregated ::
  "('t, GlobalAllocator, 'x) env \<Rightarrow> 't \<Rightarrow> com_ptr \<Rightarrow> ('t, GlobalAllocator, 'x) world
    \<Rightarrow> com_ptr option \<times> ('t, GlobalAllocator, 'x) world" where
  "com_object_try_new_aggregated env v outer w = try_new_aggregated_in env v outer GlobalAllocator w"

definition com_object_n_new ::
  "('t, GlobalAllocator, 'x) env \<Rightarrow> vtbl list \<Rightarrow> 't \<Rightarrow> ('t, GlobalAllocator, 'x) world
    \<Rightarrow> (NTSTATUS + com_ptr) \<times> ('t, GlobalAllocator, 'x) world" where
  "com_object_n_new env vts v w = new_in_n env vts v GlobalAllocator w"

definition com_object_n_try_new ::
  "('t, GlobalAllocator, 'x) env \<Rightarrow> vtbl list \<Rightarrow> 't \<Rightarrow> ('t, GlobalAllocator, 'x) world
    \<Rightarrow> com_ptr option \<times> ('t, GlobalAllocator, 'x) world" where
  "com_object_n_try_new env vts v w = try_new_in_n env vts v GlobalAllocator w"

definition com_object_n_new_rc ::
  "('t, GlobalAllocator, 'x) env \<Rightarrow> vtbl list \<Rightarrow> 't \<Rightarrow> ('t, GlobalAllocator, 'x) world
    \<Rightarrow> ((NTSTATUS + ComRc) \<times> ('t, GlobalAllocator, 'x) world) outcome" where
  "com_object_n_new_rc env vts v w = new_rc_in_n env vts v GlobalAllocator w"

definition com_object_n_try_new_rc ::
  "('t, GlobalAllocator, 'x) env \<Rightarrow> vtbl list \<Rightarrow> 't \<Rightarrow> ('t, GlobalAllocator, 'x) world
    \<Rightarrow> (ComRc option \<times> ('t, GlobalAllocator, 'x) world) outcome" where
  "com_object_n_try_new_rc env vts v w = try_new_rc_in_n env vts v GlobalAllocator w"

section \<open>Guard pointers\<close>

text \<open>\<open>GuardPtr\<close> wraps a \<open>NonNull\<close>; \<open>new\<close> panics on a null pointer.\<close>

record GuardPtr =
  guard_ptr :: com_ptr

definition guard_ptr_new :: "com_ptr \<Rightarrow> GuardPtr outcome" where
  "guard_ptr_new ptr = (if ptr = NullPtr then Panic else Return \<lparr>guard_ptr = ptr\<rparr>)"

definition guard_ptr_as_ptr :: "GuardPtr \<Rightarrow> com_ptr" where
  "guard_ptr_as_ptr g = guard_ptr g"

definition guard_ptr_try_new :: "com_ptr \<Rightarrow> GuardPtr option" where
  "guard_ptr_try_new ptr = (if ptr = NullPtr then None else Some \<lparr>guard_ptr = ptr\<rparr>)"

section \<open>The state of an operation\<close>

datatype AsyncStatus = Started | Completed | Canceled | Error

primrec as_raw :: "AsyncStatus \<Rightarrow> u32" where
  "as_raw Started = 0"
| "as_raw Completed = 1"
| "as_raw Canceled = 2"
| "as_raw Error = 3"

definition async_status_from_raw :: "u32 \<Rightarrow> AsyncStatus" where
  "async_status_from_raw value =
     (if value = 0 then Started else if value = 1 then Completed else if value = 2 then Canceled
      else Error)"

text \<open>\<open>at_result\<close> is \<open>None\<close> while the \<open>MaybeUninit\<close> is uninitialised.\<close>

record 'v AsyncOperationTask =
  at_status :: u32
  at_error :: NTSTATUS
  at_result :: "'v option"

definition new_state :: "'v AsyncOperationTask" where
  "new_state = \<lparr>at_status = as_raw Started, at_error = STATUS_UNSUCCESSFUL, at_result = None\<rparr>"

definition store_result :: "'v \<Rightarrow> 'v AsyncOperationTask \<Rightarrow> 'v AsyncOperationTask" where
  "store_result value self =
     self\<lparr>at_result := Some value, at_error := STATUS_SUCCESS, at_status := as_raw Completed\<rparr>"

definition store_error :: "NTSTATUS \<Rightarrow> 'v AsyncOperationTask \<Rightarrow> 'v AsyncOperationTask" where
  "store_error status self = self\<lparr>at_error := status, at_status := as_raw Error\<rparr>"

definition store_canceled :: "'v AsyncOperationTask \<Rightarrow> 'v AsyncOperationTask" where
  "store_canceled self = self\<lparr>at_error := STATUS_CANCELLED, at_status := as_raw Canceled\<rparr>"

definition load_status :: "'v AsyncOperationTask \<Rightarrow> AsyncStatus" where
  "load_status self = async_status_from_raw (at_status self)"

definition load_error :: "'v AsyncOperationTask \<Rightarrow> NTSTATUS" where
  "load_error self = at_error self"

definition read_result :: "'v AsyncOperationTask \<Rightarrow> 'v outcome" where
  "read_result self = ok_or_undefined (at_result self)"

section \<open>The interface\<close>

type_synonym ('v, 'x) op_world = "('v AsyncOperationTask, GlobalAllocator, 'x) world"
type_synonym ('v, 'x) op_env = "('v AsyncOperationTask, GlobalAllocator, 'x) env"

text \<open>\<open>ComImpl::query_interface\<close> of an operation: it has no interface but \<open>IUnknown\<close>.\<close>

definition async_query_interface ::
  "'v AsyncOperationTask \<Rightarrow> com_ptr \<Rightarrow> GUID \<Rightarrow> com_ptr option" where
  "async_query_interface self this riid = None"

text \<open>
  The methods; \<open>out\<close> tells whether the out pointer is non-null, and the second component of the
  result is what was written through it, if anything.
\<close>

definition shim_get_status ::
  "com_ptr \<Rightarrow> bool \<Rightarrow> ('v, 'x) op_world \<Rightarrow> (NTSTATUS \<times> AsyncStatus option) outcome" where
  "shim_get_status this out w =
     (if this = NullPtr \<or> \<not> out then Return (STATUS_UNSUCCESSFUL, None)
      else panic_guard (and_then (from_ptr this w) (\<lambda>(a, wrapper).
        Return (STATUS_SUCCESS, Some (load_status (inner wrapper))))))"

definition shim_get_result ::
  "com_ptr \<Rightarrow> bool \<Rightarrow> ('v, 'x) op_world \<Rightarrow> (NTSTATUS \<times> 'v option) outcome" where
  "shim_get_result this out w =
     (if this = NullPtr \<or> \<not> out then Return (STATUS_UNSUCCESSFUL, None)
      else panic_guard (and_then (from_ptr this w) (\<lambda>(a, wrapper).
        case load_status (inner wrapper) of
          Completed \<Rightarrow>
            and_then (read_result (inner wrapper)) (\<lambda>value. Return (STATUS_SUCCESS, Some value))
        | Started \<Rightarrow> Return (STATUS_PENDING, None)
        | Canceled \<Rightarrow> Return (load_error (inner wrapper), None)
        | Error \<Rightarrow> Return (load_error (inner wrapper), None))))"

text \<open>
  The caller's side: the vtable is read from the object, the out parameter of \<open>get_status\<close> starts as
  \<open>Started\<close>, that of \<open>get_result\<close> uninitialised. Objects of other code have their own methods.
\<close>

definition get_status_raw ::
  "com_ptr \<Rightarrow> ('v, 'x) op_world \<Rightarrow> (NTSTATUS + AsyncStatus) outcome" where
  "get_status_raw this w =
     (if this = NullPtr then Return (Inl STATUS_UNSUCCESSFUL)
      else and_then (read_vtbl this w) (\<lambda>vt.
        if vt \<noteq> ComObjectVtbl then Undefined
        else and_then (shim_get_status this True w) (\<lambda>(result, out).
          Return (if result <s 0 then Inl result
            else Inr (case out of None \<Rightarrow> Started | Some status \<Rightarrow> status)))))"

definition get_result_raw :: "com_ptr \<Rightarrow> ('v, 'x) op_world \<Rightarrow> (NTSTATUS + 'v) outcome" where
  "get_result_raw this w =
     (if this = NullPtr then Return (Inl STATUS_UNSUCCESSFUL)
      else and_then (read_vtbl this w) (\<lambda>vt.
        if vt \<noteq> ComObjectVtbl then Undefined
        else and_then (shim_get_result this True w) (\<lambda>(result, out).
          if result = STATUS_SUCCESS then and_then (ok_or_undefined out) (\<lambda>v. Return (Inr v))
          else Return (Inl result))))"

section \<open>The task\<close>

text \<open>
  The \<open>async\<close> block that runs the future: not yet resumed, waiting for \<open>try_finally\<close> with the guard in
  place, or returned. The cleanup future is the empty \<open>async\<close> block.
\<close>

datatype 'f async_task = Unresumed 'f | Awaiting "('f, unit) Cancellable" | Returned

definition empty_async :: "(unit, unit, 'w) future_ops" where
  "empty_async = \<lparr>fut_poll = (\<lambda>u w. (PollReady (), u, w)), fut_drop = (\<lambda>u w. (False, w))\<rparr>"

definition op_update ::
  "com_ptr \<Rightarrow> ('v AsyncOperationTask \<Rightarrow> 'v AsyncOperationTask) \<Rightarrow> ('v, 'x) op_world
    \<Rightarrow> ('v, 'x) op_world outcome" where
  "op_update ptr g w =
     and_then (from_ptr ptr w) (\<lambda>(a, wrapper).
       Return (put_object a (wrapper\<lparr>inner := g (inner wrapper)\<rparr>) w))"

text \<open>\<open>Drop for TaskGuard\<close>.\<close>

definition task_guard_drop ::
  "('v, 'x) op_env \<Rightarrow> com_ptr \<Rightarrow> ('v, 'x) op_world \<Rightarrow> ('v, 'x) op_world outcome" where
  "task_guard_drop env ptr w = and_then (shim_release env ptr w) (\<lambda>(r, w1). Return w1)"

text \<open>
  From the \<open>await\<close> to the end of the block. A panic of the future drops what is left of it and the
  guard while it unwinds; a second panic is left to the runtime.
\<close>

definition async_task_resume ::
  "('v, 'x) op_env \<Rightarrow> ('f, 'v, ('v, 'x) op_world) future_ops
    \<Rightarrow> (('v, 'x) op_world \<Rightarrow> bool \<times> ('v, 'x) op_world) \<Rightarrow> com_ptr \<Rightarrow> ('f, unit) Cancellable
    \<Rightarrow> ('v, 'x) op_world \<Rightarrow> (NTSTATUS poll_result \<times> 'f async_task \<times> ('v, 'x) op_world) outcome" where
  "async_task_resume env M takec ptr c w =
     and_then (cancellable_poll M empty_async takec c w) (\<lambda>(r, c1, w1).
       case r of
         PollReady result \<Rightarrow>
           and_then (op_update ptr (case result of
               Some value \<Rightarrow> store_result value | None \<Rightarrow> store_canceled) w1) (\<lambda>w2.
           and_then (task_guard_drop env ptr w2) (\<lambda>w3.
             Return (PollReady STATUS_SUCCESS, Returned, w3)))
       | PollPending \<Rightarrow> Return (PollPending, Awaiting c1, w1)
       | PollPanic \<Rightarrow>
           and_then (cancellable_drop M empty_async c1 w1) (\<lambda>(panicked, c2, w2).
             if panicked then Panic
             else and_then (task_guard_drop env ptr w2) (\<lambda>w3. Return (PollPanic, Returned, w3))))"

definition async_task_poll ::
  "('v, 'x) op_env \<Rightarrow> ('f, 'v, ('v, 'x) op_world) future_ops
    \<Rightarrow> (('v, 'x) op_world \<Rightarrow> bool \<times> ('v, 'x) op_world) \<Rightarrow> com_ptr \<Rightarrow> 'f async_task
    \<Rightarrow> ('v, 'x) op_world \<Rightarrow> (NTSTATUS poll_result \<times> 'f async_task \<times> ('v, 'x) op_world) outcome" where
  "async_task_poll env M takec ptr t w =
     (case t of
        Unresumed f \<Rightarrow> async_task_resume env M takec ptr (try_finally f ()) w
      | Awaiting c \<Rightarrow> async_task_resume env M takec ptr c w
      | Returned \<Rightarrow> Return (PollPanic, Returned, w))"

text \<open>
  Dropping the block drops what it holds: before the first poll that is the future alone, for the
  guard does not exist yet.
\<close>

definition async_task_drop ::
  "('v, 'x) op_env \<Rightarrow> ('f, 'v, ('v, 'x) op_world) future_ops \<Rightarrow> com_ptr \<Rightarrow> 'f async_task
    \<Rightarrow> ('v, 'x) op_world \<Rightarrow> (bool \<times> ('v, 'x) op_world) outcome" where
  "async_task_drop env M ptr t w =
     (case t of
        Unresumed f \<Rightarrow> Return (fut_drop M f w)
      | Awaiting c \<Rightarrow>
          and_then (cancellable_drop M empty_async c w) (\<lambda>(panicked, c1, w1).
          and_then (task_guard_drop env ptr w1) (\<lambda>w2. Return (panicked, w2)))
      | Returned \<Rightarrow> Return (False, w))"

section \<open>Executors\<close>

text \<open>
  An executor takes a future, given by what polling and dropping it do, and gives a handle or the
  status of its refusal, having dropped the future. In driver builds without \<open>async-com-kernel\<close> it
  always refuses.
\<close>

type_synonym ('t, 'w, 'h) spawner =
  "('t \<Rightarrow> 'w \<Rightarrow> (NTSTATUS poll_result \<times> 't \<times> 'w) outcome) \<Rightarrow> ('t \<Rightarrow> 'w \<Rightarrow> (bool \<times> 'w) outcome)
    \<Rightarrow> 't \<Rightarrow> 'w \<Rightarrow> ((NTSTATUS + 'h) \<times> 'w) outcome"

definition unsupported_spawn :: "('t, 'w, 'h) spawner" where
  "unsupported_spawn poll dropf fut w =
     and_then (dropf fut w) (\<lambda>(panicked, w1).
       if panicked then Panic else Return (Inl STATUS_NOT_SUPPORTED, w1))"

text \<open>The work-item executor of builds for which there is none drops the future and refuses.\<close>

definition unsupported_spawn_tracked ::
  "('t \<Rightarrow> 'w \<Rightarrow> (bool \<times> 'w) outcome) \<Rightarrow> 't \<Rightarrow> 'w \<Rightarrow> ((NTSTATUS + 'h) \<times> 'w) outcome" where
  "unsupported_spawn_tracked dropf fut w =
     and_then (dropf fut w) (\<lambda>(panicked, w1).
       if panicked then Panic else Return (Inl STATUS_NOT_SUPPORTED, w1))"

text \<open>
  In builds without a kernel no task is ever cancelled, and the waker the futures are polled with does
  nothing.
\<close>

definition host_is_cancellation_requested :: "'w \<Rightarrow> bool" where
  "host_is_cancellation_requested w = False"

definition host_take_cancellation_request :: "'w \<Rightarrow> bool \<times> 'w" where
  "host_take_cancellation_request w = (False, w)"

definition dummy_wake_by_ref :: "'w \<Rightarrow> 'w" where
  "dummy_wake_by_ref w = w"

text \<open>The handle of builds without a kernel keeps a future that is still pending.\<close>

record 't HostCancelHandle =
  hc_cancelled :: bool
  hc_future :: "'t option"

definition host_handle_new :: "'t option \<Rightarrow> 't HostCancelHandle" where
  "host_handle_new future = \<lparr>hc_cancelled = False, hc_future = future\<rparr>"

definition host_handle_take ::
  "('t \<Rightarrow> 'w \<Rightarrow> (bool \<times> 'w) outcome) \<Rightarrow> 't HostCancelHandle \<Rightarrow> 'w
    \<Rightarrow> ('t HostCancelHandle \<times> 'w) outcome" where
  "host_handle_take dropf self w =
     (case hc_future self of
        None \<Rightarrow> Return (self, w)
      | Some fut \<Rightarrow>
          and_then (dropf fut w) (\<lambda>(panicked, w1).
            if panicked then Panic else Return (self\<lparr>hc_future := None\<rparr>, w1)))"

definition host_handle_cancel ::
  "('t \<Rightarrow> 'w \<Rightarrow> (bool \<times> 'w) outcome) \<Rightarrow> 't HostCancelHandle \<Rightarrow> 'w
    \<Rightarrow> ('t HostCancelHandle \<times> 'w) outcome" where
  "host_handle_cancel dropf self w = host_handle_take dropf (self\<lparr>hc_cancelled := True\<rparr>) w"

definition host_handle_is_cancelled :: "'t HostCancelHandle \<Rightarrow> bool" where
  "host_handle_is_cancelled self = hc_cancelled self"

definition host_handle_drop ::
  "('t \<Rightarrow> 'w \<Rightarrow> (bool \<times> 'w) outcome) \<Rightarrow> 't HostCancelHandle \<Rightarrow> 'w \<Rightarrow> 'w outcome" where
  "host_handle_drop dropf self w = and_then (host_handle_take dropf self w) (\<lambda>(h, w1). Return w1)"

text \<open>The host executor polls once, with a waker that does nothing.\<close>

definition host_spawn_cancellable :: "('t, 'w, 't HostCancelHandle) spawner" where
  "host_spawn_cancellable poll dropf fut w =
     and_then (poll fut w) (\<lambda>(r, fut1, w1).
       case r of
         PollReady st \<Rightarrow>
           and_then (dropf fut1 w1) (\<lambda>(panicked, w2).
             if panicked then Panic else Return (Inr (host_handle_new None), w2))
       | PollPending \<Rightarrow> Return (Inr (host_handle_new (Some fut1)), w1)
       | PollPanic \<Rightarrow> Panic)"

definition host_spawn_task ::
  "('t \<Rightarrow> 'w \<Rightarrow> (NTSTATUS poll_result \<times> 't \<times> 'w) outcome) \<Rightarrow> ('t \<Rightarrow> 'w \<Rightarrow> (bool \<times> 'w) outcome)
    \<Rightarrow> 't \<Rightarrow> 'w \<Rightarrow> (NTSTATUS \<times> 'w) outcome" where
  "host_spawn_task poll dropf fut w =
     and_then (poll fut w) (\<lambda>(r, fut1, w1).
       case r of
         PollPanic \<Rightarrow> Panic
       | _ \<Rightarrow> and_then (dropf fut1 w1) (\<lambda>(panicked, w2).
           if panicked then Panic else Return (STATUS_SUCCESS, w2)))"

section \<open>Spawning operations\<close>

definition spawn_raw_cancellable ::
  "('v, 'x) op_env \<Rightarrow> ('f, 'v, ('v, 'x) op_world) future_ops
    \<Rightarrow> (('v, 'x) op_world \<Rightarrow> bool \<times> ('v, 'x) op_world)
    \<Rightarrow> ('f async_task, ('v, 'x) op_world, 'h) spawner \<Rightarrow> 'f \<Rightarrow> ('v, 'x) op_world
    \<Rightarrow> ((NTSTATUS + com_ptr \<times> 'h) \<times> ('v, 'x) op_world) outcome" where
  "spawn_raw_cancellable env M takec spawn future w =
     (case com_object_new env new_state w of
        (Inl status, w1) \<Rightarrow>
          let (panicked, w2) = fut_drop M future w1
          in if panicked then Panic else Return (Inl status, w2)
      | (Inr ptr, w1) \<Rightarrow>
          and_then (shim_add_ref env ptr w1) (\<lambda>(r, w2).
          and_then (guard_ptr_new ptr) (\<lambda>task_ptr.
          and_then (spawn (async_task_poll env M takec (guard_ptr_as_ptr task_ptr))
              (async_task_drop env M (guard_ptr_as_ptr task_ptr)) (Unresumed future) w2) (\<lambda>(x, w3).
            case x of
              Inr handle \<Rightarrow> Return (Inr (ptr, handle), w3)
            | Inl status \<Rightarrow>
                and_then (shim_release env ptr w3) (\<lambda>(r1, w4).
                and_then (shim_release env ptr w4) (\<lambda>(r2, w5). Return (Inl status, w5)))))))"

text \<open>\<open>spawn_raw\<close> drops the handle.\<close>

definition spawn_raw ::
  "('v, 'x) op_env \<Rightarrow> ('f, 'v, ('v, 'x) op_world) future_ops
    \<Rightarrow> (('v, 'x) op_world \<Rightarrow> bool \<times> ('v, 'x) op_world)
    \<Rightarrow> ('f async_task, ('v, 'x) op_world, 'h) spawner
    \<Rightarrow> (com_ptr \<Rightarrow> 'h \<Rightarrow> ('v, 'x) op_world \<Rightarrow> ('v, 'x) op_world outcome) \<Rightarrow> 'f \<Rightarrow> ('v, 'x) op_world
    \<Rightarrow> ((NTSTATUS + com_ptr) \<times> ('v, 'x) op_world) outcome" where
  "spawn_raw env M takec spawn handle_drop future w =
     and_then (spawn_raw_cancellable env M takec spawn future w) (\<lambda>(x, w1).
       case x of
         Inl status \<Rightarrow> Return (Inl status, w1)
       | Inr (ptr, handle) \<Rightarrow> and_then (handle_drop ptr handle w1) (\<lambda>w2. Return (Inr ptr, w2)))"

definition spawn_error_raw ::
  "('v, 'x) op_env \<Rightarrow> NTSTATUS \<Rightarrow> ('v, 'x) op_world \<Rightarrow> (NTSTATUS + com_ptr) \<times> ('v, 'x) op_world" where
  "spawn_error_raw env status w =
     (let task = store_error status new_state
      in case com_object_new env task w of
           (Inl st, w1) \<Rightarrow> (Inl st, w1)
         | (Inr ptr, w1) \<Rightarrow> (Inr ptr, w1))"

text \<open>The variants that wrap the pointer.\<close>

definition async_spawn ::
  "('v, 'x) op_env \<Rightarrow> ('f, 'v, ('v, 'x) op_world) future_ops
    \<Rightarrow> (('v, 'x) op_world \<Rightarrow> bool \<times> ('v, 'x) op_world)
    \<Rightarrow> ('f async_task, ('v, 'x) op_world, 'h) spawner
    \<Rightarrow> (com_ptr \<Rightarrow> 'h \<Rightarrow> ('v, 'x) op_world \<Rightarrow> ('v, 'x) op_world outcome) \<Rightarrow> 'f \<Rightarrow> ('v, 'x) op_world
    \<Rightarrow> ((NTSTATUS + ComRc) \<times> ('v, 'x) op_world) outcome" where
  "async_spawn env M takec spawn handle_drop future w =
     and_then (spawn_raw env M takec spawn handle_drop future w) (\<lambda>(x, w1).
       case x of
         Inl status \<Rightarrow> Return (Inl status, w1)
       | Inr ptr \<Rightarrow> and_then (rc_from_raw_unchecked ptr) (\<lambda>op. Return (Inr op, w1)))"

definition async_spawn_cancellable ::
  "('v, 'x) op_env \<Rightarrow> ('f, 'v, ('v, 'x) op_world) future_ops
    \<Rightarrow> (('v, 'x) op_world \<Rightarrow> bool \<times> ('v, 'x) op_world)
    \<Rightarrow> ('f async_task, ('v, 'x) op_world, 'h) spawner \<Rightarrow> 'f \<Rightarrow> ('v, 'x) op_world
    \<Rightarrow> ((NTSTATUS + ComRc \<times> 'h) \<times> ('v, 'x) op_world) outcome" where
  "async_spawn_cancellable env M takec spawn future w =
     and_then (spawn_raw_cancellable env M takec spawn future w) (\<lambda>(x, w1).
       case x of
         Inl status \<Rightarrow> Return (Inl status, w1)
       | Inr (ptr, handle) \<Rightarrow>
           and_then (rc_from_raw_unchecked ptr) (\<lambda>op. Return (Inr (op, handle), w1)))"

text \<open>The free functions.\<close>

definition spawn_async_operation_raw ::
  "('v, 'x) op_env \<Rightarrow> ('f, 'v, ('v, 'x) op_world) future_ops
    \<Rightarrow> (('v, 'x) op_world \<Rightarrow> bool \<times> ('v, 'x) op_world)
    \<Rightarrow> ('f async_task, ('v, 'x) op_world, 'h) spawner
    \<Rightarrow> (com_ptr \<Rightarrow> 'h \<Rightarrow> ('v, 'x) op_world \<Rightarrow> ('v, 'x) op_world outcome) \<Rightarrow> 'f \<Rightarrow> ('v, 'x) op_world
    \<Rightarrow> ((NTSTATUS + com_ptr) \<times> ('v, 'x) op_world) outcome" where
  "spawn_async_operation_raw env M takec spawn handle_drop future w =
     spawn_raw env M takec spawn handle_drop future w"

definition spawn_async_operation_raw_cancellable ::
  "('v, 'x) op_env \<Rightarrow> ('f, 'v, ('v, 'x) op_world) future_ops
    \<Rightarrow> (('v, 'x) op_world \<Rightarrow> bool \<times> ('v, 'x) op_world)
    \<Rightarrow> ('f async_task, ('v, 'x) op_world, 'h) spawner \<Rightarrow> 'f \<Rightarrow> ('v, 'x) op_world
    \<Rightarrow> ((NTSTATUS + com_ptr \<times> 'h) \<times> ('v, 'x) op_world) outcome" where
  "spawn_async_operation_raw_cancellable env M takec spawn future w =
     spawn_raw_cancellable env M takec spawn future w"

definition spawn_async_operation_error_raw ::
  "('v, 'x) op_env \<Rightarrow> NTSTATUS \<Rightarrow> ('v, 'x) op_world \<Rightarrow> (NTSTATUS + com_ptr) \<times> ('v, 'x) op_world" where
  "spawn_async_operation_error_raw env status w = spawn_error_raw env status w"

definition spawn_async_operation ::
  "('v, 'x) op_env \<Rightarrow> ('f, 'v, ('v, 'x) op_world) future_ops
    \<Rightarrow> (('v, 'x) op_world \<Rightarrow> bool \<times> ('v, 'x) op_world)
    \<Rightarrow> ('f async_task, ('v, 'x) op_world, 'h) spawner
    \<Rightarrow> (com_ptr \<Rightarrow> 'h \<Rightarrow> ('v, 'x) op_world \<Rightarrow> ('v, 'x) op_world outcome) \<Rightarrow> 'f \<Rightarrow> ('v, 'x) op_world
    \<Rightarrow> ((NTSTATUS + ComRc) \<times> ('v, 'x) op_world) outcome" where
  "spawn_async_operation env M takec spawn handle_drop future w =
     async_spawn env M takec spawn handle_drop future w"

definition spawn_async_operation_cancellable ::
  "('v, 'x) op_env \<Rightarrow> ('f, 'v, ('v, 'x) op_world) future_ops
    \<Rightarrow> (('v, 'x) op_world \<Rightarrow> bool \<times> ('v, 'x) op_world)
    \<Rightarrow> ('f async_task, ('v, 'x) op_world, 'h) spawner \<Rightarrow> 'f \<Rightarrow> ('v, 'x) op_world
    \<Rightarrow> ((NTSTATUS + ComRc \<times> 'h) \<times> ('v, 'x) op_world) outcome" where
  "spawn_async_operation_cancellable env M takec spawn future w =
     async_spawn_cancellable env M takec spawn future w"

definition spawn_async_operation_error ::
  "('v, 'x) op_env \<Rightarrow> NTSTATUS \<Rightarrow> ('v, 'x) op_world
    \<Rightarrow> ((NTSTATUS + ComRc) \<times> ('v, 'x) op_world) outcome" where
  "spawn_async_operation_error env status w =
     (case spawn_async_operation_error_raw env status w of
        (Inl st, w1) \<Rightarrow> Return (Inl st, w1)
      | (Inr ptr, w1) \<Rightarrow> and_then (rc_from_raw_unchecked ptr) (\<lambda>op. Return (Inr op, w1)))"

end
