(* ===== verification/Interfaces.thy ===== *)
theory Interfaces
  imports Smart_Ptr Async_Com "HOL-Library.Sublist"
begin

text \<open>
  What the macros of \<open>src/macros/\<close> generate. \<open>declare_com_interface!\<close> turns the declaration of an
  interface into a vtable type, its three constructors and the method shims; \<open>impl_com_interface!\<close> and
  \<open>impl_com_interface_multiple!\<close> implement \<open>ComImpl\<close> for a type; \<open>impl_com_object!\<close> of \<open>src/lib.rs\<close> adds
  constructors. A vtable is the list of its slots, in the order of its \<open>repr(C)\<close> fields, and a slot is
  the instance of the shim it points to.
\<close>

section \<open>Interface declarations\<close>

text \<open>
  The return types the macro tells apart: \<open>Result\<close>, \<open>::core::result::Result\<close>, \<open>::std::result::Result\<close>,
  and any other type, by its name.
\<close>

datatype ret_type = TyResult | TyCoreResult | TyStdResult | TyOther string

datatype com_method = Method (method_name: string) (method_ret: ret_type) | AsyncMethod (method_name: string)

datatype com_interface =
  Interface (iface_name: string) (iface_iid: GUID) (iface_parent: "com_interface option")
    (iface_methods: "com_method list")

text \<open>An interface and those it inherits from, without \<open>IUnknown\<close>.\<close>

fun ancestors :: "com_interface \<Rightarrow> com_interface list" where
  "ancestors (Interface n iid None ms) = [Interface n iid None ms]"
| "ancestors (Interface n iid (Some p) ms) = Interface n iid (Some p) ms # ancestors p"

definition root_interface :: "com_interface \<Rightarrow> com_interface" where
  "root_interface iface = last (ancestors iface)"

section \<open>Vtable types\<close>

text \<open>What a slot returns through the ABI.\<close>

datatype abi = AbiStatus | AbiU32 | AbiOperation | AbiRust string

type_synonym vtbl_field = "string \<times> abi"

definition iunknown_fields :: "vtbl_field list" where
  "iunknown_fields = [(''QueryInterface'', AbiStatus), (''AddRef'', AbiU32), (''Release'', AbiU32)]"

text \<open>
  The accumulators of the \<open>@parse\<close> arms: the fields and the two lists of initialisers, and whether the
  trait is unsafe. The initialisers name the shim of the method.
\<close>

record parsed =
  acc_unsafe :: bool
  acc_fields :: "vtbl_field list"
  acc_inits :: "com_method list"
  acc_inits_secondary :: "com_method list"

definition parse_async_method :: "string \<Rightarrow> parsed \<Rightarrow> parsed" where
  "parse_async_method n acc =
     acc\<lparr>acc_unsafe := True,
       acc_fields := acc_fields acc @ [(n, AbiOperation)],
       acc_inits := acc_inits acc @ [AsyncMethod n],
       acc_inits_secondary := acc_inits_secondary acc @ [AsyncMethod n]\<rparr>"

definition parse_result_method :: "string \<Rightarrow> parsed \<Rightarrow> parsed" where
  "parse_result_method n acc =
     acc\<lparr>acc_fields := acc_fields acc @ [(n, AbiStatus)],
       acc_inits := acc_inits acc @ [Method n TyResult],
       acc_inits_secondary := acc_inits_secondary acc @ [Method n TyResult]\<rparr>"

definition parse_core_result_method :: "string \<Rightarrow> parsed \<Rightarrow> parsed" where
  "parse_core_result_method n acc =
     acc\<lparr>acc_fields := acc_fields acc @ [(n, AbiStatus)],
       acc_inits := acc_inits acc @ [Method n TyCoreResult],
       acc_inits_secondary := acc_inits_secondary acc @ [Method n TyCoreResult]\<rparr>"

definition parse_std_result_method :: "string \<Rightarrow> parsed \<Rightarrow> parsed" where
  "parse_std_result_method n acc =
     acc\<lparr>acc_fields := acc_fields acc @ [(n, AbiStatus)],
       acc_inits := acc_inits acc @ [Method n TyStdResult],
       acc_inits_secondary := acc_inits_secondary acc @ [Method n TyStdResult]\<rparr>"

definition parse_plain_method :: "string \<Rightarrow> string \<Rightarrow> parsed \<Rightarrow> parsed" where
  "parse_plain_method n t acc =
     acc\<lparr>acc_fields := acc_fields acc @ [(n, AbiRust t)],
       acc_inits := acc_inits acc @ [Method n (TyOther t)],
       acc_inits_secondary := acc_inits_secondary acc @ [Method n (TyOther t)]\<rparr>"

fun parse_methods :: "com_method list \<Rightarrow> parsed \<Rightarrow> parsed" where
  "parse_methods [] acc = acc"
| "parse_methods (AsyncMethod n # rest) acc = parse_methods rest (parse_async_method n acc)"
| "parse_methods (Method n TyResult # rest) acc = parse_methods rest (parse_result_method n acc)"
| "parse_methods (Method n TyCoreResult # rest) acc = parse_methods rest (parse_core_result_method n acc)"
| "parse_methods (Method n TyStdResult # rest) acc = parse_methods rest (parse_std_result_method n acc)"
| "parse_methods (Method n (TyOther t) # rest) acc = parse_methods rest (parse_plain_method n t acc)"

definition define_interface :: "com_interface \<Rightarrow> parsed" where
  "define_interface iface =
     parse_methods (iface_methods iface)
       \<lparr>acc_unsafe = False, acc_fields = [], acc_inits = [], acc_inits_secondary = []\<rparr>"

text \<open>The fields of the vtable struct: those of the parent, then the methods.\<close>

fun vtbl_fields :: "com_interface \<Rightarrow> vtbl_field list" where
  "vtbl_fields (Interface n iid None ms) =
     iunknown_fields @ acc_fields (define_interface (Interface n iid None ms))"
| "vtbl_fields (Interface n iid (Some p) ms) =
     vtbl_fields p @ acc_fields (define_interface (Interface n iid (Some p) ms))"

section \<open>Vtable constructors\<close>

text \<open>
  The types whose shims the slots point to: \<open>ComObject<T, I>\<close>, always with the global allocator, and
  \<open>ComObjectN<T, P, S, A>\<close>.
\<close>

datatype vtbl_type = IUnknownVtbl | VtblOf com_interface

datatype 'al object_type =
    ComObjectTy vtbl_type
  | ComObjectNTy vtbl_type "com_interface list" 'al

datatype 'al shim =
    Shim_query_interface "'al object_type"
  | Shim_add_ref "'al object_type"
  | Shim_release "'al object_type"
  | Shim_query_interface_secondary "'al object_type" vtbl_type nat
  | Shim_add_ref_secondary "'al object_type" vtbl_type nat
  | Shim_release_secondary "'al object_type" vtbl_type nat
  | Shim_method com_interface com_method
  | Shim_method_secondary "'al object_type" nat com_interface com_method

definition iunknown_vtbl_new :: "vtbl_type \<Rightarrow> 'al shim list" where
  "iunknown_vtbl_new vt =
     [Shim_query_interface (ComObjectTy vt), Shim_add_ref (ComObjectTy vt), Shim_release (ComObjectTy vt)]"

definition iunknown_vtbl_new_primary :: "vtbl_type \<Rightarrow> com_interface list \<Rightarrow> 'al \<Rightarrow> 'al shim list" where
  "iunknown_vtbl_new_primary p s al =
     [Shim_query_interface (ComObjectNTy p s al), Shim_add_ref (ComObjectNTy p s al),
      Shim_release (ComObjectNTy p s al)]"

definition iunknown_vtbl_secondary ::
  "vtbl_type \<Rightarrow> vtbl_type \<Rightarrow> com_interface list \<Rightarrow> 'al \<Rightarrow> nat \<Rightarrow> 'al shim list" where
  "iunknown_vtbl_secondary vt p s al index =
     [Shim_query_interface_secondary (ComObjectNTy p s al) vt index,
      Shim_add_ref_secondary (ComObjectNTy p s al) vt index,
      Shim_release_secondary (ComObjectNTy p s al) vt index]"

text \<open>\<open>iunknown_vtbl!\<close> of \<open>src/macros/helpers.rs\<close>.\<close>

definition iunknown_vtbl :: "vtbl_type \<Rightarrow> 'al shim list" where
  "iunknown_vtbl vt =
     [Shim_query_interface (ComObjectTy vt), Shim_add_ref (ComObjectTy vt), Shim_release (ComObjectTy vt)]"

definition vtable_inits :: "com_interface \<Rightarrow> 'al shim list" where
  "vtable_inits iface = map (Shim_method iface) (acc_inits (define_interface iface))"

definition vtable_inits_secondary ::
  "vtbl_type \<Rightarrow> com_interface list \<Rightarrow> 'al \<Rightarrow> nat \<Rightarrow> com_interface \<Rightarrow> 'al shim list" where
  "vtable_inits_secondary p s al index iface =
     map (Shim_method_secondary (ComObjectNTy p s al) index iface)
       (acc_inits_secondary (define_interface iface))"

function vtbl_new :: "com_interface \<Rightarrow> 'al shim list"
  and parent_vtbl :: "com_interface option \<Rightarrow> vtbl_type \<Rightarrow> 'al shim list" where
  "vtbl_new (Interface n iid par ms) =
     parent_vtbl par (VtblOf (Interface n iid par ms)) @ vtable_inits (Interface n iid par ms)"
| "parent_vtbl None vt = iunknown_vtbl_new vt"
| "parent_vtbl (Some p) vt = vtbl_new p"
  by pat_completeness auto
termination
  by (relation "measure (case_sum size (\<lambda>(par, vt). size_option size par))") auto

function vtbl_new_primary ::
    "vtbl_type \<Rightarrow> com_interface list \<Rightarrow> 'al \<Rightarrow> com_interface \<Rightarrow> 'al shim list"
  and parent_vtbl_primary ::
    "vtbl_type \<Rightarrow> com_interface list \<Rightarrow> 'al \<Rightarrow> com_interface option \<Rightarrow> 'al shim list" where
  "vtbl_new_primary p s al (Interface n iid par ms) =
     parent_vtbl_primary p s al par @ vtable_inits (Interface n iid par ms)"
| "parent_vtbl_primary p s al None = iunknown_vtbl_new_primary p s al"
| "parent_vtbl_primary p s al (Some q) = vtbl_new_primary p s al q"
  by pat_completeness auto
termination
  by (relation "measure (case_sum (\<lambda>(p, s, al, i). size i) (\<lambda>(p, s, al, par). size_option size par))") auto

function vtbl_new_secondary ::
    "vtbl_type \<Rightarrow> com_interface list \<Rightarrow> 'al \<Rightarrow> nat \<Rightarrow> com_interface \<Rightarrow> 'al shim list"
  and parent_vtbl_secondary ::
    "vtbl_type \<Rightarrow> com_interface list \<Rightarrow> 'al \<Rightarrow> nat \<Rightarrow> com_interface option \<Rightarrow> vtbl_type \<Rightarrow> 'al shim list" where
  "vtbl_new_secondary p s al index (Interface n iid par ms) =
     parent_vtbl_secondary p s al index par (VtblOf (Interface n iid par ms))
       @ vtable_inits_secondary p s al index (Interface n iid par ms)"
| "parent_vtbl_secondary p s al index None vt = iunknown_vtbl_secondary vt p s al index"
| "parent_vtbl_secondary p s al index (Some q) vt = vtbl_new_secondary p s al index q"
  by pat_completeness auto
termination
  by (relation "measure (case_sum (\<lambda>(p, s, al, k, i). size i)
        (\<lambda>(p, s, al, k, par, vt). size_option size par))") auto

text \<open>
  The bounds of \<open>new_secondary\<close>: a tuple of entries gives access to the entry \<open>INDEX\<close> only at the type
  of its vtable, and a derived interface asks for two types.
\<close>

definition entry_access :: "com_interface list \<Rightarrow> nat \<Rightarrow> vtbl_type \<Rightarrow> bool" where
  "entry_access s index vt \<longleftrightarrow> index < length s \<and> vt = VtblOf (s ! index)"

definition new_secondary_bounds :: "com_interface list \<Rightarrow> nat \<Rightarrow> com_interface \<Rightarrow> bool" where
  "new_secondary_bounds s index iface \<longleftrightarrow>
     entry_access s index (VtblOf iface)
     \<and> (case iface_parent iface of None \<Rightarrow> True | Some q \<Rightarrow> entry_access s index (VtblOf q))"

section \<open>Implementations of \<open>ComImpl\<close>\<close>

text \<open>
  The \<open>query_interface\<close> of a \<open>ComImpl\<close> instance by the macro that wrote it, with the instance of its
  fallback: the blanket instance for \<open>IUnknown\<close>, the two forms of \<open>impl_com_interface!\<close>,
  \<open>impl_com_interface_multiple!\<close>, and \<open>impl_query_interface!\<close> with the pointers it was given, \<open>None\<close> for
  \<open>this\<close>.
\<close>

datatype com_impl =
    ImplUnknown
  | ImplSingle com_interface com_impl
  | ImplPrimary com_interface "com_interface list" com_impl
  | ImplMultiple com_interface "com_interface list" com_impl
  | ImplQuery com_interface "com_ptr option" "(com_interface \<times> com_ptr) list" com_impl

text \<open>
  \<open>__kcom_qi_match_secondaries_from_wrapper!\<close>: \<open>Some r\<close> when it returns \<open>r\<close> from the function that
  contains it, \<open>None\<close> when it falls through.
\<close>

fun qi_match_secondaries ::
  "com_ptr \<Rightarrow> GUID \<Rightarrow> com_interface list \<Rightarrow> nat \<Rightarrow> ('t, 'a, 'x) world \<Rightarrow> com_ptr option option outcome" where
  "qi_match_secondaries wrapper riid [] index w = Return None"
| "qi_match_secondaries wrapper riid (head # tail) index w =
     (if riid = iface_iid head then
        and_then (secondary_ptr wrapper index w) (\<lambda>ptr.
          Return (Some (if ptr = NullPtr then None else Some ptr)))
      else qi_match_secondaries wrapper riid tail (index + 1) w)"

text \<open>The \<open>@return\<close> rules of \<open>impl_query_interface!\<close>; \<open>debug\<close> tells whether assertions are compiled in.\<close>

definition qi_return_this :: "bool \<Rightarrow> com_ptr \<Rightarrow> com_ptr option outcome" where
  "qi_return_this debug this = (if debug \<and> this = NullPtr then Panic else Return (Some this))"

definition qi_return_ptr :: "bool \<Rightarrow> com_ptr \<Rightarrow> com_ptr option outcome" where
  "qi_return_ptr debug ptr =
     (if ptr = NullPtr then if debug then Panic else Return None else Return (Some ptr))"

fun impl_query_entries :: "GUID \<Rightarrow> (com_interface \<times> com_ptr) list \<Rightarrow> com_ptr option" where
  "impl_query_entries riid [] = None"
| "impl_query_entries riid ((iface, ptr) # rest) =
     (if riid = iface_iid iface then Some ptr else impl_query_entries riid rest)"

text \<open>The four generated functions; the last argument is what the fallback answers.\<close>

definition single_query_interface ::
  "com_interface \<Rightarrow> com_ptr \<Rightarrow> GUID \<Rightarrow> com_ptr option outcome \<Rightarrow> com_ptr option outcome" where
  "single_query_interface iface this riid fallback =
     (if this = NullPtr then Return None
      else if riid = iface_iid iface then Return (Some this)
      else fallback)"

definition primary_query_interface ::
  "com_interface \<Rightarrow> com_interface list \<Rightarrow> com_ptr \<Rightarrow> GUID \<Rightarrow> ('t, 'a, 'x) world
    \<Rightarrow> com_ptr option outcome \<Rightarrow> com_ptr option outcome" where
  "primary_query_interface iface s this riid w fallback =
     (if this = NullPtr then Return None
      else if riid = iface_iid iface then Return (Some this)
      else and_then (qi_match_secondaries this riid s 0 w) (\<lambda>r.
        case r of Some found \<Rightarrow> Return found | None \<Rightarrow> fallback))"

definition multiple_query_interface ::
  "com_interface \<Rightarrow> com_interface list \<Rightarrow> com_ptr \<Rightarrow> GUID \<Rightarrow> ('t, 'a, 'x) world
    \<Rightarrow> com_ptr option outcome \<Rightarrow> com_ptr option outcome" where
  "multiple_query_interface primary s this riid w fallback =
     (if this = NullPtr then Return None
      else if riid = iface_iid primary then Return (Some this)
      else and_then (qi_match_secondaries this riid s 0 w) (\<lambda>r.
        case r of Some found \<Rightarrow> Return found | None \<Rightarrow> fallback))"

definition impl_query_interface ::
  "bool \<Rightarrow> com_interface \<Rightarrow> com_ptr option \<Rightarrow> (com_interface \<times> com_ptr) list \<Rightarrow> com_ptr \<Rightarrow> GUID
    \<Rightarrow> com_ptr option outcome \<Rightarrow> com_ptr option outcome" where
  "impl_query_interface debug primary primary_ptr entries this riid fallback =
     (if riid = iface_iid primary then
        (case primary_ptr of
           None \<Rightarrow> qi_return_this debug this
         | Some ptr \<Rightarrow> qi_return_ptr debug ptr)
      else case impl_query_entries riid entries of
        Some ptr \<Rightarrow> qi_return_ptr debug ptr
      | None \<Rightarrow> fallback)"

primrec query_interface ::
  "bool \<Rightarrow> com_impl \<Rightarrow> com_ptr \<Rightarrow> GUID \<Rightarrow> ('t, 'a, 'x) world \<Rightarrow> com_ptr option outcome" where
  "query_interface debug ImplUnknown this riid w = Return None"
| "query_interface debug (ImplSingle iface fallback) this riid w =
     single_query_interface iface this riid (query_interface debug fallback this riid w)"
| "query_interface debug (ImplPrimary iface s fallback) this riid w =
     primary_query_interface iface s this riid w (query_interface debug fallback this riid w)"
| "query_interface debug (ImplMultiple primary s fallback) this riid w =
     multiple_query_interface primary s this riid w (query_interface debug fallback this riid w)"
| "query_interface debug (ImplQuery primary primary_ptr entries fallback) this riid w =
     impl_query_interface debug primary primary_ptr entries this riid
       (query_interface debug fallback this riid w)"

text \<open>
  The instances \<open>impl_com_interface!\<close> gives a type that implements an interface and those it inherits
  from, with the default fallback, the parent's vtable.
\<close>

fun single_impl :: "com_interface \<Rightarrow> com_impl" where
  "single_impl (Interface n iid None ms) = ImplSingle (Interface n iid None ms) ImplUnknown"
| "single_impl (Interface n iid (Some p) ms) = ImplSingle (Interface n iid (Some p) ms) (single_impl p)"

definition parent_impl :: "com_interface \<Rightarrow> com_impl" where
  "parent_impl iface = (case iface_parent iface of None \<Rightarrow> ImplUnknown | Some p \<Rightarrow> single_impl p)"

definition primary_impl :: "com_interface \<Rightarrow> com_interface list \<Rightarrow> com_impl" where
  "primary_impl iface s = ImplPrimary iface s (parent_impl iface)"

definition multiple_impl :: "com_interface \<Rightarrow> com_interface \<Rightarrow> com_interface list \<Rightarrow> com_impl" where
  "multiple_impl iface primary s = ImplMultiple primary s (parent_impl iface)"

text \<open>The blanket instance of \<open>src/traits.rs\<close> for \<open>IUnknown\<close>.\<close>

definition unknown_impl :: com_impl where
  "unknown_impl = ImplUnknown"

text \<open>
  A \<open>QueryInterface\<close> slot runs the shim of the type it was instantiated with, and the shim asks the
  \<open>ComImpl\<close> instance of that type's primary vtable.
\<close>

definition with_impl :: "bool \<Rightarrow> com_impl \<Rightarrow> ('t, 'a, 'x) env \<Rightarrow> ('t, 'a, 'x) env" where
  "with_impl debug impl env =
     env\<lparr>env_query_interface := (\<lambda>v this riid w.
       and_then (query_interface debug impl this riid w) (\<lambda>r. Return (r, w)))\<rparr>"

fun run_query_slot ::
  "('t, 'a, 'x) env \<Rightarrow> bool \<Rightarrow> (vtbl_type \<Rightarrow> com_impl) \<Rightarrow> 'al shim \<Rightarrow> com_ptr \<Rightarrow> GUID option \<Rightarrow> bool
    \<Rightarrow> ('t, 'a, 'x) world \<Rightarrow> ((NTSTATUS \<times> com_ptr option) \<times> ('t, 'a, 'x) world) outcome" where
  "run_query_slot env debug impls (Shim_query_interface (ComObjectTy vt)) this riid ppv w =
     shim_query_interface (with_impl debug (impls vt) env) this riid ppv w"
| "run_query_slot env debug impls (Shim_query_interface (ComObjectNTy p s al)) this riid ppv w =
     shim_query_interface_n (with_impl debug (impls p) env) this riid ppv w"
| "run_query_slot env debug impls (Shim_query_interface_secondary (ComObjectNTy p s al) vt index) this riid ppv w =
     shim_query_interface_secondary (with_impl debug (impls p) env) this riid ppv w"
| "run_query_slot env debug impls _ this riid ppv w = Undefined"

definition query_through ::
  "('t, 'a, 'x) env \<Rightarrow> bool \<Rightarrow> (vtbl_type \<Rightarrow> com_impl) \<Rightarrow> 'al shim list \<Rightarrow> com_ptr \<Rightarrow> GUID
    \<Rightarrow> ('t, 'a, 'x) world \<Rightarrow> ((NTSTATUS \<times> com_ptr option) \<times> ('t, 'a, 'x) world) outcome" where
  "query_through env debug impls slots this riid w =
     run_query_slot env debug impls (hd slots) this (Some riid) True w"

text \<open>The methods of the generated \<open>Raw\<close> struct.\<close>

definition raw_query_interface ::
  "('t, 'a, 'x) env \<Rightarrow> GUID \<Rightarrow> com_ptr \<Rightarrow> ('t, 'a, 'x) world
    \<Rightarrow> ((Status + ComRc) \<times> ('t, 'a, 'x) world) outcome" where
  "raw_query_interface env iid self w =
     and_then (call_QueryInterface env self (Some iid) True w) (\<lambda>((st, written), w1).
       let out = (case written of Some p \<Rightarrow> p | None \<Rightarrow> NullPtr);
           status = from_raw st
       in if is_error status then Return (Inl status, w1)
          else Return (rc_from_raw_or_status out, w1))"

definition raw_from_raw_addref ::
  "('t, 'a, 'x) env \<Rightarrow> com_ptr \<Rightarrow> ('t, 'a, 'x) world
    \<Rightarrow> (ComRc option \<times> ('t, 'a, 'x) world) outcome" where
  "raw_from_raw_addref env ptr w = rc_from_raw_addref env ptr w"

definition raw_from_raw :: "com_ptr \<Rightarrow> ComRc option" where
  "raw_from_raw ptr = rc_from_raw ptr"

section \<open>Method shims\<close>

text \<open>
  Offsets in a \<open>repr(C)\<close> struct, by the sizes and alignments of its fields: the pointer to the vtable,
  two pointers per secondary, two of the non-delegating part, the count, the optional outer pointer
  (which has no niche), the inner value.
\<close>

definition align_to :: "nat \<Rightarrow> nat \<Rightarrow> nat" where
  "align_to offset al = (offset + al - 1) div al * al"

fun last_offset :: "nat \<Rightarrow> (nat \<times> nat) list \<Rightarrow> nat" where
  "last_offset pos [] = pos"
| "last_offset pos [(sz, al)] = align_to pos al"
| "last_offset pos ((sz, al) # rest) = last_offset (align_to pos al + sz) rest"

fun struct_end :: "nat \<Rightarrow> (nat \<times> nat) list \<Rightarrow> nat" where
  "struct_end pos [] = pos"
| "struct_end pos ((sz, al) # rest) = struct_end (align_to pos al + sz) rest"

definition struct_align :: "(nat \<times> nat) list \<Rightarrow> nat" where
  "struct_align flds = fold (\<lambda>(sz, al) m. max al m) flds 1"

definition struct_size :: "(nat \<times> nat) list \<Rightarrow> nat" where
  "struct_size flds = align_to (struct_end 0 flds) (struct_align flds)"

text \<open>The inner value of \<open>ComObject\<close> and of \<open>ComObjectN\<close>, by its own size and alignment.\<close>

definition com_object_inner_offset :: "nat \<times> nat \<Rightarrow> nat" where
  "com_object_inner_offset inner_layout = last_offset 0 [(8, 8), (16, 8), (4, 4), (16, 8), inner_layout]"

definition com_object_n_inner_offset :: "nat \<Rightarrow> nat \<times> nat \<Rightarrow> nat" where
  "com_object_n_inner_offset n inner_layout =
     last_offset 0 [(8, 8), (16 * n, 8), (16, 8), (4, 4), (16, 8), inner_layout]"

text \<open>
  A reference obtained by \<open>ComObject::from_ptr\<close> finds the inner value where a \<open>ComObject\<close> has it. In a
  \<open>ComObjectN\<close> that is the inner value only if the two offsets agree, or if it has no bytes to read.
  \<open>inner_read\<close> is what a read through the reference gives: the inner value, or \<open>other\<close>, whatever the
  bytes of the object's other fields make as a value of the type, \<open>Undefined\<close> where they make none.
\<close>

definition inner_visible :: "nat \<times> nat \<Rightarrow> ('t, 'a) ComObject \<Rightarrow> bool" where
  "inner_visible inner_layout ob \<longleftrightarrow>
     vtable ob = ComObjectVtbl \<or> fst inner_layout = 0
     \<or> com_object_inner_offset inner_layout = com_object_n_inner_offset (length (secondaries ob)) inner_layout"

definition inner_read :: "nat \<times> nat \<Rightarrow> 't outcome \<Rightarrow> ('t, 'a) ComObject \<Rightarrow> 't outcome" where
  "inner_read inner_layout other ob = (if inner_visible inner_layout ob then Return (inner ob) else other)"

text \<open>
  A method returns a \<open>Result\<close> or a value; the shim of the first kind converts it with \<open>IntoNtStatus\<close>,
  that of the second passes it on (\<open>__kcom_map_return!\<close>, whose arms cannot look into the type it is
  given).
\<close>

datatype 'r method_value = ResultValue "NTSTATUS + unit" | PlainValue 'r

datatype 'r abi_value = StatusValue NTSTATUS | RustValue "'r method_value"

definition map_return :: "ret_type \<Rightarrow> 'r method_value \<Rightarrow> 'r abi_value" where
  "map_return ty v =
     (case ty of
        TyOther t \<Rightarrow> RustValue v
      | _ \<Rightarrow> (case v of ResultValue r \<Rightarrow> StatusValue (result_into_ntstatus id r) | PlainValue x \<Rightarrow> RustValue v))"

text \<open>
  The body of a method has \<open>&self\<close>: its first argument is what reading through it gives, so that only a
  body that reads meets a read that goes wrong.
\<close>

type_synonym ('t, 'args, 'r, 'w) method_body = "'t outcome \<Rightarrow> 'args \<Rightarrow> 'w \<Rightarrow> ('r method_value \<times> 'w) outcome"

definition shim_method ::
  "nat \<times> nat \<Rightarrow> 't outcome \<Rightarrow> ret_type \<Rightarrow> ('t, 'args, 'r, ('t, 'a, 'x) world) method_body \<Rightarrow> com_ptr \<Rightarrow> 'args
    \<Rightarrow> ('t, 'a, 'x) world \<Rightarrow> ('r abi_value \<times> ('t, 'a, 'x) world) outcome" where
  "shim_method inner_layout other ty body this args w =
     and_then (from_ptr this w) (\<lambda>(a, wrapper).
       and_then (body (inner_read inner_layout other wrapper) args w) (\<lambda>(v, w1). Return (map_return ty v, w1)))"

definition shim_method_secondary ::
  "ret_type \<Rightarrow> ('t, 'args, 'r, ('t, 'a, 'x) world) method_body \<Rightarrow> com_ptr \<Rightarrow> 'args
    \<Rightarrow> ('t, 'a, 'x) world \<Rightarrow> ('r abi_value \<times> ('t, 'a, 'x) world) outcome" where
  "shim_method_secondary ty body this args w =
     and_then (from_secondary_ptr this w) (\<lambda>(a, wrapper).
       and_then (body (Return (inner wrapper)) args w) (\<lambda>(v, w1). Return (map_return ty v, w1)))"

section \<open>Shims of asynchronous methods\<close>

text \<open>
  The \<open>async\<close> block around the future of a method: the guard that releases the object exists from the
  first poll on. When the block ends, by a value, a panic or its own drop, the guard is dropped before
  the future the block has captured.
\<close>

datatype 'f guarded = GuardedUnresumed 'f | GuardedAwaiting 'f | GuardedReturned

definition release_guard_drop ::
  "(com_ptr \<Rightarrow> 'w \<Rightarrow> (u32 \<times> 'w) outcome) \<Rightarrow> com_ptr \<Rightarrow> 'w \<Rightarrow> 'w outcome" where
  "release_guard_drop release ptr w = and_then (release ptr w) (\<lambda>(r, w1). Return w1)"

definition guarded_end ::
  "(com_ptr \<Rightarrow> 'w \<Rightarrow> (u32 \<times> 'w) outcome) \<Rightarrow> ('f, 'v, 'w) future_ops \<Rightarrow> com_ptr \<Rightarrow> 'f \<Rightarrow> 'w
    \<Rightarrow> (bool \<times> 'w) outcome" where
  "guarded_end release M ptr f w =
     and_then (release_guard_drop release ptr w) (\<lambda>w1. Return (fut_drop M f w1))"

definition guarded_resume ::
  "(com_ptr \<Rightarrow> 'w \<Rightarrow> (u32 \<times> 'w) outcome) \<Rightarrow> ('f, 'v, 'w) future_ops \<Rightarrow> com_ptr \<Rightarrow> 'f \<Rightarrow> 'w
    \<Rightarrow> ('v poll_result \<times> 'f guarded \<times> 'w) outcome" where
  "guarded_resume release M ptr f w =
     (case fut_poll M f w of
        (PollReady v, f1, w1) \<Rightarrow>
          and_then (guarded_end release M ptr f1 w1) (\<lambda>(panicked, w2).
            Return (if panicked then PollPanic else PollReady v, GuardedReturned, w2))
      | (PollPending, f1, w1) \<Rightarrow> Return (PollPending, GuardedAwaiting f1, w1)
      | (PollPanic, f1, w1) \<Rightarrow>
          and_then (guarded_end release M ptr f1 w1) (\<lambda>(panicked, w2).
            if panicked then Panic else Return (PollPanic, GuardedReturned, w2)))"

definition guarded_poll ::
  "(com_ptr \<Rightarrow> 'w \<Rightarrow> (u32 \<times> 'w) outcome) \<Rightarrow> ('f, 'v, 'w) future_ops \<Rightarrow> com_ptr \<Rightarrow> 'f guarded \<Rightarrow> 'w
    \<Rightarrow> ('v poll_result \<times> 'f guarded \<times> 'w) outcome" where
  "guarded_poll release M ptr g w =
     (case g of
        GuardedUnresumed f \<Rightarrow> guarded_resume release M ptr f w
      | GuardedAwaiting f \<Rightarrow> guarded_resume release M ptr f w
      | GuardedReturned \<Rightarrow> Return (PollPanic, GuardedReturned, w))"

definition guarded_drop ::
  "(com_ptr \<Rightarrow> 'w \<Rightarrow> (u32 \<times> 'w) outcome) \<Rightarrow> ('f, 'v, 'w) future_ops \<Rightarrow> com_ptr \<Rightarrow> 'f guarded \<Rightarrow> 'w
    \<Rightarrow> (bool \<times> 'w) outcome" where
  "guarded_drop release M ptr g w =
     (case g of
        GuardedUnresumed f \<Rightarrow> Return (fut_drop M f w)
      | GuardedAwaiting f \<Rightarrow> guarded_end release M ptr f w
      | GuardedReturned \<Rightarrow> Return (False, w))"

text \<open>
  The shim after it found the object. \<open>body\<close> is the method followed by \<open>try_pin\<close>, with its error
  converted to a status; \<open>spawn\<close> and \<open>spawn_error\<close> are \<open>spawn_async_operation_raw\<close> and
  \<open>spawn_async_operation_error_raw\<close> at the method's type, whose objects live beside the one at hand.
\<close>

definition async_shim ::
  "(com_ptr \<Rightarrow> ('t, 'a, 'x) world \<Rightarrow> (u32 \<times> ('t, 'a, 'x) world) outcome)
    \<Rightarrow> (com_ptr \<Rightarrow> ('t, 'a, 'x) world \<Rightarrow> (u32 \<times> ('t, 'a, 'x) world) outcome)
    \<Rightarrow> ('t \<Rightarrow> 'args \<Rightarrow> ('t, 'a, 'x) world \<Rightarrow> ((NTSTATUS + 'f) \<times> ('t, 'a, 'x) world) outcome)
    \<Rightarrow> (com_ptr \<Rightarrow> 'f guarded \<Rightarrow> ('t, 'a, 'x) world \<Rightarrow> ((NTSTATUS + com_ptr) \<times> ('t, 'a, 'x) world) outcome)
    \<Rightarrow> (NTSTATUS \<Rightarrow> ('t, 'a, 'x) world \<Rightarrow> ((NTSTATUS + com_ptr) \<times> ('t, 'a, 'x) world) outcome)
    \<Rightarrow> com_ptr \<Rightarrow> 't \<Rightarrow> 'args \<Rightarrow> ('t, 'a, 'x) world \<Rightarrow> (com_ptr \<times> ('t, 'a, 'x) world) outcome" where
  "async_shim add_ref release body spawn spawn_error primary inner_value args w =
     and_then (add_ref primary w) (\<lambda>(r, w1).
     and_then (body inner_value args w1) (\<lambda>(init, w2).
       case init of
         Inl status \<Rightarrow>
           and_then (release primary w2) (\<lambda>(r, w3).
           and_then (spawn_error status w3) (\<lambda>(op, w4).
             Return (case op of Inr ptr \<Rightarrow> ptr | Inl _ \<Rightarrow> NullPtr, w4)))
       | Inr future \<Rightarrow>
           and_then (guard_ptr_new primary) (\<lambda>guard.
           and_then (spawn (guard_ptr_as_ptr guard) (GuardedUnresumed future) w2) (\<lambda>(op, w3).
             case op of
               Inr ptr \<Rightarrow> Return (ptr, w3)
             | Inl _ \<Rightarrow> and_then (release primary w3) (\<lambda>(r, w4). Return (NullPtr, w4))))))"

text \<open>
  The primary shim counts through \<open>ComObject\<close>, whose counter is elsewhere than that of a \<open>ComObjectN\<close>.
\<close>

definition shim_async_method ::
  "('t, 'a, 'x) env
    \<Rightarrow> ('t \<Rightarrow> 'args \<Rightarrow> ('t, 'a, 'x) world \<Rightarrow> ((NTSTATUS + 'f) \<times> ('t, 'a, 'x) world) outcome)
    \<Rightarrow> (com_ptr \<Rightarrow> 'f guarded \<Rightarrow> ('t, 'a, 'x) world \<Rightarrow> ((NTSTATUS + com_ptr) \<times> ('t, 'a, 'x) world) outcome)
    \<Rightarrow> (NTSTATUS \<Rightarrow> ('t, 'a, 'x) world \<Rightarrow> ((NTSTATUS + com_ptr) \<times> ('t, 'a, 'x) world) outcome)
    \<Rightarrow> com_ptr \<Rightarrow> 'args \<Rightarrow> ('t, 'a, 'x) world \<Rightarrow> (com_ptr \<times> ('t, 'a, 'x) world) outcome" where
  "shim_async_method env body spawn spawn_error this args w =
     (if this = NullPtr then Return (NullPtr, w)
      else and_then (from_ptr this w) (\<lambda>(a, wrapper).
        if vtable wrapper \<noteq> ComObjectVtbl then Undefined
        else async_shim (shim_add_ref env) (shim_release env) body spawn spawn_error this (inner wrapper)
          args w))"

definition shim_async_method_secondary ::
  "('t, 'a, 'x) env
    \<Rightarrow> ('t \<Rightarrow> 'args \<Rightarrow> ('t, 'a, 'x) world \<Rightarrow> ((NTSTATUS + 'f) \<times> ('t, 'a, 'x) world) outcome)
    \<Rightarrow> (com_ptr \<Rightarrow> 'f guarded \<Rightarrow> ('t, 'a, 'x) world \<Rightarrow> ((NTSTATUS + com_ptr) \<times> ('t, 'a, 'x) world) outcome)
    \<Rightarrow> (NTSTATUS \<Rightarrow> ('t, 'a, 'x) world \<Rightarrow> ((NTSTATUS + com_ptr) \<times> ('t, 'a, 'x) world) outcome)
    \<Rightarrow> com_ptr \<Rightarrow> 'args \<Rightarrow> ('t, 'a, 'x) world \<Rightarrow> (com_ptr \<times> ('t, 'a, 'x) world) outcome" where
  "shim_async_method_secondary env body spawn spawn_error this args w =
     (if this = NullPtr then Return (NullPtr, w)
      else and_then (from_secondary_ptr this w) (\<lambda>(a, wrapper).
        async_shim (shim_add_ref_n env) (shim_release_n env) body spawn spawn_error (PrimaryPtr a)
          (inner wrapper) args w))"

section \<open>Objects of other allocators\<close>

text \<open>
  The allocators of an instantiation: the global one and values of one other type. A slot runs the shim
  of the object type it names. That shim takes the allocator of the object to be of the type's allocator
  parameter and frees the object with the type's \<open>LAYOUT\<close>. \<open>ComObject::<T, I>\<close>, as \<open>IUnknownVtbl::new\<close>
  writes it, leaves the parameter at its default, \<open>GlobalAllocator\<close>; \<open>ComObjectN::<T, P, S, A>\<close> names it.
\<close>

datatype 'al any_allocator = TheGlobal | Other 'al

datatype alloc_type = GlobalAllocatorTy | OtherAllocatorTy

fun object_alloc_type :: "alloc_type object_type \<Rightarrow> alloc_type" where
  "object_alloc_type (ComObjectTy vt) = GlobalAllocatorTy"
| "object_alloc_type (ComObjectNTy p s al) = al"

text \<open>Reading the last field of an object as an allocator: the global one has no bytes to read.\<close>

fun read_alloc :: "alloc_type \<Rightarrow> 'al any_allocator \<Rightarrow> 'al any_allocator outcome" where
  "read_alloc GlobalAllocatorTy al = Return TheGlobal"
| "read_alloc OtherAllocatorTy (Other al) = Return (Other al)"
| "read_alloc OtherAllocatorTy TheGlobal = Undefined"

fun alloc_layout :: "nat \<times> nat \<Rightarrow> alloc_type \<Rightarrow> nat \<times> nat" where
  "alloc_layout other_layout GlobalAllocatorTy = (0, 1)"
| "alloc_layout other_layout OtherAllocatorTy = other_layout"

text \<open>The fields of \<open>ComObject\<close> and \<open>ComObjectN\<close> by size and alignment, and \<open>LAYOUT\<close>.\<close>

definition com_object_fields :: "nat \<times> nat \<Rightarrow> nat \<times> nat \<Rightarrow> (nat \<times> nat) list" where
  "com_object_fields inner_layout al = [(8, 8), (16, 8), (4, 4), (16, 8), inner_layout, al]"

definition com_object_n_fields :: "nat \<Rightarrow> nat \<times> nat \<Rightarrow> nat \<times> nat \<Rightarrow> (nat \<times> nat) list" where
  "com_object_n_fields n inner_layout al =
     [(8, 8), (16 * n, 8), (16, 8), (4, 4), (16, 8), inner_layout, al]"

definition struct_layout :: "(nat \<times> nat) list \<Rightarrow> Layout" where
  "struct_layout flds = \<lparr>layout_size = of_nat (struct_size flds), layout_align = of_nat (struct_align flds)\<rparr>"

definition object_layout :: "nat \<times> nat \<Rightarrow> nat \<times> nat \<Rightarrow> alloc_type object_type \<Rightarrow> Layout" where
  "object_layout inner_layout other_layout ty =
     (let al = alloc_layout other_layout (object_alloc_type ty)
      in case ty of
        ComObjectTy vt \<Rightarrow> struct_layout (com_object_fields inner_layout al)
      | ComObjectNTy p s a \<Rightarrow> struct_layout (com_object_n_fields (length s) inner_layout al))"

text \<open>
  A call on the object at \<open>a\<close> by a shim of the object type \<open>ty\<close>. Where the object survives, its bytes are
  its own.
\<close>

definition seen_as ::
  "alloc_type object_type \<Rightarrow> addr
    \<Rightarrow> (('t, 'al any_allocator, 'x) world \<Rightarrow> (u32 \<times> ('t, 'al any_allocator, 'x) world) outcome)
    \<Rightarrow> ('t, 'al any_allocator, 'x) world \<Rightarrow> (u32 \<times> ('t, 'al any_allocator, 'x) world) outcome" where
  "seen_as ty a call w =
     and_then (ok_or_undefined (objects w a)) (\<lambda>ob.
     and_then (read_alloc (object_alloc_type ty) (alloc ob)) (\<lambda>al.
     and_then (call (put_object a (ob\<lparr>alloc := al\<rparr>) w)) (\<lambda>(r, w1).
       Return (r, case objects w1 a of
           None \<Rightarrow> w1
         | Some ob1 \<Rightarrow> put_object a (ob1\<lparr>alloc := alloc ob\<rparr>) w1))))"

fun run_release_slot ::
  "nat \<times> nat \<Rightarrow> nat \<times> nat \<Rightarrow> ('t, 'al any_allocator, 'x) env \<Rightarrow> alloc_type shim \<Rightarrow> com_ptr
    \<Rightarrow> ('t, 'al any_allocator, 'x) world \<Rightarrow> (u32 \<times> ('t, 'al any_allocator, 'x) world) outcome" where
  "run_release_slot il ol env (Shim_release (ComObjectTy vt)) (PrimaryPtr a) w =
     seen_as (ComObjectTy vt) a
       (shim_release (env\<lparr>env_layout := object_layout il ol (ComObjectTy vt)\<rparr>) (PrimaryPtr a)) w"
| "run_release_slot il ol env (Shim_release (ComObjectNTy p s al)) (PrimaryPtr a) w =
     seen_as (ComObjectNTy p s al) a
       (shim_release_n (env\<lparr>env_layout := object_layout il ol (ComObjectNTy p s al)\<rparr>) (PrimaryPtr a)) w"
| "run_release_slot il ol env (Shim_release_secondary (ComObjectNTy p s al) vt index) (SecondaryPtr a i) w =
     seen_as (ComObjectNTy p s al) a
       (shim_release_secondary (env\<lparr>env_layout := object_layout il ol (ComObjectNTy p s al)\<rparr>) (SecondaryPtr a i)) w"
| "run_release_slot il ol env slot this w = Undefined"

text \<open>\<open>Release\<close> is the third field of every vtable.\<close>

definition release_through ::
  "nat \<times> nat \<Rightarrow> nat \<times> nat \<Rightarrow> ('t, 'al any_allocator, 'x) env \<Rightarrow> alloc_type shim list \<Rightarrow> com_ptr
    \<Rightarrow> ('t, 'al any_allocator, 'x) world \<Rightarrow> (u32 \<times> ('t, 'al any_allocator, 'x) world) outcome" where
  "release_through il ol env slots this w = run_release_slot il ol env (slots ! 2) this w"

section \<open>Constructors of \<open>impl_com_object!\<close>\<close>

definition new_com ::
  "('t, GlobalAllocator, 'x) env \<Rightarrow> 't \<Rightarrow> ('t, GlobalAllocator, 'x) world
    \<Rightarrow> (NTSTATUS + com_ptr) \<times> ('t, GlobalAllocator, 'x) world" where
  "new_com env v w = com_object_new env v w"

definition new_com_rc ::
  "('t, GlobalAllocator, 'x) env \<Rightarrow> 't \<Rightarrow> ('t, GlobalAllocator, 'x) world
    \<Rightarrow> ((NTSTATUS + ComRc) \<times> ('t, GlobalAllocator, 'x) world) outcome" where
  "new_com_rc env v w = com_object_new_rc env v w"

definition new_com_in ::
  "('t, 'a, 'x) env \<Rightarrow> 't \<Rightarrow> 'a \<Rightarrow> ('t, 'a, 'x) world \<Rightarrow> (NTSTATUS + com_ptr) \<times> ('t, 'a, 'x) world" where
  "new_com_in env v al w = new_in env v al w"

definition new_com_rc_in ::
  "('t, 'a, 'x) env \<Rightarrow> 't \<Rightarrow> 'a \<Rightarrow> ('t, 'a, 'x) world
    \<Rightarrow> ((NTSTATUS + ComRc) \<times> ('t, 'a, 'x) world) outcome" where
  "new_com_rc_in env v al w = new_rc_in env v al w"

definition try_new_com ::
  "('t, GlobalAllocator, 'x) env \<Rightarrow> 't \<Rightarrow> ('t, GlobalAllocator, 'x) world
    \<Rightarrow> com_ptr option \<times> ('t, GlobalAllocator, 'x) world" where
  "try_new_com env v w = com_object_try_new env v w"

definition try_new_com_rc ::
  "('t, GlobalAllocator, 'x) env \<Rightarrow> 't \<Rightarrow> ('t, GlobalAllocator, 'x) world
    \<Rightarrow> (ComRc option \<times> ('t, GlobalAllocator, 'x) world) outcome" where
  "try_new_com_rc env v w = com_object_try_new_rc env v w"

definition try_new_com_in ::
  "('t, 'a, 'x) env \<Rightarrow> 't \<Rightarrow> 'a \<Rightarrow> ('t, 'a, 'x) world \<Rightarrow> com_ptr option \<times> ('t, 'a, 'x) world" where
  "try_new_com_in env v al w = try_new_in env v al w"

definition try_new_com_rc_in ::
  "('t, 'a, 'x) env \<Rightarrow> 't \<Rightarrow> 'a \<Rightarrow> ('t, 'a, 'x) world
    \<Rightarrow> (ComRc option \<times> ('t, 'a, 'x) world) outcome" where
  "try_new_com_rc_in env v al w = try_new_rc_in env v al w"

definition new_com_aggregated ::
  "('t, GlobalAllocator, 'x) env \<Rightarrow> 't \<Rightarrow> com_ptr \<Rightarrow> ('t, GlobalAllocator, 'x) world
    \<Rightarrow> (NTSTATUS + com_ptr) \<times> ('t, GlobalAllocator, 'x) world" where
  "new_com_aggregated env v outer w = com_object_new_aggregated env v outer w"

definition new_com_aggregated_in ::
  "('t, 'a, 'x) env \<Rightarrow> 't \<Rightarrow> com_ptr \<Rightarrow> 'a \<Rightarrow> ('t, 'a, 'x) world
    \<Rightarrow> (NTSTATUS + com_ptr) \<times> ('t, 'a, 'x) world" where
  "new_com_aggregated_in env v outer al w = new_aggregated_in env v outer al w"

definition try_new_com_aggregated ::
  "('t, GlobalAllocator, 'x) env \<Rightarrow> 't \<Rightarrow> com_ptr \<Rightarrow> ('t, GlobalAllocator, 'x) world
    \<Rightarrow> com_ptr option \<times> ('t, GlobalAllocator, 'x) world" where
  "try_new_com_aggregated env v outer w = com_object_try_new_aggregated env v outer w"

definition try_new_com_aggregated_in ::
  "('t, 'a, 'x) env \<Rightarrow> 't \<Rightarrow> com_ptr \<Rightarrow> 'a \<Rightarrow> ('t, 'a, 'x) world
    \<Rightarrow> com_ptr option \<times> ('t, 'a, 'x) world" where
  "try_new_com_aggregated_in env v outer al w = try_new_aggregated_in env v outer al w"

end
