(* ===== verification/Async_Properties.thy ===== *)
theory Async_Properties
  imports Async_Com
begin

text \<open>
  The life of an asynchronous operation: its object lives as long as a client or the task needs it,
  its result is published once and read back, and what can go wrong with operations that are spawned
  in an error state.
\<close>

section \<open>The object of an operation\<close>

definition op_alive ::
  "('v, 'x) op_env \<Rightarrow> addr \<Rightarrow> nat \<Rightarrow> nat \<Rightarrow> ('v, 'x) op_world
    \<Rightarrow> ('v AsyncOperationTask, GlobalAllocator) ComObject \<Rightarrow> bool" where
  "op_alive env a k n w ob \<longleftrightarrow>
     alive_with env a k n w \<and> objects w a = Some ob \<and> vtable ob = ComObjectVtbl \<and> \<not> delegates ob"

text \<open>What code that does not know the operation does to its object: nothing.\<close>

definition keeps_object :: "addr \<Rightarrow> ('t, 'a, 'x) world \<Rightarrow> ('t, 'a, 'x) world \<Rightarrow> bool" where
  "keeps_object a w w' \<longleftrightarrow>
     objects w' a = objects w a \<and> drops a w' = drops a w \<and> deallocs a w' = deallocs a w"

lemma keeps_object_refl [simp]: "keeps_object a w w"
  by (simp add: keeps_object_def)

lemma keeps_object_trans: "keeps_object a w w1 \<Longrightarrow> keeps_object a w1 w2 \<Longrightarrow> keeps_object a w w2"
  by (simp add: keeps_object_def)

lemma op_alive_keeps: "op_alive env a k n w ob \<Longrightarrow> keeps_object a w w' \<Longrightarrow> op_alive env a k n w' ob"
  by (auto simp: op_alive_def alive_with_def keeps_object_def)

lemma op_alive_put:
  assumes "op_alive env a k n w ob" and "ref_count ob' = of_nat m" and "0 < m"
    and "m \<le> refcount_cap (env_build env)" and "wf_object a ob'" and "vtable ob' = vtable ob"
    and "delegates ob' = delegates ob"
  shows "op_alive env a k m (put_object a ob' w) ob'"
  using assms by (auto simp: op_alive_def alive_with_def)

lemma op_shims:
  assumes "op_alive env a k n w ob"
  shows "shim_add_ref env (PrimaryPtr a) w = panic_guard (add_ref_count env a w)"
    and "shim_release env (PrimaryPtr a) w = panic_guard (release_own env a w)"
  using assms
  by (simp_all add: op_alive_def shim_add_ref_def shim_release_def from_ptr_def delegating_add_ref_own
      delegating_release_own)

lemma op_add_ref:
  assumes "op_alive env a k n w ob" and "n < refcount_cap (env_build env)"
  shows "\<exists>ob'. shim_add_ref env (PrimaryPtr a) w = Return (of_nat (n + 1), put_object a ob' w)
    \<and> op_alive env a k (n + 1) (put_object a ob' w) ob' \<and> inner ob' = inner ob"
proof -
  have ob: "objects w a = Some ob" "ref_count ob = of_nat n" "wf_object a ob"
    using assms(1) by (auto simp: op_alive_def alive_with_def)
  let ?ob = "ob\<lparr>ref_count := of_nat (n + 1)\<rparr>"
  have "shim_add_ref env (PrimaryPtr a) w = Return (of_nat (n + 1), put_object a ?ob w)"
    using op_shims(1) [OF assms(1)] ob refcount.add_of_nat [OF assms(2)] by (simp add: add_ref_count_def)
  moreover have "op_alive env a k (n + 1) (put_object a ?ob w) ?ob"
    by (rule op_alive_put [OF assms(1)]) (use assms(2) ob in auto)
  ultimately show ?thesis by auto
qed

lemma op_release_shared:
  assumes "op_alive env a k (Suc n) w ob" and "0 < n"
  shows "\<exists>ob'. shim_release env (PrimaryPtr a) w = Return (of_nat n, put_object a ob' w)
    \<and> op_alive env a k n (put_object a ob' w) ob' \<and> inner ob' = inner ob"
proof -
  have al: "alive_with env a k (Suc n) w" and r: "n \<le> refcount_cap (env_build env)"
    using assms(1) by (auto simp: op_alive_def alive_with_def)
  obtain ob1 where "objects w a = Some ob1" "wf_object a ob1"
    "sub_ref_count env a w = Return (of_nat n, put_object a (ob1\<lparr>ref_count := of_nat n\<rparr>) w)"
    using al by (rule sub_ref_count_alive)
  then have ob: "wf_object a ob"
    "sub_ref_count env a w = Return (of_nat n, put_object a (ob\<lparr>ref_count := of_nat n\<rparr>) w)"
    using assms(1) by (auto simp: op_alive_def)
  let ?ob = "ob\<lparr>ref_count := of_nat n\<rparr>"
  have "shim_release env (PrimaryPtr a) w = Return (of_nat n, put_object a ?ob w)"
    using op_shims(2) [OF assms(1)] ob(2) of_nat_positive_count [OF assms(2) r]
    by (simp add: release_own_def)
  moreover have "op_alive env a k n (put_object a ?ob w) ?ob"
    by (rule op_alive_put [OF assms(1)]) (use assms(2) r ob(1) in auto)
  ultimately show ?thesis by auto
qed

lemma op_release_last:
  assumes "op_alive env a k 1 w ob"
  shows "\<exists>w'. shim_release env (PrimaryPtr a) w = Return (0, w') \<and> dead_after a k w'"
  using op_shims(2) [OF assms] release_own_last [of env a k w] assms by (auto simp: op_alive_def)

lemma op_update_alive:
  assumes "op_alive env a k n w ob"
  shows "\<exists>ob'. op_update (PrimaryPtr a) g w = Return (put_object a ob' w)
    \<and> op_alive env a k n (put_object a ob' w) ob' \<and> inner ob' = g (inner ob)"
proof -
  let ?ob = "ob\<lparr>inner := g (inner ob)\<rparr>"
  have ob: "ref_count ob = of_nat n" "wf_object a ob" "0 < n" "n \<le> refcount_cap (env_build env)"
    "objects w a = Some ob"
    using assms by (auto simp: op_alive_def alive_with_def)
  have "op_alive env a k n (put_object a ?ob w) ?ob"
    by (rule op_alive_put [OF assms]) (use ob in \<open>auto simp: wf_object_def delegates_def\<close>)
  then show ?thesis using ob(5) by (auto simp: op_update_def from_ptr_def)
qed

text \<open>Futures and cancellation sources that do not know the operation.\<close>

definition op_neutral ::
  "addr \<Rightarrow> ('f, 'v, ('t, 'a, 'x) world) future_ops \<Rightarrow> (('t, 'a, 'x) world \<Rightarrow> bool \<times> ('t, 'a, 'x) world)
    \<Rightarrow> bool" where
  "op_neutral a M takec \<longleftrightarrow>
     (\<forall>f w. keeps_object a w (snd (snd (fut_poll M f w))))
     \<and> (\<forall>f w. keeps_object a w (snd (fut_drop M f w))) \<and> (\<forall>w. keeps_object a w (snd (takec w)))"

lemma calm_empty_async: "calm_drops empty_async"
  by (simp add: calm_drops_def empty_async_def)

lemma cleanup_keeps_world:
  assumes "state this = RunningCleanup"
    and "cancellable_poll M empty_async takec this w = Return (r, this', w')"
  shows "w' = w"
  using assms by (cases "cleanup this") (auto simp: cancellable_poll.simps empty_async_def poll_slot_def)

lemma cancellable_poll_neutral:
  assumes "op_neutral a M takec"
    and "cancellable_poll M empty_async takec this w = Return (r, this', w')"
  shows "keeps_object a w w'"
proof (cases "state this")
  case RunningMain
  obtain b w1 where t: "takec w = (b, w1)" by fastforce
  then have w1: "keeps_object a w w1" using assms(1) by (metis op_neutral_def snd_conv)
  have d: "keeps_object a v v'" if "fut_drop M m v = (p, v')" for m v p v'
    using assms(1) that by (metis op_neutral_def snd_conv)
  obtain m where m: "main this = Live m"
    using assms(2) RunningMain t
    by (cases "main this"; cases b) (auto simp: cancellable_poll.simps [of _ _ _ this] drop_slot_def poll_slot_def)
  show ?thesis
  proof (cases b)
    case True
    obtain p w2 where w2: "fut_drop M m w1 = (p, w2)" by fastforce
    have "w' = w2"
    proof (cases p)
      case False
      then have "cancellable_poll M empty_async takec (this\<lparr>main := Dropped, state := RunningCleanup\<rparr>) w2
          = Return (r, this', w')"
        using assms(2) RunningMain t True m w2 by (simp add: cancellable_poll.simps [of _ _ _ this])
      then show ?thesis by (rule cleanup_keeps_world [rotated]) simp
    qed (use assms(2) RunningMain t True m w2 in \<open>simp add: cancellable_poll.simps [of _ _ _ this]\<close>)
    then show ?thesis using w1 d [OF w2] keeps_object_trans by blast
  next
    case False
    obtain q m' w2 where p: "fut_poll M m w1 = (q, m', w2)" by (metis prod_cases3)
    then have w2: "keeps_object a w1 w2" using assms(1) by (metis op_neutral_def snd_conv)
    obtain p1 w3 where w3: "fut_drop M m' w2 = (p1, w3)" by fastforce
    have "w' = w2 \<or> w' = w3"
      using assms(2) RunningMain t False m p w3
      by (auto simp: cancellable_poll.simps [of _ _ _ this] empty_async_def drop_slot_def
          split: poll_result.splits if_splits slot.splits)
    then show ?thesis using w1 w2 d [OF w3] keeps_object_trans by blast
  qed
next
  case RunningCleanup
  then show ?thesis using cleanup_keeps_world [OF _ assms(2)] by simp
next
  case Done
  then show ?thesis using assms(2) by (simp add: cancellable_poll.simps)
qed

lemma cancellable_drop_ok:
  assumes "op_neutral a M takec" and "wf_cancellable this" and "calm_drops M"
  shows "\<exists>this' w'. cancellable_drop M empty_async this w = Return (False, this', w') \<and> keeps_object a w w'"
proof -
  have d: "keeps_object a v (snd (fut_drop M m v))" "\<not> fst (fut_drop M m v)" for m v
    using assms(1,3) by (auto simp: op_neutral_def calm_drops_def)
  show ?thesis
    using assms(2) d
    by (cases "state this"; cases "main this"; cases "cleanup this")
      (auto simp: wf_cancellable_def cancellable_drop_def empty_async_def case_prod_beta)
qed

section \<open>Reachable states\<close>

text \<open>
  The executor polls the task until it returns and may drop it after a poll; clients take and give
  back references. \<open>oc_task\<close> is \<open>None\<close> once the task was dropped, \<open>oc_clients\<close> counts the references
  of clients.
\<close>

record ('f, 'v, 'x) op_config =
  oc_world :: "('v, 'x) op_world"
  oc_task :: "'f async_task option"
  oc_clients :: nat

fun task_live :: "'f async_task option \<Rightarrow> bool" where
  "task_live (Some (Unresumed f)) = True"
| "task_live (Some (Awaiting c)) = True"
| "task_live _ = False"

inductive op_reach ::
  "('v, 'x) op_env \<Rightarrow> ('f, 'v, ('v, 'x) op_world) future_ops
    \<Rightarrow> (('v, 'x) op_world \<Rightarrow> bool \<times> ('v, 'x) op_world) \<Rightarrow> addr \<Rightarrow> ('v, 'x) op_world
    \<Rightarrow> ('f, 'v, 'x) op_config \<Rightarrow> bool"
  for env M takec a w0 where
  op_spawned: "com_object_new env new_state w0 = (Inr (PrimaryPtr a), w1)
    \<Longrightarrow> shim_add_ref env (PrimaryPtr a) w1 = Return (r, w2)
    \<Longrightarrow> op_reach env M takec a w0 \<lparr>oc_world = w2, oc_task = Some (Unresumed f), oc_clients = 1\<rparr>"
| op_polled: "op_reach env M takec a w0 c \<Longrightarrow> oc_task c = Some t \<Longrightarrow> task_live (Some t)
    \<Longrightarrow> async_task_poll env M takec (PrimaryPtr a) t (oc_world c) = Return (p, t', w')
    \<Longrightarrow> op_reach env M takec a w0 (c\<lparr>oc_task := Some t', oc_world := w'\<rparr>)"
| op_dropped: "op_reach env M takec a w0 c \<Longrightarrow> oc_task c = Some t \<Longrightarrow> \<forall>f. t \<noteq> Unresumed f
    \<Longrightarrow> async_task_drop env M (PrimaryPtr a) t (oc_world c) = Return (p, w')
    \<Longrightarrow> op_reach env M takec a w0 (c\<lparr>oc_task := None, oc_world := w'\<rparr>)"
| op_client_add: "op_reach env M takec a w0 c \<Longrightarrow> 0 < oc_clients c
    \<Longrightarrow> oc_clients c + 2 \<le> refcount_cap (env_build env)
    \<Longrightarrow> call_AddRef env (PrimaryPtr a) (oc_world c) = Return (r, w')
    \<Longrightarrow> op_reach env M takec a w0 (c\<lparr>oc_clients := oc_clients c + 1, oc_world := w'\<rparr>)"
| op_client_release: "op_reach env M takec a w0 c \<Longrightarrow> 0 < oc_clients c
    \<Longrightarrow> call_Release env (PrimaryPtr a) (oc_world c) = Return (r, w')
    \<Longrightarrow> op_reach env M takec a w0 (c\<lparr>oc_clients := oc_clients c - 1, oc_world := w'\<rparr>)"

text \<open>An operation is published as completed only with its result in place.\<close>

definition op_state_ok :: "'f async_task option \<Rightarrow> 'v AsyncOperationTask \<Rightarrow> bool" where
  "op_state_ok t v \<longleftrightarrow>
     (task_live t \<longrightarrow> at_status v = as_raw Started)
     \<and> (at_status v = as_raw Started \<or> at_status v = as_raw Completed \<and> at_result v \<noteq> None
        \<or> at_status v = as_raw Canceled \<and> at_error v = STATUS_CANCELLED)"

definition task_ok :: "'f async_task option \<Rightarrow> bool" where
  "task_ok t \<longleftrightarrow> (\<forall>c. t = Some (Awaiting c) \<longrightarrow> wf_cancellable c \<and> state c \<noteq> Done)"

definition op_inv ::
  "('v, 'x) op_env \<Rightarrow> addr \<Rightarrow> nat \<Rightarrow> nat \<Rightarrow> 'f async_task option \<Rightarrow> ('v, 'x) op_world \<Rightarrow> bool" where
  "op_inv env a k n t w \<longleftrightarrow>
     task_ok t \<and> n < refcount_cap (env_build env)
     \<and> (let refs = n + (if task_live t then 1 else 0)
        in if refs = 0 then dead_after a k w
           else \<exists>ob. op_alive env a k refs w ob \<and> op_state_ok t (inner ob))"

lemma op_inv_alive:
  assumes "op_inv env a k n t w" and "0 < n \<or> task_live t"
  shows "\<exists>ob. op_alive env a k (n + (if task_live t then 1 else 0)) w ob \<and> op_state_ok t (inner ob)"
  using assms by (auto simp: op_inv_def Let_def split: if_splits)

text \<open>The guard or a client gives a reference back.\<close>

lemma op_release_ok:
  assumes "op_alive env a k (n + 1) w ob" and "n < refcount_cap (env_build env)" and "op_state_ok t (inner ob)"
    and "task_ok t" and "n = m + (if task_live t then 1 else 0)"
  shows "\<exists>r w'. shim_release env (PrimaryPtr a) w = Return (r, w') \<and> op_inv env a k m t w'
    \<and> (0 < n \<longrightarrow> (\<exists>ob'. objects w' a = Some ob' \<and> inner ob' = inner ob))"
proof (cases "n = 0")
  case True
  then show ?thesis
    using op_release_last [of env a k w ob] assms by (auto simp: op_inv_def split: if_splits)
next
  case False
  then obtain ob' where "shim_release env (PrimaryPtr a) w = Return (of_nat n, put_object a ob' w)"
    "op_alive env a k n (put_object a ob' w) ob'" "inner ob' = inner ob"
    using op_release_shared [of env a k n w ob] assms(1) by auto
  then show ?thesis using assms False by (auto simp: op_inv_def Let_def)
qed

lemma op_resume_ok:
  assumes "op_neutral a M takec" and "calm_drops M" and "wf_cancellable c" and "state c \<noteq> Done"
    and "op_alive env a k (n + 1) w ob" and "n < refcount_cap (env_build env)"
    and "at_status (inner ob) = as_raw Started"
  shows "\<exists>p t' w'. async_task_resume env M takec (PrimaryPtr a) c w = Return (p, t', w')
    \<and> op_inv env a k n (Some t') w'
    \<and> (\<forall>v c1 w1. cancellable_poll M empty_async takec c w = Return (PollReady (Some v), c1, w1) \<longrightarrow> 0 < n \<longrightarrow>
        (\<exists>ob'. objects w' a = Some ob' \<and> at_status (inner ob') = as_raw Completed \<and> at_result (inner ob') = Some v))"
proof -
  obtain r c1 w1 where p: "cancellable_poll M empty_async takec c w = Return (r, c1, w1)"
    "wf_cancellable c1" "(\<exists>v. r = PollReady v) = (state c1 = Done)"
    using cancellable_poll_wf [OF assms(3,2) calm_empty_async, of takec w] assms(4) by auto
  have a1: "op_alive env a k (n + 1) w1 ob"
    using op_alive_keeps [OF assms(5) cancellable_poll_neutral [OF assms(1) p(1)]] .
  show ?thesis
  proof (cases r)
    case (PollReady result)
    let ?g = "case result of Some value \<Rightarrow> store_result value | None \<Rightarrow> store_canceled"
    obtain ob2 where u: "op_update (PrimaryPtr a) ?g w1 = Return (put_object a ob2 w1)"
      "op_alive env a k (n + 1) (put_object a ob2 w1) ob2" "inner ob2 = ?g (inner ob)"
      using op_update_alive [OF a1] by blast
    have st: "op_state_ok (Some (Returned :: 'a async_task)) (inner ob2)"
      using u(3) by (auto simp: op_state_ok_def store_result_def store_canceled_def split: option.splits)
    obtain x w3 where "shim_release env (PrimaryPtr a) (put_object a ob2 w1) = Return (x, w3)"
      "op_inv env a k n (Some (Returned :: 'a async_task)) w3"
      "0 < n \<longrightarrow> (\<exists>ob'. objects w3 a = Some ob' \<and> inner ob' = inner ob2)"
      using op_release_ok [OF u(2) assms(6) st, of n] by (auto simp: task_ok_def)
    then show ?thesis
      using p(1) PollReady u(1,3)
      by (auto simp: async_task_resume_def task_guard_drop_def store_result_def split: option.splits)
  next
    case PollPending
    then have "state c1 \<noteq> Done" using p(3) by auto
    then have "op_inv env a k n (Some (Awaiting c1)) w1"
      using a1 p(2) assms(6,7) by (auto simp: op_inv_def task_ok_def op_state_ok_def)
    then show ?thesis using p(1) PollPending by (simp add: async_task_resume_def)
  next
    case PollPanic
    obtain c2 w2 where d: "cancellable_drop M empty_async c1 w1 = Return (False, c2, w2)" "keeps_object a w1 w2"
      using cancellable_drop_ok [OF assms(1) p(2) assms(2)] by blast
    have a2: "op_alive env a k (n + 1) w2 ob" using op_alive_keeps [OF a1 d(2)] .
    have "op_state_ok (Some (Returned :: 'a async_task)) (inner ob)" using assms(7) by (simp add: op_state_ok_def)
    from op_release_ok [OF a2 assms(6) this, of n] show ?thesis
      using p(1) PollPanic d(1) by (auto simp: async_task_resume_def task_guard_drop_def task_ok_def)
  qed
qed

lemma op_poll_ok:
  assumes "op_neutral a M takec" and "calm_drops M" and "op_inv env a k n (Some t) w" and "task_live (Some t)"
  shows "\<exists>p t' w'. async_task_poll env M takec (PrimaryPtr a) t w = Return (p, t', w')
    \<and> op_inv env a k n (Some t') w'"
proof -
  obtain ob where ob: "op_alive env a k (n + 1) w ob" "at_status (inner ob) = as_raw Started"
    using op_inv_alive [OF assms(3)] assms(4) by (auto simp: op_state_ok_def)
  have n: "n < refcount_cap (env_build env)" using assms(3) by (simp add: op_inv_def)
  show ?thesis
  proof (cases t)
    case (Unresumed f)
    have "wf_cancellable (try_finally f ())" "state (try_finally f ()) \<noteq> Done"
      by (simp_all add: try_finally_def cancellable_new_def wf_cancellable_def)
    then show ?thesis
      using op_resume_ok [OF assms(1,2) _ _ ob(1) n ob(2), of "try_finally f ()"] Unresumed
      by (auto simp: async_task_poll_def)
  next
    case (Awaiting c)
    then have "wf_cancellable c" "state c \<noteq> Done" using assms(3) by (auto simp: op_inv_def task_ok_def)
    then show ?thesis
      using op_resume_ok [OF assms(1,2) _ _ ob(1) n ob(2), of c] Awaiting by (auto simp: async_task_poll_def)
  qed (use assms(4) in simp)
qed

lemma op_drop_ok:
  assumes "op_neutral a M takec" and "calm_drops M" and "op_inv env a k n (Some t) w" and "\<forall>f. t \<noteq> Unresumed f"
  shows "\<exists>w'. async_task_drop env M (PrimaryPtr a) t w = Return (False, w')
    \<and> op_inv env a k n (None :: 'f async_task option) w'"
proof (cases t)
  case (Awaiting c)
  obtain ob where ob: "op_alive env a k (n + 1) w ob" "at_status (inner ob) = as_raw Started"
    using op_inv_alive [OF assms(3)] Awaiting by (auto simp: op_state_ok_def)
  have n: "n < refcount_cap (env_build env)" "wf_cancellable c"
    using assms(3) Awaiting by (auto simp: op_inv_def task_ok_def)
  obtain c1 w1 where d: "cancellable_drop M empty_async c w = Return (False, c1, w1)" "keeps_object a w w1"
    using cancellable_drop_ok [OF assms(1) n(2) assms(2)] by blast
  have a1: "op_alive env a k (n + 1) w1 ob" using op_alive_keeps [OF ob(1) d(2)] .
  have "op_state_ok (None :: 'f async_task option) (inner ob)" using ob(2) by (simp add: op_state_ok_def)
  from op_release_ok [OF a1 n(1) this, of n] show ?thesis
    using d(1) Awaiting by (auto simp: async_task_drop_def task_guard_drop_def task_ok_def)
next
  case Returned
  then show ?thesis
    using assms(3) by (auto simp: async_task_drop_def op_inv_def task_ok_def op_state_ok_def Let_def)
qed (use assms(4) in simp)

text \<open>The surroundings: destructor and allocator of the object, as its owners may expect them.\<close>

definition op_env_ok :: "('v, 'x) op_env \<Rightarrow> addr \<Rightarrow> bool" where
  "op_env_ok env a \<longleftrightarrow>
     well_behaved env a \<and> (\<forall>w. keeps_object a w (snd (env_alloc env GlobalAllocator (env_layout env) w)))"

lemma op_created:
  assumes "op_env_ok env a" and "drops a w0 = deallocs a w0"
    and "com_object_new env v w0 = (Inr p, w1)" and "p = PrimaryPtr a"
  shows "\<exists>ob. op_alive env a (drops a w0) 1 w1 ob \<and> inner ob = v"
proof -
  obtain b w where al: "env_alloc env GlobalAllocator (env_layout env) w0 = (b, w)" by fastforce
  let ?ob = "init_non_delegating_ptr a \<lparr>vtable = ComObjectVtbl, secondaries = [],
      non_delegating_unknown = \<lparr>nd_vtable = NonDelegatingVtbl, nd_parent = NullPtr\<rparr>,
      ref_count = 1, outer_unknown = None, inner = v, alloc = GlobalAllocator\<rparr>"
  have w1: "w1 = put_object a ?ob w" "b = a"
    using assms(3,4) al by (auto simp: com_object_new_def new_in_def try_new_in_def Let_def split: if_splits)
  have "keeps_object a w0 w" using assms(1) al by (metis op_env_ok_def snd_conv)
  then have "op_alive env a (drops a w0) 1 w1 ?ob"
    using assms(1,2) w1 refcount_cap_positive [of "env_build env"] wf_new_object [of a 1 None v GlobalAllocator]
    by (auto simp: op_alive_def alive_with_def op_env_ok_def keeps_object_def delegates_def
        init_non_delegating_ptr_def)
  then show ?thesis using w1 by auto
qed

lemma op_calls:
  assumes "op_alive env a k n w ob"
  shows "call_AddRef env (PrimaryPtr a) w = shim_add_ref env (PrimaryPtr a) w"
    and "call_Release env (PrimaryPtr a) w = shim_release env (PrimaryPtr a) w"
  using assms by (simp_all add: op_alive_def call_AddRef_def call_Release_def read_vtbl_def)

lemma op_spawned_inv:
  assumes "op_env_ok env a" and "drops a w0 = deallocs a w0"
    and "com_object_new env new_state w0 = (Inr (PrimaryPtr a), w1)"
    and "shim_add_ref env (PrimaryPtr a) w1 = Return (r, w2)"
  shows "op_inv env a (drops a w0) 1 (Some (Unresumed f)) w2"
proof -
  have cap: "1 < refcount_cap (env_build env)" by (simp add: refcount_cap_def)
  obtain ob where ob: "op_alive env a (drops a w0) 1 w1 ob" "inner ob = new_state"
    using op_created [OF assms(1-3)] by auto
  from op_add_ref [OF ob(1) cap] show ?thesis
    using assms(4) ob(2) cap
    by (auto simp: op_inv_def task_ok_def op_state_ok_def new_state_def numeral_2_eq_2)
qed

text \<open>Clients take and give back references whatever the state of the task is.\<close>

lemma op_client_add_ok:
  assumes "op_inv env a k n t w" and "0 < n" and "n + 2 \<le> refcount_cap (env_build env)"
  shows "\<exists>r w'. call_AddRef env (PrimaryPtr a) w = Return (r, w') \<and> op_inv env a k (n + 1) t w'"
proof -
  let ?l = "if task_live t then 1 else 0"
  obtain ob where ob: "op_alive env a k (n + ?l) w ob" "op_state_ok t (inner ob)"
    using op_inv_alive [OF assms(1)] assms(2) by blast
  have "n + ?l < refcount_cap (env_build env)" using assms(3) by simp
  then obtain ob' where ob': "call_AddRef env (PrimaryPtr a) w = Return (of_nat (n + ?l + 1), put_object a ob' w)"
    "op_alive env a k (n + ?l + 1) (put_object a ob' w) ob'" "inner ob' = inner ob"
    using op_add_ref [OF ob(1)] op_calls(1) [OF ob(1)] by auto
  moreover have "op_inv env a k (n + 1) t (put_object a ob' w)"
    using assms(1,3) ob'(2,3) ob(2) by (auto simp: op_inv_def)
  ultimately show ?thesis by blast
qed

lemma op_client_release_ok:
  assumes "op_inv env a k n t w" and "0 < n"
  shows "\<exists>r w'. call_Release env (PrimaryPtr a) w = Return (r, w') \<and> op_inv env a k (n - 1) t w'"
proof -
  let ?l = "if task_live t then 1 else 0"
  have i: "task_ok t" "n < refcount_cap (env_build env)" using assms(1) by (simp_all add: op_inv_def)
  obtain ob where ob: "op_alive env a k (n + ?l) w ob" "op_state_ok t (inner ob)"
    using op_inv_alive [OF assms(1)] assms(2) by blast
  then have "op_alive env a k (n - 1 + ?l + 1) w ob" using assms(2) by simp
  moreover have "n - 1 + ?l < refcount_cap (env_build env)" using i(2) assms(2) by auto
  ultimately show ?thesis
    using op_release_ok [of env a k "n - 1 + ?l" w ob t "n - 1"] i(1) ob op_calls(2) [OF ob(1)] by auto
qed

lemma op_reach_inv:
  assumes "op_env_ok env a" and "op_neutral a M takec" and "calm_drops M" and "drops a w0 = deallocs a w0"
    and "op_reach env M takec a w0 c"
  shows "op_inv env a (drops a w0) (oc_clients c) (oc_task c) (oc_world c)"
  using assms(5)
proof (induction rule: op_reach.induct)
  case (op_spawned w1 r w2 f)
  then show ?case using op_spawned_inv [OF assms(1,4) op_spawned.hyps] by simp
next
  case (op_polled c t p t' w')
  then show ?case using op_poll_ok [OF assms(2,3), of env "drops a w0" "oc_clients c" t] by force
next
  case (op_dropped c t p w')
  then show ?case using op_drop_ok [OF assms(2,3), of env "drops a w0" "oc_clients c" t] by force
next
  case (op_client_add c r w')
  then show ?case using op_client_add_ok [OF op_client_add.IH] by auto
next
  case (op_client_release c r w')
  then show ?case using op_client_release_ok [OF op_client_release.IH] by auto
qed

lemma op_answers:
  assumes "op_alive env a k n w ob"
  shows "get_status_raw (PrimaryPtr a) w = Return (Inr (load_status (inner ob)))"
    and "op_state_ok t (inner ob) \<Longrightarrow> get_result_raw (PrimaryPtr a) w = Return
      (case load_status (inner ob) of
         Completed \<Rightarrow> Inr (the (at_result (inner ob)))
       | Started \<Rightarrow> Inl STATUS_PENDING
       | _ \<Rightarrow> Inl STATUS_CANCELLED)"
  using assms
  by (auto simp: op_alive_def get_status_raw_def get_result_raw_def read_vtbl_def shim_get_status_def
      shim_get_result_def from_ptr_def load_status_def load_error_def read_result_def op_state_ok_def
      async_status_from_raw_def status_defs)

section \<open>Properties\<close>

text \<open>C18: The life of an asynchronous operation, for every executor that polls the task and drops it
  after a poll, and every way in which clients take and give back references: the object has exactly
  one reference per client and one for a task that is still running, and is dropped and freed exactly
  once when none is left; no poll touches freed memory; a client always reads a status, \<open>STATUS_PENDING\<close>
  while the task runs, and otherwise the result, never an uninitialised one, or \<open>STATUS_CANCELLED\<close>; and
  when the future answers \<open>v\<close>, that poll publishes \<open>v\<close> as the result.\<close>

theorem async_operation_protocol:
  assumes "op_env_ok env a" and "op_neutral a M takec" and "calm_drops M" and "drops a w0 = deallocs a w0"
    and "op_reach env M takec a w0 c"
  shows "(case objects (oc_world c) a of
        None \<Rightarrow> oc_clients c = 0 \<and> \<not> task_live (oc_task c)
          \<and> drops a (oc_world c) = drops a w0 + 1 \<and> deallocs a (oc_world c) = deallocs a w0 + 1
      | Some ob \<Rightarrow> ref_count ob = of_nat (oc_clients c + (if task_live (oc_task c) then 1 else 0))
          \<and> (0 < oc_clients c \<or> task_live (oc_task c)) \<and> drops a (oc_world c) = drops a w0)
    \<and> (\<forall>t. oc_task c = Some t \<longrightarrow> task_live (Some t) \<longrightarrow>
         returns (async_task_poll env M takec (PrimaryPtr a) t (oc_world c)))
    \<and> (0 < oc_clients c \<longrightarrow> (\<exists>st v. get_status_raw (PrimaryPtr a) (oc_world c) = Return (Inr st)
         \<and> (task_live (oc_task c) \<longrightarrow> st = Started)
         \<and> get_result_raw (PrimaryPtr a) (oc_world c) = Return (case st of
             Completed \<Rightarrow> Inr v | Started \<Rightarrow> Inl STATUS_PENDING | _ \<Rightarrow> Inl STATUS_CANCELLED)))
    \<and> (\<forall>cc v c1 w1. 0 < oc_clients c \<longrightarrow> oc_task c = Some (Awaiting cc) \<longrightarrow>
         cancellable_poll M empty_async takec cc (oc_world c) = Return (PollReady (Some v), c1, w1) \<longrightarrow>
         (\<exists>p t' w'. async_task_poll env M takec (PrimaryPtr a) (Awaiting cc) (oc_world c) = Return (p, t', w')
            \<and> get_result_raw (PrimaryPtr a) w' = Return (Inr v)))"
proof -
  let ?w = "oc_world c" let ?k = "drops a w0"
  have inv: "op_inv env a ?k (oc_clients c) (oc_task c) ?w" using op_reach_inv [OF assms] .
  have "case objects ?w a of
        None \<Rightarrow> oc_clients c = 0 \<and> \<not> task_live (oc_task c) \<and> drops a ?w = ?k + 1 \<and> deallocs a ?w = deallocs a w0 + 1
      | Some ob \<Rightarrow> ref_count ob = of_nat (oc_clients c + (if task_live (oc_task c) then 1 else 0))
          \<and> (0 < oc_clients c \<or> task_live (oc_task c)) \<and> drops a ?w = ?k"
    using inv assms(4) by (auto simp: op_inv_def op_alive_def alive_with_def dead_after_def Let_def
        split: if_splits)
  moreover have "returns (async_task_poll env M takec (PrimaryPtr a) t ?w)"
    if "oc_task c = Some t" "task_live (Some t)" for t
    using op_poll_ok [OF assms(2,3), of env ?k "oc_clients c" t ?w] inv that by auto
  moreover have "\<exists>st v. get_status_raw (PrimaryPtr a) ?w = Return (Inr st)
         \<and> (task_live (oc_task c) \<longrightarrow> st = Started)
         \<and> get_result_raw (PrimaryPtr a) ?w = Return (case st of
             Completed \<Rightarrow> Inr v | Started \<Rightarrow> Inl STATUS_PENDING | _ \<Rightarrow> Inl STATUS_CANCELLED)"
    if q: "0 < oc_clients c"
  proof -
    obtain n ob where ob: "op_alive env a ?k n ?w ob" "op_state_ok (oc_task c) (inner ob)"
      using op_inv_alive [OF inv] q by blast
    show ?thesis
      using op_answers(1) [OF ob(1)] op_answers(2) [OF ob] ob(2)
      by (auto simp: op_state_ok_def load_status_def async_status_from_raw_def)
  qed
  moreover have "\<exists>p t' w'. async_task_poll env M takec (PrimaryPtr a) (Awaiting cc) ?w = Return (p, t', w')
      \<and> get_result_raw (PrimaryPtr a) w' = Return (Inr v)"
    if q: "0 < oc_clients c" "oc_task c = Some (Awaiting cc)"
      "cancellable_poll M empty_async takec cc ?w = Return (PollReady (Some v), c1, w1)" for cc v c1 w1
  proof -
    obtain ob where ob: "op_alive env a ?k (oc_clients c + 1) ?w ob" "at_status (inner ob) = as_raw Started"
      using op_inv_alive [OF inv] q(2) by (auto simp: op_state_ok_def)
    have wf: "wf_cancellable cc" "state cc \<noteq> Done" "oc_clients c < refcount_cap (env_build env)"
      using inv q(2) by (auto simp: op_inv_def task_ok_def)
    obtain p t' w' where r: "async_task_resume env M takec (PrimaryPtr a) cc ?w = Return (p, t', w')"
      "op_inv env a ?k (oc_clients c) (Some t') w'"
      "\<exists>ob'. objects w' a = Some ob' \<and> at_status (inner ob') = as_raw Completed \<and> at_result (inner ob') = Some v"
      using op_resume_ok [OF assms(2,3) wf(1,2) ob(1) wf(3) ob(2)] q(1,3) by blast
    obtain n ob' where ob': "op_alive env a ?k n w' ob'" "op_state_ok (Some t') (inner ob')"
      using op_inv_alive [OF r(2)] q(1) by blast
    then have "at_status (inner ob') = as_raw Completed" "at_result (inner ob') = Some v"
      using r(3) by (auto simp: op_alive_def)
    then show ?thesis
      using r(1) op_answers(2) [OF ob'] by (simp add: async_task_poll_def load_status_def async_status_from_raw_def)
  qed
  ultimately show ?thesis by blast
qed

text \<open>
  Concrete runs: an allocator with one block, and a future of one pending poll that knows neither the
  operation nor a cancellation.
\<close>

definition op_unit_env :: "(int, unit) op_env" where
  "op_unit_env =
     \<lparr>env_build = hardened_build, env_layout = \<lparr>layout_size = 72, layout_align = 8\<rparr>,
      env_alloc = (\<lambda>al l w. (if objects w 4096 = None then 4096 else null, w)),
      env_dealloc = (\<lambda>al a l w. w),
      env_drop_inner = (\<lambda>a v w. Return w),
      env_query_interface = (\<lambda>v this iid w. Return (async_query_interface v this iid, w)),
      env_foreign_add_ref = (\<lambda>p w. Undefined),
      env_foreign_release = (\<lambda>p w. Undefined),
      env_foreign_query_interface = (\<lambda>p riid ppv w. Undefined)\<rparr>"

definition op_empty_world :: "(int, unit) op_world" where
  "op_empty_world = \<lparr>objects = Map.empty, events = [], foreign = ()\<rparr>"

definition later_ops :: "'v \<Rightarrow> (nat, 'v, 'w) future_ops" where
  "later_ops v = \<lparr>fut_poll = (\<lambda>n w. if n = 0 then (PollReady v, n, w) else (PollPending, n - 1, w)),
     fut_drop = (\<lambda>n w. (False, w))\<rparr>"

definition never_cancelled :: "'w \<Rightarrow> bool \<times> 'w" where
  "never_cancelled w = (False, w)"

lemma op_unit_env_ok: "op_env_ok op_unit_env a"
  by (simp add: op_env_ok_def well_behaved_def op_unit_env_def)

lemma later_neutral: "op_neutral a (later_ops v) never_cancelled" "calm_drops (later_ops v)"
  by (simp_all add: op_neutral_def later_ops_def never_cancelled_def calm_drops_def)

lemma op_unit_spawned:
  "\<exists>w1 w2 r. com_object_new op_unit_env new_state op_empty_world = (Inr (PrimaryPtr 4096), w1)
    \<and> shim_add_ref op_unit_env (PrimaryPtr 4096) w1 = Return (r, w2)"
proof -
  obtain w1 where new: "com_object_new op_unit_env new_state op_empty_world = (Inr (PrimaryPtr 4096), w1)"
    by (simp add: com_object_new_def new_in_def try_new_in_def op_unit_env_def op_empty_world_def)
  have none: "drops 4096 op_empty_world = deallocs 4096 op_empty_world"
    by (simp add: op_empty_world_def drops_def deallocs_def)
  have cap: "1 < refcount_cap (env_build op_unit_env)" by (simp add: refcount_cap_def)
  show ?thesis
    using op_created [OF op_unit_env_ok none new refl] op_add_ref [OF _ cap] new by blast
qed

theorem async_operation_protocol_witness:
  "\<exists>w. op_reach op_unit_env (later_ops 7) never_cancelled 4096 op_empty_world
      \<lparr>oc_world = w, oc_task = Some (Awaiting (cancellable_new (0::nat) ())), oc_clients = 1\<rparr>
    \<and> get_status_raw (PrimaryPtr 4096) w = Return (Inr Started)
    \<and> (\<exists>p t' w'. async_task_poll op_unit_env (later_ops 7) never_cancelled (PrimaryPtr 4096)
          (Awaiting (cancellable_new 0 ())) w = Return (p, t', w')
        \<and> get_result_raw (PrimaryPtr 4096) w' = Return (Inr 7))"
proof -
  let ?M = "later_ops (7::int) :: (nat, int, (int, unit) op_world) future_ops"
  let ?c = "\<lambda>w. \<lparr>oc_world = w, oc_task = Some (Awaiting (cancellable_new (0::nat) ())), oc_clients = 1\<rparr>"
  obtain w1 r w where "com_object_new op_unit_env new_state op_empty_world = (Inr (PrimaryPtr 4096), w1)"
    "shim_add_ref op_unit_env (PrimaryPtr 4096) w1 = Return (r, w)"
    using op_unit_spawned by blast
  from op_reach.op_spawned [OF this, of ?M never_cancelled "Suc 0"]
  have start: "op_reach op_unit_env ?M never_cancelled 4096 op_empty_world
      \<lparr>oc_world = w, oc_task = Some (Unresumed (Suc 0)), oc_clients = 1\<rparr>" .
  have "async_task_poll op_unit_env ?M never_cancelled (PrimaryPtr 4096) (Unresumed (Suc 0)) w
      = Return (PollPending, Awaiting (cancellable_new 0 ()), w)"
    by (simp add: async_task_poll_def async_task_resume_def try_finally_def cancellable_new_def
        cancellable_poll.simps never_cancelled_def later_ops_def poll_slot_def)
  then have reach: "op_reach op_unit_env ?M never_cancelled 4096 op_empty_world (?c w)"
    using op_reach.op_polled [OF start] by simp
  have ready: "cancellable_poll ?M empty_async never_cancelled (cancellable_new 0 ()) w
      = Return (PollReady (Some 7), (cancellable_new 0 ())\<lparr>main := Dropped, cleanup := Dropped, state := Done\<rparr>, w)"
    by (simp add: cancellable_new_def cancellable_poll.simps never_cancelled_def later_ops_def empty_async_def)
  have none: "drops 4096 op_empty_world = deallocs 4096 op_empty_world"
    by (simp add: op_empty_world_def drops_def deallocs_def)
  show ?thesis
    using async_operation_protocol [OF op_unit_env_ok later_neutral none reach] reach ready
    by (intro exI [of _ w]) simp
qed

text \<open>C20: Operations that are created in an error state report it: their status is \<open>Error\<close> and their
  result the status they were given. \<open>STATUS_SUCCESS\<close> is no such status: the caller then takes the out
  parameter that nobody wrote for the result.\<close>

theorem error_operation_outcomes:
  assumes "op_env_ok env a" and "drops a w0 = deallocs a w0"
    and "spawn_error_raw env status w0 = (Inr (PrimaryPtr a), w1)"
  shows "get_status_raw (PrimaryPtr a) w1 = Return (Inr Error)
    \<and> get_result_raw (PrimaryPtr a) w1
        = (if status = STATUS_SUCCESS then Undefined else Return (Inl status))"
proof -
  have new: "com_object_new env (store_error status new_state) w0 = (Inr (PrimaryPtr a), w1)"
    using assms(3) by (auto simp: spawn_error_raw_def Let_def split: prod.splits sum.splits)
  obtain ob where ob: "op_alive env a (drops a w0) 1 w1 ob" "inner ob = store_error status new_state"
    using op_created [OF assms(1,2) new] by auto
  then have st: "load_status (inner ob) = Error"
    by (simp add: load_status_def store_error_def async_status_from_raw_def)
  have "get_result_raw (PrimaryPtr a) w1
      = (if status = STATUS_SUCCESS then Undefined else Return (Inl status))"
    using ob st by (simp add: op_alive_def get_result_raw_def read_vtbl_def shim_get_result_def
        from_ptr_def load_error_def store_error_def)
  then show ?thesis using op_answers(1) [OF ob(1)] st by simp
qed

theorem error_operation_outcomes_witness:
  "\<exists>w1. spawn_error_raw op_unit_env STATUS_SUCCESS op_empty_world = (Inr (PrimaryPtr 4096), w1)
    \<and> get_result_raw (PrimaryPtr 4096) w1 = Undefined"
proof -
  obtain w1 where new: "spawn_error_raw op_unit_env STATUS_SUCCESS op_empty_world = (Inr (PrimaryPtr 4096), w1)"
    by (simp add: spawn_error_raw_def com_object_new_def new_in_def try_new_in_def op_unit_env_def
        op_empty_world_def)
  have none: "drops 4096 op_empty_world = deallocs 4096 op_empty_world"
    by (simp add: op_empty_world_def drops_def deallocs_def)
  show ?thesis using error_operation_outcomes [OF op_unit_env_ok none new] new by auto
qed

text \<open>When the executor refuses the task, having dropped it unpolled, the caller gets its status
  and the operation's object, which nobody else knows, is dropped and freed exactly once.\<close>

theorem refused_spawn_frees_object:
  assumes "op_env_ok env a" and "op_neutral a M takec" and "calm_drops M" and "drops a w0 = deallocs a w0"
    and "com_object_new env new_state w0 = (Inr (PrimaryPtr a), w1)"
  shows "\<exists>w'. spawn_raw_cancellable env M takec unsupported_spawn future w0
      = Return (Inl STATUS_NOT_SUPPORTED :: NTSTATUS + com_ptr \<times> 'h, w')
    \<and> objects w' a = None \<and> drops a w' = drops a w0 + 1 \<and> deallocs a w' = deallocs a w0 + 1"
proof -
  let ?k = "drops a w0"
  obtain ob where ob: "op_alive env a ?k 1 w1 ob"
    using op_created [OF assms(1,4,5)] by auto
  have cap: "1 < refcount_cap (env_build env)" by (simp add: refcount_cap_def)
  obtain ob2 where add: "shim_add_ref env (PrimaryPtr a) w1 = Return (of_nat (1 + 1), put_object a ob2 w1)"
    "op_alive env a ?k (1 + 1) (put_object a ob2 w1) ob2"
    using op_add_ref [OF ob cap] by blast
  let ?w2 = "put_object a ob2 w1"
  obtain w3 where dr: "fut_drop M future ?w2 = (False, w3)"
    using assms(3) by (metis (full_types) calm_drops_def prod.collapse)
  then have "keeps_object a ?w2 w3" using assms(2) by (metis op_neutral_def snd_conv)
  then have a3: "op_alive env a ?k (Suc 1) w3 ob2" using op_alive_keeps [OF add(2)] by simp
  obtain ob4 where r1: "shim_release env (PrimaryPtr a) w3 = Return (of_nat 1, put_object a ob4 w3)"
    "op_alive env a ?k 1 (put_object a ob4 w3) ob4"
    using op_release_shared [OF a3] by auto
  obtain w5 where r2: "shim_release env (PrimaryPtr a) (put_object a ob4 w3) = Return (0, w5)"
    "dead_after a ?k w5"
    using op_release_last [OF r1(2)] by auto
  have "spawn_raw_cancellable env M takec unsupported_spawn future w0
      = Return (Inl STATUS_NOT_SUPPORTED :: NTSTATUS + com_ptr \<times> 'h, w5)"
    using assms(5) add(1) dr r1(1) r2(1)
    by (simp add: spawn_raw_cancellable_def guard_ptr_new_def guard_ptr_as_ptr_def unsupported_spawn_def
        async_task_drop_def)
  then show ?thesis using r2(2) assms(4) by (auto simp: dead_after_def)
qed

theorem refused_spawn_frees_object_witness:
  "\<exists>w'. spawn_raw_cancellable op_unit_env (later_ops 7) never_cancelled unsupported_spawn 3 op_empty_world
      = Return (Inl STATUS_NOT_SUPPORTED :: NTSTATUS + com_ptr \<times> unit, w')
    \<and> objects w' 4096 = None \<and> drops 4096 w' = 1"
proof -
  have none: "drops 4096 op_empty_world = 0" "deallocs 4096 op_empty_world = 0"
    by (simp_all add: op_empty_world_def drops_def deallocs_def)
  obtain w1 where "com_object_new op_unit_env new_state op_empty_world = (Inr (PrimaryPtr 4096), w1)"
    using op_unit_spawned by blast
  from refused_spawn_frees_object [OF op_unit_env_ok later_neutral _ this, of 7 3] none
  show ?thesis by auto
qed

text \<open>
  The run of the host executor, from what the first poll and, unless it was ready, the drop of the task
  do to the operation; \<open>w4\<close> is the world after both.
\<close>

lemma host_spawn_run:
  assumes "op_env_ok env a" and "drops a w0 = deallocs a w0"
    and "com_object_new env new_state w0 = (Inr (PrimaryPtr a), w1)"
    and "shim_add_ref env (PrimaryPtr a) w1 = Return (r, w2)"
    and "cancellable_poll M empty_async takec (try_finally f ()) w2 = Return (p, c1, w3)"
    and "keeps_object a w2 w3"
    and "case p of PollReady res \<Rightarrow> w4 = w3
      | _ \<Rightarrow> (\<exists>c4. cancellable_drop M empty_async c1 w3 = Return (False, c4, w4)) \<and> keeps_object a w3 w4"
    and "x = spawn_raw env M takec host_spawn_cancellable
      (\<lambda>ptr. host_handle_drop (async_task_drop env M ptr)) f w0"
  shows "p \<noteq> PollPanic \<Longrightarrow> \<exists>ob. x = Return (Inr (PrimaryPtr a), put_object a ob w4)
      \<and> op_alive env a (drops a w0) 1 (put_object a ob w4) ob
      \<and> get_result_raw (PrimaryPtr a) (put_object a ob w4) = Return (case p of
            PollReady (Some v) \<Rightarrow> Inr v | PollReady None \<Rightarrow> Inl STATUS_CANCELLED | _ \<Rightarrow> Inl STATUS_PENDING)"
    and "p = PollPanic \<Longrightarrow> x = Panic"
proof -
  let ?k = "drops a w0" and ?c = "try_finally f ()"
  have cap: "1 < refcount_cap (env_build env)" by (simp add: refcount_cap_def)
  obtain ob where ob: "op_alive env a ?k 1 w1 ob" "inner ob = new_state"
    using op_created [OF assms(1-3)] by auto
  obtain ob2 where ob2: "w2 = put_object a ob2 w1" "op_alive env a ?k (1 + 1) w2 ob2" "inner ob2 = new_state"
    using op_add_ref [OF ob(1) cap] assms(4) ob(2) by auto
  have a3: "op_alive env a ?k (1 + 1) w3 ob2" using op_alive_keeps [OF ob2(2) assms(6)] .
  let ?poll = "async_task_poll env M takec (PrimaryPtr a) (Unresumed f) w2"
  let ?drop = "async_task_drop env M (PrimaryPtr a)"
  have poll: "?poll = async_task_resume env M takec (PrimaryPtr a) ?c w2" by (simp add: async_task_poll_def)
  have x: "x = and_then (host_handle_drop ?drop h w4) (\<lambda>w5. Return (Inr (PrimaryPtr a), w5))"
    if "host_spawn_cancellable (async_task_poll env M takec (PrimaryPtr a)) ?drop (Unresumed f) w2
      = Return (Inr h, w4)" for h w4
    using assms(3,4) that
    by (simp add: assms(8) spawn_raw_def spawn_raw_cancellable_def guard_ptr_new_def guard_ptr_as_ptr_def)
  have released: "\<exists>ob5. shim_release env (PrimaryPtr a) v = Return (1, put_object a ob5 v)
      \<and> op_alive env a ?k 1 (put_object a ob5 v) ob5 \<and> inner ob5 = inner ob4"
    if "op_alive env a ?k (1 + 1) v ob4" for v ob4
    using op_release_shared [of env a ?k 1 v ob4] that by auto
  show "x = Panic" if "p = PollPanic"
  proof -
    obtain c4 where d: "cancellable_drop M empty_async c1 w3 = Return (False, c4, w4)" "keeps_object a w3 w4"
      using assms(7) \<open>p = PollPanic\<close> by auto
    obtain w5 where "shim_release env (PrimaryPtr a) w4 = Return (1, w5)"
      using released [OF op_alive_keeps [OF a3 d(2)]] by blast
    then have "?poll = Return (PollPanic, Returned, w5)"
      using poll assms(5) \<open>p = PollPanic\<close> d(1) by (simp add: async_task_resume_def task_guard_drop_def)
    then show ?thesis
      using assms(3,4) by (simp add: assms(8) spawn_raw_def spawn_raw_cancellable_def guard_ptr_new_def
          guard_ptr_as_ptr_def host_spawn_cancellable_def)
  qed
  show "\<exists>ob. x = Return (Inr (PrimaryPtr a), put_object a ob w4)
      \<and> op_alive env a ?k 1 (put_object a ob w4) ob
      \<and> get_result_raw (PrimaryPtr a) (put_object a ob w4) = Return (case p of
            PollReady (Some v) \<Rightarrow> Inr v | PollReady None \<Rightarrow> Inl STATUS_CANCELLED | _ \<Rightarrow> Inl STATUS_PENDING)"
    if "p \<noteq> PollPanic"
  proof (cases p)
    case (PollReady result)
    let ?g = "case result of Some value \<Rightarrow> store_result value | None \<Rightarrow> store_canceled"
    obtain ob4 where u: "op_update (PrimaryPtr a) ?g w3 = Return (put_object a ob4 w3)"
      "op_alive env a ?k (1 + 1) (put_object a ob4 w3) ob4" "inner ob4 = ?g new_state"
      using op_update_alive [OF a3, of ?g] ob2(3) by auto
    obtain ob5 where rel: "shim_release env (PrimaryPtr a) (put_object a ob4 w3) = Return (1, put_object a ob5 w3)"
      "op_alive env a ?k 1 (put_object a ob5 w3) ob5" "inner ob5 = ?g new_state"
      using released [OF u(2)] u(3) by (auto simp: put_object_def)
    have "?poll = Return (PollReady STATUS_SUCCESS, Returned, put_object a ob5 w3)"
      using poll assms(5) PollReady u(1) rel(1) by (simp add: async_task_resume_def task_guard_drop_def)
    then have "x = Return (Inr (PrimaryPtr a), put_object a ob5 w3)"
      using x [of "host_handle_new None" "put_object a ob5 w3"]
      by (simp add: host_spawn_cancellable_def async_task_drop_def host_handle_drop_def host_handle_take_def
          host_handle_new_def)
    moreover have "op_state_ok (None :: 'a async_task option) (inner ob5)"
      using rel(3) by (auto simp: op_state_ok_def store_result_def store_canceled_def split: option.splits)
    ultimately show ?thesis
      using PollReady rel(2,3) op_answers(2) [OF rel(2), of None] assms(7)
      by (auto simp: load_status_def async_status_from_raw_def store_result_def store_canceled_def
          split: option.splits)
  next
    case PollPending
    obtain c4 where d: "cancellable_drop M empty_async c1 w3 = Return (False, c4, w4)" "keeps_object a w3 w4"
      using assms(7) PollPending by auto
    obtain ob5 where rel: "shim_release env (PrimaryPtr a) w4 = Return (1, put_object a ob5 w4)"
      "op_alive env a ?k 1 (put_object a ob5 w4) ob5" "inner ob5 = new_state"
      using released [OF op_alive_keeps [OF a3 d(2)]] ob2(3) by auto
    have "?poll = Return (PollPending, Awaiting c1, w3)"
      using poll assms(5) PollPending by (simp add: async_task_resume_def)
    then have "x = Return (Inr (PrimaryPtr a), put_object a ob5 w4)"
      using x [of "host_handle_new (Some (Awaiting c1))" w3] d(1) rel(1)
      by (simp add: host_spawn_cancellable_def async_task_drop_def host_handle_drop_def host_handle_take_def
          host_handle_new_def task_guard_drop_def)
    then show ?thesis
      using PollPending rel(2,3) op_answers(2) [OF rel(2), of None]
      by (auto simp: load_status_def async_status_from_raw_def new_state_def op_state_ok_def)
  qed (use that in simp)
qed

text \<open>C19: What the executor of builds without a kernel makes of an operation whose handle is dropped, as
  \<open>spawn\<close> does. It polls the task once. If the future is ready, the client, who has the only reference,
  reads its value; if it is pending, the task is dropped, and the operation stays started for ever: its
  result is \<open>STATUS_PENDING\<close> and nobody is left to change it. If the poll panics, so does the spawn.\<close>

theorem host_spawn_outcomes:
  assumes "op_env_ok env a" and "op_neutral a M takec" and "calm_drops M" and "drops a w0 = deallocs a w0"
    and "com_object_new env new_state w0 = (Inr (PrimaryPtr a), w1)"
    and "shim_add_ref env (PrimaryPtr a) w1 = Return (r, w2)"
    and "cancellable_poll M empty_async takec (try_finally f ()) w2 = Return (p, c1, w3)"
    and "x = spawn_raw env M takec host_spawn_cancellable
      (\<lambda>ptr. host_handle_drop (async_task_drop env M ptr)) f w0"
  shows "(p \<noteq> PollPanic \<longrightarrow> (\<exists>w' ob. x = Return (Inr (PrimaryPtr a), w') \<and> objects w' a = Some ob \<and> ref_count ob = 1
        \<and> get_result_raw (PrimaryPtr a) w' = Return (case p of
            PollReady (Some v) \<Rightarrow> Inr v | PollReady None \<Rightarrow> Inl STATUS_CANCELLED | _ \<Rightarrow> Inl STATUS_PENDING)))
    \<and> (p = PollPanic \<longrightarrow> x = Panic)"
proof -
  have wf: "wf_cancellable (try_finally f ())" by (simp add: try_finally_def cancellable_new_def wf_cancellable_def)
  have keeps: "keeps_object a w2 w3" using cancellable_poll_neutral [OF assms(2,7)] .
  have wf1: "wf_cancellable c1"
    using cancellable_poll_wf [OF wf assms(3) calm_empty_async, of takec w2] assms(7)
    by (auto simp: try_finally_def cancellable_new_def)
  obtain c4 w4 where d: "cancellable_drop M empty_async c1 w3 = Return (False, c4, w4)" "keeps_object a w3 w4"
    using cancellable_drop_ok [OF assms(2) wf1 assms(3)] by blast
  define v where "v = (case p of PollReady res \<Rightarrow> w3 | _ \<Rightarrow> w4)"
  have "case p of PollReady res \<Rightarrow> v = w3
      | _ \<Rightarrow> (\<exists>c4. cancellable_drop M empty_async c1 w3 = Return (False, c4, v)) \<and> keeps_object a w3 v"
    using d by (auto simp: v_def split: poll_result.split)
  note run = host_spawn_run [OF assms(1,4-7) keeps this assms(8)]
  show ?thesis using run by (fastforce simp: op_alive_def alive_with_def)
qed

theorem host_spawn_outcomes_witness:
  "\<exists>w' ob. spawn_raw op_unit_env (later_ops 7) never_cancelled host_spawn_cancellable
      (\<lambda>ptr. host_handle_drop (async_task_drop op_unit_env (later_ops 7) ptr)) 3 op_empty_world
      = Return (Inr (PrimaryPtr 4096), w')
    \<and> objects w' 4096 = Some ob \<and> ref_count ob = 1 \<and> get_result_raw (PrimaryPtr 4096) w' = Return (Inl STATUS_PENDING)"
proof -
  let ?M = "later_ops (7::int) :: (nat, int, (int, unit) op_world) future_ops"
  obtain w1 r w2 where new: "com_object_new op_unit_env new_state op_empty_world = (Inr (PrimaryPtr 4096), w1)"
    "shim_add_ref op_unit_env (PrimaryPtr 4096) w1 = Return (r, w2)"
    using op_unit_spawned by blast
  have none: "drops 4096 op_empty_world = deallocs 4096 op_empty_world"
    by (simp add: op_empty_world_def drops_def deallocs_def)
  have "cancellable_poll ?M empty_async never_cancelled (try_finally 3 ()) w2
      = Return (PollPending, cancellable_new 2 (), w2)"
    by (simp add: try_finally_def cancellable_new_def cancellable_poll.simps never_cancelled_def later_ops_def)
  from host_spawn_outcomes [OF op_unit_env_ok later_neutral none new this refl] show ?thesis by simp
qed

end
