(* ===== verification/Unicode.thy ===== *)
theory Unicode
  imports KBox
begin

text \<open>
  Counted UTF-16 strings: \<open>src/unicode.rs\<close>. A Rust string is the list of its scalar values; the
  UTF-16 and UTF-8 codings of the standard library are written out. Buffers of code units live in
  a heap of arrays; the allocator is a parameter.
\<close>

section \<open>UTF-16 and UTF-8\<close>

type_synonym rust_str = "nat list"

definition is_scalar :: "nat \<Rightarrow> bool" where
  "is_scalar c \<longleftrightarrow> c < 0xD800 \<or> 0xE000 \<le> c \<and> c < 0x110000"

definition encode_char :: "nat \<Rightarrow> u16 list" where
  "encode_char c =
     (if c < 0x10000 then [of_nat c]
      else [of_nat (0xD800 + (c - 0x10000) div 0x400), of_nat (0xDC00 + (c - 0x10000) mod 0x400)])"

definition encode_utf16 :: "rust_str \<Rightarrow> u16 list" where
  "encode_utf16 s = concat (map encode_char s)"

text \<open>\<open>char::decode_utf16\<close>: a lone surrogate is an error, and decoding goes on behind it.\<close>

function decode_utf16 :: "u16 list \<Rightarrow> (u16 + nat) list" where
  "decode_utf16 [] = []"
| "unat u < 0xD800 \<or> 0xE000 \<le> unat u \<Longrightarrow> decode_utf16 (u # us) = Inr (unat u) # decode_utf16 us"
| "0xDC00 \<le> unat u \<Longrightarrow> unat u < 0xE000 \<Longrightarrow> decode_utf16 (u # us) = Inl u # decode_utf16 us"
| "0xD800 \<le> unat u \<Longrightarrow> unat u < 0xDC00 \<Longrightarrow>
    decode_utf16 (u # us) =
      (case us of
         [] \<Rightarrow> [Inl u]
       | u2 # us' \<Rightarrow>
           if unat u2 < 0xDC00 \<or> 0xE000 \<le> unat u2 then Inl u # decode_utf16 us
           else Inr ((unat u - 0xD800) * 0x400 + (unat u2 - 0xDC00) + 0x10000) # decode_utf16 us')"
  by (auto, metis list.exhaust not_le)

termination
  by (relation "measure length") auto

definition len_utf8 :: "nat \<Rightarrow> nat" where
  "len_utf8 c = (if c < 0x80 then 1 else if c < 0x800 then 2 else if c < 0x10000 then 3 else 4)"

section \<open>UNICODE_STRING\<close>

record UNICODE_STRING =
  Length :: u16
  MaximumLength :: u16
  Buffer :: addr

datatype UnicodeStringError = TooLong | AllocationFailed | InvalidUtf16

type_synonym heap = "addr \<rightharpoonup> u16 list"

record uni_alloc =
  ua_alloc :: "Layout \<Rightarrow> heap \<Rightarrow> addr \<times> heap"
  ua_dealloc :: "addr \<Rightarrow> Layout \<Rightarrow> heap \<Rightarrow> heap outcome"

definition u16_layout :: Layout where
  "u16_layout = \<lparr>layout_size = 2, layout_align = 2\<rparr>"

definition max_units :: nat where
  "max_units = 65535 div 2"

definition write_unit :: "addr \<Rightarrow> nat \<Rightarrow> u16 \<Rightarrow> heap \<Rightarrow> heap outcome" where
  "write_unit buf idx unit h =
     (case h buf of
        Some xs \<Rightarrow> if idx < length xs then Return (h(buf \<mapsto> xs[idx := unit])) else Undefined
      | None \<Rightarrow> Undefined)"

fun write_units :: "addr \<Rightarrow> nat \<Rightarrow> u16 list \<Rightarrow> heap \<Rightarrow> heap outcome" where
  "write_units buf idx [] h = Return h"
| "write_units buf idx (u # us) h =
     and_then (write_unit buf idx u h) (\<lambda>h1. write_units buf (idx + 1) us h1)"

definition slice_from_raw_parts :: "addr \<Rightarrow> nat \<Rightarrow> heap \<Rightarrow> u16 list outcome" where
  "slice_from_raw_parts buf len h =
     (case h buf of
        Some xs \<Rightarrow> if len \<le> length xs then Return (take len xs) else Undefined
      | None \<Rightarrow> Undefined)"

text \<open>The fields the macro \<open>kstr!\<close> computes; \<open>buf\<close> is the static array with its NUL.\<close>

definition kstr :: "u16 list \<Rightarrow> addr \<Rightarrow> UNICODE_STRING" where
  "kstr buf at =
     \<lparr>Length = of_nat ((length buf - 1) * 2), MaximumLength = of_nat (length buf * 2), Buffer = at\<rparr>"

section \<open>OwnedUnicodeString\<close>

record OwnedUnicodeString =
  us_inner :: UNICODE_STRING
  us_buffer :: addr
  us_buffer_len :: usize

definition owned_new_in ::
  "uni_alloc \<Rightarrow> rust_str \<Rightarrow> heap \<Rightarrow> ((UnicodeStringError + OwnedUnicodeString) \<times> heap) outcome" where
  "owned_new_in A v h =
     (let len = length (encode_utf16 v)
      in if len + 1 > max_units then Return (Inl TooLong, h)
         else case layout_array u16_layout (of_nat (len + 1)) of
           None \<Rightarrow> Return (Inl TooLong, h)
         | Some layout \<Rightarrow>
             let (buf, h1) = ua_alloc A layout h
             in if buf = null then Return (Inl AllocationFailed, h1)
                else and_then (write_units buf 0 (encode_utf16 v) h1) (\<lambda>h2.
                  and_then (write_unit buf len 0 h2) (\<lambda>h3.
                    Return (Inr \<lparr>us_inner = \<lparr>Length = of_nat (len * 2),
                        MaximumLength = of_nat ((len + 1) * 2), Buffer = buf\<rparr>,
                      us_buffer = buf, us_buffer_len = of_nat (len + 1)\<rparr>, h3))))"

definition owned_new ::
  "uni_alloc \<Rightarrow> rust_str \<Rightarrow> heap \<Rightarrow> ((UnicodeStringError + OwnedUnicodeString) \<times> heap) outcome" where
  "owned_new global v h = owned_new_in global v h"

definition owned_as_unicode :: "OwnedUnicodeString \<Rightarrow> UNICODE_STRING" where
  "owned_as_unicode s = us_inner s"

definition owned_as_utf16 :: "OwnedUnicodeString \<Rightarrow> heap \<Rightarrow> u16 list outcome" where
  "owned_as_utf16 s h = slice_from_raw_parts (us_buffer s) (unat (Length (us_inner s)) div 2) h"

definition owned_drop :: "uni_alloc \<Rightarrow> OwnedUnicodeString \<Rightarrow> heap \<Rightarrow> heap outcome" where
  "owned_drop A s h =
     (if us_buffer s = null then Return h
      else case layout_array u16_layout (us_buffer_len s) of
        None \<Rightarrow> Return h
      | Some layout \<Rightarrow> ua_dealloc A (us_buffer s) layout h)"

section \<open>LocalUnicodeString\<close>

text \<open>The const parameter \<open>N\<close> is the length of the buffer.\<close>

record LocalUnicodeString =
  lus_buffer :: "u16 list"
  lus_len :: nat

definition local_new :: "nat \<Rightarrow> LocalUnicodeString" where
  "local_new N = \<lparr>lus_buffer = replicate N 0, lus_len = 0\<rparr>"

text \<open>An indexed store panics out of range.\<close>

definition store_index :: "nat \<Rightarrow> u16 \<Rightarrow> u16 list \<Rightarrow> u16 list outcome" where
  "store_index i u xs = (if i < length xs then Return (xs[i := u]) else Panic)"

fun store_units :: "nat \<Rightarrow> u16 list \<Rightarrow> u16 list \<Rightarrow> u16 list outcome" where
  "store_units i [] xs = Return xs"
| "store_units i (u # us) xs = and_then (store_index i u xs) (\<lambda>ys. store_units (i + 1) us ys)"

definition local_clear :: "LocalUnicodeString \<Rightarrow> LocalUnicodeString outcome" where
  "local_clear self =
     (if lus_buffer self \<noteq> [] then
        and_then (store_index 0 0 (lus_buffer self)) (\<lambda>ys.
          Return \<lparr>lus_buffer = ys, lus_len = 0\<rparr>)
      else Return (self\<lparr>lus_len := 0\<rparr>))"

definition try_push_str ::
  "rust_str \<Rightarrow> LocalUnicodeString \<Rightarrow> ((UnicodeStringError + unit) \<times> LocalUnicodeString) outcome" where
  "try_push_str v self =
     (let N = length (lus_buffer self);
          cap_units = min N max_units;
          value_len = length (encode_utf16 v)
      in if lus_len self + value_len + 1 > cap_units then Return (Inl TooLong, self)
         else and_then (store_units (lus_len self) (encode_utf16 v) (lus_buffer self)) (\<lambda>ys.
           let len = lus_len self + value_len
           in if len < N then
                and_then (store_index len 0 ys) (\<lambda>zs.
                  Return (Inr (), \<lparr>lus_buffer = zs, lus_len = len\<rparr>))
              else Return (Inr (), \<lparr>lus_buffer = ys, lus_len = len\<rparr>)))"

definition local_from_str ::
  "nat \<Rightarrow> rust_str \<Rightarrow> (UnicodeStringError + LocalUnicodeString) outcome" where
  "local_from_str N v =
     and_then (try_push_str v (local_new N)) (\<lambda>(r, s).
       Return (case r of Inl e \<Rightarrow> Inl e | Inr u \<Rightarrow> Inr s))"

definition local_write_str ::
  "rust_str \<Rightarrow> LocalUnicodeString \<Rightarrow> ((unit + unit) \<times> LocalUnicodeString) outcome" where
  "local_write_str v self =
     and_then (try_push_str v self) (\<lambda>(r, s).
       Return (case r of Inl e \<Rightarrow> Inl () | Inr u \<Rightarrow> Inr (), s))"

definition local_len :: "LocalUnicodeString \<Rightarrow> nat" where
  "local_len self = lus_len self"

definition local_is_empty :: "LocalUnicodeString \<Rightarrow> bool" where
  "local_is_empty self \<longleftrightarrow> lus_len self = 0"

text \<open>\<open>at\<close> is the address of the field \<open>buffer\<close>.\<close>

definition as_unicode_ref :: "addr \<Rightarrow> LocalUnicodeString \<Rightarrow> UNICODE_STRING" where
  "as_unicode_ref at self =
     (let cap_units = min (length (lus_buffer self)) max_units
      in \<lparr>Length = of_nat (lus_len self * 2), MaximumLength = of_nat (cap_units * 2), Buffer = at\<rparr>)"

definition local_as_utf16 :: "LocalUnicodeString \<Rightarrow> u16 list outcome" where
  "local_as_utf16 self =
     (if lus_len self \<le> length (lus_buffer self) then Return (take (lus_len self) (lus_buffer self))
      else Panic)"

section \<open>Reading a UNICODE_STRING\<close>

definition unicode_string_as_slice :: "UNICODE_STRING \<Rightarrow> heap \<Rightarrow> u16 list outcome" where
  "unicode_string_as_slice us h =
     (if Buffer us = null \<or> Length us = 0 then Return []
      else slice_from_raw_parts (Buffer us) (unat (Length us) div 2) h)"

text \<open>
  The loop of \<open>unicode_string_to_string\<close> over the decoded units. \<open>room\<close> is the capacity reserved
  for the string; \<open>None\<close> stands for a push that has to grow it.
\<close>

fun push_decoded :: "nat \<Rightarrow> (u16 + nat) list \<Rightarrow> rust_str \<Rightarrow> (UnicodeStringError + rust_str) option" where
  "push_decoded room [] out = Some (Inr out)"
| "push_decoded room (Inl u # us) out = Some (Inl InvalidUtf16)"
| "push_decoded room (Inr c # us) out =
     (if len_utf8 c \<le> room then push_decoded (room - len_utf8 c) us (out @ [c]) else None)"

text \<open>\<open>reserves\<close> says whether \<open>try_reserve\<close> finds the memory.\<close>

definition unicode_string_to_string ::
  "(nat \<Rightarrow> bool) \<Rightarrow> UNICODE_STRING \<Rightarrow> heap \<Rightarrow> (UnicodeStringError + rust_str) option outcome" where
  "unicode_string_to_string reserves us h =
     and_then (unicode_string_as_slice us h) (\<lambda>units.
       let reserve = length units * 3
       in if reserve \<ge> 2 ^ 64 then Return (Some (Inl TooLong))
          else if \<not> reserves reserve then Return (Some (Inl AllocationFailed))
          else Return (push_decoded reserve (decode_utf16 units) []))"

section \<open>Laws of the codings\<close>

lemma encode_utf16_simps [simp]:
  "encode_utf16 [] = []" "encode_utf16 (c # s) = encode_char c @ encode_utf16 s"
  by (simp_all add: encode_utf16_def)

lemma decode_encode_char:
  assumes "is_scalar c"
  shows "decode_utf16 (encode_char c @ us) = Inr c # decode_utf16 us"
proof (cases "c < 0x10000")
  case True
  then have u: "unat (of_nat c :: u16) = c" by (intro unat_of_nat_small) simp
  then have "unat (of_nat c :: u16) < 0xD800 \<or> 0xE000 \<le> unat (of_nat c :: u16)"
    using assms by (auto simp: is_scalar_def)
  from decode_utf16.simps(2) [OF this, of us] u True show ?thesis by (simp add: encode_char_def)
next
  case False
  define d where "d = c - 0x10000"
  have c: "c = d + 0x10000" and d: "d < 0x100000"
    using False assms by (auto simp: d_def is_scalar_def)
  define u u2 :: u16 where "u = of_nat (0xD800 + d div 0x400)" and "u2 = of_nat (0xDC00 + d mod 0x400)"
  have hi: "unat u = 0xD800 + d div 0x400"
    unfolding u_def using d by (intro unat_of_nat_small) simp
  have m: "d mod 0x400 < 0x400" by simp
  have lo: "unat u2 = 0xDC00 + d mod 0x400"
    unfolding u2_def using m by (intro unat_of_nat_small) simp
  have "decode_utf16 (u # u2 # us) = Inr (d div 0x400 * 0x400 + d mod 0x400 + 0x10000) # decode_utf16 us"
    using hi lo d m by (simp add: decode_utf16.simps(4))
  moreover have "encode_char c = [u, u2]"
    unfolding u_def u2_def d_def using False by (simp add: encode_char_def)
  ultimately show ?thesis by (simp add: c)
qed

lemma decode_encode_utf16:
  "list_all is_scalar s \<Longrightarrow> decode_utf16 (encode_utf16 s) = map Inr s"
  by (induction s) (simp_all add: decode_encode_char)

lemma push_decoded_fits:
  "3 * length us \<le> room \<Longrightarrow> push_decoded room (decode_utf16 us) out \<noteq> None"
proof (induction us arbitrary: room out rule: decode_utf16.induct)
  case (2 u us)
  have "len_utf8 (unat u) \<le> 3"
    using unsigned_less [of u] by (simp add: len_utf8_def)
  with 2 show ?case by (simp add: decode_utf16.simps(2))
next
  case (4 u us)
  have four: "len_utf8 c \<le> 4" for c by (simp add: len_utf8_def)
  show ?case
  proof (cases us)
    case Nil
    then show ?thesis using 4 by (simp add: decode_utf16.simps(4))
  next
    case (Cons u2 us')
    show ?thesis
    proof (cases "unat u2 < 0xDC00 \<or> 0xE000 \<le> unat u2")
      case True
      then show ?thesis using 4(1,2) Cons by (auto simp: decode_utf16.simps(4))
    next
      case False
      let ?c = "(unat u - 0xD800) * 0x400 + (unat u2 - 0xDC00) + 0x10000"
      have "3 * length us' \<le> room - len_utf8 ?c" "len_utf8 ?c \<le> room"
        using 4(5) Cons four [of ?c] by simp_all
      then show ?thesis using 4 Cons False by (simp add: decode_utf16.simps(4))
    qed
  qed
qed (simp_all add: decode_utf16.simps(3))

lemma push_decoded_chars:
  assumes "push_decoded room (map Inr s) out \<noteq> None"
  shows "push_decoded room (map Inr s) out = Some (Inr (out @ s))"
  using assms
proof (induction s arbitrary: room out)
  case (Cons c s)
  then show ?case using Cons.IH [of "room - len_utf8 c" "out @ [c]"] by (simp split: if_splits)
qed simp

lemma read_back_units:
  assumes "list_all is_scalar s" and "h (Buffer us) = Some (encode_utf16 s @ xs)"
    and "Buffer us \<noteq> null" and "unat (Length us) = 2 * length (encode_utf16 s)"
  shows "unicode_string_as_slice us h = Return (encode_utf16 s)"
    and "reserves (3 * length (encode_utf16 s)) \<Longrightarrow>
      unicode_string_to_string reserves us h = Return (Some (Inr s))"
proof -
  have "Length us = 0 \<longleftrightarrow> encode_utf16 s = []" using assms(4) by auto
  then show slice: "unicode_string_as_slice us h = Return (encode_utf16 s)"
    using assms(2-4) by (auto simp: unicode_string_as_slice_def slice_from_raw_parts_def)
  have "2 * length (encode_utf16 s) < 2 ^ LENGTH(16)"
    unfolding assms(4) [symmetric] by (rule unsigned_less)
  then have small: "length (encode_utf16 s) * 3 < 2 ^ 64" by simp
  have "push_decoded (length (encode_utf16 s) * 3) (decode_utf16 (encode_utf16 s)) [] = Some (Inr s)"
    using push_decoded_fits [of "encode_utf16 s" "length (encode_utf16 s) * 3" "[]"]
      push_decoded_chars [of _ s "[]"] decode_encode_utf16 [OF assms(1)] by (simp add: mult.commute)
  then show "reserves (3 * length (encode_utf16 s)) \<Longrightarrow>
      unicode_string_to_string reserves us h = Return (Some (Inr s))"
    using slice small by (simp add: unicode_string_to_string_def Let_def mult.commute)
qed

section \<open>OwnedUnicodeString\<close>

text \<open>
  What the string needs of its allocator: a block handed out is new and as large as asked for,
  and can be given back with the same layout.
\<close>

definition uni_contract :: "uni_alloc \<Rightarrow> bool" where
  "uni_contract A \<longleftrightarrow>
     (\<forall>l h. fst (ua_alloc A l h) \<noteq> null \<longrightarrow>
        h (fst (ua_alloc A l h)) = None
        \<and> (\<exists>xs. snd (ua_alloc A l h) = h(fst (ua_alloc A l h) \<mapsto> xs)
             \<and> 2 * length xs = unat (layout_size l)))
     \<and> (\<forall>l h. fst (ua_alloc A l h) = null \<longrightarrow> snd (ua_alloc A l h) = h)
     \<and> (\<forall>p l h xs. h p = Some xs \<longrightarrow> 2 * length xs = unat (layout_size l) \<longrightarrow>
          ua_dealloc A p l h = Return (h(p := None)))"

lemma uni_allocD:
  assumes "uni_contract A" and "ua_alloc A l h = (b, h1)"
  shows "b = null \<Longrightarrow> h1 = h"
    and "b \<noteq> null \<Longrightarrow> \<exists>xs. h b = None \<and> h1 = h(b \<mapsto> xs) \<and> 2 * length xs = unat (layout_size l)"
  using assms unfolding uni_contract_def by (metis fst_conv snd_conv)+

lemma write_units_at:
  assumes "h buf = Some xs" and "idx + length us \<le> length xs"
  shows "write_units buf idx us h
    = Return (h(buf \<mapsto> take idx xs @ us @ drop (idx + length us) xs))"
  using assms
proof (induction us arbitrary: idx xs h)
  case Nil
  then show ?case by (simp add: fun_upd_idem)
next
  case (Cons u us)
  let ?ys = "xs[idx := u]"
  have i: "idx < length xs" using Cons.prems(2) by simp
  have "write_units buf (idx + 1) us (h(buf \<mapsto> ?ys))
      = Return ((h(buf \<mapsto> ?ys))(buf \<mapsto> take (idx + 1) ?ys @ us @ drop (idx + 1 + length us) ?ys))"
    using Cons.prems by (intro Cons.IH) simp_all
  then show ?case
    using Cons.prems(1) i
    by (simp add: write_unit_def take_Suc_conv_app_nth del: fun_upd_apply)
qed

lemma layout_array_units:
  assumes "n \<le> max_units"
  shows "layout_array u16_layout (of_nat n) = Some \<lparr>layout_size = 2 * of_nat n, layout_align = 2\<rparr>"
    and "unat (2 * of_nat n :: usize) = 2 * n"
proof -
  have n: "n < 2 ^ 16" using assms by (simp add: max_units_def)
  then have "unat (of_nat n :: usize) = n" by (intro unat_of_nat_small) simp
  then show "layout_array u16_layout (of_nat n) = Some \<lparr>layout_size = 2 * of_nat n, layout_align = 2\<rparr>"
    using n by (simp add: layout_array_def u16_layout_def Let_def)
  have "unat (of_nat (2 * n) :: usize) = 2 * n" using n by (intro unat_of_nat_small) simp
  then show "unat (2 * of_nat n :: usize) = 2 * n" by simp
qed

lemma owned_new_in_succeeds:
  fixes v :: rust_str
  defines "n \<equiv> length (encode_utf16 v)"
  defines "l \<equiv> \<lparr>layout_size = 2 * of_nat (n + 1), layout_align = 2\<rparr>"
  defines "s b \<equiv> \<lparr>us_inner = \<lparr>Length = of_nat (n * 2), MaximumLength = of_nat ((n + 1) * 2), Buffer = b\<rparr>,
      us_buffer = b, us_buffer_len = of_nat (n + 1)\<rparr>"
  assumes "uni_contract A" and "n + 1 \<le> max_units" and "ua_alloc A l h = (buf, h1)" and "buf \<noteq> null"
  shows "owned_new_in A v h = Return (Inr (s buf), h(buf \<mapsto> encode_utf16 v @ [0]))"
    and "h buf = None" and "owned_drop A (s buf) (h(buf \<mapsto> encode_utf16 v @ [0])) = Return h"
proof -
  let ?us = "encode_utf16 v" and ?h = "h(buf \<mapsto> encode_utf16 v @ [0])"
  note layout = layout_array_units [OF assms(5)]
  obtain xs where xs: "h buf = None" "h1 = h(buf \<mapsto> xs)" "length xs = n + 1"
    using uni_allocD(2) [OF assms(4,6,7)] layout(2) by (auto simp: l_def)
  then show "h buf = None" by simp
  have "write_units buf 0 ?us h1 = Return (h(buf \<mapsto> ?us @ drop n xs))"
    using write_units_at [of h1 buf xs 0 ?us] xs by (simp add: n_def)
  moreover have "write_unit buf n 0 (h(buf \<mapsto> ?us @ drop n xs)) = Return ?h"
  proof -
    have "length (drop n xs) = 1" using xs(3) by simp
    then obtain x where "drop n xs = [x]" by (cases "drop n xs") (simp_all del: length_drop)
    then show ?thesis by (simp add: write_unit_def list_update_append n_def)
  qed
  ultimately show "owned_new_in A v h = Return (Inr (s buf), ?h)"
    using assms(5-7) layout(1) by (simp add: owned_new_in_def n_def l_def s_def Let_def)
  have "ua_dealloc A buf l ?h = Return (?h(buf := None))"
    using assms(4) layout(2) unfolding uni_contract_def by (simp add: n_def l_def)
  then show "owned_drop A (s buf) ?h = Return h"
    using layout(1) assms(7) xs(1) by (simp add: owned_drop_def s_def l_def fun_upd_idem)
qed

text \<open>C33: \<open>OwnedUnicodeString::new_in\<close> either refuses a string of more than 32766 code units before it
  allocates, reports a failed allocation, or gives a string whose counted length is exactly the
  text, whose buffer is the text followed by a NUL, and whose \<open>MaximumLength\<close> is the buffer: no
  length wraps in the \<open>u16\<close> fields. Reading it back gives the text it was made from, and dropping
  it returns the buffer with the layout it was allocated with.\<close>

theorem owned_unicode_string_round_trip:
  assumes "uni_contract A" and "list_all is_scalar v"
    and "owned_new_in A v h = Return (r, h')"
  shows "case r of
      Inl TooLong \<Rightarrow> length (encode_utf16 v) + 1 > max_units \<and> h' = h
    | Inl AllocationFailed \<Rightarrow> h' = h
    | Inl InvalidUtf16 \<Rightarrow> False
    | Inr s \<Rightarrow>
        unat (Length (owned_as_unicode s)) = 2 * length (encode_utf16 v)
        \<and> unat (MaximumLength (owned_as_unicode s)) = 2 * length (encode_utf16 v) + 2
        \<and> h' = h(us_buffer s \<mapsto> encode_utf16 v @ [0]) \<and> h (us_buffer s) = None
        \<and> owned_as_utf16 s h' = Return (encode_utf16 v)
        \<and> unicode_string_to_string (\<lambda>n. True) (owned_as_unicode s) h' = Return (Some (Inr v))
        \<and> owned_drop A s h' = Return h"
proof (cases "length (encode_utf16 v) + 1 > max_units")
  case True
  then show ?thesis using assms(3) by (auto simp: owned_new_in_def)
next
  case False
  let ?len = "length (encode_utf16 v)"
  let ?l = "\<lparr>layout_size = 2 * of_nat (?len + 1), layout_align = 2\<rparr>"
  note layout = layout_array_units [of "?len + 1"]
  obtain buf h1 where a: "ua_alloc A ?l h = (buf, h1)" by fastforce
  show ?thesis
  proof (cases "buf = null")
    case True
    then have "h1 = h" using uni_allocD(1) [OF assms(1) a] by simp
    then have "owned_new_in A v h = Return (Inl AllocationFailed, h)"
      using False layout a True by (simp add: owned_new_in_def)
    then have "r = Inl AllocationFailed" "h' = h" using assms(3) by simp_all
    then show ?thesis by simp
  next
    case live: False
    let ?s = "\<lparr>us_inner = \<lparr>Length = of_nat (?len * 2), MaximumLength = of_nat ((?len + 1) * 2),
        Buffer = buf\<rparr>, us_buffer = buf, us_buffer_len = of_nat (?len + 1)\<rparr>"
    note made = owned_new_in_succeeds [OF assms(1) _ a live]
    have r: "r = Inr ?s" "h' = h(buf \<mapsto> encode_utf16 v @ [0])" and free: "h buf = None"
      and dropped: "owned_drop A ?s h' = Return h"
      using made assms(3) False by simp_all
    have len: "unat (of_nat (?len * 2) :: u16) = ?len * 2"
      "unat (of_nat ((?len + 1) * 2) :: u16) = (?len + 1) * 2"
      using False by (intro unat_of_nat_small; simp add: max_units_def)+
    have "unicode_string_to_string (\<lambda>n. True) (us_inner ?s) h' = Return (Some (Inr v))"
      using r(2) len(1) live by (intro read_back_units(2) [OF assms(2)]) simp_all
    moreover have "owned_as_utf16 ?s h' = Return (encode_utf16 v)"
      using r(2) len(1) by (simp add: owned_as_utf16_def slice_from_raw_parts_def)
    ultimately show ?thesis using r len free dropped by (simp add: owned_as_unicode_def)
  qed
qed

text \<open>An allocator with one place for a buffer.\<close>

definition even_buffers :: uni_alloc where
  "even_buffers =
     \<lparr>ua_alloc = (\<lambda>l h. if h 4096 = None \<and> even (unat (layout_size l))
        then (4096, h(4096 \<mapsto> replicate (unat (layout_size l) div 2) 0)) else (null, h)),
      ua_dealloc = (\<lambda>p l h. Return (h(p := None)))\<rparr>"

lemma even_buffers_contract: "uni_contract even_buffers"
  by (auto simp: uni_contract_def even_buffers_def)

theorem owned_unicode_string_round_trip_witness:
  "\<exists>s h'. owned_new_in even_buffers [0x41, 0x1F600] Map.empty = Return (Inr s, h')
    \<and> unat (Length (owned_as_unicode s)) = 6
    \<and> unicode_string_to_string (\<lambda>n. True) (owned_as_unicode s) h' = Return (Some (Inr [0x41, 0x1F600]))"
proof -
  obtain s h' where new: "owned_new_in even_buffers [0x41, 0x1F600] Map.empty = Return (Inr s, h')"
    by (simp add: owned_new_in_def even_buffers_def encode_char_def max_units_def layout_array_def
        u16_layout_def write_unit_def Let_def)
  then show ?thesis
    using owned_unicode_string_round_trip [OF even_buffers_contract _ new]
    by (auto simp: is_scalar_def encode_char_def)
qed

text \<open>\<open>unicode_string_to_string\<close> never grows its string while it decodes: the three bytes per code
  unit it reserves (fallibly) up front are enough for every sequence of code units, valid or
  not, so no push can meet an exhausted allocator.\<close>

theorem to_string_never_grows:
  "unicode_string_to_string reserves us h \<noteq> Return None"
  using push_decoded_fits [of _ "length _ * 3" "[]"]
  by (auto simp: unicode_string_to_string_def outcome_simps Let_def mult.commute split: if_splits)

section \<open>LocalUnicodeString\<close>

text \<open>
  A local string of \<open>N\<close> units is well formed when its text and the terminating NUL fit in the
  buffer and in the \<open>u16\<close> length fields, or when it is the empty string of a buffer without room.
\<close>

definition wf_local :: "nat \<Rightarrow> LocalUnicodeString \<Rightarrow> bool" where
  "wf_local N self \<longleftrightarrow>
     length (lus_buffer self) = N
     \<and> (if N = 0 then lus_len self = 0
        else lus_len self < min N max_units \<and> lus_buffer self ! lus_len self = 0)"

lemma store_units_at:
  assumes "i + length us \<le> length xs"
  shows "store_units i us xs = Return (take i xs @ us @ drop (i + length us) xs)"
  using assms
proof (induction us arbitrary: i xs)
  case (Cons u us)
  have "store_units (i + 1) us (xs[i := u])
      = Return (take (i + 1) (xs[i := u]) @ us @ drop (i + 1 + length us) (xs[i := u]))"
    using Cons.prems by (intro Cons.IH) simp
  then show ?case using Cons.prems by (simp add: store_index_def take_Suc_conv_app_nth)
qed simp

lemma wf_local_new: "wf_local N (local_new N)"
  by (simp add: wf_local_def local_new_def max_units_def)

lemma try_push_str_cases:
  assumes wf: "wf_local N self"
  shows "if lus_len self + length (encode_utf16 v) + 1 > min N max_units
    then try_push_str v self = Return (Inl TooLong, self)
    else \<exists>self'. try_push_str v self = Return (Inr (), self') \<and> wf_local N self'
      \<and> take (lus_len self') (lus_buffer self')
          = take (lus_len self) (lus_buffer self) @ encode_utf16 v
      \<and> lus_len self' = lus_len self + length (encode_utf16 v)"
proof (cases "lus_len self + length (encode_utf16 v) + 1 > min N max_units")
  case True
  then show ?thesis using wf by (simp add: try_push_str_def Let_def wf_local_def)
next
  case False
  let ?us = "encode_utf16 v" and ?xs = "lus_buffer self" and ?n = "lus_len self"
  let ?ys = "take ?n ?xs @ ?us @ drop (?n + length ?us) ?xs"
  have N: "length ?xs = N" using wf by (simp add: wf_local_def)
  have "store_units ?n ?us ?xs = Return ?ys" using False N by (intro store_units_at) simp
  moreover have ys: "length ?ys = N" "?n + length ?us < N" "?n + length ?us < max_units"
    using False N by auto
  ultimately have call: "try_push_str v self
      = Return (Inr (), \<lparr>lus_buffer = ?ys[?n + length ?us := 0], lus_len = ?n + length ?us\<rparr>)"
    using False N by (simp add: try_push_str_def Let_def store_index_def)
  moreover have "take (?n + length ?us) (?ys[?n + length ?us := 0]) = take ?n ?xs @ ?us"
    using ys N by simp
  moreover have "?ys[?n + length ?us := 0] ! (?n + length ?us) = 0"
    using ys by (intro nth_list_update_eq) simp
  moreover have "length (?ys[?n + length ?us := 0]) = N" using ys(1) by (simp only: length_list_update)
  ultimately show ?thesis using False ys(2,3) by (simp add: wf_local_def del: length_list_update)
qed

text \<open>C34: \<open>LocalUnicodeString\<close> never panics and never truncates. From any sequence of pushes and clears
  the string stays NUL-terminated inside its buffer; a push appends exactly the code units of its
  argument, or reports \<open>TooLong\<close> and leaves the string untouched; it succeeds exactly when text and
  NUL fit in the buffer and in the \<open>u16\<close> lengths; and the view it hands out has the exact length.\<close>

theorem local_unicode_string_correct:
  assumes "wf_local N self"
  shows "returns (try_push_str v self)
    \<and> (\<forall>r self'. try_push_str v self = Return (r, self') \<longrightarrow>
        wf_local N self'
        \<and> (r = Inr () \<longleftrightarrow> lus_len self + length (encode_utf16 v) < min N max_units)
        \<and> local_as_utf16 self' = Return (take (lus_len self) (lus_buffer self)
            @ (if r = Inr () then encode_utf16 v else []))
        \<and> unat (Length (as_unicode_ref at self')) = 2 * lus_len self'
        \<and> (0 < N \<longrightarrow> Length (as_unicode_ref at self') < MaximumLength (as_unicode_ref at self')))
    \<and> (\<exists>self'. local_clear self = Return self' \<and> wf_local N self' \<and> lus_len self' = 0)"
proof -
  have view: "local_as_utf16 s = Return (take (lus_len s) (lus_buffer s))
      \<and> unat (Length (as_unicode_ref at s)) = 2 * lus_len s
      \<and> (0 < N \<longrightarrow> Length (as_unicode_ref at s) < MaximumLength (as_unicode_ref at s))"
    if "wf_local N s" for s
  proof -
    have len: "lus_len s \<le> N" "lus_len s \<le> max_units" "0 < N \<longrightarrow> lus_len s < min N max_units"
      "length (lus_buffer s) = N"
      using that by (auto simp: wf_local_def split: if_splits)
    have "unat (of_nat (lus_len s * 2) :: u16) = lus_len s * 2"
      "unat (of_nat (min N max_units * 2) :: u16) = min N max_units * 2"
      using len by (intro unat_of_nat_small; simp add: max_units_def)+
    then show ?thesis
      using len by (simp add: local_as_utf16_def as_unicode_ref_def Let_def word_less_nat_alt)
  qed
  have "\<exists>self'. local_clear self = Return self' \<and> wf_local N self' \<and> lus_len self' = 0"
    using assms
    by (cases "lus_buffer self") (auto simp: local_clear_def wf_local_def store_index_def max_units_def)
  moreover have "returns (try_push_str v self)
    \<and> (\<forall>r self'. try_push_str v self = Return (r, self') \<longrightarrow>
        wf_local N self'
        \<and> (r = Inr () \<longleftrightarrow> lus_len self + length (encode_utf16 v) < min N max_units)
        \<and> take (lus_len self') (lus_buffer self') = take (lus_len self) (lus_buffer self)
            @ (if r = Inr () then encode_utf16 v else []))"
  proof (cases "lus_len self + length (encode_utf16 v) + 1 > min N max_units")
    case True
    then have "try_push_str v self = Return (Inl TooLong, self)"
      using try_push_str_cases [OF assms, of v] by simp
    moreover have "\<not> lus_len self + length (encode_utf16 v) < min N max_units"
      using True by linarith
    ultimately show ?thesis using assms by simp
  next
    case False
    then obtain self' where "try_push_str v self = Return (Inr (), self')" "wf_local N self'"
      "take (lus_len self') (lus_buffer self')
          = take (lus_len self) (lus_buffer self) @ encode_utf16 v"
      using try_push_str_cases [OF assms, of v] by auto
    moreover have "lus_len self + length (encode_utf16 v) < min N max_units" using False by linarith
    ultimately show ?thesis by simp
  qed
  ultimately show ?thesis using view by (auto simp del: returns_iff)
qed

theorem local_unicode_string_correct_witness:
  "\<exists>r self'. try_push_str [0x41, 0x1F600] (local_new 4) = Return (r, self')
     \<and> local_as_utf16 self' = Return [0x41, 0xD83D, 0xDE00]"
  using local_unicode_string_correct [OF wf_local_new, of "[0x41, 0x1F600]" 4 0]
  by (auto simp: encode_char_def local_new_def max_units_def returns_iff)

text \<open>The macro \<open>kstr!\<close> computes exact lengths for literals of fewer than 32767 code units; it does
  not check the limit, and for a literal of 32768 units the counted length wraps to zero, so that
  the string reads as empty.\<close>

theorem kstr_lengths:
  "(length buf \<le> max_units \<and> 0 < length buf \<longrightarrow>
      unat (Length (kstr buf at)) = 2 * (length buf - 1)
      \<and> unat (MaximumLength (kstr buf at)) = 2 * length buf)
   \<and> (length buf = 32769 \<longrightarrow> unicode_string_as_slice (kstr buf at) h = Return [])"
proof (intro conjI impI)
  assume a: "length buf \<le> max_units \<and> 0 < length buf"
  then have "(length buf - 1) * 2 < 2 ^ LENGTH(16)" by (auto simp: max_units_def)
  then show "unat (Length (kstr buf at)) = 2 * (length buf - 1)"
    using unat_of_nat_small [of "(length buf - 1) * 2", where 'a = 16]
    by (simp add: kstr_def max_units_def mult.commute)
  show "unat (MaximumLength (kstr buf at)) = 2 * length buf"
    using a unat_of_nat_small [of "length buf * 2", where 'a = 16]
    by (simp add: kstr_def max_units_def mult.commute)
next
  assume "length buf = 32769"
  then have "Length (kstr buf at) = 0" by (simp add: kstr_def)
  then show "unicode_string_as_slice (kstr buf at) h = Return []"
    by (simp add: unicode_string_as_slice_def)
qed

theorem kstr_lengths_witness:
  "unat (Length (kstr [0x54, 0x65, 0] 16)) = 4
   \<and> unicode_string_as_slice (kstr (replicate 32769 0x41) 16) Map.empty = Return []"
  using kstr_lengths [of "[0x54, 0x65, 0]" 16 Map.empty]
    kstr_lengths [of "replicate 32769 0x41" 16 Map.empty] by (simp add: max_units_def)

end
