(* ===== verification/Unit_Tests.thy ===== *)
theory Unit_Tests
  imports Interfaces Async_Properties Unicode
begin

text \<open>
  The unit tests of the crate as programs over the model: the \<open>tests\<close> modules of \<open>src/wrapper.rs\<close>,
  \<open>src/smart_ptr.rs\<close>, \<open>src/async_com.rs\<close> and \<open>src/unicode.rs\<close>. A failed assertion and an \<open>unwrap\<close> of an
  error panic, so a test passes when it returns. The tests take the build, the address the host's
  allocator gives them and the state the process is in when they start: a test that passes does so
  in all builds and whatever ran before it. The mutexes that keep the tests of a module apart are not
  modelled; a test runs alone.
\<close>

section \<open>Assertions\<close>

definition assert_that :: "bool \<Rightarrow> unit outcome" where
  "assert_that c = (if c then Return () else Panic)"

definition unwrap_option :: "'a option \<Rightarrow> 'a outcome" where
  "unwrap_option x = (case x of None \<Rightarrow> Panic | Some v \<Rightarrow> Return v)"

definition unwrap_result :: "'e + 'a \<Rightarrow> 'a outcome" where
  "unwrap_result x = (case x of Inl e \<Rightarrow> Panic | Inr v \<Rightarrow> Return v)"

definition unwrap_new :: "('e + 'a) \<times> 'w \<Rightarrow> ('a \<times> 'w) outcome" where
  "unwrap_new x = and_then (unwrap_result (fst x)) (\<lambda>v. Return (v, snd x))"

lemma assert_that_simps [simp]: "assert_that True = Return ()" "assert_that False = Panic"
  by (simp_all add: assert_that_def)

lemma unwrap_simps [simp]:
  "unwrap_option (Some v) = Return v" "unwrap_option None = Panic"
  "unwrap_result (Inr v) = Return v" "unwrap_result (Inl e) = Panic"
  "unwrap_new (Inr v, w) = Return (v, w)" "unwrap_new (Inl e, w) = Panic"
  by (simp_all add: unwrap_option_def unwrap_result_def unwrap_new_def)

section \<open>Tests of the wrapper\<close>

datatype Dummy = Dummy

record wrapper_statics =
  DROP_COUNT :: u32
  OUTER_ADDREF_COUNT :: u32
  OUTER_RELEASE_COUNT :: u32
  OUTER_QUERY_COUNT :: u32

type_synonym wrapper_world = "(Dummy, GlobalAllocator, wrapper_statics) world"

definition set_statics :: "('x \<Rightarrow> 'x) \<Rightarrow> ('t, 'a, 'x) world \<Rightarrow> ('t, 'a, 'x) world" where
  "set_statics g w = w\<lparr>foreign := g (foreign w)\<rparr>"

definition outer_add_ref :: "build \<Rightarrow> com_ptr \<Rightarrow> wrapper_world \<Rightarrow> (u32 \<times> wrapper_world) outcome" where
  "outer_add_ref b this w =
     and_then (assert_that (this \<noteq> NullPtr)) (\<lambda>u.
     and_then (add_unhardened (overflow_checks b) (OUTER_ADDREF_COUNT (foreign w))) (\<lambda>(r, c).
       Return (r, set_statics (OUTER_ADDREF_COUNT_update (\<lambda>x. c)) w)))"

definition outer_release :: "build \<Rightarrow> com_ptr \<Rightarrow> wrapper_world \<Rightarrow> (u32 \<times> wrapper_world) outcome" where
  "outer_release b this w =
     and_then (assert_that (this \<noteq> NullPtr)) (\<lambda>u.
     and_then (add_unhardened (overflow_checks b) (OUTER_RELEASE_COUNT (foreign w))) (\<lambda>(r, c).
       Return (r, set_statics (OUTER_RELEASE_COUNT_update (\<lambda>x. c)) w)))"

definition outer_query_interface ::
  "com_ptr \<Rightarrow> GUID option \<Rightarrow> bool \<Rightarrow> wrapper_world
    \<Rightarrow> ((NTSTATUS \<times> com_ptr option) \<times> wrapper_world) outcome" where
  "outer_query_interface this riid ppv w =
     and_then (assert_that (this \<noteq> NullPtr)) (\<lambda>u.
       Return ((STATUS_NOINTERFACE, if ppv then Some NullPtr else None),
         set_statics (OUTER_QUERY_COUNT_update (\<lambda>c. c + 1)) w))"

definition dummy_drop :: "addr \<Rightarrow> Dummy \<Rightarrow> wrapper_world \<Rightarrow> wrapper_world outcome" where
  "dummy_drop a v w = Return (set_statics (DROP_COUNT_update (\<lambda>c. c + 1)) w)"

text \<open>The vtable of the outer object is \<open>OUTER_VTBL\<close>; \<open>Dummy\<close> has the blanket instance of \<open>ComImpl\<close>.\<close>

definition wrapper_test_env ::
  "build \<Rightarrow> addr \<Rightarrow> (Dummy, GlobalAllocator, wrapper_statics) env" where
  "wrapper_test_env b p =
     with_impl False unknown_impl
       \<lparr>env_build = b, env_layout = \<lparr>layout_size = 48, layout_align = 8\<rparr>,
        env_alloc = (\<lambda>al l w. (p, w)),
        env_dealloc = (\<lambda>al a l w. w),
        env_drop_inner = dummy_drop,
        env_query_interface = (\<lambda>v this iid w. Undefined),
        env_foreign_add_ref = outer_add_ref b,
        env_foreign_release = outer_release b,
        env_foreign_query_interface = outer_query_interface\<rparr>"

definition add_ref_release_drops ::
  "build \<Rightarrow> addr \<Rightarrow> wrapper_world \<Rightarrow> wrapper_world outcome" where
  "add_ref_release_drops b p w0 =
     (let env = wrapper_test_env b p; w = set_statics (DROP_COUNT_update (\<lambda>c. 0)) w0
      in and_then (unwrap_new (com_object_new env Dummy w)) (\<lambda>(ptr, w1).
         and_then (shim_add_ref env ptr w1) (\<lambda>(r, w2). and_then (assert_that (r = 2)) (\<lambda>u.
         and_then (shim_release env ptr w2) (\<lambda>(r, w3). and_then (assert_that (r = 1)) (\<lambda>u.
         and_then (shim_release env ptr w3) (\<lambda>(r, w4). and_then (assert_that (r = 0)) (\<lambda>u.
         and_then (assert_that (DROP_COUNT (foreign w4) = 1)) (\<lambda>u. Return w4)))))))))"

definition query_interface_iunknown_returns_self ::
  "build \<Rightarrow> addr \<Rightarrow> wrapper_world \<Rightarrow> wrapper_world outcome" where
  "query_interface_iunknown_returns_self b p w0 =
     (let env = wrapper_test_env b p; w = set_statics (DROP_COUNT_update (\<lambda>c. 0)) w0
      in and_then (unwrap_new (com_object_new env Dummy w)) (\<lambda>(ptr, w1).
         and_then (shim_query_interface env ptr (Some IID_IUNKNOWN) True w1) (\<lambda>((status, written), w2).
         let out = (case written of None \<Rightarrow> NullPtr | Some q \<Rightarrow> q)
         in and_then (assert_that (status = STATUS_SUCCESS)) (\<lambda>u.
         and_then (assert_that (out = ptr)) (\<lambda>u.
         and_then (shim_release env ptr w2) (\<lambda>(r, w3). and_then (assert_that (r = 1)) (\<lambda>u.
         and_then (shim_release env ptr w3) (\<lambda>(r, w4). and_then (assert_that (r = 0)) (\<lambda>u.
         and_then (assert_that (DROP_COUNT (foreign w4) = 1)) (\<lambda>u. Return w4))))))))))"

text \<open>\<open>outer\<close> is the address of the local of type \<open>OuterUnknown\<close>.\<close>

definition aggregated_non_delegating_and_delegating_paths ::
  "build \<Rightarrow> addr \<Rightarrow> addr \<Rightarrow> wrapper_world \<Rightarrow> wrapper_world outcome" where
  "aggregated_non_delegating_and_delegating_paths b p outer w0 =
     (let env = wrapper_test_env b p;
          w = w0\<lparr>foreign := \<lparr>DROP_COUNT = 0, OUTER_ADDREF_COUNT = 0, OUTER_RELEASE_COUNT = 0,
            OUTER_QUERY_COUNT = 0\<rparr>\<rparr>
      in and_then (unwrap_new (com_object_new_aggregated env Dummy (ForeignPtr outer) w)) (\<lambda>(ptr, w1).
         and_then (call_AddRef env ptr w1) (\<lambda>(r, w2). and_then (assert_that (r = 2)) (\<lambda>u.
         and_then (call_Release env ptr w2) (\<lambda>(r, w3). and_then (assert_that (r = 1)) (\<lambda>u.
         and_then (assert_that (OUTER_ADDREF_COUNT (foreign w3) = 0)) (\<lambda>u.
         and_then (assert_that (OUTER_RELEASE_COUNT (foreign w3) = 0)) (\<lambda>u.
         and_then (from_non_delegating ptr w3) (\<lambda>(a, ob).
         let delegating_ptr = PrimaryPtr a
         in and_then (shim_add_ref env delegating_ptr w3) (\<lambda>(r, w4). and_then (assert_that (r = 1)) (\<lambda>u.
         and_then (shim_release env delegating_ptr w4) (\<lambda>(r, w5). and_then (assert_that (r = 1)) (\<lambda>u.
         and_then (assert_that (OUTER_ADDREF_COUNT (foreign w5) = 1)) (\<lambda>u.
         and_then (assert_that (OUTER_RELEASE_COUNT (foreign w5) = 1)) (\<lambda>u.
         and_then (call_Release env ptr w5) (\<lambda>(r, w6). and_then (assert_that (r = 0)) (\<lambda>u.
         and_then (assert_that (DROP_COUNT (foreign w6) = 1)) (\<lambda>u. Return w6))))))))))))))))))"

lemma count_small [simp]:
  "refcount_add b 1 = Return (2, 2)" "refcount_add b 2 = Return (3, 3)"
  "refcount_sub b 1 = Return (0, 0)" "refcount_sub b 2 = Return (1, 1)"
  "refcount_sub b 3 = Return (2, 2)" "add_unhardened ov 0 = Return (1, 1)"
  using refcount.add_below [of 1 b] refcount.add_below [of 2 b] refcount.sub_positive [of 1 b]
    refcount.sub_positive [of 2 b] refcount.sub_positive [of 3 b]
  by (simp_all add: refcount_cap_def add_unhardened_def)

lemmas wrapper_shim_defs =
  com_object_new_def new_in_def try_new_in_def shim_add_ref_def shim_release_def from_ptr_def
  delegating_add_ref_def delegating_release_def add_ref_count_def sub_ref_count_def release_inner_def
  init_non_delegating_ptr_def put_object_def log_event_def panic_guard_def
  com_object_new_aggregated_def new_aggregated_in_def try_new_aggregated_in_def non_delegating_ptr_def
  call_AddRef_def call_Release_def read_vtbl_def from_non_delegating_def non_delegating_parent_ptr_def
  shim_non_delegating_add_ref_def shim_non_delegating_release_def shim_query_interface_def
  answer_query_def

lemmas wrapper_test_defs =
  wrapper_test_env_def with_impl_def set_statics_def dummy_drop_def outer_add_ref_def outer_release_def

lemma add_ref_release_drops_result:
  "p \<noteq> null \<Longrightarrow> \<exists>w. add_ref_release_drops b p w0 = Return w \<and> objects w = (objects w0)(p := None)"
  by (simp add: add_ref_release_drops_def wrapper_test_defs wrapper_shim_defs Let_def)

lemma query_interface_iunknown_returns_self_result:
  "p \<noteq> null \<Longrightarrow>
    \<exists>w. query_interface_iunknown_returns_self b p w0 = Return w \<and> objects w = (objects w0)(p := None)"
  by (simp add: query_interface_iunknown_returns_self_def wrapper_test_defs wrapper_shim_defs Let_def)

lemma aggregated_paths_result:
  "p \<noteq> null \<Longrightarrow>
    \<exists>w. aggregated_non_delegating_and_delegating_paths b p outer w0 = Return w
      \<and> objects w = (objects w0)(p := None)"
  by (simp add: aggregated_non_delegating_and_delegating_paths_def wrapper_test_defs wrapper_shim_defs
      Let_def)

section \<open>Two tests of the wrapper at once\<close>

text \<open>
  The test harness runs the tests of a binary on several threads. The tests of the wrapper share the
  counter \<open>DROP_COUNT\<close>, and unlike those of the smart pointer they take no lock. \<open>counting_test_steps\<close>
  is the first test cut at its calls, with the pointer of the object at hand: run alone, it is the test.
\<close>

fun run_steps :: "('w \<Rightarrow> 'w outcome) list \<Rightarrow> 'w \<Rightarrow> 'w outcome" where
  "run_steps [] w = Return w"
| "run_steps (f # fs) w = and_then (f w) (run_steps fs)"

definition counting_test_steps :: "build \<Rightarrow> addr \<Rightarrow> (wrapper_world \<Rightarrow> wrapper_world outcome) list" where
  "counting_test_steps b p =
     (let env = wrapper_test_env b p;
          release = (\<lambda>c w. and_then (shim_release env (PrimaryPtr p) w) (\<lambda>(r, w').
            and_then (assert_that (r = c)) (\<lambda>u. Return w')))
      in [\<lambda>w. Return (set_statics (DROP_COUNT_update (\<lambda>c. 0)) w),
          \<lambda>w. and_then (unwrap_new (com_object_new env Dummy w)) (\<lambda>(ptr, w'). Return w'),
          \<lambda>w. and_then (shim_add_ref env (PrimaryPtr p) w) (\<lambda>(r, w').
            and_then (assert_that (r = 2)) (\<lambda>u. Return w')),
          release 1, release 0,
          \<lambda>w. and_then (assert_that (DROP_COUNT (foreign w) = 1)) (\<lambda>u. Return w)])"

lemma counting_test_steps_alone:
  "p \<noteq> null \<Longrightarrow> run_steps (counting_test_steps b p) w = add_ref_release_drops b p w"
  by (simp add: counting_test_steps_def add_ref_release_drops_def wrapper_test_defs wrapper_shim_defs
      Let_def)

lemma interleaved_tail: "qs @ [x, y] \<in> shuffles [x] (qs @ [y])"
  by (induction qs) (simp_all add: Cons_in_shuffles_rightI)

lemma interleaved: "q # ps @ qs @ [x, y] \<in> shuffles (ps @ [x]) (q # qs @ [y])"
  by (rule Cons_in_shuffles_rightI, induction ps)
    (simp_all add: interleaved_tail Cons_in_shuffles_leftI)

text \<open>
  Two instances of the test on objects of their own can be interleaved so that one assertion fails:
  the second one's object is dropped before the first one looks at the counter.
\<close>

lemma wrapper_tests_race:
  assumes "p \<noteq> null" and "q \<noteq> null" and "p \<noteq> q"
  shows "\<exists>fs \<in> shuffles (counting_test_steps b p) (counting_test_steps b q). run_steps fs w = Panic"
proof -
  let ?P = "counting_test_steps b p" and ?Q = "counting_test_steps b q"
  let ?fs = "hd ?Q # butlast ?P @ butlast (tl ?Q) @ [last ?P, last ?Q]"
  have "?fs \<in> shuffles (butlast ?P @ [last ?P]) (hd ?Q # butlast (tl ?Q) @ [last ?Q])"
    by (rule interleaved)
  moreover have "butlast ?P @ [last ?P] = ?P" "hd ?Q # butlast (tl ?Q) @ [last ?Q] = ?Q"
    by (simp_all add: counting_test_steps_def Let_def)
  moreover have "run_steps ?fs w = Panic"
    using assms by (simp add: counting_test_steps_def wrapper_test_defs wrapper_shim_defs Let_def)
  ultimately show ?thesis by metis
qed

section \<open>Tests of the smart pointer\<close>

record smart_ptr_statics =
  SP_DROP_COUNT :: u32

type_synonym smart_ptr_world = "(Dummy, GlobalAllocator, smart_ptr_statics) world"

definition IFoo :: com_interface where
  "IFoo =
     Interface ''IFoo''
       \<lparr>data1 = 0xAA55AA55, data2 = 0x1234, data3 = 0x5678,
        data4 = [0x10, 0x20, 0x30, 0x40, 0x50, 0x60, 0x70, 0x80]\<rparr>
       None [Method ''ping'' (TyOther ''NTSTATUS'')]"

definition smart_ptr_drop :: "addr \<Rightarrow> Dummy \<Rightarrow> smart_ptr_world \<Rightarrow> smart_ptr_world outcome" where
  "smart_ptr_drop a v w = Return (set_statics (SP_DROP_COUNT_update (\<lambda>c. c + 1)) w)"

text \<open>\<open>impl\<close> is the instance of \<open>ComImpl\<close> the object is created at: \<open>IUnknownVtbl\<close> or \<open>IFooVtbl\<close>.\<close>

definition smart_ptr_env ::
  "build \<Rightarrow> com_impl \<Rightarrow> addr \<Rightarrow> (Dummy, GlobalAllocator, smart_ptr_statics) env" where
  "smart_ptr_env b impl p =
     with_impl False impl
       \<lparr>env_build = b, env_layout = \<lparr>layout_size = 48, layout_align = 8\<rparr>,
        env_alloc = (\<lambda>al l w. (p, w)),
        env_dealloc = (\<lambda>al a l w. w),
        env_drop_inner = smart_ptr_drop,
        env_query_interface = (\<lambda>v this iid w. Undefined),
        env_foreign_add_ref = (\<lambda>p w. Undefined),
        env_foreign_release = (\<lambda>p w. Undefined),
        env_foreign_query_interface = (\<lambda>p riid ppv w. Undefined)\<rparr>"

definition from_raw_addref_balances_release ::
  "build \<Rightarrow> addr \<Rightarrow> smart_ptr_world \<Rightarrow> smart_ptr_world outcome" where
  "from_raw_addref_balances_release b p w0 =
     (let env = smart_ptr_env b unknown_impl p; w = set_statics (SP_DROP_COUNT_update (\<lambda>c. 0)) w0
      in and_then (unwrap_new (com_object_new env Dummy w)) (\<lambda>(raw, w1).
         and_then (rc_from_raw_addref env raw w1) (\<lambda>(x, w2). and_then (unwrap_option x) (\<lambda>com.
         and_then (rc_drop env com w2) (\<lambda>w3.
         and_then (assert_that (SP_DROP_COUNT (foreign w3) = 0)) (\<lambda>u.
         and_then (shim_release env raw w3) (\<lambda>(r, w4). and_then (assert_that (r = 0)) (\<lambda>u.
         and_then (assert_that (SP_DROP_COUNT (foreign w4) = 1)) (\<lambda>u. Return w4)))))))))"

definition from_raw_consumes_reference ::
  "build \<Rightarrow> addr \<Rightarrow> smart_ptr_world \<Rightarrow> smart_ptr_world outcome" where
  "from_raw_consumes_reference b p w0 =
     (let env = smart_ptr_env b unknown_impl p; w = set_statics (SP_DROP_COUNT_update (\<lambda>c. 0)) w0
      in and_then (unwrap_new (com_object_new env Dummy w)) (\<lambda>(raw, w1).
         and_then (unwrap_option (rc_from_raw raw)) (\<lambda>com.
         and_then (rc_drop env com w1) (\<lambda>w2.
         and_then (assert_that (SP_DROP_COUNT (foreign w2) = 1)) (\<lambda>u. Return w2)))))"

definition clone_adds_reference ::
  "build \<Rightarrow> addr \<Rightarrow> smart_ptr_world \<Rightarrow> smart_ptr_world outcome" where
  "clone_adds_reference b p w0 =
     (let env = smart_ptr_env b unknown_impl p; w = set_statics (SP_DROP_COUNT_update (\<lambda>c. 0)) w0
      in and_then (unwrap_new (com_object_new env Dummy w)) (\<lambda>(raw, w1).
         and_then (rc_from_raw_addref env raw w1) (\<lambda>(x, w2). and_then (unwrap_option x) (\<lambda>com.
         and_then (rc_clone env com w2) (\<lambda>(com_clone, w3).
         and_then (rc_drop env com w3) (\<lambda>w4.
         and_then (rc_drop env com_clone w4) (\<lambda>w5.
         and_then (assert_that (SP_DROP_COUNT (foreign w5) = 0)) (\<lambda>u.
         and_then (shim_release env raw w5) (\<lambda>(r, w6). and_then (assert_that (r = 0)) (\<lambda>u.
         and_then (assert_that (SP_DROP_COUNT (foreign w6) = 1)) (\<lambda>u. Return w6)))))))))))"

definition query_interface_returns_comrc ::
  "build \<Rightarrow> addr \<Rightarrow> smart_ptr_world \<Rightarrow> smart_ptr_world outcome" where
  "query_interface_returns_comrc b p w =
     (let env = smart_ptr_env b (single_impl IFoo) p
      in and_then (unwrap_new (new_com env Dummy w)) (\<lambda>(raw, w1).
         and_then (rc_from_raw_addref env raw w1) (\<lambda>(x, w2). and_then (unwrap_option x) (\<lambda>com.
         and_then (rc_query_interface env (iface_iid IFoo) com w2) (\<lambda>(y, w3).
         and_then (unwrap_result y) (\<lambda>queried.
         and_then (rc_drop env queried w3) (\<lambda>w4.
         and_then (rc_drop env com w4) (\<lambda>w5.
         and_then (shim_release env raw w5) (\<lambda>(r, w6).
         and_then (assert_that (r = 0)) (\<lambda>u. Return w6))))))))))"

definition from_raw_or_status_rejects_null :: "unit outcome" where
  "from_raw_or_status_rejects_null =
     assert_that (rc_from_raw_or_status NullPtr = Inl (Status STATUS_NOINTERFACE))"

lemmas smart_ptr_test_defs =
  smart_ptr_env_def with_impl_def set_statics_def smart_ptr_drop_def rc_from_raw_addref_def
  rc_from_raw_def rc_drop_def rc_clone_def

lemma from_raw_addref_balances_release_result:
  "p \<noteq> null \<Longrightarrow>
    \<exists>w. from_raw_addref_balances_release b p w0 = Return w \<and> objects w = (objects w0)(p := None)"
  by (simp add: from_raw_addref_balances_release_def smart_ptr_test_defs wrapper_shim_defs Let_def)

lemma from_raw_consumes_reference_result:
  "p \<noteq> null \<Longrightarrow>
    \<exists>w. from_raw_consumes_reference b p w0 = Return w \<and> objects w = (objects w0)(p := None)"
  by (simp add: from_raw_consumes_reference_def smart_ptr_test_defs wrapper_shim_defs Let_def)

lemma clone_adds_reference_result:
  "p \<noteq> null \<Longrightarrow> \<exists>w. clone_adds_reference b p w0 = Return w \<and> objects w = (objects w0)(p := None)"
  by (simp add: clone_adds_reference_def smart_ptr_test_defs wrapper_shim_defs Let_def)

lemma query_interface_returns_comrc_result:
  "p \<noteq> null \<Longrightarrow>
    \<exists>w. query_interface_returns_comrc b p w0 = Return w \<and> objects w = (objects w0)(p := None)"
  by (simp add: query_interface_returns_comrc_def smart_ptr_test_defs wrapper_shim_defs Let_def
      new_com_def rc_query_interface_def call_QueryInterface_def IFoo_def IID_IUNKNOWN_def
      single_query_interface_def rc_from_raw_or_status_def is_error_def from_raw_def STATUS_SUCCESS_def
      )

lemma from_raw_or_status_rejects_null_result: "from_raw_or_status_rejects_null = Return ()"
  by (simp add: from_raw_or_status_rejects_null_def rc_from_raw_or_status_def)

section \<open>Tests of asynchronous operations\<close>

record async_statics =
  ASYNC_OPERATION_DROP_COUNT :: usize

type_synonym async_world = "(u32, async_statics) op_world"

definition async_operation_drop ::
  "addr \<Rightarrow> u32 AsyncOperationTask \<Rightarrow> async_world \<Rightarrow> async_world outcome" where
  "async_operation_drop a v w = Return (set_statics (ASYNC_OPERATION_DROP_COUNT_update (\<lambda>c. c + 1)) w)"

definition async_test_env :: "build \<Rightarrow> addr \<Rightarrow> (u32, async_statics) op_env" where
  "async_test_env b p =
     \<lparr>env_build = b, env_layout = \<lparr>layout_size = 64, layout_align = 8\<rparr>,
      env_alloc = (\<lambda>al l w. (p, w)),
      env_dealloc = (\<lambda>al a l w. w),
      env_drop_inner = async_operation_drop,
      env_query_interface = (\<lambda>v this iid w. Return (async_query_interface v this iid, w)),
      env_foreign_add_ref = (\<lambda>p w. Undefined),
      env_foreign_release = (\<lambda>p w. Undefined),
      env_foreign_query_interface = (\<lambda>p riid ppv w. Undefined)\<rparr>"

text \<open>
  The futures of the tests: an \<open>async\<close> block with a value, whose state tells whether it has returned,
  and \<open>core::future::pending\<close>.
\<close>

definition async_value :: "'v \<Rightarrow> (bool, 'v, 'w) future_ops" where
  "async_value v =
     \<lparr>fut_poll = (\<lambda>returned w. (if returned then PollPanic else PollReady v, True, w)),
      fut_drop = (\<lambda>returned w. (False, w))\<rparr>"

definition future_pending :: "(unit, 'v, 'w) future_ops" where
  "future_pending = \<lparr>fut_poll = (\<lambda>f w. (PollPending, f, w)), fut_drop = (\<lambda>f w. (False, w))\<rparr>"

definition test_spawn ::
  "build \<Rightarrow> addr \<Rightarrow> ('f, u32, async_world) future_ops \<Rightarrow> 'f \<Rightarrow> async_world
    \<Rightarrow> (ComRc \<times> async_world) outcome" where
  "test_spawn b p M future w =
     (let env = async_test_env b p
      in and_then (spawn_async_operation env M host_take_cancellation_request host_spawn_cancellable
           (\<lambda>ptr. host_handle_drop (async_task_drop env M ptr)) future w) unwrap_new)"

definition ready_future_completes :: "build \<Rightarrow> addr \<Rightarrow> async_world \<Rightarrow> async_world outcome" where
  "ready_future_completes b p w =
     and_then (test_spawn b p (async_value 11) False w) (\<lambda>(operation, w1).
     and_then (get_status_raw (rc_as_ptr operation) w1) (\<lambda>x. and_then (unwrap_result x) (\<lambda>status.
     and_then (assert_that (status = Completed)) (\<lambda>u.
     and_then (get_result_raw (rc_as_ptr operation) w1) (\<lambda>y. and_then (unwrap_result y) (\<lambda>result.
     and_then (assert_that (result = 11)) (\<lambda>u. rc_drop (async_test_env b p) operation w1)))))))"

definition error_operation_reports_error :: "build \<Rightarrow> addr \<Rightarrow> async_world \<Rightarrow> async_world outcome" where
  "error_operation_reports_error b p w =
     and_then (spawn_async_operation_error (async_test_env b p) STATUS_UNSUCCESSFUL w) (\<lambda>z.
     and_then (unwrap_new z) (\<lambda>(operation, w1).
     and_then (get_status_raw (rc_as_ptr operation) w1) (\<lambda>x. and_then (unwrap_result x) (\<lambda>status.
     and_then (assert_that (status = Error)) (\<lambda>u.
     and_then (get_result_raw (rc_as_ptr operation) w1) (\<lambda>result.
     and_then (assert_that (result = Inl STATUS_UNSUCCESSFUL)) (\<lambda>u.
       rc_drop (async_test_env b p) operation w1)))))))"

definition pending_future_reports_pending :: "build \<Rightarrow> addr \<Rightarrow> async_world \<Rightarrow> async_world outcome" where
  "pending_future_reports_pending b p w =
     and_then (test_spawn b p future_pending () w) (\<lambda>(operation, w1).
     and_then (get_status_raw (rc_as_ptr operation) w1) (\<lambda>x. and_then (unwrap_result x) (\<lambda>status.
     and_then (assert_that (status = Started)) (\<lambda>u.
     and_then (get_result_raw (rc_as_ptr operation) w1) (\<lambda>result.
     and_then (assert_that (result = Inl STATUS_PENDING)) (\<lambda>u.
       rc_drop (async_test_env b p) operation w1))))))"

definition pending_future_drop_releases_task_ref ::
  "build \<Rightarrow> addr \<Rightarrow> async_world \<Rightarrow> async_world outcome" where
  "pending_future_drop_releases_task_ref b p w0 =
     (let w = set_statics (ASYNC_OPERATION_DROP_COUNT_update (\<lambda>c. 0)) w0
      in and_then (test_spawn b p future_pending () w) (\<lambda>(operation, w1).
         and_then (rc_drop (async_test_env b p) operation w1) (\<lambda>w2.
         and_then (assert_that (ASYNC_OPERATION_DROP_COUNT (foreign w2) = 1)) (\<lambda>u. Return w2))))"

definition null_out_ptrs_return_error :: "build \<Rightarrow> addr \<Rightarrow> async_world \<Rightarrow> async_world outcome" where
  "null_out_ptrs_return_error b p w =
     and_then (test_spawn b p (async_value 1) False w) (\<lambda>(operation, w1).
     let raw = rc_as_ptr operation
     in and_then (read_vtbl raw w1) (\<lambda>vt. and_then (assert_that (vt = ComObjectVtbl)) (\<lambda>u.
        and_then (shim_get_status raw False w1) (\<lambda>(status, out).
        and_then (assert_that (status = STATUS_UNSUCCESSFUL)) (\<lambda>u.
        and_then (shim_get_result raw False w1) (\<lambda>(status, out).
        and_then (assert_that (status = STATUS_UNSUCCESSFUL)) (\<lambda>u.
          rc_drop (async_test_env b p) operation w1)))))))"

lemmas async_shim_defs =
  async_test_env_def async_operation_drop_def set_statics_def spawn_async_operation_def async_spawn_def
  spawn_raw_def spawn_raw_cancellable_def guard_ptr_new_def guard_ptr_as_ptr_def
  host_spawn_cancellable_def host_handle_new_def host_handle_drop_def host_handle_take_def
  host_take_cancellation_request_def async_task_poll_def async_task_resume_def async_task_drop_def
  task_guard_drop_def op_update_def try_finally_def cancellable_new_def cancellable_poll.simps
  cancellable_drop_def poll_slot_def drop_slot_def empty_async_def rc_from_raw_unchecked_def
  spawn_async_operation_error_def spawn_async_operation_error_raw_def spawn_error_raw_def
  get_status_raw_def get_result_raw_def shim_get_status_def shim_get_result_def new_state_def
  store_result_def store_canceled_def store_error_def load_status_def load_error_def read_result_def
  async_status_from_raw_def rc_drop_def rc_as_ptr_def

lemmas status_values =
  STATUS_SUCCESS_def STATUS_PENDING_def STATUS_UNSUCCESSFUL_def STATUS_CANCELLED_def

text \<open>An operation only its client refers to, and what reading and dropping it does.\<close>

definition op_object ::
  "addr \<Rightarrow> u32 AsyncOperationTask \<Rightarrow> (u32 AsyncOperationTask, GlobalAllocator) ComObject" where
  "op_object p st =
     \<lparr>vtable = ComObjectVtbl, secondaries = [],
      non_delegating_unknown = \<lparr>nd_vtable = NonDelegatingVtbl, nd_parent = PrimaryPtr p\<rparr>,
      ref_count = 1, outer_unknown = None, inner = st, alloc = GlobalAllocator\<rparr>"

lemma test_spawn_ready:
  "p \<noteq> null \<Longrightarrow> test_spawn b p (async_value v) False w
    = Return (\<lparr>rc_ptr = PrimaryPtr p\<rparr>, put_object p (op_object p (store_result v new_state)) w)"
  by (simp add: test_spawn_def async_value_def async_shim_defs wrapper_shim_defs op_object_def Let_def)

lemma test_spawn_pending:
  "p \<noteq> null \<Longrightarrow> test_spawn b p future_pending () w
    = Return (\<lparr>rc_ptr = PrimaryPtr p\<rparr>, put_object p (op_object p new_state) w)"
  by (simp add: test_spawn_def future_pending_def async_shim_defs wrapper_shim_defs op_object_def Let_def)

lemma spawn_error_test:
  "p \<noteq> null \<Longrightarrow> spawn_async_operation_error (async_test_env b p) st w
    = Return (Inr \<lparr>rc_ptr = PrimaryPtr p\<rparr>, put_object p (op_object p (store_error st new_state)) w)"
  by (simp add: async_shim_defs wrapper_shim_defs op_object_def Let_def)

lemma op_object_drop:
  "\<exists>w'. rc_drop (async_test_env b p) \<lparr>rc_ptr = PrimaryPtr p\<rparr> (put_object p (op_object p st) w) = Return w'
    \<and> objects w' = (objects w)(p := None)
    \<and> ASYNC_OPERATION_DROP_COUNT (foreign w') = ASYNC_OPERATION_DROP_COUNT (foreign w) + 1"
  by (simp add: async_shim_defs wrapper_shim_defs op_object_def Let_def)

lemma op_object_reads:
  fixes w :: async_world
  shows "get_status_raw (PrimaryPtr p) (put_object p (op_object p st) w) = Return (Inr (load_status st))"
    and "load_status st = Completed \<Longrightarrow> at_result st = Some v \<Longrightarrow>
      get_result_raw (PrimaryPtr p) (put_object p (op_object p st) w) = Return (Inr v)"
    and "load_status st = Started \<Longrightarrow>
      get_result_raw (PrimaryPtr p) (put_object p (op_object p st) w) = Return (Inl STATUS_PENDING)"
    and "load_status st = Error \<Longrightarrow> load_error st \<noteq> STATUS_SUCCESS \<Longrightarrow>
      get_result_raw (PrimaryPtr p) (put_object p (op_object p st) w) = Return (Inl (load_error st))"
  by (simp_all add: get_status_raw_def get_result_raw_def shim_get_status_def shim_get_result_def
      wrapper_shim_defs op_object_def read_result_def status_values)

lemma ready_future_completes_result:
  assumes "p \<noteq> null"
  shows "\<exists>w. ready_future_completes b p w0 = Return w \<and> objects w = (objects w0)(p := None)"
  using op_object_drop [of b p "store_result 11 new_state" w0] assms
  by (auto simp: ready_future_completes_def test_spawn_ready op_object_reads rc_as_ptr_def
      store_result_def new_state_def load_status_def async_status_from_raw_def)

lemma error_operation_reports_error_result:
  assumes "p \<noteq> null"
  shows "\<exists>w. error_operation_reports_error b p w0 = Return w \<and> objects w = (objects w0)(p := None)"
  using op_object_drop [of b p "store_error STATUS_UNSUCCESSFUL new_state" w0] assms
  by (auto simp: error_operation_reports_error_def spawn_error_test op_object_reads rc_as_ptr_def
      store_error_def new_state_def load_status_def async_status_from_raw_def load_error_def status_values)

lemma pending_future_reports_pending_result:
  assumes "p \<noteq> null"
  shows "\<exists>w. pending_future_reports_pending b p w0 = Return w \<and> objects w = (objects w0)(p := None)"
  using op_object_drop [of b p new_state w0] assms
  by (auto simp: pending_future_reports_pending_def test_spawn_pending op_object_reads rc_as_ptr_def
      new_state_def load_status_def async_status_from_raw_def)

lemma pending_future_drop_releases_task_ref_result:
  assumes "p \<noteq> null"
  shows "\<exists>w. pending_future_drop_releases_task_ref b p w0 = Return w \<and> objects w = (objects w0)(p := None)"
  using op_object_drop [of b p new_state "set_statics (ASYNC_OPERATION_DROP_COUNT_update (\<lambda>c. 0)) w0"] assms
  by (auto simp: pending_future_drop_releases_task_ref_def test_spawn_pending set_statics_def)

lemma null_out_ptrs_return_error_result:
  assumes "p \<noteq> null"
  shows "\<exists>w. null_out_ptrs_return_error b p w0 = Return w \<and> objects w = (objects w0)(p := None)"
  using op_object_drop [of b p "store_result 1 new_state" w0] assms
  by (auto simp: null_out_ptrs_return_error_def test_spawn_ready rc_as_ptr_def read_vtbl_def
      op_object_def put_object_def shim_get_status_def shim_get_result_def)

section \<open>Tests of counted strings\<close>

text \<open>\<open>''Test''\<close> and \<open>''Err: ''\<close>, \<open>''2a''\<close> as scalar values.\<close>

definition str_of :: "string \<Rightarrow> rust_str" where
  "str_of cs = map of_char cs"

definition unicode_string_allows_max_len_minus_one :: "uni_alloc \<Rightarrow> heap \<Rightarrow> heap outcome" where
  "unicode_string_allows_max_len_minus_one A h =
     and_then (owned_new A (replicate 32766 0x61) h) (\<lambda>z. and_then (unwrap_new z) (\<lambda>(owned, h1).
     and_then (assert_that (Length (owned_as_unicode owned) = of_nat (32766 * 2))) (\<lambda>u.
     and_then (assert_that (MaximumLength (owned_as_unicode owned) = of_nat ((32766 + 1) * 2))) (\<lambda>u.
       owned_drop A owned h1))))"

definition unicode_string_rejects_overflow :: "uni_alloc \<Rightarrow> heap \<Rightarrow> heap outcome" where
  "unicode_string_rejects_overflow A h =
     and_then (owned_new A (replicate 32767 0x61) h) (\<lambda>(r, h1).
     and_then (assert_that (r = Inl TooLong)) (\<lambda>u. Return h1))"

text \<open>\<open>at\<close> is the address of the static array of the macro.\<close>

definition kstr_macro_builds_unicode_string :: "addr \<Rightarrow> heap \<Rightarrow> unit outcome" where
  "kstr_macro_builds_unicode_string at h0 =
     (let buf = encode_utf16 (str_of ''Test'') @ [0]; h = h0(at \<mapsto> buf); unicode = kstr buf at
      in and_then (assert_that (Length unicode = 8)) (\<lambda>u.
         and_then (assert_that (MaximumLength unicode = 10)) (\<lambda>u.
         and_then (unicode_string_as_slice unicode h) (\<lambda>sl.
         and_then (assert_that (sl = encode_utf16 (str_of ''Test''))) (\<lambda>u.
         and_then (slice_from_raw_parts (Buffer unicode) (unat (Length unicode div 2) + 1) h) (\<lambda>units.
           assert_that (units ! unat (Length unicode div 2) = 0)))))))"

definition local_unicode_string_from_str :: "addr \<Rightarrow> unit outcome" where
  "local_unicode_string_from_str at =
     and_then (local_from_str 8 (str_of ''Test'')) (\<lambda>x. and_then (unwrap_result x) (\<lambda>local.
     and_then (assert_that (Length (as_unicode_ref at local) = 8)) (\<lambda>u.
     and_then (assert_that (MaximumLength (as_unicode_ref at local) = 16)) (\<lambda>u.
     and_then (local_as_utf16 local) (\<lambda>sl. assert_that (sl = encode_utf16 (str_of ''Test'')))))))"

text \<open>
  \<open>write!\<close> writes the pieces of a format one after the other and stops at the first error;
  \<open>String::from_utf16\<close> fails at the first unpaired surrogate.
\<close>

fun write_pieces ::
  "rust_str list \<Rightarrow> LocalUnicodeString \<Rightarrow> ((unit + unit) \<times> LocalUnicodeString) outcome" where
  "write_pieces [] self = Return (Inr (), self)"
| "write_pieces (v # vs) self =
     and_then (local_write_str v self) (\<lambda>(r, self1).
       case r of Inl e \<Rightarrow> Return (Inl e, self1) | Inr u \<Rightarrow> write_pieces vs self1)"

fun string_from_utf16 :: "(u16 + nat) list \<Rightarrow> u16 + rust_str" where
  "string_from_utf16 [] = Inr []"
| "string_from_utf16 (Inl u # us) = Inl u"
| "string_from_utf16 (Inr c # us) =
     (case string_from_utf16 us of Inl u \<Rightarrow> Inl u | Inr cs \<Rightarrow> Inr (c # cs))"

definition local_unicode_string_fmt_write :: "unit outcome" where
  "local_unicode_string_fmt_write =
     and_then (write_pieces [str_of ''Err: '', str_of ''2a''] (local_new 16)) (\<lambda>z.
     and_then (unwrap_new z) (\<lambda>(u, local).
     and_then (local_as_utf16 local) (\<lambda>units.
     and_then (unwrap_result (string_from_utf16 (decode_utf16 units))) (\<lambda>text.
       assert_that (text = str_of ''Err: 2a'')))))"

lemma encode_ascii_replicate: "encode_utf16 (replicate n 0x61) = replicate n 0x61"
  by (induction n) (simp_all add: encode_char_def)

lemma allows_max_len_minus_one_result:
  assumes "uni_contract A" and "fst (ua_alloc A \<lparr>layout_size = 65534, layout_align = 2\<rparr> h) \<noteq> null"
  shows "unicode_string_allows_max_len_minus_one A h = Return h"
proof -
  obtain buf h1 where a: "ua_alloc A \<lparr>layout_size = 65534, layout_align = 2\<rparr> h = (buf, h1)" by fastforce
  have n: "length (encode_utf16 (replicate 32766 0x61)) = 32766"
    by (simp add: encode_ascii_replicate)
  have "buf \<noteq> null" using assms(2) a by simp
  then show ?thesis
    using owned_new_in_succeeds [where v = "replicate 32766 0x61", unfolded n, OF assms(1) _ _ , of h buf h1] a
    by (simp add: unicode_string_allows_max_len_minus_one_def owned_new_def owned_as_unicode_def
        max_units_def)
qed

lemma rejects_overflow_result: "unicode_string_rejects_overflow A h = Return h"
  by (simp add: unicode_string_rejects_overflow_def owned_new_def owned_new_in_def max_units_def
      encode_ascii_replicate Let_def)

lemma kstr_macro_result: "at \<noteq> null \<Longrightarrow> kstr_macro_builds_unicode_string at h = Return ()"
  by (simp add: kstr_macro_builds_unicode_string_def kstr_def str_of_def encode_char_def
      unicode_string_as_slice_def slice_from_raw_parts_def Let_def)

lemma zeroed_buffers:
  "replicate 8 (0 :: u16) = [0, 0, 0, 0, 0, 0, 0, 0]"
  "replicate 16 (0 :: u16) = [0, 0, 0, 0, 0, 0, 0, 0, 0, 0, 0, 0, 0, 0, 0, 0]"
  by (simp_all add: numeral_eq_Suc)

lemma local_from_str_result: "local_unicode_string_from_str at = Return ()"
  by (simp add: local_unicode_string_from_str_def local_from_str_def local_new_def try_push_str_def
      str_of_def encode_char_def max_units_def store_index_def as_unicode_ref_def local_as_utf16_def Let_def
      zeroed_buffers)

lemma local_fmt_write_result: "local_unicode_string_fmt_write = Return ()"
  by (simp add: local_unicode_string_fmt_write_def local_write_str_def local_new_def try_push_str_def
      str_of_def encode_char_def max_units_def store_index_def local_as_utf16_def decode_utf16.simps Let_def
      zeroed_buffers)

end
