(* ===== verification/Interface_Properties.thy ===== *)
theory Interface_Properties
  imports Interfaces Async_Properties
begin

text \<open>
  What holds of the code the macros generate: the layout of the vtables, the interfaces a
  \<open>QueryInterface\<close> finds, what the method shims see of the object, and what an asynchronous method does
  to the references of its object.
\<close>

section \<open>Layout of the vtables\<close>

fun method_field :: "com_method \<Rightarrow> vtbl_field" where
  "method_field (AsyncMethod n) = (n, AbiOperation)"
| "method_field (Method n (TyOther t)) = (n, AbiRust t)"
| "method_field (Method n ty) = (n, AbiStatus)"

text \<open>The field a shim is written for.\<close>

fun shim_field :: "'al shim \<Rightarrow> vtbl_field" where
  "shim_field (Shim_query_interface ty) = (''QueryInterface'', AbiStatus)"
| "shim_field (Shim_add_ref ty) = (''AddRef'', AbiU32)"
| "shim_field (Shim_release ty) = (''Release'', AbiU32)"
| "shim_field (Shim_query_interface_secondary ty vt k) = (''QueryInterface'', AbiStatus)"
| "shim_field (Shim_add_ref_secondary ty vt k) = (''AddRef'', AbiU32)"
| "shim_field (Shim_release_secondary ty vt k) = (''Release'', AbiU32)"
| "shim_field (Shim_method iface m) = method_field m"
| "shim_field (Shim_method_secondary ty k iface m) = method_field m"

lemma parse_methods_acc:
  "acc_fields (parse_methods ms acc) = acc_fields acc @ map method_field ms
   \<and> acc_inits (parse_methods ms acc) = acc_inits acc @ ms
   \<and> acc_inits_secondary (parse_methods ms acc) = acc_inits_secondary acc @ ms"
  by (induction ms acc rule: parse_methods.induct)
    (auto simp: parse_async_method_def parse_result_method_def parse_core_result_method_def
      parse_std_result_method_def parse_plain_method_def)

lemma define_interface_acc [simp]:
  "acc_fields (define_interface iface) = map method_field (iface_methods iface)"
  "acc_inits (define_interface iface) = iface_methods iface"
  "acc_inits_secondary (define_interface iface) = iface_methods iface"
  by (simp_all add: define_interface_def parse_methods_acc)

lemma shim_fields_iunknown [simp]:
  "map shim_field (iunknown_vtbl_new vt) = iunknown_fields"
  "map shim_field (iunknown_vtbl_new_primary p s al) = iunknown_fields"
  "map shim_field (iunknown_vtbl_secondary vt p s al k) = iunknown_fields"
  by (simp_all add: iunknown_fields_def iunknown_vtbl_new_def iunknown_vtbl_new_primary_def
      iunknown_vtbl_secondary_def)

lemma shim_fields_inits [simp]:
  "map shim_field (vtable_inits iface) = map method_field (iface_methods iface)"
  "map shim_field (vtable_inits_secondary p s al k iface) = map method_field (iface_methods iface)"
  by (simp_all add: vtable_inits_def vtable_inits_secondary_def)

lemma vtbl_shim_fields:
  "map shim_field (vtbl_new iface) = vtbl_fields iface"
  "map shim_field (vtbl_new_primary p s al iface) = vtbl_fields iface"
  "map shim_field (vtbl_new_secondary p s al k iface) = vtbl_fields iface"
  by (induction iface rule: vtbl_fields.induct) simp_all

lemma ancestor_prefix:
  assumes "j \<in> set (ancestors iface)"
  shows "prefix (vtbl_fields j) (vtbl_fields iface)"
    and "prefix (vtbl_new j) (vtbl_new iface)"
    and "prefix (vtbl_new_primary p s al j) (vtbl_new_primary p s al iface)"
    and "prefix (vtbl_new_secondary p s al k j) (vtbl_new_secondary p s al k iface)"
  using assms by (induction iface rule: ancestors.induct) (auto intro: prefix_prefix)

lemma iunknown_prefix:
  "prefix iunknown_fields (vtbl_fields iface)"
  by (induction iface rule: vtbl_fields.induct) (auto intro: prefix_prefix)

text \<open>C22: The vtable of an interface can be used at the type of every interface it inherits from. All
  three constructors fill each slot with a shim for the field the struct has there; the struct begins
  with the fields of \<open>IUnknown\<close> and with those of each ancestor, and the constructed vtable with the
  very vtable the same constructor builds for the ancestor, followed by the interface's own methods in
  the order of their declaration. As a secondary, only interfaces directly under \<open>IUnknown\<close> meet the
  bounds of the constructor.\<close>

theorem vtables_extend_their_ancestors:
  "map shim_field (vtbl_new iface :: 'al shim list) = vtbl_fields iface
   \<and> map shim_field (vtbl_new_primary p s al iface) = vtbl_fields iface
   \<and> map shim_field (vtbl_new_secondary p s al k iface) = vtbl_fields iface
   \<and> prefix iunknown_fields (vtbl_fields iface)
   \<and> (\<forall>j \<in> set (ancestors iface). prefix (vtbl_fields j) (vtbl_fields iface)
        \<and> prefix (vtbl_new j :: 'al shim list) (vtbl_new iface)
        \<and> prefix (vtbl_new_primary p s al j) (vtbl_new_primary p s al iface)
        \<and> prefix (vtbl_new_secondary p s al k j) (vtbl_new_secondary p s al k iface))
   \<and> suffix (map (Shim_method iface) (iface_methods iface)) (vtbl_new iface :: 'al shim list)
   \<and> (new_secondary_bounds s k iface \<longrightarrow> iface_parent iface = None \<and> s ! k = iface)"
proof -
  have "suffix (map (Shim_method iface) (iface_methods iface)) (vtbl_new iface :: 'al shim list)"
    by (cases iface) (auto simp: vtable_inits_def suffix_def)
  moreover have "new_secondary_bounds s k iface \<Longrightarrow> iface_parent iface = None \<and> s ! k = iface"
  proof (cases "iface_parent iface")
    case (Some q)
    then have "size q < size iface" by (cases iface) auto
    then show "new_secondary_bounds s k iface \<Longrightarrow> ?thesis"
      using Some by (auto simp: new_secondary_bounds_def entry_access_def)
  qed (auto simp: new_secondary_bounds_def entry_access_def)
  ultimately show ?thesis by (simp add: vtbl_shim_fields ancestor_prefix iunknown_prefix)
qed

definition IID_A :: GUID where
  "IID_A = \<lparr>data1 = 1, data2 = 0, data3 = 0, data4 = [0, 0, 0, 0, 0, 0, 0, 0]\<rparr>"

definition IID_B :: GUID where
  "IID_B = \<lparr>data1 = 2, data2 = 0, data3 = 0, data4 = [0, 0, 0, 0, 0, 0, 0, 0]\<rparr>"

definition iminiport :: com_interface where
  "iminiport = Interface ''IMiniport'' IID_A None [Method ''init'' (TyOther ''NTSTATUS'')]"

definition iminiport_wave_rt :: com_interface where
  "iminiport_wave_rt =
     Interface ''IMiniportWaveRT'' IID_B (Some iminiport) [Method ''new_stream'' (TyOther ''NTSTATUS'')]"

theorem vtables_extend_their_ancestors_witness:
  "prefix (vtbl_new iminiport :: unit shim list) (vtbl_new iminiport_wave_rt)
   \<and> new_secondary_bounds [iminiport] 0 iminiport \<and> iface_parent iminiport = None"
proof -
  have "iminiport \<in> set (ancestors iminiport_wave_rt)"
    by (simp add: iminiport_wave_rt_def iminiport_def)
  moreover have b: "new_secondary_bounds [iminiport] 0 iminiport"
    by (simp add: new_secondary_bounds_def entry_access_def iminiport_def)
  ultimately show ?thesis
    using vtables_extend_their_ancestors [of iminiport_wave_rt IUnknownVtbl "[iminiport]" "()" 0]
      vtables_extend_their_ancestors [of iminiport IUnknownVtbl "[iminiport]" "()" 0]
    by blast
qed

section \<open>Interfaces that a query finds\<close>

lemma ancestors_nonempty [simp]: "ancestors iface \<noteq> []"
  by (cases iface rule: ancestors.cases) auto

lemma vtbl_new_nonempty [simp]: "vtbl_new iface \<noteq> []"
  by (induction iface rule: ancestors.induct) (auto simp: iunknown_vtbl_new_def)

lemma ancestors_root [simp]: "ancestors (root_interface iface) = [root_interface iface]"
  unfolding root_interface_def by (induction iface rule: ancestors.induct) auto

lemma root_ancestor: "root_interface iface \<in> set (ancestors iface)"
  by (simp add: root_interface_def)

lemma with_impl_simps [simp]:
  "env_build (with_impl debug impl env) = env_build env"
  "env_query_interface (with_impl debug impl env) v this riid w
    = and_then (query_interface debug impl this riid w) (\<lambda>r. Return (r, w))"
  by (simp_all add: with_impl_def)

lemma alive_with_impl [simp]: "alive_with (with_impl debug impl env) a k n w = alive_with env a k n w"
  by (simp add: alive_with_def well_behaved_def with_impl_def)

lemma single_impl_query:
  "this \<noteq> NullPtr \<Longrightarrow> query_interface debug (single_impl iface) this riid w
    = Return (if riid \<in> iface_iid ` set (ancestors iface) then Some this else None)"
  by (induction iface rule: ancestors.induct) (auto simp: single_query_interface_def)

lemma parent_impl_query:
  assumes "this \<noteq> NullPtr"
  shows "query_interface debug (parent_impl iface) this riid w
    = Return (if riid \<in> iface_iid ` set (tl (ancestors iface)) then Some this else None)"
proof (cases iface)
  case (Interface n iid par ms)
  then show ?thesis
    by (cases par) (simp_all add: parent_impl_def single_impl_query [OF assms])
qed

lemma qi_match_secondaries_eq:
  assumes "objects w a = Some ob" and "i + length s \<le> length (secondaries ob)"
  shows "qi_match_secondaries (PrimaryPtr a) riid s i w
    = Return (if riid \<in> iface_iid ` set s
        then Some (Some (SecondaryPtr a (i + length (takeWhile (\<lambda>j. iface_iid j \<noteq> riid) s)))) else None)"
  using assms(2)
proof (induction s arbitrary: i)
  case (Cons h t)
  then show ?case using Cons.IH [of "Suc i"] assms(1) by (auto simp: secondary_ptr_def from_ptr_def)
qed simp

text \<open>
  The answer of an object: it provides \<open>q\<close> for \<open>iid\<close>, or refuses, by what its \<open>ComImpl\<close> instance
  finds.
\<close>

lemma query_answer:
  assumes "alive_with env a k n w" and "n < refcount_cap (env_build env)" and "p \<in> counting_ptrs a w"
    and "riid \<noteq> IID_IUNKNOWN" and "query_interface debug impl (PrimaryPtr a) riid w = Return found"
    and "found \<noteq> None \<longrightarrow> the found \<in> counting_ptrs a w"
  shows "case found of
      Some q \<Rightarrow> \<exists>w'. call_QueryInterface (with_impl debug impl env) p (Some riid) True w
          = Return ((STATUS_SUCCESS, Some q), w') \<and> alive_with env a k (n + 1) w'
    | None \<Rightarrow> call_QueryInterface (with_impl debug impl env) p (Some riid) True w
          = Return ((STATUS_NOINTERFACE, Some NullPtr), w)"
proof -
  let ?e = "with_impl debug impl env"
  obtain ob where ob: "objects w a = Some ob" "wf_object a ob"
    using assms(1) by (rule alive_with_object)
  show ?thesis
  proof (cases found)
    case None
    then show ?thesis
      using call_QueryInterface_own [OF assms(3) ob, of ?e "Some riid" True] assms(4,5)
      by (simp add: answer_query_def)
  next
    case (Some q)
    then have "provides ?e a p riid w = Some q"
      using assms(4-6) ob(1) by (simp add: provides_def)
    then show ?thesis
      using Some call_QueryInterface_provided [of ?e a k n w p riid q] assms(1-3) by auto
  qed
qed

lemma hd_vtbl_new: "hd (vtbl_new iface) = Shim_query_interface (ComObjectTy (VtblOf (root_interface iface)))"
proof (induction iface rule: ancestors.induct)
  case (2 n iid p ms)
  then show ?case by (simp add: root_interface_def)
qed (simp add: root_interface_def iunknown_vtbl_new_def)

text \<open>C23: What an object with one interface, made by \<open>impl_com_interface!\<close> and \<open>ComObject\<close>, answers to
  a \<open>QueryInterface\<close> through its own vtable: itself, with a reference more, for the topmost of the
  interfaces it inherits from, and \<open>STATUS_NOINTERFACE\<close> for every other identifier but \<open>IUnknown\<close>'s, its
  own included when it is a derived interface. The three \<open>IUnknown\<close> slots are built by the topmost
  ancestor's \<open>new\<close>, which asks that ancestor's \<open>ComImpl\<close>.\<close>

theorem single_object_queries:
  assumes "alive_with env a k n w" and "n < refcount_cap (env_build env)"
    and "objects w a = Some ob" and "vtable ob = ComObjectVtbl" and "\<not> delegates ob"
    and "riid \<noteq> IID_IUNKNOWN"
    and "\<forall>j \<in> set (ancestors iface). impls (VtblOf j) = single_impl j"
  shows "(riid = iface_iid (root_interface iface) \<longrightarrow>
      (\<exists>w'. query_through env debug impls (vtbl_new iface :: 'al shim list) (PrimaryPtr a) riid w
         = Return ((STATUS_SUCCESS, Some (PrimaryPtr a)), w') \<and> alive_with env a k (n + 1) w'))
    \<and> (riid \<noteq> iface_iid (root_interface iface) \<longrightarrow>
      query_through env debug impls (vtbl_new iface :: 'al shim list) (PrimaryPtr a) riid w
         = Return ((STATUS_NOINTERFACE, Some NullPtr), w))"
proof -
  let ?r = "root_interface iface" and ?p = "PrimaryPtr a"
  let ?e = "with_impl debug (single_impl ?r) env"
  have q: "query_through env debug impls (vtbl_new iface :: 'al shim list) ?p riid w
      = call_QueryInterface ?e ?p (Some riid) True w"
    using assms(3,4,7) root_ancestor [of iface] by (simp add: query_through_def hd_vtbl_new call_QueryInterface_def read_vtbl_def)
  have p: "?p \<in> counting_ptrs a w" using assms(3,5) by (simp add: counting_ptrs_def)
  have f: "query_interface debug (single_impl ?r) ?p riid w
      = Return (if riid = iface_iid ?r then Some ?p else None)"
    by (simp add: single_impl_query)
  from query_answer [OF assms(1,2) p assms(6) f] show ?thesis using q p by (auto split: if_splits)
qed

text \<open>A derived interface, as in \<open>examples/declare_com_interface_inheritance.rs\<close>.\<close>

definition single_object :: "(unit, unit, unit) world" where
  "single_object = snd (try_new_in (unit_env hardened_build) () () empty_world)"

lemma single_object_at:
  "objects single_object 4096 = Some (init_non_delegating_ptr 4096
     \<lparr>vtable = ComObjectVtbl, secondaries = [],
      non_delegating_unknown = \<lparr>nd_vtable = NonDelegatingVtbl, nd_parent = NullPtr\<rparr>,
      ref_count = 1, outer_unknown = None, inner = (), alloc = ()\<rparr>)"
  by (simp add: single_object_def try_new_in_def unit_env_def empty_world_def)

lemma single_object_alive: "alive_with (unit_env hardened_build) 4096 0 1 single_object"
  using single_object_at wf_new_object [of 4096 1 None "()" "()"] well_behaved_unit_env
    refcount_cap_positive [of "env_build (unit_env hardened_build)"]
  by (simp add: alive_with_def single_object_def try_new_in_def unit_env_def empty_world_def drops_def
      deallocs_def)

theorem single_object_queries_witness:
  "\<exists>impls. impls (VtblOf iminiport_wave_rt) = single_impl iminiport_wave_rt
    \<and> query_through (unit_env hardened_build) False impls (vtbl_new iminiport_wave_rt :: unit shim list)
        (PrimaryPtr 4096) (iface_iid iminiport_wave_rt) single_object
      = Return ((STATUS_NOINTERFACE, Some NullPtr), single_object)"
proof -
  let ?impls = "\<lambda>vt. case vt of VtblOf j \<Rightarrow> single_impl j | IUnknownVtbl \<Rightarrow> unknown_impl"
  have root: "root_interface iminiport_wave_rt = iminiport"
    by (simp add: root_interface_def iminiport_wave_rt_def iminiport_def)
  have iids: "iface_iid iminiport_wave_rt \<noteq> iface_iid iminiport" "iface_iid iminiport_wave_rt \<noteq> IID_IUNKNOWN"
    by (simp_all add: iminiport_wave_rt_def iminiport_def IID_A_def IID_B_def IID_IUNKNOWN_def)
  have "query_through (unit_env hardened_build) False ?impls (vtbl_new iminiport_wave_rt :: unit shim list)
        (PrimaryPtr 4096) (iface_iid iminiport_wave_rt) single_object
      = Return ((STATUS_NOINTERFACE, Some NullPtr), single_object)"
    using single_object_queries [OF single_object_alive unit_env_cap single_object_at _ _ iids(2),
        of iminiport_wave_rt ?impls False] root iids(1)
    by (simp add: delegates_def init_non_delegating_ptr_def)
  then show ?thesis by (intro exI [of _ ?impls]) simp
qed

text \<open>The vtable behind a pointer of an object with several interfaces.\<close>

fun pointer_slots :: "com_interface \<Rightarrow> com_interface list \<Rightarrow> 'al \<Rightarrow> com_ptr \<Rightarrow> 'al shim list" where
  "pointer_slots p s al (SecondaryPtr a i) = vtbl_new_secondary (VtblOf p) s al i (s ! i)"
| "pointer_slots p s al _ = vtbl_new_primary (VtblOf p) s al p"

lemma hd_vtbl_new_n:
  "hd (vtbl_new_primary p s al iface) = Shim_query_interface (ComObjectNTy p s al)
    \<and> vtbl_new_primary p s al iface \<noteq> []"
  "hd (vtbl_new_secondary p s al i iface)
      = Shim_query_interface_secondary (ComObjectNTy p s al) (VtblOf (root_interface iface)) i
    \<and> vtbl_new_secondary p s al i iface \<noteq> []"
  by (induction iface rule: ancestors.induct)
    (auto simp: iunknown_vtbl_new_primary_def iunknown_vtbl_secondary_def root_interface_def)

lemma query_through_n:
  assumes "objects w a = Some ob" and "wf_object a ob" and "vtable ob = ComObjectNVtbl"
    and "length (secondaries ob) = length s" and "p \<in> insert (PrimaryPtr a) (SecondaryPtr a ` {..<length s})"
  shows "query_through env debug impls (pointer_slots prim s al p) p riid w
    = call_QueryInterface (with_impl debug (impls (VtblOf prim)) env) p (Some riid) True w"
proof (cases "p = PrimaryPtr a")
  case False
  then obtain i where i: "p = SecondaryPtr a i" "i < length (secondaries ob)" using assms(4,5) by auto
  then obtain j where "entry_vtable (secondaries ob ! i) = SecondaryVtbl j"
    using wf_object_entry [OF assms(2)] by blast
  then show ?thesis
    using i assms(1) by (simp add: query_through_def hd_vtbl_new_n call_QueryInterface_def read_vtbl_def)
qed (use assms(1,3) in \<open>simp add: query_through_def hd_vtbl_new_n call_QueryInterface_def read_vtbl_def\<close>)

lemma primary_impl_query:
  assumes "objects w a = Some ob" and "length (secondaries ob) = length s"
  shows "query_interface debug (primary_impl prim s) (PrimaryPtr a) riid w = Return
    (if riid = iface_iid prim then Some (PrimaryPtr a)
     else if riid \<in> iface_iid ` set s then Some (SecondaryPtr a (length (takeWhile (\<lambda>j. iface_iid j \<noteq> riid) s)))
     else if riid \<in> iface_iid ` set (tl (ancestors prim)) then Some (PrimaryPtr a) else None)"
  using qi_match_secondaries_eq [OF assms(1), of 0 s riid] assms(2)
  by (simp add: primary_impl_def primary_query_interface_def parent_impl_query)

lemma takeWhile_neq_nth:
  assumes "distinct (map f xs)" and "i < length xs"
  shows "length (takeWhile (\<lambda>x. f x \<noteq> f (xs ! i)) xs) = i"
  using assms
proof (induction xs arbitrary: i)
  case (Cons x xs)
  then show ?case by (cases i) (auto simp: image_iff)
qed simp

lemma ancestors_hd: "ancestors iface = iface # tl (ancestors iface)"
  by (cases iface rule: ancestors.cases) auto

text \<open>C21: What an object with several interfaces answers, asked through any of its interface pointers:
  the primary pointer for the primary interface and all it inherits from, the pointer of the entry for
  each secondary, each with a reference more, and \<open>STATUS_NOINTERFACE\<close> for identifiers of no interface of
  the object. The vtable behind the pointer begins with the fields of the interface asked for.\<close>

theorem multi_object_queries:
  assumes "alive_with env a k n w" and "n < refcount_cap (env_build env)"
    and "objects w a = Some ob" and "vtable ob = ComObjectNVtbl" and "\<not> delegates ob"
    and "length (secondaries ob) = length s"
    and "impls (VtblOf prim) = primary_impl prim s"
    and "distinct (map iface_iid (ancestors prim @ s))" and "IID_IUNKNOWN \<notin> iface_iid ` set (ancestors prim @ s)"
    and "p \<in> insert (PrimaryPtr a) (SecondaryPtr a ` {..<length s})"
  shows "(\<forall>j \<in> set (ancestors prim). (\<exists>w'. query_through env debug impls (pointer_slots prim s al p) p (iface_iid j) w
            = Return ((STATUS_SUCCESS, Some (PrimaryPtr a)), w') \<and> alive_with env a k (n + 1) w')
         \<and> prefix (vtbl_fields j) (map shim_field (pointer_slots prim s al (PrimaryPtr a))))
    \<and> (\<forall>i < length s. (\<exists>w'. query_through env debug impls (pointer_slots prim s al p) p (iface_iid (s ! i)) w
            = Return ((STATUS_SUCCESS, Some (SecondaryPtr a i)), w') \<and> alive_with env a k (n + 1) w')
         \<and> vtbl_fields (s ! i) = map shim_field (pointer_slots prim s al (SecondaryPtr a i)))
    \<and> (\<forall>riid. riid \<notin> insert IID_IUNKNOWN (iface_iid ` set (ancestors prim @ s)) \<longrightarrow>
         query_through env debug impls (pointer_slots prim s al p) p riid w
           = Return ((STATUS_NOINTERFACE, Some NullPtr), w))"
proof -
  let ?q = "\<lambda>riid. query_through env debug impls (pointer_slots prim s al p) p riid w"
  let ?impl = "primary_impl prim s"
  have wf: "wf_object a ob" using assms(1,3) by (auto elim: alive_with_object)
  have c: "p \<in> counting_ptrs a w" "PrimaryPtr a \<in> counting_ptrs a w"
    "\<And>i. i < length s \<Longrightarrow> SecondaryPtr a i \<in> counting_ptrs a w"
    using assms(3,5,6,10) by (auto simp: counting_ptrs_def)
  have q: "?q riid = call_QueryInterface (with_impl debug ?impl env) p (Some riid) True w" for riid
    by (simp add: query_through_n [OF assms(3) wf assms(4,6,10)] assms(7))
  have found: "\<exists>w'. ?q riid = Return ((STATUS_SUCCESS, Some x), w') \<and> alive_with env a k (n + 1) w'"
    if "query_interface debug ?impl (PrimaryPtr a) riid w = Return (Some x)" "x \<in> counting_ptrs a w"
      "riid \<noteq> IID_IUNKNOWN" for riid x
    using query_answer [OF assms(1,2) c(1) that(3,1)] that(2) q by simp
  have refused: "?q riid = Return ((STATUS_NOINTERFACE, Some NullPtr), w)"
    if "query_interface debug ?impl (PrimaryPtr a) riid w = Return None" "riid \<noteq> IID_IUNKNOWN" for riid
    using query_answer [OF assms(1,2) c(1) that(2,1)] q by simp
  note f = primary_impl_query [OF assms(3,6), of debug prim]
  have d: "distinct (map iface_iid s)" "iface_iid ` set (ancestors prim) \<inter> iface_iid ` set s = {}"
    using assms(8) by auto
  have set_anc: "set (ancestors prim) = insert prim (set (tl (ancestors prim)))"
    by (subst ancestors_hd) simp
  have "\<exists>w'. ?q (iface_iid j) = Return ((STATUS_SUCCESS, Some (PrimaryPtr a)), w') \<and> alive_with env a k (n + 1) w'"
    if j: "j \<in> set (ancestors prim)" for j
  proof (rule found [OF _ c(2)])
    have "iface_iid j \<notin> iface_iid ` set s" using d(2) j by blast
    then show "query_interface debug ?impl (PrimaryPtr a) (iface_iid j) w = Return (Some (PrimaryPtr a))"
      using f j set_anc by auto
    show "iface_iid j \<noteq> IID_IUNKNOWN" using assms(9) j by (metis UnCI imageI set_append)
  qed
  moreover have "\<exists>w'. ?q (iface_iid (s ! i)) = Return ((STATUS_SUCCESS, Some (SecondaryPtr a i)), w')
      \<and> alive_with env a k (n + 1) w'" if i: "i < length s" for i
  proof (rule found [OF _ c(3) [OF i]])
    have "iface_iid (s ! i) \<noteq> iface_iid prim" using d(2) i set_anc by (metis disjoint_iff imageI insertI1 nth_mem)
    then show "query_interface debug ?impl (PrimaryPtr a) (iface_iid (s ! i)) w = Return (Some (SecondaryPtr a i))"
      using f takeWhile_neq_nth [OF d(1) i] i by auto
    show "iface_iid (s ! i) \<noteq> IID_IUNKNOWN" using assms(9) i by (metis UnCI imageI nth_mem set_append)
  qed
  moreover have "?q riid = Return ((STATUS_NOINTERFACE, Some NullPtr), w)"
    if "riid \<notin> insert IID_IUNKNOWN (iface_iid ` set (ancestors prim @ s))" for riid
    using refused [of riid] f [of riid] that set_anc by (simp add: image_Un)
  ultimately show ?thesis by (simp add: vtbl_shim_fields ancestor_prefix)
qed

theorem multi_object_queries_witness:
  "\<exists>impls w'. query_through (unit_env hardened_build) False impls
      (pointer_slots iminiport_wave_rt [Interface ''IBar'' \<lparr>data1 = 3, data2 = 0, data3 = 0, data4 = []\<rparr> None []] ()
        (PrimaryPtr 4096)) (PrimaryPtr 4096) \<lparr>data1 = 3, data2 = 0, data3 = 0, data4 = []\<rparr> (one_object hardened_build)
    = Return ((STATUS_SUCCESS, Some (SecondaryPtr 4096 0)), w')"
proof -
  let ?bar = "Interface ''IBar'' \<lparr>data1 = 3, data2 = 0, data3 = 0, data4 = []\<rparr> None []"
  let ?impls = "\<lambda>vt. primary_impl iminiport_wave_rt [?bar]"
  obtain ob where ob: "objects (one_object hardened_build) 4096 = Some ob" "vtable ob = ComObjectNVtbl"
    "\<not> delegates ob" "length (secondaries ob) = length [?bar]"
    by (simp add: one_object_def try_new_in_n_def unit_env_def empty_world_def secondary_entries_def
        delegates_def init_secondary_ptr_def init_non_delegating_ptr_def secondary_list_init_def)
  show ?thesis
    using multi_object_queries [OF one_object_alive unit_env_cap ob, of ?impls iminiport_wave_rt
        "PrimaryPtr 4096" False "()"]
    by (intro exI [of _ ?impls])
      (auto simp: iminiport_wave_rt_def iminiport_def IID_A_def IID_B_def IID_IUNKNOWN_def)
qed

section \<open>What the method shims see\<close>

lemma align_to_multiple: "al dvd pos \<Longrightarrow> 0 < al \<Longrightarrow> align_to pos al = pos"
proof -
  assume a: "al dvd pos" "0 < al"
  then obtain j where j: "pos = al * j" by (auto elim: dvdE)
  have "(al * j + al - 1) div al = (al * j + (al - 1)) div al" using a(2) by simp
  also have "\<dots> = j" using a(2) by (subst div_mult_self4) auto
  finally show ?thesis by (simp add: align_to_def j mult.commute)
qed

lemma last_offsets:
  assumes "snd lay \<in> {1, 2, 4, 8, 16}"
  shows "com_object_inner_offset lay = 48" and "com_object_n_inner_offset n lay = 48 + 16 * n"
proof -
  obtain sz al where lay: "lay = (sz, al)" by fastforce
  have dvd: "al dvd 48 + 16 * m" "0 < al" for m
  proof -
    have "16 mod al = 0" "0 < al" using assms lay by auto
    moreover have "48 + 16 * m = 16 * (3 + m)" by simp
    ultimately show "al dvd 48 + 16 * m" "0 < al" by (metis dvd_eq_mod_eq_0 dvd_mult2, simp)
  qed
  have "align_to (28 + 16 * m) 8 = 32 + 16 * m" for m unfolding align_to_def by presburger
  from this [of n] this [of 0] show "com_object_inner_offset lay = 48"
    "com_object_n_inner_offset n lay = 48 + 16 * n"
    using align_to_multiple [OF dvd, of 0] align_to_multiple [OF dvd, of n]
    by (simp_all add: lay com_object_inner_offset_def com_object_n_inner_offset_def align_to_multiple)
qed

text \<open>C24: What a method shim does. In an object with one interface, and through a secondary pointer of
  an object with several, it runs the method on the inner value and converts its result; a panic of the
  method leaves the shim. The primary interface of an object with several has the same shims as an
  object with one, which look for the inner value 16 bytes per secondary before its place. A method that
  reads nothing of its object does what it would do on the inner value (as in the tests), and so does
  every method of a type without bytes; but a method that reads its object runs on what other fields of the
  object make as a value of its type, and never on the inner value (for inner types of no exotic
  alignment).\<close>

theorem method_shims_find_inner:
  assumes "objects w a = Some ob" and "wf_object a ob"
  shows "let on_inner = and_then (body (Return (inner ob)) args w) (\<lambda>(v, w1). Return (map_return ty v, w1)) in
    (vtable ob = ComObjectVtbl \<or> fst lay = 0 \<longrightarrow> shim_method lay other ty body (PrimaryPtr a) args w = on_inner)
    \<and> (\<forall>i < length (secondaries ob). shim_method_secondary ty body (SecondaryPtr a i) args w = on_inner)
    \<and> (vtable ob = ComObjectNVtbl \<longrightarrow> secondaries ob \<noteq> [] \<longrightarrow> 0 < fst lay \<longrightarrow> snd lay \<in> {1, 2, 4, 8, 16} \<longrightarrow>
        com_object_inner_offset lay + 16 * length (secondaries ob)
          = com_object_n_inner_offset (length (secondaries ob)) lay
        \<and> ((\<forall>x y. body x args w = body y args w) \<longrightarrow>
            shim_method lay other ty body (PrimaryPtr a) args w = on_inner)
        \<and> (\<forall>m. body = (\<lambda>self args w. and_then self (\<lambda>v. m v args w)) \<longrightarrow>
            shim_method lay other ty body (PrimaryPtr a) args w
              = and_then other (\<lambda>v. and_then (m v args w) (\<lambda>(v, w1). Return (map_return ty v, w1)))))"
proof -
  let ?on_inner = "and_then (body (Return (inner ob)) args w) (\<lambda>(v, w1). Return (map_return ty v, w1))"
  have sec: "shim_method_secondary ty body (SecondaryPtr a i) args w = ?on_inner"
    if "i < length (secondaries ob)" for i
    using assms(1) that wf_object_entry [OF assms(2)]
    by (simp add: shim_method_secondary_def from_secondary_ptr_def parent_from_ptr_def from_ptr_def)
  have run: "shim_method lay other ty body (PrimaryPtr a) args w
      = and_then (body (inner_read lay other ob) args w) (\<lambda>(v, w1). Return (map_return ty v, w1))"
    using assms(1) by (simp add: shim_method_def from_ptr_def)
  have own: "shim_method lay other ty body (PrimaryPtr a) args w = ?on_inner"
    if "vtable ob = ComObjectVtbl \<or> fst lay = 0 \<or> (\<forall>x y. body x args w = body y args w)"
  proof (cases "inner_visible lay ob")
    case False
    then have "\<forall>x y. body x args w = body y args w" using that by (auto simp: inner_visible_def)
    then have "body (inner_read lay other ob) args w = body (Return (inner ob)) args w" by blast
    then show ?thesis by (simp add: run)
  qed (simp add: run inner_read_def)
  have misread: "shim_method lay other ty body (PrimaryPtr a) args w
      = and_then other (\<lambda>v. and_then (m v args w) (\<lambda>(v, w1). Return (map_return ty v, w1)))"
    if "vtable ob = ComObjectNVtbl" "secondaries ob \<noteq> []" "0 < fst lay" "snd lay \<in> {1, 2, 4, 8, 16}"
      "body = (\<lambda>self args w. and_then self (\<lambda>v. m v args w))" for m
    unfolding run using that by (simp add: inner_read_def inner_visible_def last_offsets and_then_assoc)
  have off: "com_object_inner_offset lay + 16 * length (secondaries ob)
      = com_object_n_inner_offset (length (secondaries ob)) lay" if "snd lay \<in> {1, 2, 4, 8, 16}"
    using last_offsets [OF that] by simp
  show ?thesis unfolding Let_def
    by (intro conjI impI allI) (rule own sec off misread; blast)+
qed

text \<open>
  \<open>MyDriver\<close> of \<open>tests/smart_vtable_spec.rs\<close> has a field of four bytes. Its \<open>foo\<close>, called through the
  primary pointer, reads nothing and succeeds, and its \<open>bar\<close>, through the secondary pointer, reads the
  field; called through the primary pointer \<open>bar\<close> would read the bytes of \<open>outer_unknown\<close>, here undefined.
\<close>

definition driver_object :: "(u32, unit, unit) world" where
  "driver_object =
     \<lparr>objects = [4096 \<mapsto> init_secondary_ptr 4096 (init_non_delegating_ptr 4096
        \<lparr>vtable = ComObjectNVtbl, secondaries = secondary_entries [SecondaryVtbl 0],
         non_delegating_unknown = \<lparr>nd_vtable = NonDelegatingNVtbl, nd_parent = NullPtr\<rparr>,
         ref_count = 1, outer_unknown = None, inner = 0xDEADBEEF, alloc = ()\<rparr>)],
      events = [], foreign = ()\<rparr>"

definition driver_foo :: "(u32, u32, u32, (u32, unit, unit) world) method_body" where
  "driver_foo self val w = Return (PlainValue STATUS_SUCCESS, w)"

definition driver_bar :: "(u32, u32, u32, (u32, unit, unit) world) method_body" where
  "driver_bar = (\<lambda>self val w. and_then self (\<lambda>magic. Return (PlainValue (magic + val), w)))"

theorem method_shims_find_inner_witness:
  "shim_method (4, 4) Undefined (TyOther ''NTSTATUS'') driver_foo (PrimaryPtr 4096) 0 driver_object
      = Return (RustValue (PlainValue STATUS_SUCCESS), driver_object)
   \<and> shim_method_secondary (TyOther ''u32'') driver_bar (SecondaryPtr 4096 0) 1 driver_object
      = Return (RustValue (PlainValue 0xDEADBEF0), driver_object)
   \<and> shim_method (4, 4) Undefined (TyOther ''u32'') driver_bar (PrimaryPtr 4096) 1 driver_object = Undefined"
proof -
  obtain ob where ob: "objects driver_object 4096 = Some ob" "wf_object 4096 ob" "vtable ob = ComObjectNVtbl"
    "length (secondaries ob) = 1" "inner ob = 0xDEADBEEF" "secondaries ob \<noteq> []"
    by (simp add: driver_object_def wf_object_def secondary_entries_def init_secondary_ptr_def
        init_non_delegating_ptr_def secondary_list_init_def)
  note m = method_shims_find_inner [OF ob(1,2), where lay = "(4, 4)" and other = Undefined]
  show ?thesis
    using m [where body = driver_foo and args = 0 and ty = "TyOther ''NTSTATUS''"]
      m [where body = driver_bar and args = 1 and ty = "TyOther ''u32''"] ob(3-)
    by (simp add: Let_def map_return_def driver_foo_def driver_bar_def)
qed

section \<open>Objects of other allocators\<close>










section \<open>References of asynchronous methods\<close>

text \<open>
  The life of the guarded future of a method, from the moment the shim hands it over: it is polled, also
  after it has ended, and dropped at most once, while other owners take and give back references of
  their own, \<open>m\<close> at the time, and other code runs. \<open>Discarded True\<close> is a future that was dropped before its
  first poll.
\<close>

datatype 'f guarded_life = Living "'f guarded" | Discarded bool

fun unpolled :: "'f guarded \<Rightarrow> bool" where
  "unpolled (GuardedUnresumed f) = True"
| "unpolled _ = False"

inductive guarded_reach ::
  "(com_ptr \<Rightarrow> 'w \<Rightarrow> (u32 \<times> 'w) outcome) \<Rightarrow> (com_ptr \<Rightarrow> 'w \<Rightarrow> (u32 \<times> 'w) outcome) \<Rightarrow> ('f, 'v, 'w) future_ops
    \<Rightarrow> com_ptr \<Rightarrow> ('w \<Rightarrow> 'w \<Rightarrow> bool) \<Rightarrow> nat \<Rightarrow> 'f \<Rightarrow> nat \<Rightarrow> 'w \<Rightarrow> 'f guarded_life \<Rightarrow> nat \<Rightarrow> 'w \<Rightarrow> bool"
  for add_ref release M primary keeps cap f n w where
  handed_over: "guarded_reach add_ref release M primary keeps cap f n w (Living (GuardedUnresumed f)) n w"
| polled: "guarded_reach add_ref release M primary keeps cap f n w (Living g) m v
    \<Longrightarrow> guarded_poll release M primary g v = Return (r, g', v')
    \<Longrightarrow> guarded_reach add_ref release M primary keeps cap f n w (Living g') m v'"
| dropped: "guarded_reach add_ref release M primary keeps cap f n w (Living g) m v
    \<Longrightarrow> guarded_drop release M primary g v = Return (b, v')
    \<Longrightarrow> guarded_reach add_ref release M primary keeps cap f n w (Discarded (unpolled g)) m v'"
| elsewhere: "guarded_reach add_ref release M primary keeps cap f n w x m v \<Longrightarrow> keeps v v'
    \<Longrightarrow> guarded_reach add_ref release M primary keeps cap f n w x m v'"
| owner_adds: "guarded_reach add_ref release M primary keeps cap f n w x m v \<Longrightarrow> 0 < m \<Longrightarrow> m + 1 < cap
    \<Longrightarrow> add_ref primary v = Return (r, v')
    \<Longrightarrow> guarded_reach add_ref release M primary keeps cap f n w x (m + 1) v'"
| owner_releases: "guarded_reach add_ref release M primary keeps cap f n w x m v \<Longrightarrow> 0 < m
    \<Longrightarrow> release primary v = Return (r, v')
    \<Longrightarrow> guarded_reach add_ref release M primary keeps cap f n w x (m - 1) v'"

text \<open>The references the future still has: it gives its one back when it ends, unless it was never polled.\<close>

fun owed :: "'f guarded_life \<Rightarrow> nat" where
  "owed (Living (GuardedUnresumed f)) = 1"
| "owed (Living (GuardedAwaiting f)) = 1"
| "owed (Living GuardedReturned) = 0"
| "owed (Discarded never_polled) = (if never_polled then 1 else 0)"

text \<open>
  An executor does with a future it was given what it likes, as long as it does not poll one it
  refuses.
\<close>

definition executes ::
  "(com_ptr \<Rightarrow> 'w \<Rightarrow> (u32 \<times> 'w) outcome) \<Rightarrow> (com_ptr \<Rightarrow> 'w \<Rightarrow> (u32 \<times> 'w) outcome) \<Rightarrow> ('f, 'v, 'w) future_ops
    \<Rightarrow> com_ptr \<Rightarrow> ('w \<Rightarrow> 'w \<Rightarrow> bool) \<Rightarrow> nat
    \<Rightarrow> (com_ptr \<Rightarrow> 'f guarded \<Rightarrow> 'w \<Rightarrow> ((NTSTATUS + com_ptr) \<times> 'w) outcome) \<Rightarrow> nat \<Rightarrow> 'f \<Rightarrow> 'w \<Rightarrow> bool" where
  "executes add_ref release M primary keeps cap spawn n f w \<longleftrightarrow>
     (\<exists>op w' x. spawn primary (GuardedUnresumed f) w = Return (op, w')
       \<and> guarded_reach add_ref release M primary keeps cap f n w x n w'
       \<and> (\<forall>st. op = Inl st \<longrightarrow> x \<in> {Living (GuardedUnresumed f), Discarded True}))"

text \<open>
  What a call of an asynchronous method returns and leaves. \<open>init\<close> is what the method made of its
  arguments, with a reference taken for its future. The call ends with the \<open>n\<close> references there were, and
  with the one the future still has when it was accepted. Then the life of the future: the object has
  the references of the other owners and the one the future still has, and is dead when there are none;
  each poll and drop returns.
\<close>

definition async_call_spec ::
  "(com_ptr \<Rightarrow> 'w \<Rightarrow> (u32 \<times> 'w) outcome) \<Rightarrow> (com_ptr \<Rightarrow> 'w \<Rightarrow> (u32 \<times> 'w) outcome) \<Rightarrow> ('f, 'v, 'w) future_ops
    \<Rightarrow> com_ptr \<Rightarrow> (nat \<Rightarrow> 'w \<Rightarrow> bool) \<Rightarrow> ('w \<Rightarrow> bool) \<Rightarrow> ('w \<Rightarrow> 'w \<Rightarrow> bool) \<Rightarrow> nat \<Rightarrow> nat
    \<Rightarrow> (NTSTATUS + 'f) \<times> 'w \<Rightarrow> (com_ptr \<Rightarrow> 'f guarded \<Rightarrow> 'w \<Rightarrow> ((NTSTATUS + com_ptr) \<times> 'w) outcome)
    \<Rightarrow> (NTSTATUS \<Rightarrow> 'w \<Rightarrow> ((NTSTATUS + com_ptr) \<times> 'w) outcome) \<Rightarrow> (com_ptr \<times> 'w) outcome \<Rightarrow> bool" where
  "async_call_spec add_ref release M primary living dead keeps cap n init spawn spawn_error result \<longleftrightarrow>
     (case init of
        (Inl st, w2) \<Rightarrow> (\<exists>r w3 op w'. release primary w2 = Return (r, w3) \<and> spawn_error st w3 = Return (op, w')
           \<and> result = Return (case op of Inr q \<Rightarrow> q | Inl _ \<Rightarrow> NullPtr, w') \<and> living n w')
      | (Inr f, w2) \<Rightarrow>
          (\<exists>op w3 x. spawn primary (GuardedUnresumed f) w2 = Return (op, w3)
             \<and> guarded_reach add_ref release M primary keeps cap f n w2 x n w3
             \<and> (case op of
                  Inr q \<Rightarrow> result = Return (q, w3) \<and> living (n + owed x) w3
                | Inl _ \<Rightarrow> (\<exists>r w'. release primary w3 = Return (r, w') \<and> result = Return (NullPtr, w') \<and> living n w')))
          \<and> (\<forall>x m v. guarded_reach add_ref release M primary keeps cap f n w2 x m v \<longrightarrow>
               (if m + owed x = 0 then dead v else living (m + owed x) v)
               \<and> (\<forall>g. x = Living g \<longrightarrow> returns (guarded_poll release M primary g v)
                    \<and> returns (guarded_drop release M primary g v))))"

text \<open>
  What the shim and the guarded future need of the object: the two counting shims at its primary
  pointer, and that code which does not know the object leaves it alone.
\<close>

locale counted_object =
  fixes add_ref release :: "com_ptr \<Rightarrow> ('t, 'a, 'x) world \<Rightarrow> (u32 \<times> ('t, 'a, 'x) world) outcome"
    and primary :: com_ptr
    and living :: "nat \<Rightarrow> ('t, 'a, 'x) world \<Rightarrow> bool"
    and dead :: "('t, 'a, 'x) world \<Rightarrow> bool"
    and keeps :: "('t, 'a, 'x) world \<Rightarrow> ('t, 'a, 'x) world \<Rightarrow> bool"
    and cap :: nat
  assumes counted_add: "living n w \<Longrightarrow> n < cap \<Longrightarrow>
      \<exists>w'. add_ref primary w = Return (of_nat (n + 1), w') \<and> living (n + 1) w'"
    and counted_release: "living (n + 1) w \<Longrightarrow>
      \<exists>r w'. release primary w = Return (r, w') \<and> (if n = 0 then dead w' else living n w')"
    and counted_keeps: "living n w \<Longrightarrow> keeps w w' \<Longrightarrow> living n w'"
    and counted_dead: "dead w \<Longrightarrow> keeps w w' \<Longrightarrow> dead w'"
    and counted_primary: "primary \<noteq> NullPtr"
begin

lemma end_releases:
  assumes "living (n + 1) w" and "\<And>f w. keeps w (snd (fut_drop M f w))" and "calm_drops M"
  shows "\<exists>w'. guarded_end release M primary f w = Return (False, w') \<and> (if n = 0 then dead w' else living n w')"
proof -
  obtain r w1 where w1: "release primary w = Return (r, w1)" "if n = 0 then dead w1 else living n w1"
    using counted_release [OF assms(1)] by blast
  obtain w2 where w2: "fut_drop M f w1 = (False, w2)" "keeps w1 w2"
    using assms(2) [of w1 f] assms(3) by (metis (full_types) calm_drops_def prod.collapse)
  show ?thesis
    using w1 w2 counted_keeps counted_dead
    by (auto simp: guarded_end_def release_guard_drop_def split: if_splits)
qed

lemma poll_releases:
  assumes "living (n + 1) w" and "\<And>f w. keeps w (snd (fut_drop M f w))" and "calm_drops M"
    and "\<And>f w. keeps w (snd (snd (fut_poll M f w)))" and "g \<in> {GuardedUnresumed f, GuardedAwaiting f}"
  shows "\<exists>r g' w'. guarded_poll release M primary g w = Return (r, g', w')
    \<and> (r = PollPending \<longrightarrow> (\<exists>f'. g' = GuardedAwaiting f') \<and> living (n + 1) w')
    \<and> (r \<noteq> PollPending \<longrightarrow> g' = GuardedReturned \<and> (if n = 0 then dead w' else living n w'))"
proof -
  obtain r f1 w1 where p: "fut_poll M f w = (r, f1, w1)" by (metis prod_cases3)
  then have l: "living (n + 1) w1" using counted_keeps [OF assms(1)] assms(4) [of w f] by simp
  have e: "guarded_poll release M primary g w = guarded_resume release M primary f w"
    using assms(5) by (auto simp: guarded_poll_def)
  from end_releases [OF l assms(2,3), of f1] l p show ?thesis
    by (cases r; cases "n = 0") (auto simp: e guarded_resume_def)
qed

lemma life_counts:
  assumes "living (n + 1) w" and "\<And>f w. keeps w (snd (fut_drop M f w))" and "calm_drops M"
    and "\<And>f w. keeps w (snd (snd (fut_poll M f w)))"
    and "guarded_reach add_ref release M primary keeps cap f n w x m v"
  shows "if m + owed x = 0 then dead v else living (m + owed x) v"
  using assms(5)
proof induction
  case (polled g m v r g' v')
  show ?case
  proof (cases g)
    case GuardedReturned
    then show ?thesis using polled by (auto simp: guarded_poll_def)
  next
    case (GuardedUnresumed f')
    then show ?thesis
      using polled poll_releases [of m v M g f', OF _ assms(2-4)] by (cases "r = PollPending") auto
  next
    case (GuardedAwaiting f')
    then show ?thesis
      using polled poll_releases [of m v M g f', OF _ assms(2-4)] by (cases "r = PollPending") auto
  qed
next
  case (dropped g m v b v')
  show ?case
  proof (cases g)
    case (GuardedUnresumed f')
    then show ?thesis
      using dropped counted_keeps [of "m + 1" v v'] assms(2) [of v f'] by (auto simp: guarded_drop_def)
  next
    case (GuardedAwaiting f')
    then show ?thesis
      using dropped end_releases [of m v M f', OF _ assms(2,3)] by (auto simp: guarded_drop_def)
  qed (use dropped in \<open>auto simp: guarded_drop_def\<close>)
next
  case (elsewhere x m v v')
  then show ?case using counted_keeps counted_dead by (auto split: if_splits)
next
  case (owner_adds x m v r v')
  moreover have "owed x \<le> 1" by (cases x rule: owed.cases) auto
  ultimately show ?case using counted_add [of "m + owed x" v] by auto
next
  case (owner_releases x m v r v')
  then show ?case using counted_release [of "m - 1 + owed x" v] by auto
qed (use assms(1) in simp)

text \<open>A poll and a drop return in all states of the life.\<close>

lemma life_returns:
  assumes "living (n + 1) w" and "\<And>f w. keeps w (snd (fut_drop M f w))" and "calm_drops M"
    and "\<And>f w. keeps w (snd (snd (fut_poll M f w)))"
    and "guarded_reach add_ref release M primary keeps cap f n w (Living g) m v"
  shows "returns (guarded_poll release M primary g v)" and "returns (guarded_drop release M primary g v)"
proof -
  note l = life_counts [OF assms]
  show "returns (guarded_poll release M primary g v)"
  proof (cases g)
    case GuardedReturned
    then show ?thesis by (simp add: guarded_poll_def)
  qed (use l poll_releases [of m v M g, OF _ assms(2-4)] in force)+
  show "returns (guarded_drop release M primary g v)"
  proof (cases g)
    case (GuardedAwaiting f')
    then show ?thesis using l end_releases [of m v M f', OF _ assms(2,3)] by (auto simp: guarded_drop_def)
  qed (simp_all add: guarded_drop_def)
qed

lemma shim_references:
  assumes "living n w" and "0 < n" and "n < cap"
    and "\<And>f w. keeps w (snd (fut_drop M f w))" and "calm_drops M"
    and "\<And>f w. keeps w (snd (snd (fut_poll M f w)))"
    and "\<And>v w. \<exists>r w'. body v args w = Return (r, w') \<and> keeps w w'"
    and "\<And>st w. \<exists>r w'. spawn_error st w = Return (r, w') \<and> keeps w w'"
    and "\<And>f w. living (n + 1) w \<Longrightarrow> executes add_ref release M primary keeps cap spawn n f w"
  shows "\<exists>w1 init. add_ref primary w = Return (of_nat (n + 1), w1) \<and> body v args w1 = Return init
    \<and> async_call_spec add_ref release M primary living dead keeps cap n init spawn spawn_error
        (async_shim add_ref release body spawn spawn_error primary v args w)"
proof -
  obtain w1 where a: "add_ref primary w = Return (of_nat (n + 1), w1)" "living (n + 1) w1"
    using counted_add [OF assms(1,3)] by blast
  obtain init w2 where b: "body v args w1 = Return (init, w2)" "living (n + 1) w2"
    using assms(7) [of v w1] counted_keeps [OF a(2)] by blast
  have "async_call_spec add_ref release M primary living dead keeps cap n (init, w2) spawn spawn_error
      (async_shim add_ref release body spawn spawn_error primary v args w)"
  proof (cases init)
    case (Inl st)
    obtain r w3 where r: "release primary w2 = Return (r, w3)" "living n w3"
      using counted_release [OF b(2)] assms(2) by auto
    obtain op w4 where "spawn_error st w3 = Return (op, w4)" "living n w4"
      using assms(8) [of st w3] counted_keeps [OF r(2)] by blast
    then show ?thesis using a(1) b Inl r(1) by (simp add: async_call_spec_def async_shim_def)
  next
    case (Inr f)
    obtain op w3 x where s: "spawn primary (GuardedUnresumed f) w2 = Return (op, w3)"
      "guarded_reach add_ref release M primary keeps cap f n w2 x n w3"
      "\<forall>st. op = Inl st \<longrightarrow> x \<in> {Living (GuardedUnresumed f), Discarded True}"
      using assms(9) [OF b(2), of f] by (auto simp: executes_def)
    have l: "living (n + owed x) w3" using life_counts [OF b(2) assms(4-6) s(2)] assms(2) by simp
    have "\<exists>r w4. release primary w3 = Return (r, w4) \<and> living n w4" if "op = Inl st" for st
    proof -
      have "owed x = 1" using s(3) that by auto
      then show ?thesis using counted_release [of n w3] assms(2) l by auto
    qed
    then show ?thesis
      using a(1) b(1) Inr s(1,2) l counted_primary life_counts [OF b(2) assms(4-6)] life_returns [OF b(2) assms(4-6)]
      by (cases op) (fastforce simp: async_call_spec_def async_shim_def guard_ptr_new_def guard_ptr_as_ptr_def)+
  qed
  then show ?thesis using a(1) b(1) by blast
qed

end

definition own_alive :: "('t, 'a, 'x) env \<Rightarrow> addr \<Rightarrow> nat \<Rightarrow> nat \<Rightarrow> ('t, 'a, 'x) world \<Rightarrow> bool" where
  "own_alive env a k n w \<longleftrightarrow> alive_with env a k n w \<and> PrimaryPtr a \<in> counting_ptrs a w"

lemma own_alive_add:
  assumes "own_alive env a k n w" and "n < refcount_cap (env_build env)"
  shows "\<exists>w'. panic_guard (add_ref_count env a w) = Return (of_nat (n + 1), w') \<and> own_alive env a k (n + 1) w'"
  using assms add_ref_count_alive [of env a k n w] by (auto simp: own_alive_def)

lemma own_alive_release:
  assumes "own_alive env a k (n + 1) w"
  shows "\<exists>r w'. panic_guard (release_own env a w) = Return (r, w')
    \<and> (if n = 0 then dead_after a k w' else own_alive env a k n w')"
  using assms release_own_last [of env a k w] release_own_shared [of env a k n w]
  by (cases "n = 0") (auto simp: own_alive_def)

lemma own_alive_shims:
  assumes "own_alive env a k n w"
  shows "shim_add_ref env (PrimaryPtr a) w = panic_guard (add_ref_count env a w)"
    and "shim_add_ref_n env (PrimaryPtr a) w = panic_guard (add_ref_count env a w)"
    and "shim_release env (PrimaryPtr a) w = panic_guard (release_own env a w)"
    and "shim_release_n env (PrimaryPtr a) w = panic_guard (release_own env a w)"
  using assms
  by (auto simp: own_alive_def alive_with_def counting_ptrs_def shim_add_ref_def shim_add_ref_n_def
      shim_release_def shim_release_n_def from_ptr_def delegating_add_ref_own delegating_release_own
      split: if_splits)

lemma own_alive_keeps: "own_alive env a k n w \<Longrightarrow> keeps_object a w w' \<Longrightarrow> own_alive env a k n w'"
  by (auto simp: own_alive_def alive_with_def keeps_object_def counting_ptrs_def)

lemma dead_after_keeps: "dead_after a k w \<Longrightarrow> keeps_object a w w' \<Longrightarrow> dead_after a k w'"
  by (simp add: dead_after_def keeps_object_def)

interpretation single_counted: counted_object "shim_add_ref env" "shim_release env" "PrimaryPtr a"
  "own_alive env a k" "dead_after a k" "keeps_object a" "refcount_cap (env_build env)" for env a k
proof unfold_locales
  fix n w assume "own_alive env a k n w" "n < refcount_cap (env_build env)"
  then show "\<exists>w'. shim_add_ref env (PrimaryPtr a) w = Return (of_nat (n + 1), w') \<and> own_alive env a k (n + 1) w'"
    using own_alive_add own_alive_shims(1) by metis
next
  fix n w assume "own_alive env a k (n + 1) w"
  then show "\<exists>r w'. shim_release env (PrimaryPtr a) w = Return (r, w')
      \<and> (if n = 0 then dead_after a k w' else own_alive env a k n w')"
    using own_alive_release own_alive_shims(3) by metis
qed (auto intro: own_alive_keeps dead_after_keeps)

interpretation multi_counted: counted_object "shim_add_ref_n env" "shim_release_n env" "PrimaryPtr a"
  "own_alive env a k" "dead_after a k" "keeps_object a" "refcount_cap (env_build env)" for env a k
proof unfold_locales
  fix n w assume "own_alive env a k n w" "n < refcount_cap (env_build env)"
  then show "\<exists>w'. shim_add_ref_n env (PrimaryPtr a) w = Return (of_nat (n + 1), w') \<and> own_alive env a k (n + 1) w'"
    using own_alive_add own_alive_shims(2) by metis
next
  fix n w assume "own_alive env a k (n + 1) w"
  then show "\<exists>r w'. shim_release_n env (PrimaryPtr a) w = Return (r, w')
      \<and> (if n = 0 then dead_after a k w' else own_alive env a k n w')"
    using own_alive_release own_alive_shims(4) by metis
qed (auto intro: own_alive_keeps dead_after_keeps)

definition neutral_calls ::
  "addr \<Rightarrow> ('i \<Rightarrow> ('t, 'a, 'x) world \<Rightarrow> ('r \<times> ('t, 'a, 'x) world) outcome) \<Rightarrow> bool" where
  "neutral_calls a g \<longleftrightarrow> (\<forall>i w. \<exists>r w'. g i w = Return (r, w') \<and> keeps_object a w w')"

text \<open>C26: References of an asynchronous method. Its shim, primary or secondary, takes one reference on
  the object for the future. If the method or the initialisation of its future fails, or the executor
  refuses, the reference is given back before the shim returns the error operation or null. If the
  executor accepts, it belongs to the future, from the spawn on, during which the executor may already
  poll and drop it. However the executor polls and drops the future, and whatever the other owners do: the
  future gives the reference back exactly once, when it returns, when it panics, or when it is dropped after its
  first poll; polls and the drop after its end give back nothing; a future dropped before its first poll
  leaks the reference. At any time the object has exactly the references of the other owners and the one
  the future still has, and it is destroyed exactly when there are none. A call with a null pointer touches
  nothing.\<close>

theorem async_method_references:
  fixes body :: "'t \<Rightarrow> 'args \<Rightarrow> ('t, 'a, 'x) world \<Rightarrow> ((NTSTATUS + 'f) \<times> ('t, 'a, 'x) world) outcome"
  assumes "own_alive env a k n w" and "0 < n" and "n < refcount_cap (env_build env)"
    and "objects w a = Some ob"
    and "neutral_calls a (\<lambda>v. body v args)" and "neutral_calls a spawn_error"
    and "op_neutral a M takec" and "calm_drops M"
  shows "(vtable ob = ComObjectVtbl \<longrightarrow>
        (\<forall>f w. own_alive env a k (n + 1) w \<longrightarrow> executes (shim_add_ref env) (shim_release env) M (PrimaryPtr a)
          (keeps_object a) (refcount_cap (env_build env)) spawn n f w) \<longrightarrow>
        (\<exists>w1 init. shim_add_ref env (PrimaryPtr a) w = Return (of_nat (n + 1), w1)
          \<and> body (inner ob) args w1 = Return init
          \<and> async_call_spec (shim_add_ref env) (shim_release env) M (PrimaryPtr a) (own_alive env a k)
              (dead_after a k) (keeps_object a) (refcount_cap (env_build env)) n init spawn spawn_error
              (shim_async_method env body spawn spawn_error (PrimaryPtr a) args w)))
    \<and> (\<forall>i < length (secondaries ob).
        (\<forall>f w. own_alive env a k (n + 1) w \<longrightarrow> executes (shim_add_ref_n env) (shim_release_n env) M (PrimaryPtr a)
          (keeps_object a) (refcount_cap (env_build env)) spawn n f w) \<longrightarrow>
        (\<exists>w1 init. shim_add_ref_n env (PrimaryPtr a) w = Return (of_nat (n + 1), w1)
          \<and> body (inner ob) args w1 = Return init
          \<and> async_call_spec (shim_add_ref_n env) (shim_release_n env) M (PrimaryPtr a) (own_alive env a k)
              (dead_after a k) (keeps_object a) (refcount_cap (env_build env)) n init spawn spawn_error
              (shim_async_method_secondary env body spawn spawn_error (SecondaryPtr a i) args w)))
    \<and> shim_async_method env body spawn spawn_error NullPtr args w = Return (NullPtr, w)
    \<and> shim_async_method_secondary env body spawn spawn_error NullPtr args w = Return (NullPtr, w)"
proof -
  have body: "\<And>v w. \<exists>r w'. body v args w = Return (r, w') \<and> keeps_object a w w'"
    and err: "\<And>st w. \<exists>r w'. spawn_error st w = Return (r, w') \<and> keeps_object a w w'"
    using assms(5,6) by (fastforce simp: neutral_calls_def)+
  have M: "\<And>f w. keeps_object a w (snd (fut_drop M f w))" "\<And>f w. keeps_object a w (snd (snd (fut_poll M f w)))"
    using assms(7) by (auto simp: op_neutral_def)
  have wf: "wf_object a ob" using assms(1,4) by (auto simp: own_alive_def elim: alive_with_object)
  have "shim_async_method env body spawn spawn_error (PrimaryPtr a) args w
      = async_shim (shim_add_ref env) (shim_release env) body spawn spawn_error (PrimaryPtr a) (inner ob) args w"
    if "vtable ob = ComObjectVtbl"
    using assms(4) that by (simp add: shim_async_method_def from_ptr_def)
  moreover have "shim_async_method_secondary env body spawn spawn_error (SecondaryPtr a i) args w
      = async_shim (shim_add_ref_n env) (shim_release_n env) body spawn spawn_error (PrimaryPtr a) (inner ob) args w"
    if "i < length (secondaries ob)" for i
    using assms(4) that wf_object_entry [OF wf]
    by (simp add: shim_async_method_secondary_def from_secondary_ptr_def parent_from_ptr_def from_ptr_def)
  moreover note single_counted.shim_references [where body = body and args = args and spawn = spawn
      and spawn_error = spawn_error and v = "inner ob" and M = M, OF assms(1-3) M(1) assms(8) M(2) body err]
    multi_counted.shim_references [where body = body and args = args and spawn = spawn
      and spawn_error = spawn_error and v = "inner ob" and M = M, OF assms(1-3) M(1) assms(8) M(2) body err]
  ultimately show ?thesis by (simp add: shim_async_method_def shim_async_method_secondary_def)
qed

text \<open>An executor that polls the future once while it is spawned, drops it and hands out an operation.\<close>

definition eager_spawn ::
  "(com_ptr \<Rightarrow> 'w \<Rightarrow> (u32 \<times> 'w) outcome) \<Rightarrow> ('f, 'v, 'w) future_ops \<Rightarrow> com_ptr \<Rightarrow> 'f guarded \<Rightarrow> 'w
    \<Rightarrow> ((NTSTATUS + com_ptr) \<times> 'w) outcome" where
  "eager_spawn release M p g w =
     and_then (guarded_poll release M p g w) (\<lambda>(r, g', w1).
     and_then (guarded_drop release M p g' w1) (\<lambda>(b, w2). Return (Inr (PrimaryPtr 8192), w2)))"

lemma eager_spawn_ends:
  assumes "own_alive env a k (n + 1) w" and "op_neutral a M takec" and "calm_drops M"
  obtains w' where "eager_spawn (shim_release env) M (PrimaryPtr a) (GuardedUnresumed f) w
      = Return (Inr (PrimaryPtr 8192), w')"
    and "guarded_reach (shim_add_ref env) (shim_release env) M (PrimaryPtr a) (keeps_object a)
      (refcount_cap (env_build env)) f n w (Discarded False) n w'"
proof -
  have M: "\<And>f w. keeps_object a w (snd (fut_drop M f w))" "\<And>f w. keeps_object a w (snd (snd (fut_poll M f w)))"
    using assms(2) by (auto simp: op_neutral_def)
  note handed = guarded_reach.handed_over [where add_ref = "shim_add_ref env" and release = "shim_release env"
      and M = M and primary = "PrimaryPtr a" and keeps = "keeps_object a" and cap = "refcount_cap (env_build env)"
      and f = f and n = n and w = w]
  obtain r g' w1 where p: "guarded_poll (shim_release env) M (PrimaryPtr a) (GuardedUnresumed f) w = Return (r, g', w1)"
    "r = PollPending \<Longrightarrow> \<exists>f'. g' = GuardedAwaiting f'" "r \<noteq> PollPending \<Longrightarrow> g' = GuardedReturned"
    using single_counted.poll_releases [where M = M, OF assms(1) M(1) assms(3) M(2), of "GuardedUnresumed f" f] by blast
  note polled = guarded_reach.polled [OF handed p(1)]
  obtain b w2 where d: "guarded_drop (shim_release env) M (PrimaryPtr a) g' w1 = Return (b, w2)"
    using single_counted.life_returns(2) [where M = M, OF assms(1) M(1) assms(3) M(2) polled]
    by (cases "guarded_drop (shim_release env) M (PrimaryPtr a) g' w1") auto
  have "\<not> unpolled g'" using p(2,3) by (cases "r = PollPending") auto
  then show ?thesis
    using that [of w2] guarded_reach.dropped [OF polled d] p(1) d by (simp add: eager_spawn_def)
qed

text \<open>
  With that executor a call leaves the object with the one reference it had: the end of the future gave the
  shim's back, the drop after it nothing more.
\<close>

theorem async_method_references_witness:
  "\<exists>w'. shim_async_method (unit_env hardened_build) (\<lambda>v args w. Return (Inr (0::nat), w))
      (eager_spawn (shim_release (unit_env hardened_build)) (later_ops ())) (\<lambda>st w. Return (Inl st, w))
      (PrimaryPtr 4096) () single_object
    = Return (PrimaryPtr 8192, w') \<and> own_alive (unit_env hardened_build) 4096 0 1 w'"
proof -
  let ?e = "unit_env hardened_build"
  let ?body = "\<lambda>v args w. Return (Inr (0::nat) :: NTSTATUS + nat, w)"
  let ?spawn = "eager_spawn (shim_release ?e) (later_ops ())"
  let ?err = "\<lambda>st w. Return (Inl st :: NTSTATUS + com_ptr, w)"
  obtain ob where ob: "objects single_object 4096 = Some ob" "vtable ob = ComObjectVtbl" "\<not> delegates ob"
    using single_object_at by (simp add: init_non_delegating_ptr_def delegates_def)
  have al: "own_alive ?e 4096 0 1 single_object"
    using single_object_alive ob(1,3) by (simp add: own_alive_def counting_ptrs_def)
  have n: "neutral_calls 4096 (\<lambda>v. ?body v ())" "neutral_calls 4096 ?err" by (auto simp: neutral_calls_def)
  note ends = eager_spawn_ends [where M = "later_ops ()", OF _ later_neutral]
  have ex: "executes (shim_add_ref ?e) (shim_release ?e) (later_ops ()) (PrimaryPtr 4096) (keeps_object 4096)
      (refcount_cap (env_build ?e)) ?spawn 1 f w" if "own_alive ?e 4096 0 (1 + 1) w" for f w
    using ends [OF that, of f] unfolding executes_def by blast
  obtain w1 where w1: "shim_add_ref ?e (PrimaryPtr 4096) single_object = Return (of_nat (1 + 1), w1)"
    "async_call_spec (shim_add_ref ?e) (shim_release ?e) (later_ops ()) (PrimaryPtr 4096) (own_alive ?e 4096 0)
      (dead_after 4096 0) (keeps_object 4096) (refcount_cap (env_build ?e)) 1 (Inr 0, w1) ?spawn ?err
      (shim_async_method ?e ?body ?spawn ?err (PrimaryPtr 4096) () single_object)"
    using async_method_references [where body = ?body and args = "()" and spawn = ?spawn and spawn_error = ?err
        and M = "later_ops ()", OF al _ unit_env_cap ob(1) n later_neutral] ob(2) ex by auto
  obtain w2 where "shim_add_ref ?e (PrimaryPtr 4096) single_object = Return (of_nat (1 + 1), w2)"
    "own_alive ?e 4096 0 (1 + 1) w2"
    using single_counted.counted_add [OF al unit_env_cap] by blast
  then have l: "own_alive ?e 4096 0 (1 + 1) w1" using w1(1) by simp
  obtain w' where w': "?spawn (PrimaryPtr 4096) (GuardedUnresumed 0) w1 = Return (Inr (PrimaryPtr 8192), w')"
    "guarded_reach (shim_add_ref ?e) (shim_release ?e) (later_ops ()) (PrimaryPtr 4096) (keeps_object 4096)
      (refcount_cap (env_build ?e)) 0 1 w1 (Discarded False) 1 w'"
    using ends [OF l, of 0] by blast
  have "shim_async_method ?e ?body ?spawn ?err (PrimaryPtr 4096) () single_object = Return (PrimaryPtr 8192, w')"
    using w1(2) w'(1) unfolding async_call_spec_def by (auto split: sum.splits)
  moreover have "own_alive ?e 4096 0 1 w'"
    using w1(2) w'(2) unfolding async_call_spec_def by (auto dest!: spec [of _ "Discarded False"] spec [of _ "Suc 0"] spec [of _ w'])
  ultimately show ?thesis by blast
qed

end
