(* ===== verification/Async_Methods.thy ===== *)
theory Async_Methods
  imports Interface_Properties
begin

text \<open>
  An asynchronous method and the operation it returns, in one memory, on the executor of builds without
  a kernel. \<open>Interface_Properties\<close> has the shim with an executor that leaves the object alone; the host
  executor does not, for it polls the future before it returns, and the guard in the future releases the
  object. Here the shim, the guarded future, the operation and that executor are composed.
\<close>

section \<open>Two kinds of objects in one memory\<close>

text \<open>
  A world of objects has the world of operations beside it, as its foreign part. \<open>swap_world\<close> turns the
  view from the one to the other, so that each kind is handled by the definitions for its type.
\<close>

type_synonym ('v, 'x) operations = "('v AsyncOperationTask, GlobalAllocator, 'x) world"
type_synonym ('t, 'a, 'v, 'x) object_view = "('t, 'a, ('v, 'x) operations) world"
type_synonym ('t, 'a, 'v, 'x) operation_view = "('v, ('t, 'a, 'x) world) op_world"

definition swap_world ::
  "('t, 'a, ('s, 'b, 'x) world) world \<Rightarrow> ('s, 'b, ('t, 'a, 'x) world) world" where
  "swap_world w =
     \<lparr>objects = objects (foreign w), events = events (foreign w),
      foreign = \<lparr>objects = objects w, events = events w, foreign = foreign (foreign w)\<rparr>\<rparr>"

lemma swap_swap [simp]: "swap_world (swap_world w) = w"
  by (simp add: swap_world_def)

lemma objects_swap [simp]:
  "objects (foreign (swap_world w)) = objects w" "objects (swap_world w) = objects (foreign w)"
  by (simp_all add: swap_world_def)

definition in_other_view ::
  "('i \<Rightarrow> ('t, 'a, ('s, 'b, 'x) world) world \<Rightarrow> ('r \<times> ('t, 'a, ('s, 'b, 'x) world) world) outcome)
    \<Rightarrow> 'i \<Rightarrow> ('s, 'b, ('t, 'a, 'x) world) world \<Rightarrow> ('r \<times> ('s, 'b, ('t, 'a, 'x) world) world) outcome" where
  "in_other_view g i w = and_then (g i (swap_world w)) (\<lambda>(r, w1). Return (r, swap_world w1))"

text \<open>
  The block around the future of a method, as a future of the world of operations: its guard releases the
  object in the other view. A release that does not return ends the program; it is shown as a panic of
  the poll or the drop, which the executor does not survive either.
\<close>

definition guarded_ops ::
  "(com_ptr \<Rightarrow> ('t, 'a, 'v, 'x) object_view \<Rightarrow> (u32 \<times> ('t, 'a, 'v, 'x) object_view) outcome)
    \<Rightarrow> ('f, 'v, ('t, 'a, 'v, 'x) operation_view) future_ops \<Rightarrow> com_ptr
    \<Rightarrow> ('f guarded, 'v, ('t, 'a, 'v, 'x) operation_view) future_ops" where
  "guarded_ops release M ptr =
     \<lparr>fut_poll = (\<lambda>g w.
        case guarded_poll (in_other_view release) M ptr g w of
          Return (r, g1, w1) \<Rightarrow> (r, g1, w1) | _ \<Rightarrow> (PollPanic, GuardedReturned, w)),
      fut_drop = (\<lambda>g w.
        case guarded_drop (in_other_view release) M ptr g w of
          Return (panicked, w1) \<Rightarrow> (panicked, w1) | _ \<Rightarrow> (True, w))\<rparr>"

text \<open>\<open>spawn_async_operation_raw\<close> and \<open>spawn_async_operation_error_raw\<close> as the shim calls them.\<close>

definition method_spawn ::
  "('v, ('t, 'a, 'x) world) op_env
    \<Rightarrow> (com_ptr \<Rightarrow> ('t, 'a, 'v, 'x) object_view \<Rightarrow> (u32 \<times> ('t, 'a, 'v, 'x) object_view) outcome)
    \<Rightarrow> ('f, 'v, ('t, 'a, 'v, 'x) operation_view) future_ops
    \<Rightarrow> com_ptr \<Rightarrow> 'f guarded \<Rightarrow> ('t, 'a, 'v, 'x) object_view
    \<Rightarrow> ((NTSTATUS + com_ptr) \<times> ('t, 'a, 'v, 'x) object_view) outcome" where
  "method_spawn op_env release M ptr g w =
     (let B = guarded_ops release M ptr
      in in_other_view (spawn_async_operation_raw op_env B host_take_cancellation_request
           host_spawn_cancellable (\<lambda>q. host_handle_drop (async_task_drop op_env B q))) g w)"

definition method_spawn_error ::
  "('v, ('t, 'a, 'x) world) op_env \<Rightarrow> NTSTATUS \<Rightarrow> ('t, 'a, 'v, 'x) object_view
    \<Rightarrow> ((NTSTATUS + com_ptr) \<times> ('t, 'a, 'v, 'x) object_view) outcome" where
  "method_spawn_error op_env status w =
     (case spawn_async_operation_error_raw op_env status (swap_world w) of
        (r, w1) \<Rightarrow> Return (r, swap_world w1))"

section \<open>What each side leaves of the other\<close>

lemma keeps_object_swap:
  "keeps_object q (swap_world w) (swap_world w') \<longleftrightarrow> keeps_object q (foreign w) (foreign w')"
  by (simp add: keeps_object_def swap_world_def drops_def deallocs_def)

lemma keeps_foreign_swap:
  "keeps_object q (foreign (swap_world w)) (foreign (swap_world w')) \<longleftrightarrow> keeps_object q w w'"
  by (simp add: keeps_object_def swap_world_def drops_def deallocs_def)

lemma keeps_put_swap: "keeps_object p (swap_world w) (swap_world (put_object q ob w))"
  by (simp add: keeps_object_swap)

text \<open>The surroundings of the operation: its allocator answers \<open>q\<close>, or null, and knows no object.\<close>

definition method_env_ok :: "('v, ('t, 'a, 'x) world) op_env \<Rightarrow> addr \<Rightarrow> addr \<Rightarrow> bool" where
  "method_env_ok op_env p q \<longleftrightarrow>
     op_env_ok op_env q
     \<and> (\<forall>w. \<exists>w'. env_alloc op_env GlobalAllocator (env_layout op_env) w = (q, w')
          \<and> keeps_object p (foreign w) (foreign w'))"

text \<open>A future that knows neither the object its method belongs to nor the operation.\<close>

definition method_future_ok ::
  "('f, 'v, ('t, 'a, 'v, 'x) operation_view) future_ops \<Rightarrow> addr \<Rightarrow> addr \<Rightarrow> bool" where
  "method_future_ok M p q \<longleftrightarrow>
     calm_drops M
     \<and> (\<forall>f w. keeps_object q w (snd (snd (fut_poll M f w)))
          \<and> keeps_object p (foreign w) (foreign (snd (snd (fut_poll M f w)))))
     \<and> (\<forall>f w. keeps_object q w (snd (fut_drop M f w)) \<and> keeps_object p (foreign w) (foreign (snd (fut_drop M f w))))"

lemma method_poll:
  assumes "method_future_ok M p q" and "fut_poll M f w = (r, f1, w1)"
  shows "keeps_object q w w1" "keeps_object p (foreign w) (foreign w1)"
  using assms by (auto simp: method_future_ok_def dest!: spec [of _ f] spec [of _ w])

lemma method_drop:
  assumes "method_future_ok M p q"
  obtains w1 where "fut_drop M f w = (False, w1)" "keeps_object q w w1" "keeps_object p (foreign w) (foreign w1)"
proof -
  obtain b w1 where d: "fut_drop M f w = (b, w1)" by fastforce
  then have "\<not> b" "keeps_object q w w1" "keeps_object p (foreign w) (foreign w1)"
    using assms
    by (auto simp: method_future_ok_def calm_drops_def dest!: spec [of _ f] spec [of _ w])
  then show thesis using d that by simp
qed

text \<open>Counting references of the object does not touch the operations.\<close>

lemma own_alive_add_frame:
  assumes "own_alive env p k n w" and "n < refcount_cap (env_build env)"
  obtains w' where "panic_guard (add_ref_count env p w) = Return (of_nat (n + 1), w')"
    "own_alive env p k (n + 1) w'" "foreign w' = foreign w"
proof -
  obtain w' where w': "panic_guard (add_ref_count env p w) = Return (of_nat (n + 1), w')" "own_alive env p k (n + 1) w'"
    using own_alive_add [OF assms] by blast
  then have "foreign w' = foreign w" by (auto simp: panic_guard_def fail_fast_def add_ref_count_def outcome_simps split: outcome.splits)
  with w' that show thesis by blast
qed

lemma own_alive_release_frame:
  assumes "own_alive env p k (n + 1) w" and "0 < n"
  obtains r w' where "panic_guard (release_own env p w) = Return (r, w')"
    "own_alive env p k n w'" "foreign w' = foreign w"
proof -
  obtain ob where "sub_ref_count env p w = Return (of_nat n, put_object p (ob\<lparr>ref_count := of_nat n\<rparr>) w)"
    using sub_ref_count_alive [of env p k n w] assms(1) by (auto simp: own_alive_def)
  moreover have "n \<le> refcount_cap (env_build env)" using assms(1) by (simp add: own_alive_def alive_with_def)
  ultimately have "release_own env p w = Return (of_nat n, put_object p (ob\<lparr>ref_count := of_nat n\<rparr>) w)"
    using of_nat_positive_count [OF assms(2)] by (simp add: release_own_def)
  then show thesis using own_alive_release [OF assms(1)] assms(2) that by auto
qed

text \<open>Creating an operation, with what it leaves of the object.\<close>

lemma method_new:
  assumes "method_env_ok op_env p q"
  shows "\<exists>w1. com_object_new op_env v w = (if q = null then Inl STATUS_INSUFFICIENT_RESOURCES else Inr (PrimaryPtr q), w1)
    \<and> keeps_object p (foreign w) (foreign w1)"
proof -
  obtain w' where "env_alloc op_env GlobalAllocator (env_layout op_env) w = (q, w')"
    "keeps_object p (foreign w) (foreign w')"
    using assms unfolding method_env_ok_def by blast
  then show ?thesis by (simp add: com_object_new_def new_in_def try_new_in_def Let_def)
qed

section \<open>The guarded future\<close>

text \<open>
  The pair of shims that count at the primary pointer: those of \<open>ComObject\<close> for the primary interface of
  an object with one, those of \<open>ComObjectN\<close> for secondary interfaces.
\<close>

definition counts_at ::
  "('t, 'a, 'x) env \<Rightarrow> addr \<Rightarrow> nat
    \<Rightarrow> (com_ptr \<Rightarrow> ('t, 'a, 'x) world \<Rightarrow> (u32 \<times> ('t, 'a, 'x) world) outcome)
    \<Rightarrow> (com_ptr \<Rightarrow> ('t, 'a, 'x) world \<Rightarrow> (u32 \<times> ('t, 'a, 'x) world) outcome) \<Rightarrow> bool" where
  "counts_at env p k add_ref release \<longleftrightarrow>
     (\<forall>n w. own_alive env p k n w \<longrightarrow> add_ref (PrimaryPtr p) w = panic_guard (add_ref_count env p w)
        \<and> release (PrimaryPtr p) w = panic_guard (release_own env p w))"

lemma counts_at_shims:
  "counts_at env p k (shim_add_ref env) (shim_release env)"
  "counts_at env p k (shim_add_ref_n env) (shim_release_n env)"
  by (auto simp: counts_at_def dest: own_alive_shims)

lemma guarded_end_hosted:
  assumes "counts_at env p k add_ref release" and "method_future_ok M p q"
    and "own_alive env p k (n + 1) (swap_world w)" and "0 < n"
  obtains w' where "guarded_end (in_other_view release) M (PrimaryPtr p) f w = Return (False, w')"
    "own_alive env p k n (swap_world w')" "keeps_object q w w'"
proof -
  obtain r u where u: "panic_guard (release_own env p (swap_world w)) = Return (r, u)"
    "own_alive env p k n u" "foreign u = foreign (swap_world w)"
    using own_alive_release_frame [OF assms(3,4)] by blast
  have "in_other_view release (PrimaryPtr p) w = Return (r, swap_world u)"
    using assms(1,3) u(1) by (auto simp: counts_at_def in_other_view_def)
  moreover have "keeps_object q w (swap_world u)"
    using u(3) keeps_object_swap [of q "swap_world w" u] by simp
  moreover obtain w1 where w1: "fut_drop M f (swap_world u) = (False, w1)" "keeps_object q (swap_world u) w1"
    "keeps_object p (foreign (swap_world u)) (foreign w1)"
    using method_drop [OF assms(2)] by blast
  moreover have "keeps_object p u (swap_world w1)"
    using w1(3) keeps_foreign_swap [of p u "swap_world w1"] by simp
  ultimately show thesis
    using own_alive_keeps [OF u(2)] that [of w1]
    by (auto simp: guarded_end_def release_guard_drop_def intro: keeps_object_trans)
qed

text \<open>
  The first poll of the guarded future, and its drop when the poll leaves it pending: the object has got
  back its reference in the end, and the operation was left alone.
\<close>

lemma guarded_first_poll:
  assumes "counts_at env p k add_ref release" and "method_future_ok M p q"
    and "own_alive env p k (n + 1) (swap_world w)" and "0 < n"
    and "fut_poll M f w = (r, f1, w1)"
  defines "B \<equiv> guarded_ops release M (PrimaryPtr p)"
  shows "\<exists>r' c1 w3 w4. cancellable_poll B empty_async host_take_cancellation_request
        (try_finally (GuardedUnresumed f) ()) w = Return (r', c1, w3)
    \<and> r' = (case r of PollReady v \<Rightarrow> PollReady (Some v) | PollPending \<Rightarrow> PollPending | PollPanic \<Rightarrow> PollPanic)
    \<and> keeps_object q w w3 \<and> own_alive env p k n (swap_world w4)
    \<and> (case r' of PollReady res \<Rightarrow> w4 = w3
       | _ \<Rightarrow> (\<exists>c4. cancellable_drop B empty_async c1 w3 = Return (False, c4, w4)) \<and> keeps_object q w3 w4)"
proof -
  have keeps: "keeps_object q w w1" "keeps_object p (swap_world w) (swap_world w1)"
    using method_poll [OF assms(2,5)] by (simp_all add: keeps_object_swap)
  obtain w2 where w2: "guarded_end (in_other_view release) M (PrimaryPtr p) f1 w1 = Return (False, w2)"
    "own_alive env p k n (swap_world w2)" "keeps_object q w1 w2"
    using guarded_end_hosted [OF assms(1,2) own_alive_keeps [OF assms(3) keeps(2)] assms(4)] by blast
  have q: "keeps_object q w w2" using keeps_object_trans [OF keeps(1) w2(3)] .
  note run = cancellable_poll.simps try_finally_def cancellable_new_def host_take_cancellation_request_def
    poll_slot_def drop_slot_def empty_async_def B_def guarded_ops_def guarded_poll_def guarded_resume_def
    guarded_drop_def cancellable_drop_def
  show ?thesis
    using assms(5) w2 q keeps(1) by (cases r) (simp_all add: run)
qed

section \<open>The call\<close>

text \<open>
  What the caller of an asynchronous method gets. \<open>init\<close> is what the method made of its arguments, and
  \<open>x\<close> what the shim returns: null when there is no memory for the operation; otherwise an operation whose
  only reference is the caller's. Of a method that failed it is an error; of one that gave a future it is
  what one poll of the future makes of it, while the object has the reference taken for the future. In
  the end the object has the references it had.
\<close>

definition hosted_call ::
  "('t, 'a, ('v, 'x) operations) env \<Rightarrow> addr \<Rightarrow> addr \<Rightarrow> nat \<Rightarrow> nat
    \<Rightarrow> ('f, 'v, ('t, 'a, 'v, 'x) operation_view) future_ops \<Rightarrow> NTSTATUS + 'f
    \<Rightarrow> (com_ptr \<times> ('t, 'a, 'v, 'x) object_view) outcome \<Rightarrow> bool" where
  "hosted_call env p q k n M init x \<longleftrightarrow>
     (if q = null then \<exists>w'. x = Return (NullPtr, w') \<and> own_alive env p k n w'
      else case init of
        Inl st \<Rightarrow> \<exists>w' ob. x = Return (PrimaryPtr q, w') \<and> own_alive env p k n w'
          \<and> objects (foreign w') q = Some ob \<and> ref_count ob = 1
          \<and> get_status_raw (PrimaryPtr q) (swap_world w') = Return (Inr Error)
      | Inr f \<Rightarrow> \<exists>wp. own_alive env p k (n + 1) (swap_world wp)
          \<and> (if fst (fut_poll M f wp) = PollPanic then x = Panic
             else \<exists>w' ob. x = Return (PrimaryPtr q, w') \<and> own_alive env p k n w'
               \<and> objects (foreign w') q = Some ob \<and> ref_count ob = 1
               \<and> get_result_raw (PrimaryPtr q) (swap_world w') = Return
                   (case fst (fut_poll M f wp) of PollReady v \<Rightarrow> Inr v | _ \<Rightarrow> Inl STATUS_PENDING)))"

lemma method_spawn_error_ok:
  assumes "method_env_ok op_env p q" and "own_alive env p k n w"
    and "drops q (foreign w) = deallocs q (foreign w)"
  shows "\<exists>w'. method_spawn_error op_env st w
      = Return (if q = null then Inl STATUS_INSUFFICIENT_RESOURCES else Inr (PrimaryPtr q), w')
    \<and> own_alive env p k n w'
    \<and> (q \<noteq> null \<longrightarrow> (\<exists>ob. objects (foreign w') q = Some ob \<and> ref_count ob = 1
        \<and> get_status_raw (PrimaryPtr q) (swap_world w') = Return (Inr Error)))"
proof -
  obtain w1 where w1: "com_object_new op_env (store_error st new_state) (swap_world w)
      = (if q = null then Inl STATUS_INSUFFICIENT_RESOURCES else Inr (PrimaryPtr q), w1)"
    "keeps_object p (foreign (swap_world w)) (foreign w1)"
    using method_new [OF assms(1)] by blast
  have own: "own_alive env p k n (swap_world w1)"
    using own_alive_keeps [OF assms(2)] w1(2) keeps_foreign_swap [of p w "swap_world w1"] by simp
  have "\<exists>ob. objects w1 q = Some ob \<and> ref_count ob = 1 \<and> get_status_raw (PrimaryPtr q) w1 = Return (Inr Error)"
    if q: "q \<noteq> null"
  proof -
    have "drops q (swap_world w) = deallocs q (swap_world w)"
      using assms(3) by (simp add: swap_world_def drops_def deallocs_def)
    moreover have "op_env_ok op_env q" using assms(1) by (simp add: method_env_ok_def)
    moreover have "com_object_new op_env (store_error st new_state) (swap_world w) = (Inr (PrimaryPtr q), w1)"
      using w1(1) q by simp
    ultimately obtain ob where ob: "op_alive op_env q (drops q (swap_world w)) 1 w1 ob"
      "inner ob = store_error st new_state"
      using op_created by blast
    then show ?thesis
      using op_answers(1) [OF ob(1)]
      by (auto simp: op_alive_def alive_with_def store_error_def load_status_def async_status_from_raw_def)
  qed
  then show ?thesis
    using w1(1) own
    by (auto simp: method_spawn_error_def spawn_async_operation_error_raw_def spawn_error_raw_def Let_def
        split: sum.splits)
qed

lemma method_spawn_ok:
  assumes "counts_at env p k add_ref release" and "method_env_ok op_env p q" and "method_future_ok M p q"
    and "own_alive env p k (n + 1) w" and "0 < n" and "drops q (foreign w) = deallocs q (foreign w)"
    and "q \<noteq> null"
  shows "\<exists>wp. own_alive env p k (n + 1) (swap_world wp)
    \<and> (if fst (fut_poll M f wp) = PollPanic
       then method_spawn op_env release M (PrimaryPtr p) (GuardedUnresumed f) w = Panic
       else \<exists>w' ob. method_spawn op_env release M (PrimaryPtr p) (GuardedUnresumed f) w
            = Return (Inr (PrimaryPtr q), w') \<and> own_alive env p k n w'
          \<and> objects (foreign w') q = Some ob \<and> ref_count ob = 1
          \<and> get_result_raw (PrimaryPtr q) (swap_world w') = Return
              (case fst (fut_poll M f wp) of PollReady v \<Rightarrow> Inr v | _ \<Rightarrow> Inl STATUS_PENDING))"
proof -
  let ?B = "guarded_ops release M (PrimaryPtr p)" and ?w = "swap_world w"
  let ?x = "spawn_raw op_env ?B host_take_cancellation_request host_spawn_cancellable
      (\<lambda>ptr. host_handle_drop (async_task_drop op_env ?B ptr)) (GuardedUnresumed f) ?w"
  have env: "op_env_ok op_env q" using assms(2) by (simp add: method_env_ok_def)
  have cap: "1 < refcount_cap (env_build op_env)" by (simp add: refcount_cap_def)
  have start: "drops q ?w = deallocs q ?w" using assms(6) by (simp add: swap_world_def drops_def deallocs_def)
  obtain w1 where w1: "com_object_new op_env new_state ?w = (Inr (PrimaryPtr q), w1)"
    "keeps_object p (foreign ?w) (foreign w1)"
    using method_new [OF assms(2)] assms(7) by fastforce
  obtain ob where ob: "op_alive op_env q (drops q ?w) 1 w1 ob" using op_created [OF env start w1(1)] by auto
  obtain r w2 where w2: "shim_add_ref op_env (PrimaryPtr q) w1 = Return (r, w2)" "foreign w2 = foreign w1"
    using op_add_ref [OF ob cap] by auto
  have own: "own_alive env p k (n + 1) (swap_world w2)"
    using own_alive_keeps [OF assms(4)] w1(2) w2(2) keeps_foreign_swap [of p w "swap_world w2"] by simp
  obtain s f1 w3 where poll: "fut_poll M f w2 = (s, f1, w3)" by (metis prod_cases3)
  obtain s' c1 v3 v4 where run: "cancellable_poll ?B empty_async host_take_cancellation_request
        (try_finally (GuardedUnresumed f) ()) w2 = Return (s', c1, v3)"
    "s' = (case s of PollReady v \<Rightarrow> PollReady (Some v) | PollPending \<Rightarrow> PollPending | PollPanic \<Rightarrow> PollPanic)"
    "keeps_object q w2 v3" "own_alive env p k n (swap_world v4)"
    "case s' of PollReady res \<Rightarrow> v4 = v3
       | _ \<Rightarrow> (\<exists>c4. cancellable_drop ?B empty_async c1 v3 = Return (False, c4, v4)) \<and> keeps_object q v3 v4"
    using guarded_first_poll [OF assms(1,3) own assms(5) poll] by blast
  note host = host_spawn_run [OF env start w1(1) w2(1) run(1,3,5) refl]
  have x: "method_spawn op_env release M (PrimaryPtr p) (GuardedUnresumed f) w
      = and_then ?x (\<lambda>(r, w'). Return (r, swap_world w'))"
    by (simp add: method_spawn_def in_other_view_def spawn_async_operation_raw_def Let_def)
  show ?thesis
  proof (cases "s = PollPanic")
    case True
    then show ?thesis using host(2) run(2) own poll x by (intro exI [of _ w2]) simp
  next
    case False
    then have "s' \<noteq> PollPanic" using run(2) by (cases s) auto
    from host(1) [OF this] obtain ob5 where h: "?x = Return (Inr (PrimaryPtr q), put_object q ob5 v4)"
      "op_alive op_env q (drops q ?w) 1 (put_object q ob5 v4) ob5"
      "get_result_raw (PrimaryPtr q) (put_object q ob5 v4) = Return (case s' of
         PollReady (Some v) \<Rightarrow> Inr v | PollReady None \<Rightarrow> Inl STATUS_CANCELLED | _ \<Rightarrow> Inl STATUS_PENDING)"
      by auto
    have "own_alive env p k n (swap_world (put_object q ob5 v4))"
      using own_alive_keeps [OF run(4) keeps_put_swap] .
    moreover have "objects (foreign (swap_world (put_object q ob5 v4))) q = Some ob5" "ref_count ob5 = 1"
      using h(2) by (auto simp: swap_world_def op_alive_def alive_with_def)
    ultimately show ?thesis
      using False h(1,3) run(2) own poll x by (intro exI [of _ w2]) (auto split: poll_result.splits)
  qed
qed

lemma async_shim_hosted:
  assumes "counts_at env p k add_ref release" and "method_env_ok op_env p q" and "method_future_ok M p q"
    and "own_alive env p k n w" and "0 < n" and "n < refcount_cap (env_build env)"
    and "drops q (foreign w) = deallocs q (foreign w)"
    and "\<And>w. \<exists>r w'. body v args w = Return (r, w') \<and> keeps_object p w w' \<and> keeps_object q (foreign w) (foreign w')"
  shows "\<exists>w1 init w2. add_ref (PrimaryPtr p) w = Return (of_nat (n + 1), w1) \<and> body v args w1 = Return (init, w2)
    \<and> hosted_call env p q k n M init (async_shim add_ref release body (method_spawn op_env release M)
        (method_spawn_error op_env) (PrimaryPtr p) v args w)"
proof -
  obtain w1 where w1: "add_ref (PrimaryPtr p) w = Return (of_nat (n + 1), w1)" "own_alive env p k (n + 1) w1"
    "foreign w1 = foreign w"
    using own_alive_add_frame [OF assms(4,6)] assms(1,4) by (metis counts_at_def)
  obtain init w2 where b: "body v args w1 = Return (init, w2)" "keeps_object p w1 w2"
    "keeps_object q (foreign w1) (foreign w2)"
    using assms(8) by blast
  have own: "own_alive env p k (n + 1) w2" using own_alive_keeps [OF w1(2) b(2)] .
  have q: "drops q (foreign w2) = deallocs q (foreign w2)"
    using assms(7) w1(3) b(3) by (simp add: keeps_object_def)
  let ?x = "async_shim add_ref release body (method_spawn op_env release M) (method_spawn_error op_env)
      (PrimaryPtr p) v args w"
  have released: "\<exists>r v'. release (PrimaryPtr p) u = Return (r, v') \<and> own_alive env p k n v' \<and> foreign v' = foreign u"
    if "own_alive env p k (n + 1) u" for u
    using own_alive_release_frame [OF that assms(5)] assms(1) that by (metis counts_at_def)
  have "hosted_call env p q k n M init ?x"
  proof (cases init)
    case (Inl st)
    obtain r w3 where w3: "release (PrimaryPtr p) w2 = Return (r, w3)" "own_alive env p k n w3" "foreign w3 = foreign w2"
      using released [OF own] by blast
    from method_spawn_error_ok [OF assms(2) w3(2), of st] q w3(3) show ?thesis
      using w1(1) b(1) Inl w3(1) by (auto simp: async_shim_def hosted_call_def)
  next
    case (Inr f)
    have shim: "?x = and_then (method_spawn op_env release M (PrimaryPtr p) (GuardedUnresumed f) w2) (\<lambda>(op, w3).
        case op of Inr ptr \<Rightarrow> Return (ptr, w3)
        | Inl _ \<Rightarrow> and_then (release (PrimaryPtr p) w3) (\<lambda>(r, w4). Return (NullPtr, w4)))"
      using w1(1) b(1) Inr by (simp add: async_shim_def guard_ptr_new_def guard_ptr_as_ptr_def)
    show ?thesis
    proof (cases "q = null")
      case True
      obtain w3 where w3: "com_object_new op_env new_state (swap_world w2) = (Inl STATUS_INSUFFICIENT_RESOURCES, w3)"
        "keeps_object p (foreign (swap_world w2)) (foreign w3)"
        using method_new [OF assms(2), of new_state "swap_world w2"] True by auto
      obtain w4 where w4: "fut_drop M f w3 = (False, w4)" "keeps_object p (foreign w3) (foreign w4)"
        using method_drop [OF assms(3)] by blast
      have "keeps_object p w2 (swap_world w4)"
        using keeps_object_trans [OF w3(2) w4(2)] keeps_foreign_swap [of p w2 "swap_world w4"] by simp
      then have "own_alive env p k (n + 1) (swap_world w4)" using own_alive_keeps [OF own] by blast
      then show ?thesis
        using released shim True Inr w3(1) w4(1)
        by (fastforce simp: hosted_call_def method_spawn_def in_other_view_def spawn_async_operation_raw_def
            spawn_raw_def spawn_raw_cancellable_def guarded_ops_def guarded_drop_def)
    next
      case False
      from method_spawn_ok [OF assms(1-3) own assms(5) q False, of f] show ?thesis
        using shim False Inr by (fastforce simp: hosted_call_def split: if_splits)
    qed
  qed
  then show ?thesis using w1(1) b(1) by blast
qed

text \<open>C27: An asynchronous method on the executor of builds without a kernel, with its operation in the same
  memory. Whatever interface it is called through, the shim takes a reference for the future, and when it
  returns the object has exactly the references it had before: the future was polled once, while it had
  its reference, and gave it back either when it answered or when it was dropped pending. The caller has the
  only reference of the operation; it reads the answer of a future that was ready, \<open>STATUS_PENDING\<close> for
  one that was not, and an error for a method that failed. Without memory for an operation it gets null.\<close>

theorem async_method_on_host:
  assumes "method_env_ok op_env p q" and "method_future_ok M p q"
    and "own_alive env p k n w" and "0 < n" and "n < refcount_cap (env_build env)"
    and "objects w p = Some ob" and "drops q (foreign w) = deallocs q (foreign w)"
    and "\<forall>w. \<exists>r w'. body (inner ob) args w = Return (r, w') \<and> keeps_object p w w'
      \<and> keeps_object q (foreign w) (foreign w')"
  shows "(vtable ob = ComObjectVtbl \<longrightarrow>
      (\<exists>w1 init w2. shim_add_ref env (PrimaryPtr p) w = Return (of_nat (n + 1), w1)
        \<and> body (inner ob) args w1 = Return (init, w2)
        \<and> hosted_call env p q k n M init (shim_async_method env body (method_spawn op_env (shim_release env) M)
            (method_spawn_error op_env) (PrimaryPtr p) args w)))
    \<and> (\<forall>i < length (secondaries ob).
      \<exists>w1 init w2. shim_add_ref_n env (PrimaryPtr p) w = Return (of_nat (n + 1), w1)
        \<and> body (inner ob) args w1 = Return (init, w2)
        \<and> hosted_call env p q k n M init (shim_async_method_secondary env body
            (method_spawn op_env (shim_release_n env) M) (method_spawn_error op_env) (SecondaryPtr p i) args w))"
proof -
  have wf: "wf_object p ob" using assms(3,6) by (auto simp: own_alive_def elim: alive_with_object)
  have "from_secondary_ptr (SecondaryPtr p i) w = Return (p, ob)" if "i < length (secondaries ob)" for i
    using assms(6) that wf_object_entry [OF wf]
    by (simp add: from_secondary_ptr_def parent_from_ptr_def from_ptr_def)
  then show ?thesis
    using async_shim_hosted [where body = body and v = "inner ob" and args = args,
        OF counts_at_shims(1) assms(1-5,7) assms(8) [rule_format]]
      async_shim_hosted [where body = body and v = "inner ob" and args = args,
        OF counts_at_shims(2) assms(1-5,7) assms(8) [rule_format]] assms(6)
    by (simp add: shim_async_method_def shim_async_method_secondary_def from_ptr_def)
qed

text \<open>A concrete call: an object at 4096 whose method gives a future that answers 7 at its first poll.\<close>

definition hosted_env :: "(unit, unit, (int, unit) operations) env" where
  "hosted_env =
     \<lparr>env_build = hardened_build, env_layout = \<lparr>layout_size = 48, layout_align = 8\<rparr>,
      env_alloc = (\<lambda>al l w. (4096, w)),
      env_dealloc = (\<lambda>al a l w. w),
      env_drop_inner = (\<lambda>a v w. Return w),
      env_query_interface = (\<lambda>v this iid w. Return (None, w)),
      env_foreign_add_ref = (\<lambda>p w. Undefined),
      env_foreign_release = (\<lambda>p w. Undefined),
      env_foreign_query_interface = (\<lambda>p riid ppv w. Undefined)\<rparr>"

definition hosted_op_env :: "(int, (unit, unit, unit) world) op_env" where
  "hosted_op_env =
     \<lparr>env_build = hardened_build, env_layout = \<lparr>layout_size = 64, layout_align = 8\<rparr>,
      env_alloc = (\<lambda>al l w. (8192, w)),
      env_dealloc = (\<lambda>al a l w. w),
      env_drop_inner = (\<lambda>a v w. Return w),
      env_query_interface = (\<lambda>v this iid w. Return (async_query_interface v this iid, w)),
      env_foreign_add_ref = (\<lambda>p w. Undefined),
      env_foreign_release = (\<lambda>p w. Undefined),
      env_foreign_query_interface = (\<lambda>p riid ppv w. Undefined)\<rparr>"

definition hosted_world :: "(unit, unit, int, unit) object_view" where
  "hosted_world =
     snd (try_new_in hosted_env () ()
       \<lparr>objects = Map.empty, events = [], foreign = \<lparr>objects = Map.empty, events = [], foreign = ()\<rparr>\<rparr>)"

lemma hosted_world_object:
  "objects hosted_world 4096 = Some (init_non_delegating_ptr 4096
     \<lparr>vtable = ComObjectVtbl, secondaries = [],
      non_delegating_unknown = \<lparr>nd_vtable = NonDelegatingVtbl, nd_parent = NullPtr\<rparr>,
      ref_count = 1, outer_unknown = None, inner = (), alloc = ()\<rparr>)"
  by (simp add: hosted_world_def try_new_in_def hosted_env_def)

lemma hosted_world_alive: "own_alive hosted_env 4096 0 1 hosted_world"
  using hosted_world_object wf_new_object [of 4096 1 None "()" "()"] refcount_cap_positive
  by (simp add: own_alive_def alive_with_def well_behaved_def hosted_world_def try_new_in_def hosted_env_def
      drops_def deallocs_def counting_ptrs_def delegates_def init_non_delegating_ptr_def)

theorem async_method_on_host_witness:
  "\<exists>w'. shim_async_method hosted_env (\<lambda>v args w. Return (Inr (0 :: nat), w))
      (method_spawn hosted_op_env (shim_release hosted_env) (later_ops 7)) (method_spawn_error hosted_op_env)
      (PrimaryPtr 4096) () hosted_world = Return (PrimaryPtr 8192, w')
    \<and> own_alive hosted_env 4096 0 1 w'
    \<and> get_result_raw (PrimaryPtr 8192) (swap_world w') = Return (Inr 7)"
proof -
  let ?M = "later_ops 7 :: (nat, int, (unit, unit, int, unit) operation_view) future_ops"
  let ?body = "\<lambda>(v :: unit) (args :: unit) w. Return (Inr (0 :: nat) :: NTSTATUS + nat, w)"
  have env: "method_env_ok hosted_op_env 4096 8192"
    by (simp add: method_env_ok_def op_env_ok_def well_behaved_def hosted_op_env_def)
  have M: "method_future_ok ?M 4096 8192"
    by (simp add: method_future_ok_def calm_drops_def later_ops_def)
  have start: "drops 8192 (foreign hosted_world) = deallocs 8192 (foreign hosted_world)"
    by (simp add: hosted_world_def try_new_in_def hosted_env_def drops_def deallocs_def)
  have cap: "1 < refcount_cap (env_build hosted_env)" by (simp add: refcount_cap_def)
  have "hosted_call hosted_env 4096 8192 0 1 ?M (Inr 0) (shim_async_method hosted_env ?body
      (method_spawn hosted_op_env (shim_release hosted_env) ?M) (method_spawn_error hosted_op_env)
      (PrimaryPtr 4096) () hosted_world)"
    using async_method_on_host [where body = ?body and args = "()", OF env M hosted_world_alive _ cap
        hosted_world_object start] by (auto simp: init_non_delegating_ptr_def)
  then show ?thesis by (auto simp: hosted_call_def later_ops_def)
qed

end
