(* ===== verification/Task_Context.thy ===== *)
theory Task_Context
  imports Iunknown
begin

text \<open>
  The backends of the work-item executor of \<open>src/executor.rs\<close>: the trait \<open>TaskContext\<close> as a record of
  operations on the state of the kernel, its implementation for WDM device objects and the one for
  KMDF devices. The kernel's work items are parameters. The locale \<open>task_context\<close> states what the
  executor relies on and is interpreted on both implementations.
\<close>

section \<open>The trait\<close>

text \<open>
  \<open>create_work_item\<close> gives the status and what it stored through \<open>out_item\<close>. Queueing and deleting
  an item may be undefined: an item that is in the queue must be neither queued nor deleted.
\<close>

record 'k TaskContext =
  ctx_is_valid :: "addr \<Rightarrow> bool"
  ctx_retain :: "addr \<Rightarrow> 'k \<Rightarrow> 'k"
  ctx_release :: "addr \<Rightarrow> 'k \<Rightarrow> 'k"
  ctx_create_work_item :: "addr \<Rightarrow> addr \<Rightarrow> 'k \<Rightarrow> ((NTSTATUS \<times> addr) \<times> 'k) outcome"
  ctx_enqueue_work_item :: "addr \<Rightarrow> addr \<Rightarrow> 'k \<Rightarrow> 'k outcome"
  ctx_delete_work_item :: "addr \<Rightarrow> 'k \<Rightarrow> 'k outcome"

text \<open>
  What the executor relies on. \<open>ok\<close> holds of the states of the kernel, \<open>idle\<close> and \<open>queued\<close> are the
  work items that exist, \<open>refs\<close> counts the references to device objects and \<open>weight\<close> is what one
  \<open>retain\<close> contributes. \<open>start\<close> is the kernel that takes an item out of the queue to run it.
\<close>

locale task_context =
  fixes C :: "'k TaskContext" and ok :: "'k \<Rightarrow> bool" and idle queued :: "'k \<Rightarrow> addr set"
    and refs :: "'k \<Rightarrow> addr \<Rightarrow> nat" and weight :: nat and start :: "addr \<Rightarrow> 'k \<Rightarrow> 'k"
  assumes valid_law: "ctx_is_valid C d \<longleftrightarrow> d \<noteq> null"
    and retain_law: "ok k \<Longrightarrow> d \<noteq> null \<Longrightarrow> ok (ctx_retain C d k)
      \<and> refs (ctx_retain C d k) = (refs k)(d := refs k d + weight)
      \<and> idle (ctx_retain C d k) = idle k \<and> queued (ctx_retain C d k) = queued k"
    and release_law: "ok k \<Longrightarrow> d \<noteq> null \<Longrightarrow> refs k d = n + weight \<Longrightarrow> ok (ctx_release C d k)
      \<and> refs (ctx_release C d k) = (refs k)(d := n)
      \<and> idle (ctx_release C d k) = idle k \<and> queued (ctx_release C d k) = queued k"
    and create_law: "ok k \<Longrightarrow> d \<noteq> null \<Longrightarrow> \<exists>st it k'. ctx_create_work_item C d p k = Return ((st, it), k')
      \<and> ok k' \<and> refs k' = refs k \<and> queued k' = queued k
      \<and> (if st = STATUS_SUCCESS then it \<noteq> null \<and> it \<notin> idle k \<and> it \<notin> queued k \<and> idle k' = insert it (idle k)
         else idle k' = idle k)"
    and enqueue_law: "ok k \<Longrightarrow> it \<in> idle k \<Longrightarrow> it \<notin> queued k \<Longrightarrow> it \<noteq> null \<Longrightarrow>
      \<exists>k'. ctx_enqueue_work_item C it p k = Return k' \<and> ok k' \<and> refs k' = refs k
        \<and> idle k' = idle k - {it} \<and> queued k' = insert it (queued k)"
    and delete_law: "ok k \<Longrightarrow> it \<in> idle k \<Longrightarrow> it \<notin> queued k \<Longrightarrow> it \<noteq> null \<Longrightarrow>
      \<exists>k'. ctx_delete_work_item C it k = Return k' \<and> ok k' \<and> refs k' = refs k
        \<and> idle k' = idle k - {it} \<and> queued k' = queued k"
    and start_law: "ok k \<Longrightarrow> it \<in> queued k \<Longrightarrow> ok (start it k) \<and> refs (start it k) = refs k
      \<and> idle (start it k) = insert it (idle k) \<and> queued (start it k) = queued k - {it}"
begin

lemma create_enqueue:
  assumes "ok k" and "d \<noteq> null"
  shows "\<exists>st it k1. ctx_create_work_item C d p k = Return ((st, it), k1) \<and> ok k1 \<and> refs k1 = refs k
    \<and> (if st = STATUS_SUCCESS
       then it \<noteq> null \<and> it \<notin> idle k \<and> it \<notin> queued k
         \<and> (\<exists>k2. ctx_enqueue_work_item C it p k1 = Return k2 \<and> ok k2 \<and> refs k2 = refs k
             \<and> idle k2 = idle k \<and> queued k2 = insert it (queued k))
       else idle k1 = idle k \<and> queued k1 = queued k)"
proof -
  obtain st it k1 where k1: "ctx_create_work_item C d p k = Return ((st, it), k1)" "ok k1"
    "refs k1 = refs k" "queued k1 = queued k"
    "if st = STATUS_SUCCESS then it \<noteq> null \<and> it \<notin> idle k \<and> it \<notin> queued k \<and> idle k1 = insert it (idle k)
     else idle k1 = idle k"
    using create_law [OF assms, of p] by blast
  show ?thesis
  proof (cases "st = STATUS_SUCCESS")
    case True
    then have it: "it \<noteq> null" "it \<notin> idle k" "it \<notin> queued k" "idle k1 = insert it (idle k)"
      using k1(5) by auto
    obtain k2 where k2: "ctx_enqueue_work_item C it p k1 = Return k2" "ok k2" "refs k2 = refs k1"
      "idle k2 = idle k1 - {it}" "queued k2 = insert it (queued k1)"
      using enqueue_law [OF k1(2), of it p] it k1(4) by auto
    have "idle k2 = idle k" using k2(4) it by auto
    then show ?thesis using True k1 it k2 by simp
  qed (use k1 in auto)
qed

end

section \<open>WDM\<close>

text \<open>
  \<open>IoAllocateWorkItem\<close>, \<open>IoQueueWorkItem\<close>, \<open>IoFreeWorkItem\<close>, \<open>ObReferenceObject\<close> and
  \<open>ObDereferenceObject\<close>, the start of a routine, and the items and reference counts of a state.
\<close>

record 'k wdm_kernel =
  io_allocate_work_item :: "addr \<Rightarrow> 'k \<Rightarrow> addr \<times> 'k"
  io_queue_work_item :: "addr \<Rightarrow> addr \<Rightarrow> 'k \<Rightarrow> 'k outcome"
  io_free_work_item :: "addr \<Rightarrow> 'k \<Rightarrow> 'k outcome"
  ob_reference_object :: "addr \<Rightarrow> 'k \<Rightarrow> 'k"
  ob_dereference_object :: "addr \<Rightarrow> 'k \<Rightarrow> 'k"
  io_start_item :: "addr \<Rightarrow> 'k \<Rightarrow> 'k"
  io_idle :: "'k \<Rightarrow> addr set"
  io_queued :: "'k \<Rightarrow> addr set"
  ob_count :: "'k \<Rightarrow> addr \<Rightarrow> nat"

definition same_items :: "'k wdm_kernel \<Rightarrow> 'k \<Rightarrow> 'k \<Rightarrow> bool" where
  "same_items W k k' \<longleftrightarrow> io_idle W k' = io_idle W k \<and> io_queued W k' = io_queued W k"

definition wdm_contract :: "'k wdm_kernel \<Rightarrow> bool" where
  "wdm_contract W \<longleftrightarrow>
     (\<forall>d k. case io_allocate_work_item W d k of (it, k') \<Rightarrow>
        ob_count W k' = ob_count W k
        \<and> (if it = null then same_items W k k'
           else it \<notin> io_idle W k \<and> it \<notin> io_queued W k \<and> io_idle W k' = insert it (io_idle W k)
             \<and> io_queued W k' = io_queued W k))
     \<and> (\<forall>it p k. it \<in> io_idle W k - io_queued W k \<longrightarrow> (\<exists>k'. io_queue_work_item W it p k = Return k'
          \<and> ob_count W k' = ob_count W k \<and> io_idle W k' = io_idle W k - {it}
          \<and> io_queued W k' = insert it (io_queued W k)))
     \<and> (\<forall>it k. it \<in> io_idle W k - io_queued W k \<longrightarrow> (\<exists>k'. io_free_work_item W it k = Return k'
          \<and> ob_count W k' = ob_count W k \<and> io_idle W k' = io_idle W k - {it}
          \<and> io_queued W k' = io_queued W k))
     \<and> (\<forall>d k. ob_count W (ob_reference_object W d k) = (ob_count W k)(d := ob_count W k d + 1)
          \<and> same_items W k (ob_reference_object W d k))
     \<and> (\<forall>d k. ob_count W (ob_dereference_object W d k) = (ob_count W k)(d := ob_count W k d - 1)
          \<and> same_items W k (ob_dereference_object W d k))
     \<and> (\<forall>it k. it \<in> io_queued W k \<longrightarrow> ob_count W (io_start_item W it k) = ob_count W k
          \<and> io_idle W (io_start_item W it k) = insert it (io_idle W k)
          \<and> io_queued W (io_start_item W it k) = io_queued W k - {it})"

definition wdm_is_valid :: "addr \<Rightarrow> bool" where
  "wdm_is_valid self \<longleftrightarrow> self \<noteq> null"

definition wdm_retain :: "'k wdm_kernel \<Rightarrow> addr \<Rightarrow> 'k \<Rightarrow> 'k" where
  "wdm_retain W self k = (if self \<noteq> null then ob_reference_object W self k else k)"

definition wdm_release :: "'k wdm_kernel \<Rightarrow> addr \<Rightarrow> 'k \<Rightarrow> 'k" where
  "wdm_release W self k = (if self \<noteq> null then ob_dereference_object W self k else k)"

definition wdm_create_work_item ::
  "'k wdm_kernel \<Rightarrow> addr \<Rightarrow> addr \<Rightarrow> 'k \<Rightarrow> ((NTSTATUS \<times> addr) \<times> 'k) outcome" where
  "wdm_create_work_item W self task k =
     (if self = null then Return ((STATUS_INVALID_PARAMETER, null), k)
      else
        let (work_item, k1) = io_allocate_work_item W self k
        in if work_item = null then Return ((STATUS_INSUFFICIENT_RESOURCES, null), k1)
           else Return ((STATUS_SUCCESS, work_item), k1))"

definition wdm_enqueue_work_item :: "'k wdm_kernel \<Rightarrow> addr \<Rightarrow> addr \<Rightarrow> 'k \<Rightarrow> 'k outcome" where
  "wdm_enqueue_work_item W item task k =
     (if item = null then Return k else io_queue_work_item W item task k)"

definition wdm_delete_work_item :: "'k wdm_kernel \<Rightarrow> addr \<Rightarrow> 'k \<Rightarrow> 'k outcome" where
  "wdm_delete_work_item W item k = (if item = null then Return k else io_free_work_item W item k)"

definition wdm_context :: "'k wdm_kernel \<Rightarrow> 'k TaskContext" where
  "wdm_context W = \<lparr>ctx_is_valid = wdm_is_valid, ctx_retain = wdm_retain W, ctx_release = wdm_release W,
     ctx_create_work_item = wdm_create_work_item W, ctx_enqueue_work_item = wdm_enqueue_work_item W,
     ctx_delete_work_item = wdm_delete_work_item W\<rparr>"

interpretation wdm: task_context "wdm_context W" "\<lambda>k. wdm_contract W" "io_idle W" "io_queued W"
  "ob_count W" 1 "io_start_item W" for W
proof unfold_locales
  fix k d p assume c: "wdm_contract W" and "d \<noteq> null"
  obtain it k' where a: "io_allocate_work_item W d k = (it, k')" by (cases "io_allocate_work_item W d k")
  have "case io_allocate_work_item W d k of (it, k') \<Rightarrow> ob_count W k' = ob_count W k
      \<and> (if it = null then same_items W k k'
         else it \<notin> io_idle W k \<and> it \<notin> io_queued W k \<and> io_idle W k' = insert it (io_idle W k)
           \<and> io_queued W k' = io_queued W k)"
    by (rule c [unfolded wdm_contract_def, THEN conjunct1, THEN spec, THEN spec])
  then show "\<exists>st it k'. ctx_create_work_item (wdm_context W) d p k = Return ((st, it), k')
      \<and> wdm_contract W \<and> ob_count W k' = ob_count W k \<and> io_queued W k' = io_queued W k
      \<and> (if st = STATUS_SUCCESS then it \<noteq> null \<and> it \<notin> io_idle W k \<and> it \<notin> io_queued W k
           \<and> io_idle W k' = insert it (io_idle W k)
         else io_idle W k' = io_idle W k)"
    using c a \<open>d \<noteq> null\<close>
    by (cases "it = null")
      (auto simp: wdm_context_def wdm_create_work_item_def same_items_def status_defs)
qed (auto simp: wdm_contract_def wdm_context_def wdm_is_valid_def wdm_retain_def wdm_release_def
      wdm_enqueue_work_item_def wdm_delete_work_item_def same_items_def)

section \<open>KMDF\<close>

text \<open>
  \<open>WdfWorkItemCreate\<close> with the device as parent, \<open>WdfObjectGetTypedContextWorker\<close>, the field
  \<open>task_ptr\<close> of a context, \<open>WdfWorkItemEnqueue\<close>, \<open>WdfObjectDelete\<close> and the start of a routine.
\<close>

record 'k kmdf_kernel =
  wdf_work_item_create :: "addr \<Rightarrow> 'k \<Rightarrow> (NTSTATUS \<times> addr) \<times> 'k"
  wdf_get_typed_context :: "addr \<Rightarrow> 'k \<Rightarrow> addr"
  wdf_write_task_ptr :: "addr \<Rightarrow> addr \<Rightarrow> 'k \<Rightarrow> 'k"
  wdf_read_task_ptr :: "addr \<Rightarrow> 'k \<Rightarrow> addr"
  wdf_work_item_enqueue :: "addr \<Rightarrow> 'k \<Rightarrow> 'k outcome"
  wdf_object_delete :: "addr \<Rightarrow> 'k \<Rightarrow> 'k outcome"
  wdf_start_item :: "addr \<Rightarrow> 'k \<Rightarrow> 'k"
  wdf_idle :: "'k \<Rightarrow> addr set"
  wdf_queued :: "'k \<Rightarrow> addr set"

definition kmdf_contract :: "'k kmdf_kernel \<Rightarrow> bool" where
  "kmdf_contract W \<longleftrightarrow>
     (\<forall>d k. case wdf_work_item_create W d k of ((st, it), k') \<Rightarrow>
        wdf_queued W k' = wdf_queued W k
        \<and> (if st = STATUS_SUCCESS
           then it \<noteq> null \<and> it \<notin> wdf_idle W k \<and> it \<notin> wdf_queued W k \<and> wdf_idle W k' = insert it (wdf_idle W k)
           else wdf_idle W k' = wdf_idle W k))
     \<and> (\<forall>ctx p k. wdf_idle W (wdf_write_task_ptr W ctx p k) = wdf_idle W k
          \<and> wdf_queued W (wdf_write_task_ptr W ctx p k) = wdf_queued W k)
     \<and> (\<forall>it k. it \<in> wdf_idle W k - wdf_queued W k \<longrightarrow> (\<exists>k'. wdf_work_item_enqueue W it k = Return k'
          \<and> wdf_idle W k' = wdf_idle W k - {it} \<and> wdf_queued W k' = insert it (wdf_queued W k)))
     \<and> (\<forall>it k. it \<in> wdf_idle W k - wdf_queued W k \<longrightarrow> (\<exists>k'. wdf_object_delete W it k = Return k'
          \<and> wdf_idle W k' = wdf_idle W k - {it} \<and> wdf_queued W k' = wdf_queued W k))
     \<and> (\<forall>it k. it \<in> wdf_queued W k \<longrightarrow> wdf_idle W (wdf_start_item W it k) = insert it (wdf_idle W k)
          \<and> wdf_queued W (wdf_start_item W it k) = wdf_queued W k - {it})"

definition kmdf_is_valid :: "addr \<Rightarrow> bool" where
  "kmdf_is_valid self \<longleftrightarrow> self \<noteq> null"

definition kmdf_retain :: "addr \<Rightarrow> 'k \<Rightarrow> 'k" where
  "kmdf_retain self k = k"

definition kmdf_release :: "addr \<Rightarrow> 'k \<Rightarrow> 'k" where
  "kmdf_release self k = k"

definition kmdf_create_work_item ::
  "'k kmdf_kernel \<Rightarrow> addr \<Rightarrow> addr \<Rightarrow> 'k \<Rightarrow> ((NTSTATUS \<times> addr) \<times> 'k) outcome" where
  "kmdf_create_work_item W self task k =
     (if self = null then Return ((STATUS_INVALID_PARAMETER, null), k)
      else
        let ((status, work_item), k1) = wdf_work_item_create W self k
        in if status \<noteq> STATUS_SUCCESS then Return ((status, null), k1)
           else
             let ctx = wdf_get_typed_context W work_item k1
             in if ctx = null then
                  and_then (wdf_object_delete W work_item k1) (\<lambda>k2.
                    Return ((STATUS_INVALID_PARAMETER, null), k2))
                else Return ((STATUS_SUCCESS, work_item), wdf_write_task_ptr W ctx task k1))"

definition kmdf_enqueue_work_item :: "'k kmdf_kernel \<Rightarrow> addr \<Rightarrow> addr \<Rightarrow> 'k \<Rightarrow> 'k outcome" where
  "kmdf_enqueue_work_item W item task k =
     (if item = null then Return k else wdf_work_item_enqueue W item k)"

definition kmdf_delete_work_item :: "'k kmdf_kernel \<Rightarrow> addr \<Rightarrow> 'k \<Rightarrow> 'k outcome" where
  "kmdf_delete_work_item W item k = (if item = null then Return k else wdf_object_delete W item k)"

definition kmdf_context :: "'k kmdf_kernel \<Rightarrow> 'k TaskContext" where
  "kmdf_context W = \<lparr>ctx_is_valid = kmdf_is_valid, ctx_retain = kmdf_retain, ctx_release = kmdf_release,
     ctx_create_work_item = kmdf_create_work_item W, ctx_enqueue_work_item = kmdf_enqueue_work_item W,
     ctx_delete_work_item = kmdf_delete_work_item W\<rparr>"

lemma kmdf_create_ok:
  assumes c: "kmdf_contract W" and d: "d \<noteq> null"
  shows "\<exists>st it k'. kmdf_create_work_item W d p k = Return ((st, it), k')
      \<and> wdf_queued W k' = wdf_queued W k
      \<and> (if st = STATUS_SUCCESS then it \<noteq> null \<and> it \<notin> wdf_idle W k \<and> it \<notin> wdf_queued W k
           \<and> wdf_idle W k' = insert it (wdf_idle W k)
         else wdf_idle W k' = wdf_idle W k)"
proof -
  obtain st it k1 where a: "wdf_work_item_create W d k = ((st, it), k1)" by (metis surj_pair)
  have "case wdf_work_item_create W d k of ((st, it), k') \<Rightarrow>
        wdf_queued W k' = wdf_queued W k
        \<and> (if st = STATUS_SUCCESS
           then it \<noteq> null \<and> it \<notin> wdf_idle W k \<and> it \<notin> wdf_queued W k \<and> wdf_idle W k' = insert it (wdf_idle W k)
           else wdf_idle W k' = wdf_idle W k)"
    by (rule c [unfolded kmdf_contract_def, THEN conjunct1, THEN spec, THEN spec])
  then have k1: "wdf_queued W k1 = wdf_queued W k"
    "if st = STATUS_SUCCESS
     then it \<noteq> null \<and> it \<notin> wdf_idle W k \<and> it \<notin> wdf_queued W k \<and> wdf_idle W k1 = insert it (wdf_idle W k)
     else wdf_idle W k1 = wdf_idle W k"
    using a by auto
  consider "st \<noteq> STATUS_SUCCESS" | "st = STATUS_SUCCESS" "wdf_get_typed_context W it k1 = null"
    | "st = STATUS_SUCCESS" "wdf_get_typed_context W it k1 \<noteq> null" by blast
  then show ?thesis
  proof cases
    case 2
    then have it: "it \<in> wdf_idle W k1 - wdf_queued W k1" using k1 by auto
    have "it \<in> wdf_idle W k1 - wdf_queued W k1 \<longrightarrow> (\<exists>k'. wdf_object_delete W it k1 = Return k'
        \<and> wdf_idle W k' = wdf_idle W k1 - {it} \<and> wdf_queued W k' = wdf_queued W k1)"
      by (rule c [unfolded kmdf_contract_def, THEN conjunct2, THEN conjunct2, THEN conjunct2,
          THEN conjunct1, THEN spec, THEN spec])
    with it obtain k2 where "wdf_object_delete W it k1 = Return k2"
      "wdf_idle W k2 = wdf_idle W k1 - {it}" "wdf_queued W k2 = wdf_queued W k1"
      by blast
    then show ?thesis
      using a d 2 k1 by (auto simp: kmdf_create_work_item_def status_defs)
  next
    case 3
    have "wdf_idle W (wdf_write_task_ptr W ctx p k1) = wdf_idle W k1
        \<and> wdf_queued W (wdf_write_task_ptr W ctx p k1) = wdf_queued W k1" for ctx
      by (rule c [unfolded kmdf_contract_def, THEN conjunct2, THEN conjunct1, THEN spec, THEN spec,
          THEN spec])
    then show ?thesis using a d 3 k1 by (simp add: kmdf_create_work_item_def)
  qed (use a d k1 in \<open>auto simp: kmdf_create_work_item_def\<close>)
qed

interpretation kmdf: task_context "kmdf_context W" "\<lambda>k. kmdf_contract W" "wdf_idle W" "wdf_queued W"
  "\<lambda>k d. 0" 0 "wdf_start_item W" for W
proof unfold_locales
  fix k d p assume "kmdf_contract W" and "d \<noteq> null"
  then show "\<exists>st it k'. ctx_create_work_item (kmdf_context W) d p k = Return ((st, it), k')
      \<and> kmdf_contract W \<and> (\<lambda>d. 0) = (\<lambda>d. 0) \<and> wdf_queued W k' = wdf_queued W k
      \<and> (if st = STATUS_SUCCESS then it \<noteq> null \<and> it \<notin> wdf_idle W k \<and> it \<notin> wdf_queued W k
           \<and> wdf_idle W k' = insert it (wdf_idle W k)
         else wdf_idle W k' = wdf_idle W k)"
    using kmdf_create_ok [of W d p k] by (simp add: kmdf_context_def)
qed (auto simp: kmdf_contract_def kmdf_context_def kmdf_is_valid_def kmdf_retain_def kmdf_release_def
      kmdf_enqueue_work_item_def kmdf_delete_work_item_def)

end
