(* ===== verification/Work_Item_Task.thy ===== *)
theory Work_Item_Task
  imports Dpc_Task Task_Context
begin

text \<open>
  The work-item executor of \<open>src/executor.rs\<close>: \<open>WorkItemTask\<close> with its reference count, scheduling,
  wakers and cancellation handles, the work-item routine for WDM and KMDF, and the spawn functions.
  The state is that of one task, the tracker, the pool and the kernel's work items; the backend is
  a \<open>TaskContext\<close>. The futures and holders act as in \<open>Dpc_Task\<close>.
\<close>

section \<open>State\<close>

record ('f, 'e, 'k) wi_env =
  w_build :: build
  w_alloc_build :: alloc_build
  w_pool :: kernel
  w_layout :: Layout
  w_event :: "'e event_ops"
  w_wdm :: bool
  w_context :: "'k TaskContext"
  w_poll :: "'f \<Rightarrow> (NTSTATUS Poll \<times> 'f) activity"
  w_drop :: "'f \<Rightarrow> unit activity"

record 'f WorkItemTask =
  wt_ref_count :: u32
  wt_scheduled :: u32
  wt_completed :: u32
  wt_cancel_requested :: u32
  wt_future :: "'f manually_drop"
  wt_context :: addr
  wt_tracker :: addr
  wt_work_item :: addr

text \<open>
  \<open>wi_wakers\<close> and \<open>wi_handles\<close> are the \<open>Waker\<close> and \<open>WorkItemCancelHandle\<close> values that exist; the last
  three fields count polls and drops of the future and deallocations of the block.
\<close>

record ('f, 'e, 'k) wi_state =
  wi_ptr :: addr
  wi_task :: "'f WorkItemTask option"
  wi_trackers :: "addr \<Rightarrow> 'e WorkItemTracker"
  wi_memory :: km
  wi_kernel :: 'k
  wi_wakers :: nat
  wi_handles :: nat
  wi_polls :: nat
  wi_drops :: nat
  wi_frees :: nat

definition with_wt :: "('f WorkItemTask \<Rightarrow> 'a outcome) \<Rightarrow> ('f, 'e, 'k) wi_state \<Rightarrow> 'a outcome" where
  "with_wt g s = and_then (ok_or_undefined (wi_task s)) g"

definition put_wt :: "'f WorkItemTask \<Rightarrow> ('f, 'e, 'k) wi_state \<Rightarrow> ('f, 'e, 'k) wi_state" where
  "put_wt t s = s\<lparr>wi_task := Some t\<rparr>"

section \<open>Trackers\<close>

text \<open>In KMDF builds the two functions do nothing.\<close>

definition wt_tracker_begin ::
  "('f, 'e, 'k) wi_env \<Rightarrow> addr \<Rightarrow> ('f, 'e, 'k) wi_state \<Rightarrow> ('f, 'e, 'k) wi_state" where
  "wt_tracker_begin E tr s =
     (if w_wdm E \<and> tr \<noteq> null then
        s\<lparr>wi_trackers := (wi_trackers s)(tr := work_item_tracker_begin (w_event E) (wi_trackers s tr))\<rparr>
      else s)"

definition wt_tracker_complete ::
  "('f, 'e, 'k) wi_env \<Rightarrow> addr \<Rightarrow> ('f, 'e, 'k) wi_state \<Rightarrow> ('f, 'e, 'k) wi_state" where
  "wt_tracker_complete E tr s =
     (if w_wdm E \<and> tr \<noteq> null then
        s\<lparr>wi_trackers := (wi_trackers s)(tr := work_item_tracker_complete (w_event E) (wi_trackers s tr))\<rparr>
      else s)"

section \<open>Reference counting\<close>

definition KCOW_TAG :: u32 where "KCOW_TAG = 0x776F636B"

definition wt_allocate ::
  "('f, 'e, 'k) wi_env \<Rightarrow> 'f \<Rightarrow> ('f, 'e, 'k) wi_state
    \<Rightarrow> ((NTSTATUS + addr) \<times> ('f, 'e, 'k) wi_state) outcome" where
  "wt_allocate E f s =
     and_then (wdk_alloc (w_alloc_build E) (w_pool E) (wdk_allocator_new NonPagedNx KCOW_TAG)
         (w_layout E) (wi_memory s)) (\<lambda>(ptr, m).
       if ptr = null then
         Return (Inl STATUS_INSUFFICIENT_RESOURCES, s\<lparr>wi_memory := m, wi_drops := wi_drops s + 1\<rparr>)
       else Return (Inr ptr, s\<lparr>wi_memory := m, wi_ptr := ptr, wi_task := Some
         \<lparr>wt_ref_count = 1, wt_scheduled = 0, wt_completed = 0, wt_cancel_requested = 0,
          wt_future = Holding f, wt_context = null, wt_tracker = null, wt_work_item = null\<rparr>\<rparr>))"

definition wt_add_ref ::
  "('f, 'e, 'k) wi_env \<Rightarrow> ('f, 'e, 'k) wi_state \<Rightarrow> ('f, 'e, 'k) wi_state outcome" where
  "wt_add_ref E s =
     with_wt (\<lambda>t. and_then (refcount_add (w_build E) (wt_ref_count t)) (\<lambda>(r, c).
       Return (put_wt (t\<lparr>wt_ref_count := c\<rparr>) s))) s"

text \<open>The box frees the block; the future is \<open>ManuallyDrop\<close> and is not dropped with it.\<close>

definition wt_free ::
  "('f, 'e, 'k) wi_env \<Rightarrow> ('f, 'e, 'k) wi_state \<Rightarrow> ('f, 'e, 'k) wi_state outcome" where
  "wt_free E s =
     with_wt (\<lambda>t.
       let context = wt_context t
       in and_then (kbox_drop (wdk_ops (w_alloc_build E) (w_pool E)
              (wdk_allocator_new NonPagedNx KCOW_TAG)) (\<lambda>p m. Return m)
              (kbox_from_raw_parts (wi_ptr s) (w_layout E)) (wi_memory s)) (\<lambda>m.
            let s1 = s\<lparr>wi_task := None, wi_memory := m, wi_frees := wi_frees s + 1\<rparr>
            in Return (if ctx_is_valid (w_context E) context
               then s1\<lparr>wi_kernel := ctx_release (w_context E) context (wi_kernel s1)\<rparr> else s1))) s"

definition wt_release ::
  "('f, 'e, 'k) wi_env \<Rightarrow> ('f, 'e, 'k) wi_state \<Rightarrow> ('f, 'e, 'k) wi_state outcome" where
  "wt_release E s =
     with_wt (\<lambda>t. and_then (refcount_sub (w_build E) (wt_ref_count t)) (\<lambda>(count, rc).
       let s1 = put_wt (t\<lparr>wt_ref_count := rc\<rparr>) s
       in if count \<noteq> 0 then Return s1 else wt_free E s1)) s"

section \<open>Scheduling\<close>

definition wt_schedule ::
  "('f, 'e, 'k) wi_env \<Rightarrow> ('f, 'e, 'k) wi_state
    \<Rightarrow> (NTSTATUS \<times> ('f, 'e, 'k) wi_state) outcome" where
  "wt_schedule E s =
     with_wt (\<lambda>t.
       if wt_completed t \<noteq> 0 then Return (STATUS_SUCCESS, s)
       else if wt_scheduled t \<noteq> 0 then Return (STATUS_SUCCESS, s)
       else
         let t1 = t\<lparr>wt_scheduled := 1\<rparr>; tr = wt_tracker t;
             s2 = wt_tracker_begin E tr (put_wt t1 s); context = wt_context t
         in if \<not> ctx_is_valid (w_context E) context then
              Return (STATUS_INVALID_PARAMETER,
                wt_tracker_complete E tr (put_wt (t1\<lparr>wt_scheduled := 0\<rparr>) s2))
            else
              and_then (ctx_create_work_item (w_context E) context (wi_ptr s) (wi_kernel s2))
                (\<lambda>((status, work_item), k).
                  let s3 = s2\<lparr>wi_kernel := k\<rparr>
                  in if status \<noteq> STATUS_SUCCESS then
                       Return (status, wt_tracker_complete E tr (put_wt (t1\<lparr>wt_scheduled := 0\<rparr>) s3))
                     else
                       and_then (wt_add_ref E (put_wt (t1\<lparr>wt_work_item := work_item\<rparr>) s3)) (\<lambda>s4.
                       and_then (ctx_enqueue_work_item (w_context E) work_item (wi_ptr s4) (wi_kernel s4))
                         (\<lambda>k2. Return (STATUS_SUCCESS, s4\<lparr>wi_kernel := k2\<rparr>))))) s"

definition wt_cancel ::
  "('f, 'e, 'k) wi_env \<Rightarrow> ('f, 'e, 'k) wi_state \<Rightarrow> ('f, 'e, 'k) wi_state outcome" where
  "wt_cancel E s =
     with_wt (\<lambda>t.
       if wt_cancel_requested t = 0 then
         and_then (wt_schedule E (put_wt (t\<lparr>wt_cancel_requested := 1\<rparr>) s)) (\<lambda>(st, s1). Return s1)
       else Return s) s"

section \<open>Wakers and handles\<close>

definition wt_raw_waker ::
  "('f, 'e, 'k) wi_env \<Rightarrow> ('f, 'e, 'k) wi_state \<Rightarrow> (addr \<times> ('f, 'e, 'k) wi_state) outcome" where
  "wt_raw_waker E s = and_then (wt_add_ref E s) (\<lambda>s1. Return (wi_ptr s1, s1))"

definition wt_clone_raw ::
  "('f, 'e, 'k) wi_env \<Rightarrow> addr \<Rightarrow> ('f, 'e, 'k) wi_state
    \<Rightarrow> (addr \<times> ('f, 'e, 'k) wi_state) outcome" where
  "wt_clone_raw E p s = (if p = null then Return (null, s) else wt_raw_waker E s)"

definition wt_wake_raw ::
  "('f, 'e, 'k) wi_env \<Rightarrow> addr \<Rightarrow> ('f, 'e, 'k) wi_state \<Rightarrow> ('f, 'e, 'k) wi_state outcome" where
  "wt_wake_raw E p s =
     (if p = null then Return s
      else and_then (wt_schedule E s) (\<lambda>(st, s1). wt_release E s1))"

definition wt_wake_by_ref_raw ::
  "('f, 'e, 'k) wi_env \<Rightarrow> addr \<Rightarrow> ('f, 'e, 'k) wi_state \<Rightarrow> ('f, 'e, 'k) wi_state outcome" where
  "wt_wake_by_ref_raw E p s =
     (if p = null then Return s else and_then (wt_schedule E s) (\<lambda>(st, s1). Return s1))"

definition wt_drop_raw ::
  "('f, 'e, 'k) wi_env \<Rightarrow> addr \<Rightarrow> ('f, 'e, 'k) wi_state \<Rightarrow> ('f, 'e, 'k) wi_state outcome" where
  "wt_drop_raw E p s = (if p = null then Return s else wt_release E s)"

record WorkItemCancelHandle =
  wh_task :: addr

definition wh_new ::
  "('f, 'e, 'k) wi_env \<Rightarrow> ('f, 'e, 'k) wi_state
    \<Rightarrow> (WorkItemCancelHandle \<times> ('f, 'e, 'k) wi_state) outcome" where
  "wh_new E s = and_then (wt_add_ref E s) (\<lambda>s1. Return (\<lparr>wh_task = wi_ptr s1\<rparr>, s1))"

definition wh_cancel ::
  "('f, 'e, 'k) wi_env \<Rightarrow> WorkItemCancelHandle \<Rightarrow> ('f, 'e, 'k) wi_state
    \<Rightarrow> ('f, 'e, 'k) wi_state outcome" where
  "wh_cancel E h s = (if wh_task h = null then Return s else wt_cancel E s)"

definition wh_is_cancelled :: "WorkItemCancelHandle \<Rightarrow> ('f, 'e, 'k) wi_state \<Rightarrow> bool outcome" where
  "wh_is_cancelled h s =
     (if wh_task h = null then Return False
      else with_wt (\<lambda>t. Return (wt_cancel_requested t \<noteq> 0)) s)"

definition wh_clone ::
  "('f, 'e, 'k) wi_env \<Rightarrow> WorkItemCancelHandle \<Rightarrow> ('f, 'e, 'k) wi_state
    \<Rightarrow> (WorkItemCancelHandle \<times> ('f, 'e, 'k) wi_state) outcome" where
  "wh_clone E h s =
     (if wh_task h = null then Return (\<lparr>wh_task = wh_task h\<rparr>, s)
      else and_then (wt_add_ref E s) (\<lambda>s1. Return (\<lparr>wh_task = wh_task h\<rparr>, s1)))"

definition wh_drop ::
  "('f, 'e, 'k) wi_env \<Rightarrow> WorkItemCancelHandle \<Rightarrow> ('f, 'e, 'k) wi_state
    \<Rightarrow> (WorkItemCancelHandle \<times> ('f, 'e, 'k) wi_state) outcome" where
  "wh_drop E h s =
     (let h' = h\<lparr>wh_task := null\<rparr>
      in if wh_task h = null then Return (h', s)
         else and_then (wt_release E s) (\<lambda>s1. Return (h', s1)))"

section \<open>What holders do\<close>

text \<open>
  \<open>polling\<close> says that the waker of a poll is at hand. The cancellation queries of the DPC executor
  answer false at \<open>PASSIVE_LEVEL\<close>, where work items run.
\<close>

definition wi_permitted :: "bool \<Rightarrow> waker_op \<Rightarrow> ('f, 'e, 'k) wi_state \<Rightarrow> bool" where
  "wi_permitted polling p s =
     (case p of
        CloneWaker \<Rightarrow> (polling \<or> 0 < wi_wakers s) \<and> wi_wakers s + wi_handles s < 2 ^ 31 - 8
      | DropWaker \<Rightarrow> 0 < wi_wakers s
      | WakeWaker \<Rightarrow> 0 < wi_wakers s
      | WakeByRef \<Rightarrow> polling \<or> 0 < wi_wakers s
      | CancelTask \<Rightarrow> 0 < wi_handles s
      | AskHandle \<Rightarrow> 0 < wi_handles s
      | CloneHandle \<Rightarrow> 0 < wi_handles s \<and> wi_wakers s + wi_handles s < 2 ^ 31 - 8
      | DropHandle \<Rightarrow> 0 < wi_handles s
      | AskCancelled \<Rightarrow> False
      | TakeCancelled \<Rightarrow> False)"

definition wi_run_op ::
  "('f, 'e, 'k) wi_env \<Rightarrow> bool \<Rightarrow> waker_op \<Rightarrow> ('f, 'e, 'k) wi_state
    \<Rightarrow> (bool \<times> ('f, 'e, 'k) wi_state) outcome" where
  "wi_run_op E polling p s =
     (if \<not> wi_permitted polling p s then Return (False, s)
      else case p of
        CloneWaker \<Rightarrow>
          and_then (wt_clone_raw E (wi_ptr s) s)
            (\<lambda>(w, s1). Return (True, s1\<lparr>wi_wakers := wi_wakers s1 + 1\<rparr>))
      | DropWaker \<Rightarrow>
          and_then (wt_drop_raw E (wi_ptr s) (s\<lparr>wi_wakers := wi_wakers s - 1\<rparr>)) (\<lambda>s1. Return (True, s1))
      | WakeWaker \<Rightarrow>
          and_then (wt_wake_raw E (wi_ptr s) (s\<lparr>wi_wakers := wi_wakers s - 1\<rparr>)) (\<lambda>s1. Return (True, s1))
      | WakeByRef \<Rightarrow> and_then (wt_wake_by_ref_raw E (wi_ptr s) s) (\<lambda>s1. Return (True, s1))
      | CancelTask \<Rightarrow> and_then (wh_cancel E \<lparr>wh_task = wi_ptr s\<rparr> s) (\<lambda>s1. Return (True, s1))
      | AskHandle \<Rightarrow> and_then (wh_is_cancelled \<lparr>wh_task = wi_ptr s\<rparr> s) (\<lambda>b. Return (b, s))
      | CloneHandle \<Rightarrow>
          and_then (wh_clone E \<lparr>wh_task = wi_ptr s\<rparr> s)
            (\<lambda>(h, s1). Return (True, s1\<lparr>wi_handles := wi_handles s1 + 1\<rparr>))
      | DropHandle \<Rightarrow>
          and_then (wh_drop E \<lparr>wh_task = wi_ptr s\<rparr> (s\<lparr>wi_handles := wi_handles s - 1\<rparr>))
            (\<lambda>(h, s1). Return (True, s1))
      | AskCancelled \<Rightarrow> Return (False, s)
      | TakeCancelled \<Rightarrow> Return (False, s))"

primrec wi_activity ::
  "('f, 'e, 'k) wi_env \<Rightarrow> bool \<Rightarrow> 'r activity \<Rightarrow> ('f, 'e, 'k) wi_state
    \<Rightarrow> ('r \<times> ('f, 'e, 'k) wi_state) outcome" where
  "wi_activity E polling (Finish r) = (\<lambda>s. Return (r, s))"
| "wi_activity E polling (Act p k) =
     (\<lambda>s. and_then (wi_run_op E polling p s) (\<lambda>(b, s1). wi_activity E polling (k b) s1))"

section \<open>The work-item routine\<close>

text \<open>\<open>completed.store(1)\<close> and the drop of the future in place.\<close>

definition wt_finish_future ::
  "('f, 'e, 'k) wi_env \<Rightarrow> ('f, 'e, 'k) wi_state \<Rightarrow> ('f, 'e, 'k) wi_state outcome" where
  "wt_finish_future E s =
     with_wt (\<lambda>t.
       case wt_future t of
         Emptied \<Rightarrow> Undefined
       | Holding f \<Rightarrow>
           and_then (wi_activity E False (w_drop E f)
               (put_wt (t\<lparr>wt_completed := 1, wt_future := Emptied\<rparr>) s\<lparr>wi_drops := wi_drops s + 1\<rparr>))
             (\<lambda>(u, s1). Return s1)) s"

text \<open>The poll with its waker, which is dropped at the end of the block.\<close>

definition wt_poll ::
  "('f, 'e, 'k) wi_env \<Rightarrow> ('f, 'e, 'k) wi_state \<Rightarrow> ('f, 'e, 'k) wi_state outcome" where
  "wt_poll E s =
     and_then (wt_raw_waker E s) (\<lambda>(waker, s1).
     with_wt (\<lambda>t.
       case wt_future t of
         Emptied \<Rightarrow> Undefined
       | Holding f \<Rightarrow>
           and_then (wi_activity E True (w_poll E f) (s1\<lparr>wi_polls := wi_polls s1 + 1\<rparr>)) (\<lambda>((r, f'), s2).
           and_then (with_wt (\<lambda>t2. Return (put_wt (t2\<lparr>wt_future := Holding f'\<rparr>) s2)) s2) (\<lambda>s3.
           and_then (case r of Ready status \<Rightarrow> wt_finish_future E s3 | Pending \<Rightarrow> Return s3) (\<lambda>s4.
             wt_drop_raw E waker s4)))) s1)"

definition wt_run ::
  "('f, 'e, 'k) wi_env \<Rightarrow> addr \<Rightarrow> ('f, 'e, 'k) wi_state \<Rightarrow> ('f, 'e, 'k) wi_state outcome" where
  "wt_run E fallback_work_item s =
     with_wt (\<lambda>t.
       let tr = wt_tracker t; s1 = put_wt (t\<lparr>wt_scheduled := 0\<rparr>) s
       in if wt_completed t \<noteq> 0 then wt_release E (wt_tracker_complete E tr s1)
          else
            and_then (if wt_cancel_requested t \<noteq> 0 then wt_finish_future E s1 else wt_poll E s1) (\<lambda>s2.
            with_wt (\<lambda>t2.
              let work_item = if wt_work_item t2 = null then fallback_work_item else wt_work_item t2;
                  s3 = put_wt (t2\<lparr>wt_work_item := null\<rparr>) s2
              in and_then (if work_item \<noteq> null
                   then and_then (ctx_delete_work_item (w_context E) work_item (wi_kernel s3))
                     (\<lambda>k. Return (s3\<lparr>wi_kernel := k\<rparr>))
                   else Return s3) (\<lambda>s4.
                 wt_release E (wt_tracker_complete E tr s4))) s2)) s"

text \<open>The two routines: WDM passes the task, KMDF finds it in the context of the work item.\<close>

definition wdm_work_item_routine ::
  "('f, 'e, 'k) wi_env \<Rightarrow> addr \<Rightarrow> ('f, 'e, 'k) wi_state \<Rightarrow> ('f, 'e, 'k) wi_state outcome" where
  "wdm_work_item_routine E context s = (if context = null then Return s else wt_run E null s)"

definition kmdf_work_item_routine ::
  "'k kmdf_kernel \<Rightarrow> ('f, 'e, 'k) wi_env \<Rightarrow> addr \<Rightarrow> ('f, 'e, 'k) wi_state
    \<Rightarrow> ('f, 'e, 'k) wi_state outcome" where
  "kmdf_work_item_routine W E work_item s =
     (let ctx = wdf_get_typed_context W work_item (wi_kernel s)
      in if ctx = null then
           and_then (wdf_object_delete W work_item (wi_kernel s)) (\<lambda>k. Return (s\<lparr>wi_kernel := k\<rparr>))
         else if wdf_read_task_ptr W ctx (wi_kernel s) = null then
           and_then (wdf_object_delete W work_item (wi_kernel s)) (\<lambda>k. Return (s\<lparr>wi_kernel := k\<rparr>))
         else wt_run E work_item s)"

section \<open>Spawning\<close>

text \<open>
  The functions own the future: where they return early it is dropped. \<open>tr\<close> is null in the untracked
  variants.
\<close>

definition spawn_work_item ::
  "('f, 'e, 'k) wi_env \<Rightarrow> addr \<Rightarrow> addr \<Rightarrow> 'f \<Rightarrow> ('f, 'e, 'k) wi_state
    \<Rightarrow> (NTSTATUS \<times> ('f, 'e, 'k) wi_state) outcome" where
  "spawn_work_item E context tr f s =
     (if \<not> ctx_is_valid (w_context E) context then
        Return (STATUS_INVALID_PARAMETER, s\<lparr>wi_drops := wi_drops s + 1\<rparr>)
      else
        and_then (wt_allocate E f s) (\<lambda>(r, s1).
          case r of
            Inl st \<Rightarrow> Return (st, s1)
          | Inr ptr \<Rightarrow>
              with_wt (\<lambda>t.
                and_then (wt_schedule E (put_wt (t\<lparr>wt_context := context, wt_tracker := tr\<rparr>)
                    (s1\<lparr>wi_kernel := ctx_retain (w_context E) context (wi_kernel s1)\<rparr>))) (\<lambda>(status, s2).
                and_then (wt_release E s2) (\<lambda>s3. Return (status, s3)))) s1))"

definition spawn_work_item_cancellable ::
  "('f, 'e, 'k) wi_env \<Rightarrow> addr \<Rightarrow> addr \<Rightarrow> 'f \<Rightarrow> ('f, 'e, 'k) wi_state
    \<Rightarrow> ((NTSTATUS + WorkItemCancelHandle) \<times> ('f, 'e, 'k) wi_state) outcome" where
  "spawn_work_item_cancellable E context tr f s =
     (if \<not> ctx_is_valid (w_context E) context then
        Return (Inl STATUS_INVALID_PARAMETER, s\<lparr>wi_drops := wi_drops s + 1\<rparr>)
      else
        and_then (wt_allocate E f s) (\<lambda>(r, s1).
          case r of
            Inl st \<Rightarrow> Return (Inl st, s1)
          | Inr ptr \<Rightarrow>
              with_wt (\<lambda>t.
                and_then (wh_new E (put_wt (t\<lparr>wt_context := context, wt_tracker := tr\<rparr>)
                    (s1\<lparr>wi_kernel := ctx_retain (w_context E) context (wi_kernel s1)\<rparr>))) (\<lambda>(handle, s2).
                and_then (wt_schedule E s2) (\<lambda>(status, s3).
                and_then (wt_release E s3) (\<lambda>s4.
                  if status \<noteq> STATUS_SUCCESS then
                    and_then (wh_drop E handle s4) (\<lambda>(h, s5). Return (Inl status, s5))
                  else Return (Inr handle, s4\<lparr>wi_handles := wi_handles s4 + 1\<rparr>))))) s1))"

definition spawn_task ::
  "('f, 'e, 'k) wi_env \<Rightarrow> addr \<Rightarrow> 'f \<Rightarrow> ('f, 'e, 'k) wi_state
    \<Rightarrow> (NTSTATUS \<times> ('f, 'e, 'k) wi_state) outcome" where
  "spawn_task E context f s = spawn_work_item E context null f s"

definition spawn_task_tracked ::
  "('f, 'e, 'k) wi_env \<Rightarrow> addr \<Rightarrow> addr \<Rightarrow> 'f \<Rightarrow> ('f, 'e, 'k) wi_state
    \<Rightarrow> (NTSTATUS \<times> ('f, 'e, 'k) wi_state) outcome" where
  "spawn_task_tracked E device tr f s = spawn_work_item E device tr f s"

definition spawn_task_cancellable ::
  "('f, 'e, 'k) wi_env \<Rightarrow> addr \<Rightarrow> 'f \<Rightarrow> ('f, 'e, 'k) wi_state
    \<Rightarrow> ((NTSTATUS + WorkItemCancelHandle) \<times> ('f, 'e, 'k) wi_state) outcome" where
  "spawn_task_cancellable E context f s = spawn_work_item_cancellable E context null f s"

definition spawn_task_cancellable_tracked ::
  "('f, 'e, 'k) wi_env \<Rightarrow> addr \<Rightarrow> addr \<Rightarrow> 'f \<Rightarrow> ('f, 'e, 'k) wi_state
    \<Rightarrow> ((NTSTATUS + WorkItemCancelHandle) \<times> ('f, 'e, 'k) wi_state) outcome" where
  "spawn_task_cancellable_tracked E device tr f s = spawn_work_item_cancellable E device tr f s"

end
