(* ===== verification/Examples.thy ===== *)
theory Examples
  imports Unit_Tests Async_Methods Work_Item_Task Dpc_Properties
begin

text \<open>
  Seven of the programs under \<open>examples/\<close> over the model (the one with a timer is in \<open>Timer_Task\<close>): what
  a user of the crate writes, from the macros that declare an interface to the release of the object. A method is called as the examples call it, by
  the field of the vtable the object's pointer leads to: the slots are those the constructors of
  \<open>Interfaces\<close> build, and the shim in the slot runs the method. As for the tests, the build and the
  address the host's allocator gives are arguments, and an example that returns kept its assertions.
\<close>

section \<open>Calling a method\<close>

definition method_slot :: "vtbl_field list \<Rightarrow> 'al shim list \<Rightarrow> string \<Rightarrow> 'al shim option" where
  "method_slot flds slots name = map_of (zip (map fst flds) slots) name"

fun run_method_slot ::
  "nat \<times> nat \<Rightarrow> 't outcome \<Rightarrow> (string \<Rightarrow> ('t, 'args, 'r, ('t, 'a, 'x) world) method_body) \<Rightarrow> 'al shim option
    \<Rightarrow> com_ptr \<Rightarrow> 'args \<Rightarrow> ('t, 'a, 'x) world \<Rightarrow> ('r abi_value \<times> ('t, 'a, 'x) world) outcome" where
  "run_method_slot inner_layout other bodies (Some (Shim_method iface (Method name ret))) this args w =
     shim_method inner_layout other ret (bodies name) this args w"
| "run_method_slot inner_layout other bodies (Some (Shim_method_secondary ty i iface (Method name ret))) this args w =
     shim_method_secondary ret (bodies name) this args w"
| "run_method_slot inner_layout other bodies slot this args w = Undefined"

text \<open>
  The vtable is read from the object; \<open>vt\<close> says which of the vtables of the type its slots are those of.
\<close>

definition call_method ::
  "nat \<times> nat \<Rightarrow> 't outcome \<Rightarrow> (string \<Rightarrow> ('t, 'args, 'r, ('t, 'a, 'x) world) method_body) \<Rightarrow> vtbl
    \<Rightarrow> 'al shim list \<Rightarrow> vtbl_field list \<Rightarrow> string \<Rightarrow> com_ptr \<Rightarrow> 'args \<Rightarrow> ('t, 'a, 'x) world
    \<Rightarrow> ('r abi_value \<times> ('t, 'a, 'x) world) outcome" where
  "call_method inner_layout other bodies vt slots flds name this args w =
     and_then (read_vtbl this w) (\<lambda>found.
       if found \<noteq> vt then Undefined
       else run_method_slot inner_layout other bodies (method_slot flds slots name) this args w)"

text \<open>The types of the examples have no fields and no destructor.\<close>

definition unit_layout :: "nat \<times> nat" where
  "unit_layout = (0, 1)"

definition example_env :: "build \<Rightarrow> com_impl \<Rightarrow> addr \<Rightarrow> ('t, GlobalAllocator, 'x) env" where
  "example_env b impl p =
     with_impl False impl
       \<lparr>env_build = b, env_layout = \<lparr>layout_size = 48, layout_align = 8\<rparr>,
        env_alloc = (\<lambda>al l w. (p, w)),
        env_dealloc = (\<lambda>al a l w. w),
        env_drop_inner = (\<lambda>a v w. Return w),
        env_query_interface = (\<lambda>v this iid w. Undefined),
        env_foreign_add_ref = (\<lambda>p w. Undefined),
        env_foreign_release = (\<lambda>p w. Undefined),
        env_foreign_query_interface = (\<lambda>p riid ppv w. Undefined)\<rparr>"

section \<open>One interface\<close>

datatype Foo = Foo

definition minimal_IFoo :: com_interface where
  "minimal_IFoo =
     Interface ''IFoo''
       \<lparr>data1 = 0x12345678, data2 = 0x1234, data3 = 0x5678,
        data4 = [0x90, 0xAB, 0xCD, 0xEF, 0x01, 0x23, 0x45, 0x67]\<rparr>
       None [Method ''ping'' (TyOther ''NTSTATUS'')]"

definition foo_ping :: "(Foo, u32, NTSTATUS, (Foo, 'a, 'x) world) method_body" where
  "foo_ping self value w = Return (PlainValue STATUS_SUCCESS, w)"

definition minimal_main ::
  "build \<Rightarrow> addr \<Rightarrow> (Foo, GlobalAllocator, 'x) world \<Rightarrow> (Foo, GlobalAllocator, 'x) world outcome" where
  "minimal_main b p w =
     (let env = example_env b (single_impl minimal_IFoo) p
      in and_then (unwrap_new (new_com env Foo w)) (\<lambda>(raw, w1).
         and_then (raw_from_raw_addref env raw w1) (\<lambda>(x, w2). and_then (unwrap_option x) (\<lambda>com_ref.
         and_then (call_method unit_layout Undefined (\<lambda>n. foo_ping) ComObjectVtbl (vtbl_new minimal_IFoo :: unit shim list)
             (vtbl_fields minimal_IFoo) ''ping'' (rc_as_ptr com_ref) 42 w2) (\<lambda>(status, w3).
         and_then (assert_that (status = RustValue (PlainValue STATUS_SUCCESS))) (\<lambda>u.
         and_then (rc_drop env com_ref w3) (\<lambda>w4.
         and_then (shim_release env raw w4) (\<lambda>(r, w5). Return w5))))))))"

section \<open>Results\<close>

datatype Worker = Worker

definition IResultSample :: com_interface where
  "IResultSample =
     Interface ''IResultSample''
       \<lparr>data1 = 0xDEADBEEF, data2 = 0xFEED, data3 = 0xBEEF,
        data4 = [0x01, 0x23, 0x45, 0x67, 0x89, 0xAB, 0xCD, 0xEF]\<rparr>
       None [Method ''do_work'' TyResult]"

definition worker_do_work :: "(Worker, bool, unit, (Worker, 'a, 'x) world) method_body" where
  "worker_do_work self ok w = Return (ResultValue (if ok then Inr () else Inl 0xC0000001), w)"

definition result_main ::
  "build \<Rightarrow> addr \<Rightarrow> (Worker, GlobalAllocator, 'x) world \<Rightarrow> (Worker, GlobalAllocator, 'x) world outcome" where
  "result_main b p w =
     (let env = example_env b (single_impl IResultSample) p;
          do_work = call_method unit_layout Undefined (\<lambda>n. worker_do_work) ComObjectVtbl
            (vtbl_new IResultSample :: unit shim list) (vtbl_fields IResultSample) ''do_work''
      in and_then (unwrap_new (new_com env Worker w)) (\<lambda>(raw, w1).
         and_then (do_work raw True w1) (\<lambda>(ok_status, w2).
         and_then (do_work raw False w2) (\<lambda>(err_status, w3).
         and_then (assert_that (ok_status = StatusValue STATUS_SUCCESS)) (\<lambda>u.
         and_then (assert_that (err_status = StatusValue 0xC0000001)) (\<lambda>u.
         and_then (shim_release env raw w3) (\<lambda>(r, w4). Return w4)))))))"

section \<open>An inherited interface\<close>

datatype Miniport = Miniport

definition IMiniport :: com_interface where
  "IMiniport =
     Interface ''IMiniport''
       \<lparr>data1 = 0x11112222, data2 = 0x3333, data3 = 0x4444,
        data4 = [0x55, 0x66, 0x77, 0x88, 0x99, 0xAA, 0xBB, 0xCC]\<rparr>
       None [Method ''init'' (TyOther ''NTSTATUS'')]"

definition IMiniportWaveRT :: com_interface where
  "IMiniportWaveRT =
     Interface ''IMiniportWaveRT''
       \<lparr>data1 = 0xAAAABBBB, data2 = 0xCCCC, data3 = 0xDDDD,
        data4 = [0xEE, 0xFF, 0x10, 0x20, 0x30, 0x40, 0x50, 0x60]\<rparr>
       (Some IMiniport) [Method ''new_stream'' (TyOther ''NTSTATUS'')]"

definition miniport_init :: "(Miniport, u32 option, NTSTATUS, (Miniport, 'a, 'x) world) method_body" where
  "miniport_init self args w = Return (PlainValue STATUS_SUCCESS, w)"

definition miniport_new_stream ::
  "(Miniport, u32 option, NTSTATUS, (Miniport, 'a, 'x) world) method_body" where
  "miniport_new_stream self ident w = Return (PlainValue STATUS_SUCCESS, w)"

text \<open>\<open>(*vtbl).parent.init\<close> is the field of the parent's vtable, with which the vtable begins.\<close>

definition inheritance_main ::
  "build \<Rightarrow> addr \<Rightarrow> (Miniport, GlobalAllocator, 'x) world
    \<Rightarrow> (Miniport, GlobalAllocator, 'x) world outcome" where
  "inheritance_main b p w =
     (let env = example_env b (single_impl IMiniportWaveRT) p;
          bodies = (\<lambda>n. if n = ''init'' then miniport_init else miniport_new_stream);
          method = call_method unit_layout Undefined bodies ComObjectVtbl (vtbl_new IMiniportWaveRT :: unit shim list)
      in and_then (unwrap_new (new_com env Miniport w)) (\<lambda>(raw, w1).
         and_then (method (vtbl_fields IMiniport) ''init'' raw None w1) (\<lambda>(init_status, w2).
         and_then (method (vtbl_fields IMiniportWaveRT) ''new_stream'' raw (Some 7) w2) (\<lambda>(stream_status, w3).
         and_then (assert_that (init_status = RustValue (PlainValue STATUS_SUCCESS))) (\<lambda>u.
         and_then (assert_that (stream_status = RustValue (PlainValue STATUS_SUCCESS))) (\<lambda>u.
         and_then (shim_release env raw w3) (\<lambda>(r, w4). Return w4)))))))"

section \<open>Several interfaces\<close>

datatype Multi = Multi

definition multiple_IFoo :: com_interface where
  "multiple_IFoo =
     Interface ''IFoo''
       \<lparr>data1 = 0x12340001, data2 = 0x5678, data3 = 0x9ABC,
        data4 = [0x10, 0x20, 0x30, 0x40, 0x50, 0x60, 0x70, 0x80]\<rparr>
       None [Method ''foo'' (TyOther ''NTSTATUS'')]"

definition multiple_IBar :: com_interface where
  "multiple_IBar =
     Interface ''IBar''
       \<lparr>data1 = 0x12340002, data2 = 0x5678, data3 = 0x9ABC,
        data4 = [0x11, 0x22, 0x33, 0x44, 0x55, 0x66, 0x77, 0x88]\<rparr>
       None [Method ''bar'' (TyOther ''NTSTATUS'')]"

definition multi_foo :: "(Multi, u32, NTSTATUS, (Multi, 'a, 'x) world) method_body" where
  "multi_foo self value w = Return (PlainValue STATUS_SUCCESS, w)"

definition multi_bar :: "(Multi, u32, NTSTATUS, (Multi, 'a, 'x) world) method_body" where
  "multi_bar self value w = Return (PlainValue STATUS_SUCCESS, w)"

text \<open>
  The arguments are the layout of \<open>Multi\<close> and what the shims of the primary interface would read of it, so
  that the example can be asked of a type with fields, too.
\<close>

definition multiple_main ::
  "nat \<times> nat \<Rightarrow> Multi outcome \<Rightarrow> build \<Rightarrow> addr \<Rightarrow> (Multi, GlobalAllocator, 'x) world
    \<Rightarrow> (Multi, GlobalAllocator, 'x) world outcome" where
  "multiple_main inner_layout other b p w =
     (let env = example_env b (primary_impl multiple_IFoo [multiple_IBar]) p;
          P = VtblOf multiple_IFoo; S = [multiple_IBar];
          foo_slots = vtbl_new_primary P S () multiple_IFoo;
          bar_slots = vtbl_new_secondary P S () 0 multiple_IBar
      in and_then (unwrap_new (com_object_n_new env [SecondaryVtbl 0] Multi w)) (\<lambda>(raw, w1).
         and_then (secondary_ptr raw 0 w1) (\<lambda>bar_ptr.
         and_then (call_method inner_layout other (\<lambda>n. multi_foo) ComObjectNVtbl foo_slots
             (vtbl_fields multiple_IFoo) ''foo'' raw 1 w1) (\<lambda>(status, w2).
         and_then (assert_that (status = RustValue (PlainValue STATUS_SUCCESS))) (\<lambda>u.
         and_then (call_method inner_layout other (\<lambda>n. multi_bar) (SecondaryVtbl 0) bar_slots
             (vtbl_fields multiple_IBar) ''bar'' bar_ptr 2 w2) (\<lambda>(status, w3).
         and_then (assert_that (status = RustValue (PlainValue STATUS_SUCCESS))) (\<lambda>u.
         and_then (shim_release_n env raw w3) (\<lambda>(r, w4). Return w4))))))))"

section \<open>They return\<close>

lemmas method_call_defs =
  call_method_def method_slot_def shim_method_def shim_method_secondary_def map_return_def
  vtable_inits_def vtable_inits_secondary_def define_interface_def parse_plain_method_def
  parse_result_method_def iunknown_fields_def iunknown_vtbl_new_def iunknown_vtbl_new_primary_def
  iunknown_vtbl_secondary_def inner_read_def inner_visible_def unit_layout_def example_env_def with_impl_def

lemma minimal_main_returns:
  "p \<noteq> null \<Longrightarrow> \<exists>w'. minimal_main b p w = Return w' \<and> objects w' = (objects w)(p := None)"
  by (simp add: minimal_main_def minimal_IFoo_def foo_ping_def method_call_defs wrapper_shim_defs
      new_com_def raw_from_raw_addref_def rc_from_raw_addref_def rc_from_raw_def rc_drop_def
      rc_as_ptr_def Let_def)

lemma result_main_returns:
  "p \<noteq> null \<Longrightarrow> \<exists>w'. result_main b p w = Return w' \<and> objects w' = (objects w)(p := None)"
  by (simp add: result_main_def IResultSample_def worker_do_work_def method_call_defs wrapper_shim_defs
      new_com_def result_into_ntstatus_def Let_def)

lemma inheritance_main_returns:
  "p \<noteq> null \<Longrightarrow> \<exists>w'. inheritance_main b p w = Return w' \<and> objects w' = (objects w)(p := None)"
  by (simp add: inheritance_main_def IMiniport_def IMiniportWaveRT_def miniport_init_def
      miniport_new_stream_def method_call_defs wrapper_shim_defs new_com_def Let_def)

text \<open>\<open>Multi\<close> may have fields as well: its methods do not read them.\<close>

lemma multiple_main_returns:
  "p \<noteq> null \<Longrightarrow>
    \<exists>w'. multiple_main inner_layout other b p w = Return w' \<and> objects w' = (objects w)(p := None)"
  by (simp add: multiple_main_def multiple_IFoo_def multiple_IBar_def multi_foo_def multi_bar_def
      method_call_defs wrapper_shim_defs com_object_n_new_def new_in_n_def try_new_in_n_def
      secondary_entries_def init_secondary_ptr_def secondary_list_init_def secondary_ptr_def
      from_secondary_ptr_def parent_from_ptr_def shim_release_n_def Let_def)

section \<open>An asynchronous method\<close>

text \<open>The object and the operation its method returns live in one memory, as in \<open>Async_Methods\<close>.\<close>

datatype AsyncFoo = AsyncFoo

definition IAsyncFoo :: com_interface where
  "IAsyncFoo =
     Interface ''IAsyncFoo''
       \<lparr>data1 = 0xABCD1234, data2 = 0x5678, data3 = 0x90AB,
        data4 = [0xCD, 0xEF, 0x01, 0x23, 0x45, 0x67, 0x89, 0x0A]\<rparr>
       None [AsyncMethod ''init'']"

type_synonym 'x foo_world = "(AsyncFoo, GlobalAllocator, NTSTATUS, 'x) object_view"

definition example_op_env :: "build \<Rightarrow> addr \<Rightarrow> (NTSTATUS, 'x) op_env" where
  "example_op_env b q =
     \<lparr>env_build = b, env_layout = \<lparr>layout_size = 64, layout_align = 8\<rparr>,
      env_alloc = (\<lambda>al l w. (q, w)),
      env_dealloc = (\<lambda>al a l w. w),
      env_drop_inner = (\<lambda>a v w. Return w),
      env_query_interface = (\<lambda>v this iid w. Return (async_query_interface v this iid, w)),
      env_foreign_add_ref = (\<lambda>p w. Undefined),
      env_foreign_release = (\<lambda>p w. Undefined),
      env_foreign_query_interface = (\<lambda>p riid ppv w. Undefined)\<rparr>"

text \<open>
  The method: a box for a ready future, if \<open>boxed\<close> says that there is memory for it.
\<close>

definition async_foo_init ::
  "bool \<Rightarrow> AsyncFoo \<Rightarrow> u32 \<Rightarrow> 'w \<Rightarrow> ((NTSTATUS + bool) \<times> 'w) outcome" where
  "async_foo_init boxed self value w =
     Return (if boxed then Inr False else Inl STATUS_INSUFFICIENT_RESOURCES, w)"

definition async_run ::
  "build \<Rightarrow> addr \<Rightarrow> addr \<Rightarrow> bool \<Rightarrow> 'x foo_world \<Rightarrow> 'x foo_world outcome" where
  "async_run b p q boxed w =
     (let env = example_env b (single_impl IAsyncFoo) p
      in and_then (unwrap_new (new_com env AsyncFoo w)) (\<lambda>(raw, w1).
         if method_slot (vtbl_fields IAsyncFoo) (vtbl_new IAsyncFoo :: unit shim list) ''init''
           \<noteq> Some (Shim_method IAsyncFoo (AsyncMethod ''init'')) then Undefined
         else and_then (shim_async_method env (async_foo_init boxed)
           (method_spawn (example_op_env b q) (shim_release env) (async_value STATUS_SUCCESS))
           (method_spawn_error (example_op_env b q)) raw 123 w1) (\<lambda>(op_ptr, w2).
         and_then (assert_that (op_ptr \<noteq> NullPtr)) (\<lambda>u.
         and_then (unwrap_option (rc_from_raw op_ptr)) (\<lambda>operation.
         and_then (get_status_raw (rc_as_ptr operation) (swap_world w2)) (\<lambda>x.
         and_then (unwrap_result x) (\<lambda>status. and_then (assert_that (status = Completed)) (\<lambda>u.
         and_then (get_result_raw (rc_as_ptr operation) (swap_world w2)) (\<lambda>y.
         and_then (unwrap_result y) (\<lambda>result. and_then (assert_that (result = STATUS_SUCCESS)) (\<lambda>u.
         and_then (shim_release env raw w2) (\<lambda>(r, w3).
         and_then (rc_drop (example_op_env b q) operation (swap_world w3)) (\<lambda>w4.
           Return (swap_world w4))))))))))))))"

lemmas async_method_defs =
  shim_async_method_def async_shim_def async_foo_init_def method_spawn_def method_spawn_error_def
  in_other_view_def
  guarded_ops_def guarded_poll_def guarded_resume_def guarded_end_def release_guard_drop_def
  guarded_drop_def example_op_env_def spawn_async_operation_raw_def async_value_def swap_world_def

lemmas async_run_defs =
  async_run_def IAsyncFoo_def method_call_defs parse_async_method_def new_com_def rc_from_raw_def
  async_method_defs async_shim_defs wrapper_shim_defs Let_def

lemma async_run_returns:
  assumes "p \<noteq> null" and "q \<noteq> null"
  shows "\<exists>w'. async_run b p q True w = Return w' \<and> objects w' = (objects w)(p := None)
    \<and> objects (foreign w') = (objects (foreign w))(q := None)"
  using assms by (cases w) (simp add: async_run_defs; simp add: STATUS_SUCCESS_def)

text \<open>
  Without memory for the future the method still gives an operation, in an error state: the example's
  first assertion passes and the second does not.
\<close>

lemma async_run_out_of_memory:
  assumes "p \<noteq> null" and "q \<noteq> null"
  shows "async_run b p q False w = Panic"
  using assms by (cases w) (simp add: async_run_defs; simp add: STATUS_SUCCESS_def)

section \<open>Tasks\<close>

text \<open>
  \<open>YieldOnce\<close> on the executor of builds without a kernel: the future is dropped pending, and the caller
  is told success. \<open>wake\<close> is what the waker of the context does.
\<close>

record YieldOnce =
  yielded :: bool

definition yield_once_poll ::
  "('w \<Rightarrow> 'w) \<Rightarrow> YieldOnce \<Rightarrow> 'w \<Rightarrow> (NTSTATUS poll_result \<times> YieldOnce \<times> 'w) outcome" where
  "yield_once_poll wake self w =
     Return (if yielded self then (PollReady STATUS_SUCCESS, self, w)
       else (PollPending, self\<lparr>yielded := True\<rparr>, wake w))"

definition yield_once_drop :: "YieldOnce \<Rightarrow> 'w \<Rightarrow> (bool \<times> 'w) outcome" where
  "yield_once_drop self w = Return (False, w)"

definition spawn_task_host_main :: "'w \<Rightarrow> 'w outcome" where
  "spawn_task_host_main w =
     and_then (host_spawn_task (yield_once_poll dummy_wake_by_ref) yield_once_drop \<lparr>yielded = False\<rparr> w)
       (\<lambda>(status, w1). and_then (assert_that (status = STATUS_SUCCESS)) (\<lambda>u. Return w1))"

lemma spawn_task_host_main_returns: "spawn_task_host_main w = Return w"
  by (simp add: spawn_task_host_main_def host_spawn_task_def yield_once_poll_def yield_once_drop_def
      dummy_wake_by_ref_def)

text \<open>
  The same future on the DPC executor: the poll wakes its own task. \<open>drain\<close> waits while the kernel runs
  the DPC as long as it is queued; \<open>None\<close> says that it would wait for ever, or that the DPC needs more
  than \<open>m\<close> runs or \<open>n\<close> turns in one of them.
\<close>

fun run_queued ::
  "nat \<Rightarrow> nat \<Rightarrow> ('f, 'w, 'e, 'q) dpc_env \<Rightarrow> PROCESSOR_NUMBER \<Rightarrow> ('f, 'w, 'e, 'q) executor
    \<Rightarrow> ('f, 'w, 'e, 'q) executor outcome option" where
  "run_queued 0 n E processor s = None"
| "run_queued (Suc m) n E processor s =
     (case the_task s of
        None \<Rightarrow> Some (Return s)
      | Some t \<Rightarrow>
          if dpc_queued (x_dpc E) (th_dpc t) then
            (case dpc_arrive n E processor s of
               Some (Return s1) \<Rightarrow> run_queued m n E processor s1
             | r \<Rightarrow> r)
          else Some (Return s))"

definition yield_once_activity :: "YieldOnce \<Rightarrow> 'w \<Rightarrow> (NTSTATUS Poll \<times> YieldOnce \<times> 'w) activity" where
  "yield_once_activity self w =
     (if yielded self then Finish (Ready STATUS_SUCCESS, self, w)
      else Act WakeByRef (\<lambda>b. Finish (Pending, self\<lparr>yielded := True\<rparr>, w)))"

definition spawn_dpc_task_main ::
  "nat \<Rightarrow> nat \<Rightarrow> (YieldOnce, 'w, 'e, 'q) dpc_env \<Rightarrow> PROCESSOR_NUMBER \<Rightarrow> addr \<Rightarrow> (YieldOnce, 'w, 'e, 'q) executor
    \<Rightarrow> (YieldOnce, 'w, 'e, 'q) executor outcome option" where
  "spawn_dpc_task_main m n E processor tr s0 =
     (let s = s0\<lparr>trackers := (trackers s0)(tr := tracker_new (x_event E))\<rparr>
      in case and_then (spawn_dpc_task E \<lparr>rc_irql = 0, rc_processor = processor, rc_polling = False\<rparr> tr
             \<lparr>yielded = False\<rparr> s)
           (\<lambda>(status, s1). and_then (assert_that (status = STATUS_SUCCESS)) (\<lambda>u. Return s1)) of
         Return s1 \<Rightarrow>
           (case run_queued m n E processor s1 of
              Some (Return s2) \<Rightarrow>
                map_option (\<lambda>t. Return (s2\<lparr>trackers := (trackers s2)(tr := t)\<rparr>))
                  (tracker_drain (x_event E) (trackers s2 tr))
            | r \<Rightarrow> r)
       | r \<Rightarrow> Some r)"

definition yield_env :: "(YieldOnce, unit, bool, bool) dpc_env" where
  "yield_env = \<lparr>x_build = hardened_build,
     x_alloc_build = release_build, x_kernel = small_kernel,
     x_layout = \<lparr>layout_size = 128, layout_align = 8\<rparr>, x_event = flag_event, x_dpc = bool_dpc,
     x_frequency = 1000000, x_counter = (\<lambda>i. of_nat (100 * i)), x_poll = yield_once_activity,
     x_drop = (\<lambda>f. Finish)\<rparr>"

definition yield_start :: "(YieldOnce, unit, bool, bool) executor" where
  "yield_start = \<lparr>task_ptr = null, the_task = None, CURRENT_TASKS = (\<lambda>i. null),
     TASK_BUDGET_MODE = TASK_BUDGET_MODE_POLLS, TASK_BUDGET_POLLS = DEFAULT_TASK_BUDGET_POLLS,
     TASK_BUDGET_TIME_US = DEFAULT_TASK_BUDGET_TIME_US, DEFAULT_TASK_TAG = KCOM_TAG,
     trackers = (\<lambda>a. tracker_new flag_event), memory = small_memory, future_world = (), queries = 0, wakers = 0,
     handles = 0, polls = 0, drops = 0, frees = 0\<rparr>"

text \<open>
  The first run of the DPC polls the future twice and drops it. The wake-up has queued the DPC once more:
  the second run finds the task completed and frees it, and only then the drain returns.
\<close>

definition yield_once_run :: "(YieldOnce, unit, bool, bool) executor outcome option" where
  "yield_once_run = spawn_dpc_task_main 3 3 yield_env cpu0 4096 yield_start"

lemma spawn_dpc_task_main_returns:
  "\<exists>s. yield_once_run = Some (Return s) \<and> the_task s = None \<and> polls s = 2 \<and> executor.drops s = 1 \<and> frees s = 1"
  by (simp add: yield_once_run_def spawn_dpc_task_main_def yield_env_def yield_start_def
      yield_once_activity_def hardened_build_def tracker_drain_def alloc_eval executor_eval run_eval
      numeral_3_eq_3)

text \<open>
  The driver example passes a null device to the work-item executor: both spawns refuse with
  \<open>STATUS_INVALID_PARAMETER\<close> and drop their future, on WDM and on KMDF. The state is what the two calls
  leave; a handle would be cancelled and dropped.
\<close>

definition work_item_run ::
  "('f, 'e, 'k) wi_env \<Rightarrow> 'f \<Rightarrow> ('f, 'e, 'k) wi_state \<Rightarrow> (NTSTATUS \<times> ('f, 'e, 'k) wi_state) outcome" where
  "work_item_run E ready_ok s =
     (let device = null
      in and_then (spawn_task E device ready_ok s) (\<lambda>(status, s1).
         and_then (spawn_task_cancellable E device ready_ok s1) (\<lambda>(r, s2).
           case r of
             Inl st \<Rightarrow> Return (status, s2)
           | Inr handle \<Rightarrow>
               and_then (wh_cancel E handle s2) (\<lambda>s3.
               and_then (wh_drop E handle s3) (\<lambda>(h, s4). Return (status, s4))))))"

lemma work_item_run_refused:
  assumes "w_context E = wdm_context W \<or> w_context E = kmdf_context W'"
  shows "work_item_run E f s = Return (STATUS_INVALID_PARAMETER, s\<lparr>wi_drops := wi_drops s + 2\<rparr>)"
  using assms
  by (auto simp: work_item_run_def spawn_task_def spawn_task_cancellable_def spawn_work_item_def
      spawn_work_item_cancellable_def wdm_context_def kmdf_context_def wdm_is_valid_def kmdf_is_valid_def)

end
