(* ===== verification/Async_Dpc.thy ===== *)
theory Async_Dpc
  imports Async_Properties Dpc_Properties
begin

text \<open>
  Asynchronous operations on the DPC executor: \<open>src/async_com.rs\<close>, \<open>src/task.rs\<close> and \<open>src/executor.rs\<close> as
  one system, as driver builds link them. The executor of \<open>Dpc_Task\<close> runs the \<open>async\<close> block of an
  operation, whose world holds the object of the operation; the future of the user acts on that world
  and on the wakers and handles of the task. Driver builds abort on a panic.
\<close>

section \<open>The block of an operation\<close>

record ('g, 'v, 'w) kernel_future =
  kf_poll :: "'g \<Rightarrow> 'w \<Rightarrow> ('v Poll \<times> 'g \<times> 'w) activity"
  kf_drop :: "'g \<Rightarrow> 'w \<Rightarrow> 'w activity"

text \<open>
  \<open>Cancellable::poll\<close> with the empty \<open>async\<close> block as its cleanup: \<open>take_cancellation_request\<close> asks the
  executor. An outcome other than \<open>Return\<close> ends the system.
\<close>

definition kernel_cleanup_poll ::
  "('g, unit) Cancellable \<Rightarrow> 'w \<Rightarrow> ('v option Poll \<times> ('g, unit) Cancellable \<times> 'w) outcome activity" where
  "kernel_cleanup_poll this w =
     (case cleanup this of
        Dropped \<Rightarrow> Finish Undefined
      | Live c \<Rightarrow> Finish (Return (Ready None, this\<lparr>cleanup := Dropped, state := Done\<rparr>, w)))"

definition kernel_cancellable_poll ::
  "('g, 'v, 'w) kernel_future \<Rightarrow> ('g, unit) Cancellable \<Rightarrow> 'w
    \<Rightarrow> ('v option Poll \<times> ('g, unit) Cancellable \<times> 'w) outcome activity" where
  "kernel_cancellable_poll U this w =
     (case state this of
        RunningMain \<Rightarrow>
          Act TakeCancelled (\<lambda>cancelled.
            case main this of
              Dropped \<Rightarrow> Finish Undefined
            | Live m \<Rightarrow>
                if cancelled then
                  act_bind (kf_drop U m w) (\<lambda>w1.
                    kernel_cleanup_poll (this\<lparr>main := Dropped, state := RunningCleanup\<rparr>) w1)
                else
                  act_bind (kf_poll U m w) (\<lambda>(r, m1, w1).
                    case r of
                      Ready value \<Rightarrow>
                        act_bind (kf_drop U m1 w1) (\<lambda>w2.
                          case cleanup this of
                            Dropped \<Rightarrow> Finish Undefined
                          | Live c \<Rightarrow> Finish (Return (Ready (Some value),
                              this\<lparr>main := Dropped, cleanup := Dropped, state := Done\<rparr>, w2)))
                    | Pending \<Rightarrow> Finish (Return (Pending, this\<lparr>main := Live m1\<rparr>, w1))))
      | RunningCleanup \<Rightarrow> kernel_cleanup_poll this w
      | Done \<Rightarrow> Finish Panic)"

definition kernel_cancellable_drop ::
  "('g, 'v, 'w) kernel_future \<Rightarrow> ('g, unit) Cancellable \<Rightarrow> 'w \<Rightarrow> 'w outcome activity" where
  "kernel_cancellable_drop U this w =
     (case state this of
        RunningMain \<Rightarrow>
          (case main this of
             Dropped \<Rightarrow> Finish Undefined
           | Live m \<Rightarrow>
               act_bind (kf_drop U m w) (\<lambda>w1.
                 Finish (if cleanup this = Dropped then Undefined else Return w1)))
      | RunningCleanup \<Rightarrow> Finish (if cleanup this = Dropped then Undefined else Return w)
      | Done \<Rightarrow> Finish (Return w))"

text \<open>
  The block itself. The world of the executor is the world of the operation, or how the system ended.
\<close>

definition op_block_resume ::
  "('v, 'x) op_env \<Rightarrow> ('g, 'v, ('v, 'x) op_world) kernel_future \<Rightarrow> com_ptr \<Rightarrow> ('g, unit) Cancellable
    \<Rightarrow> ('v, 'x) op_world \<Rightarrow> (NTSTATUS Poll \<times> 'g async_task \<times> ('v, 'x) op_world outcome) activity" where
  "op_block_resume env U ptr c w =
     act_bind (kernel_cancellable_poll U c w) (\<lambda>x.
       case x of
         Return (r, c1, w1) \<Rightarrow>
           (case r of
              Ready result \<Rightarrow>
                Finish (Ready STATUS_SUCCESS, async_task.Returned,
                  and_then (op_update ptr (case result of
                      Some value \<Rightarrow> store_result value | None \<Rightarrow> store_canceled) w1)
                    (task_guard_drop env ptr))
            | Pending \<Rightarrow> Finish (Pending, Awaiting c1, Return w1))
       | _ \<Rightarrow> Finish (Pending, Awaiting c, and_then x (\<lambda>(r, c1, w1). Return w1)))"

definition op_block_poll ::
  "('v, 'x) op_env \<Rightarrow> ('g, 'v, ('v, 'x) op_world) kernel_future \<Rightarrow> com_ptr \<Rightarrow> 'g async_task
    \<Rightarrow> ('v, 'x) op_world outcome
    \<Rightarrow> (NTSTATUS Poll \<times> 'g async_task \<times> ('v, 'x) op_world outcome) activity" where
  "op_block_poll env U ptr t W =
     (case W of
        Return w \<Rightarrow>
          (case t of
             Unresumed f \<Rightarrow> op_block_resume env U ptr (try_finally f ()) w
           | Awaiting c \<Rightarrow> op_block_resume env U ptr c w
           | async_task.Returned \<Rightarrow> Finish (Pending, t, Panic))
      | _ \<Rightarrow> Finish (Pending, t, W))"

definition op_block_drop ::
  "('v, 'x) op_env \<Rightarrow> ('g, 'v, ('v, 'x) op_world) kernel_future \<Rightarrow> com_ptr \<Rightarrow> 'g async_task
    \<Rightarrow> ('v, 'x) op_world outcome \<Rightarrow> ('v, 'x) op_world outcome activity" where
  "op_block_drop env U ptr t W =
     (case W of
        Return w \<Rightarrow>
          (case t of
             Unresumed f \<Rightarrow> act_bind (kf_drop U f w) (\<lambda>w1. Finish (Return w1))
           | Awaiting c \<Rightarrow>
               act_bind (kernel_cancellable_drop U c w) (\<lambda>x. Finish (and_then x (task_guard_drop env ptr)))
           | async_task.Returned \<Rightarrow> Finish W)
      | _ \<Rightarrow> Finish W)"

section \<open>Spawning\<close>

type_synonym ('g, 'v, 'x, 'e, 'q) op_executor =
  "('g async_task, ('v, 'x) op_world outcome, 'e, 'q) executor"
type_synonym ('g, 'v, 'x, 'e, 'q) op_dpc_env =
  "('g async_task, ('v, 'x) op_world outcome, 'e, 'q) dpc_env"

text \<open>The executor, with the block that captured \<open>ptr\<close> as the future of its task.\<close>

definition block_env ::
  "('v, 'x) op_env \<Rightarrow> ('g, 'v, ('v, 'x) op_world) kernel_future \<Rightarrow> com_ptr
    \<Rightarrow> ('g, 'v, 'x, 'e, 'q) op_dpc_env \<Rightarrow> ('g, 'v, 'x, 'e, 'q) op_dpc_env" where
  "block_env env U ptr E = E\<lparr>x_poll := op_block_poll env U ptr, x_drop := op_block_drop env U ptr\<rparr>"

text \<open>
  \<open>spawn_raw_cancellable\<close> in driver builds, and \<open>spawn_raw\<close>, which drops the handle. If the object cannot
  be allocated, the future of the caller is dropped.
\<close>

definition kernel_spawn_raw_cancellable ::
  "('v, 'x) op_env \<Rightarrow> ('g, 'v, ('v, 'x) op_world) kernel_future \<Rightarrow> ('g, 'v, 'x, 'e, 'q) op_dpc_env
    \<Rightarrow> run_context \<Rightarrow> 'g \<Rightarrow> ('g, 'v, 'x, 'e, 'q) op_executor
    \<Rightarrow> ((NTSTATUS + com_ptr \<times> CancelHandle) \<times> ('g, 'v, 'x, 'e, 'q) op_executor) outcome" where
  "kernel_spawn_raw_cancellable env U E c future s =
     and_then (future_world s) (\<lambda>w.
       case com_object_new env new_state w of
         (Inl status, w1) \<Rightarrow>
           and_then (run_orphaned c (kf_drop U future w1) s) (\<lambda>(w2, s1).
             Return (Inl status, s1\<lparr>future_world := Return w2\<rparr>))
       | (Inr ptr, w1) \<Rightarrow>
           and_then (shim_add_ref env ptr w1) (\<lambda>(r, w2).
           and_then (guard_ptr_new ptr) (\<lambda>task_ptr.
           and_then (spawn_dpc_task_cancellable (block_env env U (guard_ptr_as_ptr task_ptr) E) c
               (Unresumed future) (s\<lparr>future_world := Return w2\<rparr>)) (\<lambda>(x, s1).
             case x of
               Inr handle \<Rightarrow> Return (Inr (ptr, handle), s1)
             | Inl status \<Rightarrow>
                 and_then (future_world s1) (\<lambda>w3.
                 and_then (shim_release env ptr w3) (\<lambda>(r1, w4).
                 and_then (shim_release env ptr w4) (\<lambda>(r2, w5).
                   Return (Inl status, s1\<lparr>future_world := Return w5\<rparr>))))))))"

definition kernel_spawn_raw ::
  "('v, 'x) op_env \<Rightarrow> ('g, 'v, ('v, 'x) op_world) kernel_future \<Rightarrow> ('g, 'v, 'x, 'e, 'q) op_dpc_env
    \<Rightarrow> run_context \<Rightarrow> 'g \<Rightarrow> ('g, 'v, 'x, 'e, 'q) op_executor
    \<Rightarrow> ((NTSTATUS + com_ptr) \<times> ('g, 'v, 'x, 'e, 'q) op_executor) outcome" where
  "kernel_spawn_raw env U E c future s =
     and_then (kernel_spawn_raw_cancellable env U E c future s) (\<lambda>(x, s1).
       case x of
         Inl status \<Rightarrow> Return (Inl status, s1)
       | Inr (ptr, handle) \<Rightarrow>
           and_then (cancel_handle_drop (block_env env U ptr E) c handle
               (s1\<lparr>handles := handles s1 - 1\<rparr>)) (\<lambda>(h, s2). Return (Inr ptr, s2)))"

end
