(* ===== verification/Async_Dpc_Properties.thy ===== *)
theory Async_Dpc_Properties
  imports Async_Dpc
begin

text \<open>
  The life of an asynchronous operation on the DPC executor: the block of the operation keeps a
  contract with the executor, so that in every reachable state of the two together the object of
  the operation has the references of its clients and of its block, and clients read what the block
  has published.
\<close>

section \<open>The kernel's poll is the one of \<open>Task\<close>\<close>

lemma set_act_bind [simp]:
  "set_activity (act_bind a g) = (\<Union>r\<in>set_activity a. set_activity (g r))"
  by (induction a) auto

text \<open>Running an activity against a list of answers, and a future as the one of \<open>Task\<close> whose world
  has these answers.\<close>

primrec answered :: "'r activity \<Rightarrow> bool list \<Rightarrow> 'r \<times> bool list" where
  "answered (Finish r) = (\<lambda>bs. (r, bs))"
| "answered (Act p k) = (\<lambda>bs. answered (k (bs \<noteq> [] \<and> hd bs)) (tl bs))"

lemma answered_bind:
  "answered (act_bind a g) bs = (case answered a bs of (r, bs') \<Rightarrow> answered (g r) bs')"
  by (induction a arbitrary: bs) auto

primrec to_poll_result :: "'v Poll \<Rightarrow> 'v poll_result" where
  "to_poll_result (Ready v) = PollReady v"
| "to_poll_result Pending = PollPending"

definition host_view :: "('g, 'v, 'w) kernel_future \<Rightarrow> ('g, 'v, 'w \<times> bool list) future_ops" where
  "host_view U = \<lparr>
     fut_poll = (\<lambda>f (w, bs). case answered (kf_poll U f w) bs of
       ((r, f', w'), bs') \<Rightarrow> (to_poll_result r, f', (w', bs'))),
     fut_drop = (\<lambda>f (w, bs). case answered (kf_drop U f w) bs of (w', bs') \<Rightarrow> (False, (w', bs')))\<rparr>"

definition next_answer :: "'w \<times> bool list \<Rightarrow> bool \<times> 'w \<times> bool list" where
  "next_answer = (\<lambda>(w, bs). (bs \<noteq> [] \<and> hd bs, (w, tl bs)))"

lemma host_view_simps:
  "fut_poll (host_view U) f (w, bs) = (case answered (kf_poll U f w) bs of
     ((r, f', w'), bs') \<Rightarrow> (to_poll_result r, f', (w', bs')))"
  "fut_drop (host_view U) f (w, bs) = (case answered (kf_drop U f w) bs of (w', bs') \<Rightarrow> (False, (w', bs')))"
  "next_answer (w, bs) = (bs \<noteq> [] \<and> hd bs, (w, tl bs))"
  by (simp_all add: host_view_def next_answer_def)

lemma kernel_cancellable_poll_agrees:
  assumes "state this \<noteq> Done"
  shows "cancellable_poll (host_view U) empty_async next_answer this (w, bs)
    = (case answered (kernel_cancellable_poll U this w) bs of
         (x, bs') \<Rightarrow> and_then x (\<lambda>(r, this', w'). Return (to_poll_result r, this', (w', bs'))))"
proof -
  have cl: "cancellable_poll (host_view U) empty_async next_answer this (w, bs)
    = (case answered (kernel_cleanup_poll this w) bs of
         (x, bs') \<Rightarrow> and_then x (\<lambda>(r, this', w'). Return (to_poll_result r, this', (w', bs'))))"
    if "state this = RunningCleanup" for this :: "('a, unit) Cancellable" and w bs
    using that
    by (cases "cleanup this")
      (simp_all add: cancellable_poll.simps kernel_cleanup_poll_def poll_slot_def drop_slot_def empty_async_def)
  show ?thesis
  proof (cases "state this")
    case RunningMain
    show ?thesis
    proof (cases "main this")
      case (Live m)
      show ?thesis
      proof (cases "bs \<noteq> [] \<and> hd bs")
        case True
        obtain w1 bs1 where "answered (kf_drop U m w) (tl bs) = (w1, bs1)" by fastforce
        with True show ?thesis
          using RunningMain Live
          by (simp add: cancellable_poll.simps [of _ _ _ this] kernel_cancellable_poll_def host_view_simps
              answered_bind cl case_prod_beta)
      next
        case False
        then show ?thesis
          using RunningMain Live
          by (cases "cleanup this")
            (auto simp: cancellable_poll.simps [of _ _ _ this] kernel_cancellable_poll_def host_view_simps
              answered_bind poll_slot_def drop_slot_def empty_async_def case_prod_beta
              split: Poll.splits)
      qed
    next
      case Dropped
      then show ?thesis
        using RunningMain
        by (cases "bs \<noteq> [] \<and> hd bs") (auto simp: cancellable_poll.simps [of _ _ _ this]
            kernel_cancellable_poll_def host_view_simps poll_slot_def drop_slot_def)
    qed
  qed (use assms cl [of this w bs] in \<open>simp_all add: kernel_cancellable_poll_def\<close>)
qed

section \<open>The contract of the block\<close>

text \<open>A future of the user that does not know the operation leaves its object alone.\<close>

definition kernel_neutral :: "addr \<Rightarrow> ('g, 'v, ('t, 'a, 'x) world) kernel_future \<Rightarrow> bool" where
  "kernel_neutral a U \<longleftrightarrow>
     (\<forall>g w r g' w'. (r, g', w') \<in> set_activity (kf_poll U g w) \<longrightarrow> keeps_object a w w')
     \<and> (\<forall>g w w'. w' \<in> set_activity (kf_drop U g w) \<longrightarrow> keeps_object a w w')"

fun block_running :: "'g async_task \<Rightarrow> bool" where
  "block_running (Unresumed f) = True"
| "block_running (Awaiting c) = (wf_cancellable c \<and> state c = RunningMain)"
| "block_running async_task.Returned = False"

lemma block_running_live: "block_running t \<Longrightarrow> task_live (Some t)"
  by (cases t) auto

text \<open>
  The contract for \<open>n\<close> clients: a queued block is running, an idle one has been polled, so that its
  guard exists, and whatever the state, the object has the references of the clients and of the
  block.
\<close>

primrec op_contract ::
  "('v, 'x) op_env \<Rightarrow> addr \<Rightarrow> nat \<Rightarrow> nat \<Rightarrow> 'g async_task future_state \<Rightarrow> ('v, 'x) op_world outcome \<Rightarrow> bool" where
  "op_contract env a k n (Queued t) W \<longleftrightarrow>
     block_running t \<and> (\<exists>w. W = Return w \<and> op_inv env a k n (Some t) w)"
| "op_contract env a k n (Idle t) W \<longleftrightarrow>
     block_running t \<and> (\<forall>f. t \<noteq> Unresumed f) \<and> (\<exists>w. W = Return w \<and> op_inv env a k n (Some t) w)"
| "op_contract env a k n (Finished t) W \<longleftrightarrow>
     t = async_task.Returned \<and> (\<exists>w. W = Return w \<and> op_inv env a k n (Some t) w)"
| "op_contract env a k n Gone W \<longleftrightarrow> (\<exists>w. W = Return w \<and> op_inv env a k n (None :: 'g async_task option) w)"

lemma kernel_poll_results:
  assumes "kernel_neutral a U" and "wf_cancellable c" and "state c = RunningMain"
    and "x \<in> set_activity (kernel_cancellable_poll U c w)"
  obtains r c1 w1 where "x = Return (r, c1, w1)" "keeps_object a w w1"
    "r = Pending \<longrightarrow> wf_cancellable c1 \<and> state c1 = RunningMain"
proof -
  obtain m u where c: "main c = Live m" "cleanup c = Live u"
    using assms(2,3) by (cases "main c"; cases "cleanup c") (auto simp: wf_cancellable_def)
  have "\<exists>r c1 w1. x = Return (r, c1, w1) \<and> keeps_object a w w1
      \<and> (r = Pending \<longrightarrow> wf_cancellable c1 \<and> state c1 = RunningMain)"
    using assms c
    by (auto simp: kernel_cancellable_poll_def kernel_cleanup_poll_def kernel_neutral_def wf_cancellable_def
        split: Poll.splits if_splits) (metis keeps_object_trans)
  then show thesis using that by blast
qed

lemma kernel_drop_results:
  assumes "kernel_neutral a U" and "wf_cancellable c" and "x \<in> set_activity (kernel_cancellable_drop U c w)"
  obtains w1 where "x = Return w1" "keeps_object a w w1"
proof -
  have "\<exists>w1. x = Return w1 \<and> keeps_object a w w1"
    using assms
    by (cases "state c"; cases "main c"; cases "cleanup c")
      (auto simp: kernel_cancellable_drop_def kernel_neutral_def wf_cancellable_def)
  then show thesis using that by blast
qed

text \<open>The end of the block: the result is stored and the guard gives its reference back.\<close>

lemma op_publish_ok:
  assumes "op_alive env a k (n + 1) w ob" and "n < refcount_cap (env_build env)"
    and "g = (case result of Some value \<Rightarrow> store_result value | None \<Rightarrow> store_canceled)"
  shows "\<exists>w'. and_then (op_update (PrimaryPtr a) g w) (task_guard_drop env (PrimaryPtr a)) = Return w'
    \<and> op_inv env a k n (Some (async_task.Returned :: 'g async_task)) w'
    \<and> (0 < n \<longrightarrow> (\<exists>ob'. objects w' a = Some ob' \<and> inner ob' = g (inner ob)))"
proof -
  obtain ob1 where u: "op_update (PrimaryPtr a) g w = Return (put_object a ob1 w)"
    "op_alive env a k (n + 1) (put_object a ob1 w) ob1" "inner ob1 = g (inner ob)"
    using op_update_alive [OF assms(1)] by blast
  have st: "op_state_ok (Some (async_task.Returned :: 'g async_task)) (inner ob1)"
    using u(3) assms(3) by (auto simp: op_state_ok_def store_result_def store_canceled_def split: option.splits)
  from op_release_ok [OF u(2) assms(2) st, of n] show ?thesis
    using u(1,3) by (auto simp: task_ok_def task_guard_drop_def)
qed

lemma op_resume_results:
  assumes "kernel_neutral a U" and "wf_cancellable c" and "state c = RunningMain"
    and "op_alive env a k (n + 1) w ob" and "n < refcount_cap (env_build env)"
    and "at_status (inner ob) = as_raw Started"
    and "(r, t', W') \<in> set_activity (op_block_resume env U (PrimaryPtr a) c w)"
  shows "op_contract env a k n (if r = Pending then Idle t' else Finished t') W'"
proof -
  obtain x where x: "x \<in> set_activity (kernel_cancellable_poll U c w)"
    "(r, t', W') \<in> set_activity (case x of
         Return (r, c1, w1) \<Rightarrow>
           (case r of
              Ready result \<Rightarrow>
                Finish (Ready STATUS_SUCCESS, async_task.Returned,
                  and_then (op_update (PrimaryPtr a) (case result of
                      Some value \<Rightarrow> store_result value | None \<Rightarrow> store_canceled) w1)
                    (task_guard_drop env (PrimaryPtr a)))
            | Pending \<Rightarrow> Finish (Pending, Awaiting c1, Return w1))
       | _ \<Rightarrow> Finish (Pending, Awaiting c, and_then x (\<lambda>(r, c1, w1). Return w1)))"
    using assms(7) unfolding op_block_resume_def by auto
  obtain q c1 w1 where q: "x = Return (q, c1, w1)"
    "keeps_object a w w1" "q = Pending \<longrightarrow> wf_cancellable c1 \<and> state c1 = RunningMain"
    by (rule kernel_poll_results [OF assms(1-3) x(1)])
  have e: "(r, t', W') = (case q of
       Ready result \<Rightarrow> (Ready STATUS_SUCCESS, async_task.Returned,
         and_then (op_update (PrimaryPtr a) (case result of
           Some value \<Rightarrow> store_result value | None \<Rightarrow> store_canceled) w1) (task_guard_drop env (PrimaryPtr a)))
     | Pending \<Rightarrow> (Pending, Awaiting c1, Return w1))"
    using x(2) q(1) by (auto split: Poll.splits)
  have a1: "op_alive env a k (n + 1) w1 ob" using op_alive_keeps [OF assms(4) q(2)] .
  show ?thesis
  proof (cases q)
    case (Ready result)
    then show ?thesis using op_publish_ok [OF a1 assms(5) refl, of result] e by auto
  next
    case Pending
    then show ?thesis
      using a1 q(3) e assms(5,6) by (auto simp: op_inv_def task_ok_def op_state_ok_def)
  qed
qed

lemma try_finally_running [simp]:
  "wf_cancellable (try_finally f u)" "state (try_finally f u) = RunningMain"
  by (simp_all add: try_finally_def cancellable_new_def wf_cancellable_def)

lemma op_block_contract:
  fixes U :: "('g, 'v, ('v, 'x) op_world) kernel_future"
  assumes "kernel_neutral a U"
  shows "future_contract (block_env env U (PrimaryPtr a) E) (op_contract env a k n)"
  unfolding future_contract_def
proof (intro conjI allI impI)
  fix t W r t' W'
  assume q: "op_contract env a k n (Queued t) W"
    and x: "(r, t', W') \<in> set_activity (x_poll (block_env env U (PrimaryPtr a) E) t W)"
  obtain w where w: "W = Return w" "op_inv env a k n (Some t) w" using q by auto
  have live: "task_live (Some t)" using q by (simp add: block_running_live)
  obtain ob where ob: "op_alive env a k (n + 1) w ob" "at_status (inner ob) = as_raw Started"
    using op_inv_alive [OF w(2)] live by (auto simp: op_state_ok_def)
  have n: "n < refcount_cap (env_build env)" using w(2) by (simp add: op_inv_def)
  obtain c where c: "wf_cancellable c" "state c = RunningMain"
    "(r, t', W') \<in> set_activity (op_block_resume env U (PrimaryPtr a) c w)"
    using q x w(1)
    by (cases t) (auto simp: block_env_def op_block_poll_def, metis try_finally_running)
  show "op_contract env a k n (if r = Pending then Idle t' else Finished t') W'"
    by (rule op_resume_results [OF assms c(1,2) ob(1) n ob(2) c(3)])
next
  fix t W W'
  assume q: "op_contract env a k n (Idle t) W \<or> op_contract env a k n (Finished t) W"
    and x: "W' \<in> set_activity (x_drop (block_env env U (PrimaryPtr a) E) t W)"
  obtain w where w: "W = Return w" "op_inv env a k n (Some t) w" using q by auto
  show "op_contract env a k n (Gone :: 'g async_task future_state) W'"
  proof (cases t)
    case (Awaiting c)
    then have c: "wf_cancellable c" using w(2) by (simp add: op_inv_def task_ok_def)
    obtain y where y: "y \<in> set_activity (kernel_cancellable_drop U c w)"
      "W' = and_then y (task_guard_drop env (PrimaryPtr a))"
      using x w(1) Awaiting by (auto simp: block_env_def op_block_drop_def)
    obtain w1 where w1: "y = Return w1" "keeps_object a w w1" by (rule kernel_drop_results [OF assms c y(1)])
    obtain ob where ob: "op_alive env a k (n + 1) w ob" "at_status (inner ob) = as_raw Started"
      using op_inv_alive [OF w(2)] Awaiting by (auto simp: op_state_ok_def)
    have "op_alive env a k (n + 1) w1 ob" using op_alive_keeps [OF ob(1) w1(2)] .
    moreover have "op_state_ok (None :: 'g async_task option) (inner ob)" using ob(2) by (simp add: op_state_ok_def)
    ultimately show ?thesis
      using op_release_ok [of env a k n w1 ob "None :: 'g async_task option" n] w(2) y(2) w1(1)
      by (auto simp: op_inv_def task_guard_drop_def task_ok_def)
  qed (use q x w in \<open>auto simp: block_env_def op_block_drop_def op_inv_def task_ok_def op_state_ok_def Let_def\<close>)
qed simp

section \<open>Reachable states\<close>

text \<open>
  An operation is spawned; then, in any order, holders of wakers and handles act, the kernel runs
  the queued DPC, the driver changes the statics, and clients take and give back references to the
  object. The second component of a state counts the references of clients.
\<close>

inductive dpc_op_reach ::
  "('v, 'x) op_env \<Rightarrow> ('g, 'v, ('v, 'x) op_world) kernel_future \<Rightarrow> ('g, 'v, 'x, 'e, 'q) op_dpc_env
    \<Rightarrow> addr \<Rightarrow> ('g, 'v, 'x, 'e, 'q) op_executor \<Rightarrow> ('g, 'v, 'x, 'e, 'q) op_executor \<Rightarrow> nat \<Rightarrow> bool"
  for env U E a s0 where
  op_started: "kernel_spawn_raw_cancellable env U E c future s0 = Return (Inr (PrimaryPtr a, h), s)
    \<Longrightarrow> dpc_op_reach env U E a s0 s 1"
| op_detached: "kernel_spawn_raw env U E c future s0 = Return (Inr (PrimaryPtr a), s)
    \<Longrightarrow> dpc_op_reach env U E a s0 s 1"
| op_acted: "dpc_op_reach env U E a s0 s n \<Longrightarrow> \<not> rc_polling c
    \<Longrightarrow> run_op (block_env env U (PrimaryPtr a) E) c p s = Return (b, s') \<Longrightarrow> dpc_op_reach env U E a s0 s' n"
| op_ran: "dpc_op_reach env U E a s0 s n \<Longrightarrow> the_task s = Some t \<Longrightarrow> dpc_queued (x_dpc E) (th_dpc t)
    \<Longrightarrow> dpc_arrive m (block_env env U (PrimaryPtr a) E) processor s = Some (Return s')
    \<Longrightarrow> dpc_op_reach env U E a s0 s' n"
| op_budgeted: "dpc_op_reach env U E a s0 s n \<Longrightarrow> dpc_op_reach env U E a s0 (set_task_budget budget s) n"
| op_tagged: "dpc_op_reach env U E a s0 s n \<Longrightarrow> dpc_op_reach env U E a s0 (set_task_alloc_tag tg s) n"
| op_client_added: "dpc_op_reach env U E a s0 s n \<Longrightarrow> 0 < n \<Longrightarrow> n + 2 \<le> refcount_cap (env_build env)
    \<Longrightarrow> future_world s = Return w \<Longrightarrow> call_AddRef env (PrimaryPtr a) w = Return (r, w')
    \<Longrightarrow> dpc_op_reach env U E a s0 (s\<lparr>future_world := Return w'\<rparr>) (n + 1)"
| op_client_released: "dpc_op_reach env U E a s0 s n \<Longrightarrow> 0 < n
    \<Longrightarrow> future_world s = Return w \<Longrightarrow> call_Release env (PrimaryPtr a) w = Return (r, w')
    \<Longrightarrow> dpc_op_reach env U E a s0 (s\<lparr>future_world := Return w'\<rparr>) (n - 1)"

text \<open>What the executor and the operation keep.\<close>

definition dpc_op_inv ::
  "('v, 'x) op_env \<Rightarrow> ('g, 'v, ('v, 'x) op_world) kernel_future \<Rightarrow> ('g, 'v, 'x, 'e, 'q) op_dpc_env
    \<Rightarrow> ledger \<Rightarrow> addr \<Rightarrow> nat \<Rightarrow> ('g, 'v, 'x, 'e, 'q) op_executor \<Rightarrow> nat \<Rightarrow> bool" where
  "dpc_op_inv env U E L a k s n \<longleftrightarrow>
     account (block_env env U (PrimaryPtr a) E) L 0 None s \<and> sched_ok (block_env env U (PrimaryPtr a) E) s
     \<and> op_contract env a k n (held E s) (future_world s)"

lemma block_env_simps [simp]:
  "x_dpc (block_env env U ptr E) = x_dpc E" "dpc_env_ok (block_env env U ptr E) = dpc_env_ok E"
  "fresh_executor (block_env env U ptr E) L s = fresh_executor E L s"
  "held (block_env env U ptr E) s = held E s"
  by (simp_all add: block_env_def dpc_env_ok_def fresh_executor_def held_def split: option.split manually_drop.split)

lemma fresh_world [simp]: "fresh_executor E L (s\<lparr>future_world := w\<rparr>) = fresh_executor E L s"
  by (simp add: fresh_executor_def)

lemma op_keeps_contract:
  assumes "kernel_neutral a U" and "keeps (block_env env U (PrimaryPtr a) E) s s'"
    and "op_contract env a k n (held E s) (future_world s)"
  shows "op_contract env a k n (held E s') (future_world s')"
  using honoursD [OF keeps_honours [OF assms(2)] op_block_contract [OF assms(1), of env E k n]] assms(3) by simp

lemma op_serves_contract:
  assumes "kernel_neutral a U" and "serves (block_env env U (PrimaryPtr a) E) s s'"
    and "op_contract env a k n (held E s) (future_world s)"
  shows "op_contract env a k n (held E s') (future_world s')"
  using servesD [OF assms(2) op_block_contract [OF assms(1), of env E k n]]
    contract_due [OF op_block_contract [OF assms(1), of env E k n] assms(3)] by simp

text \<open>Both spawn functions, when they succeed and when they do not.\<close>

lemma kernel_spawn_ok:
  assumes "dpc_env_ok E" and "fresh_executor E L s0" and "l_tracker L = null" and "op_env_ok env a"
    and "kernel_neutral a U" and "future_world s0 = Return w0" and "Wrapper.drops a w0 = deallocs a w0"
    and "kernel_spawn_raw_cancellable env U E c future s0 = Return (Inr (PrimaryPtr a, h), s)"
  shows "dpc_op_inv env U E L a (Wrapper.drops a w0) s 1 \<and> handles s = 1 \<and> handle_task h = task_ptr s"
proof -
  let ?E = "block_env env U (PrimaryPtr a) E"
  have cap: "1 < refcount_cap (env_build env)" by (simp add: refcount_cap_def)
  obtain p w1 where w1: "com_object_new env new_state w0 = (Inr p, w1)"
    using assms(6,8)
    by (cases "com_object_new env new_state w0"; cases "fst (com_object_new env new_state w0)")
      (auto simp: kernel_spawn_raw_cancellable_def outcome_simps)
  then obtain r w2 x s1 where w2: "shim_add_ref env p w1 = Return (r, w2)"
    and sp: "spawn_dpc_task_cancellable (block_env env U p E) c (Unresumed future) (s0\<lparr>future_world := Return w2\<rparr>)
      = Return (x, s1)"
    and x: "(case x of
        Inr handle \<Rightarrow> Return (Inr (p, handle), s1)
      | Inl status \<Rightarrow>
          and_then (future_world s1) (\<lambda>w3.
          and_then (shim_release env p w3) (\<lambda>(r1, w4).
          and_then (shim_release env p w4) (\<lambda>(r2, w5).
            Return (Inl status, s1\<lparr>future_world := Return w5\<rparr>))))) = Return (Inr (PrimaryPtr a, h), s)"
    using assms(6,8)
    by (auto simp: kernel_spawn_raw_cancellable_def guard_ptr_new_def guard_ptr_as_ptr_def outcome_simps
        split: if_splits)
  have p: "p = PrimaryPtr a" "x = Inr h" "s1 = s" using x by (cases x; auto simp: outcome_simps)+
  note w = w1 [unfolded p(1)] w2 [unfolded p(1)] and sp = sp [unfolded p]
  have "op_inv env a (Wrapper.drops a w0) 1 (Some (Unresumed future)) w2"
    using op_spawned_inv [OF assms(4,7) w] .
  moreover have "spawned_ok ?E L 1 (Unresumed future) (Return w2) s \<and> handle_task h = task_ptr s"
    using spawn_cancellable_ok [of ?E L "s0\<lparr>future_world := Return w2\<rparr>" c "Unresumed future"] assms(1-3) sp
    by (auto simp: spawn_dpc_task_cancellable_def)
  ultimately show ?thesis by (auto simp: spawned_ok_def dpc_op_inv_def)
qed

lemma kernel_spawn_detached_ok:
  assumes "dpc_env_ok E" and "fresh_executor E L s0" and "l_tracker L = null" and "op_env_ok env a"
    and "kernel_neutral a U" and "future_world s0 = Return w0" and "Wrapper.drops a w0 = deallocs a w0"
    and "kernel_spawn_raw env U E c future s0 = Return (Inr (PrimaryPtr a), s)"
  shows "dpc_op_inv env U E L a (Wrapper.drops a w0) s 1"
proof -
  let ?E = "block_env env U (PrimaryPtr a) E"
  obtain h s1 h' where s1: "kernel_spawn_raw_cancellable env U E c future s0 = Return (Inr (PrimaryPtr a, h), s1)"
    "cancel_handle_drop ?E c h (s1\<lparr>handles := handles s1 - 1\<rparr>) = Return (h', s)"
  proof -
    obtain x s1 where x: "kernel_spawn_raw_cancellable env U E c future s0 = Return (x, s1)"
      using assms(8) by (auto simp: kernel_spawn_raw_def outcome_simps)
    then show thesis using assms(8) that by (cases x) (auto simp: kernel_spawn_raw_def outcome_simps)
  qed
  have i: "account ?E L 0 None s1" "sched_ok ?E s1" "op_contract env a (Wrapper.drops a w0) 1 (held E s1) (future_world s1)"
    "handles s1 = 1"
    using kernel_spawn_ok [OF assms(1-7) s1(1)] by (auto simp: dpc_op_inv_def)
  let ?s = "s1\<lparr>handles := handles s1 - 1\<rparr>"
  have a: "account ?E L (Suc 0) None ?s" "sched_ok ?E ?s" "handle_task h \<noteq> null"
    using account_lend(2) [OF i(1)] i kernel_spawn_ok [OF assms(1-7) s1(1)] by (simp_all add: account_def)
  obtain s2 where s2: "th_release ?E c ?s = Return s2" "account ?E L 0 None s2" "sched_ok ?E s2" "keeps ?E ?s s2"
    using release_ok [of ?E L 0 None ?s c] a(1,2) assms(1) by auto
  have "op_contract env a (Wrapper.drops a w0) 1 (held E s2) (future_world s2)"
    using op_keeps_contract [OF assms(5) s2(4)] i(3) by (simp add: held_def)
  then show ?thesis using s1(2) s2 a(3) by (simp add: cancel_handle_drop_def Let_def dpc_op_inv_def)
qed

lemma op_contract_client:
  assumes "op_contract env a k n x (Return w)"
    and "\<And>t :: 'g async_task option. op_inv env a k n t w \<Longrightarrow> op_inv env a k m t w'"
  shows "op_contract env a k m (x :: 'g async_task future_state) (Return w')"
  using assms by (cases x) auto

lemma held_simps [simp]:
  "held E (s\<lparr>future_world := w\<rparr>) = held E s" "held E (set_task_budget budget s) = held E s"
  "held E (set_task_alloc_tag tg s) = held E s" "future_world (set_task_budget budget s) = future_world s"
  "future_world (set_task_alloc_tag tg s) = future_world s"
  by (cases budget; simp add: held_def set_task_budget_def set_task_alloc_tag_def)+

lemma dpc_op_reach_inv:
  fixes U :: "('g, 'v, ('v, 'x) op_world) kernel_future"
  assumes "dpc_env_ok E" and "fresh_executor E L s0" and "l_tracker L = null" and "op_env_ok env a"
    and "kernel_neutral a U" and "future_world s0 = Return w0" and "Wrapper.drops a w0 = deallocs a w0"
    and "dpc_op_reach env U E a s0 s n"
  shows "dpc_op_inv env U E L a (Wrapper.drops a w0) s n"
  using assms(8)
proof (induction rule: dpc_op_reach.induct)
  case (op_started c future h s)
  then show ?case using kernel_spawn_ok [OF assms(1-7)] by blast
next
  case (op_detached c future s)
  then show ?case using kernel_spawn_detached_ok [OF assms(1-7)] by blast
next
  case (op_acted s n c p b s')
  then show ?case
    using run_op_ok [of "block_env env U (PrimaryPtr a) E" L 0 None s c p] assms(1) op_keeps_contract [OF assms(5)]
    by (auto simp: op_ok_def dpc_op_inv_def)
next
  case (op_ran s n t m processor s')
  then show ?case
    using dpc_arrive_ok [of "block_env env U (PrimaryPtr a) E" L s t m processor] assms(1)
      op_serves_contract [OF assms(5)]
    by (auto simp: dpc_op_inv_def)
next
  case (op_budgeted s n budget)
  then show ?case by (simp add: dpc_op_inv_def)
next
  case (op_tagged s n tg)
  then show ?case by (simp add: dpc_op_inv_def)
next
  case (op_client_added s n w r w')
  have "op_inv env a (Wrapper.drops a w0) (n + 1) t w'" if "op_inv env a (Wrapper.drops a w0) n t w"
    for t :: "'g async_task option"
    using op_client_add_ok [OF that op_client_added.hyps(2,3)] op_client_added.hyps(5) by auto
  moreover have "op_contract env a (Wrapper.drops a w0) n (held E s) (Return w)"
    using op_client_added.IH op_client_added.hyps(4) by (simp add: dpc_op_inv_def)
  ultimately have "op_contract env a (Wrapper.drops a w0) (n + 1) (held E s) (Return w')"
    using op_contract_client by blast
  then show ?case using op_client_added.IH by (simp add: dpc_op_inv_def)
next
  case (op_client_released s n w r w')
  have "op_inv env a (Wrapper.drops a w0) (n - 1) t w'" if "op_inv env a (Wrapper.drops a w0) n t w"
    for t :: "'g async_task option"
    using op_client_release_ok [OF that op_client_released.hyps(2)] op_client_released.hyps(4) by auto
  moreover have "op_contract env a (Wrapper.drops a w0) n (held E s) (Return w)"
    using op_client_released.IH op_client_released.hyps(3) by (simp add: dpc_op_inv_def)
  ultimately have "op_contract env a (Wrapper.drops a w0) (n - 1) (held E s) (Return w')"
    using op_contract_client by blast
  then show ?case using op_client_released.IH by (simp add: dpc_op_inv_def)
qed

section \<open>A concrete operation\<close>

text \<open>A future that wakes itself a number of times before it answers, on an executor like the one of
  \<open>Dpc_Properties\<close>, whose block allocator and object allocator have one block each.\<close>

definition count_future :: "'v \<Rightarrow> (nat, 'v, 'w) kernel_future" where
  "count_future v = \<lparr>
     kf_poll = (\<lambda>g w. if g = 0 then Finish (Ready v, 0, w) else Act WakeByRef (\<lambda>b. Finish (Pending, g - 1, w))),
     kf_drop = (\<lambda>g w. Finish w)\<rparr>"

definition op_nat_env :: "(nat, int, unit, bool, bool) op_dpc_env" where
  "op_nat_env = \<lparr>x_build = \<lparr>hardening = Hardened, overflow_checks = True\<rparr>,
     x_alloc_build = release_build, x_kernel = small_kernel,
     x_layout = \<lparr>layout_size = 128, layout_align = 8\<rparr>, x_event = flag_event, x_dpc = bool_dpc,
     x_frequency = 1000000, x_counter = (\<lambda>i. of_nat (100 * i)),
     x_poll = op_block_poll op_unit_env (count_future 7) (PrimaryPtr 4096),
     x_drop = op_block_drop op_unit_env (count_future 7) (PrimaryPtr 4096)\<rparr>"

definition op_nat_start :: "(nat, int, unit, bool, bool) op_executor" where
  "op_nat_start = \<lparr>task_ptr = null, the_task = None, CURRENT_TASKS = (\<lambda>i. null),
     TASK_BUDGET_MODE = TASK_BUDGET_MODE_POLLS, TASK_BUDGET_POLLS = DEFAULT_TASK_BUDGET_POLLS,
     TASK_BUDGET_TIME_US = DEFAULT_TASK_BUDGET_TIME_US, DEFAULT_TASK_TAG = KCOM_TAG,
     trackers = (\<lambda>a. tracker_new flag_event), memory = small_memory, future_world = Return op_empty_world,
     queries = 0, wakers = 0, handles = 0, polls = 0, drops = 0, frees = 0\<rparr>"

definition op_nat_ledger :: ledger where
  "op_nat_ledger = \<lparr>l_tracker = null, l_pending = 0, l_blocks = Map.empty\<rparr>"

lemma count_neutral: "kernel_neutral a (count_future v)"
  by (auto simp: kernel_neutral_def count_future_def split: if_splits)

lemma op_nat_env_ok: "dpc_env_ok op_nat_env"
  unfolding dpc_env_ok_def op_nat_env_def dpc_contract_def bool_dpc_def valid_layout_def
  by (auto intro!: bexI [of _ 3])

lemma op_nat_block: "block_env op_unit_env (count_future 7) (PrimaryPtr 4096) op_nat_env = op_nat_env"
  by (simp add: block_env_def op_nat_env_def)

lemma op_nat_fresh: "fresh_executor op_nat_env op_nat_ledger op_nat_start"
  using small_held [of debug_build "\<lparr>pool = NonPagedNx, tag = 0\<rparr>"]
  by (simp add: fresh_executor_def op_nat_env_def op_nat_start_def op_nat_ledger_def wdk_held_def
      small_memory_def)

lemma op_nat_world: "future_world op_nat_start = Return op_empty_world"
  "Wrapper.drops 4096 op_empty_world = deallocs 4096 op_empty_world"
  by (simp_all add: op_nat_start_def op_empty_world_def Wrapper.drops_def deallocs_def)

text \<open>The state after the spawn.\<close>

definition op_nat_task :: "nat \<Rightarrow> (nat async_task, bool) DpcTask" where
  "op_nat_task n = \<lparr>th_ref_count = 2, th_scheduled = 1, th_completed = 0, th_cancel_requested = 0,
     th_dpc = True, th_alloc_tag = KCOM_TAG, th_tracker = null, task_future = Holding (Unresumed n)\<rparr>"

definition op_nat_spawned ::
  "nat \<Rightarrow> (int, unit) op_world \<Rightarrow> (nat, int, unit, bool, bool) op_executor" where
  "op_nat_spawned n w = op_nat_start\<lparr>task_ptr := 65536, the_task := Some (op_nat_task n),
     memory := \<lparr>bytes = (\<lambda>x. 0), blocks = [(65536, (128, KCOM_TAG))], pool2_ptr = 4096,
       pool2_state = 2\<rparr>, future_world := Return w, handles := 1\<rparr>"

lemma op_nat_spawn:
  "\<exists>h w. kernel_spawn_raw_cancellable op_unit_env (count_future 7) op_nat_env (dpc_context cpu0) n op_nat_start
    = Return (Inr (PrimaryPtr 4096, h), op_nat_spawned n w)"
proof -
  obtain w1 w2 r where w: "com_object_new op_unit_env new_state op_empty_world = (Inr (PrimaryPtr 4096), w1)"
    "shim_add_ref op_unit_env (PrimaryPtr 4096) w1 = Return (r, w2)"
    using op_unit_spawned by blast
  have "\<exists>h. spawn_dpc_task_cancellable op_nat_env (dpc_context cpu0) (Unresumed n)
      (op_nat_start\<lparr>future_world := Return w2\<rparr>) = Return (Inr h, op_nat_spawned n w2)"
    by (simp add: alloc_eval executor_eval op_nat_env_def op_nat_start_def spawn_dpc_task_cancellable_def cancel_handle_new_def
        op_nat_spawned_def op_nat_task_def)
  then show ?thesis
    using w by (auto simp: kernel_spawn_raw_cancellable_def op_nat_world guard_ptr_new_def guard_ptr_as_ptr_def
        op_nat_block)
qed

lemma op_nat_reach:
  obtains w where "dpc_op_reach op_unit_env (count_future 7) op_nat_env 4096 op_nat_start (op_nat_spawned n w) 1"
  using op_nat_spawn [of n] dpc_op_reach.op_started [of op_unit_env "count_future 7" op_nat_env _ n op_nat_start 4096]
  by blast

lemma op_nat_run:
  assumes "dpc_op_reach op_unit_env (count_future 7) op_nat_env 4096 op_nat_start (op_nat_spawned n w) 1"
  obtains r where "dpc_arrive 65 op_nat_env cpu0 (op_nat_spawned n w) = Some r"
proof -
  have "account op_nat_env op_nat_ledger 0 None (op_nat_spawned n w)"
    using dpc_op_reach_inv [OF op_nat_env_ok op_nat_fresh _ op_unit_env_ok count_neutral op_nat_world assms]
    by (simp add: dpc_op_inv_def op_nat_block op_nat_ledger_def)
  then have "dpc_arrive 65 op_nat_env cpu0 (op_nat_spawned n w) \<noteq> None"
    by (intro dpc_arrive_polls_ends [OF op_nat_env_ok, of op_nat_ledger _ "op_nat_task n"])
      (simp_all add: op_nat_spawned_def op_nat_start_def op_nat_task_def op_nat_env_def bool_dpc_def
        DEFAULT_TASK_BUDGET_POLLS_def)
  then show thesis using that by blast
qed

section \<open>Properties\<close>

lemma op_contract_inv:
  assumes "op_contract env a k n (x :: 'g async_task future_state) W"
  obtains w and t :: "'g async_task option" where "W = Return w" "op_inv env a k n t w"
    "task_live t \<longleftrightarrow> (\<exists>b. x = Queued b \<or> x = Idle b)"
  using assms by (cases x) (auto simp: block_running_live)

lemma held_running:
  assumes "account E' L 0 None s"
  shows "(\<exists>b. held E s = Queued b \<or> held E s = Idle b) \<longleftrightarrow> (\<exists>t. the_task s = Some t \<and> th_completed t = 0)"
proof (cases "the_task s")
  case (Some t)
  then show ?thesis
    using account_the_task [OF assms Some] by (cases "task_future t") (auto simp: held_def live_ok_def split: if_splits)
qed (simp add: held_def)

text \<open>C2: An asynchronous operation on the DPC executor of a driver. In every state that clients, holders
  of wakers and handles, the kernel and the future can bring about, the system is in order (nothing
  touched freed memory, panicked or stopped); the object has one reference for each client and one as
  long as the task has not completed, and is dropped and freed exactly once when there are none; a
  client reads \<open>STATUS_PENDING\<close> while the task runs, and then the result, never an uninitialised one, or
  \<open>STATUS_CANCELLED\<close>, or for ever \<open>STATUS_PENDING\<close> if the task was abandoned; and whatever comes next, an
  operation of a holder, a run of the DPC, a reference taken or given back, returns.\<close>

theorem dpc_operation_protocol:
  fixes U :: "('g, 'v, ('v, 'x) op_world) kernel_future"
  assumes "dpc_env_ok E" and "fresh_executor E L s0" and "l_tracker L = null" and "op_env_ok env a"
    and "kernel_neutral a U" and "future_world s0 = Return w0" and "Wrapper.drops a w0 = deallocs a w0"
    and "dpc_op_reach env U E a s0 s n"
    and "running = (\<exists>t. the_task s = Some t \<and> th_completed t = 0)"
  shows "\<exists>w. future_world s = Return w
    \<and> (case objects w a of
          None \<Rightarrow> n = 0 \<and> \<not> running \<and> Wrapper.drops a w = Wrapper.drops a w0 + 1
            \<and> deallocs a w = deallocs a w0 + 1
        | Some ob \<Rightarrow> ref_count ob = of_nat (n + (if running then 1 else 0)) \<and> (0 < n \<or> running)
            \<and> Wrapper.drops a w = Wrapper.drops a w0)
    \<and> (0 < n \<longrightarrow> (\<exists>st v. get_status_raw (PrimaryPtr a) w = Return (Inr st) \<and> (running \<longrightarrow> st = Started)
          \<and> get_result_raw (PrimaryPtr a) w = Return (case st of
              Completed \<Rightarrow> Inr v | Started \<Rightarrow> Inl STATUS_PENDING | _ \<Rightarrow> Inl STATUS_CANCELLED))
        \<and> returns (call_Release env (PrimaryPtr a) w)
        \<and> (n + 2 \<le> refcount_cap (env_build env) \<longrightarrow> returns (call_AddRef env (PrimaryPtr a) w)))
    \<and> (\<forall>c p. \<not> rc_polling c \<longrightarrow> returns (run_op (block_env env U (PrimaryPtr a) E) c p s))
    \<and> (\<forall>t m processor r. the_task s = Some t \<longrightarrow> dpc_queued (x_dpc E) (th_dpc t) \<longrightarrow>
          dpc_arrive m (block_env env U (PrimaryPtr a) E) processor s = Some r \<longrightarrow> returns r)"
proof -
  let ?E = "block_env env U (PrimaryPtr a) E" and ?k = "Wrapper.drops a w0"
  have inv: "account ?E L 0 None s" "sched_ok ?E s" "op_contract env a ?k n (held E s) (future_world s)"
    using dpc_op_reach_inv [OF assms(1-8)] by (simp_all add: dpc_op_inv_def)
  obtain w and t :: "'g async_task option" where w: "future_world s = Return w" "op_inv env a ?k n t w"
    "task_live t \<longleftrightarrow> (\<exists>b. held E s = Queued b \<or> held E s = Idle b)"
    by (rule op_contract_inv [OF inv(3)])
  note w(3) [unfolded held_running [OF inv(1)] assms(9) [symmetric]]
  note w = w(1,2) this
  have "case objects w a of
        None \<Rightarrow> n = 0 \<and> \<not> running \<and> Wrapper.drops a w = ?k + 1 \<and> deallocs a w = deallocs a w0 + 1
      | Some ob \<Rightarrow> ref_count ob = of_nat (n + (if running then 1 else 0)) \<and> (0 < n \<or> running)
          \<and> Wrapper.drops a w = ?k"
    using w(2,3) assms(7) by (auto simp: op_inv_def op_alive_def alive_with_def dead_after_def Let_def
        split: if_splits)
  moreover have "(\<exists>st v. get_status_raw (PrimaryPtr a) w = Return (Inr st) \<and> (running \<longrightarrow> st = Started)
        \<and> get_result_raw (PrimaryPtr a) w = Return (case st of
            Completed \<Rightarrow> Inr v | Started \<Rightarrow> Inl STATUS_PENDING | _ \<Rightarrow> Inl STATUS_CANCELLED))
      \<and> returns (call_Release env (PrimaryPtr a) w)
      \<and> (n + 2 \<le> refcount_cap (env_build env) \<longrightarrow> returns (call_AddRef env (PrimaryPtr a) w))" if n: "0 < n"
  proof -
    let ?l = "if task_live t then 1 else 0"
    obtain ob where ob: "op_alive env a ?k (n + ?l) w ob" "op_state_ok t (inner ob)"
      using op_inv_alive [OF w(2)] n by blast
    have "running \<longrightarrow> load_status (inner ob) = Started"
      using ob(2) w(3) by (auto simp: op_state_ok_def load_status_def async_status_from_raw_def)
    moreover have "returns (call_Release env (PrimaryPtr a) w)"
      using op_client_release_ok [OF w(2) n] by (auto simp: returns_iff)
    moreover have "returns (call_AddRef env (PrimaryPtr a) w)" if "n + 2 \<le> refcount_cap (env_build env)"
      using op_client_add_ok [OF w(2) n that] by (auto simp: returns_iff)
    ultimately show ?thesis using op_answers(1) [OF ob(1)] op_answers(2) [OF ob(1,2)] by auto
  qed
  moreover have "returns (run_op ?E c p s)" if "\<not> rc_polling c" for c p
    using run_op_ok [of ?E L 0 None s c p] inv(1,2) assms(1) that by (auto simp: op_ok_def)
  moreover have "returns r" if "the_task s = Some t" "dpc_queued (x_dpc E) (th_dpc t)"
      "dpc_arrive m ?E processor s = Some r" for t m processor r
    using dpc_arrive_ok [of ?E L s t m processor r] inv(1) assms(1) that by auto
  ultimately show ?thesis using w(1) by blast
qed

theorem dpc_operation_protocol_witness:
  "\<exists>w. dpc_op_reach op_unit_env (count_future 7) op_nat_env 4096 op_nat_start (op_nat_spawned 2 w) 1
    \<and> get_result_raw (PrimaryPtr 4096) w = Return (Inl STATUS_PENDING)"
proof -
  obtain w where w: "dpc_op_reach op_unit_env (count_future 7) op_nat_env 4096 op_nat_start (op_nat_spawned 2 w) 1"
    by (rule op_nat_reach)
  have l: "l_tracker op_nat_ledger = null" by (simp add: op_nat_ledger_def)
  show ?thesis
    using dpc_operation_protocol [OF op_nat_env_ok op_nat_fresh l op_unit_env_ok count_neutral op_nat_world w refl] w
    by (auto simp: op_nat_spawned_def op_nat_task_def)
qed

text \<open>What a run publishes. The contract: once the block has returned, the world stays as it is.\<close>

definition published :: "('w \<Rightarrow> bool) \<Rightarrow> 'g async_task future_state \<Rightarrow> 'w outcome \<Rightarrow> bool" where
  "published P x W \<longleftrightarrow> (x = Finished async_task.Returned \<or> x = Gone) \<and> (\<exists>w. W = Return w \<and> P w)"

lemma published_contract: "future_contract (block_env env U ptr E) (published P)"
  by (auto simp: future_contract_def published_def block_env_def op_block_drop_def)

lemma run_activity_results: "run_activity E c a s = Return (r, s') \<Longrightarrow> r \<in> set_activity a"
  by (induction a arbitrary: s) (fastforce simp: outcome_simps)+

lemma take_answer:
  assumes "account E L own (current_cpu_index processor) s" and "the_task s = Some t"
    and "run_op E (dpc_context processor\<lparr>rc_polling := True\<rparr>) TakeCancelled s = Return (b, s')"
  shows "b \<longleftrightarrow> current_cpu_index processor \<noteq> None \<and> th_cancel_requested t = 1"
proof (cases "current_cpu_index processor")
  case (Some i)
  then show ?thesis
    using assms current_cpu_bound [OF Some]
    by (auto simp: run_op_def permitted_def take_cancellation_request_def current_task_header_def account_def
        with_task_Some split: if_splits)
qed (use assms(3) in \<open>auto simp: run_op_def permitted_def take_cancellation_request_def current_task_header_def\<close>)

lemma kernel_poll_answers:
  assumes "kernel_neutral a U" and "wf_cancellable c" and "state c = RunningMain" and "main c = Live g"
  shows "\<exists>k. kernel_cancellable_poll U c w = Act TakeCancelled k
    \<and> (\<forall>x. x \<in> set_activity (k True) \<longrightarrow> (\<exists>c1 w1. x = Return (Ready None, c1, w1) \<and> keeps_object a w w1))
    \<and> (\<forall>x v. x \<in> set_activity (k False) \<longrightarrow>
         (\<forall>q g' w'. (q, g', w') \<in> set_activity (kf_poll U g w) \<longrightarrow> q = Ready v) \<longrightarrow>
         (\<exists>c1 w1. x = Return (Ready (Some v), c1, w1) \<and> keeps_object a w w1))"
proof -
  obtain u where u: "cleanup c = Live u"
    using assms(2,3) by (cases "cleanup c") (auto simp: wf_cancellable_def)
  obtain k where k: "kernel_cancellable_poll U c w = Act TakeCancelled k"
    using assms(3) by (simp add: kernel_cancellable_poll_def)
  have 1: "\<exists>c1 w1. x = Return (Ready None, c1, w1) \<and> keeps_object a w w1" if "x \<in> set_activity (k True)" for x
    using k that assms(1,3,4) u
    by (auto simp: kernel_cancellable_poll_def kernel_cleanup_poll_def kernel_neutral_def)
  have 2: "\<exists>c1 w1. x = Return (Ready (Some v), c1, w1) \<and> keeps_object a w w1"
    if "x \<in> set_activity (k False)" "\<forall>q g' w'. (q, g', w') \<in> set_activity (kf_poll U g w) \<longrightarrow> q = Ready v" for x v
  proof -
    have "x \<in> set_activity (act_bind (kf_poll U g w) (\<lambda>(r, m1, w1).
        case r of
          Ready value \<Rightarrow> act_bind (kf_drop U m1 w1) (\<lambda>w2.
            case cleanup c of Dropped \<Rightarrow> Finish Undefined
            | Live u \<Rightarrow> Finish (Return (Ready (Some value),
                c\<lparr>main := Dropped, cleanup := Dropped, state := Done\<rparr>, w2)))
        | Pending \<Rightarrow> Finish (Return (Pending, c\<lparr>main := Live m1\<rparr>, w1))))"
      using k that(1) assms(3,4) by (auto simp: kernel_cancellable_poll_def)
    then obtain q g1 w1 where q: "(q, g1, w1) \<in> set_activity (kf_poll U g w)"
      "x \<in> set_activity (case q of
          Ready value \<Rightarrow> act_bind (kf_drop U g1 w1) (\<lambda>w2.
            case cleanup c of Dropped \<Rightarrow> Finish Undefined
            | Live u \<Rightarrow> Finish (Return (Ready (Some value),
                c\<lparr>main := Dropped, cleanup := Dropped, state := Done\<rparr>, w2)))
        | Pending \<Rightarrow> Finish (Return (Pending, c\<lparr>main := Live g1\<rparr>, w1)))"
      by auto
    then have "q = Ready v" "keeps_object a w w1" using that(2) assms(1) by (auto simp: kernel_neutral_def)
    then show ?thesis using q(2) assms(1) u keeps_object_trans by (fastforce simp: kernel_neutral_def)
  qed
  show ?thesis using k 1 2 by blast
qed

abbreviation status_of :: "'v option \<Rightarrow> AsyncStatus" where
  "status_of out \<equiv> (case out of None \<Rightarrow> Canceled | Some x \<Rightarrow> Completed)"

abbreviation answer_of :: "'v option \<Rightarrow> NTSTATUS + 'v" where
  "answer_of out \<equiv> (case out of None \<Rightarrow> Inl STATUS_CANCELLED | Some x \<Rightarrow> Inr x)"

abbreviation reads_as :: "com_ptr \<Rightarrow> 'v option \<Rightarrow> ('v, 'x) op_world \<Rightarrow> bool" where
  "reads_as ptr out w \<equiv> get_status_raw ptr w = Return (Inr (status_of out))
     \<and> get_result_raw ptr w = Return (answer_of out)"

abbreviation op_store :: "'v option \<Rightarrow> 'v AsyncOperationTask \<Rightarrow> 'v AsyncOperationTask" where
  "op_store out \<equiv> (case out of Some value \<Rightarrow> store_result value | None \<Rightarrow> store_canceled)"

lemma op_publish_reads:
  assumes "op_alive env a k (n + 1) w ob" and "n < refcount_cap (env_build env)" and "0 < n"
  shows "\<exists>w'. and_then (op_update (PrimaryPtr a) (op_store out) w) (task_guard_drop env (PrimaryPtr a)) = Return w'
    \<and> reads_as (PrimaryPtr a) out w'"
proof -
  obtain w' ob' where w': "and_then (op_update (PrimaryPtr a) (op_store out) w)
      (task_guard_drop env (PrimaryPtr a)) = Return w'"
    "op_inv env a k n (Some (async_task.Returned :: 'g async_task)) w'" "objects w' a = Some ob'"
    "inner ob' = op_store out (inner ob)"
    using op_publish_ok [OF assms(1,2) refl, of out] assms(3) by blast
  have "op_alive env a k n w' ob'" "op_state_ok (Some (async_task.Returned :: 'g async_task)) (inner ob')"
    using op_inv_alive [OF w'(2)] assms(3) w'(3) by (auto simp: op_alive_def)
  from op_answers(1) [OF this(1)] op_answers(2) [OF this] show ?thesis
    using w'(1,4) by (auto simp: load_status_def store_result_def store_canceled_def async_status_from_raw_def
        split: option.splits)
qed

text \<open>A poll of the block asks for the cancellation once and then goes on as the answer says.\<close>

lemma block_resume_run:
  assumes "kernel_neutral a U" and c: "wf_cancellable c" "state c = RunningMain" "main c = Live g"
    and "run_activity E x (op_block_resume env U ptr c w) s = Return (r, s')"
    and ans: "\<And>b s1. run_op E x TakeCancelled s = Return (b, s1) \<Longrightarrow> if b then out = None
      else out = Some v \<and> (\<forall>q g' w'. (q, g', w') \<in> set_activity (kf_poll U g w) \<longrightarrow> q = Ready v)"
  shows "\<exists>w1. keeps_object a w w1 \<and> r = (Ready STATUS_SUCCESS, async_task.Returned,
    and_then (op_update ptr (op_store out) w1) (task_guard_drop env ptr))"
proof -
  from kernel_poll_answers [OF assms(1) c, of w]
  obtain k where k: "kernel_cancellable_poll U c w = Act TakeCancelled k"
    "\<And>x. x \<in> set_activity (k True) \<Longrightarrow> \<exists>c1 w1. x = Return (Ready None, c1, w1) \<and> keeps_object a w w1"
    "\<And>x v. x \<in> set_activity (k False) \<Longrightarrow> \<forall>q g' w'. (q, g', w') \<in> set_activity (kf_poll U g w) \<longrightarrow> q = Ready v
      \<Longrightarrow> \<exists>c1 w1. x = Return (Ready (Some v), c1, w1) \<and> keeps_object a w w1"
    by blast
  then obtain b s1 y where y: "run_op E x TakeCancelled s = Return (b, s1)" "y \<in> set_activity (k b)"
    "r \<in> set_activity (case y of
       Return (q, c1, w1) \<Rightarrow>
         (case q of
            Ready result \<Rightarrow>
              Finish (Ready STATUS_SUCCESS, async_task.Returned,
                and_then (op_update ptr (op_store result) w1) (task_guard_drop env ptr))
          | Pending \<Rightarrow> Finish (Pending, Awaiting c1, Return w1))
     | _ \<Rightarrow> Finish (Pending, Awaiting c, and_then y (\<lambda>(r, c1, w1). Return w1)))"
    using assms(5) by (auto simp: op_block_resume_def outcome_simps dest!: run_activity_results)
  have "\<exists>c1 w1. y = Return (Ready out, c1, w1) \<and> keeps_object a w w1"
    using k(2) [of y] k(3) [of y v] y(2) ans [OF y(1)] by (cases b) auto
  then show ?thesis using y(3) by auto
qed

text \<open>C10: What a run of the DPC publishes. If the operation was cancelled and the task has not taken the
  request yet, the next run drops the future and publishes \<open>Canceled\<close>, on every processor that has an
  entry in the table of current tasks. If it was not, and the future answers \<open>v\<close> to its next poll, the
  next run publishes \<open>Completed\<close> with the result \<open>v\<close>. Either way the task is completed, and the clients,
  now the only holders, read it.\<close>

theorem dpc_run_publishes:
  fixes U :: "('g, 'v, ('v, 'x) op_world) kernel_future"
  assumes "dpc_env_ok E" and "fresh_executor E L s0" and "l_tracker L = null" and "op_env_ok env a"
    and "kernel_neutral a U" and "future_world s0 = Return w0" and "Wrapper.drops a w0 = deallocs a w0"
    and "dpc_op_reach env U E a s0 s n" and "0 < n"
    and "the_task s = Some t" and "th_completed t = 0" and "dpc_queued (x_dpc E) (th_dpc t)"
    and "task_future t = Holding b" and "main (case b of Unresumed f \<Rightarrow> try_finally f () | Awaiting c \<Rightarrow> c) = Live g"
    and "future_world s = Return w"
    and "dpc_arrive m (block_env env U (PrimaryPtr a) E) processor s = Some r"
    and "if current_cpu_index processor \<noteq> None \<and> th_cancel_requested t = 1
      then out = None
      else out = Some v \<and> (\<forall>q g' w'. (q, g', w') \<in> set_activity (kf_poll U g w) \<longrightarrow> q = Ready v)"
  shows "\<exists>s' w'. r = Return s' \<and> future_world s' = Return w'
    \<and> (\<forall>t'. the_task s' = Some t' \<longrightarrow> th_completed t' \<noteq> 0)
    \<and> get_status_raw (PrimaryPtr a) w' = Return (Inr (case out of None \<Rightarrow> Canceled | Some x \<Rightarrow> Completed))
    \<and> get_result_raw (PrimaryPtr a) w' = Return (case out of None \<Rightarrow> Inl STATUS_CANCELLED | Some x \<Rightarrow> Inr x)"
proof -
  let ?E = "block_env env U (PrimaryPtr a) E" and ?k = "Wrapper.drops a w0" and ?p = "PrimaryPtr a"
    and ?c = "dpc_context processor\<lparr>rc_polling := True\<rparr>"
  define c where "c = (case b of Unresumed f \<Rightarrow> try_finally f () | Awaiting c \<Rightarrow> c)"
  have inv: "account ?E L 0 None s" "op_contract env a ?k n (Queued b) (Return w)"
    using dpc_op_reach_inv [OF assms(1-8)] assms(10,12,13,15) by (simp_all add: dpc_op_inv_def held_def)
  obtain ob where ob: "op_alive env a ?k (n + 1) w ob"
    using inv(2) op_inv_alive [of env a ?k n "Some b" w] block_running_live [of b] by auto
  have nc: "n < refcount_cap (env_build env)" using inv(2) by (simp add: op_inv_def)
  have c: "wf_cancellable c" "state c = RunningMain" "main c = Live g"
    "op_block_poll env U ?p b (Return w) = op_block_resume env U ?p c w"
    using inv(2) assms(14) by (cases b; simp add: c_def op_block_poll_def)+
  have "\<exists>st f' w'. x = (Ready st, f', w') \<and> published (reads_as ?p out) (Finished f') w'"
    if s4: "account ?E L 2 (current_cpu_index processor) s4" "the_task s4 = Some t4"
      "th_cancel_requested t4 = th_cancel_requested t"
      "run_activity ?E ?c (x_poll ?E b (future_world s)) s4 = Return (x, s5)" for s4 t4 x s5
  proof -
    have "run_activity ?E ?c (op_block_resume env U ?p c w) s4 = Return (x, s5)"
      using s4(4) assms(15) c(4) by (simp add: block_env_def)
    moreover have "if ans then out = None
        else out = Some v \<and> (\<forall>q g' w'. (q, g', w') \<in> set_activity (kf_poll U g w) \<longrightarrow> q = Ready v)"
      if "run_op ?E ?c TakeCancelled s4 = Return (ans, s6)" for ans s6
      using take_answer [OF s4(1,2) that] s4(3) assms(17) by simp
    ultimately obtain w1 where "keeps_object a w w1" "x = (Ready STATUS_SUCCESS, async_task.Returned,
        and_then (op_update ?p (op_store out) w1) (task_guard_drop env ?p))"
      using block_resume_run [OF assms(5) c(1-3), of ?E ?c env ?p w s4 x s5 out v] by blast
    then show ?thesis
      using op_publish_reads [OF op_alive_keeps [OF ob] nc assms(9), of w1 out] by (auto simp: published_def)
  qed
  then obtain s' where s': "r = Return s'" "published (reads_as ?p out) (held ?E s') (future_world s')"
    using dpc_arrive_first_ready [of ?E L s t b m processor r "published (reads_as ?p out)"] assms(1,10-13,16) inv(1)
      published_contract [of env U ?p E "reads_as ?p out"] by auto
  have "account ?E L 0 None s'"
    using dpc_arrive_ok [of ?E L s t m processor r] inv(1) assms(1,10,12,16) s'(1) by auto
  then have "\<forall>t'. the_task s' = Some t' \<longrightarrow> th_completed t' \<noteq> 0"
    using held_running [of ?E L s' ?E] s'(2) by (auto simp: published_def)
  then show ?thesis using s' by (auto simp: published_def)
qed

theorem dpc_run_publishes_witness:
  "\<exists>w s' w'. dpc_op_reach op_unit_env (count_future 7) op_nat_env 4096 op_nat_start (op_nat_spawned 0 w) 1
    \<and> dpc_arrive 65 op_nat_env cpu0 (op_nat_spawned 0 w) = Some (Return s') \<and> future_world s' = Return w'
    \<and> get_result_raw (PrimaryPtr 4096) w' = Return (Inr 7)"
proof -
  obtain w where w: "dpc_op_reach op_unit_env (count_future 7) op_nat_env 4096 op_nat_start (op_nat_spawned 0 w) 1"
    by (rule op_nat_reach)
  obtain r where r: "dpc_arrive 65 op_nat_env cpu0 (op_nat_spawned 0 w) = Some r" by (rule op_nat_run [OF w])
  have t: "the_task (op_nat_spawned 0 w) = Some (op_nat_task 0)" "dpc_queued (x_dpc op_nat_env) (th_dpc (op_nat_task 0))"
    "future_world (op_nat_spawned 0 w) = Return w"
    by (simp_all add: op_nat_spawned_def op_nat_task_def op_nat_env_def bool_dpc_def)
  have b: "th_completed (op_nat_task 0) = 0" "th_cancel_requested (op_nat_task 0) = 0"
    "task_future (op_nat_task 0) = Holding (Unresumed 0)"
    "main (try_finally (0::nat) ()) = Live 0" "l_tracker op_nat_ledger = null"
    by (simp_all add: op_nat_task_def try_finally_def cancellable_new_def op_nat_ledger_def)
  have v: "q = Ready 7" if "(q, g', w') \<in> set_activity (kf_poll (count_future 7) 0 w)"
    for q :: "int Poll" and g' w' using that by (simp add: count_future_def)
  have "\<exists>s' w'. r = Return s' \<and> future_world s' = Return w'
    \<and> get_result_raw (PrimaryPtr 4096) w' = Return (Inr 7)"
    using dpc_run_publishes [OF op_nat_env_ok op_nat_fresh b(5) op_unit_env_ok count_neutral op_nat_world w _ t(1)
        b(1) t(2) b(3) _ t(3), of 0 65 cpu0 r "Some 7" 7] r b(2,4) v
    by (auto simp: op_nat_block)
  then show ?thesis using w r by auto
qed

end
