(* ===== verification/Descriptors.thy ===== *)
theory Descriptors
  imports Memory
begin

text \<open>
  The descriptor macros of \<open>src/descriptors.rs\<close>. The structs they fill are those of the PortCls headers,
  so that the records below have the fields the macros name, and the types the macros leave open are
  type variables: counts and sizes, cast with \<open>as _\<close>, are words of some width \<open>'c\<close>. The addresses at
  which the linker places the statics are arguments. The definitions say what an accepted expansion
  evaluates to; whether the compiler accepts it, which also depends on the initialisers being constant
  and on the element types being \<open>Sync\<close>, is not modelled. \<open>src/lib.rs\<close> does not declare the module, so
  that no build has these macros as the crate stands.
\<close>

section \<open>Statics and lists\<close>

text \<open>The length of an array of as many units as there are expressions.\<close>

definition kcom_count_exprs :: "'a list \<Rightarrow> nat" where
  "kcom_count_exprs exprs = length (map (\<lambda>expr. ()) exprs)"

text \<open>
  A \<open>static\<close> of type \<open>[T; n]\<close> with its initialiser; \<open>len\<close> is the \<open>n\<close> of the type.
\<close>

record 'a static_array =
  as_ptr :: addr
  static_len :: nat
  elements :: "'a list"

definition static_new :: "addr \<Rightarrow> nat \<Rightarrow> 'a list \<Rightarrow> 'a static_array" where
  "static_new p n xs = \<lparr>as_ptr = p, static_len = n, elements = xs\<rparr>"



section \<open>Plain structs\<close>

record ('n, 'k) PCPIN_DESCRIPTOR =
  MaxGlobalInstanceCount :: 'n
  MaxFilterInstanceCount :: 'n
  MinFilterInstanceCount :: 'n
  Pin_AutomationTable :: addr
  KsPinDescriptor :: 'k

definition pcpin_descriptor :: "'n \<Rightarrow> 'n \<Rightarrow> 'n \<Rightarrow> addr \<Rightarrow> 'k \<Rightarrow> ('n, 'k) PCPIN_DESCRIPTOR" where
  "pcpin_descriptor max_global max_filter min_filter automation kspin =
     \<lparr>MaxGlobalInstanceCount = max_global, MaxFilterInstanceCount = max_filter,
      MinFilterInstanceCount = min_filter, Pin_AutomationTable = automation, KsPinDescriptor = kspin\<rparr>"

record ('d, 'n) KSDATARANGE_AUDIO =
  DataRange :: 'd
  MaximumChannels :: 'n
  MinimumBitsPerSample :: 'n
  MaximumBitsPerSample :: 'n
  MinimumSampleFrequency :: 'n
  MaximumSampleFrequency :: 'n

text \<open>The ranges of the syntax \<open>lo ..= hi\<close> are pairs.\<close>

definition ksdatarange_audio :: "'d \<Rightarrow> 'n \<Rightarrow> 'n \<times> 'n \<Rightarrow> 'n \<times> 'n \<Rightarrow> ('d, 'n) KSDATARANGE_AUDIO" where
  "ksdatarange_audio data_range max_channels bits_per_sample sample_frequency =
     (case (bits_per_sample, sample_frequency) of ((min_bits, max_bits), (min_freq, max_freq)) \<Rightarrow>
       \<lparr>DataRange = data_range, MaximumChannels = max_channels,
        MinimumBitsPerSample = min_bits, MaximumBitsPerSample = max_bits,
        MinimumSampleFrequency = min_freq, MaximumSampleFrequency = max_freq\<rparr>)"

record ('s, 'n) KSIDENTIFIER =
  Ident_Set :: 's
  Ident_Id :: 'n
  Ident_Flags :: 'n

definition ksidentifier :: "'s \<Rightarrow> 'n \<Rightarrow> 'n \<Rightarrow> ('s, 'n) KSIDENTIFIER" where
  "ksidentifier st ident flags = \<lparr>Ident_Set = st, Ident_Id = ident, Ident_Flags = flags\<rparr>"

definition kspin_interface :: "'s \<Rightarrow> 'n \<Rightarrow> 'n \<Rightarrow> ('s, 'n) KSIDENTIFIER" where
  "kspin_interface st ident flags = ksidentifier st ident flags"

definition kspin_medium :: "'s \<Rightarrow> 'n \<Rightarrow> 'n \<Rightarrow> ('s, 'n) KSIDENTIFIER" where
  "kspin_medium st ident flags = ksidentifier st ident flags"

record ('s, 'n, 'h) PCPROPERTY_ITEM =
  Property_Set :: 's
  Property_Id :: 'n
  Property_Flags :: 'n
  Property_Handler :: 'h

definition pcproperty_item :: "'s \<Rightarrow> 'n \<Rightarrow> 'n \<Rightarrow> 'h \<Rightarrow> ('s, 'n, 'h) PCPROPERTY_ITEM" where
  "pcproperty_item st ident flags handler =
     \<lparr>Property_Set = st, Property_Id = ident, Property_Flags = flags, Property_Handler = handler\<rparr>"

record ('s, 'n, 'h) PCMETHOD_ITEM =
  Method_Set :: 's
  Method_Id :: 'n
  Method_Flags :: 'n
  Method_Handler :: 'h

definition pcmethod_item :: "'s \<Rightarrow> 'n \<Rightarrow> 'n \<Rightarrow> 'h \<Rightarrow> ('s, 'n, 'h) PCMETHOD_ITEM" where
  "pcmethod_item st ident flags handler =
     \<lparr>Method_Set = st, Method_Id = ident, Method_Flags = flags, Method_Handler = handler\<rparr>"

record ('s, 'n, 'h) PCEVENT_ITEM =
  Event_Set :: 's
  Event_Id :: 'n
  Event_Flags :: 'n
  Event_Handler :: 'h

definition pcevent_item :: "'s \<Rightarrow> 'n \<Rightarrow> 'n \<Rightarrow> 'h \<Rightarrow> ('s, 'n, 'h) PCEVENT_ITEM" where
  "pcevent_item st ident flags handler =
     \<lparr>Event_Set = st, Event_Id = ident, Event_Flags = flags, Event_Handler = handler\<rparr>"

record ('n, 'g) PCNODE_DESCRIPTOR =
  Node_Flags :: 'n
  Node_AutomationTable :: addr
  Node_Type :: 'g
  Node_Name :: 'g

definition pcnode_descriptor :: "'n \<Rightarrow> addr \<Rightarrow> 'g \<Rightarrow> 'g \<Rightarrow> ('n, 'g) PCNODE_DESCRIPTOR" where
  "pcnode_descriptor flags automation node_type node_name =
     \<lparr>Node_Flags = flags, Node_AutomationTable = automation, Node_Type = node_type, Node_Name = node_name\<rparr>"

record 'n KSTOPOLOGY_CONNECTION =
  FromNode :: 'n
  FromNodePin :: 'n
  ToNode :: 'n
  ToNodePin :: 'n

definition pcconnection_descriptor :: "'n \<Rightarrow> 'n \<Rightarrow> 'n \<Rightarrow> 'n \<Rightarrow> 'n KSTOPOLOGY_CONNECTION" where
  "pcconnection_descriptor from_node from_pin to_node to_pin =
     \<lparr>FromNode = from_node, FromNodePin = from_pin, ToNode = to_node, ToNodePin = to_pin\<rparr>"

record ('n, 'g) KSDATAFORMAT =
  FormatSize :: 'n
  Format_Flags :: 'n
  SampleSize :: 'n
  Format_Reserved :: 'n
  MajorFormat :: 'g
  SubFormat :: 'g
  Specifier :: 'g

definition ksdataformat :: "'n \<Rightarrow> 'n \<Rightarrow> 'n \<Rightarrow> 'n \<Rightarrow> 'g \<Rightarrow> 'g \<Rightarrow> 'g \<Rightarrow> ('n, 'g) KSDATAFORMAT" where
  "ksdataformat format_size flags sample_size reserved major_format sub_format specifier =
     \<lparr>FormatSize = format_size, Format_Flags = flags, SampleSize = sample_size, Format_Reserved = reserved,
      MajorFormat = major_format, SubFormat = sub_format, Specifier = specifier\<rparr>"

section \<open>Structs with lists\<close>

text \<open>An element type with its \<open>size_of\<close>, the address of its static, and the listed expressions.\<close>

record 'a listed =
  item_size :: nat
  place :: addr
  items :: "'a list"

definition listed_static :: "'a listed \<Rightarrow> 'a static_array" where
  "listed_static l = static_new (place l) (kcom_count_exprs (items l)) (items l)"









section \<open>What a reader finds\<close>

text \<open>
  The memory of a static, and the items a reader of a descriptor finds at a pointer, given the size of
  an item and a count.
\<close>

definition item_addresses :: "addr \<Rightarrow> nat \<Rightarrow> nat \<Rightarrow> addr list" where
  "item_addresses p sz n = map (\<lambda>i. p + of_nat (i * sz)) [0..<n]"




lemma item_addresses_nth: "i < n \<Longrightarrow> item_addresses p sz n ! i = p + of_nat (i * sz)"
  by (simp add: item_addresses_def)



lemma listed_static_simps [simp]:
  "as_ptr (listed_static l) = place l" "static_len (listed_static l) = length (items l)"
  "elements (listed_static l) = items l"
  by (simp_all add: listed_static_def static_new_def kcom_count_exprs_def)



section \<open>Properties\<close>





end
