(* ===== verification/Dpc_Race.thy ===== *)
theory Dpc_Race
  imports Refcount
begin

text \<open>
  A task of the DPC executor of \<open>src/executor.rs\<close> under concurrency. \<open>Dpc_Task\<close> runs operations one
  after the other; here \<open>schedule\<close>, \<open>cancel\<close>, \<open>release\<close>, \<open>queue_dpc\<close> and \<open>dpc_routine\<close> of \<open>TaskHeader\<close> are cut
  into their accesses to the atomics of the header, the queue and the future, which any number of
  threads interleave. Tags, trackers and the results of polls, which do not steer these functions, are
  left out.
\<close>

section \<open>Threads and state\<close>

text \<open>
  What a thread does when the function it is in returns: nothing, hand back the waker or the handle
  it acted through, give up its waker (\<open>wake\<close>, and the reference of a task being spawned), release as
  the spawner of a task with a handle, go on polling, end its run of the routine, drop the waker of
  the routine.
\<close>

datatype cont = Leave | KeepWaker | GiveUp | KeepHandle | Spawned | BackToPoll | EndRun | LastWaker

datatype thread_pc =
    Away
  | Cancel_cas
  | Sched_load cont | Sched_cas cont
  | Queue_add cont | Queue_insert cont
  | Release_sub cont | Release_load cont | Release_store cont | Destroy_drop cont | Destroy_free cont
  | Routine_start | Routine_check | Routine_waker
  | Poll_begin | Polling
  | Ready_store | Ready_drop
  | Pending_load | Pending_woken

record race_header =
  rh_refs :: u32
  rh_scheduled :: u32
  rh_completed :: u32
  rh_cancel_requested :: u32
  rh_queued :: bool

text \<open>
  The header until it is freed, whether the future has not been dropped, the program counters, and
  the wakers and handles that no thread is using. Three more components record what has happened:
  how often the future was dropped and the block freed, and whether there was a wake-up that no poll
  has followed.
\<close>

record race =
  r_header :: "race_header option"
  r_future :: bool
  r_pcs :: "thread_pc list"
  r_wakers :: nat
  r_handles :: nat
  r_drops :: nat
  r_frees :: nat
  r_woken :: bool

definition set_pc :: "nat \<Rightarrow> thread_pc \<Rightarrow> race \<Rightarrow> race" where
  "set_pc i p s = s\<lparr>r_pcs := (r_pcs s)[i := p]\<rparr>"

primrec resume_pc :: "cont \<Rightarrow> thread_pc" where
  "resume_pc Leave = Away"
| "resume_pc KeepWaker = Away"
| "resume_pc GiveUp = Release_sub Leave"
| "resume_pc KeepHandle = Away"
| "resume_pc Spawned = Release_sub KeepHandle"
| "resume_pc BackToPoll = Polling"
| "resume_pc EndRun = Release_sub LastWaker"
| "resume_pc LastWaker = Release_sub Leave"

definition resume :: "nat \<Rightarrow> cont \<Rightarrow> race \<Rightarrow> race" where
  "resume i c s = set_pc i (resume_pc c)
     (s\<lparr>r_wakers := r_wakers s + of_bool (c = KeepWaker), r_handles := r_handles s + of_bool (c = KeepHandle)\<rparr>)"

text \<open>A thread inside the future's \<open>poll\<close>, also while the future wakes its own task.\<close>

fun pc_cont :: "thread_pc \<Rightarrow> cont" where
  "pc_cont (Sched_load c) = c"
| "pc_cont (Sched_cas c) = c"
| "pc_cont (Queue_add c) = c"
| "pc_cont (Queue_insert c) = c"
| "pc_cont (Release_sub c) = c"
| "pc_cont (Release_load c) = c"
| "pc_cont (Release_store c) = c"
| "pc_cont (Destroy_drop c) = c"
| "pc_cont (Destroy_free c) = c"
| "pc_cont p = Leave"

definition in_poll :: "thread_pc \<Rightarrow> bool" where
  "in_poll p \<longleftrightarrow> p = Polling \<or> pc_cont p = BackToPoll"

definition polled_elsewhere :: "nat \<Rightarrow> race \<Rightarrow> bool" where
  "polled_elsewhere i s \<longleftrightarrow> (\<exists>j < length (r_pcs s). j \<noteq> i \<and> in_poll (r_pcs s ! j))"

text \<open>A thread that runs the routine, up to the release of the reference of the queue.\<close>

definition in_routine :: "thread_pc \<Rightarrow> bool" where
  "in_routine p \<longleftrightarrow>
     p \<in> {Routine_start, Routine_check, Routine_waker, Poll_begin, Polling, Ready_store, Ready_drop,
       Pending_load, Pending_woken}
     \<or> pc_cont p \<in> {BackToPoll, EndRun} \<or> p = Release_sub LastWaker"

section \<open>Steps\<close>

text \<open>An access to the header; the block must not be freed.\<close>

definition access :: "(race_header \<Rightarrow> 'r outcome) \<Rightarrow> race \<Rightarrow> 'r outcome" where
  "access f s = (case r_header s of None \<Rightarrow> Undefined | Some h \<Rightarrow> f h)"

definition put_header :: "race_header \<Rightarrow> race \<Rightarrow> race" where
  "put_header h s = s\<lparr>r_header := Some h\<rparr>"

definition add_ref_then :: "build \<Rightarrow> (race \<Rightarrow> race) \<Rightarrow> race \<Rightarrow> race outcome" where
  "add_ref_then B k s =
     access (\<lambda>h. and_then (refcount_add B (rh_refs h)) (\<lambda>(r, n). Return (k (put_header (h\<lparr>rh_refs := n\<rparr>) s)))) s"

text \<open>The future exists and no other thread polls it: its \<open>&mut\<close> is the only one.\<close>

definition sole_access :: "nat \<Rightarrow> race \<Rightarrow> race outcome \<Rightarrow> race outcome" where
  "sole_access i s r = (if \<not> r_future s \<or> polled_elsewhere i s then Undefined else r)"

definition drop_future :: "nat \<Rightarrow> thread_pc \<Rightarrow> race \<Rightarrow> race outcome" where
  "drop_future i p s =
     access (\<lambda>h. sole_access i s (Return (set_pc i p (s\<lparr>r_future := False, r_drops := r_drops s + 1\<rparr>)))) s"

text \<open>
  The decisions the code does not make: what holders do, what the future does in a poll, whether the
  budget is used up, when the kernel runs the DPC.
\<close>

datatype choice =
    Continue
  | CloneWaker | DropWaker | WakeWaker | WakeByRef | CancelTask | DropHandle
  | RunDpc
  | PollWakes | PollClones | PollReady | PollPending
  | BudgetSpent

text \<open>
  The references of clients, which a clone may raise up to \<open>2 ^ 30\<close>, more than fit in memory.
\<close>

fun cont_client :: "cont \<Rightarrow> nat" where
  "cont_client KeepWaker = 1"
| "cont_client GiveUp = 1"
| "cont_client KeepHandle = 1"
| "cont_client Spawned = 1"
| "cont_client _ = 0"

definition client_refs :: "thread_pc \<Rightarrow> nat" where
  "client_refs p = (if p = Cancel_cas then 1 else cont_client (pc_cont p))"

definition clients :: "race \<Rightarrow> nat" where
  "clients s = r_wakers s + r_handles s + sum_list (map client_refs (r_pcs s))"

text \<open>
  The next step of thread \<open>i\<close>: \<open>None\<close> when the choice does not apply. With \<open>one_run\<close> the kernel never
  runs the DPC while it runs it elsewhere.
\<close>

definition start_step :: "bool \<Rightarrow> build \<Rightarrow> nat \<Rightarrow> choice \<Rightarrow> race \<Rightarrow> race outcome option" where
  "start_step one_run B i ch s =
     (case ch of
        CloneWaker \<Rightarrow>
          if 0 < r_wakers s \<and> clients s < 2 ^ 30
          then Some (add_ref_then B (\<lambda>s1. s1\<lparr>r_wakers := r_wakers s1 + 1\<rparr>) s) else None
      | DropWaker \<Rightarrow>
          if 0 < r_wakers s then Some (Return (set_pc i (Release_sub Leave) (s\<lparr>r_wakers := r_wakers s - 1\<rparr>)))
          else None
      | WakeWaker \<Rightarrow>
          if 0 < r_wakers s then Some (Return (set_pc i (Sched_load GiveUp) (s\<lparr>r_wakers := r_wakers s - 1\<rparr>)))
          else None
      | WakeByRef \<Rightarrow>
          if 0 < r_wakers s then Some (Return (set_pc i (Sched_load KeepWaker) (s\<lparr>r_wakers := r_wakers s - 1\<rparr>)))
          else None
      | CancelTask \<Rightarrow>
          if 0 < r_handles s then Some (Return (set_pc i Cancel_cas (s\<lparr>r_handles := r_handles s - 1\<rparr>))) else None
      | DropHandle \<Rightarrow>
          if 0 < r_handles s then Some (Return (set_pc i (Release_sub Leave) (s\<lparr>r_handles := r_handles s - 1\<rparr>)))
          else None
      | RunDpc \<Rightarrow>
          (case r_header s of
             None \<Rightarrow> None
           | Some h \<Rightarrow>
               if rh_queued h \<and> (one_run \<longrightarrow> (\<forall>p \<in> set (r_pcs s). \<not> in_routine p))
               then Some (Return (set_pc i Routine_start (put_header (h\<lparr>rh_queued := False\<rparr>) s))) else None)
      | _ \<Rightarrow> None)"

definition poll_step :: "build \<Rightarrow> nat \<Rightarrow> choice \<Rightarrow> race \<Rightarrow> race outcome option" where
  "poll_step B i ch s =
     (case ch of
        PollWakes \<Rightarrow> Some (Return (set_pc i (Sched_load BackToPoll) s))
      | PollClones \<Rightarrow>
          if clients s < 2 ^ 30 then Some (add_ref_then B (\<lambda>s1. s1\<lparr>r_wakers := r_wakers s1 + 1\<rparr>) s) else None
      | PollReady \<Rightarrow> Some (Return (set_pc i Ready_store s))
      | PollPending \<Rightarrow> Some (Return (set_pc i Pending_load s))
      | _ \<Rightarrow> None)"

text \<open>
  The straight-line pieces: \<open>cancel\<close>, \<open>schedule\<close>, \<open>queue_dpc\<close>, \<open>release\<close> and those of \<open>dpc_routine\<close>. The last
  equation is for the places where there is a choice.
\<close>

fun own_step :: "build \<Rightarrow> nat \<Rightarrow> thread_pc \<Rightarrow> race \<Rightarrow> race outcome" where
  "own_step B i Cancel_cas s =
     access (\<lambda>h. Return (if rh_cancel_requested h = 0
       then set_pc i (Sched_load KeepHandle) (put_header (h\<lparr>rh_cancel_requested := 1\<rparr>) s)
       else resume i KeepHandle s)) s"
| "own_step B i (Sched_load c) s =
     access (\<lambda>h. Return (if rh_completed h \<noteq> 0 then resume i c s else set_pc i (Sched_cas c) s)) s"
| "own_step B i (Sched_cas c) s =
     access (\<lambda>h. Return (if rh_scheduled h = 0
       then set_pc i (Queue_add c) (put_header (h\<lparr>rh_scheduled := 1\<rparr>) (s\<lparr>r_woken := True\<rparr>))
       else resume i c (s\<lparr>r_woken := True\<rparr>))) s"
| "own_step B i (Queue_add c) s = add_ref_then B (set_pc i (Queue_insert c)) s"
| "own_step B i (Queue_insert c) s =
     access (\<lambda>h. Return (if rh_queued h then set_pc i (Release_sub c) s
       else resume i c (put_header (h\<lparr>rh_queued := True\<rparr>) s))) s"
| "own_step B i (Release_sub c) s =
     access (\<lambda>h. and_then (refcount_sub B (rh_refs h)) (\<lambda>(count, n).
       let s1 = put_header (h\<lparr>rh_refs := n\<rparr>) s in
       Return (if count \<noteq> 0 then resume i c s1 else set_pc i (Release_load c) s1))) s"
| "own_step B i (Release_load c) s =
     access (\<lambda>h. Return (set_pc i (if rh_completed h = 0 then Release_store c else Destroy_free c) s)) s"
| "own_step B i (Release_store c) s =
     access (\<lambda>h. Return (set_pc i (Destroy_drop c) (put_header (h\<lparr>rh_completed := 1\<rparr>) s))) s"
| "own_step B i (Destroy_drop c) s = drop_future i (Destroy_free c) s"
| "own_step B i (Destroy_free c) s =
     access (\<lambda>h. Return (resume i c (s\<lparr>r_header := None, r_frees := r_frees s + 1\<rparr>))) s"
| "own_step B i Routine_start s =
     access (\<lambda>h. Return (set_pc i Routine_check (put_header (h\<lparr>rh_scheduled := 0\<rparr>) s))) s"
| "own_step B i Routine_check s =
     access (\<lambda>h. Return (set_pc i (if rh_completed h \<noteq> 0 then Release_sub Leave else Routine_waker) s)) s"
| "own_step B i Routine_waker s = add_ref_then B (set_pc i Poll_begin) s"
| "own_step B i Poll_begin s =
     access (\<lambda>h. sole_access i s (Return (set_pc i Polling (s\<lparr>r_woken := False\<rparr>)))) s"
| "own_step B i Ready_store s =
     access (\<lambda>h. Return (set_pc i Ready_drop (put_header (h\<lparr>rh_completed := 1\<rparr>) s))) s"
| "own_step B i Ready_drop s = drop_future i (Release_sub LastWaker) s"
| "own_step B i Pending_load s =
     access (\<lambda>h. Return (if rh_scheduled h = 0 then resume i EndRun s else set_pc i Pending_woken s)) s"
| "own_step B i p s = Return s"

definition budget_step :: "nat \<Rightarrow> choice \<Rightarrow> race \<Rightarrow> race outcome option" where
  "budget_step i ch s =
     (if ch = BudgetSpent then Some (Return (set_pc i (Queue_add EndRun) s))
      else if ch = Continue then
        Some (access (\<lambda>h. Return (set_pc i Poll_begin (put_header (h\<lparr>rh_scheduled := 0\<rparr>) s))) s)
      else None)"

definition thread_step :: "bool \<Rightarrow> build \<Rightarrow> nat \<Rightarrow> choice \<Rightarrow> race \<Rightarrow> race outcome option" where
  "thread_step one_run B i ch s =
     (if i < length (r_pcs s) then
        let p = r_pcs s ! i in
        if p = Away then start_step one_run B i ch s
        else if p = Polling then poll_step B i ch s
        else if p = Pending_woken then budget_step i ch s
        else if ch = Continue then Some (own_step B i p s)
        else None
      else None)"

text \<open>
  A task as \<open>spawn_dpc_task_cancellable\<close> and \<open>spawn_dpc_task\<close> have it before they call \<open>schedule\<close>, in the
  hands of thread 0 of \<open>n + 1\<close>.
\<close>

definition race_start :: "bool \<Rightarrow> nat \<Rightarrow> race" where
  "race_start handle n = \<lparr>
     r_header = Some \<lparr>rh_refs = (if handle then 2 else 1), rh_scheduled = 0, rh_completed = 0,
       rh_cancel_requested = 0, rh_queued = False\<rparr>,
     r_future = True, r_pcs = Sched_load (if handle then Spawned else GiveUp) # replicate n Away,
     r_wakers = 0, r_handles = 0, r_drops = 0, r_frees = 0, r_woken = False\<rparr>"

inductive race_reach :: "bool \<Rightarrow> build \<Rightarrow> nat \<Rightarrow> race \<Rightarrow> bool" for one_run B n where
  race_spawned: "race_reach one_run B n (race_start handle n)"
| race_stepped: "race_reach one_run B n s \<Longrightarrow> thread_step one_run B i ch s = Some (Return s')
    \<Longrightarrow> race_reach one_run B n s'"

section \<open>Counting\<close>

text \<open>The references each thread owns.\<close>

fun cont_refs :: "cont \<Rightarrow> nat" where
  "cont_refs Leave = 0"
| "cont_refs Spawned = 2"
| "cont_refs BackToPoll = 2"
| "cont_refs EndRun = 2"
| "cont_refs _ = 1"

fun pc_refs :: "thread_pc \<Rightarrow> nat" where
  "pc_refs Away = 0"
| "pc_refs Cancel_cas = 1"
| "pc_refs (Sched_load c) = cont_refs c"
| "pc_refs (Sched_cas c) = cont_refs c"
| "pc_refs (Queue_add c) = cont_refs c"
| "pc_refs (Queue_insert c) = cont_refs c + 1"
| "pc_refs (Release_sub c) = cont_refs c + 1"
| "pc_refs (Release_load c) = cont_refs c"
| "pc_refs (Release_store c) = cont_refs c"
| "pc_refs (Destroy_drop c) = cont_refs c"
| "pc_refs (Destroy_free c) = cont_refs c"
| "pc_refs Routine_start = 1"
| "pc_refs Routine_check = 1"
| "pc_refs Routine_waker = 1"
| "pc_refs _ = 2"

definition total :: "(thread_pc \<Rightarrow> nat) \<Rightarrow> race \<Rightarrow> nat" where
  "total f s = sum_list (map f (r_pcs s))"

definition destroying :: "thread_pc \<Rightarrow> nat" where
  "destroying p = (case p of Release_load c \<Rightarrow> 1 | Release_store c \<Rightarrow> 1 | Destroy_drop c \<Rightarrow> 1
     | Destroy_free c \<Rightarrow> 1 | _ \<Rightarrow> 0)"

text \<open>Where a thread can be told to go on from.\<close>

fun wf_pc :: "thread_pc \<Rightarrow> bool" where
  "wf_pc (Sched_load c) \<longleftrightarrow> c \<in> {KeepWaker, GiveUp, KeepHandle, Spawned, BackToPoll}"
| "wf_pc (Sched_cas c) \<longleftrightarrow> c \<in> {KeepWaker, GiveUp, KeepHandle, Spawned, BackToPoll}"
| "wf_pc (Queue_add c) \<longleftrightarrow> c \<notin> {Leave, LastWaker}"
| "wf_pc (Queue_insert c) \<longleftrightarrow> c \<notin> {Leave, LastWaker}"
| "wf_pc p \<longleftrightarrow> True"

definition counted :: "nat \<Rightarrow> race \<Rightarrow> bool" where
  "counted n s \<longleftrightarrow>
     length (r_pcs s) = Suc n \<and> (\<forall>p \<in> set (r_pcs s). wf_pc p) \<and> clients s \<le> 2 ^ 30
     \<and> (case r_header s of
          Some h \<Rightarrow>
            unat (rh_refs h) = r_wakers s + r_handles s + of_bool (rh_queued h) + total pc_refs s
            \<and> total destroying s = of_bool (rh_refs h = 0) \<and> r_frees s = 0
        | None \<Rightarrow>
            r_wakers s = 0 \<and> r_handles s = 0 \<and> total pc_refs s = 0 \<and> total destroying s = 0
            \<and> r_frees s = 1)"

lemma total_set_pc [simp]:
  "i < length (r_pcs s) \<Longrightarrow> total f (set_pc i p s) = total f s + f p - f (r_pcs s ! i)"
  by (simp add: total_def set_pc_def map_update sum_list_update)

lemma total_ge: "i < length (r_pcs s) \<Longrightarrow> f (r_pcs s ! i) \<le> total f s"
  unfolding total_def by (metis elem_le_sum_list length_map nth_map)

lemma race_set_pc_simps [simp]:
  "r_header (set_pc i p s) = r_header s" "r_future (set_pc i p s) = r_future s"
  "r_pcs (set_pc i p s) = (r_pcs s)[i := p]" "r_wakers (set_pc i p s) = r_wakers s"
  "r_handles (set_pc i p s) = r_handles s" "r_drops (set_pc i p s) = r_drops s"
  "r_frees (set_pc i p s) = r_frees s" "r_woken (set_pc i p s) = r_woken s"
  by (simp_all add: set_pc_def)

lemma put_header_simps [simp]:
  "r_header (put_header h s) = Some h" "r_future (put_header h s) = r_future s"
  "r_pcs (put_header h s) = r_pcs s" "r_wakers (put_header h s) = r_wakers s"
  "r_handles (put_header h s) = r_handles s" "r_drops (put_header h s) = r_drops s"
  "r_frees (put_header h s) = r_frees s" "r_woken (put_header h s) = r_woken s"
  by (simp_all add: put_header_def)

lemma total_cong [simp]:
  "total f (put_header h s) = total f s" "total f (s\<lparr>r_wakers := x\<rparr>) = total f s"
  "total f (s\<lparr>r_handles := x\<rparr>) = total f s" "total f (s\<lparr>r_woken := b\<rparr>) = total f s"
  "total f (s\<lparr>r_future := b\<rparr>) = total f s" "total f (s\<lparr>r_drops := x\<rparr>) = total f s"
  "total f (s\<lparr>r_header := z\<rparr>) = total f s" "total f (s\<lparr>r_frees := x\<rparr>) = total f s"
  by (simp_all add: total_def put_header_def)

lemma clients_total: "clients s = r_wakers s + r_handles s + total client_refs s"
  by (simp add: clients_def total_def)

lemma resume_pc_facts [simp]:
  "pc_refs (resume_pc c) + of_bool (c = KeepWaker) + of_bool (c = KeepHandle) = cont_refs c"
  "wf_pc (resume_pc c)" "destroying (resume_pc c) = 0"
  "client_refs (resume_pc c) + of_bool (c = KeepWaker) + of_bool (c = KeepHandle) \<le> cont_client c"
  by (cases c; simp add: destroying_def client_refs_def)+

lemma access_Return [outcome_simps]: "access f s = Return x \<longleftrightarrow> (\<exists>h. r_header s = Some h \<and> f h = Return x)"
  by (simp add: access_def split: option.split)

lemma access_Some [simp]: "r_header s = Some h \<Longrightarrow> access f s = f h"
  by (simp add: access_def)

text \<open>No thread has more than three references, so the counter never overflows.\<close>

lemma pc_refs_le: "pc_refs p \<le> 3"
  by (cases p; simp; rename_tac c; case_tac c; simp)

lemma refs_bound:
  assumes "counted n s" and "r_header s = Some h" and "n < 2 ^ 28"
  shows "unat (rh_refs h) < refcount_cap B"
proof -
  have "total pc_refs s \<le> 3 * length (r_pcs s)"
    unfolding total_def using sum_list_mono [of "r_pcs s" pc_refs "\<lambda>p. 3"] pc_refs_le
    by (simp add: sum_list_triv mult.commute)
  then have "unat (rh_refs h) \<le> 2 ^ 30 + 1 + 3 * 2 ^ 28"
    using assms by (auto simp: counted_def clients_total)
  then show ?thesis by (simp add: refcount_cap_def)
qed

lemma add_ref_then_counted:
  assumes "counted n s" and "r_header s = Some h" and "n < 2 ^ 28"
  obtains c where "add_ref_then B k s = Return (k (put_header (h\<lparr>rh_refs := c\<rparr>) s))"
    "unat c = unat (rh_refs h) + 1"
proof -
  obtain c where "refcount_add B (rh_refs h) = Return (c, c)" "unat c = unat (rh_refs h) + 1"
    using refcount.add_counts [of "rh_refs h" B] refs_bound [OF assms] by blast
  then show thesis using that assms(2) by (simp add: add_ref_then_def)
qed

text \<open>A step of one thread that moves references between the count, the tokens and the thread.\<close>

lemma total_move:
  assumes "i < length (r_pcs s)" and "r_pcs s' = (r_pcs s)[i := p]"
  shows "total f s' + f (r_pcs s ! i) = total f s + f p"
  using assms total_ge [of i s f] by (simp add: total_def map_update sum_list_update)

lemma counted_move:
  assumes "counted n s" and "r_header s = Some h" and "i < length (r_pcs s)"
    and "r_header s' = Some h'" and "r_pcs s' = (r_pcs s)[i := p]" and "r_frees s' = r_frees s" and "wf_pc p"
    and "unat (rh_refs h') + pc_refs (r_pcs s ! i) + r_wakers s + r_handles s + of_bool (rh_queued h)
      = unat (rh_refs h) + pc_refs p + r_wakers s' + r_handles s' + of_bool (rh_queued h')"
    and "destroying p + of_bool (rh_refs h = 0) = destroying (r_pcs s ! i) + of_bool (rh_refs h' = 0)"
    and "r_wakers s' + r_handles s' + client_refs p \<le> r_wakers s + r_handles s + client_refs (r_pcs s ! i)
      \<or> r_wakers s' + r_handles s' + client_refs p \<le> r_wakers s + r_handles s + client_refs (r_pcs s ! i) + 1
        \<and> clients s < 2 ^ 30"
  shows "counted n s'"
proof -
  note m = total_move [OF assms(3,5)]
  have "unat (rh_refs h') = r_wakers s' + r_handles s' + of_bool (rh_queued h') + total pc_refs s'"
    using assms(1,2,8) m [of pc_refs] by (simp add: counted_def)
  moreover have "total destroying s' = of_bool (rh_refs h' = 0)"
    using assms(1,2,9) m [of destroying] by (simp add: counted_def)
  moreover have "clients s' \<le> 2 ^ 30"
    using assms(1,10) m [of client_refs] by (auto simp: clients_total counted_def)
  moreover have "\<forall>p \<in> set (r_pcs s'). wf_pc p"
    using assms(1,5,7) set_update_subset_insert [of "r_pcs s" i p] by (auto simp: counted_def)
  ultimately show ?thesis using assms(1,2,4,5,6) by (simp add: counted_def)
qed

lemma resume_simps [simp]:
  "r_header (resume i c s) = r_header s" "r_future (resume i c s) = r_future s"
  "r_pcs (resume i c s) = (r_pcs s)[i := resume_pc c]"
  "r_wakers (resume i c s) = r_wakers s + of_bool (c = KeepWaker)"
  "r_handles (resume i c s) = r_handles s + of_bool (c = KeepHandle)" "r_drops (resume i c s) = r_drops s"
  "r_frees (resume i c s) = r_frees s" "r_woken (resume i c s) = r_woken s"
  by (simp_all add: resume_def)

lemma cont_refs_pos [simp]: "0 < cont_refs c \<longleftrightarrow> c \<noteq> Leave" "cont_refs c = 0 \<longleftrightarrow> c = Leave"
  by (cases c; simp)+

text \<open>Threads that own references or tokens are not there when the count is zero.\<close>

lemma counted_header:
  assumes "counted n s" and "i < length (r_pcs s)" and "r_pcs s ! i \<noteq> Away"
  obtains h where "r_header s = Some h" "rh_refs h = 0 \<longleftrightarrow> destroying (r_pcs s ! i) = 1"
proof -
  have wf: "wf_pc (r_pcs s ! i)" using assms(1,2) by (simp add: counted_def)
  then have "0 < pc_refs (r_pcs s ! i) \<or> destroying (r_pcs s ! i) = 1"
    using assms(3) by (cases "r_pcs s ! i") (auto simp: destroying_def)
  moreover have "pc_refs (r_pcs s ! i) \<le> total pc_refs s" "destroying (r_pcs s ! i) \<le> total destroying s"
    using assms(2) by (simp_all add: total_ge)
  ultimately have "0 < total pc_refs s \<or> total destroying s \<ge> 1" by linarith
  then obtain h where h: "r_header s = Some h"
    using assms(1) by (auto simp: counted_def split: option.splits)
  show thesis
  proof (rule that [OF h])
    have "rh_refs h = 0 \<longleftrightarrow> unat (rh_refs h) = 0" by simp
    then show "rh_refs h = 0 \<longleftrightarrow> destroying (r_pcs s ! i) = 1"
      using assms(1,2) h total_ge [of i s pc_refs] total_ge [of i s destroying]
        \<open>0 < pc_refs (r_pcs s ! i) \<or> destroying (r_pcs s ! i) = 1\<close>
      by (cases "rh_refs h = 0") (auto simp: counted_def)
  qed
qed

text \<open>A thread that is about to use the future, which is gone or polled by another thread.\<close>

definition clash :: "nat \<Rightarrow> race \<Rightarrow> bool" where
  "clash i s \<longleftrightarrow>
     (r_pcs s ! i \<in> {Poll_begin, Ready_drop} \<or> (\<exists>c. r_pcs s ! i = Destroy_drop c))
     \<and> (\<not> r_future s \<or> polled_elsewhere i s)"

lemma release_sub_counted:
  assumes "counted n s" and "i < length (r_pcs s)" and pc: "r_pcs s ! i = Release_sub c"
    and h: "r_header s = Some h" "rh_refs h \<noteq> 0"
  shows "\<exists>s'. own_step B i (Release_sub c) s = Return s' \<and> counted n s'"
proof -
  note move = counted_move [OF assms(1) h(1) assms(2)]
  note f = h(1) destroying_def client_refs_def
  have pos: "0 < unat (rh_refs h)" using h(2) by (simp add: unat_gt_0)
  obtain n' where n': "refcount_sub B (rh_refs h) = Return (n', n')" "unat n' = unat (rh_refs h) - 1"
    using refcount.sub_counts [OF pos] by blast
  show ?thesis
  proof (cases "n' = 0")
    case True
    then have "counted n (set_pc i (Release_load c) (put_header (h\<lparr>rh_refs := n'\<rparr>) s))"
      using n'(2) pos pc h(2)
      by (intro move [where p = "Release_load c" and h' = "h\<lparr>rh_refs := n'\<rparr>"]) (auto simp: f)
    then show ?thesis using n' h(1) True by (simp add: Let_def)
  next
    case False
    then have "counted n (resume i c (put_header (h\<lparr>rh_refs := n'\<rparr>) s))"
      by (intro move [where p = "resume_pc c" and h' = "h\<lparr>rh_refs := n'\<rparr>"])
        (use n'(2) pos pc h(2) False in \<open>(cases c; simp add: f)+\<close>)
    then show ?thesis using n' h(1) False by (simp add: Let_def)
  qed
qed

lemma add_ref_step_counted:
  assumes "counted n s" and "n < 2 ^ 28" and "i < length (r_pcs s)" and "r_header s = Some h" and "rh_refs h \<noteq> 0"
    and "wf_pc p" and "pc_refs p = pc_refs (r_pcs s ! i) + 1" and "client_refs p = client_refs (r_pcs s ! i)"
    and "destroying p = 0" and "destroying (r_pcs s ! i) = 0"
  shows "\<exists>s'. add_ref_then B (set_pc i p) s = Return s' \<and> counted n s'"
proof -
  obtain m where m: "add_ref_then B (set_pc i p) s = Return (set_pc i p (put_header (h\<lparr>rh_refs := m\<rparr>) s))"
    "unat m = unat (rh_refs h) + 1"
    by (rule add_ref_then_counted [OF assms(1,4,2)])
  then have "m \<noteq> 0" by auto
  then have "counted n (set_pc i p (put_header (h\<lparr>rh_refs := m\<rparr>) s))"
    using m(2) assms(5-)
    by (intro counted_move [OF assms(1,4,3), where p = p and h' = "h\<lparr>rh_refs := m\<rparr>"]) auto
  then show ?thesis using m(1) by blast
qed

lemma free_counted:
  assumes "counted n s" and "i < length (r_pcs s)" and pc: "r_pcs s ! i = Destroy_free c"
    and h: "r_header s = Some h" "rh_refs h = 0"
  shows "\<exists>s'. own_step B i (Destroy_free c) s = Return s' \<and> counted n s'"
proof -
  have z: "r_wakers s = 0" "r_handles s = 0" "total pc_refs s = 0" "total destroying s = 1" "c = Leave"
    using assms(1) h pc total_ge [OF assms(2), of pc_refs] by (auto simp: counted_def destroying_def)
  have "counted n (resume i c (s\<lparr>r_header := None, r_frees := r_frees s + 1\<rparr>))"
    using assms(1,2) h z pc set_update_subset_insert [of "r_pcs s" i Away] total_move [of i s _ Away]
    by (auto simp: counted_def resume_def clients_total destroying_def client_refs_def)
  then show ?thesis using h(1) by simp
qed

lemma own_step_counted:
  assumes "counted n s" and "n < 2 ^ 28" and "i < length (r_pcs s)" and "\<not> clash i s"
    and "r_pcs s ! i \<notin> {Away, Polling, Pending_woken}"
  shows "\<exists>s'. own_step B i (r_pcs s ! i) s = Return s' \<and> counted n s'"
proof -
  obtain h where h: "r_header s = Some h" "rh_refs h = 0 \<longleftrightarrow> destroying (r_pcs s ! i) = 1"
    using counted_header [OF assms(1,3)] assms(5) by auto
  note move = counted_move [OF assms(1) h(1) assms(3)]
  note f = h(1) destroying_def client_refs_def
  have wf: "wf_pc (r_pcs s ! i)" using assms(1,3) by (simp add: counted_def)
  show ?thesis
  proof (cases "r_pcs s ! i")
    case (Release_sub c)
    then show ?thesis using release_sub_counted [OF assms(1,3) _ h(1)] h(2) by (simp add: destroying_def)
  next
    case (Queue_add c)
    then show ?thesis
      using add_ref_step_counted [OF assms(1-3) h(1), of "Queue_insert c"] h(2) wf by (auto simp: f)
  next
    case Routine_waker
    then show ?thesis
      using add_ref_step_counted [OF assms(1-3) h(1), of Poll_begin] h(2) wf by (auto simp: f)
  next
    case (Destroy_free c)
    then show ?thesis using free_counted [OF assms(1,3) _ h(1)] h(2) by (simp add: destroying_def)
  next
    case Cancel_cas
    have "counted n (set_pc i (Sched_load KeepHandle) (put_header (h\<lparr>rh_cancel_requested := 1\<rparr>) s))"
      by (rule move, simp, simp, simp) (use Cancel_cas in \<open>auto simp: f\<close>)
    moreover have "counted n (resume i KeepHandle s)"
      by (rule move, simp add: h, simp, simp) (use Cancel_cas in \<open>auto simp: f\<close>)
    ultimately show ?thesis using Cancel_cas h(1) by simp
  next
    case (Sched_load c)
    have "counted n (resume i c s)"
      by (rule move, simp add: h, simp, simp) (use Sched_load in \<open>(cases c; simp add: f)+\<close>)
    moreover have "counted n (set_pc i (Sched_cas c) s)"
      by (rule move, simp add: h, simp, simp) (use Sched_load wf in \<open>auto simp: f\<close>)
    ultimately show ?thesis using Sched_load h(1) by simp
  next
    case (Sched_cas c)
    have "counted n (resume i c (s\<lparr>r_woken := True\<rparr>))"
      by (rule move, simp add: h, simp, simp) (use Sched_cas in \<open>(cases c; simp add: f)+\<close>)
    moreover have "counted n (set_pc i (Queue_add c) (put_header (h\<lparr>rh_scheduled := 1\<rparr>) (s\<lparr>r_woken := True\<rparr>)))"
      by (rule move, simp, simp, simp) (use Sched_cas wf in \<open>auto simp: f\<close>)
    ultimately show ?thesis using Sched_cas h(1) by simp
  next
    case (Queue_insert c)
    have "counted n (set_pc i (Release_sub c) s)"
      by (rule move, simp add: h, simp, simp) (use Queue_insert in \<open>auto simp: f\<close>)
    moreover have "counted n (resume i c (put_header (h\<lparr>rh_queued := True\<rparr>) s))" if "\<not> rh_queued h"
      by (rule move, simp, simp, simp) (use Queue_insert that in \<open>(cases c; simp add: f)+\<close>)
    ultimately show ?thesis using Queue_insert h(1) by simp
  next
    case (Release_load c)
    have "counted n (set_pc i (Release_store c) s)" "counted n (set_pc i (Destroy_free c) s)"
      by (rule move, simp add: h, simp, simp; use Release_load in \<open>auto simp: f\<close>)+
    then show ?thesis using Release_load h(1) by simp
  next
    case (Release_store c)
    have "counted n (set_pc i (Destroy_drop c) (put_header (h\<lparr>rh_completed := 1\<rparr>) s))"
      by (rule move, simp, simp, simp) (use Release_store in \<open>auto simp: f\<close>)
    then show ?thesis using Release_store h(1) by simp
  next
    case (Destroy_drop c)
    have "counted n (set_pc i (Destroy_free c) (s\<lparr>r_future := False, r_drops := r_drops s + 1\<rparr>))"
      by (rule move, simp add: h, simp, simp) (use Destroy_drop in \<open>auto simp: f\<close>)
    then show ?thesis using Destroy_drop h(1) assms(4) by (simp add: drop_future_def sole_access_def clash_def)
  next
    case Routine_start
    have "counted n (set_pc i Routine_check (put_header (h\<lparr>rh_scheduled := 0\<rparr>) s))"
      by (rule move, simp, simp, simp) (use Routine_start in \<open>auto simp: f\<close>)
    then show ?thesis using Routine_start h(1) by simp
  next
    case Routine_check
    have "counted n (set_pc i (Release_sub Leave) s)" "counted n (set_pc i Routine_waker s)"
      by (rule move, simp add: h, simp, simp; use Routine_check in \<open>auto simp: f\<close>)+
    then show ?thesis using Routine_check h(1) by simp
  next
    case Poll_begin
    have "counted n (set_pc i Polling (s\<lparr>r_woken := False\<rparr>))"
      by (rule move, simp add: h, simp, simp) (use Poll_begin in \<open>auto simp: f\<close>)
    then show ?thesis using Poll_begin h(1) assms(4) by (simp add: sole_access_def clash_def)
  next
    case Ready_store
    have "counted n (set_pc i Ready_drop (put_header (h\<lparr>rh_completed := 1\<rparr>) s))"
      by (rule move, simp, simp, simp) (use Ready_store in \<open>auto simp: f\<close>)
    then show ?thesis using Ready_store h(1) by simp
  next
    case Ready_drop
    have "counted n (set_pc i (Release_sub LastWaker) (s\<lparr>r_future := False, r_drops := r_drops s + 1\<rparr>))"
      by (rule move, simp add: h, simp, simp) (use Ready_drop in \<open>auto simp: f\<close>)
    then show ?thesis using Ready_drop h(1) assms(4) by (simp add: drop_future_def sole_access_def clash_def)
  next
    case Pending_load
    have "counted n (resume i EndRun s)" "counted n (set_pc i Pending_woken s)"
      by (rule move, simp add: h, simp, simp; use Pending_load in \<open>auto simp: f\<close>)+
    then show ?thesis using Pending_load h(1) by simp
  qed (use assms(5) in auto)
qed

lemma counted_owned:
  assumes "counted n s" and "0 < r_wakers s + r_handles s + total pc_refs s \<or> (\<exists>h. r_header s = Some h \<and> rh_queued h)"
  obtains h where "r_header s = Some h" "rh_refs h \<noteq> 0"
proof -
  obtain h where h: "r_header s = Some h" using assms by (auto simp: counted_def split: option.splits)
  then have "0 < unat (rh_refs h)" using assms by (auto simp: counted_def)
  then show thesis using that h by (auto simp: unat_gt_0)
qed

lemma clone_counted:
  assumes "counted n s" and "n < 2 ^ 28" and "i < length (r_pcs s)" and "clients s < 2 ^ 30"
    and "0 < r_wakers s \<or> r_pcs s ! i = Polling"
  shows "\<exists>s'. add_ref_then B (\<lambda>s1. s1\<lparr>r_wakers := r_wakers s1 + 1\<rparr>) s = Return s' \<and> counted n s'"
proof -
  obtain h where h: "r_header s = Some h" "rh_refs h \<noteq> 0"
  proof (rule counted_owned [OF assms(1)])
    show "0 < r_wakers s + r_handles s + total pc_refs s \<or> (\<exists>h. r_header s = Some h \<and> rh_queued h)"
      using assms(5) total_ge [OF assms(3), of pc_refs] by auto
  qed
  obtain m where m: "add_ref_then B (\<lambda>s1. s1\<lparr>r_wakers := r_wakers s1 + 1\<rparr>) s
      = Return ((put_header (h\<lparr>rh_refs := m\<rparr>) s)\<lparr>r_wakers := r_wakers (put_header (h\<lparr>rh_refs := m\<rparr>) s) + 1\<rparr>)"
      "unat m = unat (rh_refs h) + 1"
    by (rule add_ref_then_counted [OF assms(1) h(1) assms(2)])
  moreover have "wf_pc (r_pcs s ! i)" using assms(1,3) by (simp add: counted_def)
  ultimately have "counted n ((put_header (h\<lparr>rh_refs := m\<rparr>) s)\<lparr>r_wakers := r_wakers s + 1\<rparr>)"
    using assms(3,4) h
    by (intro counted_move [OF assms(1) h(1) assms(3), where p = "r_pcs s ! i" and h' = "h\<lparr>rh_refs := m\<rparr>"]) auto
  then show ?thesis using m(1) by simp
qed

lemma start_step_counted:
  assumes "counted n s" and "n < 2 ^ 28" and "i < length (r_pcs s)" and "r_pcs s ! i = Away"
    and "start_step one_run B i ch s = Some r"
  shows "\<exists>s'. r = Return s' \<and> counted n s'"
proof (cases "ch = CloneWaker")
  case True
  then show ?thesis
    using assms(5) clone_counted [OF assms(1-3), of B] by (auto simp: start_step_def split: if_splits)
next
  case False
  obtain h where h: "r_header s = Some h" "rh_refs h \<noteq> 0"
  proof (rule counted_owned [OF assms(1)])
    show "0 < r_wakers s + r_handles s + total pc_refs s \<or> (\<exists>h. r_header s = Some h \<and> rh_queued h)"
      using assms(5) False by (cases ch) (auto simp: start_step_def split: if_splits option.splits)
  qed
  note move = counted_move [OF assms(1) h(1) assms(3)]
  have "counted n (set_pc i (Release_sub Leave) (s\<lparr>r_wakers := r_wakers s - 1\<rparr>))"
    "counted n (set_pc i (Sched_load GiveUp) (s\<lparr>r_wakers := r_wakers s - 1\<rparr>))"
    "counted n (set_pc i (Sched_load KeepWaker) (s\<lparr>r_wakers := r_wakers s - 1\<rparr>))" if "0 < r_wakers s"
    by (rule move, simp add: h, simp, simp; use assms(4) that in \<open>simp add: destroying_def client_refs_def\<close>)+
  moreover have "counted n (set_pc i (Release_sub Leave) (s\<lparr>r_handles := r_handles s - 1\<rparr>))"
    "counted n (set_pc i Cancel_cas (s\<lparr>r_handles := r_handles s - 1\<rparr>))" if "0 < r_handles s"
    by (rule move, simp add: h, simp, simp; use assms(4) that in \<open>simp add: destroying_def client_refs_def\<close>)+
  moreover have "counted n (set_pc i Routine_start (put_header (h\<lparr>rh_queued := False\<rparr>) s))" if "rh_queued h"
    by (rule move, simp, simp, simp; use assms(4) that in \<open>simp add: destroying_def client_refs_def\<close>)
  ultimately show ?thesis
    using assms(5) False h(1) by (cases ch) (auto simp: start_step_def split: if_splits)
qed

lemma poll_step_counted:
  assumes "counted n s" and "n < 2 ^ 28" and "i < length (r_pcs s)" and "r_pcs s ! i = Polling"
    and "poll_step B i ch s = Some r"
  shows "\<exists>s'. r = Return s' \<and> counted n s'"
proof -
  obtain h where h: "r_header s = Some h" using counted_header [OF assms(1,3)] assms(4) by auto
  note move = counted_move [OF assms(1) h assms(3)]
  have "counted n (set_pc i (Sched_load BackToPoll) s)" "counted n (set_pc i Ready_store s)"
    "counted n (set_pc i Pending_load s)"
    by (rule move, simp add: h, simp, simp; use assms(4) in \<open>simp add: destroying_def client_refs_def\<close>)+
  then show ?thesis
    using assms(4,5) clone_counted [OF assms(1-3), of B]
    by (cases ch) (auto simp: poll_step_def split: if_splits)
qed

lemma budget_step_counted:
  assumes "counted n s" and "i < length (r_pcs s)" and "r_pcs s ! i = Pending_woken"
    and "budget_step i ch s = Some r"
  shows "\<exists>s'. r = Return s' \<and> counted n s'"
proof -
  obtain h where h: "r_header s = Some h" using counted_header [OF assms(1,2)] assms(3) by auto
  note move = counted_move [OF assms(1) h assms(2)]
  have "counted n (set_pc i (Queue_add EndRun) s)"
    by (rule move, simp add: h, simp, simp; use assms(3) in \<open>simp add: destroying_def client_refs_def\<close>)
  moreover have "counted n (set_pc i Poll_begin (put_header (h\<lparr>rh_scheduled := 0\<rparr>) s))"
    by (rule move, simp, simp, simp; use assms(3) in \<open>simp add: destroying_def client_refs_def\<close>)
  ultimately show ?thesis using assms(4) h by (auto simp: budget_step_def split: if_splits)
qed

lemma thread_step_counted:
  assumes "counted n s" and "n < 2 ^ 28" and "\<not> clash i s" and "thread_step one_run B i ch s = Some r"
  shows "\<exists>s'. r = Return s' \<and> counted n s'"
proof -
  have i: "i < length (r_pcs s)" using assms(4) by (auto simp: thread_step_def split: if_splits)
  show ?thesis
    using assms i start_step_counted [OF assms(1,2) i] poll_step_counted [OF assms(1,2) i]
      budget_step_counted [OF assms(1) i] own_step_counted [OF assms(1,2) i assms(3), of B]
    by (force simp: thread_step_def Let_def split: if_splits)
qed

lemma start_counted: "counted n (race_start handle n)"
  by (auto simp: counted_def race_start_def clients_total total_def client_refs_def destroying_def sum_list_replicate)

section \<open>Wake-ups\<close>

text \<open>Threads that will queue the DPC or have just taken it out; threads that will poll.\<close>

definition backing :: "thread_pc \<Rightarrow> nat" where
  "backing p = (case p of Routine_start \<Rightarrow> 1 | Queue_add c \<Rightarrow> 1 | Queue_insert c \<Rightarrow> 1 | _ \<Rightarrow> 0)"

definition about_to_poll :: "thread_pc \<Rightarrow> nat" where
  "about_to_poll p = of_bool (p \<in> {Routine_check, Routine_waker, Poll_begin})"

definition wakeups_ok :: "race \<Rightarrow> bool" where
  "wakeups_ok s \<longleftrightarrow>
     (\<forall>h. r_header s = Some h \<longrightarrow>
        (rh_scheduled h \<noteq> 0 \<longrightarrow> rh_queued h \<or> 0 < total backing s)
        \<and> (r_woken s \<and> rh_completed h = 0 \<longrightarrow> rh_scheduled h \<noteq> 0 \<or> 0 < total about_to_poll s))"

lemma resume_pc_quiet [simp]: "backing (resume_pc c) = 0" "about_to_poll (resume_pc c) = 0"
  by (cases c; simp add: backing_def about_to_poll_def)+

lemmas step_defs = thread_step_def start_step_def poll_step_def budget_step_def add_ref_then_def
  drop_future_def sole_access_def Let_def

text \<open>How a step changes the totals.\<close>

lemma wakeups_move:
  assumes "wakeups_ok s" and "i < length (r_pcs s)" and "r_pcs s' = (r_pcs s)[i := p]"
    and "r_header s = Some h" and "r_header s' = Some h'"
    and "rh_scheduled h' \<noteq> 0 \<Longrightarrow> rh_queued h' \<or> backing p = 1
      \<or> rh_scheduled h \<noteq> 0 \<and> (rh_queued h \<longrightarrow> rh_queued h') \<and> backing (r_pcs s ! i) = 0"
    and "r_woken s' \<Longrightarrow> rh_completed h' = 0 \<Longrightarrow> rh_scheduled h' \<noteq> 0 \<or> about_to_poll p = 1
      \<or> r_woken s \<and> rh_completed h = 0 \<and> (rh_scheduled h \<noteq> 0 \<longrightarrow> rh_scheduled h' \<noteq> 0)
        \<and> about_to_poll (r_pcs s ! i) = 0"
  shows "wakeups_ok s'"
proof -
  note m = total_move [OF assms(2,3)]
  have "rh_queued h' \<or> 0 < total backing s'" if "rh_scheduled h' \<noteq> 0"
    using assms(1,4) assms(6) [OF that] m [of backing] total_ge [OF assms(2), of backing]
    by (auto simp: wakeups_ok_def)
  moreover have "rh_scheduled h' \<noteq> 0 \<or> 0 < total about_to_poll s'" if "r_woken s'" "rh_completed h' = 0"
    using assms(1,4) assms(7) [OF that] m [of about_to_poll] total_ge [OF assms(2), of about_to_poll]
    by (auto simp: wakeups_ok_def)
  ultimately show ?thesis using assms(5) by (simp add: wakeups_ok_def)
qed

lemma wakeups_own:
  assumes "wakeups_ok s" and "i < length (r_pcs s)" and "own_step B i (r_pcs s ! i) s = Return s'"
    and "r_pcs s ! i \<notin> {Away, Polling, Pending_woken}"
  shows "wakeups_ok s'"
proof -
  note defs = own_step.simps add_ref_then_def drop_future_def sole_access_def Let_def outcome_simps
  note f = backing_def about_to_poll_def
  obtain h where h: "r_header s = Some h"
    using assms(3,4) by (cases "r_pcs s ! i") (auto simp: defs)
  note move = wakeups_move [OF assms(1,2) _ h]
  show ?thesis
  proof (cases "r_pcs s ! i")
    case (Destroy_free c)
    then show ?thesis using assms(3) h by (auto simp: wakeups_ok_def)
  next
    case (Release_sub c)
    then show ?thesis
      using assms(3) h by (auto simp: defs split: if_splits intro!: move simp: f)
  qed (use assms(3,4) h in \<open>auto simp: defs split: if_splits intro!: move simp: f\<close>)
qed

text \<open>The other steps, for all invariants: what start, poll and budget steps can do.\<close>

lemma choice_step_cases:
  assumes "thread_step one_run B i ch s = Some (Return s')" and "r_pcs s ! i \<in> {Away, Polling, Pending_woken}"
  obtains
    (moved) p where "r_header s' = r_header s" "r_pcs s' = (r_pcs s)[i := p]" "r_woken s' = r_woken s"
      "r_future s' = r_future s" "r_drops s' = r_drops s"
      "r_pcs s ! i = Away" "p \<in> {Release_sub Leave, Sched_load GiveUp, Sched_load KeepWaker, Cancel_cas}"
  | (run) h where "r_pcs s ! i = Away" "r_header s = Some h" "rh_queued h"
      "one_run \<longrightarrow> (\<forall>p \<in> set (r_pcs s). \<not> in_routine p)"
      "s' = set_pc i Routine_start (put_header (h\<lparr>rh_queued := False\<rparr>) s)"
  | (cloned) h m where "r_pcs s ! i \<in> {Away, Polling}" "r_header s = Some h"
      "s' = (put_header (h\<lparr>rh_refs := m\<rparr>) s)\<lparr>r_wakers := r_wakers s + 1\<rparr>"
  | (polled) p where "r_pcs s ! i = Polling" "s' = set_pc i p s"
      "p \<in> {Sched_load BackToPoll, Ready_store, Pending_load}"
  | (spent) "r_pcs s ! i = Pending_woken" "s' = set_pc i (Queue_add EndRun) s"
  | (again) h where "r_pcs s ! i = Pending_woken" "r_header s = Some h"
      "s' = set_pc i Poll_begin (put_header (h\<lparr>rh_scheduled := 0\<rparr>) s)"
proof (cases "r_pcs s ! i = Away")
  case True
  then show thesis
    using assms(1) moved run cloned
    by (cases ch) (auto simp: thread_step_def start_step_def add_ref_then_def outcome_simps set_pc_def
        split: if_splits option.splits)
next
  case False
  then show thesis
    using assms polled cloned spent again
    by (cases ch) (auto simp: thread_step_def poll_step_def budget_step_def add_ref_then_def outcome_simps
        split: if_splits)
qed

lemma thread_step_own:
  assumes "thread_step one_run B i ch s = Some r" and "r_pcs s ! i \<notin> {Away, Polling, Pending_woken}"
  shows "own_step B i (r_pcs s ! i) s = r"
  using assms by (simp add: thread_step_def Let_def split: if_splits)

lemma thread_step_index: "thread_step one_run B i ch s = Some r \<Longrightarrow> i < length (r_pcs s)"
  by (auto simp: thread_step_def split: if_splits)

lemma race_pcs_same [simp]: "xs[i := xs ! i] = xs"
  by (fact list_update_id)

lemma wakeups_step:
  assumes "counted n s" and "wakeups_ok s" and "thread_step one_run B i ch s = Some (Return s')"
  shows "wakeups_ok s'"
proof (cases "r_pcs s ! i \<in> {Away, Polling, Pending_woken}")
  case False
  then show ?thesis
    using wakeups_own [OF assms(2) thread_step_index [OF assms(3)], of B s'] thread_step_own [OF assms(3)] by simp
next
  case True
  have i: "i < length (r_pcs s)" using assms(3) by (rule thread_step_index)
  note move = wakeups_move [OF assms(2) i] and f = backing_def about_to_poll_def
  show ?thesis
  proof (cases rule: choice_step_cases [OF assms(3) True])
    case (1 p)
    show ?thesis
    proof (cases "r_header s")
      case (Some h)
      show ?thesis
        by (rule move [OF 1(2) Some]) (use 1 Some in \<open>auto simp: f\<close>)
    qed (use 1(1) in \<open>simp add: wakeups_ok_def\<close>)
  next
    case (2 h)
    then show ?thesis by (auto intro!: move simp: f)
  next
    case (3 h m)
    then show ?thesis
      using i by (intro move [of s' "r_pcs s ! i" h "h\<lparr>rh_refs := m\<rparr>"]) (auto simp: f)
  next
    case (4 p)
    obtain h where "r_header s = Some h" using counted_header [OF assms(1) i] 4(1) by auto
    then show ?thesis using 4 by (auto intro!: move simp: f)
  next
    case 5
    obtain h where "r_header s = Some h" using counted_header [OF assms(1) i] 5(1) by auto
    then show ?thesis using 5 by (auto intro!: move simp: f)
  next
    case (6 h)
    then show ?thesis by (auto intro!: move simp: f)
  qed
qed

section \<open>The future\<close>

definition dropping :: "thread_pc \<Rightarrow> nat" where
  "dropping p = (case p of Ready_drop \<Rightarrow> 1 | Destroy_drop c \<Rightarrow> 1 | _ \<Rightarrow> 0)"

definition storing :: "thread_pc \<Rightarrow> nat" where
  "storing p = (case p of Release_store c \<Rightarrow> 1 | _ \<Rightarrow> 0)"

definition last_drop :: "thread_pc \<Rightarrow> nat" where
  "last_drop p = (case p of Destroy_drop c \<Rightarrow> 1 | _ \<Rightarrow> 0)"

definition freeing :: "thread_pc \<Rightarrow> nat" where
  "freeing p = (case p of Destroy_free c \<Rightarrow> 1 | _ \<Rightarrow> 0)"

lemmas future_pcs = dropping_def storing_def last_drop_def freeing_def

definition future_ok :: "race \<Rightarrow> bool" where
  "future_ok s \<longleftrightarrow>
     r_drops s = of_bool (\<not> r_future s)
     \<and> (r_header s = None \<longrightarrow> \<not> r_future s)
     \<and> (\<forall>h. r_header s = Some h \<longrightarrow>
          (rh_completed h = 0 \<longrightarrow> r_future s)
          \<and> (rh_completed h \<noteq> 0 \<and> r_future s \<longrightarrow> 0 < total dropping s)
          \<and> (0 < total dropping s \<longrightarrow> rh_completed h \<noteq> 0)
          \<and> (0 < total storing s \<longrightarrow> rh_completed h = 0))
     \<and> (0 < total last_drop s \<longrightarrow> r_future s) \<and> (0 < total freeing s \<longrightarrow> \<not> r_future s)"

lemma total_mono: "(\<And>p. f p \<le> g p) \<Longrightarrow> total f s \<le> total g s"
  unfolding total_def by (rule sum_list_mono)

text \<open>A thread that destroys the task is alone, and until then nobody does.\<close>

lemma destroyer_refs:
  assumes "counted n s" and "i < length (r_pcs s)" and "destroying (r_pcs s ! i) = 1"
  shows "total pc_refs s = 0" and "total destroying s = 1"
proof -
  have na: "r_pcs s ! i \<noteq> Away" using assms(3) by (auto simp: destroying_def)
  obtain h where h: "r_header s = Some h" "rh_refs h = 0"
    by (rule counted_header [OF assms(1,2) na]) (use assms(3) in simp)
  then show "total pc_refs s = 0" "total destroying s = 1" using assms(1) by (auto simp: counted_def)
qed

lemma destroyer_alone:
  assumes "counted n s" and "i < length (r_pcs s)" and "destroying (r_pcs s ! i) = 1"
    and "\<And>p. f p \<le> destroying p + pc_refs p" and "r_pcs s' = (r_pcs s)[i := p]"
  shows "total f s = f (r_pcs s ! i)" and "total f s' = f p"
proof -
  let ?g = "\<lambda>p. destroying p + pc_refs p" and ?a = "set_pc i Away s"
  note z = destroyer_refs [OF assms(1-3)]
  have g: "total ?g s = total destroying s + total pc_refs s" by (simp add: total_def sum_list_addf)
  have "total ?g ?a = 0"
    using z g assms(2,3) total_ge [OF assms(2), of pc_refs] by (simp add: destroying_def [of Away])
  moreover have "total f ?a \<le> total ?g ?a" using assms(4) by (rule total_mono)
  moreover have "f Away = 0" using assms(4) [of Away] by (simp add: destroying_def)
  ultimately have "total f ?a = 0" "f Away = 0" by simp_all
  then show "total f s = f (r_pcs s ! i)" using assms(2) total_ge [OF assms(2), of f] by simp
  then show "total f s' = f p" using total_move [OF assms(2,5), of f] by simp
qed

lemma no_destroyer:
  assumes "counted n s" and "i < length (r_pcs s)" and "r_pcs s ! i \<noteq> Away" and "destroying (r_pcs s ! i) = 0"
    and "\<And>p. f p \<le> destroying p"
  shows "total f s = 0"
proof -
  obtain h where "r_header s = Some h" "rh_refs h \<noteq> 0"
    by (rule counted_header [OF assms(1,2,3)]) (use assms(4) in simp)
  then have "total destroying s = 0" using assms(1) by (simp add: counted_def)
  then show ?thesis using total_mono [of f destroying s] assms(5) by simp
qed

lemma future_okD:
  assumes "future_ok s" and "r_header s = Some h"
  shows "r_drops s = of_bool (\<not> r_future s)" "rh_completed h = 0 \<Longrightarrow> r_future s"
    "rh_completed h \<noteq> 0 \<Longrightarrow> r_future s \<Longrightarrow> 0 < total dropping s" "0 < total dropping s \<Longrightarrow> rh_completed h \<noteq> 0"
    "0 < total storing s \<Longrightarrow> rh_completed h = 0" "0 < total last_drop s \<Longrightarrow> r_future s"
    "0 < total freeing s \<Longrightarrow> \<not> r_future s"
  using assms unfolding future_ok_def by blast+

lemma future_okI:
  assumes "r_header s = Some h" and "r_drops s = of_bool (\<not> r_future s)" and "rh_completed h = 0 \<Longrightarrow> r_future s"
    and "rh_completed h \<noteq> 0 \<Longrightarrow> r_future s \<Longrightarrow> 0 < total dropping s"
    and "0 < total dropping s \<Longrightarrow> rh_completed h \<noteq> 0"
    and "0 < total storing s \<Longrightarrow> rh_completed h = 0" and "0 < total last_drop s \<Longrightarrow> r_future s"
    and "0 < total freeing s \<Longrightarrow> \<not> r_future s"
  shows "future_ok s"
  unfolding future_ok_def assms(1) option.inject by (intro conjI allI impI) (use assms in \<open>(blast | simp; fail)+\<close>)

lemma future_keep:
  assumes "future_ok s" and "i < length (r_pcs s)" and "r_pcs s' = (r_pcs s)[i := p]"
    and "r_header s = Some h" and "r_header s' = Some h'" and "rh_completed h' = rh_completed h"
    and "r_future s' = r_future s" and "r_drops s' = r_drops s"
    and "dropping (r_pcs s ! i) = 0" and "dropping p = 0" and "storing p = 0" and "last_drop p = 0" and "freeing p = 0"
  shows "future_ok s'"
proof -
  note m = total_move [OF assms(2,3)] and d = future_okD [OF assms(1,4)]
  have "total dropping s' = total dropping s" "total storing s' \<le> total storing s"
    "total last_drop s' \<le> total last_drop s" "total freeing s' \<le> total freeing s"
    using m [of dropping] m [of storing] m [of last_drop] m [of freeing] assms(9-13) by simp_all
  then show ?thesis
    by (intro future_okI [OF assms(5)]; unfold assms(6-8)) (use d in \<open>linarith | blast | metis less_le_trans\<close>)+
qed

lemma resume_pc_future [simp]:
  "dropping (resume_pc c) = 0" "storing (resume_pc c) = 0" "last_drop (resume_pc c) = 0" "freeing (resume_pc c) = 0"
  by (cases c; simp add: future_pcs)+

lemmas resume_pc_future_cases [simp] = resume_pc_future [unfolded future_pcs]

lemma future_pcs_le:
  "dropping p \<le> destroying p + pc_refs p" "storing p \<le> destroying p + pc_refs p"
  "last_drop p \<le> destroying p + pc_refs p" "freeing p \<le> destroying p + pc_refs p"
  "storing p \<le> destroying p" "last_drop p \<le> destroying p" "freeing p \<le> destroying p"
  by (cases p; simp add: future_pcs destroying_def)+

lemma future_own:
  assumes "counted n s" and "future_ok s" and "i < length (r_pcs s)" and "own_step B i (r_pcs s ! i) s = Return s'"
    and "r_pcs s ! i \<notin> {Away, Polling, Pending_woken}"
  shows "future_ok s'"
proof -
  note defs = own_step.simps add_ref_then_def drop_future_def sole_access_def Let_def outcome_simps
  obtain h where h: "r_header s = Some h" using counted_header [OF assms(1,3)] assms(5) by auto
  note keep = future_keep [OF assms(2,3) _ h]
  have alone: "future_ok s'" if d: "destroying (r_pcs s ! i) = 1"
  proof -
    obtain p where p: "r_pcs s' = (r_pcs s)[i := p]"
      using d assms(4) h by (cases "r_pcs s ! i") (auto simp: defs destroying_def split: if_splits)
    note t = destroyer_alone [OF assms(1,3) d _ p]
    have "total dropping s' = dropping p" "total storing s' = storing p" "total last_drop s' = last_drop p"
      "total freeing s' = freeing p" "total dropping s = dropping (r_pcs s ! i)"
      "total storing s = storing (r_pcs s ! i)" "total last_drop s = last_drop (r_pcs s ! i)"
      "total freeing s = freeing (r_pcs s ! i)"
      using t [OF future_pcs_le(1)] t [OF future_pcs_le(2)] t [OF future_pcs_le(3)] t [OF future_pcs_le(4)]
      by simp_all
    note t = this and pi = p [THEN arg_cong, of "\<lambda>xs. xs ! i"]
    show ?thesis
    proof (cases "r_pcs s ! i")
      case (Destroy_free c)
      then have "p = resume_pc c" using assms(3,4) h pi by auto
      then show ?thesis using t Destroy_free assms(2,4) h by (auto simp: future_ok_def freeing_def)
    next
      case (Release_load c)
      then show ?thesis using assms(2,3,4) h t pi by (auto simp: future_ok_def future_pcs)
    next
      case (Release_store c)
      then show ?thesis using assms(2,3,4) h t pi by (auto simp: future_ok_def future_pcs)
    next
      case (Destroy_drop c)
      then have "r_future s" "s' = set_pc i (Destroy_free c) (s\<lparr>r_future := False, r_drops := r_drops s + 1\<rparr>)"
        using assms(4) h by (simp_all add: drop_future_def sole_access_def split: if_splits)
      then show ?thesis using Destroy_drop assms(2,3) h t pi by (auto simp: future_ok_def future_pcs)
    qed (use d in \<open>simp_all add: destroying_def\<close>)
  qed
  have z: "total storing s = 0" "total last_drop s = 0" "total freeing s = 0" if "destroying (r_pcs s ! i) = 0"
    using no_destroyer [OF assms(1,3) _ that, of storing] no_destroyer [OF assms(1,3) _ that, of last_drop]
      no_destroyer [OF assms(1,3) _ that, of freeing] future_pcs_le assms(5) by auto
  note d = future_okD [OF assms(2) h]
  show ?thesis
  proof (cases "r_pcs s ! i")
    case Ready_store
    let ?s = "set_pc i Ready_drop (put_header (h\<lparr>rh_completed := 1\<rparr>) s)"
    have "total dropping ?s = total dropping s + 1" "total storing ?s = 0" "total last_drop ?s = 0" "total freeing ?s = 0"
      using Ready_store z assms(3) by (simp_all add: future_pcs destroying_def)
    then have "future_ok ?s" using d(1) by (intro future_okI [of ?s "h\<lparr>rh_completed := 1\<rparr>"]) auto
    then show ?thesis using Ready_store assms(4) h by simp
  next
    case Ready_drop
    let ?s = "set_pc i (Release_sub LastWaker) (s\<lparr>r_future := False, r_drops := r_drops s + 1\<rparr>)"
    have "r_future s" "s' = ?s"
      using Ready_drop assms(4) h by (simp_all add: drop_future_def sole_access_def split: if_splits)
    moreover have "0 < total dropping s"
      using total_ge [OF assms(3), of dropping] Ready_drop by (simp add: dropping_def)
    moreover have "total storing ?s = 0" "total last_drop ?s = 0" "total freeing ?s = 0"
      using Ready_drop z assms(3) by (simp_all add: future_pcs destroying_def)
    ultimately show ?thesis using d(1,4) h by (intro future_okI [of s' h]) simp_all
  qed (use assms(4,5) h alone in \<open>auto simp: defs future_pcs destroying_def split: if_splits intro!: keep\<close>)
qed

lemma future_step:
  assumes "counted n s" and "future_ok s" and "thread_step one_run B i ch s = Some (Return s')"
  shows "future_ok s'"
proof (cases "r_pcs s ! i \<in> {Away, Polling, Pending_woken}")
  case False
  then show ?thesis
    using future_own [OF assms(1,2) thread_step_index [OF assms(3)], of B s'] thread_step_own [OF assms(3)] by simp
next
  case True
  have i: "i < length (r_pcs s)" using assms(3) by (rule thread_step_index)
  note keep = future_keep [OF assms(2) i] and f = future_pcs
  have d: "dropping (r_pcs s ! i) = 0" using True by (auto simp: f)
  show ?thesis
  proof (cases rule: choice_step_cases [OF assms(3) True])
    case (1 p)
    show ?thesis
    proof (cases "r_header s")
      case (Some h)
      show ?thesis by (rule keep [OF 1(2) Some]) (use 1 Some d in \<open>auto simp: f\<close>)
    next
      case None
      then have "\<not> r_future s" "r_drops s = 1" using assms(2) by (auto simp: future_ok_def)
      moreover have "total last_drop s = 0"
        using assms(1) None total_mono [of last_drop destroying s] future_pcs_le(6) by (simp add: counted_def)
      moreover have "last_drop p = 0" using 1(7) by (auto simp: f)
      ultimately show ?thesis
        using 1(1,4,5) None total_move [OF i 1(2), of last_drop] by (simp add: future_ok_def)
    qed
  next
    case (2 h)
    then show ?thesis using d by (auto intro!: keep simp: f)
  next
    case (3 h m)
    then show ?thesis
      using i d by (intro keep [of s' "r_pcs s ! i" h "h\<lparr>rh_refs := m\<rparr>"]) (auto simp: f)
  next
    case (4 p)
    obtain h where "r_header s = Some h" using counted_header [OF assms(1) i] 4(1) by auto
    then show ?thesis using 4 d by (auto intro!: keep simp: f)
  next
    case 5
    obtain h where "r_header s = Some h" using counted_header [OF assms(1) i] 5(1) by auto
    then show ?thesis using 5 d by (auto intro!: keep simp: f)
  next
    case (6 h)
    then show ?thesis using d by (auto intro!: keep simp: f)
  qed
qed

section \<open>One run at a time\<close>

definition running :: "thread_pc \<Rightarrow> nat" where
  "running p = of_bool (in_routine p)"

text \<open>A run that has found the task uncompleted and has not completed it.\<close>

definition early :: "thread_pc \<Rightarrow> nat" where
  "early p = of_bool (in_poll p \<or> p \<in> {Routine_waker, Poll_begin, Ready_store, Pending_load, Pending_woken})"

definition ready_drop :: "thread_pc \<Rightarrow> nat" where
  "ready_drop p = of_bool (p = Ready_drop)"

definition one_run_ok :: "race \<Rightarrow> bool" where
  "one_run_ok s \<longleftrightarrow>
     total running s \<le> 1
     \<and> (\<forall>h. r_header s = Some h \<longrightarrow> rh_completed h \<noteq> 0 \<longrightarrow> total early s = 0)
     \<and> (0 < total ready_drop s \<longrightarrow> r_future s)"

lemmas run_pcs = running_def early_def ready_drop_def in_routine_def in_poll_def

lemma run_pcs_le: "early p \<le> running p" "early p \<le> pc_refs p" "ready_drop p \<le> running p" "ready_drop p \<le> pc_refs p"
  by (cases p; simp add: run_pcs; fail)+

lemma resume_pc_run [simp]:
  "running (resume_pc c) = of_bool (c \<in> {BackToPoll, EndRun})" "early (resume_pc c) = of_bool (c = BackToPoll)"
  "ready_drop (resume_pc c) = 0"
  by (cases c; simp add: run_pcs)+

lemma one_run_move:
  assumes "one_run_ok s" and "i < length (r_pcs s)" and "r_pcs s' = (r_pcs s)[i := p]"
    and "r_header s = Some h" and "r_header s' = Some h'" and "rh_completed h' = rh_completed h"
    and "r_future s' = r_future s"
    and "running p \<le> running (r_pcs s ! i)" and "rh_completed h \<noteq> 0 \<Longrightarrow> early p \<le> early (r_pcs s ! i)"
    and "ready_drop p = 0"
  shows "one_run_ok s'"
proof -
  note m = total_move [OF assms(2,3)]
  have "total running s' \<le> total running s" "total ready_drop s' \<le> total ready_drop s"
    "rh_completed h \<noteq> 0 \<Longrightarrow> total early s' \<le> total early s"
    using m [of running] m [of ready_drop] m [of early] assms(8-10) by simp_all
  then show ?thesis using assms(1,4-7) by (fastforce simp: one_run_ok_def)
qed

lemma run_table [simp]:
  "running (Sched_load c) = of_bool (c \<in> {BackToPoll, EndRun})" "early (Sched_load c) = of_bool (c = BackToPoll)" "ready_drop (Sched_load c) = 0"
  "running (Sched_cas c) = of_bool (c \<in> {BackToPoll, EndRun})" "early (Sched_cas c) = of_bool (c = BackToPoll)" "ready_drop (Sched_cas c) = 0"
  "running (Queue_add c) = of_bool (c \<in> {BackToPoll, EndRun})" "early (Queue_add c) = of_bool (c = BackToPoll)" "ready_drop (Queue_add c) = 0"
  "running (Queue_insert c) = of_bool (c \<in> {BackToPoll, EndRun})" "early (Queue_insert c) = of_bool (c = BackToPoll)" "ready_drop (Queue_insert c) = 0"
  "running (Release_load c) = of_bool (c \<in> {BackToPoll, EndRun})" "early (Release_load c) = of_bool (c = BackToPoll)" "ready_drop (Release_load c) = 0"
  "running (Release_store c) = of_bool (c \<in> {BackToPoll, EndRun})" "early (Release_store c) = of_bool (c = BackToPoll)" "ready_drop (Release_store c) = 0"
  "running (Destroy_drop c) = of_bool (c \<in> {BackToPoll, EndRun})" "early (Destroy_drop c) = of_bool (c = BackToPoll)" "ready_drop (Destroy_drop c) = 0"
  "running (Destroy_free c) = of_bool (c \<in> {BackToPoll, EndRun})" "early (Destroy_free c) = of_bool (c = BackToPoll)" "ready_drop (Destroy_free c) = 0"
  "running (Release_sub c) = of_bool (c \<in> {BackToPoll, EndRun, LastWaker})" "early (Release_sub c) = of_bool (c = BackToPoll)" "ready_drop (Release_sub c) = 0"
  "running Away = 0" "early Away = 0" "ready_drop Away = 0"
  "running Cancel_cas = 0" "early Cancel_cas = 0" "ready_drop Cancel_cas = 0"
  "running Routine_start = 1" "early Routine_start = 0" "ready_drop Routine_start = 0"
  "running Routine_check = 1" "early Routine_check = 0" "ready_drop Routine_check = 0"
  "running Routine_waker = 1" "early Routine_waker = 1" "ready_drop Routine_waker = 0"
  "running Poll_begin = 1" "early Poll_begin = 1" "ready_drop Poll_begin = 0"
  "running Polling = 1" "early Polling = 1" "ready_drop Polling = 0"
  "running Ready_store = 1" "early Ready_store = 1" "ready_drop Ready_store = 0"
  "running Ready_drop = 1" "early Ready_drop = 0" "ready_drop Ready_drop = 1"
  "running Pending_load = 1" "early Pending_load = 1" "ready_drop Pending_load = 0"
  "running Pending_woken = 1" "early Pending_woken = 1" "ready_drop Pending_woken = 0"
  by (simp_all add: run_pcs)

lemma one_run_own:
  assumes "counted n s" and "future_ok s" and "one_run_ok s" and "i < length (r_pcs s)"
    and "own_step B i (r_pcs s ! i) s = Return s'" and "r_pcs s ! i \<notin> {Away, Polling, Pending_woken}"
  shows "one_run_ok s'"
proof -
  note defs = own_step.simps add_ref_then_def drop_future_def sole_access_def Let_def outcome_simps
  obtain h where h: "r_header s = Some h" using counted_header [OF assms(1,4)] assms(6) by auto
  have wf: "wf_pc (r_pcs s ! i)" using assms(1,4) by (simp add: counted_def)
  note move = one_run_move [OF assms(3,4) _ h] and ge = total_ge [OF assms(4)]
  have le: "total early s \<le> total running s" "total ready_drop s \<le> total running s"
    by (rule total_mono, rule run_pcs_le)+
  have idle: "total early s = 0" "total ready_drop s = 0" "c = Leave"
    if "destroying (r_pcs s ! i) = 1" "pc_refs (r_pcs s ! i) = cont_refs c" for c
    using destroyer_refs [OF assms(1,4) that(1)] that(2) ge [of pc_refs]
      total_mono [of early pc_refs s] total_mono [of ready_drop pc_refs s] run_pcs_le by auto
  show ?thesis
  proof (cases "r_pcs s ! i")
    case Ready_store
    let ?s = "set_pc i Ready_drop (put_header (h\<lparr>rh_completed := 1\<rparr>) s)"
    have "rh_completed h = 0"
      using assms(3) h ge [of early] Ready_store by (auto simp: one_run_ok_def)
    then have "r_future s" using future_okD(2) [OF assms(2) h] by simp
    moreover have "total running ?s = total running s" "total early ?s = 0"
      using assms(3,4) ge [of running] le Ready_store by (auto simp: one_run_ok_def)
    ultimately have "one_run_ok ?s" using assms(3) by (simp add: one_run_ok_def)
    then show ?thesis using Ready_store assms(5) h by simp
  next
    case Ready_drop
    let ?s = "set_pc i (Release_sub LastWaker) (s\<lparr>r_future := False, r_drops := r_drops s + 1\<rparr>)"
    have "s' = ?s" using Ready_drop assms(5) h by (simp add: drop_future_def sole_access_def split: if_splits)
    moreover have "total ready_drop ?s = 0" "total running ?s \<le> 1" "total early ?s = total early s"
      using assms(3,4) ge [of ready_drop] ge [of running] le Ready_drop by (auto simp: one_run_ok_def)
    ultimately show ?thesis using assms(3) h by (simp add: one_run_ok_def)
  next
    case (Release_store c)
    then show ?thesis
      using idle [of c] assms(3,4,5) h ge [of running] by (auto simp: one_run_ok_def destroying_def)
  next
    case (Destroy_drop c)
    then have "s' = set_pc i (Destroy_free c) (s\<lparr>r_future := False, r_drops := r_drops s + 1\<rparr>)"
      using assms(5) h by (simp add: drop_future_def sole_access_def split: if_splits)
    then show ?thesis
      using Destroy_drop idle [of c] assms(3,4) h ge [of running] by (simp add: one_run_ok_def destroying_def)
  next
    case (Destroy_free c)
    then show ?thesis
      using idle [of c] assms(3,4,5) h ge [of running]
      by (auto simp: one_run_ok_def destroying_def resume_def)
  qed (use assms(5,6) h wf in \<open>auto simp: defs split: if_splits intro!: move\<close>)
qed

lemma one_run_step:
  assumes "counted n s" and "future_ok s" and "one_run_ok s" and "thread_step True B i ch s = Some (Return s')"
  shows "one_run_ok s'"
proof (cases "r_pcs s ! i \<in> {Away, Polling, Pending_woken}")
  case False
  then show ?thesis
    using one_run_own [OF assms(1-3) thread_step_index [OF assms(4)], of B s'] thread_step_own [OF assms(4)] by simp
next
  case True
  have i: "i < length (r_pcs s)" using assms(4) by (rule thread_step_index)
  note move = one_run_move [OF assms(3) i]
  show ?thesis
  proof (cases rule: choice_step_cases [OF assms(4) True])
    case (1 p)
    show ?thesis
    proof (cases "r_header s")
      case (Some h)
      show ?thesis by (rule move [OF 1(2) Some]) (use 1 Some in auto)
    next
      case None
      have "total running s' \<le> total running s" "total ready_drop s' \<le> total ready_drop s"
        using total_move [OF i 1(2), of running] total_move [OF i 1(2), of ready_drop] 1(6,7) by auto
      then show ?thesis using assms(3) 1(1,4) None by (auto simp: one_run_ok_def)
    qed
  next
    case (2 h)
    have "total running s = 0" using 2(4) by (simp add: total_def running_def)
    then show ?thesis
      using 2(1,2,5) i assms(3) total_ge [OF i, of early] by (auto simp: one_run_ok_def)
  next
    case (3 h m)
    then have "ready_drop (r_pcs s ! i) = 0" by auto
    then show ?thesis
      using 3 i by (intro move [of s' "r_pcs s ! i" h "h\<lparr>rh_refs := m\<rparr>"]) auto
  next
    case (4 p)
    obtain h where "r_header s = Some h" using counted_header [OF assms(1) i] 4(1) by auto
    then show ?thesis using 4 by (auto intro!: move)
  next
    case 5
    obtain h where "r_header s = Some h" using counted_header [OF assms(1) i] 5(1) by auto
    then show ?thesis using 5 by (auto intro!: move)
  next
    case (6 h)
    then show ?thesis by (auto intro!: move)
  qed
qed

lemma total_two:
  assumes "i < length (r_pcs s)" and "j < length (r_pcs s)" and "i \<noteq> j" and "f Away = 0"
  shows "f (r_pcs s ! i) + f (r_pcs s ! j) \<le> total f s"
  using assms total_ge [of j "set_pc i Away s" f] total_ge [of i s f] by simp

lemma one_run_no_clash:
  assumes "counted n s" and "future_ok s" and "one_run_ok s" and "i < length (r_pcs s)"
  shows "\<not> clash i s"
proof
  assume c: "clash i s"
  have na: "r_pcs s ! i \<noteq> Away" using c by (auto simp: clash_def)
  obtain h where h: "r_header s = Some h" by (rule counted_header [OF assms(1,4) na])
  have other: "running (r_pcs s ! j) = 0" if "running (r_pcs s ! i) = 1" "j < length (r_pcs s)" "j \<noteq> i" for j
    using total_two [of i s j running] assms(3,4) that by (simp add: one_run_ok_def)
  have poll: "in_poll (r_pcs s ! j) \<Longrightarrow> running (r_pcs s ! j) = 1 \<and> 0 < pc_refs (r_pcs s ! j)" for j
    using run_pcs_le(1,2) [of "r_pcs s ! j"] by (auto simp: early_def running_def of_bool_def split: if_splits)
  consider "r_pcs s ! i = Poll_begin" | "r_pcs s ! i = Ready_drop" | c where "r_pcs s ! i = Destroy_drop c"
    using c by (auto simp: clash_def)
  then show False
  proof cases
    case 1
    then have "rh_completed h = 0" using assms(3) h total_ge [OF assms(4), of early] by (auto simp: one_run_ok_def)
    then have "r_future s" using future_okD(2) [OF assms(2) h] by simp
    moreover have "\<not> polled_elsewhere i s" using 1 other poll unfolding polled_elsewhere_def by fastforce
    ultimately show False using c by (simp add: clash_def)
  next
    case 2
    then have "r_future s" using assms(3) total_ge [OF assms(4), of ready_drop] by (auto simp: one_run_ok_def)
    moreover have "\<not> polled_elsewhere i s" using 2 other poll unfolding polled_elsewhere_def by fastforce
    ultimately show False using c by (simp add: clash_def)
  next
    case (3 c')
    have "r_future s"
      using future_okD(6) [OF assms(2) h] total_ge [OF assms(4), of last_drop] 3 by (simp add: last_drop_def)
    moreover have "total pc_refs s = 0" using destroyer_refs(1) [OF assms(1,4)] 3 by (simp add: destroying_def)
    then have "pc_refs (r_pcs s ! j) = 0" if "j < length (r_pcs s)" for j using total_ge [OF that, of pc_refs] by simp
    then have "\<not> polled_elsewhere i s" using poll unfolding polled_elsewhere_def by fastforce
    ultimately show False using c by (simp add: clash_def)
  qed
qed

lemma start_ok: "future_ok (race_start handle n)" "wakeups_ok (race_start handle n)" "one_run_ok (race_start handle n)"
  by (auto simp: future_ok_def wakeups_ok_def one_run_ok_def race_start_def total_def future_pcs
      backing_def about_to_poll_def sum_list_replicate)

lemma race_reach_ok:
  assumes "race_reach one_run B n s" and "n < 2 ^ 28"
  shows "counted n s \<and> future_ok s \<and> wakeups_ok s \<and> (one_run \<longrightarrow> one_run_ok s)"
  using assms(1)
proof (induction rule: race_reach.induct)
  case (race_spawned handle)
  then show ?case by (simp add: start_counted start_ok)
next
  case (race_stepped s i ch s')
  have "\<not> clash i s"
  proof
    assume "clash i s"
    then show False
      using race_stepped.hyps(2) thread_step_own [OF race_stepped.hyps(2)]
      by (auto simp: clash_def drop_future_def sole_access_def outcome_simps split: if_splits)
  qed
  then have "counted n s'" using thread_step_counted [OF _ assms(2) _ race_stepped.hyps(2)] race_stepped.IH by auto
  then show ?case
    using race_stepped.IH future_step [OF _ _ race_stepped.hyps(2)] wakeups_step [OF _ _ race_stepped.hyps(2)]
      one_run_step [of n s B i ch s'] race_stepped.hyps(2)
    by (cases one_run) auto
qed

section \<open>Properties\<close>

text \<open>A schedule: which thread takes which step.\<close>

fun race_run :: "bool \<Rightarrow> build \<Rightarrow> (nat \<times> choice) list \<Rightarrow> race \<Rightarrow> race option" where
  "race_run one_run B [] s = Some s"
| "race_run one_run B ((i, ch) # rest) s =
     (case thread_step one_run B i ch s of
        Some (Return s') \<Rightarrow> race_run one_run B rest s'
      | _ \<Rightarrow> None)"

lemma race_run_reach:
  assumes "race_reach one_run B n s" and "race_run one_run B acts s = Some s'"
  shows "race_reach one_run B n s'"
  using assms
  by (induction one_run B acts s rule: race_run.induct)
    (auto split: option.splits outcome.splits intro: race_reach.race_stepped)

text \<open>A spawn, and the first poll of a DPC that thread \<open>i\<close> runs.\<close>

definition spawn_acts :: "(nat \<times> choice) list" where
  "spawn_acts = [(0, Continue), (0, Continue), (0, Continue), (0, Continue), (0, Continue)]"

definition run_acts :: "nat \<Rightarrow> (nat \<times> choice) list" where
  "run_acts i = [(i, RunDpc), (i, Continue), (i, Continue), (i, Continue)]"

definition wake_acts :: "nat \<Rightarrow> (nat \<times> choice) list" where
  "wake_acts i = [(i, WakeByRef), (i, Continue), (i, Continue), (i, Continue), (i, Continue)]"

lemma small_counts [simp]:
  "refcount_add B 1 = Return (2, 2)" "refcount_add B 2 = Return (3, 3)" "refcount_add B 3 = Return (4, 4)"
  "refcount_add B 4 = Return (5, 5)" "refcount_add B 5 = Return (6, 6)"
  "refcount_sub B 3 = Return (2, 2)" "refcount_sub B 2 = Return (1, 1)"
  using refcount.add_below [of 1 B] refcount.add_below [of 2 B] refcount.add_below [of 3 B]
    refcount.add_below [of 4 B] refcount.add_below [of 5 B] refcount.sub_positive [of 3 B] refcount.sub_positive [of 2 B]
  by (simp_all add: refcount_cap_def)

text \<open>C11: A task of the DPC executor under concurrency. However many threads wake, clone, drop and cancel,
  and whenever the kernel runs the DPC, also on several processors at a time: the reference count is
  exactly the number of wakers, handles, queue entries and references threads hold, the block is freed
  exactly once, when there are none, with its future dropped, and no thread touches it afterwards; no
  counter overflows; the only thing that can go wrong is a thread that uses the future while another
  polls it or after it was dropped. No wake-up is lost: when no thread is inside the executor and the
  task was woken since its last poll began, its DPC is queued.\<close>

theorem dpc_task_interleavings:
  assumes "race_reach one_run B n s" and "n < 2 ^ 28"
  shows "(case r_header s of
        Some h \<Rightarrow> unat (rh_refs h) = r_wakers s + r_handles s + of_bool (rh_queued h) + total pc_refs s
          \<and> r_frees s = 0
          \<and> ((\<forall>p \<in> set (r_pcs s). p = Away) \<longrightarrow> rh_completed h = 0 \<longrightarrow> r_woken s \<longrightarrow> rh_queued h)
      | None \<Rightarrow> r_wakers s = 0 \<and> r_handles s = 0 \<and> total pc_refs s = 0 \<and> r_frees s = 1 \<and> r_drops s = 1)
    \<and> r_drops s \<le> 1
    \<and> (\<forall>i ch r. thread_step one_run B i ch s = Some r \<longrightarrow> returns r \<or> clash i s)"
proof -
  have ok: "counted n s" "future_ok s" "wakeups_ok s" using race_reach_ok [OF assms] by auto
  have "returns r" if "thread_step one_run B i ch s = Some r" "\<not> clash i s" for i ch r
    using thread_step_counted [OF ok(1) assms(2) that(2,1)] by auto
  moreover have "rh_queued h" if "r_header s = Some h" "\<forall>p \<in> set (r_pcs s). p = Away" "rh_completed h = 0" "r_woken s" for h
  proof -
    have "total backing s = 0" "total about_to_poll s = 0"
      using that(2) by (auto simp: total_def backing_def about_to_poll_def)
    then show ?thesis using ok(3) that by (simp add: wakeups_ok_def)
  qed
  moreover have "r_drops s \<le> 1" "r_header s = None \<Longrightarrow> r_drops s = 1"
    using ok(2) by (auto simp: future_ok_def)
  ultimately show ?thesis using ok(1) by (auto simp: counted_def split: option.splits)
qed

lemmas race_eval = spawn_acts_def run_acts_def wake_acts_def race_start_def step_defs set_pc_def put_header_def
  resume_def access_def clients_def client_refs_def in_routine_def in_poll_def polled_elsewhere_def

definition hard_build :: build where
  "hard_build = \<lparr>hardening = Hardened, overflow_checks = True\<rparr>"

definition example_state :: "u32 \<Rightarrow> bool \<Rightarrow> thread_pc list \<Rightarrow> nat \<Rightarrow> race" where
  "example_state refs queued pcs wakers = \<lparr>
     r_header = Some \<lparr>rh_refs = refs, rh_scheduled = of_bool queued, rh_completed = 0, rh_cancel_requested = 0,
       rh_queued = queued\<rparr>,
     r_future = True, r_pcs = pcs, r_wakers = wakers, r_handles = 1, r_drops = 0, r_frees = 0, r_woken = queued\<rparr>"

lemma spawn_eval: "race_run one_run B spawn_acts (race_start True 1) = Some (example_state 2 True [Away, Away] 0)"
  by (simp add: race_eval example_state_def)

lemma poll_eval:
  "race_run one_run B (run_acts 0 @ [(0, Continue)]) (example_state 2 True [Away, Away] 0)
    = Some (example_state 3 False [Polling, Away] 0)"
  by (simp add: race_eval example_state_def Ex_less_Suc)

lemma wake_eval:
  "race_run one_run B ((0, PollClones) # wake_acts 1) (example_state 3 False [Polling, Away] 0)
    = Some (example_state 5 True [Polling, Away] 1)"
  by (simp add: race_eval example_state_def)

lemma second_run_eval:
  "\<exists>s. race_run False B (run_acts 1) (example_state 5 True [Polling, Away] 1) = Some s
    \<and> r_pcs s = [Polling, Poll_begin] \<and> r_future s \<and> r_header s \<noteq> None"
  by (simp add: race_eval example_state_def)

theorem dpc_task_interleavings_witness:
  "\<exists>s h. race_reach False hard_build 1 s \<and> r_header s = Some h \<and> unat (rh_refs h) = 2 \<and> rh_queued h
    \<and> r_handles s = 1"
proof -
  let ?s = "example_state 2 True [Away, Away] 0"
  have r: "race_reach False hard_build 1 ?s" by (rule race_run_reach [OF race_reach.race_spawned spawn_eval])
  show ?thesis using dpc_task_interleavings [OF r] r by (auto simp: example_state_def total_def)
qed

text \<open>If the kernel never runs the DPC of a task on two processors at a time, every step of every thread
  returns: the future is polled by one thread at a time, never after it was dropped, and is dropped at
  most once, however wake-ups, cancellations and releases interleave with the run.\<close>

theorem dpc_single_run_safe:
  assumes "race_reach True B n s" and "n < 2 ^ 28"
  shows "(\<forall>i ch r. thread_step True B i ch s = Some r \<longrightarrow> returns r)
    \<and> (\<forall>i j. i < length (r_pcs s) \<longrightarrow> j < length (r_pcs s) \<longrightarrow>
        in_poll (r_pcs s ! i) \<longrightarrow> in_poll (r_pcs s ! j) \<longrightarrow> i = j \<and> r_future s)"
proof -
  have ok: "counted n s" "future_ok s" "one_run_ok s" using race_reach_ok [OF assms] by auto
  have "returns r" if "thread_step True B i ch s = Some r" for i ch r
    using thread_step_counted [OF ok(1) assms(2) one_run_no_clash [OF ok thread_step_index [OF that]] that] by auto
  moreover have "i = j" if "i < length (r_pcs s)" "j < length (r_pcs s)" "in_poll (r_pcs s ! i)" "in_poll (r_pcs s ! j)" for i j
  proof (rule ccontr)
    assume "i \<noteq> j"
    then have "early (r_pcs s ! i) + early (r_pcs s ! j) \<le> total early s" using that by (intro total_two) simp_all
    moreover have "total early s \<le> total running s" by (rule total_mono) (rule run_pcs_le)
    ultimately show False using ok(3) that by (simp add: one_run_ok_def early_def)
  qed
  moreover have "r_future s" if i: "i < length (r_pcs s)" and p: "in_poll (r_pcs s ! i)" for i
  proof -
    have e: "early (r_pcs s ! i) = 1" using p by (simp add: early_def)
    have na: "r_pcs s ! i \<noteq> Away" using e by auto
    obtain h where h: "r_header s = Some h" by (rule counted_header [OF ok(1) i na])
    then have "rh_completed h = 0" using ok(3) total_ge [OF i, of early] e by (auto simp: one_run_ok_def)
    then show ?thesis using future_okD(2) [OF ok(2) h] by simp
  qed
  ultimately show ?thesis by blast
qed

theorem dpc_single_run_safe_witness:
  "\<exists>s. race_reach True hard_build 1 s \<and> in_poll (r_pcs s ! 0)
    \<and> (\<forall>i ch r. thread_step True hard_build i ch s = Some r \<longrightarrow> returns r)"
proof -
  let ?s = "example_state 3 False [Polling, Away] 0"
  have r: "race_reach True hard_build 1 ?s"
    by (rule race_run_reach [OF race_run_reach [OF race_reach.race_spawned spawn_eval] poll_eval])
  show ?thesis using dpc_single_run_safe [OF r] r by (auto simp: example_state_def in_poll_def)
qed

text \<open>C12: Nothing in the executor keeps a DPC from running on two processors, and the kernel queues it on
  the processor that wakes the task: a wake-up from another processor during a poll starts a second run
  there, which polls the future while the first one is still polling it.\<close>

theorem dpc_polls_overlap:
  "\<exists>s. race_reach False B 1 s \<and> in_poll (r_pcs s ! 0) \<and> r_future s
    \<and> r_pcs s ! 1 = Poll_begin \<and> thread_step False B 1 Continue s = Some Undefined"
proof -
  obtain s where s: "race_run False B (run_acts 1) (example_state 5 True [Polling, Away] 1) = Some s"
    "r_pcs s = [Polling, Poll_begin]" "r_future s" "r_header s \<noteq> None"
    using second_run_eval by blast
  have "race_reach False B 1 (example_state 5 True [Polling, Away] 1)"
    by (rule race_run_reach [OF race_run_reach [OF race_run_reach [OF race_reach.race_spawned spawn_eval]
          poll_eval] wake_eval])
  then have "race_reach False B 1 s" using s(1) by (rule race_run_reach)
  moreover have "polled_elsewhere 1 s" using s(2) by (auto simp: polled_elsewhere_def in_poll_def)
  ultimately show ?thesis
    using s(2-4) by (intro exI [of _ s]) (auto simp: thread_step_def sole_access_def access_def in_poll_def)
qed

end
