(* ===== verification/Dpc_Cancellation.thy ===== *)
theory Dpc_Cancellation
  imports Dpc_Properties
begin

text \<open>
  Cancellation of a task of the DPC executor across all its runs. Every future is run here as a future
  that also counts, in the world it acts on, how often it was told that cancellation was requested. The
  count is then a part of the state of the executor, and the flag of the header accounts for it.
\<close>

section \<open>Futures that count deliveries\<close>

text \<open>The activity of a future with a counter of the takes that were answered with true.\<close>

primrec tally :: "('r \<Rightarrow> nat \<Rightarrow> 'x) \<Rightarrow> 'r activity \<Rightarrow> nat \<Rightarrow> 'x activity" where
  "tally g (Finish r) = (\<lambda>n. Finish (g r n))"
| "tally g (Act p k) =
     (\<lambda>n. Act p (\<lambda>b. tally g (k b) (if p = TakeCancelled \<and> b then n + 1 else n)))"

definition tallied :: "('f, 'w, 'e, 'q) dpc_env \<Rightarrow> ('f, 'w \<times> nat, 'e, 'q) dpc_env" where
  "tallied E = \<lparr>x_build = x_build E, x_alloc_build = x_alloc_build E, x_kernel = x_kernel E,
     x_layout = x_layout E, x_event = x_event E, x_dpc = x_dpc E, x_frequency = x_frequency E,
     x_counter = x_counter E,
     x_poll = (\<lambda>f (w, n). tally (\<lambda>(r, f', w') n'. (r, f', w', n')) (x_poll E f w) n),
     x_drop = (\<lambda>f (w, n). tally Pair (x_drop E f w) n)\<rparr>"

abbreviation takes :: "('f, 'w \<times> nat, 'e, 'q) executor \<Rightarrow> nat" where
  "takes s \<equiv> snd (future_world s)"

lemma tallied_simps [simp]:
  "x_build (tallied E) = x_build E" "x_alloc_build (tallied E) = x_alloc_build E"
  "x_kernel (tallied E) = x_kernel E" "x_layout (tallied E) = x_layout E" "x_event (tallied E) = x_event E"
  "x_dpc (tallied E) = x_dpc E" "x_frequency (tallied E) = x_frequency E" "x_counter (tallied E) = x_counter E"
  "dpc_env_ok (tallied E) \<longleftrightarrow> dpc_env_ok E"
  by (simp_all add: tallied_def dpc_env_ok_def)

lemma tallied_poll: "x_poll (tallied E) f W = tally (\<lambda>(r, f', w') n'. (r, f', w', n')) (x_poll E f (fst W)) (snd W)"
  by (cases W) (simp add: tallied_def)

lemma tallied_drop: "x_drop (tallied E) f W = tally Pair (x_drop E f (fst W)) (snd W)"
  by (cases W) (simp add: tallied_def)

section \<open>The flag\<close>

definition delivered :: "('f, 'w, 'e, 'q) executor \<Rightarrow> nat" where
  "delivered s = (case the_task s of None \<Rightarrow> 0 | Some t \<Rightarrow> if th_cancel_requested t = 2 then 1 else 0)"

definition flagged :: "('f, 'w, 'e, 'q) executor \<Rightarrow> bool" where
  "flagged s \<longleftrightarrow> (\<forall>t. the_task s = Some t \<longrightarrow> th_cancel_requested t \<in> {0, 1, 2})"

text \<open>The flag says how many deliveries there were; there is never more than one.\<close>

definition counted :: "('f, 'w \<times> nat, 'e, 'q) executor \<Rightarrow> bool" where
  "counted s \<longleftrightarrow> takes s \<le> 1 \<and> flagged s \<and> (the_task s \<noteq> None \<longrightarrow> takes s = delivered s)"

definition tallies :: "('f, 'w \<times> nat, 'e, 'q) executor \<Rightarrow> ('f, 'w \<times> nat, 'e, 'q) executor \<Rightarrow> bool" where
  "tallies s s' \<longleftrightarrow> (counted s \<longrightarrow> counted s' \<and> takes s \<le> takes s')"

lemma tallies_refl [simp]: "tallies s s"
  by (simp add: tallies_def)

lemma tallies_trans [trans]: "tallies s s1 \<Longrightarrow> tallies s1 s2 \<Longrightarrow> tallies s s2"
  by (auto simp: tallies_def)

lemma tallies_same:
  assumes "the_task s = Some t" and "the_task s' = Some t'"
    and "th_cancel_requested t' = th_cancel_requested t" and "future_world s' = future_world s"
  shows "tallies s s'"
  using assms by (auto simp: tallies_def counted_def flagged_def delivered_def)

text \<open>Steps that deliver nothing: they request cancellation at most, or free the task.\<close>

definition undelivered :: "('f, 'w \<times> nat, 'e, 'q) executor \<Rightarrow> ('f, 'w \<times> nat, 'e, 'q) executor \<Rightarrow> bool" where
  "undelivered s s' \<longleftrightarrow>
     the_task s' = None \<and> takes s' = takes s
     \<or> (\<exists>t t'. the_task s = Some t \<and> the_task s' = Some t' \<and> future_world s' = future_world s
         \<and> CURRENT_TASKS s' = CURRENT_TASKS s
         \<and> (th_cancel_requested t' = th_cancel_requested t
            \<or> th_cancel_requested t = 0 \<and> th_cancel_requested t' = 1))"

lemma undelivered_trans [trans]: "undelivered s s1 \<Longrightarrow> undelivered s1 s2 \<Longrightarrow> undelivered s s2"
  unfolding undelivered_def by auto

lemma undelivered_refl: "the_task s = Some t \<Longrightarrow> undelivered s s"
  by (simp add: undelivered_def)

lemma undelivered_put:
  "the_task s = Some t \<Longrightarrow> th_cancel_requested t' = th_cancel_requested t \<Longrightarrow> undelivered s (put_task t' s)"
  by (simp add: undelivered_def)

lemma undelivered_tallies: "undelivered s s' \<Longrightarrow> tallies s s'"
  unfolding undelivered_def tallies_def counted_def flagged_def delivered_def by auto

lemma undelivered_lent [simp]:
  "undelivered (s\<lparr>wakers := n\<rparr>) s' \<longleftrightarrow> undelivered s s'" "undelivered (s\<lparr>handles := n\<rparr>) s' \<longleftrightarrow> undelivered s s'"
  "undelivered s (s'\<lparr>wakers := n\<rparr>) \<longleftrightarrow> undelivered s s'"
  by (simp_all add: undelivered_def)

text \<open>A task that nobody runs is told nothing: its last destructor counts nothing.\<close>

lemma orphan_untold:
  assumes "\<forall>i. CURRENT_TASKS s i = null"
  shows "run_orphaned c (tally g a n) s = Return (x, s') \<Longrightarrow> (\<exists>r. x = g r n) \<and> s' = s"
proof (induction a arbitrary: n)
  case (Act p k)
  have h: "current_task_header c s = Return None" using no_current_task [OF assms] .
  show ?case
    using Act.prems Act.IH [of "k False" n] h
    by (auto simp: is_cancellation_requested_def take_cancellation_request_def split: if_splits)
qed auto

lemma add_ref_undelivered: "th_add_ref E s = Return s' \<Longrightarrow> undelivered s s'"
  by (auto simp: th_add_ref_def with_task_def outcome_simps undelivered_put)

lemma dealloc_frees:
  "destroy_shim run E DeallocTask s = Return s' \<Longrightarrow> the_task s' = None \<and> future_world s' = future_world s"
  by (auto simp: destroy_shim_def with_task_def outcome_simps)

lemma drop_untold:
  assumes "\<forall>i. CURRENT_TASKS s i = null"
    and "destroy_shim (run_orphaned c) (tallied E) DropFuture s = Return s'"
  shows "takes s' = takes s"
proof -
  obtain t f w s1 where t: "the_task s = Some t" "task_future t = Holding f"
    and d: "run_orphaned c (tally Pair (x_drop E f (fst (future_world s))) (takes s))
      (put_task (t\<lparr>task_future := Emptied\<rparr>) s\<lparr>drops := drops s + 1\<rparr>) = Return (w, s1)"
      "s' = s1\<lparr>future_world := w\<rparr>"
    using assms(2)
    by (cases "the_task s"; cases "task_future (the (the_task s))")
      (auto simp: destroy_shim_def with_task_def outcome_simps tallied_drop)
  then show ?thesis using orphan_untold [OF _ d(1)] assms(1) by auto
qed

lemma release_undelivered:
  assumes "th_release (tallied E) c s = Return s'" and "(\<forall>i. CURRENT_TASKS s i = null) \<or> the_task s' \<noteq> None"
  shows "undelivered s s'"
proof -
  obtain t n rc where t: "the_task s = Some t" "refcount_sub (x_build E) (th_ref_count t) = Return (n, rc)"
    using assms(1) by (auto simp: th_release_def with_task_def outcome_simps)
  let ?t = "t\<lparr>th_ref_count := rc\<rparr>"
  consider "n \<noteq> 0" | "n = 0" "th_completed t = 0" | "n = 0" "th_completed t \<noteq> 0" by blast
  then show ?thesis
  proof cases
    case 1
    then show ?thesis using assms(1) t by (auto simp: th_release_def with_task_Some undelivered_put)
  next
    case 2
    then obtain s2 s3 where d: "destroy_shim (run_orphaned c) (tallied E) DropFuture
        (put_task (?t\<lparr>th_completed := 1\<rparr>) s) = Return s2"
      "destroy_shim (run_orphaned c) (tallied E) DeallocTask s2 = Return s3"
      "s' = complete_tracker (tallied E) (th_tracker t) s3"
      using assms(1) t by (auto simp: th_release_def with_task_Some outcome_simps put_task_def)
    then have "\<forall>i. CURRENT_TASKS s i = null" using assms(2) dealloc_frees [OF d(2)] by auto
    then show ?thesis
      using drop_untold [OF _ d(1)] dealloc_frees [OF d(2)] d(3) by (simp add: undelivered_def)
  next
    case 3
    then obtain s2 where "destroy_shim (run_orphaned c) (tallied E) DeallocTask (put_task ?t s) = Return s2"
      "s' = complete_tracker (tallied E) (th_tracker t) s2"
      using assms(1) t by (auto simp: th_release_def with_task_Some outcome_simps)
    then show ?thesis using dealloc_frees by (fastforce simp: undelivered_def)
  qed
qed

lemma queue_undelivered:
  assumes "queue_dpc (tallied E) c s = Return s'" and "(\<forall>i. CURRENT_TASKS s i = null) \<or> the_task s' \<noteq> None"
  shows "undelivered s s'"
proof -
  obtain s1 t where s1: "th_add_ref (tallied E) s = Return s1" "the_task s1 = Some t"
    using assms(1) by (auto simp: queue_dpc_def with_task_def outcome_simps)
  have u: "undelivered s s1" using add_ref_undelivered [OF s1(1)] .
  then have c: "CURRENT_TASKS s1 = CURRENT_TASKS s" using s1(2) by (auto simp: undelivered_def)
  obtain i q where i: "ke_insert_queue_dpc (x_dpc E) (th_dpc t) = (i, q)" by fastforce
  let ?s2 = "put_task (t\<lparr>th_dpc := q\<rparr>) s1"
  have u2: "undelivered s ?s2" using undelivered_trans [OF u undelivered_put [OF s1(2)]] by simp
  show ?thesis
  proof (cases i)
    case True
    then show ?thesis using assms(1) s1 i u2 by (simp add: queue_dpc_def with_task_Some)
  next
    case False
    then have "th_release (tallied E) c ?s2 = Return s'"
      using assms(1) s1 i by (simp add: queue_dpc_def with_task_Some)
    then have "undelivered ?s2 s'" using assms(2) c by (intro release_undelivered) auto
    then show ?thesis using undelivered_trans [OF u2] by blast
  qed
qed

lemma schedule_undelivered:
  assumes "th_schedule (tallied E) c s = Return s'" and "(\<forall>i. CURRENT_TASKS s i = null) \<or> the_task s' \<noteq> None"
  shows "undelivered s s'"
proof -
  obtain t where t: "the_task s = Some t"
    using assms(1) by (auto simp: th_schedule_def with_task_def outcome_simps)
  have "undelivered (put_task (t\<lparr>th_scheduled := 1\<rparr>) s) s'"
    if "queue_dpc (tallied E) c (put_task (t\<lparr>th_scheduled := 1\<rparr>) s) = Return s'"
    using queue_undelivered [OF that] assms(2) by simp
  then show ?thesis
    using assms(1) t undelivered_refl [OF t] undelivered_trans [OF undelivered_put [OF t, of "t\<lparr>th_scheduled := 1\<rparr>"]]
    by (auto simp: th_schedule_def with_task_Some split: if_splits)
qed

lemma cancel_undelivered:
  assumes "th_cancel (tallied E) c s = Return s'" and "(\<forall>i. CURRENT_TASKS s i = null) \<or> the_task s' \<noteq> None"
  shows "undelivered s s'"
proof -
  obtain t where t: "the_task s = Some t" using assms(1) by (auto simp: th_cancel_def with_task_def outcome_simps)
  show ?thesis
  proof (cases "th_cancel_requested t = 0")
    case True
    let ?s = "put_task (t\<lparr>th_cancel_requested := 1\<rparr>) s"
    have "undelivered s ?s" using t True by (simp add: undelivered_def)
    moreover have "undelivered ?s s'"
      using schedule_undelivered [of E c ?s s'] assms t True by (simp add: th_cancel_def with_task_Some)
    ultimately show ?thesis by (rule undelivered_trans)
  next
    case False
    then show ?thesis using assms(1) t undelivered_refl [OF t] by (simp add: th_cancel_def with_task_Some)
  qed
qed

lemma wake_undelivered:
  assumes "wake_raw (tallied E) c p s = Return s'" and "p \<noteq> null"
    and "(\<forall>i. CURRENT_TASKS s i = null) \<or> the_task s' \<noteq> None"
  shows "undelivered s s'"
proof -
  obtain s1 where s1: "th_schedule (tallied E) c s = Return s1" "th_release (tallied E) c s1 = Return s'"
    using assms(1,2) by (auto simp: wake_raw_def outcome_simps)
  then obtain t where t: "the_task s1 = Some t" by (auto simp: th_release_def with_task_def outcome_simps)
  have u: "undelivered s s1" using schedule_undelivered [OF s1(1)] t by simp
  moreover have "CURRENT_TASKS s1 = CURRENT_TASKS s" using u t by (auto simp: undelivered_def)
  then have "undelivered s1 s'" using release_undelivered [OF s1(2)] assms(3) by simp
  ultimately show ?thesis by (rule undelivered_trans)
qed

section \<open>Operations and runs\<close>

text \<open>Of the operations of holders only a take that is answered with true delivers.\<close>

lemma run_op_delivers:
  assumes "dpc_env_ok E" and "account (tallied E) L own cur s" and "sched_ok (tallied E) s" and "own \<le> 3"
    and "rc_polling c \<longrightarrow> 0 < own" and "run_op (tallied E) c p s = Return (b, s')"
  shows "if p = TakeCancelled \<and> b
    then \<exists>t. the_task s = Some t \<and> th_cancel_requested t = 1 \<and> s' = put_task (t\<lparr>th_cancel_requested := 2\<rparr>) s
    else s' = s \<or> undelivered s s'"
proof -
  have a: "account (tallied E) L own cur s'"
    using run_op_ok [of "tallied E" L own cur s c p] assms by (auto simp: op_ok_def)
  have n: "task_ptr s \<noteq> null" using assms(2) by (simp add: account_def)
  have l: "(\<forall>i. CURRENT_TASKS s i = null) \<or> the_task s' \<noteq> None"
    using a assms(2) by (cases "the_task s'") (auto simp: account_def)
  show ?thesis
  proof (cases "permitted c p s")
    case False
    then show ?thesis using assms(6) by (cases p) (auto simp: run_op_def permitted_def)
  next
    case True
    show ?thesis
    proof (cases p)
      case CloneWaker
      then show ?thesis
        using assms(6) True
        by (auto simp: outcome_simps n run_op_def clone_raw_def raw_waker_def dest: add_ref_undelivered)
    next
      case DropWaker
      then have "th_release (tallied E) c (s\<lparr>wakers := wakers s - 1\<rparr>) = Return s'"
        using assms(6) True by (auto simp: outcome_simps n run_op_def drop_raw_def)
      then show ?thesis using DropWaker release_undelivered [of E c "s\<lparr>wakers := wakers s - 1\<rparr>" s'] l by simp
    next
      case WakeWaker
      then have "wake_raw (tallied E) c (task_ptr s) (s\<lparr>wakers := wakers s - 1\<rparr>) = Return s'"
        using assms(6) True by (auto simp: outcome_simps n run_op_def)
      then show ?thesis
        using WakeWaker wake_undelivered [of E c _ "s\<lparr>wakers := wakers s - 1\<rparr>" s'] l n by simp
    next
      case WakeByRef
      then show ?thesis using assms(6) True schedule_undelivered [of E c s s'] l by (auto simp: outcome_simps n run_op_def wake_by_ref_raw_def)
    next
      case CancelTask
      then show ?thesis using assms(6) True cancel_undelivered [of E c s s'] l by (auto simp: outcome_simps n run_op_def handle_cancel_def)
    next
      case DropHandle
      then have "th_release (tallied E) c (s\<lparr>handles := handles s - 1\<rparr>) = Return s'"
        using assms(6) True by (auto simp: outcome_simps n run_op_def cancel_handle_drop_def Let_def)
      then show ?thesis using DropHandle release_undelivered [of E c "s\<lparr>handles := handles s - 1\<rparr>" s'] l by simp
    next
      case TakeCancelled
      then show ?thesis
        using assms(6) True current_header_ok [OF assms(2), of c]
        by (auto simp: outcome_simps n run_op_def take_cancellation_request_def split: if_splits)
    qed (use assms(6) True in \<open>auto simp: outcome_simps run_op_def\<close>)
  qed
qed

lemma undelivered_alive:
  assumes "undelivered s s'" and "the_task s' \<noteq> None"
  shows "delivered s' = delivered s" and "flagged s \<Longrightarrow> flagged s'"
  using assms by (auto simp: undelivered_def delivered_def flagged_def)

text \<open>The count of an activity grows by what the flag says, which is one at most.\<close>

lemma activity_delivers:
  assumes "dpc_env_ok E" and "own \<le> 3" and "0 < own"
    and "account (tallied E) L own cur s" and "sched_ok (tallied E) s" and "flagged s"
    and "run_activity (tallied E) c (tally g a n) s = Return (x, s')"
  shows "\<exists>r k. x = g r (n + k) \<and> delivered s' = delivered s + k \<and> flagged s'"
  using assms(4-)
proof (induction a arbitrary: s n)
  case (Finish r)
  then show ?case by (intro exI [of _ r] exI [of _ 0]) auto
next
  case (Act p k)
  obtain b s1 where s1: "run_op (tallied E) c p s = Return (b, s1)"
    "account (tallied E) L own cur s1" "sched_ok (tallied E) s1"
    using run_op_ok [of "tallied E" L own cur s c p] assms(1-3) Act.prems by (auto simp: op_ok_def)
  let ?m = "if p = TakeCancelled \<and> b then 1 else 0"
  have r: "run_activity (tallied E) c (tally g (k b) (n + ?m)) s1 = Return (x, s')"
    using Act.prems(4) s1(1) by (auto simp: outcome_simps split: if_splits)
  have "the_task s1 \<noteq> None" using account_live [OF s1(2)] assms(3) by auto
  then have d: "delivered s1 = delivered s + ?m" "flagged s1"
    using run_op_delivers [OF assms(1) Act.prems(1,2) assms(2) _ s1(1)] assms(3) undelivered_alive [of s s1]
      Act.prems(3)
    by (auto simp: delivered_def flagged_def split: if_splits)
  obtain r' k' where "x = g r' (n + ?m + k')" "delivered s' = delivered s1 + k'" "flagged s'"
    using Act.IH [OF _ s1(2,3) d(2) r] by auto
  then show ?case using d(1) by (intro exI [of _ r'] exI [of _ "?m + k'"]) (simp add: add.assoc)
qed

lemma poll_tallies:
  assumes "dpc_env_ok E" and "account (tallied E) L 2 cpu s" and "sched_ok (tallied E) s"
    and "poll_shim (tallied E) c s = Return (r, s')"
  shows "tallies s s'"
proof -
  obtain t f where t: "the_task s = Some t" "task_future t = Holding f"
    using assms(4) by (cases "the_task s"; cases "task_future (the (the_task s))")
      (auto simp: poll_shim_def with_task_def)
  let ?g = "\<lambda>(r, f', w') n'. (r, f', w', n')" and ?s = "s\<lparr>polls := polls s + 1\<rparr>"
  obtain f' w s1 t1 where a: "run_activity (tallied E) (c\<lparr>rc_polling := True\<rparr>)
      (tally ?g (x_poll E f (fst (future_world s))) (takes s)) ?s = Return ((r, f', w), s1)"
    "the_task s1 = Some t1" "s' = put_task (t1\<lparr>task_future := Holding f'\<rparr>) (s1\<lparr>future_world := w\<rparr>)"
    using assms(4) t by (auto simp: poll_shim_def with_task_def outcome_simps tallied_poll)
  show ?thesis
  proof (unfold tallies_def, intro impI)
    assume c: "counted s"
    then have "flagged ?s" by (simp add: counted_def flagged_def)
    then obtain q k where k: "(r, f', w) = ?g q (takes s + k)" "delivered s1 = delivered ?s + k" "flagged s1"
      using activity_delivers [OF assms(1) _ _ _ _ _ a(1), of 2 L cpu] assms(2,3) by auto
    have "snd w = takes s + k" using k(1) by (auto split: prod.splits)
    then show "counted s' \<and> takes s \<le> takes s'"
      using c t(1) k(2,3) a(2,3) by (auto simp: counted_def flagged_def delivered_def split: if_splits)
  qed
qed

lemma drop_tallies:
  assumes "dpc_env_ok E" and "the_task s = Some t"
    and "account (tallied E) L 2 cpu (put_task (t\<lparr>task_future := Emptied\<rparr>) s\<lparr>drops := drops s + 1\<rparr>)"
    and "sched_ok (tallied E) s"
    and "destroy_shim (run_activity (tallied E) c) (tallied E) DropFuture s = Return s'"
  shows "tallies s s'"
proof -
  let ?s = "put_task (t\<lparr>task_future := Emptied\<rparr>) s\<lparr>drops := drops s + 1\<rparr>"
  obtain f w s1 where a: "run_activity (tallied E) c (tally Pair (x_drop E f (fst (future_world s))) (takes s)) ?s
      = Return (w, s1)" "s' = s1\<lparr>future_world := w\<rparr>"
    using assms(2,5) by (cases "task_future t") (auto simp: destroy_shim_def with_task_def outcome_simps tallied_drop)
  have so: "sched_ok (tallied E) ?s" using assms(2,4) by (simp add: sched_ok_def)
  show ?thesis
  proof (unfold tallies_def, intro impI)
    assume c: "counted s"
    then have "flagged ?s" using assms(2) by (simp add: counted_def flagged_def)
    then obtain q k where k: "w = (q, takes s + k)" "delivered s1 = delivered ?s + k" "flagged s1"
      using activity_delivers [OF assms(1) _ _ assms(3) so _ a(1)] by auto
    show "counted s' \<and> takes s \<le> takes s'"
      using c assms(2) k a(2) by (auto simp: counted_def flagged_def delivered_def split: if_splits option.splits)
  qed
qed

lemma tallies_statics: "the_task s' = the_task s \<Longrightarrow> future_world s' = future_world s \<Longrightarrow> tallies s s'"
  by (simp add: tallies_def counted_def flagged_def delivered_def)

lemma clear_current_tallies: "clear_current cpu s = Return s' \<Longrightarrow> tallies s s'"
  by (rule tallies_statics)
    (auto simp: clear_current_def clear_current_task_def split: option.splits if_splits)

lemma release_tallies:
  "th_release (tallied E) c s = Return s' \<Longrightarrow> (\<forall>i. CURRENT_TASKS s i = null) \<or> the_task s' \<noteq> None \<Longrightarrow> tallies s s'"
  by (rule undelivered_tallies, rule release_undelivered)

lemma account_idle: "account E L own None s \<Longrightarrow> \<forall>i. CURRENT_TASKS s i = null"
  by (simp add: account_def)

text \<open>The end of a turn whose poll was ready, and the end of one whose poll was not.\<close>

lemma ready_tallies:
  assumes "dpc_env_ok E" and "account (tallied E) L 2 cpu s" and "sched_ok (tallied E) s"
    and "the_task s = Some t" and "th_completed t = 0"
    and "destroy_shim (run_activity (tallied E) c) (tallied E) DropFuture (put_task (t\<lparr>th_completed := 1\<rparr>) s) = Return s3"
    and "clear_current cpu s3 = Return s4" and "th_release (tallied E) c s4 = Return s'" and "the_task s' \<noteq> None"
  shows "tallies s s'"
proof -
  let ?s = "put_task (t\<lparr>th_completed := 1\<rparr>) s"
  have "task_future t \<noteq> Emptied" "drops s = 0"
    using account_the_task [OF assms(2,4)] assms(5) by (auto simp: live_ok_def)
  then have "account (tallied E) L 2 cpu (put_task (t\<lparr>th_completed := 1, task_future := Emptied\<rparr>) ?s\<lparr>drops := drops ?s + 1\<rparr>)"
    using assms(2,4,5) by (auto simp: account_def resources_ok_def live_ok_def)
  then have "tallies ?s s3"
    using drop_tallies [OF assms(1) _ _ _ assms(6), of "t\<lparr>th_completed := 1\<rparr>" L cpu] assms(3,4)
    by (simp add: sched_ok_def)
  moreover have "tallies s ?s" using assms(4) by (intro tallies_same [of s t _ "t\<lparr>th_completed := 1\<rparr>"]) simp_all
  moreover have "tallies s3 s4" using clear_current_tallies [OF assms(7)] .
  moreover have "tallies s4 s'" using release_tallies [OF assms(8)] assms(9) by simp
  ultimately show ?thesis using tallies_trans by blast
qed

lemma pending_tallies:
  assumes "poll_shim (tallied E) c s = Return (Pending, s1)"
    and "dpc_turn (tallied E) c cpu budget_mode clk poll_budget checks s = Return (tn, s')" and "the_task s' \<noteq> None"
  shows "tallies s1 s'"
proof -
  obtain ex pb ck s2 where b: "budget_check (tallied E) budget_mode clk poll_budget checks s1 = ((ex, pb, ck), s2)"
    by (metis surj_pair)
  have q: "the_task s2 = the_task s1" "future_world s2 = future_world s1"
    by (subst budget_check_ok(1) [OF b], simp)+
  obtain t1 where t1: "the_task s1 = Some t1" "the_task s2 = Some t1"
    using assms(1,2) q(1) by (auto simp: dpc_turn_def with_task_def outcome_simps)
  have s12: "tallies s1 s2" using tallies_statics [OF q] .
  consider "s' = s1" | "queue_dpc (tallied E) c s2 = Return s'" | "s' = put_task (t1\<lparr>th_scheduled := 0\<rparr>) s2"
    using assms(1,2) t1 b
    by (auto simp: dpc_turn_def with_task_Some outcome_simps split: if_splits)
  then show ?thesis
  proof cases
    case 2
    then have "tallies s2 s'" using assms(3) by (intro undelivered_tallies queue_undelivered) auto
    then show ?thesis using s12 tallies_trans by blast
  next
    case 3
    then have "tallies s2 s'" using t1(2) by (auto intro: tallies_same)
    then show ?thesis using s12 tallies_trans by blast
  qed simp
qed

lemma turn_rest_tallies:
  assumes "dpc_env_ok E" and "account (tallied E) L 2 cpu s" and "sched_ok (tallied E) s"
    and "the_task s = Some t" and "th_completed t = 0"
    and "\<forall>i. cpu = Some i \<longrightarrow> i < MAX_CPU_COUNT" and "\<not> rc_polling c"
    and "poll_shim (tallied E) c s = Return (r, s1)"
    and "dpc_turn (tallied E) c cpu budget_mode clk poll_budget checks s = Return (tn, s')"
  shows "tallies s1 s'"
proof -
  have ok: "dpc_env_ok (tallied E)" using assms(1) by simp
  obtain t1 where s1: "account (tallied E) L 2 cpu s1" "sched_ok (tallied E) s1" "the_task s1 = Some t1"
    "th_completed t1 = 0"
    using poll_shim_ok [OF ok assms(2-5), of c] assms(8) by auto
  have "turn_ok (tallied E) L cpu budget_mode poll_budget checks tn s'"
    using dpc_turn_ok [OF ok assms(2-7), of budget_mode clk poll_budget checks] assms(9) by auto
  then have alive: "the_task s' \<noteq> None"
    by (cases tn) (auto simp: turn_ok_def numeral_2_eq_2 dest!: account_own_pos)
  show ?thesis
  proof (cases r)
    case (Ready status)
    then show ?thesis
      using assms(8,9) s1(3) alive
      by (auto simp: dpc_turn_def with_task_Some outcome_simps intro: ready_tallies [OF assms(1) s1])
  next
    case Pending
    then show ?thesis using pending_tallies assms(8,9) alive by blast
  qed
qed

lemma turn_tallies:
  assumes "dpc_env_ok E" and "account (tallied E) L 2 cpu s" and "sched_ok (tallied E) s"
    and "the_task s = Some t" and "th_completed t = 0"
    and "\<forall>i. cpu = Some i \<longrightarrow> i < MAX_CPU_COUNT" and "\<not> rc_polling c"
    and "dpc_turn (tallied E) c cpu budget_mode clk poll_budget checks s = Return (tn, s')"
  shows "tallies s s'"
proof -
  obtain r s1 where s1: "poll_shim (tallied E) c s = Return (r, s1)"
    using assms(8) by (auto simp: dpc_turn_def outcome_simps)
  show ?thesis
    using poll_tallies [OF assms(1-3) s1] turn_rest_tallies [OF assms(1-7) s1 assms(8)] tallies_trans by blast
qed

lemma loop_tallies:
  assumes "dpc_env_ok E" and "\<forall>i. cpu = Some i \<longrightarrow> i < MAX_CPU_COUNT" and "\<not> rc_polling c"
    and "account (tallied E) L 2 cpu s" and "sched_ok (tallied E) s" and "the_task s = Some t" and "th_completed t = 0"
    and "dpc_loop n (tallied E) c cpu budget_mode clk poll_budget checks s = Some (Return (tn, s'))"
  shows "tallies s s'"
  using assms(4-)
proof (induction n arbitrary: s t poll_budget checks)
  case (Suc n)
  have ok: "dpc_env_ok (tallied E)" using assms(1) by simp
  obtain tn1 s1 where s1: "dpc_turn (tallied E) c cpu budget_mode clk poll_budget checks s = Return (tn1, s1)"
    "turn_ok (tallied E) L cpu budget_mode poll_budget checks tn1 s1"
    using dpc_turn_ok [OF ok Suc.prems(1-4) assms(2,3)] by blast
  have t: "tallies s s1" using turn_tallies [OF assms(1) Suc.prems(1-4) assms(2,3) s1(1)] .
  show ?case
  proof (cases tn1)
    case (Again pb ck)
    then obtain t1 where "account (tallied E) L 2 cpu s1" "sched_ok (tallied E) s1" "the_task s1 = Some t1"
      "th_completed t1 = 0"
      using s1(2) by (auto simp: turn_ok_def)
    from Suc.IH [OF this] show ?thesis using Suc.prems(5) s1(1) Again t tallies_trans by fastforce
  qed (use Suc.prems(5) s1(1) t in auto)
qed simp

lemma finish_tallies:
  assumes "dpc_env_ok E" and "sched_ok (tallied E) s" and "p \<noteq> null"
    and "tn = Returned \<and> account (tallied E) L 1 None s
      \<or> tn = Broke \<and> account (tallied E) L 2 (current_cpu_index processor) s"
    and "dpc_finish (tallied E) processor p (Return (tn, s)) = Return s'"
  shows "tallies s s'"
proof -
  let ?c = "dpc_context processor"
  have ok: "dpc_env_ok (tallied E)" using assms(1) by simp
  have "\<exists>s6. account (tallied E) L 1 None s6 \<and> tallies s s6 \<and> th_release (tallied E) ?c s6 = Return s'"
  proof (cases "tn = Returned")
    case True
    then show ?thesis using assms(3-5) by (auto simp: dpc_finish_def drop_raw_def)
  next
    case False
    obtain s5 where s5: "clear_current (current_cpu_index processor) s = Return s5"
      "account (tallied E) L 2 None s5" "sched_ok (tallied E) s5"
      using assms(2,4) False clear_current_ok current_cpu_bound by blast
    obtain s6 where s6: "th_release (tallied E) ?c s5 = Return s6" "account (tallied E) L 1 None s6"
      using release_advances [OF ok _ s5(3), of L 1 ?c] s5(2) by (auto simp: numeral_2_eq_2)
    have "tallies s s6"
      using clear_current_tallies [OF s5(1)] release_tallies [OF s6(1)] account_idle [OF s5(2)] tallies_trans
      by blast
    then show ?thesis using False assms(3,5) s5(1) s6 by (auto simp: dpc_finish_def drop_raw_def)
  qed
  then show ?thesis using release_tallies account_idle tallies_trans by blast
qed

lemma arrive_run:
  assumes "dpc_env_ok E" and "account (tallied E) L 0 None s" and "the_task s = Some t"
    and "dpc_queued (x_dpc E) (th_dpc t)" and "th_completed t = 0"
    and "dpc_arrive n (tallied E) processor s = Some (Return s')"
  obtains s4 t4 s5 tn clk where "account (tallied E) L 2 (current_cpu_index processor) s4" "sched_ok (tallied E) s4"
    "the_task s4 = Some t4" "th_completed t4 = 0" "th_cancel_requested t4 = th_cancel_requested t"
    "task_future t4 = task_future t" "future_world s4 = future_world s"
    "dpc_loop n (tallied E) (dpc_context processor) (current_cpu_index processor) (TASK_BUDGET_MODE s) clk
      (TASK_BUDGET_POLLS s) 0 s4 = Some (Return (tn, s5))"
    "tallies s5 s'"
proof -
  let ?E = "tallied E" and ?c = "dpc_context processor" and ?cpu = "current_cpu_index processor"
  have ok: "dpc_env_ok ?E" "dpc_queued (x_dpc ?E) (th_dpc t)" using assms(1,4) by simp_all
  obtain s4 t4 clk where s4: "account ?E L 2 ?cpu s4" "sched_ok ?E s4" "the_task s4 = Some t4" "th_completed t4 = 0"
    "future_world s4 = future_world s" "th_cancel_requested t4 = th_cancel_requested t"
    "task_future t4 = task_future t"
    and eq: "\<forall>n. dpc_arrive n ?E processor s = map_option (dpc_finish ?E processor (task_ptr s))
        (dpc_loop n ?E ?c ?cpu (TASK_BUDGET_MODE s) clk (TASK_BUDGET_POLLS s) 0 s4)"
    by (rule dpc_arrive_start [OF ok(1) assms(2,3) ok(2) assms(5), of processor])
  obtain q where q: "dpc_loop n ?E ?c ?cpu (TASK_BUDGET_MODE s) clk (TASK_BUDGET_POLLS s) 0 s4 = Some q"
    "dpc_finish ?E processor (task_ptr s) q = Return s'"
    using assms(6) eq by (auto simp: map_option_eq_Some)
  have cpu: "\<forall>i. ?cpu = Some i \<longrightarrow> i < MAX_CPU_COUNT" using current_cpu_bound by blast
  obtain tn s5 where s5: "q = Return (tn, s5)" "sched_ok ?E s5"
    "tn = Returned \<and> account ?E L 1 None s5 \<or> tn = Broke \<and> account ?E L 2 ?cpu s5"
    using dpc_loop_ok [OF ok(1) cpu _ s4(1-4) q(1)] by auto
  have "task_ptr s \<noteq> null" using assms(2) by (simp add: account_def)
  then have "tallies s5 s'" using finish_tallies [OF assms(1) s5(2) _ s5(3)] q(2) s5(1) by simp
  then show ?thesis using that [OF s4(1-4,6,7,5)] q(1) s5(1) by simp
qed

lemma arrive_tallies:
  assumes "dpc_env_ok E" and "account (tallied E) L 0 None s" and "the_task s = Some t"
    and "dpc_queued (x_dpc E) (th_dpc t)" and "dpc_arrive n (tallied E) processor s = Some (Return s')"
  shows "tallies s s'"
proof (cases "th_completed t = 0")
  case True
  obtain s4 t4 s5 tn clk where s4: "account (tallied E) L 2 (current_cpu_index processor) s4" "sched_ok (tallied E) s4"
    "the_task s4 = Some t4" "th_completed t4 = 0" "th_cancel_requested t4 = th_cancel_requested t"
    "task_future t4 = task_future t" "future_world s4 = future_world s"
    "dpc_loop n (tallied E) (dpc_context processor) (current_cpu_index processor) (TASK_BUDGET_MODE s) clk
      (TASK_BUDGET_POLLS s) 0 s4 = Some (Return (tn, s5))" "tallies s5 s'"
    by (rule arrive_run [OF assms(1-4) True assms(5)])
  have "tallies s s4" using tallies_same [OF assms(3) s4(3,5,7)] .
  moreover have "tallies s4 s5"
    using loop_tallies [OF assms(1) _ _ s4(1-4,8)] current_cpu_bound by simp
  ultimately show ?thesis using s4(9) tallies_trans by blast
next
  case False
  let ?s = "put_task (t\<lparr>th_dpc := ke_retire_dpc (x_dpc E) (th_dpc t), th_scheduled := 0\<rparr>) s"
  have "th_release (tallied E) (dpc_context processor) ?s = Return s'"
    using assms(3,5) False by (simp add: dpc_arrive_def dpc_routine_def Let_def)
  then have "tallies ?s s'" using release_tallies [of E _ ?s s'] account_idle [OF assms(2)] by auto
  moreover have "tallies s ?s"
    using assms(3) by (intro tallies_same [OF assms(3), of _ "t\<lparr>th_dpc := ke_retire_dpc (x_dpc E) (th_dpc t), th_scheduled := 0\<rparr>"]) simp_all
  ultimately show ?thesis using tallies_trans by blast
qed

section \<open>Reachable states\<close>

lemma allocate_counted:
  assumes "dpc_env_ok E" and "fresh_executor (tallied E) L s" and "takes s = 0"
    and "allocate_task (tallied E) c f (l_tracker L) s = Return (Inr p, s')"
  shows "counted s' \<and> (\<forall>i. CURRENT_TASKS s' i = null)"
proof -
  have "allocated_ok (tallied E) L f s s'"
    using allocate_task_ok [of "tallied E" L s c f] assms by auto
  then show ?thesis
    using assms(3) by (auto simp: allocated_ok_def counted_def flagged_def delivered_def dest: account_idle)
qed

text \<open>The end of a spawn, with all processors idle.\<close>

lemma spawn_end_tallies:
  assumes "\<forall>i. CURRENT_TASKS s i = null" and "th_schedule (tallied E) c s = Return s1"
    and "th_release (tallied E) c s1 = Return s2"
  shows "tallies s s2"
proof -
  have u: "undelivered s s1" using schedule_undelivered [OF assms(2)] assms(1) by blast
  moreover obtain t where "the_task s1 = Some t"
    using assms(3) by (auto simp: th_release_def with_task_def outcome_simps)
  ultimately have "\<forall>i. CURRENT_TASKS s1 i = null" using assms(1) by (auto simp: undelivered_def)
  then show ?thesis using undelivered_tallies [OF u] release_tallies [OF assms(3)] tallies_trans by blast
qed

lemma spawn_cancellable_counted:
  assumes "dpc_env_ok E" and "fresh_executor (tallied E) L s" and "takes s = 0"
    and "spawn_cancellable (tallied E) c (l_tracker L) f s = Return (Inr h, s')"
  shows "counted s'"
proof -
  obtain r s1 where r: "allocate_task (tallied E) c f (l_tracker L) s = Return (r, s1)"
    using assms(4) by (auto simp: spawn_cancellable_def outcome_simps)
  then obtain p where p: "r = Inr p" using assms(4) by (cases r) (auto simp: spawn_cancellable_def)
  obtain s2 s3 s4 where s: "allocate_task (tallied E) c f (l_tracker L) s = Return (Inr p, s1)"
    "th_add_ref (tallied E) s1 = Return s2" "th_schedule (tallied E) c s2 = Return s3"
    "th_release (tallied E) c s3 = Return s4" "s' = s4\<lparr>handles := handles s4 + 1\<rparr>"
    using assms(4) r p by (auto simp: spawn_cancellable_def cancel_handle_new_def outcome_simps)
  have c: "counted s1" "\<forall>i. CURRENT_TASKS s1 i = null" using allocate_counted [OF assms(1-3) s(1)] by auto
  have u: "undelivered s1 s2" using add_ref_undelivered [OF s(2)] .
  moreover obtain t where "the_task s2 = Some t"
    using s(3) by (auto simp: th_schedule_def with_task_def outcome_simps)
  ultimately have "\<forall>i. CURRENT_TASKS s2 i = null" using c(2) by (auto simp: undelivered_def)
  then have "counted s4" using undelivered_tallies [OF u] spawn_end_tallies [OF _ s(3,4)] c(1) by (auto simp: tallies_def)
  then show ?thesis using s(5) by (simp add: counted_def flagged_def delivered_def)
qed

lemma spawn_tracked_counted:
  assumes "dpc_env_ok E" and "fresh_executor (tallied E) L s" and "takes s = 0"
    and "spawn_dpc_task_tracked (tallied E) c (l_tracker L) f s = Return (STATUS_SUCCESS, s')"
  shows "counted s'"
proof -
  obtain r s1 where s1: "allocate_task (tallied E) c f (l_tracker L) s = Return (r, s1)"
    "case r of Inl st \<Rightarrow> st = STATUS_INSUFFICIENT_RESOURCES \<and> refused_ok (tallied E) L f s s1
       | Inr p \<Rightarrow> allocated_ok (tallied E) L f s s1"
    using allocate_task_ok [of "tallied E" L s c f] assms(1,2) by auto
  then obtain p where p: "r = Inr p"
    using assms(4) by (cases r) (auto simp: spawn_dpc_task_tracked_def status_defs)
  have c: "counted s1" "\<forall>i. CURRENT_TASKS s1 i = null" using allocate_counted [OF assms(1-3)] s1(1) p by auto
  obtain s2 where "th_schedule (tallied E) c s1 = Return s2" "th_release (tallied E) c s2 = Return s'"
    using assms(4) s1(1) p by (auto simp: spawn_dpc_task_tracked_def outcome_simps)
  then show ?thesis using spawn_end_tallies [OF c(2)] c(1) by (auto simp: tallies_def)
qed

lemma dpc_reach_counted:
  assumes "dpc_env_ok E" and "fresh_executor (tallied E) L s0" and "takes s0 = 0"
    and "dpc_reach (tallied E) (l_tracker L) s0 s"
  shows "counted s"
  using assms(4)
proof (induction rule: dpc_reach.induct)
  case (spawned_untracked c f h s)
  then show ?case
    using spawn_cancellable_counted [OF assms(1-3)] by (auto simp: spawn_dpc_task_cancellable_def)
next
  case (spawned_cancellable c f h s)
  then show ?case
    using spawn_cancellable_counted [OF assms(1-3)] by (auto simp: spawn_dpc_task_cancellable_tracked_def)
next
  case (spawned c f s)
  then show ?case using spawn_tracked_counted [OF assms(1-3)] by (auto simp: spawn_dpc_task_def)
next
  case (acted s c p b s')
  have a: "account (tallied E) L 0 None s" "sched_ok (tallied E) s"
    using dpc_reach_account [OF _ assms(2) acted.hyps(1)] assms(1) by auto
  have "\<not> (p = TakeCancelled \<and> b)"
    using acted.hyps(3) no_current_task [OF account_idle [OF a(1)], of c]
    by (auto simp: run_op_def permitted_def take_cancellation_request_def)
  then have "s' = s \<or> undelivered s s'"
    using run_op_delivers [OF assms(1) a _ _ acted.hyps(3)] acted.hyps(2) by auto
  then show ?case using acted.IH undelivered_tallies by (auto simp: tallies_def)
next
  case (ran s t n processor s')
  have "account (tallied E) L 0 None s" using dpc_reach_account [OF _ assms(2) ran.hyps(1)] assms(1) by auto
  then show ?case
    using arrive_tallies [OF assms(1) _ ran.hyps(2) _ ran.hyps(4)] ran.hyps(3) ran.IH by (auto simp: tallies_def)
next
  case (budgeted s budget)
  then show ?case
    by (cases budget) (auto simp: set_task_budget_def counted_def flagged_def delivered_def)
qed (simp add: set_task_alloc_tag_def counted_def flagged_def delivered_def)

section \<open>Delivery\<close>

text \<open>A poll that begins by asking takes a request that was made.\<close>

lemma poll_takes:
  assumes "dpc_env_ok E" and "account (tallied E) L 2 (current_cpu_index (rc_processor c)) s" and "sched_ok (tallied E) s"
    and "the_task s = Some t" and "th_cancel_requested t = 1" and "task_future t = Holding f"
    and "x_poll E f (fst (future_world s)) = Act TakeCancelled k"
    and "current_cpu_index (rc_processor c) = Some i" and "DISPATCH_LEVEL \<le> rc_irql c"
    and "poll_shim (tallied E) c s = Return (r, s1)" and "counted s"
  shows "takes s1 = 1"
proof -
  let ?E = "tallied E" and ?c = "c\<lparr>rc_polling := True\<rparr>" and ?s = "s\<lparr>polls := polls s + 1\<rparr>"
  let ?s2 = "put_task (t\<lparr>th_cancel_requested := 2\<rparr>) ?s"
  let ?g = "\<lambda>(r, f', w') n'. (r, f', w', n')"
  have "CURRENT_TASKS ?s i = task_ptr ?s" "task_ptr ?s \<noteq> null" using assms(2,8) by (auto simp: account_def)
  then have "current_task_header ?c ?s = Return (Some t)"
    using assms(4,8,9) current_cpu_bound [OF assms(8)] by (simp add: current_task_header_def with_task_Some)
  then have op: "run_op ?E ?c TakeCancelled ?s = Return (True, ?s2)"
    using assms(5) by (simp add: run_op_def permitted_def take_cancellation_request_def)
  have "op_ok ?E L 2 (current_cpu_index (rc_processor c)) ?s (run_op ?E ?c TakeCancelled ?s)"
    using assms(1-3) by (intro run_op_ok) auto
  then have a: "account ?E L 2 (current_cpu_index (rc_processor c)) ?s2" "sched_ok ?E ?s2"
    using op by (auto simp: op_ok_def)
  let ?rest = "tally ?g (k True) (takes s + 1)"
  obtain x s3 where x: "run_activity ?E ?c ?rest ?s2 = Return (x, s3)" "keeps ?E ?s2 s3"
    and a3: "account ?E L 2 (current_cpu_index (rc_processor c)) s3"
    using run_activity_ok [of ?E L 2 "current_cpu_index (rc_processor c)" ?s2 ?c ?rest] assms(1) a by auto
  obtain r' f' w where x': "x = (r', f', w)" by (metis prod_cases3)
  obtain t3 where t3: "the_task s3 = Some t3"
    using account_own_pos [of ?E L 1] a3 by (auto simp: numeral_2_eq_2)
  have "poll_shim ?E c s = Return (r', put_task (t3\<lparr>task_future := Holding f'\<rparr>) (s3\<lparr>future_world := w\<rparr>))"
    using assms(4,6,7) op x(1) x' t3 by (simp add: poll_shim_def with_task_Some tallied_poll)
  then have s1: "s1 = put_task (t3\<lparr>task_future := Holding f'\<rparr>) (s3\<lparr>future_world := w\<rparr>)" using assms(10) by simp
  have "2 \<le> th_cancel_requested t3" using x(2) t3 by (auto simp: keeps_def)
  moreover have "counted s1"
    using poll_tallies [OF assms(1-3,10)] assms(11) by (simp add: tallies_def)
  ultimately show ?thesis using s1 by (auto simp: counted_def flagged_def delivered_def word_le_nat_alt)
qed

lemma arrive_takes:
  assumes "dpc_env_ok E" and "account (tallied E) L 0 None s" and "the_task s = Some t"
    and "dpc_queued (x_dpc E) (th_dpc t)" and "th_completed t = 0" and "th_cancel_requested t = 1"
    and "task_future t = Holding f" and "x_poll E f (fst (future_world s)) = Act TakeCancelled k"
    and "current_cpu_index processor \<noteq> None" and "dpc_arrive n (tallied E) processor s = Some (Return s')"
    and "counted s"
  shows "takes s' = 1"
proof -
  let ?E = "tallied E" and ?c = "dpc_context processor" and ?cpu = "current_cpu_index processor"
  obtain s4 t4 s5 tn clk where s4: "account ?E L 2 ?cpu s4" "sched_ok ?E s4" "the_task s4 = Some t4" "th_completed t4 = 0"
    "th_cancel_requested t4 = th_cancel_requested t" "task_future t4 = task_future t" "future_world s4 = future_world s"
    and l: "dpc_loop n ?E ?c ?cpu (TASK_BUDGET_MODE s) clk (TASK_BUDGET_POLLS s) 0 s4 = Some (Return (tn, s5))"
      "tallies s5 s'"
    by (rule arrive_run [OF assms(1-5,10)])
  have ok: "dpc_env_ok ?E" and cpu: "\<forall>i. ?cpu = Some i \<longrightarrow> i < MAX_CPU_COUNT" using assms(1) current_cpu_bound by auto
  obtain i where i: "?cpu = Some i" using assms(9) by blast
  obtain m where m: "n = Suc m" using l(1) by (cases n) auto
  obtain r s1 where s1: "poll_shim ?E ?c s4 = Return (r, s1)" using poll_shim_ok [OF ok s4(1-4)] by blast
  obtain tn1 s6 where s6: "dpc_turn ?E ?c ?cpu (TASK_BUDGET_MODE s) clk (TASK_BUDGET_POLLS s) 0 s4 = Return (tn1, s6)"
    "turn_ok ?E L ?cpu (TASK_BUDGET_MODE s) (TASK_BUDGET_POLLS s) 0 tn1 s6"
    using dpc_turn_ok [OF ok s4(1-4) cpu, of ?c "TASK_BUDGET_MODE s" clk "TASK_BUDGET_POLLS s" 0] by auto
  have c4: "counted s4" using tallies_same [OF assms(3) s4(3,5,7)] assms(11) by (simp add: tallies_def)
  then have c1: "counted s1" using poll_tallies [OF assms(1) s4(1,2) s1] by (simp add: tallies_def)
  have "takes s1 = 1"
    using poll_takes [OF assms(1) _ s4(2,3) _ _ _ _ _ s1 c4] s4(1,5-7) assms(6-8) i by simp
  moreover have "tallies s1 s6" using turn_rest_tallies [OF assms(1) s4(1-4) cpu _ s1 s6(1)] by simp
  moreover have "tallies s6 s5"
  proof (cases tn1)
    case (Again pb ck)
    then obtain t6 where "account ?E L 2 ?cpu s6" "sched_ok ?E s6" "the_task s6 = Some t6" "th_completed t6 = 0"
      using s6(2) by (auto simp: turn_ok_def)
    then show ?thesis using loop_tallies [OF assms(1) cpu _ , of ?c L s6 t6 m] l(1) m s6(1) Again by simp
  qed (use l(1) m s6(1) in auto)
  ultimately show ?thesis using c1 l(2) by (auto simp: tallies_def counted_def)
qed

lemma cancel_requests:
  assumes "dpc_env_ok E" and "account (tallied E) L 0 None s" and "sched_ok (tallied E) s" and "flagged s"
    and "the_task s = Some t" and "0 < handles s"
  shows "\<exists>s' t'. run_op (tallied E) c CancelTask s = Return (True, s') \<and> the_task s' = Some t'
    \<and> th_cancel_requested t' = (if th_cancel_requested t = 0 then 1 else th_cancel_requested t)
    \<and> (th_cancel_requested t = 0 \<and> th_completed t = 0 \<longrightarrow> dpc_queued (x_dpc E) (th_dpc t'))
    \<and> run_op (tallied E) c AskHandle s' = Return (True, s')"
proof -
  have ok: "dpc_env_ok (tallied E)" and n: "task_ptr s \<noteq> null" using assms(1,2) by (simp_all add: account_def)
  obtain s' t' where s': "th_cancel (tallied E) c s = Return s'" "the_task s' = Some t'"
    "th_cancel_requested t' \<noteq> 0" "keeps (tallied E) s s'" "handles s' = handles s"
    "th_cancel_requested t = 0 \<and> th_completed t = 0 \<longrightarrow> dpc_queued (x_dpc E) (th_dpc t')"
    by (rule cancel_ok [OF ok assms(2,5) _ assms(3), of c]) auto
  have "undelivered s s'" using cancel_undelivered [OF s'(1)] s'(2) by simp
  then have "th_cancel_requested t' = (if th_cancel_requested t = 0 then 1 else th_cancel_requested t)"
    using s'(2,3) assms(5) by (auto simp: undelivered_def)
  moreover have "run_op (tallied E) c CancelTask s = Return (True, s')"
    using s'(1) assms(6) n by (simp add: run_op_def permitted_def handle_cancel_def)
  moreover have "run_op (tallied E) c AskHandle s' = Return (True, s')"
    using s'(2-5) assms(6) n by (simp add: run_op_def permitted_def handle_is_cancelled_def with_task_Some keeps_def)
  ultimately show ?thesis using s'(2,6) by blast
qed

text \<open>C9: Cancellation is delivered exactly once. Whatever the future and the holders of a task do,
  over all runs of its DPC and including its destructor, the code of the task is told at most once that
  cancellation was requested, and it has been told so exactly when the flag of the task is 2. Outside the
  runs of the task nothing is taken. \<open>CancelHandle::cancel\<close> makes the request unless there was one, leaves
  the DPC of an unfinished task in the queue, and the handle reports it from then on. A request that
  was made and not taken reaches the task: a future that asks first when it is polled has been told at
  the end of the next run.\<close>

theorem cancellation_delivered_once:
  assumes "dpc_env_ok E" and "fresh_executor (tallied E) L s0" and "snd (future_world s0) = 0"
    and "dpc_reach (tallied E) (l_tracker L) s0 s"
  shows "snd (future_world s) \<le> 1
    \<and> (\<forall>t. the_task s = Some t \<longrightarrow> th_cancel_requested t \<in> {0, 1, 2}
        \<and> (snd (future_world s) = 1 \<longleftrightarrow> th_cancel_requested t = 2))
    \<and> (\<forall>c. run_op (tallied E) c TakeCancelled s = Return (False, s))
    \<and> (\<forall>c t. the_task s = Some t \<and> 0 < handles s \<longrightarrow>
        (\<exists>s' t'. run_op (tallied E) c CancelTask s = Return (True, s') \<and> the_task s' = Some t'
          \<and> th_cancel_requested t' = (if th_cancel_requested t = 0 then 1 else th_cancel_requested t)
          \<and> (th_cancel_requested t = 0 \<and> th_completed t = 0 \<longrightarrow> dpc_queued (x_dpc E) (th_dpc t'))
          \<and> run_op (tallied E) c AskHandle s' = Return (True, s')))
    \<and> (\<forall>t f k processor n r. the_task s = Some t \<and> dpc_queued (x_dpc E) (th_dpc t) \<and> th_completed t = 0
        \<and> th_cancel_requested t = 1 \<and> task_future t = Holding f
        \<and> x_poll E f (fst (future_world s)) = Act TakeCancelled k \<and> current_cpu_index processor \<noteq> None
        \<and> dpc_arrive n (tallied E) processor s = Some r \<longrightarrow>
        (\<exists>s'. r = Return s' \<and> snd (future_world s') = 1))"
proof -
  have ok: "dpc_env_ok (tallied E)" using assms(1) by simp
  have a: "account (tallied E) L 0 None s" "sched_ok (tallied E) s" using dpc_reach_account [OF ok assms(2,4)] by auto
  have c: "counted s" using dpc_reach_counted [OF assms] .
  have "run_op (tallied E) c TakeCancelled s = Return (False, s)" for c
    using no_current_task [OF account_idle [OF a(1)], of c]
    by (simp add: run_op_def permitted_def take_cancellation_request_def)
  moreover have "\<exists>s'. r = Return s' \<and> snd (future_world s') = 1"
    if t: "the_task s = Some t" "dpc_queued (x_dpc E) (th_dpc t)" and u: "th_completed t = 0"
      "th_cancel_requested t = 1" "task_future t = Holding f" "x_poll E f (fst (future_world s)) = Act TakeCancelled k"
      "current_cpu_index processor \<noteq> None" and r: "dpc_arrive n (tallied E) processor s = Some r" for t f k processor n r
  proof -
    obtain s' where "r = Return s'" using dpc_arrive_ok [OF ok a(1) t(1) _ r] t(2) by auto
    then show ?thesis using arrive_takes [OF assms(1) a(1) t u _ c] r by blast
  qed
  moreover have "snd (future_world s) \<le> 1" and "flagged s"
    and "the_task s = Some t \<Longrightarrow> th_cancel_requested t \<in> {0, 1, 2}
      \<and> (snd (future_world s) = 1 \<longleftrightarrow> th_cancel_requested t = 2)" for t
    using c by (auto simp: counted_def flagged_def delivered_def)
  moreover note cancel_requests [OF assms(1) a]
  ultimately show ?thesis by blast
qed

text \<open>A task that ends when it is told, cancelled through its handle and run.\<close>

definition asking_env :: "(nat, unit, bool, bool) dpc_env" where
  "asking_env = nat_env\<lparr>x_poll := (\<lambda>f w. Act TakeCancelled (\<lambda>b.
     Finish (if b then Ready STATUS_CANCELLED else Pending, f, w)))\<rparr>"

definition asking_start :: "(nat, unit \<times> nat, bool, bool) executor" where
  "asking_start = \<lparr>task_ptr = null, the_task = None, CURRENT_TASKS = (\<lambda>i. null),
     TASK_BUDGET_MODE = TASK_BUDGET_MODE_POLLS, TASK_BUDGET_POLLS = DEFAULT_TASK_BUDGET_POLLS,
     TASK_BUDGET_TIME_US = DEFAULT_TASK_BUDGET_TIME_US, DEFAULT_TASK_TAG = KCOM_TAG,
     trackers = (\<lambda>a. tracker_new flag_event), memory = small_memory, future_world = ((), 0), queries = 0,
     wakers = 0, handles = 0, polls = 0, drops = 0, frees = 0\<rparr>"

lemma asking_fresh: "dpc_env_ok asking_env" "fresh_executor (tallied asking_env) nat_ledger asking_start"
proof -
  show "dpc_env_ok asking_env" using nat_env_ok by (simp add: asking_env_def dpc_env_ok_def)
  show "fresh_executor (tallied asking_env) nat_ledger asking_start"
    using nat_fresh by (simp add: fresh_executor_def asking_env_def asking_start_def nat_start_def)
qed

lemma asking_spawn:
  "\<exists>h s t. spawn_dpc_task_cancellable_tracked (tallied asking_env) (dpc_context cpu0) 4096 7 asking_start = Return (Inr h, s)
    \<and> the_task s = Some t \<and> th_completed t = 0 \<and> th_cancel_requested t = 0 \<and> handles s = 1
    \<and> task_future t = Holding 7 \<and> TASK_BUDGET_MODE s = TASK_BUDGET_MODE_POLLS
    \<and> TASK_BUDGET_POLLS s = DEFAULT_TASK_BUDGET_POLLS"
  by (simp add: alloc_eval executor_eval asking_env_def asking_start_def tallied_def
      spawn_dpc_task_cancellable_tracked_def cancel_handle_new_def)

theorem cancellation_delivered_once_witness:
  "\<exists>s s1 s2. dpc_reach (tallied asking_env) 4096 asking_start s
    \<and> run_op (tallied asking_env) (dpc_context cpu0) CancelTask s = Return (True, s1)
    \<and> dpc_arrive 65 (tallied asking_env) cpu0 s1 = Some (Return s2)
    \<and> snd (future_world s1) = 0 \<and> snd (future_world s2) = 1
    \<and> run_op (tallied asking_env) (dpc_context cpu0) TakeCancelled s2 = Return (False, s2)"
proof -
  let ?E = "tallied asking_env" and ?c = "dpc_context cpu0"
  have L: "l_tracker nat_ledger = 4096" by (simp add: nat_ledger_def)
  have ok: "dpc_env_ok ?E" using asking_fresh(1) by simp
  have z: "snd (future_world asking_start) = 0" by (simp add: asking_start_def)
  note once = cancellation_delivered_once [OF asking_fresh z, unfolded L]
  obtain h s t where s: "spawn_dpc_task_cancellable_tracked ?E ?c 4096 7 asking_start = Return (Inr h, s)"
    "the_task s = Some t" "th_completed t = 0" "th_cancel_requested t = 0" "handles s = 1" "task_future t = Holding 7"
    "TASK_BUDGET_MODE s = TASK_BUDGET_MODE_POLLS" "TASK_BUDGET_POLLS s = DEFAULT_TASK_BUDGET_POLLS"
    using asking_spawn by blast
  have r: "dpc_reach ?E 4096 asking_start s" using dpc_reach.spawned_cancellable [OF s(1)] .
  obtain s1 t1 where s1: "run_op ?E ?c CancelTask s = Return (True, s1)" "the_task s1 = Some t1"
    "th_cancel_requested t1 = 1" "dpc_queued (x_dpc asking_env) (th_dpc t1)"
    using once [OF r] s(2-5) by (metis zero_less_one)
  have r1: "dpc_reach ?E 4096 asking_start s1" using dpc_reach.acted [OF r _ s1(1)] by simp
  have a: "account ?E nat_ledger 0 None s" "sched_ok ?E s" "account ?E nat_ledger 0 None s1"
    using dpc_reach_account [OF ok asking_fresh(2)] r r1 L by auto
  have k: "keeps ?E s s1" using run_op_ok [OF ok a(1,2), of ?c CancelTask] s1(1) by (auto simp: op_ok_def)
  have t1: "th_completed t1 = 0" "task_future t1 = Holding 7" "TASK_BUDGET_MODE s1 = TASK_BUDGET_MODE_POLLS"
    "TASK_BUDGET_POLLS s1 = DEFAULT_TASK_BUDGET_POLLS"
    using k s(2,3,6-8) s1(2) by (auto simp: keeps_def)
  obtain q where q: "dpc_arrive 65 ?E cpu0 s1 = Some q"
    using dpc_arrive_polls_ends [OF ok a(3) s1(2), of 65 cpu0] s1(4) t1
    by (auto simp: DEFAULT_TASK_BUDGET_POLLS_def)
  have cpu: "current_cpu_index cpu0 \<noteq> None"
    by (simp add: current_cpu_index_def cpu0_def MAX_GROUP_COUNT_def MAX_PROC_PER_GROUP_def)
  have ask: "x_poll asking_env 7 (fst (future_world s1))
      = Act TakeCancelled (\<lambda>b. Finish (if b then Ready STATUS_CANCELLED else Pending, 7, fst (future_world s1)))"
    by (simp add: asking_env_def)
  obtain s2 where s2: "q = Return s2" "snd (future_world s2) = 1"
    using once [OF r1] s1(2-4) t1(1,2) ask cpu q by blast
  have "dpc_reach ?E 4096 asking_start s2" using dpc_reach.ran [OF r1 s1(2)] s1(4) q s2(1) by auto
  moreover have "snd (future_world s1) = 0" using once [OF r1] s1(2,3) by fastforce
  ultimately show ?thesis using r s1(1) q s2 once by blast
qed

end
