(* ===== verification/Work_Item_Safety.thy ===== *)
theory Work_Item_Safety
  imports Work_Item_Task
begin

text \<open>
  The ownership discipline of the work-item executor: every reference to a task belongs to a waker,
  a handle, the queued work item or the code that is running, and every work item, device reference,
  pool block and tracker entry belongs to the task. The account is kept as long as nobody wakes or
  cancels the task while its routine runs.
\<close>

section \<open>The account\<close>

definition wi_env_ok :: "('f, 'e, 'k) wi_env \<Rightarrow> bool" where
  "wi_env_ok E \<longleftrightarrow> valid_layout (w_layout E) \<and> layout_size (w_layout E) \<noteq> 0"

text \<open>What the laws of a \<open>TaskContext\<close> speak about.\<close>

record 'k item_view =
  v_ok :: "'k \<Rightarrow> bool"
  v_idle :: "'k \<Rightarrow> addr set"
  v_queued :: "'k \<Rightarrow> addr set"
  v_refs :: "'k \<Rightarrow> addr \<Rightarrow> nat"
  v_weight :: nat
  v_start :: "addr \<Rightarrow> 'k \<Rightarrow> 'k"

text \<open>
  What the rest of the driver has: the device and the references to devices, the tracker with the
  other work items outstanding there, the other pool blocks and work items.
\<close>

record wi_ledger =
  wl_device :: addr
  wl_refs :: "addr \<Rightarrow> nat"
  wl_tracker :: addr
  wl_pending :: nat
  wl_blocks :: "addr \<rightharpoonup> usize \<times> u32"
  wl_idle :: "addr set"
  wl_queued :: "addr set"

text \<open>\<open>own\<close> references belong to the running code; \<open>r\<close> is the work item whose routine runs.\<close>

definition wt_live :: "nat \<Rightarrow> ('f, 'e, 'k) wi_state \<Rightarrow> 'f WorkItemTask \<Rightarrow> bool" where
  "wt_live own s t \<longleftrightarrow>
     unat (wt_ref_count t) = wi_wakers s + wi_handles s + own + (if wt_scheduled t = 0 then 0 else 1)
     \<and> wt_ref_count t \<noteq> 0 \<and> wi_frees s = 0 \<and> (wt_completed t \<noteq> 0 \<longrightarrow> wt_scheduled t = 0)
     \<and> (if wt_completed t = 0 then wi_drops s = 0 \<and> wt_future t \<noteq> Emptied
        else wi_drops s = 1 \<and> wt_future t = Emptied)"

definition wt_items ::
  "'k item_view \<Rightarrow> wi_ledger \<Rightarrow> addr option \<Rightarrow> 'k \<Rightarrow> 'f WorkItemTask \<Rightarrow> bool" where
  "wt_items V L r k t \<longleftrightarrow>
     v_idle V k = (case r of None \<Rightarrow> wl_idle L | Some it \<Rightarrow> insert it (wl_idle L))
     \<and> v_queued V k = (if wt_scheduled t = 0 then wl_queued L else insert (wt_work_item t) (wl_queued L))
     \<and> (if wt_scheduled t = 0 then wt_work_item t = (case r of None \<Rightarrow> null | Some it \<Rightarrow> it) else r = None)
     \<and> (wt_scheduled t \<noteq> 0 \<or> r \<noteq> None \<longrightarrow>
          wt_work_item t \<noteq> null \<and> wt_work_item t \<notin> wl_idle L \<union> wl_queued L)
     \<and> v_refs V k = (wl_refs L)(wl_device L := wl_refs L (wl_device L) + v_weight V)"

abbreviation kcow_alloc :: WdkAllocator where
  "kcow_alloc \<equiv> wdk_allocator_new NonPagedNx KCOW_TAG"

definition wt_tracked ::
  "('f, 'e, 'k) wi_env \<Rightarrow> wi_ledger \<Rightarrow> nat \<Rightarrow> ('f, 'e, 'k) wi_state \<Rightarrow> bool" where
  "wt_tracked E L n s \<longleftrightarrow>
     (w_wdm E \<and> wl_tracker L \<noteq> null \<longrightarrow>
        work_item_counts (w_event E) (wi_trackers s (wl_tracker L)) (wl_pending L + n))"

text \<open>The memory and the tracker entry of a live task and of one that was freed.\<close>

definition wt_holds ::
  "('f, 'e, 'k) wi_env \<Rightarrow> wi_ledger \<Rightarrow> addr option \<Rightarrow> ('f, 'e, 'k) wi_state
    \<Rightarrow> 'f WorkItemTask \<Rightarrow> bool" where
  "wt_holds E L r s t \<longleftrightarrow>
     wdk_held (w_alloc_build E) (w_pool E) kcow_alloc [(wi_ptr s, w_layout E)] (wi_memory s)
     \<and> (map_of (blocks (wi_memory s)))
         (backing (w_alloc_build E) (wi_memory s) (wi_ptr s, w_layout E) := None) = wl_blocks L
     \<and> wt_tracker t = wl_tracker L \<and> wt_context t = wl_device L
     \<and> wt_tracked E L (if wt_scheduled t \<noteq> 0 \<or> r \<noteq> None then 1 else 0) s"

definition wt_gone ::
  "('f, 'e, 'k) wi_env \<Rightarrow> 'k item_view \<Rightarrow> wi_ledger \<Rightarrow> ('f, 'e, 'k) wi_state \<Rightarrow> bool" where
  "wt_gone E V L s \<longleftrightarrow>
     wi_wakers s = 0 \<and> wi_handles s = 0 \<and> wi_drops s \<le> 1 \<and> wi_frees s = 1
     \<and> pool_ok (w_pool E) (wi_memory s) \<and> map_of (blocks (wi_memory s)) = wl_blocks L
     \<and> wt_tracked E L 0 s
     \<and> v_idle V (wi_kernel s) = wl_idle L \<and> v_queued V (wi_kernel s) = wl_queued L
     \<and> v_refs V (wi_kernel s) = wl_refs L"

definition wi_account ::
  "('f, 'e, 'k) wi_env \<Rightarrow> 'k item_view \<Rightarrow> wi_ledger \<Rightarrow> nat \<Rightarrow> addr option
    \<Rightarrow> ('f, 'e, 'k) wi_state \<Rightarrow> bool" where
  "wi_account E V L own r s \<longleftrightarrow>
     wi_ptr s \<noteq> null \<and> wl_device L \<noteq> null \<and> wl_pending L + 1 < 2 ^ 32
     \<and> wi_wakers s + wi_handles s \<le> 2 ^ 31 - 8 \<and> v_ok V (wi_kernel s) \<and> (r \<noteq> None \<longrightarrow> 0 < own)
     \<and> (case wi_task s of
          None \<Rightarrow> own = 0 \<and> wt_gone E V L s
        | Some t \<Rightarrow> wt_live own s t \<and> wt_items V L r (wi_kernel s) t \<and> wt_holds E L r s t)"

text \<open>What the operations of holders never do: poll, complete, drop or replace the future.\<close>

definition wi_keeps :: "('f, 'e, 'k) wi_state \<Rightarrow> ('f, 'e, 'k) wi_state \<Rightarrow> bool" where
  "wi_keeps s s' \<longleftrightarrow>
     wi_polls s' = wi_polls s \<and> wi_ptr s' = wi_ptr s \<and> wi_drops s' = wi_drops s
     \<and> (\<forall>t'. wi_task s' = Some t' \<longrightarrow> (\<exists>t. wi_task s = Some t
          \<and> wt_completed t' = wt_completed t \<and> wt_future t' = wt_future t))"

lemma wi_keeps_refl [simp]: "wi_keeps s s"
  by (simp add: wi_keeps_def)

lemma wi_keeps_trans: "wi_keeps s s1 \<Longrightarrow> wi_keeps s1 s2 \<Longrightarrow> wi_keeps s s2"
  by (fastforce simp: wi_keeps_def)

lemma put_wt_simps [simp]:
  "wi_task (put_wt t s) = Some t" "wi_wakers (put_wt t s) = wi_wakers s"
  "wi_handles (put_wt t s) = wi_handles s" "wi_drops (put_wt t s) = wi_drops s"
  "wi_frees (put_wt t s) = wi_frees s" "wi_polls (put_wt t s) = wi_polls s"
  "wi_ptr (put_wt t s) = wi_ptr s" "wi_memory (put_wt t s) = wi_memory s"
  "wi_trackers (put_wt t s) = wi_trackers s" "wi_kernel (put_wt t s) = wi_kernel s"
  by (simp_all add: put_wt_def)

lemma put_put_wt [simp]: "put_wt t' (put_wt t s) = put_wt t' s"
  by (simp add: put_wt_def)

lemma put_wt_kernel [simp]: "put_wt t s\<lparr>wi_kernel := k\<rparr> = put_wt t (s\<lparr>wi_kernel := k\<rparr>)"
  by (simp add: put_wt_def)

lemma with_wt_Some: "wi_task s = Some t \<Longrightarrow> with_wt g s = g t"
  by (simp add: with_wt_def)

lemma with_put_wt [simp]: "with_wt g (put_wt t s) = g t"
  by (simp add: with_wt_def)

lemma wi_keeps_put:
  "wi_task s = Some t \<Longrightarrow> wt_completed t' = wt_completed t \<Longrightarrow> wt_future t' = wt_future t
    \<Longrightarrow> wi_keeps s (put_wt t' s)"
  by (simp add: wi_keeps_def)

lemma wt_tracker_simps [simp]:
  "wi_task (wt_tracker_begin E tr s) = wi_task s" "wi_task (wt_tracker_complete E tr s) = wi_task s"
  "wi_wakers (wt_tracker_begin E tr s) = wi_wakers s" "wi_wakers (wt_tracker_complete E tr s) = wi_wakers s"
  "wi_handles (wt_tracker_begin E tr s) = wi_handles s" "wi_handles (wt_tracker_complete E tr s) = wi_handles s"
  "wi_drops (wt_tracker_begin E tr s) = wi_drops s" "wi_drops (wt_tracker_complete E tr s) = wi_drops s"
  "wi_frees (wt_tracker_begin E tr s) = wi_frees s" "wi_frees (wt_tracker_complete E tr s) = wi_frees s"
  "wi_polls (wt_tracker_begin E tr s) = wi_polls s" "wi_polls (wt_tracker_complete E tr s) = wi_polls s"
  "wi_ptr (wt_tracker_begin E tr s) = wi_ptr s" "wi_ptr (wt_tracker_complete E tr s) = wi_ptr s"
  "wi_memory (wt_tracker_begin E tr s) = wi_memory s" "wi_memory (wt_tracker_complete E tr s) = wi_memory s"
  "wi_kernel (wt_tracker_begin E tr s) = wi_kernel s" "wi_kernel (wt_tracker_complete E tr s) = wi_kernel s"
  by (simp_all add: wt_tracker_begin_def wt_tracker_complete_def)

lemma wt_tracked_begin:
  assumes "wt_tracked E L 0 s" and "wl_pending L + 1 < 2 ^ 32"
  shows "wt_tracked E L 1 (wt_tracker_begin E (wl_tracker L) s)"
  using assms work_item_tracker.begin_counts
  by (auto simp: wt_tracked_def wt_tracker_begin_def)

lemma wt_tracked_complete:
  assumes "wt_tracked E L 1 s"
  shows "wt_tracked E L 0 (wt_tracker_complete E (wl_tracker L) s)"
  using assms work_item_tracker.complete_counts
  by (auto simp: wt_tracked_def wt_tracker_complete_def)

lemma wt_tracked_cong [simp]:
  "wt_tracked E L n (put_wt t s) = wt_tracked E L n s"
  "wt_tracked E L n (s\<lparr>wi_kernel := k\<rparr>) = wt_tracked E L n s"
  "wt_tracked E L n (s\<lparr>wi_wakers := w\<rparr>) = wt_tracked E L n s"
  "wt_tracked E L n (s\<lparr>wi_handles := w\<rparr>) = wt_tracked E L n s"
  "wt_tracked E L n (s\<lparr>wi_drops := w\<rparr>) = wt_tracked E L n s"
  "wt_tracked E L n (s\<lparr>wi_polls := w\<rparr>) = wt_tracked E L n s"
  by (simp_all add: wt_tracked_def put_wt_def)

lemmas wi_account_defs = wi_account_def wt_live_def wt_items_def wt_holds_def

lemma wi_account_task:
  assumes "wi_account E V L own r s" and "0 < own \<or> 0 < wi_wakers s \<or> 0 < wi_handles s"
  shows "\<exists>t. wi_task s = Some t \<and> wt_live own s t"
  using assms by (cases "wi_task s") (auto simp: wi_account_def wt_gone_def)

text \<open>A change of the reference count and of the references the running code owns.\<close>

lemma wi_account_ref:
  assumes "wi_account E V L own r s" and "wi_task s = Some t"
    and "wt_live own' s (t\<lparr>wt_ref_count := c\<rparr>)" and "r \<noteq> None \<longrightarrow> 0 < own'"
  shows "wi_account E V L own' r (put_wt (t\<lparr>wt_ref_count := c\<rparr>) s)"
  using assms by (auto simp: wi_account_defs)

lemma wi_account_lend:
  assumes "wi_account E V L own r s"
  shows "0 < wi_wakers s \<Longrightarrow> wi_account E V L (Suc own) r (s\<lparr>wi_wakers := wi_wakers s - 1\<rparr>)"
    and "0 < wi_handles s \<Longrightarrow> wi_account E V L (Suc own) r (s\<lparr>wi_handles := wi_handles s - 1\<rparr>)"
  using assms by (cases "wi_task s"; simp add: wi_account_defs wt_gone_def; auto)+

section \<open>References\<close>

lemma wt_add_ref_counts:
  assumes "wi_task s = Some t" and "unat (wt_ref_count t) < 2 ^ 31 - 1"
  shows "\<exists>c. wt_add_ref E s = Return (put_wt (t\<lparr>wt_ref_count := c\<rparr>) s)
    \<and> unat c = unat (wt_ref_count t) + 1"
proof -
  have "unat (wt_ref_count t) < refcount_cap (w_build E)" using assms(2) by (simp add: refcount_cap_def)
  from refcount.add_counts [OF this] show ?thesis
    using assms(1) by (auto simp: wt_add_ref_def with_wt_Some)
qed

lemma wt_live_small:
  assumes "wi_account E V L own r s" and "wi_task s = Some t" and "own \<le> 4"
  shows "unat (wt_ref_count t) < 2 ^ 31 - 2"
  using assms by (auto simp: wi_account_defs split: if_splits)

lemma wt_add_ref_ok:
  assumes "wi_account E V L own r s" and "wi_task s = Some t" and "own \<le> 4"
  shows "\<exists>c. wt_add_ref E s = Return (put_wt (t\<lparr>wt_ref_count := c\<rparr>) s)
    \<and> wi_account E V L (Suc own) r (put_wt (t\<lparr>wt_ref_count := c\<rparr>) s)
    \<and> unat c = unat (wt_ref_count t) + 1"
proof -
  obtain c where c: "wt_add_ref E s = Return (put_wt (t\<lparr>wt_ref_count := c\<rparr>) s)"
    "unat c = unat (wt_ref_count t) + 1"
    using wt_add_ref_counts [OF assms(2)] wt_live_small [OF assms] by fastforce
  have "wt_live (Suc own) s (t\<lparr>wt_ref_count := c\<rparr>)"
    using assms(1,2) c(2) by (auto simp: wi_account_def wt_live_def)
  then show ?thesis using c wi_account_ref [OF assms(1,2)] by auto
qed

lemma wt_release_counts:
  assumes "wi_task s = Some t" and "1 < unat (wt_ref_count t)"
  shows "\<exists>c. wt_release E s = Return (put_wt (t\<lparr>wt_ref_count := c\<rparr>) s)
    \<and> unat c = unat (wt_ref_count t) - 1 \<and> c \<noteq> 0"
proof -
  obtain c where c: "refcount_sub (w_build E) (wt_ref_count t) = Return (c, c)"
    "unat c = unat (wt_ref_count t) - 1"
    using refcount.sub_counts [of "wt_ref_count t" "w_build E"] assms(2) by auto
  then have "c \<noteq> 0" using assms(2) by (metis unat_eq_zero_iff zero_less_diff less_numeral_extra(3))
  then show ?thesis using c assms(1) by (auto simp: wt_release_def with_wt_Some Let_def)
qed

lemma wt_release_shared:
  assumes "wi_account E V L (Suc own) r s" and "wi_task s = Some t" and "1 < unat (wt_ref_count t)"
    and "r \<noteq> None \<longrightarrow> 0 < own"
  shows "\<exists>c. wt_release E s = Return (put_wt (t\<lparr>wt_ref_count := c\<rparr>) s)
    \<and> wi_account E V L own r (put_wt (t\<lparr>wt_ref_count := c\<rparr>) s)"
proof -
  obtain c where c: "wt_release E s = Return (put_wt (t\<lparr>wt_ref_count := c\<rparr>) s)"
    "unat c = unat (wt_ref_count t) - 1" "c \<noteq> 0"
    using wt_release_counts [OF assms(2,3)] by blast
  have "wt_live own s (t\<lparr>wt_ref_count := c\<rparr>)"
    using assms(1,2) c(2,3) by (auto simp: wi_account_def wt_live_def)
  then show ?thesis using c wi_account_ref [OF assms(1,2) _ assms(4)] by auto
qed

lemma wt_box_freed:
  assumes "wi_env_ok E" and "wt_holds E L r s t"
  shows "\<exists>m. kbox_drop (wdk_ops (w_alloc_build E) (w_pool E) kcow_alloc) (\<lambda>p m. Return m)
      (kbox_from_raw_parts (wi_ptr s) (w_layout E)) (wi_memory s) = Return m
    \<and> pool_ok (w_pool E) m \<and> map_of (blocks m) = wl_blocks L"
proof -
  have h: "wdk_held (w_alloc_build E) (w_pool E) kcow_alloc
      ([] @ (wi_ptr s, w_layout E) # []) (wi_memory s)"
    and b: "(map_of (blocks (wi_memory s)))
      (backing (w_alloc_build E) (wi_memory s) (wi_ptr s, w_layout E) := None) = wl_blocks L"
    using assms(2) by (auto simp: wt_holds_def)
  obtain m where m: "wdk_dealloc (w_alloc_build E) (w_pool E) kcow_alloc (wi_ptr s) (w_layout E)
      (wi_memory s) = Return m" "wdk_held (w_alloc_build E) (w_pool E) kcow_alloc [] m"
    using wdk_dealloc_law [OF h] by auto
  have "map_of (blocks m) = wl_blocks L"
    using wdk_dealloc_blocks [OF h _ m(1)] assms(1) b by (simp add: wi_env_ok_def delete_conv')
  then show ?thesis
    using m by (simp add: kbox_drop_def wdk_ops_def kbox_from_raw_parts_def wdk_held_def)
qed

section \<open>The executor over a backend\<close>

locale work_item_executor =
  task_context "w_context E" "v_ok V" "v_idle V" "v_queued V" "v_refs V" "v_weight V" "v_start V"
  for E :: "('f, 'e, 'k) wi_env" and V :: "'k item_view"
begin

lemma wi_release_last:
  assumes "wi_env_ok E" and "wi_account E V L 1 None s" and "wi_task s = Some t"
    and "unat (wt_ref_count t) = 1"
  shows "\<exists>s'. wt_release E s = Return s' \<and> wi_account E V L 0 None s' \<and> wi_keeps s s' \<and> wi_task s' = None"
proof -
  have a: "wt_live 1 s t" "wt_items V L None (wi_kernel s) t" "wt_holds E L None s t"
    "v_ok V (wi_kernel s)" "wl_device L \<noteq> null"
    using assms(2,3) by (auto simp: wi_account_def)
  have z: "wi_wakers s = 0" "wi_handles s = 0" "wt_scheduled t = 0"
    using a(1) assms(4) by (auto simp: wt_live_def split: if_splits)
  have sub: "refcount_sub (w_build E) (wt_ref_count t) = Return (0, 0)"
    using refcount.sub_counts [of "wt_ref_count t" "w_build E"] assms(4)
    by (metis diff_self_eq_0 unat_eq_zero_iff zero_less_one)
  obtain m where m: "kbox_drop (wdk_ops (w_alloc_build E) (w_pool E) kcow_alloc) (\<lambda>p m. Return m)
      (kbox_from_raw_parts (wi_ptr s) (w_layout E)) (wi_memory s) = Return m"
    "pool_ok (w_pool E) m" "map_of (blocks m) = wl_blocks L"
    using wt_box_freed [OF assms(1) a(3)] by blast
  have refs: "v_refs V (wi_kernel s) (wl_device L) = wl_refs L (wl_device L) + v_weight V"
    using a(2) by (simp add: wt_items_def)
  note k = release_law [OF a(4,5) refs]
  let ?s = "s\<lparr>wi_task := None, wi_memory := m, wi_frees := wi_frees s + 1,
    wi_kernel := ctx_release (w_context E) (wl_device L) (wi_kernel s)\<rparr>"
  have "wt_release E s = Return ?s"
    using sub assms(3) m(1) a(3) valid_law [of "wl_device L"] a(5)
    by (simp add: wt_release_def with_wt_Some wt_free_def Let_def wt_holds_def put_wt_def)
  moreover have "wt_gone E V L ?s"
    using a k z m by (auto simp: wt_gone_def wt_live_def wt_items_def wt_holds_def wt_tracked_def
        split: if_splits)
  then have "wi_account E V L 0 None ?s" using assms(2) k by (simp add: wi_account_def z)
  ultimately show ?thesis by (auto simp: wi_keeps_def)
qed

lemma wi_release_ok:
  assumes "wi_env_ok E" and "wi_account E V L (Suc own) r s" and "r \<noteq> None \<longrightarrow> 0 < own"
  shows "\<exists>s'. wt_release E s = Return s' \<and> wi_account E V L own r s' \<and> wi_keeps s s'"
proof -
  obtain t where t: "wi_task s = Some t" "wt_live (Suc own) s t"
    using wi_account_task [OF assms(2)] by auto
  show ?thesis
  proof (cases "1 < unat (wt_ref_count t)")
    case True
    then show ?thesis
      using wt_release_shared [OF assms(2) t(1) _ assms(3)] wi_keeps_put [OF t(1)] by fastforce
  next
    case False
    then have 1: "unat (wt_ref_count t) = 1" "own = 0" using t(2) by (auto simp: wt_live_def)
    then have "r = None" using assms(3) by auto
    then show ?thesis using wi_release_last [OF assms(1) _ t(1) 1(1), of L] assms(2) 1(2) by auto
  qed
qed

lemma schedule_fresh:
  assumes "wi_account E V L own None s" and "wi_task s = Some t" and "own \<le> 4"
    and "wt_completed t = 0" and "wt_scheduled t = 0"
  shows "\<exists>st s' t'. wt_schedule E s = Return (st, s') \<and> wi_account E V L own None s' \<and> wi_keeps s s'
    \<and> wi_task s' = Some t' \<and> (wt_scheduled t' = 0 \<longleftrightarrow> st \<noteq> STATUS_SUCCESS)
    \<and> wt_cancel_requested t' = wt_cancel_requested t
    \<and> wi_wakers s' = wi_wakers s \<and> wi_handles s' = wi_handles s"
proof -
  have a: "wt_live own s t" "wt_items V L None (wi_kernel s) t" "wt_holds E L None s t"
    "v_ok V (wi_kernel s)" "wl_device L \<noteq> null" "wl_pending L + 1 < 2 ^ 32"
    using assms(1,2) by (auto simp: wi_account_def)
  have tr: "wt_tracker t = wl_tracker L" "wt_context t = wl_device L" "wt_tracked E L 0 s"
    using a(3) assms(5) by (simp_all add: wt_holds_def)
  let ?p = "wi_ptr s" let ?t1 = "t\<lparr>wt_scheduled := 1\<rparr>"
  let ?s2 = "wt_tracker_begin E (wl_tracker L) (put_wt ?t1 s)"
  have tr1: "wt_tracked E L 1 ?s2" using wt_tracked_begin [of E L "put_wt ?t1 s"] tr(3) a(6) by simp
  obtain st it k1 where k1: "ctx_create_work_item (w_context E) (wl_device L) ?p (wi_kernel s)
      = Return ((st, it), k1)" "v_ok V k1" "v_refs V k1 = v_refs V (wi_kernel s)"
    "if st = STATUS_SUCCESS
       then it \<noteq> null \<and> it \<notin> v_idle V (wi_kernel s) \<and> it \<notin> v_queued V (wi_kernel s)
         \<and> (\<exists>k2. ctx_enqueue_work_item (w_context E) it ?p k1 = Return k2 \<and> v_ok V k2
             \<and> v_refs V k2 = v_refs V (wi_kernel s) \<and> v_idle V k2 = v_idle V (wi_kernel s)
             \<and> v_queued V k2 = insert it (v_queued V (wi_kernel s)))
       else v_idle V k1 = v_idle V (wi_kernel s) \<and> v_queued V k1 = v_queued V (wi_kernel s)"
    using create_enqueue [OF a(4,5), of ?p] by blast
  have valid: "ctx_is_valid (w_context E) (wl_device L)" using valid_law a(5) by simp
  show ?thesis
  proof (cases "st = STATUS_SUCCESS")
    case False
    let ?t = "?t1\<lparr>wt_scheduled := 0\<rparr>"
    let ?s = "wt_tracker_complete E (wl_tracker L) (put_wt ?t (?s2\<lparr>wi_kernel := k1\<rparr>))"
    have "wt_tracked E L 0 ?s" by (rule wt_tracked_complete) (use tr1 in simp)
    then have "wi_account E V L own None ?s"
      using assms a k1 False by (auto simp: wi_account_defs)
    moreover have "wt_schedule E s = Return (st, ?s)"
      using assms(2,4,5) k1(1) tr valid False by (simp add: wt_schedule_def with_wt_Some Let_def)
    ultimately show ?thesis using False assms(2) by (auto simp: wi_keeps_def)
  next
    case True
    then obtain k2 where it: "it \<noteq> null" "it \<notin> v_idle V (wi_kernel s)" "it \<notin> v_queued V (wi_kernel s)"
      and k2: "ctx_enqueue_work_item (w_context E) it ?p k1 = Return k2" "v_ok V k2"
      "v_refs V k2 = v_refs V (wi_kernel s)" "v_idle V k2 = v_idle V (wi_kernel s)"
      "v_queued V k2 = insert it (v_queued V (wi_kernel s))"
      using k1(4) by auto
    obtain c where c: "wt_add_ref E (put_wt (?t1\<lparr>wt_work_item := it\<rparr>) (?s2\<lparr>wi_kernel := k1\<rparr>))
        = Return (put_wt (?t1\<lparr>wt_work_item := it, wt_ref_count := c\<rparr>) (?s2\<lparr>wi_kernel := k1\<rparr>))"
      "unat c = unat (wt_ref_count t) + 1"
      using wt_add_ref_counts [of "put_wt (?t1\<lparr>wt_work_item := it\<rparr>) (?s2\<lparr>wi_kernel := k1\<rparr>)"]
        wt_live_small [OF assms(1-3)] by fastforce
    let ?t = "?t1\<lparr>wt_work_item := it, wt_ref_count := c\<rparr>"
    let ?s = "put_wt ?t (?s2\<lparr>wi_kernel := k2\<rparr>)"
    have "wt_live own ?s ?t" using a(1) assms(4,5) c(2) by (auto simp: wt_live_def)
    moreover have "wt_items V L None k2 ?t" using a(2) it k2 assms(5) by (auto simp: wt_items_def)
    moreover have "wt_holds E L None ?s ?t" using a(3) tr1 by (auto simp: wt_holds_def)
    ultimately have "wi_account E V L own None ?s" using assms(1,2) k2(2) by (simp add: wi_account_def)
    moreover have "wt_schedule E s = Return (st, ?s)"
      using assms(2,4,5) k1(1) k2(1) tr valid True c(1)
      by (simp add: wt_schedule_def with_wt_Some Let_def)
    ultimately show ?thesis using True assms(2,4) by (auto simp: wi_keeps_def)
  qed
qed

lemma wi_schedule_ok:
  assumes "wi_account E V L own None s" and "wi_task s = Some t" and "own \<le> 4"
  shows "\<exists>st s' t'. wt_schedule E s = Return (st, s') \<and> wi_account E V L own None s' \<and> wi_keeps s s'
    \<and> wi_task s' = Some t' \<and> (wt_completed t = 0 \<longrightarrow> (wt_scheduled t' = 0 \<longleftrightarrow> st \<noteq> STATUS_SUCCESS))
    \<and> wt_cancel_requested t' = wt_cancel_requested t
    \<and> wi_wakers s' = wi_wakers s \<and> wi_handles s' = wi_handles s"
proof (cases "wt_completed t = 0 \<and> wt_scheduled t = 0")
  case True
  then show ?thesis using schedule_fresh [OF assms] by fastforce
next
  case False
  then show ?thesis using assms(1,2) by (auto simp: wt_schedule_def with_wt_Some)
qed

lemma wi_cancel_ok:
  assumes "wi_account E V L own None s" and "wi_task s = Some t" and "own \<le> 4"
  shows "\<exists>s' t'. wt_cancel E s = Return s' \<and> wi_account E V L own None s' \<and> wi_keeps s s'
    \<and> wi_task s' = Some t'"
proof (cases "wt_cancel_requested t = 0")
  case True
  let ?t = "t\<lparr>wt_cancel_requested := 1\<rparr>"
  have a: "wi_account E V L own None (put_wt ?t s)" using assms(1,2) by (auto simp: wi_account_defs)
  obtain st s' t' where "wt_schedule E (put_wt ?t s) = Return (st, s')" "wi_account E V L own None s'"
    "wi_keeps (put_wt ?t s) s'" "wi_task s' = Some t'"
    using wi_schedule_ok [OF a _ assms(3)] by fastforce
  then show ?thesis
    using True assms(2) wi_keeps_trans [OF wi_keeps_put [OF assms(2), of ?t]]
    by (auto simp: wt_cancel_def with_wt_Some)
next
  case False
  then show ?thesis using assms by (auto simp: wt_cancel_def with_wt_Some)
qed

text \<open>An operation of a holder; while a routine runs only those that do not schedule.\<close>

lemma clone_ok:
  assumes "wi_account E V L own r s" and "own \<le> 3" and "wi_task s = Some t"
    and "wi_wakers s + wi_handles s < 2 ^ 31 - 8"
  shows "\<exists>c. wt_add_ref E s = Return (put_wt (t\<lparr>wt_ref_count := c\<rparr>) s)
    \<and> wi_account E V L own r (put_wt (t\<lparr>wt_ref_count := c\<rparr>) s\<lparr>wi_wakers := wi_wakers s + 1\<rparr>)
    \<and> wi_account E V L own r (put_wt (t\<lparr>wt_ref_count := c\<rparr>) s\<lparr>wi_handles := wi_handles s + 1\<rparr>)
    \<and> wi_keeps s (put_wt (t\<lparr>wt_ref_count := c\<rparr>) s)"
proof -
  obtain c where c: "wt_add_ref E s = Return (put_wt (t\<lparr>wt_ref_count := c\<rparr>) s)"
    "wi_account E V L (Suc own) r (put_wt (t\<lparr>wt_ref_count := c\<rparr>) s)"
    using wt_add_ref_ok [OF assms(1,3)] assms(2) by auto
  then show ?thesis
    using assms(1,4) wi_keeps_put [OF assms(3)] by (auto simp: wi_account_defs)
qed

lemma give_back_ok:
  assumes "wi_env_ok E" and "wi_account E V L (Suc own) r s" and "r \<noteq> None \<longrightarrow> 0 < own" and "wi_keeps s0 s"
  shows "\<exists>s'. wt_release E s = Return s' \<and> wi_account E V L own r s' \<and> wi_keeps s0 s'"
  using wi_release_ok [OF assms(1-3)] wi_keeps_trans [OF assms(4)] by blast

end

text \<open>The operations that do not schedule the task.\<close>

definition quiet_op :: "waker_op \<Rightarrow> bool" where
  "quiet_op p \<longleftrightarrow> p \<noteq> WakeWaker \<and> p \<noteq> WakeByRef \<and> p \<noteq> CancelTask"

primrec quiet :: "'r activity \<Rightarrow> bool" where
  "quiet (Finish x) = True"
| "quiet (Act p k) = (quiet_op p \<and> (\<forall>b. quiet (k b)))"

definition wi_quiet :: "('f, 'e, 'k) wi_env \<Rightarrow> bool" where
  "wi_quiet E \<longleftrightarrow> (\<forall>f. quiet (w_poll E f) \<and> quiet (w_drop E f))"

lemma wi_keeps_lent [simp]:
  "wi_keeps (s\<lparr>wi_wakers := n\<rparr>) s' \<longleftrightarrow> wi_keeps s s'" "wi_keeps (s\<lparr>wi_handles := n\<rparr>) s' \<longleftrightarrow> wi_keeps s s'"
  "wi_keeps s (s'\<lparr>wi_wakers := n\<rparr>) \<longleftrightarrow> wi_keeps s s'" "wi_keeps s (s'\<lparr>wi_handles := n\<rparr>) \<longleftrightarrow> wi_keeps s s'"
  by (simp_all add: wi_keeps_def)

context work_item_executor
begin

lemma wake_ok:
  assumes "wi_env_ok E" and "wi_account E V L own None s" and "own \<le> 3" and "0 < wi_wakers s"
  shows "\<exists>s'. wt_wake_raw E (wi_ptr s) (s\<lparr>wi_wakers := wi_wakers s - 1\<rparr>) = Return s'
    \<and> wi_account E V L own None s' \<and> wi_keeps s s'"
proof -
  let ?s = "s\<lparr>wi_wakers := wi_wakers s - 1\<rparr>"
  have a: "wi_account E V L (Suc own) None ?s" using wi_account_lend(1) [OF assms(2,4)] .
  then obtain t where "wi_task ?s = Some t" using wi_account_task by blast
  from wi_schedule_ok [OF a this] assms(3) obtain st s1 where s1: "wt_schedule E ?s = Return (st, s1)"
    "wi_account E V L (Suc own) None s1" "wi_keeps s s1"
    by auto
  have "wi_ptr s \<noteq> null" using assms(2) by (simp add: wi_account_def)
  then show ?thesis using s1(1) give_back_ok [OF assms(1) s1(2) _ s1(3)] by (simp add: wt_wake_raw_def)
qed

lemma wi_run_op_ok:
  assumes "wi_env_ok E" and "wi_account E V L own r s" and "own \<le> 3" and "polling \<longrightarrow> 0 < own"
    and "r \<noteq> None \<longrightarrow> quiet_op p"
  shows "\<exists>b s'. wi_run_op E polling p s = Return (b, s') \<and> wi_account E V L own r s' \<and> wi_keeps s s'"
proof (cases "wi_permitted polling p s")
  case False
  then show ?thesis using assms(2) by (auto simp: wi_run_op_def)
next
  case True
  have p0: "wi_ptr s \<noteq> null" and own: "r \<noteq> None \<longrightarrow> 0 < own"
    using assms(2) by (simp_all add: wi_account_def)
  have "0 < own \<or> 0 < wi_wakers s \<or> 0 < wi_handles s"
    using True assms(4) by (cases p) (auto simp: wi_permitted_def)
  then obtain t where t: "wi_task s = Some t" using wi_account_task [OF assms(2)] by blast
  show ?thesis
  proof (cases p)
    case CloneWaker
    then show ?thesis
      using True p0 clone_ok [OF assms(2,3) t]
      by (auto simp: wi_run_op_def wi_permitted_def wt_clone_raw_def wt_raw_waker_def)
  next
    case DropWaker
    then have "0 < wi_wakers s" using True by (simp add: wi_permitted_def)
    from give_back_ok [OF assms(1) wi_account_lend(1) [OF assms(2) this] own, of s]
    show ?thesis using True p0 DropWaker by (auto simp: wi_run_op_def wt_drop_raw_def)
  next
    case WakeWaker
    then have "r = None" "0 < wi_wakers s" using assms(5) True by (auto simp: quiet_op_def wi_permitted_def)
    then show ?thesis using wake_ok [OF assms(1)] assms(2,3) True WakeWaker by (fastforce simp: wi_run_op_def)
  next
    case WakeByRef
    then have "r = None" using assms(5) by (auto simp: quiet_op_def)
    then obtain st s' where "wt_schedule E s = Return (st, s')" "wi_account E V L own r s'" "wi_keeps s s'"
      using wi_schedule_ok [OF _ t, of L own] assms(2,3) by auto
    then show ?thesis using True WakeByRef p0 by (auto simp: wi_run_op_def wt_wake_by_ref_raw_def)
  next
    case CancelTask
    then have "r = None" using assms(5) by (auto simp: quiet_op_def)
    then obtain s' where "wt_cancel E s = Return s'" "wi_account E V L own r s'" "wi_keeps s s'"
      using wi_cancel_ok [OF _ t, of L own] assms(2,3) by auto
    then show ?thesis using True CancelTask p0 by (auto simp: wi_run_op_def wh_cancel_def)
  next
    case AskHandle
    then show ?thesis
      using True assms(2) p0 t by (simp add: wi_run_op_def wh_is_cancelled_def with_wt_Some)
  next
    case CloneHandle
    then show ?thesis
      using True p0 clone_ok [OF assms(2,3) t]
      by (auto simp: wi_run_op_def wi_permitted_def wh_clone_def)
  next
    case DropHandle
    then have "0 < wi_handles s" using True by (simp add: wi_permitted_def)
    from give_back_ok [OF assms(1) wi_account_lend(2) [OF assms(2) this] own, of s]
    show ?thesis using True p0 DropHandle by (auto simp: wi_run_op_def wh_drop_def Let_def)
  qed (use True in \<open>simp_all add: wi_permitted_def\<close>)
qed

lemma activity_ok:
  assumes "wi_env_ok E" and "wi_account E V L own r s" and "own \<le> 3" and "polling \<longrightarrow> 0 < own"
    and "r \<noteq> None \<longrightarrow> quiet a"
  shows "\<exists>x s'. wi_activity E polling a s = Return (x, s') \<and> wi_account E V L own r s' \<and> wi_keeps s s'"
  using assms(2,5)
proof (induction a arbitrary: s)
  case (Act p k)
  obtain b s1 where s1: "wi_run_op E polling p s = Return (b, s1)" "wi_account E V L own r s1"
    "wi_keeps s s1"
    using wi_run_op_ok [OF assms(1) Act.prems(1) assms(3,4), of p] Act.prems(2) by auto
  have "r \<noteq> None \<longrightarrow> quiet (k b)" using Act.prems(2) by auto
  from Act.IH [OF _ s1(2) this] obtain x s' where "wi_activity E polling (k b) s1 = Return (x, s')"
    "wi_account E V L own r s'" "wi_keeps s1 s'"
    by auto
  then show ?case using s1 wi_keeps_trans [OF s1(3)] by auto
qed simp

lemma finish_ok:
  assumes "wi_env_ok E" and "wi_quiet E" and "wi_account E V L own (Some it) s" and "own \<le> 3"
    and "wi_task s = Some t" and "wt_completed t = 0"
  shows "\<exists>s'. wt_finish_future E s = Return s' \<and> wi_account E V L own (Some it) s'"
proof -
  obtain f where f: "wt_future t = Holding f"
    using assms(3,5,6) by (cases "wt_future t") (auto simp: wi_account_defs)
  let ?s = "put_wt (t\<lparr>wt_completed := 1, wt_future := Emptied\<rparr>) s\<lparr>wi_drops := wi_drops s + 1\<rparr>"
  have "wt_scheduled t = 0" using assms(3,5) by (auto simp: wi_account_defs split: if_splits)
  then have "wi_account E V L own (Some it) ?s" using assms(3,5,6) by (auto simp: wi_account_defs)
  from activity_ok [OF assms(1) this assms(4), of False "w_drop E f"] assms(2)
  show ?thesis using assms(5) f by (auto simp: wt_finish_future_def with_wt_Some wi_quiet_def)
qed

lemma poll_ok:
  assumes "wi_env_ok E" and "wi_quiet E" and "wi_account E V L 1 (Some it) s"
    and "wi_task s = Some t" and "wt_completed t = 0"
  shows "\<exists>s'. wt_poll E s = Return s' \<and> wi_account E V L 1 (Some it) s'"
proof -
  obtain c where c: "wt_add_ref E s = Return (put_wt (t\<lparr>wt_ref_count := c\<rparr>) s)"
    "wi_account E V L 2 (Some it) (put_wt (t\<lparr>wt_ref_count := c\<rparr>) s)"
    using wt_add_ref_ok [OF assms(3,4)] by (auto simp: numeral_2_eq_2)
  let ?s1 = "put_wt (t\<lparr>wt_ref_count := c\<rparr>) s"
  obtain f where f: "wt_future t = Holding f"
    using assms(3-5) by (cases "wt_future t") (auto simp: wi_account_defs)
  have "wi_account E V L 2 (Some it) (?s1\<lparr>wi_polls := wi_polls ?s1 + 1\<rparr>)"
    using c(2) by (auto simp: wi_account_defs)
  from activity_ok [OF assms(1) this, of True "w_poll E f"] assms(2) obtain r f' s2 where
    s2: "wi_activity E True (w_poll E f) (?s1\<lparr>wi_polls := wi_polls ?s1 + 1\<rparr>) = Return ((r, f'), s2)"
    "wi_account E V L 2 (Some it) s2" "wi_keeps (?s1\<lparr>wi_polls := wi_polls ?s1 + 1\<rparr>) s2"
    by (auto simp: wi_quiet_def)
  obtain t2 where t2: "wi_task s2 = Some t2" using wi_account_task [OF s2(2)] by auto
  then have t2c: "wt_completed t2 = 0" using s2(3) assms(5) by (auto simp: wi_keeps_def)
  let ?s3 = "put_wt (t2\<lparr>wt_future := Holding f'\<rparr>) s2"
  have a3: "wi_account E V L 2 (Some it) ?s3" using s2(2) t2 t2c by (auto simp: wi_account_defs)
  have "\<exists>s4. (case r of Ready status \<Rightarrow> wt_finish_future E ?s3 | Pending \<Rightarrow> Return ?s3) = Return s4
      \<and> wi_account E V L 2 (Some it) s4"
    using finish_ok [OF assms(1,2) a3] t2c a3 by (cases r) auto
  then obtain s4 where s4: "(case r of Ready status \<Rightarrow> wt_finish_future E ?s3 | Pending \<Rightarrow> Return ?s3)
      = Return s4" "wi_account E V L (Suc 1) (Some it) s4"
    by (auto simp: numeral_2_eq_2)
  obtain s5 where "wt_release E s4 = Return s5" "wi_account E V L 1 (Some it) s5"
    using wi_release_ok [OF assms(1) s4(2)] by auto
  moreover have "wi_ptr s \<noteq> null" using assms(3) by (simp add: wi_account_def)
  ultimately show ?thesis
    using c(1) f s2(1) t2 s4(1)
    by (simp add: wt_poll_def wt_raw_waker_def wt_drop_raw_def with_wt_Some)
qed

text \<open>The end of the routine: the item is deleted, the tracker told and the reference given back.\<close>

lemma run_end_account:
  assumes "wi_account E V L 1 (Some it) s" and "wi_task s = Some t"
  shows "\<exists>k. ctx_delete_work_item (w_context E) it (wi_kernel s) = Return k
    \<and> wi_account E V L (Suc 0) None
        (wt_tracker_complete E (wt_tracker t) (put_wt (t\<lparr>wt_work_item := null\<rparr>) s\<lparr>wi_kernel := k\<rparr>))"
proof -
  have a: "wt_live 1 s t" "wt_items V L (Some it) (wi_kernel s) t" "wt_holds E L (Some it) s t"
    "v_ok V (wi_kernel s)"
    using assms by (auto simp: wi_account_def)
  have sch: "wt_scheduled t = 0" using a(2) by (auto simp: wt_items_def split: if_splits)
  have it: "it \<in> v_idle V (wi_kernel s)" "it \<notin> v_queued V (wi_kernel s)" "it \<noteq> null"
    using a(2) sch by (auto simp: wt_items_def)
  obtain k where k: "ctx_delete_work_item (w_context E) it (wi_kernel s) = Return k" "v_ok V k"
    "v_refs V k = v_refs V (wi_kernel s)" "v_idle V k = v_idle V (wi_kernel s) - {it}"
    "v_queued V k = v_queued V (wi_kernel s)"
    using delete_law [OF a(4) it] by blast
  let ?t = "t\<lparr>wt_work_item := null\<rparr>"
  let ?s = "wt_tracker_complete E (wt_tracker t) (put_wt ?t s\<lparr>wi_kernel := k\<rparr>)"
  have "wt_tracked E L 0 (wt_tracker_complete E (wl_tracker L) (put_wt ?t s\<lparr>wi_kernel := k\<rparr>))"
    by (rule wt_tracked_complete) (use a(3) in \<open>simp add: wt_holds_def\<close>)
  then have "wt_holds E L None ?s ?t" using a(3) sch by (auto simp: wt_holds_def)
  moreover have "wt_live 1 ?s ?t" using a(1) by (auto simp: wt_live_def)
  moreover have "wt_items V L None k ?t" using a(2) k sch by (auto simp: wt_items_def)
  ultimately have "wi_account E V L (Suc 0) None ?s"
    using assms k(2) by (simp add: wi_account_def)
  then show ?thesis using k(1) by blast
qed

lemma run_end_ok:
  assumes "wi_env_ok E" and "wi_account E V L 1 (Some it) s" and "wi_task s = Some t"
  shows "\<exists>k s'. ctx_delete_work_item (w_context E) it (wi_kernel s) = Return k
    \<and> wt_release E (wt_tracker_complete E (wt_tracker t) (put_wt (t\<lparr>wt_work_item := null\<rparr>) s\<lparr>wi_kernel := k\<rparr>))
        = Return s'
    \<and> wi_account E V L 0 None s'"
  using run_end_account [OF assms(2,3)] wi_release_ok [OF assms(1)] by blast

lemma run_end_unheld:
  assumes "wi_env_ok E" and "wi_account E V L 1 (Some it) s" and "wi_task s = Some t"
    and "unat (wt_ref_count t) = 1"
  shows "\<exists>k s'. ctx_delete_work_item (w_context E) it (wi_kernel s) = Return k
    \<and> wt_release E (wt_tracker_complete E (wt_tracker t) (put_wt (t\<lparr>wt_work_item := null\<rparr>) s\<lparr>wi_kernel := k\<rparr>))
        = Return s'
    \<and> wi_account E V L 0 None s' \<and> wi_task s' = None \<and> wi_drops s' = wi_drops s"
proof -
  obtain k where k: "ctx_delete_work_item (w_context E) it (wi_kernel s) = Return k"
    "wi_account E V L 1 None
      (wt_tracker_complete E (wt_tracker t) (put_wt (t\<lparr>wt_work_item := null\<rparr>) s\<lparr>wi_kernel := k\<rparr>))"
    using run_end_account [OF assms(2,3)] by auto
  from wi_release_last [OF assms(1) this(2), of "t\<lparr>wt_work_item := null\<rparr>"] show ?thesis
    using k(1) assms(4) by (auto simp: wi_keeps_def)
qed

text \<open>The start of the routine: the reference of the queue entry now belongs to the running code.\<close>

lemma run_begin:
  assumes "wi_account E V L 0 None s" and "wi_task s = Some t" and "wt_scheduled t \<noteq> 0"
  shows "wi_account E V L 1 (Some (wt_work_item t)) (put_wt (t\<lparr>wt_scheduled := 0\<rparr>)
    (s\<lparr>wi_kernel := v_start V (wt_work_item t) (wi_kernel s)\<rparr>))"
proof -
  let ?it = "wt_work_item t" let ?k = "v_start V ?it (wi_kernel s)"
  let ?s1 = "put_wt (t\<lparr>wt_scheduled := 0\<rparr>) (s\<lparr>wi_kernel := ?k\<rparr>)"
  have a: "wt_live 0 s t" "wt_items V L None (wi_kernel s) t" "wt_holds E L None s t"
    "v_ok V (wi_kernel s)"
    using assms(1,2) by (auto simp: wi_account_def)
  then have q: "?it \<in> v_queued V (wi_kernel s)" using assms(3) by (simp add: wt_items_def)
  note st = start_law [OF a(4) q]
  have "wt_live 1 ?s1 (t\<lparr>wt_scheduled := 0\<rparr>)" using a(1) assms(3) by (auto simp: wt_live_def)
  moreover have "wt_items V L (Some ?it) ?k (t\<lparr>wt_scheduled := 0\<rparr>)"
    using a(2) st assms(3) by (auto simp: wt_items_def)
  moreover have "wt_holds E L (Some ?it) ?s1 (t\<lparr>wt_scheduled := 0\<rparr>)"
    using a(3) assms(3) by (auto simp: wt_holds_def)
  ultimately show ?thesis using assms(1,2) st by (simp add: wi_account_def)
qed

lemma run_ok:
  assumes "wi_env_ok E" and "wi_quiet E" and "wi_account E V L 0 None s" and "wi_task s = Some t"
    and "wt_scheduled t \<noteq> 0"
  shows "\<exists>s'. wt_run E fb (s\<lparr>wi_kernel := v_start V (wt_work_item t) (wi_kernel s)\<rparr>) = Return s'
    \<and> wi_account E V L 0 None s'"
proof (cases "wt_completed t = 0")
  case True
  let ?it = "wt_work_item t" let ?k = "v_start V ?it (wi_kernel s)"
  let ?s0 = "s\<lparr>wi_kernel := ?k\<rparr>" let ?s1 = "put_wt (t\<lparr>wt_scheduled := 0\<rparr>) ?s0"
  have a1: "wi_account E V L 1 (Some ?it) ?s1" using run_begin [OF assms(3-5)] .
  have "\<exists>s2. (if wt_cancel_requested t \<noteq> 0 then wt_finish_future E ?s1 else wt_poll E ?s1) = Return s2
      \<and> wi_account E V L 1 (Some ?it) s2"
    using finish_ok [OF assms(1,2) a1] poll_ok [OF assms(1,2) a1] True by auto
  then obtain s2 where s2: "(if wt_cancel_requested t \<noteq> 0 then wt_finish_future E ?s1 else wt_poll E ?s1)
      = Return s2" "wi_account E V L 1 (Some ?it) s2"
    by blast
  obtain t2 where t2: "wi_task s2 = Some t2" using wi_account_task [OF s2(2)] by auto
  then have w: "wt_work_item t2 = ?it" "?it \<noteq> null" "wt_tracker t2 = wt_tracker t"
    using s2(2) assms(3,4) by (auto simp: wi_account_defs split: if_splits)
  obtain k s' where "ctx_delete_work_item (w_context E) ?it (wi_kernel s2) = Return k"
    "wt_release E (wt_tracker_complete E (wt_tracker t2) (put_wt (t2\<lparr>wt_work_item := null\<rparr>) s2\<lparr>wi_kernel := k\<rparr>))
        = Return s'" "wi_account E V L 0 None s'"
    using run_end_ok [OF assms(1) s2(2) t2] by blast
  then show ?thesis
    using True assms(4) s2(1) t2 w by (auto simp: wt_run_def with_wt_Some Let_def split: if_splits)
next
  case False
  then show ?thesis using assms(3-5) by (simp add: wi_account_defs)
qed

end

end
