(* ===== verification/Work_Item_Properties.thy ===== *)
theory Work_Item_Properties
  imports Work_Item_Safety Dpc_Properties
begin

text \<open>
  The reachable states of a task of the work-item executor and its properties, for the WDM and the
  KMDF backend: exact release of all resources when nobody wakes the task during its routine, what
  happens when somebody does, and the futures that are never dropped.
\<close>

section \<open>Spawning\<close>

definition wi_fresh ::
  "('f, 'e, 'k) wi_env \<Rightarrow> 'k item_view \<Rightarrow> wi_ledger \<Rightarrow> ('f, 'e, 'k) wi_state \<Rightarrow> bool" where
  "wi_fresh E V L s \<longleftrightarrow>
     wi_task s = None \<and> wi_wakers s = 0 \<and> wi_handles s = 0 \<and> wi_drops s = 0 \<and> wi_frees s = 0
     \<and> pool_ok (w_pool E) (wi_memory s) \<and> map_of (blocks (wi_memory s)) = wl_blocks L
     \<and> wl_pending L + 1 < 2 ^ 32 \<and> wl_device L \<noteq> null \<and> wt_tracked E L 0 s
     \<and> v_ok V (wi_kernel s) \<and> v_idle V (wi_kernel s) = wl_idle L
     \<and> v_queued V (wi_kernel s) = wl_queued L \<and> v_refs V (wi_kernel s) = wl_refs L"

text \<open>What a refused spawn leaves: everything but perhaps the future as it was.\<close>

definition wi_refused ::
  "('f, 'e, 'k) wi_env \<Rightarrow> 'k item_view \<Rightarrow> wi_ledger \<Rightarrow> ('f, 'e, 'k) wi_state \<Rightarrow> bool" where
  "wi_refused E V L s \<longleftrightarrow>
     wi_task s = None \<and> wi_wakers s = 0 \<and> wi_handles s = 0
     \<and> map_of (blocks (wi_memory s)) = wl_blocks L \<and> wt_tracked E L 0 s
     \<and> v_idle V (wi_kernel s) = wl_idle L \<and> v_queued V (wi_kernel s) = wl_queued L
     \<and> v_refs V (wi_kernel s) = wl_refs L
     \<and> (wi_drops s = 1 \<and> wi_frees s = 0 \<or> wi_drops s = 0 \<and> wi_frees s = 1)"

definition wi_spawned ::
  "('f, 'e, 'k) wi_env \<Rightarrow> 'k item_view \<Rightarrow> wi_ledger \<Rightarrow> 'f \<Rightarrow> nat \<Rightarrow> ('f, 'e, 'k) wi_state \<Rightarrow> bool" where
  "wi_spawned E V L f h s \<longleftrightarrow>
     wi_account E V L 0 None s \<and> wi_handles s = h \<and> wi_wakers s = 0
     \<and> (\<exists>t. wi_task s = Some t \<and> wt_scheduled t \<noteq> 0 \<and> wt_completed t = 0
         \<and> wt_cancel_requested t = 0 \<and> wt_future t = Holding f)"

text \<open>The allocated task after the device and the tracker are stored in it.\<close>

definition wi_bind ::
  "('f, 'e, 'k) wi_env \<Rightarrow> wi_ledger \<Rightarrow> 'f WorkItemTask \<Rightarrow> ('f, 'e, 'k) wi_state
    \<Rightarrow> ('f, 'e, 'k) wi_state" where
  "wi_bind E L t s = put_wt (t\<lparr>wt_context := wl_device L, wt_tracker := wl_tracker L\<rparr>)
     (s\<lparr>wi_kernel := ctx_retain (w_context E) (wl_device L) (wi_kernel s)\<rparr>)"

definition spawn_allocated ::
  "('f, 'e, 'k) wi_env \<Rightarrow> 'k item_view \<Rightarrow> wi_ledger \<Rightarrow> 'f \<Rightarrow> NTSTATUS + addr
    \<Rightarrow> ('f, 'e, 'k) wi_state \<Rightarrow> bool" where
  "spawn_allocated E V L f x s \<longleftrightarrow>
     (case x of
        Inl st \<Rightarrow> st = STATUS_INSUFFICIENT_RESOURCES \<and> wi_refused E V L s \<and> wi_drops s = 1
      | Inr p \<Rightarrow> \<exists>t. wi_task s = Some t \<and> wt_completed t = 0 \<and> wi_wakers s = 0 \<and> wi_handles s = 0
          \<and> wt_cancel_requested t = 0 \<and> wt_future t = Holding f \<and> wi_drops s = 0 \<and> wi_account E V L 1 None (wi_bind E L t s))"

context work_item_executor
begin

lemma allocate_ok:
  assumes "wi_env_ok E" and "wi_fresh E V L s"
  shows "\<exists>x s1. wt_allocate E f s = Return (x, s1) \<and> spawn_allocated E V L f x s1"
proof -
  have ok: "pool_ok (w_pool E) (wi_memory s)" and l: "valid_layout (w_layout E)"
    and nz: "layout_size (w_layout E) \<noteq> 0" and fr: "v_ok V (wi_kernel s)" "wl_device L \<noteq> null"
    using assms by (auto simp: wi_fresh_def wi_env_ok_def)
  obtain p m where m: "wdk_alloc (w_alloc_build E) (w_pool E) kcow_alloc (w_layout E) (wi_memory s)
      = Return (p, m)" "alloc_result (w_alloc_build E) (w_pool E) kcow_alloc (w_layout E) (wi_memory s) (p, m)"
    using wdk_alloc_result [OF ok l] by blast
  show ?thesis
  proof (cases "p = null")
    case True
    then show ?thesis
      using m nz assms(2)
      by (auto simp: wt_allocate_def alloc_result_def wi_fresh_def wi_refused_def wt_tracked_def
          spawn_allocated_def)
  next
    case False
    let ?b = "backing (w_alloc_build E) m (p, w_layout E)"
    have held: "wdk_held (w_alloc_build E) (w_pool E) kcow_alloc [(p, w_layout E)] m"
      using alloc_result_held(1) [of _ _ _ "[]", OF _ m(2)] ok False by (simp add: wdk_held_def)
    obtain n where "map_of (blocks (wi_memory s)) ?b = None"
      "blocks m = (?b, (n, tag kcow_alloc)) # blocks (wi_memory s)"
      using m(2) nz False by (auto simp: alloc_result_def fresh_block_def)
    then have b: "(map_of (blocks m))(?b := None) = wl_blocks L"
      using assms(2) by (auto simp: wi_fresh_def fun_upd_idem_iff)
    show ?thesis
      using m(1) False held b assms(2) retain_law [OF fr]
      by (auto simp: wt_allocate_def wi_fresh_def wi_account_defs wt_tracked_def put_wt_def
          spawn_allocated_def wi_bind_def)
  qed
qed

lemma gone_refused:
  "wi_account E V L 0 None s \<Longrightarrow> wi_task s = None \<Longrightarrow> wi_drops s = 0 \<Longrightarrow> wi_refused E V L s"
  by (simp add: wi_account_def wt_gone_def wi_refused_def)

lemma schedule_spawned:
  assumes "wi_env_ok E" and "wi_account E V L (Suc own) None s" and "own \<le> 1" and "wi_task s = Some t"
    and "wt_completed t = 0" and "wi_wakers s = 0" and "wi_handles s = 0"
  shows "\<exists>st s3 s4. wt_schedule E s = Return (st, s3) \<and> wt_release E s3 = Return s4
    \<and> wi_account E V L own None s4 \<and> wi_wakers s4 = 0 \<and> wi_handles s4 = 0 \<and> wi_drops s4 = wi_drops s
    \<and> (if st \<noteq> STATUS_SUCCESS \<and> own = 0 then wi_task s4 = None
       else \<exists>t4. wi_task s4 = Some t4 \<and> (wt_scheduled t4 = 0 \<longleftrightarrow> st \<noteq> STATUS_SUCCESS)
         \<and> wt_cancel_requested t4 = wt_cancel_requested t \<and> wt_future t4 = wt_future t
         \<and> wt_completed t4 = 0)"
proof -
  obtain st s3 t3 where s3: "wt_schedule E s = Return (st, s3)" "wi_account E V L (Suc own) None s3"
    "wi_keeps s s3" "wi_task s3 = Some t3" "wt_scheduled t3 = 0 \<longleftrightarrow> st \<noteq> STATUS_SUCCESS"
    "wt_cancel_requested t3 = wt_cancel_requested t"
    "wi_wakers s3 = 0" "wi_handles s3 = 0"
    using wi_schedule_ok [OF assms(2,4)] assms(3,5-7) by auto
  have l: "wt_live (Suc own) s3 t3" using s3(2,4) by (simp add: wi_account_def)
  show ?thesis
  proof (cases "st \<noteq> STATUS_SUCCESS \<and> own = 0")
    case False
    then have "1 < unat (wt_ref_count t3)" using l s3(5) by (auto simp: wt_live_def)
    from wt_release_shared [OF s3(2,4) this] show ?thesis
      using s3 False assms(4,5) by (auto simp: wi_keeps_def)
  next
    case True
    then have "unat (wt_ref_count t3) = 1" using l s3(5,7,8) by (auto simp: wt_live_def)
    moreover have "wi_account E V L 1 None s3" using s3(2) True by simp
    ultimately obtain s4 where "wt_release E s3 = Return s4" "wi_account E V L 0 None s4" "wi_keeps s3 s4"
      "wi_task s4 = None"
      using wi_release_last [OF assms(1) _ s3(4)] by blast
    then show ?thesis using s3 True by (auto simp: wi_keeps_def wi_account_def wt_gone_def)
  qed
qed

lemma spawn_ok:
  assumes "wi_env_ok E" and "wi_fresh E V L s"
  shows "\<exists>st s'. spawn_work_item E (wl_device L) (wl_tracker L) f s = Return (st, s')
    \<and> (if st = STATUS_SUCCESS then wi_spawned E V L f 0 s' else wi_refused E V L s')"
proof -
  have valid: "ctx_is_valid (w_context E) (wl_device L)"
    using valid_law assms(2) by (simp add: wi_fresh_def)
  obtain x s1 where s1: "wt_allocate E f s = Return (x, s1)" "spawn_allocated E V L f x s1"
    using allocate_ok [OF assms] by blast
  show ?thesis
  proof (cases x)
    case (Inl st)
    then show ?thesis using s1 valid by (simp add: spawn_work_item_def status_defs spawn_allocated_def)
  next
    case (Inr p)
    then obtain t where t: "wi_task s1 = Some t" "wt_completed t = 0" "wi_wakers s1 = 0" "wi_handles s1 = 0"
      "wi_drops s1 = 0" "wt_cancel_requested t = 0" "wt_future t = Holding f"
      and a: "wi_account E V L (Suc 0) None (wi_bind E L t s1)"
      using s1(2) by (auto simp: spawn_allocated_def)
    obtain st s3 s4 where s4: "wt_schedule E (wi_bind E L t s1) = Return (st, s3)" "wt_release E s3 = Return s4"
      "wi_account E V L 0 None s4" "wi_wakers s4 = 0" "wi_handles s4 = 0" "wi_drops s4 = 0"
      "if st \<noteq> STATUS_SUCCESS then wi_task s4 = None
       else \<exists>t4. wi_task s4 = Some t4 \<and> (wt_scheduled t4 = 0 \<longleftrightarrow> st \<noteq> STATUS_SUCCESS)
         \<and> wt_cancel_requested t4 = 0 \<and> wt_future t4 = Holding f \<and> wt_completed t4 = 0"
      using schedule_spawned [OF assms(1) a] t by (auto simp: wi_bind_def cong: if_cong)
    then show ?thesis
      using t Inr s1(1) valid gone_refused
      by (auto simp: spawn_work_item_def with_wt_Some wi_spawned_def wi_bind_def)
  qed
qed

lemma wi_spawn_cancellable_ok:
  assumes "wi_env_ok E" and "wi_fresh E V L s"
  shows "\<exists>x s'. spawn_work_item_cancellable E (wl_device L) (wl_tracker L) f s = Return (x, s')
    \<and> (case x of Inl st \<Rightarrow> wi_refused E V L s' | Inr h \<Rightarrow> wi_spawned E V L f 1 s')"
proof -
  have valid: "ctx_is_valid (w_context E) (wl_device L)"
    using valid_law assms(2) by (simp add: wi_fresh_def)
  obtain x s1 where s1: "wt_allocate E f s = Return (x, s1)" "spawn_allocated E V L f x s1"
    using allocate_ok [OF assms] by blast
  show ?thesis
  proof (cases x)
    case (Inl st)
    then show ?thesis using s1 valid by (simp add: spawn_work_item_cancellable_def spawn_allocated_def)
  next
    case (Inr p)
    then obtain t where t: "wi_task s1 = Some t" "wt_completed t = 0" "wi_wakers s1 = 0" "wi_handles s1 = 0"
      "wi_drops s1 = 0" "wt_cancel_requested t = 0" "wt_future t = Holding f"
      and a: "wi_account E V L 1 None (wi_bind E L t s1)"
      using s1(2) by (auto simp: spawn_allocated_def)
    let ?t = "t\<lparr>wt_context := wl_device L, wt_tracker := wl_tracker L\<rparr>"
    obtain c where c: "wt_add_ref E (wi_bind E L t s1) = Return (put_wt (?t\<lparr>wt_ref_count := c\<rparr>) (wi_bind E L t s1))"
      "wi_account E V L (Suc 1) None (put_wt (?t\<lparr>wt_ref_count := c\<rparr>) (wi_bind E L t s1))"
      using wt_add_ref_ok [OF a, of ?t] by (auto simp: wi_bind_def)
    let ?s2 = "put_wt (?t\<lparr>wt_ref_count := c\<rparr>) (wi_bind E L t s1)"
    obtain st s3 s4 t4 where s4: "wt_schedule E ?s2 = Return (st, s3)" "wt_release E s3 = Return s4"
      "wi_account E V L (Suc 0) None s4" "wi_wakers s4 = 0" "wi_handles s4 = 0" "wi_drops s4 = 0"
      "wi_task s4 = Some t4" "wt_scheduled t4 = 0 \<longleftrightarrow> st \<noteq> STATUS_SUCCESS"
      "wt_cancel_requested t4 = 0" "wt_future t4 = Holding f" "wt_completed t4 = 0"
      using schedule_spawned [OF assms(1) c(2)] t by (auto simp: wi_bind_def)
    have n: "wi_ptr (wi_bind E L t s1) \<noteq> null" using a by (simp add: wi_account_def)
    show ?thesis
    proof (cases "st = STATUS_SUCCESS")
      case True
      then have "wi_spawned E V L f 1 (s4\<lparr>wi_handles := wi_handles s4 + 1\<rparr>)"
        using s4 by (auto simp: wi_spawned_def wi_account_defs)
      then show ?thesis
        using True s4(1,2) c(1) t(1) Inr s1(1) valid
        by (simp add: spawn_work_item_cancellable_def wh_new_def with_wt_Some wi_bind_def)
    next
      case False
      then have "unat (wt_ref_count t4) = 1" using s4 by (auto simp: wi_account_defs)
      then obtain s5 where "wt_release E s4 = Return s5" "wi_account E V L 0 None s5" "wi_keeps s4 s5"
        "wi_task s5 = None"
        using wi_release_last [OF assms(1) _ s4(7)] s4(3) by auto
      then show ?thesis
        using False s4 c(1) t(1) Inr s1(1) valid n gone_refused
        by (auto simp: spawn_work_item_cancellable_def wh_new_def with_wt_Some wi_bind_def wh_drop_def
            Let_def wi_keeps_def)
    qed
  qed
qed

end

section \<open>Two runs in detail\<close>

context work_item_executor
begin

text \<open>A poll that is pending and keeps no waker, and the rest of its run.\<close>

lemma poll_pending:
  assumes "wi_account E V L 1 (Some it) s" and "wi_task s = Some t" and "wt_future t = Holding f"
    and "w_poll E f = Finish (Pending, f')"
  shows "\<exists>c. wt_poll E s = Return (put_wt (t\<lparr>wt_ref_count := c, wt_future := Holding f'\<rparr>)
      (s\<lparr>wi_polls := wi_polls s + 1\<rparr>))
    \<and> wi_account E V L 1 (Some it) (put_wt (t\<lparr>wt_ref_count := c, wt_future := Holding f'\<rparr>)
      (s\<lparr>wi_polls := wi_polls s + 1\<rparr>))"
proof -
  obtain c where c: "wt_add_ref E s = Return (put_wt (t\<lparr>wt_ref_count := c\<rparr>) s)"
    "wi_account E V L 2 (Some it) (put_wt (t\<lparr>wt_ref_count := c\<rparr>) s)" "unat c = unat (wt_ref_count t) + 1"
    using wt_add_ref_ok [OF assms(1,2)] by (auto simp: numeral_2_eq_2)
  let ?t = "t\<lparr>wt_ref_count := c, wt_future := Holding f'\<rparr>"
  let ?s = "put_wt ?t (s\<lparr>wi_polls := wi_polls s + 1\<rparr>)"
  have "wt_completed t = 0" using assms(1-3) by (auto simp: wi_account_defs split: if_splits)
  then have a: "wi_account E V L (Suc 1) (Some it) ?s" and n: "wi_ptr s \<noteq> null"
    using c(2) assms(1,3) by (auto simp: wi_account_defs)
  have "1 < unat (wt_ref_count ?t)"
    using c(3) assms(1,2) by (auto simp: wi_account_defs)
  from wt_release_shared [OF a _ this] obtain c' where
    "wt_release E ?s = Return (put_wt (?t\<lparr>wt_ref_count := c'\<rparr>) ?s)"
    "wi_account E V L 1 (Some it) (put_wt (?t\<lparr>wt_ref_count := c'\<rparr>) ?s)"
    by auto
  moreover have "?t\<lparr>wt_ref_count := c'\<rparr> = t\<lparr>wt_ref_count := c', wt_future := Holding f'\<rparr>" by simp
  ultimately show ?thesis
    using c(1) assms(3,4) n
    by (intro exI [of _ c'])
      (simp add: wt_poll_def wt_raw_waker_def wt_drop_raw_def with_wt_Some put_wt_def)
qed

lemma run_abandoned:
  assumes "wi_env_ok E" and "wi_spawned E V L f 0 s" and "w_poll E f = Finish (Pending, f')"
    and "wi_task s = Some t"
  shows "\<exists>s'. wt_run E fb (s\<lparr>wi_kernel := v_start V (wt_work_item t) (wi_kernel s)\<rparr>) = Return s'
    \<and> wi_account E V L 0 None s' \<and> wi_task s' = None \<and> wi_drops s' = 0"
proof -
  let ?it = "wt_work_item t"
  let ?s1 = "put_wt (t\<lparr>wt_scheduled := 0\<rparr>) (s\<lparr>wi_kernel := v_start V ?it (wi_kernel s)\<rparr>)"
  have t: "wi_account E V L 0 None s" "wi_handles s = 0" "wi_wakers s = 0" "wt_scheduled t \<noteq> 0"
    "wt_completed t = 0" "wt_cancel_requested t = 0" "wt_future t = Holding f"
    using assms(2,4) by (auto simp: wi_spawned_def)
  obtain c where c: "wt_poll E ?s1 = Return (put_wt (t\<lparr>wt_scheduled := 0, wt_ref_count := c,
      wt_future := Holding f'\<rparr>) (?s1\<lparr>wi_polls := wi_polls ?s1 + 1\<rparr>))"
    "wi_account E V L 1 (Some ?it) (put_wt (t\<lparr>wt_scheduled := 0, wt_ref_count := c,
      wt_future := Holding f'\<rparr>) (?s1\<lparr>wi_polls := wi_polls ?s1 + 1\<rparr>))"
    using poll_pending [OF run_begin [OF t(1) assms(4) t(4)] _ _ assms(3)] t(7) by auto
  let ?t2 = "t\<lparr>wt_scheduled := 0, wt_ref_count := c, wt_future := Holding f'\<rparr>"
  let ?s2 = "put_wt ?t2 (?s1\<lparr>wi_polls := wi_polls ?s1 + 1\<rparr>)"
  have it: "?it \<noteq> null" "unat c = 1" "wi_drops s = 0"
    using c(2) t(2,3,5) by (auto simp: wi_account_defs)
  obtain k s' where k: "ctx_delete_work_item (w_context E) ?it (wi_kernel ?s2) = Return k"
    "wt_release E (wt_tracker_complete E (wt_tracker ?t2) (put_wt (?t2\<lparr>wt_work_item := null\<rparr>) ?s2\<lparr>wi_kernel := k\<rparr>))
        = Return s'" "wi_account E V L 0 None s'" "wi_task s' = None" "wi_drops s' = 0"
    using run_end_unheld [OF assms(1) c(2)] it t(2,3) by auto
  then show ?thesis
    using t assms(4) c(1) it
    by (auto simp: wt_run_def with_wt_Some Let_def)
qed

text \<open>A poll that wakes its own task: the task's item is now one that waits in the queue.\<close>

lemma poll_self_wake:
  assumes "wi_account E V L 1 (Some it) s" and "wi_task s = Some t" and "wt_future t = Holding f"
    and "w_poll E f = Act WakeByRef (\<lambda>b. Finish (Pending, f'))"
    and "ctx_create_work_item (w_context E) (wl_device L) (wi_ptr s) (wi_kernel s)
      = Return ((STATUS_SUCCESS, it2), k1)"
  shows "\<exists>s' t'. wt_poll E s = Return s' \<and> wi_task s' = Some t' \<and> wt_work_item t' = it2
    \<and> it2 \<noteq> null \<and> it2 \<in> v_queued V (wi_kernel s')"
proof -
  have t: "wt_completed t = 0" "wt_scheduled t = 0" "wt_context t = wl_device L" "wl_device L \<noteq> null"
    "v_ok V (wi_kernel s)" "wi_ptr s \<noteq> null" "1 \<le> unat (wt_ref_count t)"
    using assms(1-3) by (auto simp: wi_account_defs split: if_splits)
  have small: "unat (wt_ref_count t) < 2 ^ 31 - 2" by (rule wt_live_small [OF assms(1,2)]) simp
  obtain k2 where it2: "it2 \<noteq> null" and k2: "ctx_enqueue_work_item (w_context E) it2 (wi_ptr s) k1 = Return k2"
    "v_queued V k2 = insert it2 (v_queued V (wi_kernel s))"
    using create_enqueue [OF t(5,4), of "wi_ptr s"] assms(5) by auto
  obtain c where c: "wt_add_ref E s = Return (put_wt (t\<lparr>wt_ref_count := c\<rparr>) s)"
    "unat c = unat (wt_ref_count t) + 1"
    using wt_add_ref_counts [OF assms(2)] small by fastforce
  let ?s1 = "put_wt (t\<lparr>wt_ref_count := c\<rparr>) s\<lparr>wi_polls := wi_polls s + 1\<rparr>"
  let ?t1 = "t\<lparr>wt_ref_count := c, wt_scheduled := 1\<rparr>"
  let ?s2 = "wt_tracker_begin E (wt_tracker t) (put_wt ?t1 ?s1)\<lparr>wi_kernel := k1\<rparr>"
  obtain c2 where c2: "wt_add_ref E (put_wt (?t1\<lparr>wt_work_item := it2\<rparr>) ?s2)
      = Return (put_wt (?t1\<lparr>wt_work_item := it2, wt_ref_count := c2\<rparr>) ?s2)" "unat c2 = unat c + 1"
    using wt_add_ref_counts [of "put_wt (?t1\<lparr>wt_work_item := it2\<rparr>) ?s2"] small c(2) by fastforce
  let ?t3 = "?t1\<lparr>wt_work_item := it2, wt_ref_count := c2\<rparr>"
  let ?s3 = "put_wt ?t3 ?s2\<lparr>wi_kernel := k2\<rparr>"
  have valid: "ctx_is_valid (w_context E) (wl_device L)" using valid_law t(4) by simp
  have "wt_schedule E ?s1 = Return (STATUS_SUCCESS, ?s3)"
    using t assms(5) valid c2(1) k2(1) by (simp add: wt_schedule_def with_wt_def put_wt_def Let_def)
  then have act: "wi_activity E True (w_poll E f) ?s1 = Return ((Pending, f'), ?s3)"
    using assms(4) t(6) by (simp add: wi_run_op_def wi_permitted_def wt_wake_by_ref_raw_def)
  let ?t4 = "?t3\<lparr>wt_future := Holding f'\<rparr>"
  obtain c4 where "wt_release E (put_wt ?t4 ?s3) = Return (put_wt (?t4\<lparr>wt_ref_count := c4\<rparr>) (put_wt ?t4 ?s3))"
    using wt_release_counts [of "put_wt ?t4 ?s3" ?t4 E] c c2 by auto
  then have "wt_poll E s = Return (put_wt (?t4\<lparr>wt_ref_count := c4\<rparr>) ?s3)"
    using c(1) assms(3) act t(6)
    by (simp add: wt_poll_def wt_raw_waker_def wt_drop_raw_def with_wt_def put_wt_def)
  then show ?thesis using it2 k2(2) by simp
qed

lemma run_self_wake:
  assumes "wi_spawned E V L f h s" and "wi_task s = Some t"
    and "w_poll E f = Act WakeByRef (\<lambda>b. Finish (Pending, f'))"
    and "ctx_create_work_item (w_context E) (wl_device L) (wi_ptr s) (v_start V (wt_work_item t) (wi_kernel s))
      = Return ((STATUS_SUCCESS, it2), k1)"
    and "\<And>k. it2 \<in> v_queued V k \<Longrightarrow> ctx_delete_work_item (w_context E) it2 k = Undefined"
  shows "wt_run E fb (s\<lparr>wi_kernel := v_start V (wt_work_item t) (wi_kernel s)\<rparr>) = Undefined"
proof -
  have t: "wi_account E V L 0 None s" "wt_scheduled t \<noteq> 0" "wt_completed t = 0"
    "wt_cancel_requested t = 0" "wt_future t = Holding f"
    using assms(1,2) by (auto simp: wi_spawned_def)
  let ?s1 = "put_wt (t\<lparr>wt_scheduled := 0\<rparr>) (s\<lparr>wi_kernel := v_start V (wt_work_item t) (wi_kernel s)\<rparr>)"
  obtain s' t' where "wt_poll E ?s1 = Return s'" "wi_task s' = Some t'" "wt_work_item t' = it2"
    "it2 \<noteq> null" "it2 \<in> v_queued V (wi_kernel s')"
    using poll_self_wake [OF run_begin [OF t(1) assms(2) t(2)], of "t\<lparr>wt_scheduled := 0\<rparr>" f f' it2 k1]
      t(5) assms(3,4) by auto
  then show ?thesis
    using t assms(2,5) by (simp add: wt_run_def with_wt_Some Let_def)
qed

end

section \<open>Reachable states\<close>

text \<open>
  A task is spawned; then holders act and the kernel runs its work item, in any order: \<open>arrive\<close> is
  what the kernel does when the item's turn comes.
\<close>

inductive wi_reach ::
  "('f, 'e, 'k) wi_env \<Rightarrow> (('f, 'e, 'k) wi_state \<Rightarrow> ('f, 'e, 'k) wi_state outcome) \<Rightarrow> addr \<Rightarrow> addr
    \<Rightarrow> ('f, 'e, 'k) wi_state \<Rightarrow> ('f, 'e, 'k) wi_state \<Rightarrow> bool"
  for E arrive d tr s0 where
  wi_spawned_untracked: "tr = null \<Longrightarrow> spawn_task E d f s0 = Return (STATUS_SUCCESS, s)
    \<Longrightarrow> wi_reach E arrive d tr s0 s"
| wi_spawned_tracked: "spawn_task_tracked E d tr f s0 = Return (STATUS_SUCCESS, s)
    \<Longrightarrow> wi_reach E arrive d tr s0 s"
| wi_spawned_cancellable: "tr = null \<Longrightarrow> spawn_task_cancellable E d f s0 = Return (Inr h, s)
    \<Longrightarrow> wi_reach E arrive d tr s0 s"
| wi_spawned_both: "spawn_task_cancellable_tracked E d tr f s0 = Return (Inr h, s)
    \<Longrightarrow> wi_reach E arrive d tr s0 s"
| wi_acted: "wi_reach E arrive d tr s0 s \<Longrightarrow> wi_run_op E False p s = Return (b, s')
    \<Longrightarrow> wi_reach E arrive d tr s0 s'"
| wi_ran: "wi_reach E arrive d tr s0 s \<Longrightarrow> wi_task s = Some t \<Longrightarrow> wt_scheduled t \<noteq> 0
    \<Longrightarrow> arrive s = Return s' \<Longrightarrow> wi_reach E arrive d tr s0 s'"

text \<open>The kernel takes the item out of the queue and calls the routine.\<close>

definition wdm_arrive ::
  "'k wdm_kernel \<Rightarrow> ('f, 'e, 'k) wi_env \<Rightarrow> ('f, 'e, 'k) wi_state \<Rightarrow> ('f, 'e, 'k) wi_state outcome" where
  "wdm_arrive W E s = with_wt (\<lambda>t.
     wdm_work_item_routine E (wi_ptr s)
       (s\<lparr>wi_kernel := io_start_item W (wt_work_item t) (wi_kernel s)\<rparr>)) s"

definition kmdf_arrive ::
  "'k kmdf_kernel \<Rightarrow> ('f, 'e, 'k) wi_env \<Rightarrow> ('f, 'e, 'k) wi_state \<Rightarrow> ('f, 'e, 'k) wi_state outcome" where
  "kmdf_arrive W E s = with_wt (\<lambda>t.
     kmdf_work_item_routine W E (wt_work_item t)
       (s\<lparr>wi_kernel := wdf_start_item W (wt_work_item t) (wi_kernel s)\<rparr>)) s"

context work_item_executor
begin

lemma reach_account:
  assumes "wi_env_ok E" and "wi_fresh E V L s0"
    and "wi_reach E arrive (wl_device L) (wl_tracker L) s0 s"
    and arrive: "\<And>s t s'. wi_account E V L 0 None s \<Longrightarrow> wi_task s = Some t \<Longrightarrow> wt_scheduled t \<noteq> 0 \<Longrightarrow>
      arrive s = Return s' \<Longrightarrow> wi_account E V L 0 None s'"
  shows "wi_account E V L 0 None s"
  using assms(3)
proof (induction rule: wi_reach.induct)
  case (wi_spawned_untracked f s)
  then show ?case using spawn_ok [OF assms(1,2), of f] by (simp add: spawn_task_def wi_spawned_def)
next
  case (wi_spawned_tracked f s)
  then show ?case using spawn_ok [OF assms(1,2), of f] by (simp add: spawn_task_tracked_def wi_spawned_def)
next
  case (wi_spawned_cancellable f h s)
  then show ?case
    using wi_spawn_cancellable_ok [OF assms(1,2), of f] by (simp add: spawn_task_cancellable_def wi_spawned_def)
next
  case (wi_spawned_both f h s)
  then show ?case
    using wi_spawn_cancellable_ok [OF assms(1,2), of f]
    by (simp add: spawn_task_cancellable_tracked_def wi_spawned_def)
next
  case (wi_acted s p b s')
  then show ?case using wi_run_op_ok [OF assms(1) wi_acted.IH, of False p] by auto
next
  case (wi_ran s t s')
  then show ?case using arrive by blast
qed

end

section \<open>The two backends\<close>

definition wdm_view :: "'k wdm_kernel \<Rightarrow> 'k item_view" where
  "wdm_view W = \<lparr>v_ok = (\<lambda>k. wdm_contract W), v_idle = io_idle W, v_queued = io_queued W,
     v_refs = ob_count W, v_weight = 1, v_start = io_start_item W\<rparr>"

definition kmdf_view :: "'k kmdf_kernel \<Rightarrow> 'k item_view" where
  "kmdf_view W = \<lparr>v_ok = (\<lambda>k. kmdf_contract W), v_idle = wdf_idle W, v_queued = wdf_queued W,
     v_refs = (\<lambda>k d. 0), v_weight = 0, v_start = wdf_start_item W\<rparr>"

interpretation wdm_exec: work_item_executor "E\<lparr>w_context := wdm_context W\<rparr>" "wdm_view W" for E W
  using wdm.task_context_axioms by (simp add: work_item_executor_def wdm_view_def)

interpretation kmdf_exec: work_item_executor "E\<lparr>w_context := kmdf_context W\<rparr>" "kmdf_view W" for E W
  using kmdf.task_context_axioms by (simp add: work_item_executor_def kmdf_view_def)

lemma wdm_arrive_ok:
  assumes "wi_env_ok E" and "wi_quiet E" and "w_context E = wdm_context W"
    and "wi_account E (wdm_view W) L 0 None s" and "wi_task s = Some t" and "wt_scheduled t \<noteq> 0"
  shows "\<exists>s'. wdm_arrive W E s = Return s' \<and> wi_account E (wdm_view W) L 0 None s'"
proof -
  have e: "E\<lparr>w_context := wdm_context W\<rparr> = E" using assms(3) by simp
  have "wi_ptr s \<noteq> null" using assms(4) by (simp add: wi_account_def)
  then show ?thesis
    using wdm_exec.run_ok [of W E L s t null, unfolded e, OF assms(1,2,4,5,6)] assms(5)
    by (simp add: wdm_arrive_def wdm_work_item_routine_def with_wt_Some wdm_view_def)
qed

lemma kmdf_arrive_ok:
  assumes "wi_env_ok E" and "wi_quiet E" and "w_context E = kmdf_context W"
    and "wi_account E (kmdf_view W) L 0 None s" and "wi_task s = Some t" and "wt_scheduled t \<noteq> 0"
    and "wdf_get_typed_context W (wt_work_item t) (wdf_start_item W (wt_work_item t) (wi_kernel s)) = ctx"
    and "ctx \<noteq> null"
    and "wdf_read_task_ptr W ctx (wdf_start_item W (wt_work_item t) (wi_kernel s)) = wi_ptr s"
  shows "\<exists>s'. kmdf_arrive W E s = Return s' \<and> wi_account E (kmdf_view W) L 0 None s'"
proof -
  have e: "E\<lparr>w_context := kmdf_context W\<rparr> = E" using assms(3) by simp
  have "wi_ptr s \<noteq> null" using assms(4) by (simp add: wi_account_def)
  then show ?thesis
    using kmdf_exec.run_ok [of W E L s t "wt_work_item t", unfolded e, OF assms(1,2,4,5,6)] assms(5,7-9)
    by (simp add: kmdf_arrive_def kmdf_work_item_routine_def with_wt_Some kmdf_view_def Let_def)
qed

section \<open>A kernel for concrete runs\<close>

text \<open>Two work items, and the three components of the state: idle items, queued items, counts.\<close>

type_synonym two_items = "addr set \<times> addr set \<times> (addr \<Rightarrow> nat)"

fun two_allocate :: "addr \<Rightarrow> two_items \<Rightarrow> addr \<times> two_items" where
  "two_allocate d (i, q, c) =
     (if 4096 \<notin> i \<union> q then (4096, (insert 4096 i, q, c))
      else if 8192 \<notin> i \<union> q then (8192, (insert 8192 i, q, c))
      else (null, (i, q, c)))"

fun two_queue :: "addr \<Rightarrow> addr \<Rightarrow> two_items \<Rightarrow> two_items outcome" where
  "two_queue it p (i, q, c) = (if it \<in> i then Return (i - {it}, insert it q, c) else Undefined)"

fun two_free :: "addr \<Rightarrow> two_items \<Rightarrow> two_items outcome" where
  "two_free it (i, q, c) =
     (if it \<in> i \<and> it \<notin> q then Return (i - {it}, q, c) else Undefined)"

definition two_kernel :: "two_items wdm_kernel" where
  "two_kernel = \<lparr>io_allocate_work_item = two_allocate, io_queue_work_item = two_queue,
     io_free_work_item = two_free,
     ob_reference_object = (\<lambda>d (i, q, c). (i, q, c(d := c d + 1))),
     ob_dereference_object = (\<lambda>d (i, q, c). (i, q, c(d := c d - 1))),
     io_start_item = (\<lambda>it (i, q, c). (insert it i, q - {it}, c)),
     io_idle = fst, io_queued = fst \<circ> snd, ob_count = snd \<circ> snd\<rparr>"

lemma two_kernel_contract: "wdm_contract two_kernel"
  unfolding wdm_contract_def
  by (auto simp: two_kernel_def same_items_def split: if_splits)

definition two_env :: "('f \<Rightarrow> (NTSTATUS Poll \<times> 'f) activity) \<Rightarrow> ('f, bool, two_items) wi_env" where
  "two_env poll = \<lparr>w_build = \<lparr>hardening = Hardened, overflow_checks = True\<rparr>,
     w_alloc_build = release_build, w_pool = small_kernel,
     w_layout = \<lparr>layout_size = 128, layout_align = 8\<rparr>, w_event = flag_event, w_wdm = True,
     w_context = wdm_context two_kernel, w_poll = poll, w_drop = (\<lambda>f. Finish ())\<rparr>"

definition two_start :: "('f, bool, two_items) wi_state" where
  "two_start = \<lparr>wi_ptr = null, wi_task = None, wi_trackers = (\<lambda>a. work_item_tracker_new flag_event),
     wi_memory = small_memory, wi_kernel = ({}, {}, (\<lambda>d. 1)), wi_wakers = 0, wi_handles = 0,
     wi_polls = 0, wi_drops = 0, wi_frees = 0\<rparr>"

definition two_ledger :: wi_ledger where
  "two_ledger = \<lparr>wl_device = 512, wl_refs = (\<lambda>d. 1), wl_tracker = null, wl_pending = 0,
     wl_blocks = Map.empty, wl_idle = {}, wl_queued = {}\<rparr>"

lemma two_env_ok: "wi_env_ok (two_env poll)"
  unfolding wi_env_ok_def two_env_def valid_layout_def by (auto intro!: bexI [of _ 3])

lemma two_fresh: "wi_fresh (two_env poll) (wdm_view two_kernel) two_ledger two_start"
  using small_held [of debug_build "\<lparr>pool = NonPagedNx, tag = 0\<rparr>"] two_kernel_contract
  by (simp add: wi_fresh_def two_env_def two_start_def two_ledger_def wdk_held_def small_memory_def
      wt_tracked_def wdm_view_def two_kernel_def)

definition two_task :: "'f \<Rightarrow> 'f WorkItemTask" where
  "two_task f = \<lparr>wt_ref_count = 1, wt_scheduled = 1, wt_completed = 0, wt_cancel_requested = 0,
     wt_future = Holding f, wt_context = 512, wt_tracker = null, wt_work_item = 4096\<rparr>"

definition two_spawned :: "'f \<Rightarrow> ('f, bool, two_items) wi_state" where
  "two_spawned f = two_start\<lparr>wi_ptr := 65536, wi_task := Some (two_task f),
     wi_kernel := ({}, {4096}, (\<lambda>d. 1)(512 := 1 + 1)),
     wi_memory := \<lparr>bytes = (\<lambda>x. 0), blocks = [(65536, (128, KCOW_TAG))], pool2_ptr = 4096,
       pool2_state = 2\<rparr>\<rparr>"

lemmas work_item_eval =
  two_env_def two_start_def two_kernel_def wdm_context_def wdm_is_valid_def wdm_retain_def
  wdm_release_def wdm_create_work_item_def wdm_enqueue_work_item_def wdm_delete_work_item_def
  spawn_task_def spawn_work_item_def wt_allocate_def wt_schedule_def wt_tracker_begin_def
  wt_tracker_complete_def wt_add_ref_def wt_release_def with_wt_def put_wt_def

lemma two_spawn: "spawn_task (two_env poll) 512 f two_start = Return (STATUS_SUCCESS, two_spawned f)"
  by (simp add: alloc_eval executor_eval work_item_eval two_spawned_def two_task_def KCOW_TAG_def)

section \<open>Properties\<close>

text \<open>C15: In every state that a task of the work-item executor on WDM reaches, if neither the future
  nor its destructor wakes or cancels the task while its routine runs: the reference count is exactly
  the number of wakers, handles and queued work items that refer to the task; the kernel holds no work
  item of the task but the queued one and one reference to the device; once nobody refers to the task
  its block, its work items, its reference to the device and its entry in the tracker are all given
  back. No operation of a holder and no run touches freed memory, a dropped future or a work item that
  is queued or deleted.\<close>

theorem work_item_lifecycle:
  assumes "wi_env_ok E" and "wi_quiet E" and "w_context E = wdm_context W"
    and "wi_fresh E (wdm_view W) L s0"
    and "wi_reach E (wdm_arrive W E) (wl_device L) (wl_tracker L) s0 s"
  shows "(case wi_task s of
        Some t \<Rightarrow>
          unat (wt_ref_count t) = wi_wakers s + wi_handles s + (if wt_scheduled t = 0 then 0 else 1)
          \<and> wt_ref_count t \<noteq> 0 \<and> wi_drops s = (if wt_completed t = 0 then 0 else 1) \<and> wi_frees s = 0
          \<and> io_idle W (wi_kernel s) = io_idle W (wi_kernel s0)
          \<and> io_queued W (wi_kernel s)
              = io_queued W (wi_kernel s0) \<union> (if wt_scheduled t = 0 then {} else {wt_work_item t})
          \<and> ob_count W (wi_kernel s) = (ob_count W (wi_kernel s0))
              (wl_device L := ob_count W (wi_kernel s0) (wl_device L) + 1)
      | None \<Rightarrow>
          wi_wakers s = 0 \<and> wi_handles s = 0 \<and> wi_drops s \<le> 1 \<and> wi_frees s = 1
          \<and> map_of (blocks (wi_memory s)) = map_of (blocks (wi_memory s0))
          \<and> io_idle W (wi_kernel s) = io_idle W (wi_kernel s0)
          \<and> io_queued W (wi_kernel s) = io_queued W (wi_kernel s0)
          \<and> ob_count W (wi_kernel s) = ob_count W (wi_kernel s0)
          \<and> (w_wdm E \<and> wl_tracker L \<noteq> null \<longrightarrow>
              unat (wi_pending (wi_trackers s (wl_tracker L))) = wl_pending L))
    \<and> (\<forall>p. returns (wi_run_op E False p s))
    \<and> (\<forall>t. wi_task s = Some t \<longrightarrow> wt_scheduled t \<noteq> 0 \<longrightarrow> returns (wdm_arrive W E s))"
proof -
  have e: "E\<lparr>w_context := wdm_context W\<rparr> = E" using assms(3) by simp
  have ar: "\<exists>s'. wdm_arrive W E s = Return s' \<and> wi_account E (wdm_view W) L 0 None s'"
    if "wi_account E (wdm_view W) L 0 None s" "wi_task s = Some t" "wt_scheduled t \<noteq> 0" for s t
    using wdm_arrive_ok [OF assms(1-3) that] .
  have a: "wi_account E (wdm_view W) L 0 None s"
    by (rule wdm_exec.reach_account [of W E L s0 "wdm_arrive W E" s, unfolded e, OF assms(1,4,5)])
      (use ar in fastforce)
  have "returns (wi_run_op E False p s)" for p
    using wdm_exec.wi_run_op_ok [of W E L 0 None s False p, unfolded e, OF assms(1) a] by auto
  moreover have "returns (wdm_arrive W E s)" if "wi_task s = Some t" "wt_scheduled t \<noteq> 0" for t
    using ar [OF a that] by auto
  ultimately show ?thesis
    using a assms(4)
    by (cases "wi_task s")
      (auto simp: wi_account_defs wt_gone_def wi_fresh_def wdm_view_def wt_tracked_def work_item_counts_def)
qed

text \<open>C16: A future that wakes its own task from within a poll and stays pending, as a yield does,
  makes the routine free the work item that it has just queued: \<open>run\<close> takes the item out of the task
  only after the poll, when it is no longer the one whose routine runs. On kernels where freeing a
  queued item is undefined the run is undefined.\<close>

theorem self_wake_frees_queued_item:
  assumes "wi_env_ok E" and "w_context E = wdm_context W" and "wi_fresh E (wdm_view W) L s0"
    and "wl_tracker L = null" and "\<forall>it k. it \<in> io_queued W k \<longrightarrow> io_free_work_item W it k = Undefined"
    and "spawn_task E (wl_device L) f s0 = Return (STATUS_SUCCESS, s)"
    and "w_poll E f = Act WakeByRef (\<lambda>b. Finish (Pending, f'))"
    and "wi_task s = Some t"
    and "fst (io_allocate_work_item W (wl_device L) (io_start_item W (wt_work_item t) (wi_kernel s))) \<noteq> null"
  shows "wdm_arrive W E s = Undefined"
proof -
  have e: "E\<lparr>w_context := wdm_context W\<rparr> = E" using assms(2) by simp
  have sp: "wi_spawned E (wdm_view W) L f 0 s"
    using wdm_exec.spawn_ok [of W E L s0 f, unfolded e, OF assms(1,3)] assms(4,6) by (simp add: spawn_task_def)
  then have n: "wi_ptr s \<noteq> null" "wl_device L \<noteq> null" by (simp_all add: wi_spawned_def wi_account_def)
  obtain it2 k1 where al: "io_allocate_work_item W (wl_device L)
      (io_start_item W (wt_work_item t) (wi_kernel s)) = (it2, k1)" "it2 \<noteq> null"
    using assms(9) by (metis prod.collapse)
  have "wt_run E null (s\<lparr>wi_kernel := v_start (wdm_view W) (wt_work_item t) (wi_kernel s)\<rparr>) = Undefined"
    by (rule wdm_exec.run_self_wake [of W E L f 0 s t f' it2 k1 null, unfolded e, OF sp assms(8,7)])
      (use assms(2,5) al n(2) in \<open>auto simp: wdm_context_def wdm_create_work_item_def wdm_view_def
         wdm_delete_work_item_def\<close>)
  then show ?thesis
    using n(1) assms(8) by (simp add: wdm_arrive_def wdm_work_item_routine_def with_wt_Some wdm_view_def)
qed

definition waking_poll :: "nat \<Rightarrow> (NTSTATUS Poll \<times> nat) activity" where
  "waking_poll f =
     (if f = 0 then Finish (Ready STATUS_SUCCESS, 0) else Act WakeByRef (\<lambda>b. Finish (Pending, f - 1)))"

theorem self_wake_frees_queued_item_witness:
  "wdm_arrive two_kernel (two_env waking_poll) (two_spawned 1) = Undefined"
proof (rule self_wake_frees_queued_item [where L = two_ledger and W = two_kernel and ?s0.0 = two_start
      and f = 1 and t = "two_task 1"])
  show "wi_env_ok (two_env waking_poll)" by (rule two_env_ok)
  show "wi_fresh (two_env waking_poll) (wdm_view two_kernel) two_ledger two_start" by (rule two_fresh)
  show "spawn_task (two_env waking_poll) (wl_device two_ledger) 1 two_start
      = Return (STATUS_SUCCESS, two_spawned 1)"
    using two_spawn by (simp add: two_ledger_def)
qed (auto simp: two_env_def two_ledger_def two_kernel_def waking_poll_def two_spawned_def two_task_def)

text \<open>C17: The executor does not always drop the future: when a poll returns pending without keeping
  a waker, the run frees the task and returns everything else, but the future is never dropped; nor is
  it when the spawn fails after the task was allocated. (The DPC executor drops it in both places.)\<close>

theorem abandoned_future_never_dropped:
  assumes "wi_env_ok E" and "w_context E = wdm_context W" and "wi_fresh E (wdm_view W) L s0"
    and "wl_tracker L = null" and "spawn_task E (wl_device L) f s0 = Return (st, s)"
  shows "(st = STATUS_SUCCESS \<longrightarrow> w_poll E f = Finish (Pending, f') \<longrightarrow>
        (\<exists>s'. wdm_arrive W E s = Return s' \<and> wi_task s' = None \<and> wi_frees s' = 1 \<and> wi_drops s' = 0))
    \<and> (st \<noteq> STATUS_SUCCESS \<longrightarrow> wi_task s = None \<and> (wi_drops s = 0 \<longleftrightarrow> wi_frees s = 1))"
proof -
  have e: "E\<lparr>w_context := wdm_context W\<rparr> = E" using assms(2) by simp
  have sp: "if st = STATUS_SUCCESS then wi_spawned E (wdm_view W) L f 0 s else wi_refused E (wdm_view W) L s"
    using wdm_exec.spawn_ok [of W E L s0 f, unfolded e, OF assms(1,3)] assms(4,5) by (simp add: spawn_task_def)
  have "\<exists>s'. wdm_arrive W E s = Return s' \<and> wi_task s' = None \<and> wi_frees s' = 1 \<and> wi_drops s' = 0"
    if "st = STATUS_SUCCESS" "w_poll E f = Finish (Pending, f')"
  proof -
    have sp': "wi_spawned E (wdm_view W) L f 0 s" using sp that(1) by simp
    then obtain t where t: "wi_task s = Some t" "wi_ptr s \<noteq> null"
      by (auto simp: wi_spawned_def wi_account_def)
    from wdm_exec.run_abandoned [of W E L f s f' t null, unfolded e, OF assms(1) sp' that(2) t(1)]
    show ?thesis
      using t by (auto simp: wdm_arrive_def wdm_work_item_routine_def with_wt_Some wdm_view_def
          wi_account_def wt_gone_def)
  qed
  then show ?thesis using sp by (auto simp: wi_refused_def)
qed

theorem abandoned_future_never_dropped_witness:
  "\<exists>s'. wdm_arrive two_kernel (two_env (\<lambda>f :: nat. Finish (Pending, f))) (two_spawned 7) = Return s'
     \<and> wi_task s' = None \<and> wi_frees s' = 1 \<and> wi_drops s' = 0"
proof -
  let ?E = "two_env (\<lambda>f :: nat. Finish (Pending, f))"
  have s: "spawn_task ?E (wl_device two_ledger) 7 two_start = Return (STATUS_SUCCESS, two_spawned 7)"
    using two_spawn by (simp add: two_ledger_def)
  show ?thesis
    using abandoned_future_never_dropped [OF two_env_ok _ two_fresh _ s, of 7]
    by (simp add: two_env_def two_ledger_def)
qed

theorem work_item_lifecycle_witness:
  "\<exists>s. wi_reach (two_env (\<lambda>f :: nat. Finish (Ready STATUS_SUCCESS, f)))
      (wdm_arrive two_kernel (two_env (\<lambda>f :: nat. Finish (Ready STATUS_SUCCESS, f)))) 512 null two_start s
    \<and> wi_task s = None \<and> wi_drops s = 1 \<and> wi_frees s = 1 \<and> ob_count two_kernel (wi_kernel s) 512 = 1"
proof -
  let ?E = "two_env (\<lambda>f :: nat. Finish (Ready STATUS_SUCCESS, f))"
  obtain s where s: "wdm_arrive two_kernel ?E (two_spawned 0) = Return s" "wi_task s = None" "wi_drops s = 1"
    by (simp add: alloc_eval executor_eval work_item_eval two_spawned_def two_task_def wdm_arrive_def
        wdm_work_item_routine_def wt_run_def wt_poll_def wt_raw_waker_def wt_drop_raw_def
        wt_finish_future_def wt_free_def kbox_drop_def wdk_ops_def kbox_from_raw_parts_def KCOW_TAG_def)
  have "wi_reach ?E (wdm_arrive two_kernel ?E) 512 null two_start (two_spawned 0)"
    by (rule wi_spawned_untracked) (simp_all add: two_spawn)
  then have r: "wi_reach ?E (wdm_arrive two_kernel ?E) 512 null two_start s"
    by (rule wi_ran [where t = "two_task 0"]) (simp_all add: s(1), simp_all add: two_spawned_def two_task_def)
  have "wi_reach ?E (wdm_arrive two_kernel ?E) (wl_device two_ledger) (wl_tracker two_ledger) two_start s"
    using r by (simp add: two_ledger_def)
  moreover have "wi_quiet ?E" "w_context ?E = wdm_context two_kernel"
    by (simp_all add: wi_quiet_def two_env_def)
  ultimately show ?thesis
    using work_item_lifecycle [OF two_env_ok _ _ two_fresh] r s(2,3)
    by (fastforce simp: two_start_def two_kernel_def)
qed

end
