(* ===== verification/Trace.thy ===== *)
theory Trace
  imports Iunknown
begin

text \<open>
  The trace hook of \<open>src/trace.rs\<close> and the macros \<open>ensure!\<close> and \<open>trace!\<close> of \<open>src/macros/helpers.rs\<close>. A
  hook is a parameter; the state is the global \<open>TRACE_HOOK\<close> and the calls the hooks have received.
\<close>

text \<open>Formatted arguments, by the format and its arguments.\<close>

datatype trace_args =
    ErrorAt NTSTATUS string u32
  | ErrorAtMsg NTSTATUS string u32 string
  | TraceMsg string

record 'h tracer =
  trace_hook :: "'h option"
  trace_calls :: "('h \<times> trace_args) list"

definition set_trace_hook :: "'h \<Rightarrow> 'h tracer \<Rightarrow> 'h tracer" where
  "set_trace_hook hook t = t\<lparr>trace_hook := Some hook\<rparr>"

definition clear_trace_hook :: "'h tracer \<Rightarrow> 'h tracer" where
  "clear_trace_hook t = t\<lparr>trace_hook := None\<rparr>"

definition trace :: "trace_args \<Rightarrow> 'h tracer \<Rightarrow> 'h tracer" where
  "trace args t =
     (case trace_hook t of
        None \<Rightarrow> t
      | Some hook \<Rightarrow> t\<lparr>trace_calls := trace_calls t @ [(hook, args)]\<rparr>)"

definition report_error :: "string \<Rightarrow> u32 \<Rightarrow> NTSTATUS \<Rightarrow> 'h tracer \<Rightarrow> 'h tracer" where
  "report_error file line status t = trace (ErrorAt status file line) t"

definition report_error_msg :: "string \<Rightarrow> u32 \<Rightarrow> NTSTATUS \<Rightarrow> string \<Rightarrow> 'h tracer \<Rightarrow> 'h tracer" where
  "report_error_msg file line status msg t = trace (ErrorAtMsg status file line msg) t"

text \<open>
  \<open>ensure!\<close>, with and without a message: \<open>Some status\<close> when it returns \<open>Err(status)\<close> from the function
  that contains it; \<open>debug\<close> tells whether the report is compiled in.
\<close>

definition ensure ::
  "bool \<Rightarrow> bool \<Rightarrow> NTSTATUS \<Rightarrow> string option \<Rightarrow> string \<Rightarrow> u32 \<Rightarrow> 'h tracer \<Rightarrow> NTSTATUS option \<times> 'h tracer" where
  "ensure debug cond status msg file line t =
     (if \<not> cond then
        (Some status,
         if debug then
           (case msg of
              None \<Rightarrow> report_error file line status t
            | Some m \<Rightarrow> report_error_msg file line status m t)
         else t)
      else (None, t))"

definition trace_macro :: "string \<Rightarrow> 'h tracer \<Rightarrow> 'h tracer" where
  "trace_macro msg t = trace (TraceMsg msg) t"

text \<open>
  A failing \<open>ensure!\<close> returns its status whatever the hook and the build, tells the hook that is
  installed exactly once in debug builds, and nobody otherwise.
\<close>

lemma ensure_reports:
  "fst (ensure debug cond status msg file line t) = (if cond then None else Some status)
   \<and> trace_calls (snd (ensure debug cond status msg file line t)) = trace_calls t @
       (case trace_hook t of
          Some hook \<Rightarrow> if \<not> cond \<and> debug then
              [(hook, case msg of None \<Rightarrow> ErrorAt status file line | Some m \<Rightarrow> ErrorAtMsg status file line m)]
            else []
        | None \<Rightarrow> [])
   \<and> trace_hook (snd (ensure debug cond status msg file line t)) = trace_hook t"
  by (auto simp: ensure_def report_error_def report_error_msg_def trace_def split: option.splits)

end
