(* ===== verification/Pool_Lookup.thy ===== *)
theory Pool_Lookup
  imports Allocator
begin

text \<open>
  The lazy lookup of \<open>ExAllocatePool2\<close> in \<open>src/allocator.rs\<close> under concurrency. The body of
  \<open>try_init_ex_allocate_pool2\<close> is three atomic accesses (the claim by \<open>compare_exchange\<close> and two
  stores) around one call of the kernel; \<open>lookup_step\<close> interleaves them for any number of threads.
\<close>

datatype init_pc = Entered | Claimed | Stored | Finished

record lookup =
  lk_state :: usize
  lk_ptr :: usize
  lk_calls :: nat
  lk_pc :: "nat \<Rightarrow> init_pc"

definition set_pc :: "nat \<Rightarrow> init_pc \<Rightarrow> lookup \<Rightarrow> lookup" where
  "set_pc i pc s = s\<lparr>lk_pc := (lk_pc s)(i := pc)\<rparr>"

inductive lookup_step :: "kernel \<Rightarrow> lookup \<Rightarrow> lookup \<Rightarrow> bool" for K where
  high_irql: "lk_pc s i = Entered \<Longrightarrow> lookup_step K s (set_pc i Finished s)"
| claim: "lk_pc s i = Entered \<Longrightarrow> lk_state s = EX_ALLOCATE_POOL2_STATE_UNINIT \<Longrightarrow>
    lookup_step K s (set_pc i Claimed (s\<lparr>lk_state := EX_ALLOCATE_POOL2_STATE_INITING\<rparr>))"
| lost: "lk_pc s i = Entered \<Longrightarrow> lk_state s \<noteq> EX_ALLOCATE_POOL2_STATE_UNINIT \<Longrightarrow>
    lookup_step K s (set_pc i Finished s)"
| store_ptr: "lk_pc s i = Claimed \<Longrightarrow>
    lookup_step K s (set_pc i Stored
      (s\<lparr>lk_ptr := resolved_pool2 K, lk_calls := Suc (lk_calls s)\<rparr>))"
| publish: "lk_pc s i = Stored \<Longrightarrow>
    lookup_step K s (set_pc i Finished (s\<lparr>lk_state := EX_ALLOCATE_POOL2_STATE_READY\<rparr>))"
| call_again: "lk_pc s i = Finished \<Longrightarrow> lookup_step K s (set_pc i Entered s)"

inductive lookup_reach :: "kernel \<Rightarrow> lookup \<Rightarrow> bool" for K where
  start: "lookup_reach K \<lparr>lk_state = EX_ALLOCATE_POOL2_STATE_UNINIT, lk_ptr = 0, lk_calls = 0,
    lk_pc = (\<lambda>i. Finished)\<rparr>"
| step: "lookup_reach K s \<Longrightarrow> lookup_step K s s' \<Longrightarrow> lookup_reach K s'"

text \<open>The two loads at the end of \<open>get_ex_allocate_pool2\<close>.\<close>

definition lookup_result :: "lookup \<Rightarrow> addr option" where
  "lookup_result s =
     (if lk_state s \<noteq> EX_ALLOCATE_POOL2_STATE_READY then None
      else if lk_ptr s = 0 then None else Some (lk_ptr s))"

lemma set_pc_simps [simp]:
  "lk_state (set_pc i pc s) = lk_state s" "lk_ptr (set_pc i pc s) = lk_ptr s"
  "lk_calls (set_pc i pc s) = lk_calls s" "lk_pc (set_pc i pc s) = (lk_pc s)(i := pc)"
  by (simp_all add: set_pc_def)

lemma pool2_states_distinct [simp]:
  "EX_ALLOCATE_POOL2_STATE_UNINIT \<noteq> EX_ALLOCATE_POOL2_STATE_INITING"
  "EX_ALLOCATE_POOL2_STATE_UNINIT \<noteq> EX_ALLOCATE_POOL2_STATE_READY"
  "EX_ALLOCATE_POOL2_STATE_INITING \<noteq> EX_ALLOCATE_POOL2_STATE_READY"
  "EX_ALLOCATE_POOL2_STATE_INITING \<noteq> EX_ALLOCATE_POOL2_STATE_UNINIT"
  "EX_ALLOCATE_POOL2_STATE_READY \<noteq> EX_ALLOCATE_POOL2_STATE_UNINIT"
  "EX_ALLOCATE_POOL2_STATE_READY \<noteq> EX_ALLOCATE_POOL2_STATE_INITING"
  by (simp_all add: EX_ALLOCATE_POOL2_STATE_UNINIT_def EX_ALLOCATE_POOL2_STATE_INITING_def
      EX_ALLOCATE_POOL2_STATE_READY_def)

text \<open>A thread between its claim and its publication is alone there.\<close>

definition busy :: "init_pc \<Rightarrow> bool" where
  "busy pc \<longleftrightarrow> pc = Claimed \<or> pc = Stored"

definition lookup_inv :: "kernel \<Rightarrow> lookup \<Rightarrow> bool" where
  "lookup_inv K s \<longleftrightarrow>
     (\<forall>i. busy (lk_pc s i) \<longrightarrow> lk_state s = EX_ALLOCATE_POOL2_STATE_INITING)
     \<and> (\<forall>i j. busy (lk_pc s i) \<longrightarrow> busy (lk_pc s j) \<longrightarrow> i = j)
     \<and> (\<forall>i. lk_pc s i = Claimed \<longrightarrow> lk_calls s = 0)
     \<and> (\<forall>i. lk_pc s i = Stored \<longrightarrow> lk_calls s = 1 \<and> lk_ptr s = resolved_pool2 K)
     \<and> (lk_state s = EX_ALLOCATE_POOL2_STATE_UNINIT \<longrightarrow> lk_calls s = 0)
     \<and> (lk_state s = EX_ALLOCATE_POOL2_STATE_READY \<longrightarrow>
          lk_calls s = 1 \<and> lk_ptr s = resolved_pool2 K)
     \<and> lk_calls s \<le> 1"

lemma lookup_inv_step:
  assumes "lookup_inv K s" and "lookup_step K s s'"
  shows "lookup_inv K s'"
  using assms(2,1)
  by (cases rule: lookup_step.cases) (auto simp: lookup_inv_def busy_def split: if_splits)

text \<open>C40: The lookup of \<open>ExAllocatePool2\<close> is safe for any number of threads that enter it at any
  time: the kernel is asked for the routine at most once, and a thread that finds the state ready
  never gets anything but the address the kernel gave (or none, when the routine does not
  exist).\<close>

theorem pool2_lookup_safe:
  assumes "lookup_reach K s"
  shows "lk_calls s \<le> 1
    \<and> (\<forall>f. lookup_result s = Some f \<longrightarrow> f = resolved_pool2 K \<and> f \<noteq> null)
    \<and> (\<forall>s' i. lookup_step K s s' \<longrightarrow> lk_state s = EX_ALLOCATE_POOL2_STATE_READY \<longrightarrow>
        lk_state s' = EX_ALLOCATE_POOL2_STATE_READY \<and> lk_ptr s' = lk_ptr s)"
proof -
  have inv: "lookup_inv K s"
    using assms
  proof (induction rule: lookup_reach.induct)
    case start
    then show ?case by (simp add: lookup_inv_def busy_def)
  qed (rule lookup_inv_step)
  have "lk_state s' = EX_ALLOCATE_POOL2_STATE_READY \<and> lk_ptr s' = lk_ptr s"
    if "lookup_step K s s'" "lk_state s = EX_ALLOCATE_POOL2_STATE_READY" for s'
    using that inv by (cases rule: lookup_step.cases) (auto simp: lookup_inv_def busy_def)
  then show ?thesis using inv by (auto simp: lookup_inv_def lookup_result_def split: if_splits)
qed

theorem pool2_lookup_safe_witness:
  "\<exists>s. lookup_reach small_kernel s \<and> lk_calls s = 1
    \<and> lookup_result s = Some (resolved_pool2 small_kernel)"
proof -
  define s0 where "s0 = \<lparr>lk_state = EX_ALLOCATE_POOL2_STATE_UNINIT, lk_ptr = 0, lk_calls = 0,
    lk_pc = (\<lambda>i. Finished)\<rparr>"
  define s1 where "s1 = set_pc 0 Entered s0"
  define s2 where "s2 = set_pc 0 Claimed (s1\<lparr>lk_state := EX_ALLOCATE_POOL2_STATE_INITING\<rparr>)"
  define s3 where "s3 = set_pc 0 Stored
    (s2\<lparr>lk_ptr := resolved_pool2 small_kernel, lk_calls := Suc (lk_calls s2)\<rparr>)"
  define s4 where "s4 = set_pc 0 Finished (s3\<lparr>lk_state := EX_ALLOCATE_POOL2_STATE_READY\<rparr>)"
  note defs = s0_def s1_def s2_def s3_def s4_def
  have "lookup_reach small_kernel s0" unfolding s0_def by (rule lookup_reach.start)
  then have "lookup_reach small_kernel s1"
    unfolding s1_def by (rule lookup_reach.step) (rule lookup_step.call_again, simp add: defs)
  then have "lookup_reach small_kernel s2"
    unfolding s2_def by (rule lookup_reach.step) (rule lookup_step.claim, simp_all add: defs)
  then have "lookup_reach small_kernel s3"
    unfolding s3_def by (rule lookup_reach.step) (rule lookup_step.store_ptr, simp add: defs)
  then have reach: "lookup_reach small_kernel s4"
    unfolding s4_def by (rule lookup_reach.step) (rule lookup_step.publish, simp add: defs)
  moreover have "lookup_result s4 \<noteq> None" "lk_calls s4 = 1"
    by (simp_all add: lookup_result_def defs resolved_pool2_def small_kernel_def)
  ultimately show ?thesis using pool2_lookup_safe [OF reach] by auto
qed

end
