(* ===== verification/Spec2Isabelle.thy ===== *)
theory Spec2Isabelle
  imports Timer_Task_Properties Examples Async_Methods Unit_Tests Async_Dpc_Properties Descriptors Dpc_Race Dpc_Cancellation Work_Item_Properties Timer_Properties Interface_Properties Trace Smart_Ptr
    Pool_Lookup KBox Task Unicode
begin

text \<open>
  A verification development of \<open>kcom-rs\<close>, a Rust library for COM objects in Windows kernel drivers:
  reference-counted objects with \<open>IUnknown\<close> and further interfaces, the allocators they live in, and
  executors that run asynchronous operations as DPCs and work items. All paths are below \<open>src/\<close> of the
  repository.

  \<^bold>\<open>How the program is modelled.\<close> A function of the source is a HOL function on an explicit state. The
  type \<open>outcome\<close> of the theory \<open>Prelude\<close> is what a call can do: return a value, unwind with a panic, stop
  the system (the fail-fast functions), or be undefined, which stands for every access the safety
  contracts of the source exclude (freed, null or mistyped memory, a second drop). Machine integers are
  words of their width, pointers to objects are the data type \<open>com_ptr\<close>, other addresses are words.
  Atomics are read and written in single steps; what runs concurrently is cut into the steps between
  which the other side may run, where the theory says so (\<open>Pool_Lookup\<close>, \<open>Tracker\<close>, \<open>Kernel_Timer\<close>, \<open>Dpc_Race\<close>), and
  otherwise operations run one after the other in any order. Code outside the repository is a
  parameter with its documented behaviour as a hypothesis: the kernel routines (the pool functions of \<open>Pool\<close>, the records
  \<open>event_ops\<close>, \<open>dpc_ops\<close>, \<open>lock_ops\<close>, \<open>timer_ops\<close>, the work items of \<open>Task_Context\<close>), the inner types of objects, outer
  objects of aggregation, and the futures that the executors run.

  \<^bold>\<open>Objects.\<close> \<open>Iunknown\<close> has the status codes and identifiers of \<open>iunknown.rs\<close> and \<open>vtable.rs\<close>; \<open>Refcount\<close> the
  counters of \<open>refcount.rs\<close> in their three builds, with the abstract bounded counter they refine, how far the
  leaky build may fall short of it, and the locale \<open>counter\<close> that objects rely on. \<open>Wrapper\<close> has \<open>ComObject\<close> and \<open>ComObjectN\<close> of \<open>wrapper.rs\<close>: layout,
  construction, aggregation, the \<open>IUnknown\<close> shims of all vtables, destruction. \<open>Com_Contract\<close> states the
  contract of a COM object to its clients as locales, which \<open>Wrapper\<close> and \<open>Com_Objects\<close> interpret on the
  shims; \<open>Com_Objects\<close> has queries, aggregation, panics and resurrection. \<open>Smart_Ptr\<close> is \<open>ComRc\<close> of
  \<open>smart_ptr.rs\<close>, with the states that clients reach. \<open>Interfaces\<close> is what the macros of \<open>macros/\<close> and
  \<open>impl_com_object!\<close> of \<open>lib.rs\<close> generate: vtables as lists of shims, \<open>ComImpl\<close> instances, method shims;
  \<open>Interface_Properties\<close> shows which interfaces a query finds, that vtables extend those of their
  ancestors, what method shims see, which allocator a \<open>Release\<close> slot gives an object to, and what
  asynchronous methods and their futures do to references. \<open>Trace\<close> is \<open>trace.rs\<close>
  with \<open>ensure!\<close>.

  \<^bold>\<open>Memory.\<close> \<open>Memory\<close> is byte memory; \<open>Pool\<close> the two pool routines of \<open>allocator.rs\<close> on top of the kernel's
  (parameters); \<open>Allocator\<close> is \<open>WdkAllocator\<close> and \<open>GlobalAllocator\<close> with the header in front of over-aligned
  blocks, and the contract of an allocator as a locale that they interpret; \<open>KBox\<close> the helpers (with the
  exact account of blocks as a second locale), \<open>KBox\<close>, \<open>PinInitOnce\<close>
  and \<open>InitBox\<close>; \<open>Pool_Lookup\<close> the lazy lookup of \<open>ExAllocatePool2\<close> by any number of threads. \<open>Unicode\<close> is
  \<open>unicode.rs\<close>, with UTF-16 encoding and decoding of the standard library.

  \<^bold>\<open>Executors.\<close> \<open>Task\<close> is \<open>try_finally\<close> of \<open>task.rs\<close>. From \<open>executor.rs\<close>, \<open>Tracker\<close> has the task trackers,
  \<open>Dpc_Task\<close> the DPC executor, \<open>Dpc_Safety\<close> the account of its references, \<open>Dpc_Runs\<close> the loop of the
  routine and \<open>Dpc_Properties\<close> the reachable states with their properties, where operations and runs of
  the DPC do not overlap, \<open>Dpc_Cancellation\<close> counts the deliveries of a cancellation over all runs; \<open>Dpc_Race\<close> has the same functions cut into their atomic accesses, for any
  number of threads; \<open>Task_Context\<close> has the trait of
  that name with its WDM and KMDF implementations as interpretations of one locale, \<open>Work_Item_Task\<close>,
  \<open>Work_Item_Safety\<close> and \<open>Work_Item_Properties\<close> the work-item executor; \<open>Kernel_Timer\<close> and
  \<open>Timer_Properties\<close> the timer future against its DPC. \<open>Async_Com\<close> is \<open>async_com.rs\<close> and \<open>guard_ptr.rs\<close>, with
  the executor of builds without a kernel; \<open>Async_Properties\<close> the life of an operation. The future of a
  DPC task acts on a world of its own besides the wakers and handles of the task: \<open>Async_Dpc\<close> takes the
  world of objects for it and the block of an operation for the future, so that operations and the
  executor are one system, and \<open>Async_Dpc_Properties\<close> shows that the block keeps a contract with the
  executor and what follows for clients. \<open>Timer_Task\<close> takes the world of the timer for it and a block that
  awaits a timer for the future; \<open>Timer_Task_Properties\<close> shows that such a task completes. \<open>Async_Methods\<close> puts the
  asynchronous method shims of \<open>Interfaces\<close>, their operation and the executor of builds without a kernel into
  one memory.

  \<^bold>\<open>Descriptors.\<close> \<open>Descriptors\<close> has the macros of \<open>descriptors.rs\<close>, which fill in structs of the PortCls
  headers, with the statics they create, and what a reader of such a struct finds; what the compiler demands
  of an expansion is not modelled, and \<open>lib.rs\<close> does not declare the module.

  \<^bold>\<open>Clients.\<close> \<open>Unit_Tests\<close> has the tests inside \<open>wrapper.rs\<close>, \<open>smart_ptr.rs\<close>, \<open>async_com.rs\<close> and \<open>unicode.rs\<close> as
  programs over the model, whose assertions are panics: each returns in every build of the counters; two
  tests of \<open>wrapper.rs\<close> that run at the same time do not. \<open>Examples\<close> has seven of the programs under \<open>examples/\<close>,
  with the interfaces and methods they declare, and \<open>Timer_Task\<close> the eighth; each returns.

  \<^bold>\<open>What is shown.\<close> Each property stands after a text with its number. For objects: exact counting and
  single destruction for all legal histories, identity and counting of \<open>QueryInterface\<close>, ownership by
  smart pointers, aggregation, construction. For memory: aligned, disjoint blocks that are given back
  as they were taken, whatever their owner writes. For executors: the reference count is the number of
  holders in every reachable state and everything is released exactly once at the end, wake-ups are not
  lost, cancellation is delivered at most once over all runs and reaches a task that asks, runs of the DPC end, a task that awaits a timer completes. For
  operations: clients read pending, the result, or the error, never an uninitialised value, also when an
  asynchronous method started the operation. A number of theorems show where the code does not
  do what it means to: derived interfaces are not found by \<open>QueryInterface\<close>, primary methods of objects
  with several interfaces that read their state read it at the wrong offset, objects of other allocators are
  freed by the global one with the wrong layout, an asynchronous method whose future is dropped unpolled leaks
  its object, a wake-up from another processor makes two runs of a DPC poll one future at
  the same time, a work item is freed while it is queued, a timer loses a wake-up, a stale
  signal ends a drain, a future or an object is destroyed twice, and a few smaller ones.

  \<^bold>\<open>Bounds and fuel.\<close> The loop of the DPC routine may run for ever under an unlimited future, so
  \<open>dpc_loop\<close> takes fuel; \<open>dpc_run_terminates\<close> shows how much is enough under both budgets. The kernel that
  runs what is due for an example takes fuel too; ten steps are enough for the timer
  (\<open>timer_driver_run_ends\<close>). All other functions are total without fuel. Counters are bounded by \<open>refcount_cap\<close>, the number of references a
  build can count; properties of counting assume that there are not more. \<open>method_shims_find_inner\<close> is
  for inner types of alignment up to 16, for which the two offsets always differ.

  \<^bold>\<open>Not modelled.\<close> The memory orderings of atomics (every access is sequentially consistent here).
  \<open>ntddk.rs\<close>, which declares kernel functions and types, \<open>driver_test_stub.rs\<close> and \<open>build.rs\<close>; the host and
  miri variants of the allocators, which forward to the language runtime. The integration tests below
  \<open>tests/\<close> and \<open>kcom-tests/\<close> and the benchmarks, which are clients that use what the unit tests use. Traits
  and marker types without behaviour, and the \<open>Send\<close> and \<open>Sync\<close> claims. Formatting of trace messages.
  Fallbacks of \<open>ComImpl\<close> instances that form a cycle, which recurse for ever. In \<open>Timer_Task\<close> the blocks of
  the executor and of the timer lie in two states of the pool, and its steps do not overlap; overlapping
  polls are in \<open>Dpc_Race\<close>, overlapping runs of the timer's DPC in \<open>Kernel_Timer\<close>.

  \<^bold>\<open>Plan.\<close> The work-item executor cut into its atomic accesses like \<open>Dpc_Race\<close>: it is modelled without
  overlapping runs only. Asynchronous methods on the DPC executor, where \<open>Interfaces\<close> takes the spawn
  functions as parameters.
\<close>

end
